(* ===== verification/Prelude.thy ===== *)
theory Prelude
  imports Main "HOL-Library.Word"
begin

text \<open>
  Shared vocabulary of the development: machine-word synonyms, the kernel's error codes and the
  result type of the C functions, the faults a kernel function can run into, and the lemmas on
  byte memory, masks and function results that the components use.

  A C function that returns \<open>-E...\<close> or a non-negative number has the type \<open>cret\<close>: \<open>Inl e\<close> is the
  return value \<open>-e\<close>, \<open>Inr n\<close> the return value \<open>n\<close>. A C function that can dereference a null
  pointer, access memory past an object or after it was freed, divide by zero, free a pointer that was
  never allocated or loop for ever has a result \<open>kfault + 'a\<close>.
\<close>

unbundle bit_operations_syntax

type_synonym u8 = "8 word"
type_synonym u32 = "32 word"
type_synonym u64 = "64 word"

datatype errno = EPERM | EINTR | EIO | ENXIO | EAGAIN | ENOMEM | EFAULT | EBUSY | EEXIST | ENODEV
  | EINVAL | ENOTTY | ENOSPC | EPIPE | EDOM | ENOSYS | EIDRM | EBADF | ENETDOWN | EPROTONOSUPPORT
  | EOPNOTSUPP | ENOPROTOOPT | EMSGSIZE | ETIMEDOUT | ECOMM | ERESTARTSYS

text \<open>\<open>EWOULDBLOCK\<close> is \<open>EAGAIN\<close> in the kernel's headers.\<close>

abbreviation EWOULDBLOCK :: errno where
  "EWOULDBLOCK \<equiv> EAGAIN"

type_synonym cret = "errno + int"

datatype kfault = NullDeref | OutOfBounds | DivByZero | BadFree | UseAfterFree | Diverges

type_synonym 'a kres = "kfault + 'a"

named_theorems model_defs \<open>definitions of the model that the component proofs unfold\<close>
named_theorems ring_simps \<open>rewrite rules of the ring buffers\<close>
named_theorems chain_simps \<open>rewrite rules of the linked receiver lists\<close>

definition kbind :: "'a kres \<Rightarrow> ('a \<Rightarrow> 'b kres) \<Rightarrow> 'b kres" where
  "kbind r f = (case r of Inl e \<Rightarrow> Inl e | Inr a \<Rightarrow> f a)"

lemma kbind_simps [simp]:
  "kbind (Inl e) f = Inl e"
  "kbind (Inr a) f = f a"
  by (simp_all add: kbind_def)

lemma kbind_eq_Inr: "kbind r f = Inr b \<longleftrightarrow> (\<exists>a. r = Inr a \<and> f a = Inr b)"
  by (cases r) simp_all

section \<open>Masks\<close>

text \<open>The code advances every ring index with \<open>(i + n) & (SIZE - 1)\<close>.\<close>

lemma and_pow2_mask: "(x::nat) AND (2 ^ k - Suc 0) = x mod 2 ^ k"
  by (metis One_nat_def mask_eq_exp_minus_1 take_bit_eq_mask take_bit_eq_mod)

lemma mod_wrap: "(m::nat) \<le> a \<Longrightarrow> a < m + m \<Longrightarrow> a mod m = a - m"
  by (simp add: le_mod_geq)

lemma map_append_split:
  assumes "map f zs = xs @ ys"
  obtains us vs where "zs = us @ vs" "map f us = xs" "map f vs = ys"
  using assms unfolding map_eq_append_conv by metis

section \<open>Byte memory\<close>

text \<open>Reading an updated list, at any index.\<close>

lemma nth_list_update_any: "xs[i := v] ! j = (if i = j \<and> i < length xs then v else xs ! j)"
  by (cases "i < length xs") (simp_all add: nth_list_update list_update_beyond)


text \<open>\<open>memcpy_at mem off bs\<close> is the memory after \<open>memcpy(&mem[off], bs, length bs)\<close>.\<close>

definition memcpy_at :: "'a list \<Rightarrow> nat \<Rightarrow> 'a list \<Rightarrow> 'a list" where
  "memcpy_at mem off bs = take off mem @ bs @ drop (off + length bs) mem"

lemma length_memcpy_at [simp]:
  "off + length bs \<le> length mem \<Longrightarrow> length (memcpy_at mem off bs) = length mem"
  by (simp add: memcpy_at_def)

lemma memcpy_at_Nil [simp]: "memcpy_at mem off [] = mem"
  by (simp add: memcpy_at_def)

lemma nth_memcpy_at:
  assumes "off + length bs \<le> length mem" "i < length mem"
  shows "memcpy_at mem off bs ! i =
    (if off \<le> i \<and> i < off + length bs then bs ! (i - off) else mem ! i)"
  using assms by (auto simp: memcpy_at_def nth_append min_def)

lemma take_memcpy_at:
  "off + length bs \<le> length mem \<Longrightarrow> n \<le> off \<Longrightarrow> take n (memcpy_at mem off bs) = take n mem"
  by (simp add: memcpy_at_def)

lemma memcpy_at_append:
  assumes "off + length xs + length ys \<le> length mem"
  shows "memcpy_at (memcpy_at mem off xs) (off + length xs) ys = memcpy_at mem off (xs @ ys)"
proof -
  have "take (off + length xs) (memcpy_at mem off xs) = take off mem @ xs"
    using assms by (simp add: memcpy_at_def)
  moreover have "drop (off + length xs + length ys) (memcpy_at mem off xs)
      = drop (off + length xs + length ys) mem"
    using assms by (cases xs) (auto simp: memcpy_at_def min_def ac_simps)
  ultimately show ?thesis by (simp add: memcpy_at_def add.assoc)
qed

lemma take_memcpy_at_exact:
  "off \<le> length mem \<Longrightarrow> take (off + length bs) (memcpy_at mem off bs) = take off mem @ bs"
  by (simp add: memcpy_at_def)

section \<open>Decimal numbers\<close>

text \<open>What \<open>printf\<close> writes for \<open>%d\<close>.\<close>

fun dec_digits :: "nat \<Rightarrow> string" where
  "dec_digits n = (if n < 10 then [char_of (48 + n)]
     else dec_digits (n div 10) @ [char_of (48 + n mod 10)])"

declare dec_digits.simps [simp del]

lemma dec_digits_small: "n < 10 \<Longrightarrow> dec_digits n = [char_of (48 + n)]"
  by (subst dec_digits.simps) simp

section \<open>Option and sum results\<close>

definition is_err :: "cret \<Rightarrow> bool" where
  "is_err r = (case r of Inl e \<Rightarrow> True | Inr n \<Rightarrow> False)"

lemma is_err_simps [simp]: "is_err (Inl e)" "\<not> is_err (Inr n)"
  by (simp_all add: is_err_def)

lemma not_is_err: "\<not> is_err r \<longleftrightarrow> (\<exists>n. r = Inr n)"
  by (cases r) simp_all

section \<open>Reachable states and invariants\<close>

inductive reach :: "('s \<Rightarrow> bool) \<Rightarrow> ('s \<Rightarrow> 's \<Rightarrow> bool) \<Rightarrow> 's \<Rightarrow> bool"
  for init :: "'s \<Rightarrow> bool" and step :: "'s \<Rightarrow> 's \<Rightarrow> bool" where
  reach_init: "init s \<Longrightarrow> reach init step s"
| reach_step: "reach init step s \<Longrightarrow> step s t \<Longrightarrow> reach init step t"

locale inductive_invariant =
  fixes init :: "'s \<Rightarrow> bool"
    and step :: "'s \<Rightarrow> 's \<Rightarrow> bool"
    and inv :: "'s \<Rightarrow> bool"
  assumes inv_init: "init s \<Longrightarrow> inv s"
    and inv_step: "inv s \<Longrightarrow> step s t \<Longrightarrow> inv t"
begin

lemma reach_inv: "reach init step s \<Longrightarrow> inv s"
  by (induction rule: reach.induct) (auto intro: inv_init inv_step)

end

end
