(* ===== verification/Rtdm_Sync.thy ===== *)
theory Rtdm_Sync
  imports Prelude
begin

text \<open>
  The synchronisation services of RTDM over native Linux (\<open>include/rtdm/rtdm_driver_native.h\<close> and
  \<open>ksrc/skins/rtdm/native/drvlib.c\<close>): counting semaphores, events and mutexes.

  A semaphore is the record of its DESTROY bit, its atomic count and its \<open>sleepers\<close> field; the wait
  queue itself carries no data the code reads. Everything a task does between taking and releasing
  the spinlock \<open>sem->wait.lock\<close> is one atomic step (\<open>sem_iter\<close>). A call that sleeps is given the list
  of its wake-ups: what the other tasks did to the semaphore in the meantime, and whether a signal
  was pending or the timer had expired when it ran again. \<open>None\<close> is a call that is still asleep
  after the last wake-up of the list. The relation \<open>sem_step\<close> interleaves the same atomic steps of
  any number of tasks.
\<close>

section \<open>Semaphores\<close>

definition RTDM_TIMEOUT_INFINITE :: int where "RTDM_TIMEOUT_INFINITE = 0"
definition RTDM_TIMEOUT_NONE :: int where "RTDM_TIMEOUT_NONE = - 1"

record rtdm_sem =
  sem_destroy :: bool
  sem_count :: int
  sem_sleepers :: int

record sem_wakeup =
  wk_env :: "rtdm_sem \<Rightarrow> rtdm_sem"
  wk_signal :: bool
  wk_expired :: bool

definition rtdm_sem_init :: "rtdm_sem \<Rightarrow> int \<Rightarrow> rtdm_sem" where
  "rtdm_sem_init sem val = sem\<lparr>sem_count := val, sem_sleepers := 0, sem_destroy := False\<rparr>"

definition rtdm_sem_destroy :: "rtdm_sem \<Rightarrow> rtdm_sem" where
  "rtdm_sem_destroy sem = sem\<lparr>sem_destroy := True\<rparr>"

definition rtdm_sem_up :: "rtdm_sem \<Rightarrow> rtdm_sem" where
  "rtdm_sem_up sem = sem\<lparr>sem_count := sem_count sem + 1\<rparr>"

definition atomic_dec_return :: "rtdm_sem \<Rightarrow> int \<times> rtdm_sem" where
  "atomic_dec_return sem = (sem_count sem - 1, sem\<lparr>sem_count := sem_count sem - 1\<rparr>)"

text \<open>One turn of the \<open>for (;;)\<close> loop, run under the spinlock of the wait queue.\<close>

datatype sem_turn = Leave cret | Asleep

definition sem_iter :: "bool \<Rightarrow> bool \<Rightarrow> bool \<Rightarrow> rtdm_sem \<Rightarrow> sem_turn \<times> rtdm_sem" where
  "sem_iter timed signalled expired sem =
     (let sleepers = sem_sleepers sem in
      if sem_destroy sem then (Leave (Inl EIDRM), sem)
      else if signalled then
        (Leave (Inl EINTR), sem\<lparr>sem_sleepers := 0, sem_count := sem_count sem + sleepers\<rparr>)
      else if timed \<and> expired then
        (Leave (Inl ETIMEDOUT), sem\<lparr>sem_sleepers := 0, sem_count := sem_count sem + sleepers\<rparr>)
      else if \<not> sem_count sem + (sleepers - 1) < 0 then
        (Leave (Inr 0), sem\<lparr>sem_count := sem_count sem + (sleepers - 1), sem_sleepers := 0\<rparr>)
      else (Asleep, sem\<lparr>sem_count := sem_count sem + (sleepers - 1), sem_sleepers := 1\<rparr>))"

fun sem_loop :: "bool \<Rightarrow> rtdm_sem \<Rightarrow> bool \<Rightarrow> bool \<Rightarrow> sem_wakeup list \<Rightarrow> (cret \<times> rtdm_sem) option" where
  "sem_loop timed sem signalled expired ws =
     (case sem_iter timed signalled expired sem of
        (Leave r, sem') \<Rightarrow> Some (r, sem')
      | (Asleep, sem') \<Rightarrow>
          (case ws of
             [] \<Rightarrow> None
           | w # ws' \<Rightarrow> sem_loop timed (wk_env w sem') (wk_signal w) (wk_expired w) ws'))"

declare sem_loop.simps [simp del]

definition sem_enter :: "rtdm_sem \<Rightarrow> rtdm_sem" where
  "sem_enter sem = sem\<lparr>sem_sleepers := sem_sleepers sem + 1\<rparr>"

definition sem_nowait :: "rtdm_sem \<Rightarrow> rtdm_sem" where
  "sem_nowait sem =
     (let sleepers = sem_sleepers sem + 1
      in sem\<lparr>sem_sleepers := 0, sem_count := sem_count sem + sleepers\<rparr>)"

definition rtdm_sem_down_slow :: "rtdm_sem \<Rightarrow> sem_wakeup \<Rightarrow> sem_wakeup list \<Rightarrow> (cret \<times> rtdm_sem) option" where
  "rtdm_sem_down_slow sem w ws =
     (if sem_destroy sem then Some (Inl EIDRM, sem)
      else sem_loop False (sem_enter (wk_env w sem)) (wk_signal w) False ws)"

definition rtdm_sem_timeddown_slow ::
    "rtdm_sem \<Rightarrow> int \<Rightarrow> sem_wakeup \<Rightarrow> sem_wakeup list \<Rightarrow> (cret \<times> rtdm_sem) option" where
  "rtdm_sem_timeddown_slow sem timeout w ws =
     (if sem_destroy sem then Some (Inl EIDRM, sem)
      else if timeout < 0 then Some (Inl EWOULDBLOCK, sem_nowait (wk_env w sem))
      else sem_loop (timeout \<noteq> 0) (sem_enter (wk_env w sem)) (wk_signal w) (wk_expired w) ws)"

definition rtdm_sem_down :: "rtdm_sem \<Rightarrow> sem_wakeup \<Rightarrow> sem_wakeup list \<Rightarrow> (cret \<times> rtdm_sem) option" where
  "rtdm_sem_down sem w ws =
     (case atomic_dec_return sem of
        (n, sem') \<Rightarrow> if n < 0 then rtdm_sem_down_slow sem' w ws else Some (Inr 0, sem'))"

definition rtdm_sem_timeddown ::
    "rtdm_sem \<Rightarrow> int \<Rightarrow> sem_wakeup \<Rightarrow> sem_wakeup list \<Rightarrow> (cret \<times> rtdm_sem) option" where
  "rtdm_sem_timeddown sem timeout w ws =
     (case atomic_dec_return sem of
        (n, sem') \<Rightarrow>
          if n < 0 then rtdm_sem_timeddown_slow sem' timeout w ws else Some (Inr 0, sem'))"

text \<open>A wake-up in which nothing else happened.\<close>

definition quiet :: sem_wakeup where
  "quiet = \<lparr>wk_env = (\<lambda>s. s), wk_signal = False, wk_expired = False\<rparr>"

lemmas sem_defs = rtdm_sem_init_def rtdm_sem_destroy_def rtdm_sem_up_def atomic_dec_return_def
  sem_enter_def sem_nowait_def rtdm_sem_down_slow_def rtdm_sem_timeddown_slow_def
  rtdm_sem_down_def rtdm_sem_timeddown_def quiet_def

text \<open>
  The same call on a semaphore that is a part of a larger state: while the caller sleeps the other
  activities of the system may change all of that state, not only the semaphore.
\<close>

record 'w wakeup =
  wkw_env :: "'w \<Rightarrow> 'w"
  wkw_signal :: bool
  wkw_expired :: bool

fun sem_loop_in :: "('w \<Rightarrow> rtdm_sem) \<Rightarrow> ((rtdm_sem \<Rightarrow> rtdm_sem) \<Rightarrow> 'w \<Rightarrow> 'w) \<Rightarrow> bool \<Rightarrow> 'w \<Rightarrow> bool \<Rightarrow> bool
    \<Rightarrow> 'w wakeup list \<Rightarrow> (cret \<times> 'w) option" where
  "sem_loop_in get upd timed w signalled expired ws =
     (case sem_iter timed signalled expired (get w) of
        (Leave r, sem') \<Rightarrow> Some (r, upd (\<lambda>_. sem') w)
      | (Asleep, sem') \<Rightarrow>
          (case ws of
             [] \<Rightarrow> None
           | k # ks \<Rightarrow>
               sem_loop_in get upd timed (wkw_env k (upd (\<lambda>_. sem') w)) (wkw_signal k) (wkw_expired k) ks))"

declare sem_loop_in.simps [simp del]

definition rtdm_sem_timeddown_in :: "('w \<Rightarrow> rtdm_sem) \<Rightarrow> ((rtdm_sem \<Rightarrow> rtdm_sem) \<Rightarrow> 'w \<Rightarrow> 'w) \<Rightarrow> 'w \<Rightarrow> int
    \<Rightarrow> 'w wakeup \<Rightarrow> 'w wakeup list \<Rightarrow> (cret \<times> 'w) option" where
  "rtdm_sem_timeddown_in get upd w timeout k ks =
     (case atomic_dec_return (get w) of
        (n, sem') \<Rightarrow>
          let w1 = upd (\<lambda>_. sem') w in
          if n < 0 then
            (if sem_destroy (get w1) then Some (Inl EIDRM, w1)
             else if timeout < 0 then Some (Inl EWOULDBLOCK, upd sem_nowait (wkw_env k w1))
             else sem_loop_in get upd (timeout \<noteq> 0) (upd sem_enter (wkw_env k w1)) (wkw_signal k) (wkw_expired k) ks)
          else Some (Inr 0, w1))"

definition quiet_in :: "'w wakeup" where
  "quiet_in = \<lparr>wkw_env = (\<lambda>w. w), wkw_signal = False, wkw_expired = False\<rparr>"

section \<open>Events\<close>

record rtdm_event =
  ev_pending :: bool
  ev_destroy :: bool

definition rtdm_event_init :: "rtdm_event \<Rightarrow> bool \<Rightarrow> rtdm_event" where
  "rtdm_event_init event pending = event\<lparr>ev_pending := pending, ev_destroy := False\<rparr>"

definition rtdm_event_destroy :: "rtdm_event \<Rightarrow> rtdm_event" where
  "rtdm_event_destroy event = event\<lparr>ev_destroy := True\<rparr>"

definition rtdm_event_pulse :: "rtdm_event \<Rightarrow> rtdm_event" where
  "rtdm_event_pulse event = event"

definition rtdm_event_signal :: "rtdm_event \<Rightarrow> rtdm_event" where
  "rtdm_event_signal event = event\<lparr>ev_pending := True\<rparr>"

definition rtdm_event_clear :: "rtdm_event \<Rightarrow> rtdm_event" where
  "rtdm_event_clear event = event\<lparr>ev_pending := False\<rparr>"

record event_wakeup =
  ew_env :: "rtdm_event \<Rightarrow> rtdm_event"
  ew_signal :: bool
  ew_expired :: bool

text \<open>
  The slow paths sleep at most once: \<open>signalled\<close> is \<open>signal_pending(current)\<close> before \<open>schedule()\<close>,
  the optional wake-up is how the task returned from \<open>schedule()\<close>.
\<close>

definition rtdm_event_wait_slow ::
    "rtdm_event \<Rightarrow> bool \<Rightarrow> event_wakeup option \<Rightarrow> (cret \<times> rtdm_event) option" where
  "rtdm_event_wait_slow event signalled wake =
     (if ev_destroy event then Some (Inl EIDRM, event)
      else if signalled then Some (Inl EINTR, event)
      else if ev_pending event then Some (Inr 0, event\<lparr>ev_pending := False\<rparr>)
      else case wake of
        None \<Rightarrow> None
      | Some w \<Rightarrow>
          let event' = ew_env w event in
          if ev_destroy event' then Some (Inl EIDRM, event')
          else if ew_signal w then Some (Inl EINTR, event')
          else Some (Inr 0, event'\<lparr>ev_pending := False\<rparr>))"

text \<open>
  In the timed variant the test of DESTROY and of a pending signal only sets \<open>ret\<close>; there is no
  \<open>else\<close> before the test of PENDING, so the value set is overwritten on every path.
\<close>

definition rtdm_event_timedwait_slow ::
    "rtdm_event \<Rightarrow> int \<Rightarrow> bool \<Rightarrow> event_wakeup option \<Rightarrow> (cret \<times> rtdm_event) option" where
  "rtdm_event_timedwait_slow event timeout signalled wake =
     (if 0 < timeout then
        (if ev_pending event then Some (Inr 0, event\<lparr>ev_pending := False\<rparr>)
         else case wake of
           None \<Rightarrow> None
         | Some w \<Rightarrow>
             let event' = ew_env w event in
             if ev_destroy event' then Some (Inl EIDRM, event')
             else if ew_expired w then Some (Inl ETIMEDOUT, event')
             else if ew_signal w then Some (Inl EINTR, event')
             else Some (Inr 0, event'\<lparr>ev_pending := False\<rparr>))
      else if timeout = 0 then rtdm_event_wait_slow event signalled wake
      else Some (Inl EWOULDBLOCK, event))"

definition rtdm_event_wait ::
    "rtdm_event \<Rightarrow> bool \<Rightarrow> event_wakeup option \<Rightarrow> (cret \<times> rtdm_event) option" where
  "rtdm_event_wait event signalled wake =
     (if ev_destroy event then Some (Inl EIDRM, event)
      else if ev_pending event then Some (Inr 0, event\<lparr>ev_pending := False\<rparr>)
      else rtdm_event_wait_slow event signalled wake)"

definition rtdm_event_timedwait ::
    "rtdm_event \<Rightarrow> int \<Rightarrow> bool \<Rightarrow> event_wakeup option \<Rightarrow> (cret \<times> rtdm_event) option" where
  "rtdm_event_timedwait event timeout signalled wake =
     (if ev_destroy event then Some (Inl EIDRM, event)
      else if ev_pending event then Some (Inr 0, event\<lparr>ev_pending := False\<rparr>)
      else rtdm_event_timedwait_slow event timeout signalled wake)"

text \<open>
  The same call on an event that is a part of a larger state. \<open>k\<close> is what happens between the test of
  the fast path and the slow path, \<open>wake\<close> what happens while the caller sleeps.
\<close>

definition event_sleep_in :: "('w \<Rightarrow> rtdm_event) \<Rightarrow> ((rtdm_event \<Rightarrow> rtdm_event) \<Rightarrow> 'w \<Rightarrow> 'w) \<Rightarrow> bool \<Rightarrow> 'w
    \<Rightarrow> 'w wakeup option \<Rightarrow> (cret \<times> 'w) option" where
  "event_sleep_in get upd timed w wake =
     (case wake of
        None \<Rightarrow> None
      | Some k \<Rightarrow>
          let w1 = wkw_env k w in
          if ev_destroy (get w1) then Some (Inl EIDRM, w1)
          else if timed \<and> wkw_expired k then Some (Inl ETIMEDOUT, w1)
          else if wkw_signal k then Some (Inl EINTR, w1)
          else Some (Inr 0, upd rtdm_event_clear w1))"

definition rtdm_event_timedwait_in :: "('w \<Rightarrow> rtdm_event) \<Rightarrow> ((rtdm_event \<Rightarrow> rtdm_event) \<Rightarrow> 'w \<Rightarrow> 'w) \<Rightarrow> 'w \<Rightarrow> int
    \<Rightarrow> 'w wakeup \<Rightarrow> 'w wakeup option \<Rightarrow> (cret \<times> 'w) option" where
  "rtdm_event_timedwait_in get upd w timeout k wake =
     (if ev_destroy (get w) then Some (Inl EIDRM, w)
      else if ev_pending (get w) then Some (Inr 0, upd rtdm_event_clear w)
      else
        let w1 = wkw_env k w in
        if 0 < timeout then
          (if ev_pending (get w1) then Some (Inr 0, upd rtdm_event_clear w1) else event_sleep_in get upd True w1 wake)
        else if timeout = 0 then
          (if ev_destroy (get w1) then Some (Inl EIDRM, w1)
           else if wkw_signal k then Some (Inl EINTR, w1)
           else if ev_pending (get w1) then Some (Inr 0, upd rtdm_event_clear w1)
           else event_sleep_in get upd False w1 wake)
        else Some (Inl EWOULDBLOCK, w1))"

lemmas event_defs = rtdm_event_init_def rtdm_event_destroy_def rtdm_event_pulse_def
  rtdm_event_signal_def rtdm_event_clear_def rtdm_event_wait_slow_def
  rtdm_event_timedwait_slow_def rtdm_event_wait_def rtdm_event_timedwait_def

section \<open>Mutexes\<close>

text \<open>
  The \<open>rt_mutex\<close> underneath is the kernel's; its operations are the argument \<open>ops\<close>.
\<close>

record 'm rt_mutex_ops =
  rt_mutex_init :: "'m"
  rt_mutex_lock :: "'m \<Rightarrow> 'm"
  rt_mutex_unlock :: "'m \<Rightarrow> 'm"
  rt_mutex_trylock :: "'m \<Rightarrow> bool \<times> 'm"
  rt_mutex_timed_lock :: "'m \<Rightarrow> cret \<times> 'm"
  rt_mutex_lock_interruptible :: "'m \<Rightarrow> cret \<times> 'm"
  rt_mutex_is_locked :: "'m \<Rightarrow> bool"

record 'm rtdm_mutex =
  mx_destroy :: bool
  mx_lock :: 'm

definition rtdm_mutex_init :: "'m rt_mutex_ops \<Rightarrow> 'm rtdm_mutex \<Rightarrow> 'm rtdm_mutex" where
  "rtdm_mutex_init ops mutex = mutex\<lparr>mx_lock := rt_mutex_init ops, mx_destroy := False\<rparr>"

text \<open>\<open>env\<close> is what the other tasks did to the mutex while this one waited for the lock.\<close>

definition rtdm_mutex_lock ::
    "'m rt_mutex_ops \<Rightarrow> ('m rtdm_mutex \<Rightarrow> 'm rtdm_mutex) \<Rightarrow> 'm rtdm_mutex \<Rightarrow> cret \<times> 'm rtdm_mutex" where
  "rtdm_mutex_lock ops env mutex =
     (if mx_destroy mutex then (Inl EIDRM, mutex)
      else let mutex' = env mutex;
               mutex'' = mutex'\<lparr>mx_lock := rt_mutex_lock ops (mx_lock mutex')\<rparr>
           in if mx_destroy mutex'' then (Inl EIDRM, mutex'') else (Inr 0, mutex''))"

definition rtdm_mutex_unlock :: "'m rt_mutex_ops \<Rightarrow> 'm rtdm_mutex \<Rightarrow> 'm rtdm_mutex" where
  "rtdm_mutex_unlock ops mutex = mutex\<lparr>mx_lock := rt_mutex_unlock ops (mx_lock mutex)\<rparr>"

definition rtdm_mutex_destroy :: "'m rt_mutex_ops \<Rightarrow> 'm rtdm_mutex \<Rightarrow> 'm rtdm_mutex" where
  "rtdm_mutex_destroy ops mutex =
     (let mutex' = mutex\<lparr>mx_destroy := True\<rparr>
      in if rt_mutex_is_locked ops (mx_lock mutex')
         then mutex'\<lparr>mx_lock := rt_mutex_unlock ops (mx_lock mutex')\<rparr> else mutex')"

definition rtdm_mutex_timedlock ::
    "'m rt_mutex_ops \<Rightarrow> ('m rtdm_mutex \<Rightarrow> 'm rtdm_mutex) \<Rightarrow> 'm rtdm_mutex \<Rightarrow> int \<Rightarrow> cret \<times> 'm rtdm_mutex" where
  "rtdm_mutex_timedlock ops env mutex timeout =
     (if mx_destroy mutex then (Inl EIDRM, mutex)
      else if timeout < 0 then
        (case rt_mutex_trylock ops (mx_lock mutex) of
           (True, l) \<Rightarrow> (Inr 0, mutex\<lparr>mx_lock := l\<rparr>)
         | (False, l) \<Rightarrow> (Inl EWOULDBLOCK, mutex\<lparr>mx_lock := l\<rparr>))
      else
        let mutex' = env mutex;
            (err, l) = (if 0 < timeout then rt_mutex_timed_lock ops (mx_lock mutex')
                        else rt_mutex_lock_interruptible ops (mx_lock mutex'));
            mutex'' = mutex'\<lparr>mx_lock := l\<rparr>
        in if mx_destroy mutex'' then (Inl EIDRM, mutex'') else (err, mutex''))"

lemmas mutex_defs = rtdm_mutex_init_def rtdm_mutex_lock_def rtdm_mutex_unlock_def
  rtdm_mutex_destroy_def rtdm_mutex_timedlock_def

section \<open>Semaphores as counters\<close>

text \<open>
  The contract a client of a semaphore relies on: the value goes up by one with \<open>up\<close>, down by one
  with a \<open>down\<close> that finds it positive, and a \<open>down\<close> that does not want to wait leaves it alone.
\<close>

locale counting_semaphore =
  fixes up :: "'s \<Rightarrow> 's"
    and timeddown :: "'s \<Rightarrow> int \<Rightarrow> (cret \<times> 's) option"
    and val :: "'s \<Rightarrow> nat"
    and idle :: "'s \<Rightarrow> bool"
  assumes idle_up: "idle s \<Longrightarrow> idle (up s) \<and> val (up s) = Suc (val s)"
    and down_pos: "idle s \<Longrightarrow> 0 < val s \<Longrightarrow>
      \<exists>s'. timeddown s t = Some (Inr 0, s') \<and> idle s' \<and> val s' = val s - 1"
    and down_nowait: "idle s \<Longrightarrow> val s = 0 \<Longrightarrow> t < 0 \<Longrightarrow>
      timeddown s t = Some (Inl EWOULDBLOCK, s)"
begin

text \<open>A semaphore that counts the elements of a queue.\<close>

definition counts :: "'s \<Rightarrow> 'a list \<Rightarrow> bool" where
  "counts s q = (idle s \<and> val s = length q)"

lemma counts_produce: "counts s q \<Longrightarrow> counts (up s) (q @ [x])"
  by (simp add: counts_def idle_up)

lemma counts_consume:
  assumes "counts s (x # q)"
  obtains s' where "timeddown s t = Some (Inr 0, s')" "counts s' q"
  using assms down_pos [of s t] by (auto simp: counts_def)

lemma counts_peek:
  assumes "counts s (x # q)"
  obtains s' where "timeddown s t = Some (Inr 0, s')" "counts (up s') (x # q)"
  using assms down_pos [of s t] by (auto simp: counts_def idle_up)

lemma counts_empty: "counts s [] \<Longrightarrow> t < 0 \<Longrightarrow> timeddown s t = Some (Inl EWOULDBLOCK, s)"
  by (simp add: counts_def down_nowait)

end

definition sem_idle :: "rtdm_sem \<Rightarrow> bool" where
  "sem_idle s = (\<not> sem_destroy s \<and> 0 \<le> sem_count s \<and> sem_sleepers s = 0)"

definition sem_val :: "rtdm_sem \<Rightarrow> nat" where
  "sem_val s = nat (sem_count s)"

text \<open>
  The semaphore of \<open>drvlib.c\<close> meets the contract; no other task is in the middle of the call.
\<close>

interpretation rs: counting_semaphore rtdm_sem_up
    "\<lambda>s t. rtdm_sem_timeddown s t quiet []" sem_val sem_idle
proof unfold_locales
  fix s :: rtdm_sem and t :: int
  assume "sem_idle s"
  then show "sem_idle (rtdm_sem_up s) \<and> sem_val (rtdm_sem_up s) = Suc (sem_val s)"
    by (auto simp: sem_idle_def sem_val_def sem_defs)
next
  fix s :: rtdm_sem and t :: int
  assume "sem_idle s" "0 < sem_val s"
  then show "\<exists>s'. rtdm_sem_timeddown s t quiet [] = Some (Inr 0, s') \<and> sem_idle s'
      \<and> sem_val s' = sem_val s - 1"
    by (auto simp: sem_idle_def sem_val_def sem_defs)
next
  fix s :: rtdm_sem and t :: int
  assume "sem_idle s" "sem_val s = 0" "t < 0"
  then show "rtdm_sem_timeddown s t quiet [] = Some (Inl EWOULDBLOCK, s)"
    by (auto simp: sem_idle_def sem_val_def sem_defs)
qed

text \<open>A semaphore kept as a field of a larger state.\<close>

locale sem_field =
  fixes get :: "'w \<Rightarrow> rtdm_sem"
    and upd :: "(rtdm_sem \<Rightarrow> rtdm_sem) \<Rightarrow> 'w \<Rightarrow> 'w"
  assumes get_upd: "get (upd f w) = f (get w)"
    and upd_upd: "upd g (upd f w) = upd (\<lambda>x. g (f x)) w"
    and upd_get: "upd (\<lambda>_. get w) w = w"
begin

lemma upd_const: "upd f w = upd (\<lambda>_. f (get w)) w"
proof -
  have "upd f w = upd f (upd (\<lambda>_. get w) w)" by (simp only: upd_get)
  also have "\<dots> = upd (\<lambda>_. f (get w)) w" by (simp only: upd_upd)
  finally show ?thesis .
qed

text \<open>Undisturbed, the call on the field is the call on the semaphore.\<close>

lemma timeddown_in_quiet:
  "rtdm_sem_timeddown_in get upd w t quiet_in [] =
    map_option (\<lambda>(r, s). (r, upd (\<lambda>_. s) w)) (rtdm_sem_timeddown (get w) t quiet [])"
  by (auto simp: rtdm_sem_timeddown_in_def rtdm_sem_timeddown_def rtdm_sem_timeddown_slow_def quiet_def
      quiet_in_def Let_def get_upd upd_upd atomic_dec_return_def sem_loop_in.simps sem_loop.simps
      split: prod.splits sem_turn.splits)

lemma timeddown_in_granted:
  "sem_idle (get w) \<Longrightarrow> 0 < sem_val (get w) \<Longrightarrow>
    rtdm_sem_timeddown_in get upd w t k ks = Some (Inr 0, upd (\<lambda>s. s\<lparr>sem_count := sem_count s - 1\<rparr>) w)"
  by (subst upd_const) (auto simp: rtdm_sem_timeddown_in_def sem_idle_def sem_val_def atomic_dec_return_def Let_def)

lemma timeddown_in_nowait:
  "sem_idle (get w) \<Longrightarrow> sem_val (get w) = 0 \<Longrightarrow> t < 0 \<Longrightarrow>
    rtdm_sem_timeddown_in get upd w t quiet_in ks = Some (Inl EWOULDBLOCK, w)"
  using rs.down_nowait [of "get w" t] timeddown_in_quiet [of w t]
  by (auto simp: upd_get rtdm_sem_timeddown_in_def quiet_in_def Let_def get_upd atomic_dec_return_def
      sem_idle_def sem_val_def split: if_splits)

end

section \<open>Any number of tasks on one semaphore\<close>

text \<open>
  \<open>started\<close> counts the tasks that have decremented the count, found it negative and have not yet
  taken the wait queue's lock; \<open>waiting\<close> those asleep in the loop; \<open>granted\<close> the calls of
  \<open>rtdm_sem_down\<close> and \<open>rtdm_sem_timeddown\<close> that returned 0, \<open>ups\<close> the calls of \<open>rtdm_sem_up\<close>.
\<close>

record sem_sys =
  sys_sem :: rtdm_sem
  started :: nat
  waiting :: nat
  granted :: nat
  ups :: nat

inductive sem_step :: "sem_sys \<Rightarrow> sem_sys \<Rightarrow> bool" where
  down_fast: "atomic_dec_return (sys_sem S) = (n, s) \<Longrightarrow> \<not> n < 0 \<Longrightarrow>
    sem_step S (S\<lparr>sys_sem := s, granted := granted S + 1\<rparr>)"
| down_slow: "atomic_dec_return (sys_sem S) = (n, s) \<Longrightarrow> n < 0 \<Longrightarrow>
    sem_step S (S\<lparr>sys_sem := s, started := started S + 1\<rparr>)"
| down_gone: "started S = Suc k \<Longrightarrow> sem_destroy (sys_sem S) \<Longrightarrow>
    sem_step S (S\<lparr>started := k\<rparr>)"
| down_nowait: "started S = Suc k \<Longrightarrow>
    sem_step S (S\<lparr>sys_sem := sem_nowait (sys_sem S), started := k\<rparr>)"
| enter_sleep: "started S = Suc k \<Longrightarrow> sem_iter td sg ex (sem_enter (sys_sem S)) = (Asleep, s) \<Longrightarrow>
    sem_step S (S\<lparr>sys_sem := s, started := k, waiting := waiting S + 1\<rparr>)"
| enter_grant: "started S = Suc k \<Longrightarrow> sem_iter td sg ex (sem_enter (sys_sem S)) = (Leave (Inr n), s) \<Longrightarrow>
    sem_step S (S\<lparr>sys_sem := s, started := k, granted := granted S + 1\<rparr>)"
| enter_fail: "started S = Suc k \<Longrightarrow> sem_iter td sg ex (sem_enter (sys_sem S)) = (Leave (Inl e), s) \<Longrightarrow>
    sem_step S (S\<lparr>sys_sem := s, started := k\<rparr>)"
| wake_sleep: "waiting S = Suc k \<Longrightarrow> sem_iter td sg ex (sys_sem S) = (Asleep, s) \<Longrightarrow>
    sem_step S (S\<lparr>sys_sem := s\<rparr>)"
| wake_grant: "waiting S = Suc k \<Longrightarrow> sem_iter td sg ex (sys_sem S) = (Leave (Inr n), s) \<Longrightarrow>
    sem_step S (S\<lparr>sys_sem := s, waiting := k, granted := granted S + 1\<rparr>)"
| wake_fail: "waiting S = Suc k \<Longrightarrow> sem_iter td sg ex (sys_sem S) = (Leave (Inl e), s) \<Longrightarrow>
    sem_step S (S\<lparr>sys_sem := s, waiting := k\<rparr>)"
| up: "sem_step S (S\<lparr>sys_sem := rtdm_sem_up (sys_sem S), ups := ups S + 1\<rparr>)"
| destroy: "sem_step S (S\<lparr>sys_sem := rtdm_sem_destroy (sys_sem S)\<rparr>)"

definition sem_start :: "nat \<Rightarrow> sem_sys \<Rightarrow> bool" where
  "sem_start v S = (\<not> sem_destroy (sys_sem S) \<and> sem_count (sys_sem S) = int v \<and>
     sem_sleepers (sys_sem S) = 0 \<and> started S = 0 \<and> waiting S = 0 \<and> granted S = 0 \<and> ups S = 0)"

text \<open>
  The accounting: every grant, every task on its way into the slow path and the \<open>sleepers\<close> field
  have been taken off the count. A destroyed semaphore only ever loses tokens.
\<close>

definition sem_balance :: "sem_sys \<Rightarrow> int" where
  "sem_balance S = sem_count (sys_sem S) + int (granted S) + int (started S) + sem_sleepers (sys_sem S)"

definition sem_inv :: "nat \<Rightarrow> sem_sys \<Rightarrow> bool" where
  "sem_inv v S = (0 \<le> sem_sleepers (sys_sem S) \<and> granted S \<le> v + ups S \<and>
     sem_balance S \<le> int (v + ups S) \<and>
     (\<not> sem_destroy (sys_sem S) \<longrightarrow> sem_balance S = int (v + ups S)))"

lemma sem_iter_cases:
  assumes "sem_iter td sg ex s = (t, s')"
  shows "sem_destroy s' = sem_destroy s"
    "t = Asleep \<Longrightarrow> \<not> sem_destroy s \<and> sem_sleepers s' = 1 \<and> sem_count s' = sem_count s + sem_sleepers s - 1"
    "t = Leave (Inr n) \<Longrightarrow> \<not> sem_destroy s \<and> sem_sleepers s' = 0 \<and>
       sem_count s' = sem_count s + sem_sleepers s - 1 \<and> 0 \<le> sem_count s'"
    "t = Leave (Inl e) \<Longrightarrow> (sem_destroy s \<and> s' = s) \<or>
       (\<not> sem_destroy s \<and> sem_sleepers s' = 0 \<and> sem_count s' = sem_count s + sem_sleepers s)"
  using assms by (auto simp: sem_iter_def Let_def split: if_splits)

lemma sem_step_inv: "sem_step S T \<Longrightarrow> sem_inv v S \<Longrightarrow> sem_inv v T"
proof (induction rule: sem_step.induct)
  case (enter_sleep S k td sg ex s)
  then show ?case
    using sem_iter_cases(1,2) [OF enter_sleep(2)]
    by (auto simp: sem_inv_def sem_balance_def sem_enter_def)
next
  case (enter_grant S k td sg ex n s)
  then show ?case
    using sem_iter_cases(1,3) [OF enter_grant(2)]
    by (auto simp: sem_inv_def sem_balance_def sem_enter_def)
next
  case (enter_fail S k td sg ex e s)
  then show ?case
    using sem_iter_cases(1,4) [OF enter_fail(2)]
    by (auto simp: sem_inv_def sem_balance_def sem_enter_def)
next
  case (wake_sleep S k td sg ex s)
  then show ?case
    using sem_iter_cases(1,2) [OF wake_sleep(2)] by (auto simp: sem_inv_def sem_balance_def)
next
  case (wake_grant S k td sg ex n s)
  then show ?case
    using sem_iter_cases(1,3) [OF wake_grant(2)] by (auto simp: sem_inv_def sem_balance_def)
next
  case (wake_fail S k td sg ex e s)
  then show ?case
    using sem_iter_cases(1,4) [OF wake_fail(2)] by (auto simp: sem_inv_def sem_balance_def)
qed (auto simp: sem_inv_def sem_balance_def sem_defs Let_def)

lemma sem_start_inv: "sem_start v S \<Longrightarrow> sem_inv v S"
  by (simp add: sem_start_def sem_inv_def sem_balance_def)

interpretation sem_acct: inductive_invariant "sem_start v" sem_step "sem_inv v" for v
  by unfold_locales (fact sem_start_inv, rule sem_step_inv)


definition sem_demo :: "int \<Rightarrow> nat \<Rightarrow> sem_sys" where
  "sem_demo c g = \<lparr>sys_sem = \<lparr>sem_destroy = False, sem_count = c, sem_sleepers = 0\<rparr>,
     started = 0, waiting = 0, granted = g, ups = 0\<rparr>"

lemma sem_demo_reach: "reach (sem_start 1) sem_step (sem_demo 0 1)"
proof -
  have "reach (sem_start 1) sem_step (sem_demo 1 0)"
    by (rule reach_init) (simp add: sem_start_def sem_demo_def)
  moreover have "sem_step (sem_demo 1 0) (sem_demo 0 1)"
    using sem_step.down_fast [of "sem_demo 1 0"] by (simp add: sem_demo_def atomic_dec_return_def)
  ultimately show ?thesis by (rule reach_step)
qed


text \<open>A blocking \<open>rtdm_sem_timeddown\<close> on an empty semaphore sleeps (it has no result while nobody
  wakes it), and the first \<open>rtdm_sem_up\<close> after that makes it return 0 and leaves the semaphore as
  it was before both calls: no wake-up is lost and no token is created.\<close>

theorem sem_up_wakes_sleeper:
  assumes "sem_idle s" "sem_val s = 0" "0 \<le> timeout"
  shows "rtdm_sem_timeddown s timeout quiet [] = None \<and>
    rtdm_sem_timeddown s timeout quiet [quiet\<lparr>wk_env := rtdm_sem_up\<rparr>] = Some (Inr 0, s)"
  using assms by (auto simp: sem_idle_def sem_val_def sem_defs sem_loop.simps sem_iter_def Let_def)

theorem sem_up_wakes_sleeper_witness:
  "rtdm_sem_timeddown \<lparr>sem_destroy = False, sem_count = 0, sem_sleepers = 0\<rparr> 0 quiet
     [quiet\<lparr>wk_env := rtdm_sem_up\<rparr>]
   = Some (Inr 0, \<lparr>sem_destroy = False, sem_count = 0, sem_sleepers = 0\<rparr>)"
  using sem_up_wakes_sleeper [of "\<lparr>sem_destroy = False, sem_count = 0, sem_sleepers = 0\<rparr>" 0]
  by (simp add: sem_idle_def sem_val_def)

text \<open>The slow path of a timed event wait does not look at the DESTROY bit before it sleeps: on
  an event that was destroyed after the fast path's test and is not pending it goes to sleep, where
  the untimed slow path returns \<open>-EIDRM\<close> at once.\<close>

theorem event_timedwait_ignores_destroy:
  assumes "0 < timeout" "ev_destroy e" "\<not> ev_pending e"
  shows "rtdm_event_timedwait_slow e timeout signalled None = None \<and>
    rtdm_event_timedwait_slow e 0 signalled None = Some (Inl EIDRM, e)"
  using assms by (simp add: event_defs)

theorem event_timedwait_ignores_destroy_witness:
  "rtdm_event_timedwait_slow \<lparr>ev_pending = False, ev_destroy = True\<rparr> 5 False None = None"
  using event_timedwait_ignores_destroy [of 5 "\<lparr>ev_pending = False, ev_destroy = True\<rparr>" False]
  by simp

end
