(* ===== verification/Rtdm_Task.thy ===== *)
theory Rtdm_Task
  imports Prelude
begin

text \<open>
  The task services of RTDM (\<open>drvlib.c\<close>, \<open>rtdm_driver_native.h\<close>): a task object of a driver and the kernel
  threads that run its procedure. Creation, destruction and joining interleave with the threads at the
  places where the code sleeps, so they are steps on a common state.
\<close>

section \<open>Task objects and threads\<close>

definition RTDM_TASK_LOWEST_PRIORITY :: int where "RTDM_TASK_LOWEST_PRIORITY = 0"
definition MAX_RT_PRIO :: int where "MAX_RT_PRIO = 100"
definition RTDM_TASK_HIGHEST_PRIORITY :: int where "RTDM_TASK_HIGHEST_PRIORITY = MAX_RT_PRIO"
definition RTDM_TASK_MAGIC :: u32 where "RTDM_TASK_MAGIC = 0x07041959"

record rtdm_task_t =
  tk_magic :: u32
  linux_task :: "nat option"
  tk_start :: bool
  tk_priority :: int
  tk_stopped :: bool

text \<open>
  A thread: it does not exist, runs the prologue of \<open>rtdm_task\<close>, sleeps in its \<open>schedule()\<close>, runs the procedure
  of the task, has left. Of its scheduling only the real-time priority is kept, \<open>None\<close> the normal class.
\<close>

datatype thread_pc = NoThread | Booting | Parked | Running | Exited

record tasks =
  tobj :: rtdm_task_t
  thr :: "nat \<Rightarrow> thread_pc"
  sig_pending :: "nat \<Rightarrow> bool"
  rt_prio :: "nat \<Rightarrow> int option"

definition rtdm_task_has_magic :: "tasks \<Rightarrow> bool" where
  "rtdm_task_has_magic T \<longleftrightarrow> tk_magic (tobj T) = RTDM_TASK_MAGIC"

definition wake_up_process :: "nat \<Rightarrow> tasks \<Rightarrow> tasks" where
  "wake_up_process p T = (if thr T p = Parked then T\<lparr>thr := (thr T)(p := Running)\<rparr> else T)"

text \<open>
  \<open>rtdm_task_init\<close> up to \<open>wait_for_completion\<close>, \<open>pid\<close> being the result of \<open>kernel_thread\<close>, and after it.
\<close>

definition rtdm_task_init :: "int \<Rightarrow> (errno + nat) \<Rightarrow> tasks \<Rightarrow> cret \<times> tasks" where
  "rtdm_task_init priority pid T =
     (if priority < RTDM_TASK_LOWEST_PRIORITY \<or> priority > RTDM_TASK_HIGHEST_PRIORITY then (Inl EINVAL, T)
      else
        let t = (tobj T)\<lparr>tk_priority := priority, tk_start := False\<rparr> in
        case pid of
          Inl e \<Rightarrow> (Inl e, T\<lparr>tobj := t\<lparr>tk_stopped := True\<rparr>\<rparr>)
        | Inr p \<Rightarrow> (Inr 0, T\<lparr>tobj := t\<lparr>tk_stopped := False\<rparr>, thr := (thr T)(p := Booting), sig_pending := (sig_pending T)(p := False)\<rparr>))"

definition task_init_end :: "tasks \<Rightarrow> tasks" where
  "task_init_end T = (case linux_task (tobj T) of None \<Rightarrow> T | Some p \<Rightarrow> wake_up_process p T)"

text \<open>The thread: the prologue, \<open>accepts\<close> being the priorities \<open>sched_setscheduler\<close> accepts, and the end.\<close>

definition rtdm_task :: "(int \<Rightarrow> bool) \<Rightarrow> nat \<Rightarrow> tasks \<Rightarrow> tasks" where
  "rtdm_task accepts p T =
     T\<lparr>tobj := (tobj T)\<lparr>tk_magic := RTDM_TASK_MAGIC, linux_task := Some p, tk_start := True\<rparr>,
       rt_prio := (rt_prio T)(p := if accepts (tk_priority (tobj T)) then Some (tk_priority (tobj T)) else None),
       thr := (thr T)(p := Parked)\<rparr>"

definition rtdm_task_leave :: "nat \<Rightarrow> tasks \<Rightarrow> tasks" where
  "rtdm_task_leave p T = T\<lparr>tobj := (tobj T)\<lparr>tk_stopped := True\<rparr>, thr := (thr T)(p := Exited)\<rparr>"

definition rtdm_task_destroy :: "tasks \<Rightarrow> tasks" where
  "rtdm_task_destroy T =
     (if rtdm_task_has_magic T \<and> \<not> tk_stopped (tobj T) then
        (case linux_task (tobj T) of None \<Rightarrow> T | Some p \<Rightarrow> wake_up_process p (T\<lparr>sig_pending := (sig_pending T)(p := True)\<rparr>))
      else T)"

text \<open>\<open>waits\<close> is what the others do during each of the delays; \<open>None\<close>: still waiting.\<close>

fun rtdm_task_join_nrt :: "(tasks \<Rightarrow> tasks) list \<Rightarrow> tasks \<Rightarrow> tasks option" where
  "rtdm_task_join_nrt waits T =
     (if rtdm_task_has_magic T \<and> \<not> tk_stopped (tobj T) then
        (case waits of [] \<Rightarrow> None | f # fs \<Rightarrow> rtdm_task_join_nrt fs (f T))
      else Some T)"

declare rtdm_task_join_nrt.simps [simp del]

definition rtdm_task_set_priority :: "(int \<Rightarrow> bool) \<Rightarrow> int \<Rightarrow> tasks \<Rightarrow> tasks" where
  "rtdm_task_set_priority accepts priority T =
     (if rtdm_task_has_magic T then
        (case linux_task (tobj T) of
           None \<Rightarrow> T
         | Some p \<Rightarrow> if accepts priority then T\<lparr>rt_prio := (rt_prio T)(p := Some priority)\<rparr> else T)
      else T)"

text \<open>
  Loading the module of the core: the addresses of two functions of the kernel that a new thread calls to leave
  the files of its creator. The value -1 is \<open>-EPERM\<close>.
\<close>

definition rtdm_init :: "nat option \<Rightarrow> nat option \<Rightarrow> cret" where
  "rtdm_init exit_fs exit_files = (if exit_fs = None \<or> exit_files = None then Inl EPERM else Inr 0)"

section \<open>Sleeping\<close>

text \<open>
  \<open>_rtdm_task_sleep\<close> of a timer that is set to expire at \<open>expires\<close>: \<open>now\<close> is the clock when the timer is started, and it is
  started with the remaining time as an absolute time. \<open>wakes\<close>: for every test of the loop the clock and
  whether a signal is pending.
\<close>

fun sleep_loop :: "int \<Rightarrow> (int \<times> bool) list \<Rightarrow> cret option" where
  "sleep_loop armed [] = None"
| "sleep_loop armed ((clock, sig) # ws) = (if sig then Some (Inl EINTR) else if armed \<le> clock then Some (Inr 0) else sleep_loop armed ws)"

definition rtdm_task_sleep_timer :: "int \<Rightarrow> int \<Rightarrow> (int \<times> bool) list \<Rightarrow> cret option" where
  "rtdm_task_sleep_timer expires now wakes = sleep_loop (expires - now) wakes"

text \<open>\<open>t0\<close>: the monotonic clock when the timer is initialised.\<close>

definition rtdm_task_sleep :: "int \<Rightarrow> int \<Rightarrow> int \<Rightarrow> (int \<times> bool) list \<Rightarrow> cret option" where
  "rtdm_task_sleep delay t0 now wakes = rtdm_task_sleep_timer (t0 + delay) now wakes"

definition rtdm_task_sleep_until :: "int \<Rightarrow> int \<Rightarrow> (int \<times> bool) list \<Rightarrow> cret option" where
  "rtdm_task_sleep_until wakeup_time now wakes = rtdm_task_sleep_timer wakeup_time now wakes"

text \<open>
  The remaining time is not the time of expiry: a sleep whose length is less than the time since the clock was zero
  ends at the first test, however much of it is left.
\<close>

theorem task_sleep_returns_early:
  assumes "delay \<le> clock" and "t0 \<le> now"
  shows "rtdm_task_sleep delay t0 now ((clock, False) # ws) = Some (Inr 0)"
  using assms by (simp add: rtdm_task_sleep_def rtdm_task_sleep_timer_def)

section \<open>Creation, execution and join\<close>

text \<open>
  The steps of a driver that creates a task only after the one before was joined, and destroys it only
  after its creation has returned. The flag is set while \<open>rtdm_task_init\<close> waits.
\<close>

definition alive :: "thread_pc \<Rightarrow> bool" where
  "alive s \<longleftrightarrow> s \<noteq> NoThread \<and> s \<noteq> Exited"

inductive task_step :: "(int \<Rightarrow> bool) \<Rightarrow> tasks \<times> bool \<Rightarrow> tasks \<times> bool \<Rightarrow> bool" for accepts :: "int \<Rightarrow> bool" where
  create: "\<not> rtdm_task_has_magic T \<or> tk_stopped (tobj T) \<Longrightarrow> (\<forall>p. pid = Inr p \<longrightarrow> \<not> alive (thr T p)) \<Longrightarrow>
     rtdm_task_init priority pid T = (r, T') \<Longrightarrow> task_step accepts (T, False) (T', r = Inr 0)"
| boot: "thr T p = Booting \<Longrightarrow> task_step accepts (T, c) (rtdm_task accepts p T, c)"
| created: "tk_start (tobj T) \<Longrightarrow> task_step accepts (T, True) (task_init_end T, False)"
| leave: "thr T p = Running \<Longrightarrow> task_step accepts (T, c) (rtdm_task_leave p T, c)"
| destroy: "task_step accepts (T, False) (rtdm_task_destroy T, False)"
| priority: "task_step accepts (T, False) (rtdm_task_set_priority accepts n T, False)"

definition task_new :: "tasks \<times> bool \<Rightarrow> bool" where
  "task_new S \<longleftrightarrow> \<not> snd S \<and> (\<forall>p. thr (fst S) p = NoThread) \<and> \<not> rtdm_task_has_magic (fst S)"

definition task_inv :: "tasks \<times> bool \<Rightarrow> bool" where
  "task_inv S \<longleftrightarrow> (case S of (T, c) \<Rightarrow>
     (\<forall>p. thr T p = Booting \<longrightarrow> c \<and> \<not> tk_start (tobj T) \<and> \<not> tk_stopped (tobj T)) \<and>
     (\<forall>p q. thr T p = Booting \<longrightarrow> thr T q = Booting \<longrightarrow> p = q) \<and>
     (\<forall>p. thr T p = Parked \<or> thr T p = Running \<longrightarrow>
        rtdm_task_has_magic T \<and> linux_task (tobj T) = Some p \<and> \<not> tk_stopped (tobj T) \<and> (c \<longrightarrow> tk_start (tobj T))) \<and>
     (\<not> c \<longrightarrow> (\<forall>p. thr T p \<noteq> Parked)))"

lemma task_invD:
  assumes "task_inv (T, c)"
  shows "thr T p = Booting \<Longrightarrow> c \<and> \<not> tk_start (tobj T) \<and> \<not> tk_stopped (tobj T)"
    and "thr T p = Booting \<Longrightarrow> thr T q = Booting \<Longrightarrow> p = q"
    and "thr T p = Parked \<or> thr T p = Running \<Longrightarrow>
      rtdm_task_has_magic T \<and> linux_task (tobj T) = Some p \<and> \<not> tk_stopped (tobj T) \<and> (c \<longrightarrow> tk_start (tobj T))"
    and "\<not> c \<Longrightarrow> thr T p \<noteq> Parked"
  using assms unfolding task_inv_def by (simp_all only: prod.case) blast+

text \<open>A driver whose task object is stopped or unused has no thread.\<close>

lemma task_inv_dead:
  assumes "task_inv (T, False)" and "\<not> rtdm_task_has_magic T \<or> tk_stopped (tobj T)"
  shows "\<not> alive (thr T p)"
  using task_invD(1,3,4) [OF assms(1), of p] assms(2) by (cases "thr T p") (auto simp: alive_def)

lemma deadD: "\<not> alive s \<Longrightarrow> s \<noteq> Booting \<and> s \<noteq> Parked \<and> s \<noteq> Running"
  by (auto simp: alive_def)

lemma task_boot_inv:
  assumes "task_inv (T, c)" and "thr T p = Booting"
  shows "task_inv (rtdm_task accepts p T, c)"
proof -
  have c: "c" "\<not> tk_start (tobj T)" "\<not> tk_stopped (tobj T)"
    using task_invD(1) [OF assms] by simp_all
  have dead: "\<not> alive (thr T q)" if "q \<noteq> p" for q
    using task_invD(2) [OF assms(1), of p q] task_invD(3) [OF assms(1), of q] c assms(2) that by (cases "thr T q") (auto simp: alive_def)
  show ?thesis
    using c deadD [OF dead] by (auto simp: task_inv_def rtdm_task_def rtdm_task_has_magic_def)
qed

lemma task_leave_inv:
  assumes "task_inv (T, c)" and "thr T p = Running"
  shows "task_inv (rtdm_task_leave p T, c)"
proof -
  have p: "rtdm_task_has_magic T" "linux_task (tobj T) = Some p" "c \<longrightarrow> tk_start (tobj T)"
    using task_invD(3) [OF assms(1), of p] assms(2) by auto
  have dead: "\<not> alive (thr T q)" if "q \<noteq> p" for q
    using task_invD(1,3) [OF assms(1), of q] p that by (cases "thr T q") (auto simp: alive_def)
  show ?thesis
    using deadD [OF dead] by (auto simp: task_inv_def rtdm_task_leave_def)
qed

lemma task_wake_inv:
  assumes "task_inv (T, c)"
  shows "task_inv (wake_up_process p T, c)"
proof (cases "thr T p = Parked")
  case True
  then have p: "rtdm_task_has_magic T" "linux_task (tobj T) = Some p" "\<not> tk_stopped (tobj T)" "c \<longrightarrow> tk_start (tobj T)" "c"
    using task_invD(3,4) [OF assms, of p] by auto
  then have dead: "\<not> alive (thr T q)" if "q \<noteq> p" for q
    using task_invD(1,3) [OF assms, of q] that by (cases "thr T q") (auto simp: alive_def)
  show ?thesis
    using True p deadD [OF dead] by (auto simp: task_inv_def wake_up_process_def rtdm_task_has_magic_def)
qed (simp add: assms wake_up_process_def)

lemma task_created_inv:
  assumes "task_inv (T, True)" and "tk_start (tobj T)"
  shows "task_inv (task_init_end T, False)"
proof -
  have nb: "thr T p \<noteq> Booting" for p
    using task_invD(1) [OF assms(1), of p] assms(2) by auto
  have "thr (task_init_end T) p \<noteq> Parked" for p
    using task_invD(3) [OF assms(1), of p] by (auto simp: task_init_end_def wake_up_process_def split: option.splits)
  moreover have "task_inv (task_init_end T, True)"
    using task_wake_inv assms(1) by (simp add: task_init_end_def split: option.splits)
  moreover have "thr (task_init_end T) p \<noteq> Booting" for p
    using nb [of p] by (simp add: task_init_end_def wake_up_process_def split: option.splits)
  ultimately show ?thesis
    by (simp add: task_inv_def)
qed

lemma task_step_inv: "task_step accepts S S' \<Longrightarrow> task_inv S \<Longrightarrow> task_inv S'"
proof (induction rule: task_step.induct)
  case (create T pid prio r T')
  have dead: "\<not> alive (thr T p)" for p
    using task_inv_dead create.prems create.hyps(1) by blast
  have none: "thr T p \<noteq> Booting" "thr T p \<noteq> Parked" "thr T p \<noteq> Running" for p
    using deadD [OF dead [of p]] by simp_all
  show ?case
    using create.hyps(3) none by (auto simp: rtdm_task_init_def task_inv_def Let_def split: if_splits sum.splits)
next
  case (boot T p c)
  then show ?case
    by (simp add: task_boot_inv)
next
  case (created T)
  then show ?case
    by (simp add: task_created_inv)
next
  case (leave T p c)
  then show ?case
    by (simp add: task_leave_inv)
next
  case (destroy T)
  then have "task_inv (T\<lparr>sig_pending := x\<rparr>, False)" for x
    by (simp add: task_inv_def rtdm_task_has_magic_def)
  then show ?case
    using destroy task_wake_inv by (simp add: rtdm_task_destroy_def split: option.splits)
next
  case (priority T n)
  then have "task_inv (T\<lparr>rt_prio := x\<rparr>, False)" for x
    by (simp add: task_inv_def rtdm_task_has_magic_def)
  then show ?case
    using priority by (simp add: rtdm_task_set_priority_def split: option.splits)
qed

interpretation tasks_run: inductive_invariant task_new "task_step accepts" task_inv for accepts
proof unfold_locales
  fix S
  assume "task_new S"
  then show "task_inv S"
    by (cases S) (simp add: task_new_def task_inv_def)
qed (rule task_step_inv)


section \<open>A task that is created, started, stopped and joined\<close>

definition no_tasks :: tasks where
  "no_tasks = \<lparr>tobj = \<lparr>tk_magic = 0, linux_task = None, tk_start = False, tk_priority = 0, tk_stopped = False\<rparr>,
     thr = (\<lambda>_. NoThread), sig_pending = (\<lambda>_. False), rt_prio = (\<lambda>_. None)\<rparr>"

definition run_task :: "int \<Rightarrow> nat \<Rightarrow> tasks \<Rightarrow> tasks" where
  "run_task n p T = task_init_end (rtdm_task (\<lambda>k. 1 \<le> k \<and> k \<le> 99) p (snd (rtdm_task_init n (Inr p) T)))"

lemma run_task_reach:
  assumes "reach task_new (task_step (\<lambda>k. 1 \<le> k \<and> k \<le> 99)) (T, False)" and "0 \<le> n" "n \<le> 100"
    and "\<not> rtdm_task_has_magic T \<or> tk_stopped (tobj T)" and "\<not> alive (thr T p)"
  shows "reach task_new (task_step (\<lambda>k. 1 \<le> k \<and> k \<le> 99)) (run_task n p T, False)"
proof -
  let ?ok = "\<lambda>k :: int. 1 \<le> k \<and> k \<le> 99"
  obtain T1 where T1: "rtdm_task_init n (Inr p) T = (Inr 0, T1)" "thr T1 p = Booting"
    using assms(2,3) by (simp add: rtdm_task_init_def RTDM_TASK_LOWEST_PRIORITY_def RTDM_TASK_HIGHEST_PRIORITY_def MAX_RT_PRIO_def Let_def)
  have "task_step ?ok (T, False) (T1, True)"
    using task_step.create [OF assms(4) _ T1(1), where accepts = ?ok] assms(5) by simp
  moreover have "task_step ?ok (T1, True) (rtdm_task ?ok p T1, True)"
    by (rule task_step.boot [OF T1(2)])
  moreover have "task_step ?ok (rtdm_task ?ok p T1, True) (task_init_end (rtdm_task ?ok p T1), False)"
    by (rule task_step.created) (simp add: rtdm_task_def)
  ultimately show ?thesis
    using assms(1) T1(1) by (simp add: run_task_def) (meson reach_step)
qed

lemmas task_run_defs = run_task_def task_init_end_def rtdm_task_def rtdm_task_init_def wake_up_process_def rtdm_task_has_magic_def
  RTDM_TASK_LOWEST_PRIORITY_def RTDM_TASK_HIGHEST_PRIORITY_def MAX_RT_PRIO_def no_tasks_def rtdm_task_leave_def rtdm_task_destroy_def


text \<open>
  A task object may not be used again before it was joined: with two tasks created in it, joining returns
  when one of them has ended.
\<close>

theorem task_created_twice:
  "\<exists>T. rtdm_task_join_nrt [] (rtdm_task_leave 7 (run_task 50 8 (run_task 50 7 no_tasks))) = Some T \<and> thr T 8 = Running"
  by (subst rtdm_task_join_nrt.simps) (simp add: task_run_defs)

text \<open>
  The lowest and the highest priority that are accepted are refused by the scheduler, which takes 1 to 99 for
  real-time tasks; the task runs all the same, as a normal one.
\<close>

theorem task_priority_bounds:
  assumes "n = RTDM_TASK_LOWEST_PRIORITY \<or> n = RTDM_TASK_HIGHEST_PRIORITY"
  shows "thr (run_task n p T) p = Running" and "rt_prio (run_task n p T) p = None"
  using assms by (auto simp: task_run_defs Let_def)

end
