(* ===== verification/Ring.thy ===== *)
theory Ring
  imports Prelude
begin

text \<open>
  Ring buffers. The three ring buffers of the program (the receive ring of a CAN socket, the input
  and the output ring of the UART driver) use the same code pattern: a block is copied in or out
  with one \<open>memcpy\<close>, or with two when it crosses the end of the array, and the index advances
  under the mask \<open>SIZE - 1\<close>. This theory holds the two copy operations in the shape of the code,
  the abstraction \<open>ring_read\<close> (the bytes from a position on, modulo the size), and the locale
  \<open>pow2_ring\<close>: what a ring of a power-of-two size guarantees.
\<close>

definition ring_copy_in :: "nat \<Rightarrow> 'a list \<Rightarrow> nat \<Rightarrow> 'a list \<Rightarrow> 'a list" where
  "ring_copy_in sz buf tail bs =
     (if tail + length bs > sz then
        (let first_part_size = sz - tail;
             buf1 = memcpy_at buf tail (take first_part_size bs)
         in memcpy_at buf1 0 (drop first_part_size bs))
      else memcpy_at buf tail bs)"

definition ring_copy_out :: "nat \<Rightarrow> 'a list \<Rightarrow> nat \<Rightarrow> nat \<Rightarrow> 'a list" where
  "ring_copy_out sz buf index len =
     (if index + len > sz then
        (let first_part_size = sz - index
         in take first_part_size (drop index buf) @ take (len - first_part_size) buf)
      else take len (drop index buf))"

definition ring_advance :: "nat \<Rightarrow> nat \<Rightarrow> nat \<Rightarrow> nat" where
  "ring_advance sz index len = (index + len) AND (sz - 1)"

definition ring_read :: "nat \<Rightarrow> 'a list \<Rightarrow> nat \<Rightarrow> nat \<Rightarrow> 'a list" where
  "ring_read sz buf pos n = map (\<lambda>i. buf ! ((pos + i) mod sz)) [0..<n]"

lemma length_ring_read [simp]: "length (ring_read sz buf pos n) = n"
  by (simp add: ring_read_def)

lemma nth_ring_read [simp]: "i < n \<Longrightarrow> ring_read sz buf pos n ! i = buf ! ((pos + i) mod sz)"
  by (simp add: ring_read_def)

lemma ring_read_0 [simp]: "ring_read sz buf pos 0 = []"
  by (simp add: ring_read_def)

lemma ring_read_add:
  "ring_read sz buf pos (m + n) = ring_read sz buf pos m @ ring_read sz buf ((pos + m) mod sz) n"
proof (rule nth_equalityI)
  fix i
  assume "i < length (ring_read sz buf pos (m + n))"
  then have i: "i < m + n" by simp
  have "m \<le> i \<Longrightarrow> ((pos + m) mod sz + (i - m)) mod sz = (pos + i) mod sz"
    by (subst mod_add_left_eq) simp
  with i show "ring_read sz buf pos (m + n) ! i =
      (ring_read sz buf pos m @ ring_read sz buf ((pos + m) mod sz) n) ! i"
    by (auto simp: nth_append simp del: add_diff_assoc add_diff_assoc2)
qed simp

lemma take_ring_read: "m \<le> n \<Longrightarrow> take m (ring_read sz buf pos n) = ring_read sz buf pos m"
  by (rule nth_equalityI) auto

lemma drop_ring_read:
  "m \<le> n \<Longrightarrow> drop m (ring_read sz buf pos n) = ring_read sz buf ((pos + m) mod sz) (n - m)"
  by (rule nth_equalityI) (auto simp: mod_simps add.assoc)

lemma mod_shift_inj:
  fixes p i j sz :: nat
  assumes "(p + i) mod sz = (p + j) mod sz" "i < sz" "j < sz"
  shows "i = j"
proof -
  have "(int p + int i) mod int sz = (int p + int j) mod int sz"
    using assms(1) by (metis of_nat_add of_nat_mod)
  then have "int i mod int sz = int j mod int sz"
    by (metis add_diff_cancel_left' mod_diff_cong)
  then show ?thesis using assms(2,3) by simp
qed

locale pow2_ring =
  fixes sz :: nat
  assumes sz_pow2: "\<exists>k. sz = 2 ^ k"
begin

lemma sz_pos: "0 < sz"
  using sz_pow2 by auto

lemma advance_mod: "ring_advance sz i n = (i + n) mod sz"
  using sz_pow2 by (auto simp: ring_advance_def and_pow2_mask)

lemma advance_less: "ring_advance sz i n < sz"
  using sz_pos by (simp add: advance_mod)

lemma copy_out_read:
  assumes "length buf = sz" "index < sz" "len \<le> sz"
  shows "ring_copy_out sz buf index len = ring_read sz buf index len"
proof (rule nth_equalityI)
  show "length (ring_copy_out sz buf index len) = length (ring_read sz buf index len)"
    using assms by (auto simp: ring_copy_out_def)
next
  fix i
  assume "i < length (ring_copy_out sz buf index len)"
  then have i: "i < len" using assms by (auto simp: ring_copy_out_def split: if_splits)
  have wrap: "\<not> i < sz - index \<Longrightarrow> (index + i) mod sz = i - (sz - index)"
    using assms i by (simp add: mod_wrap)
  show "ring_copy_out sz buf index len ! i = ring_read sz buf index len ! i"
    using assms i wrap by (auto simp: ring_copy_out_def nth_append Let_def)
qed

lemma length_copy_in:
  "length buf = sz \<Longrightarrow> tail < sz \<Longrightarrow> length bs \<le> sz \<Longrightarrow> length (ring_copy_in sz buf tail bs) = sz"
  by (auto simp: ring_copy_in_def Let_def)

lemma nth_copy_in:
  assumes "length buf = sz" "tail < sz" "length bs \<le> sz" "d < sz"
  shows "ring_copy_in sz buf tail bs ! ((tail + d) mod sz) =
    (if d < length bs then bs ! d else buf ! ((tail + d) mod sz))"
proof (cases "tail + d < sz")
  case True
  then show ?thesis
    using assms by (auto simp: ring_copy_in_def Let_def nth_memcpy_at)
next
  case False
  then have "(tail + d) mod sz = tail + d - sz" using assms by (simp add: mod_if)
  then show ?thesis
    using assms False by (auto simp: ring_copy_in_def Let_def nth_memcpy_at)
qed

text \<open>What is read after a block was appended behind the used part.\<close>

lemma read_copy_in_append:
  assumes buf: "length buf = sz" and room: "used + length bs \<le> sz"
  shows "ring_read sz (ring_copy_in sz buf ((head + used) mod sz) bs) head (used + length bs) =
    ring_read sz buf head used @ bs" (is "ring_read sz ?b _ _ = _")
proof (rule nth_equalityI)
  fix i
  assume "i < length (ring_read sz ?b head (used + length bs))"
  then have i: "i < used + length bs" by simp
  define d where "d = (if i < used then i + sz - used else i - used)"
  have d: "d < sz" "((head + used) mod sz + d) mod sz = (head + i) mod sz"
    using i room sz_pos by (auto simp: d_def mod_add_left_eq) (simp add: add.assoc [symmetric])
  have "?b ! ((head + i) mod sz) = (if d < length bs then bs ! d else buf ! ((head + i) mod sz))"
    using nth_copy_in [OF buf _ _ d(1), of "(head + used) mod sz" bs] d(2) room sz_pos by simp
  then show "ring_read sz ?b head (used + length bs) ! i = (ring_read sz buf head used @ bs) ! i"
    using i room by (auto simp: nth_append d_def split: if_splits)
qed simp

end

text \<open>The number of used elements between the head and the tail index.\<close>

definition ring_used :: "nat \<Rightarrow> nat \<Rightarrow> nat \<Rightarrow> nat" where
  "ring_used sz head tail = (tail + sz - head) mod sz"

context pow2_ring
begin

lemma ring_used_less: "ring_used sz head tail < sz"
  using sz_pos by (simp add: ring_used_def)

lemma ring_used_tail:
  "head < sz \<Longrightarrow> tail < sz \<Longrightarrow> (head + ring_used sz head tail) mod sz = tail"
  by (simp add: ring_used_def mod_add_right_eq)

lemma ring_used_advance_tail:
  assumes "head < sz" "tail < sz" "ring_used sz head tail + n < sz"
  shows "ring_used sz head (ring_advance sz tail n) = ring_used sz head tail + n"
proof (rule mod_shift_inj [of head])
  have "(head + ring_used sz head (ring_advance sz tail n)) mod sz = ring_advance sz tail n"
    using assms(1) advance_less by (rule ring_used_tail)
  also have "\<dots> = ((head + ring_used sz head tail) mod sz + n) mod sz"
    using assms(1,2) by (simp add: advance_mod ring_used_tail)
  finally show "(head + ring_used sz head (ring_advance sz tail n)) mod sz
      = (head + (ring_used sz head tail + n)) mod sz"
    by (simp add: mod_add_left_eq add.assoc)
qed (use assms ring_used_less in auto)

lemma ring_used_advance_head:
  assumes "head < sz" "tail < sz" "n \<le> ring_used sz head tail"
  shows "ring_used sz (ring_advance sz head n) tail = ring_used sz head tail - n"
proof (rule mod_shift_inj [of "head + n"])
  have "(ring_advance sz head n + ring_used sz (ring_advance sz head n) tail) mod sz = tail"
    using advance_less assms(2) by (rule ring_used_tail)
  moreover have "(head + n + (ring_used sz head tail - n)) mod sz = tail"
    using assms by (simp add: ring_used_tail)
  ultimately show "(head + n + ring_used sz (ring_advance sz head n) tail) mod sz
      = (head + n + (ring_used sz head tail - n)) mod sz"
    by (simp add: advance_mod mod_add_left_eq)
qed (use ring_used_less in \<open>auto simp: less_imp_diff_less\<close>)

end

end
