(* ===== verification/Chain.thy ===== *)
theory Chain
  imports Prelude
begin

text \<open>
  Singly linked lists through an array: the \<open>next\<close> pointers of the array's elements are a function
  from indices to optional indices (\<open>None\<close> is the null pointer). \<open>lseg\<close> is a list segment, \<open>chain\<close>
  a list that ends in null. The reception and the empty list of a CAN device are two such chains
  through one array.
\<close>

fun lseg :: "('i \<Rightarrow> 'i option) \<Rightarrow> 'i option \<Rightarrow> 'i list \<Rightarrow> 'i option \<Rightarrow> bool" where
  "lseg nxt p [] q = (p = q)"
| "lseg nxt p (i # is) q = (p = Some i \<and> lseg nxt (nxt i) is q)"

abbreviation chain :: "('i \<Rightarrow> 'i option) \<Rightarrow> 'i option \<Rightarrow> 'i list \<Rightarrow> bool" where
  "chain nxt p xs \<equiv> lseg nxt p xs None"

lemma lseg_append [chain_simps]:
  "lseg nxt p (xs @ ys) q \<longleftrightarrow> (\<exists>r. lseg nxt p xs r \<and> lseg nxt r ys q)"
  by (induction xs arbitrary: p) auto

lemma lseg_cong:
  "(\<And>i. i \<in> set xs \<Longrightarrow> nxt' i = nxt i) \<Longrightarrow> lseg nxt' p xs q = lseg nxt p xs q"
  by (induction xs arbitrary: p) auto

lemma lseg_upd_notin [chain_simps]:
  "i \<notin> set xs \<Longrightarrow> lseg (nxt(i := v)) p xs q = lseg nxt p xs q"
  by (rule lseg_cong) auto

lemma lseg_upd_last:
  assumes "lseg nxt p (xs @ [i]) q" "i \<notin> set xs"
  shows "lseg (nxt(i := v)) p (xs @ [i]) v"
  using assms by (auto simp: lseg_append lseg_upd_notin)

lemma lseg_redirect:
  assumes "lseg nxt p xs q" "xs \<noteq> []" "distinct xs"
  shows "lseg (nxt(last xs := v)) p xs v"
  using assms lseg_upd_last [of nxt p] by (cases xs rule: rev_cases) auto

lemma chain_unique: "chain nxt p xs \<Longrightarrow> chain nxt p ys \<Longrightarrow> xs = ys"
  by (induction xs arbitrary: p ys) (auto elim: lseg.elims)

lemma chain_None [simp]: "chain nxt None xs \<longleftrightarrow> xs = []"
  by (cases xs) auto

lemma chain_Some: "chain nxt (Some i) xs \<longleftrightarrow> (\<exists>ys. xs = i # ys \<and> chain nxt (nxt i) ys)"
  by (cases xs) auto

lemma lseg_last:
  "lseg nxt p xs q \<Longrightarrow> xs \<noteq> [] \<Longrightarrow> nxt (last xs) = q"
  by (induction xs arbitrary: p) (auto split: if_splits)

lemma lseg_nth_Suc:
  "lseg nxt p xs q \<Longrightarrow> Suc j < length xs \<Longrightarrow> nxt (xs ! j) = Some (xs ! Suc j)"
proof (induction xs arbitrary: p j)
  case (Cons a xs)
  then show ?case by (cases j) (auto simp: nth_Cons split: nat.splits elim: lseg.elims)
qed simp

lemma lseg_end_unique: "lseg nxt p xs q \<Longrightarrow> lseg nxt p xs r \<Longrightarrow> q = r"
  by (induction xs arbitrary: p) auto

text \<open>A segment of a list is unlinked by redirecting the pointer in front of it.\<close>

lemma chain_unlink:
  assumes "chain nxt p (xs @ [a] @ ys @ zs)" "lseg nxt (nxt a) ys q" "distinct (xs @ [a] @ ys @ zs)"
  shows "chain (nxt(a := q)) p (xs @ [a] @ zs)"
  using assms by (auto simp: lseg_append lseg_upd_notin dest: lseg_end_unique)

end
