(* ===== verification/Can_Types.thy ===== *)
theory Can_Types
  imports Ring Chain Rtdm_Sync
begin

text \<open>
  The data of RT-Socket-CAN: the CAN profile of \<open>include/rtdm/rtcan.h\<close>, sockets and ring buffer
  frames (\<open>rtcan_socket.h\<close>), receiver list elements (\<open>rtcan_list.h\<close>), devices (\<open>rtcan_dev.h\<close>).
  Pointers to sockets, devices and list elements are numbers (addresses, indices into the
  device's \<open>receivers\<close> array); \<open>None\<close> is the null pointer. The sizes are the Kconfig defaults (ring
  buffers of 1024 bytes, 4 devices, 16 receivers); loopback, bus error support and reference
  counts are compiled in, debug assertions are not.
\<close>

section \<open>The CAN profile\<close>

definition CAN_EFF_MASK :: u32 where "CAN_EFF_MASK = 0x1FFFFFFF"
definition CAN_SFF_MASK :: u32 where "CAN_SFF_MASK = 0x000007FF"
definition CAN_EFF_FLAG :: u32 where "CAN_EFF_FLAG = 0x80000000"
definition CAN_RTR_FLAG :: u32 where "CAN_RTR_FLAG = 0x40000000"
definition CAN_ERR_FLAG :: u32 where "CAN_ERR_FLAG = 0x20000000"
definition CAN_INV_FILTER :: u32 where "CAN_INV_FILTER = CAN_ERR_FLAG"
definition RTCAN_DEV_NAME :: string where "RTCAN_DEV_NAME = ''rtcan%d''"
definition CAN_BAUDRATE_UNKNOWN :: u32 where "CAN_BAUDRATE_UNKNOWN = - 1"
definition CAN_CTRLMODE_LISTENONLY :: u32 where "CAN_CTRLMODE_LISTENONLY = 0x1"
definition CAN_CTRLMODE_LOOPBACK :: u32 where "CAN_CTRLMODE_LOOPBACK = 0x2"
definition CAN_ERR_DLC :: u8 where "CAN_ERR_DLC = 8"
definition CAN_ERR_LOSTARB :: u32 where "CAN_ERR_LOSTARB = 0x00000002"
definition CAN_ERR_CRTL :: u32 where "CAN_ERR_CRTL = 0x00000004"
definition CAN_ERR_PROT :: u32 where "CAN_ERR_PROT = 0x00000008"
definition CAN_ERR_BUSOFF :: u32 where "CAN_ERR_BUSOFF = 0x00000040"
definition CAN_ERR_BUSERROR :: u32 where "CAN_ERR_BUSERROR = 0x00000080"

lemmas can_consts = CAN_EFF_MASK_def CAN_SFF_MASK_def CAN_EFF_FLAG_def CAN_RTR_FLAG_def
  CAN_ERR_FLAG_def CAN_INV_FILTER_def CAN_BAUDRATE_UNKNOWN_def CAN_CTRLMODE_LISTENONLY_def
  CAN_CTRLMODE_LOOPBACK_def CAN_ERR_DLC_def CAN_ERR_LOSTARB_def CAN_ERR_CRTL_def
  CAN_ERR_PROT_def CAN_ERR_BUSOFF_def CAN_ERR_BUSERROR_def

text \<open>A mode comes from the user unchecked: any other value of the C type is \<open>CAN_MODE_OTHER\<close>.\<close>

datatype can_mode = CAN_MODE_STOP | CAN_MODE_START | CAN_MODE_SLEEP | CAN_MODE_OTHER int

datatype can_state = CAN_STATE_ACTIVE | CAN_STATE_BUS_WARNING | CAN_STATE_BUS_PASSIVE
  | CAN_STATE_BUS_OFF | CAN_STATE_SCANNING_BAUDRATE | CAN_STATE_STOPPED | CAN_STATE_SLEEPING

fun can_state_code :: "can_state \<Rightarrow> nat" where
  "can_state_code CAN_STATE_ACTIVE = 0"
| "can_state_code CAN_STATE_BUS_WARNING = 1"
| "can_state_code CAN_STATE_BUS_PASSIVE = 2"
| "can_state_code CAN_STATE_BUS_OFF = 3"
| "can_state_code CAN_STATE_SCANNING_BAUDRATE = 4"
| "can_state_code CAN_STATE_STOPPED = 5"
| "can_state_code CAN_STATE_SLEEPING = 6"

lemma can_state_code_inj: "can_state_code a = can_state_code b \<Longrightarrow> a = b"
  by (cases a; cases b) simp_all

text \<open>The enumeration's order, as C compares it.\<close>

instantiation can_state :: linorder
begin

definition less_eq_can_state :: "can_state \<Rightarrow> can_state \<Rightarrow> bool" where
  "less_eq_can_state a b = (can_state_code a \<le> can_state_code b)"

definition less_can_state :: "can_state \<Rightarrow> can_state \<Rightarrow> bool" where
  "less_can_state a b = (can_state_code a < can_state_code b)"

instance
  by standard (auto simp: less_eq_can_state_def less_can_state_def intro: can_state_code_inj)

end

definition CAN_STATE_OPERATING :: "can_state \<Rightarrow> bool" where
  "CAN_STATE_OPERATING s = (s < CAN_STATE_BUS_OFF)"

lemma CAN_STATE_OPERATING_iff:
  "CAN_STATE_OPERATING s \<longleftrightarrow>
     s = CAN_STATE_ACTIVE \<or> s = CAN_STATE_BUS_WARNING \<or> s = CAN_STATE_BUS_PASSIVE"
  by (cases s) (simp_all add: CAN_STATE_OPERATING_def less_can_state_def)

record can_bittime_std =
  brp :: u32
  prop_seg :: u8
  phase_seg1 :: u8
  phase_seg2 :: u8
  sjw :: u8
  sam :: u8

text \<open>The tagged union \<open>struct can_bittime\<close>; \<open>CAN_BITTIME_OTHER\<close> is any other value of the tag.\<close>

datatype can_bittime = CAN_BITTIME_STD can_bittime_std | CAN_BITTIME_BTR u8 u8 | CAN_BITTIME_OTHER int

record can_filter =
  flt_can_id :: u32
  flt_can_mask :: u32

record sockaddr_can =
  scan_family :: nat
  scan_ifindex :: int

record can_frame =
  frm_can_id :: u32
  frm_can_dlc :: u8
  frm_data :: "u8 list"

definition sizeof_can_frame :: nat where "sizeof_can_frame = 16"
definition sizeof_can_filter :: nat where "sizeof_can_filter = 8"
definition sizeof_sockaddr_can :: nat where "sizeof_sockaddr_can = 8"
definition AF_CAN :: nat where "AF_CAN = 29"

section \<open>Ring buffer frames\<close>

definition RTCAN_RXBUF_SIZE :: nat where "RTCAN_RXBUF_SIZE = 1024"
definition RTCAN_TIMESTAMP_SIZE :: nat where "RTCAN_TIMESTAMP_SIZE = 8"
definition RTCAN_HAS_TIMESTAMP :: u8 where "RTCAN_HAS_TIMESTAMP = 0x80"
definition RTCAN_HAS_NO_TIMESTAMP :: u8 where "RTCAN_HAS_NO_TIMESTAMP = 0x7F"

definition sizeof_rb_frame :: nat where
  "sizeof_rb_frame = 4 + 1 + 1 + 8 + RTCAN_TIMESTAMP_SIZE"

definition EMPTY_RB_FRAME_SIZE :: nat where
  "EMPTY_RB_FRAME_SIZE = sizeof_rb_frame - 8 - RTCAN_TIMESTAMP_SIZE"

lemma EMPTY_RB_FRAME_SIZE_eq: "EMPTY_RB_FRAME_SIZE = 6" "sizeof_rb_frame = 22"
  by (simp_all add: EMPTY_RB_FRAME_SIZE_def sizeof_rb_frame_def RTCAN_TIMESTAMP_SIZE_def)

text \<open>
  \<open>struct rtcan_rb_frame\<close> is packed and is always handled as memory: the timestamp is written
  behind the payload, wherever that ends, and a prefix of the structure is copied to the ring.
  So it is modelled as its 22 bytes, little endian, with the members at their offsets.
\<close>

definition u32_bytes :: "u32 \<Rightarrow> u8 list" where
  "u32_bytes v = [ucast v, ucast (drop_bit 8 v), ucast (drop_bit 16 v), ucast (drop_bit 24 v)]"

definition bytes_u32 :: "u8 list \<Rightarrow> u32" where
  "bytes_u32 bs = ucast (bs ! 0) OR push_bit 8 (ucast (bs ! 1)) OR push_bit 16 (ucast (bs ! 2))
     OR push_bit 24 (ucast (bs ! 3))"

definition u64_bytes :: "u64 \<Rightarrow> u8 list" where
  "u64_bytes v = u32_bytes (ucast v) @ u32_bytes (ucast (drop_bit 32 v))"

definition bytes_u64 :: "u8 list \<Rightarrow> u64" where
  "bytes_u64 bs = ucast (bytes_u32 (take 4 bs)) OR push_bit 32 (ucast (bytes_u32 (drop 4 bs)))"

lemma length_u32_bytes [simp]: "length (u32_bytes v) = 4"
  by (simp add: u32_bytes_def)

lemma length_u64_bytes [simp]: "length (u64_bytes v) = 8"
  by (simp add: u64_bytes_def)

lemma bytes_u32_u32_bytes [simp]: "bytes_u32 (u32_bytes v) = v"
proof (rule bit_word_eqI)
  fix n
  assume "n < LENGTH(32)"
  then show "bit (bytes_u32 (u32_bytes v)) n = bit v n"
    by (cases "n < 8"; cases "n < 16"; cases "n < 24")
      (auto simp: bytes_u32_def u32_bytes_def bit_or_iff bit_push_bit_iff bit_ucast_iff
        bit_drop_bit_eq not_le)
qed

lemma bytes_u64_u64_bytes [simp]: "bytes_u64 (u64_bytes v) = v"
proof (rule bit_word_eqI)
  fix n
  assume "n < LENGTH(64)"
  then show "bit (bytes_u64 (u64_bytes v)) n = bit v n"
    by (auto simp: bytes_u64_def u64_bytes_def bit_or_iff bit_push_bit_iff bit_ucast_iff
        bit_drop_bit_eq not_le)
qed

record rtcan_skb =
  rb_frame_size :: nat
  rb_frame :: "u8 list"

definition rb_can_id :: "u8 list \<Rightarrow> u32" where "rb_can_id f = bytes_u32 (take 4 f)"
definition rb_can_ifindex :: "u8 list \<Rightarrow> u8" where "rb_can_ifindex f = f ! 4"
definition rb_can_dlc :: "u8 list \<Rightarrow> u8" where "rb_can_dlc f = f ! 5"
definition rb_data :: "u8 list \<Rightarrow> u8 list" where "rb_data f = take 8 (drop 6 f)"

definition set_rb_can_id :: "u32 \<Rightarrow> u8 list \<Rightarrow> u8 list" where
  "set_rb_can_id v f = memcpy_at f 0 (u32_bytes v)"

definition set_rb_can_ifindex :: "u8 \<Rightarrow> u8 list \<Rightarrow> u8 list" where
  "set_rb_can_ifindex v f = f[4 := v]"

definition set_rb_can_dlc :: "u8 \<Rightarrow> u8 list \<Rightarrow> u8 list" where
  "set_rb_can_dlc v f = f[5 := v]"

text \<open>A \<open>memcpy\<close> into the frame faults when it leaves the structure.\<close>

definition rb_memcpy :: "u8 list \<Rightarrow> nat \<Rightarrow> u8 list \<Rightarrow> u8 list kres" where
  "rb_memcpy f off bs = (if off + length bs \<le> length f then Inr (memcpy_at f off bs) else Inl OutOfBounds)"

lemma length_set_rb [simp]:
  "4 \<le> length f \<Longrightarrow> length (set_rb_can_id v f) = length f"
  "length (set_rb_can_ifindex b f) = length f"
  "length (set_rb_can_dlc b f) = length f"
  by (simp_all add: set_rb_can_id_def set_rb_can_ifindex_def set_rb_can_dlc_def)

section \<open>Sockets\<close>

text \<open>\<open>RTCAN_FLIST_NO_FILTER\<close> is the pointer -1.\<close>

datatype rtcan_filter_list = FlistNull | RTCAN_FLIST_NO_FILTER | Flist "can_filter list"

definition rtcan_flist_no_filter :: "rtcan_filter_list \<Rightarrow> bool" where
  "rtcan_flist_no_filter f = (f = RTCAN_FLIST_NO_FILTER)"

definition RTCAN_SOCK_UNBOUND :: int where "RTCAN_SOCK_UNBOUND = - 1"

text \<open>\<open>context_flags\<close> belongs to the \<open>rtdm_dev_context\<close> around the socket.\<close>

record rtcan_socket =
  context_flags :: u64
  tx_timeout :: int
  rx_timeout :: int
  recv_head :: nat
  recv_tail :: nat
  recv_buf :: "u8 list"
  recv_sem :: rtdm_sem
  tx_wait_head :: "nat list"
  sock_ifindex :: int
  flistlen :: int
  err_mask :: u32
  rx_buf_full :: u32
  flist :: rtcan_filter_list
  loopback :: int

definition rtcan_sock_has_filter :: "rtcan_socket \<Rightarrow> bool" where
  "rtcan_sock_has_filter s = (flistlen s > 0)"

definition rtcan_sock_is_bound :: "rtcan_socket \<Rightarrow> bool" where
  "rtcan_sock_is_bound s = (flistlen s \<ge> 0)"

definition RTDM_CLOSING :: nat where "RTDM_CLOSING = 1"
definition RTCAN_GET_TIMESTAMP :: nat where "RTCAN_GET_TIMESTAMP = 8"

section \<open>Devices\<close>

definition RTCAN_MAX_DEVICES :: nat where "RTCAN_MAX_DEVICES = 4"
definition RTCAN_MAX_RECEIVERS :: nat where "RTCAN_MAX_RECEIVERS = 16"

record rtcan_recv =
  can_filter_of :: can_filter
  match_count :: u32
  recv_sock :: "nat option"
  next_recv :: "nat option"

record rtcan_device =
  dev_name :: string
  dev_ifindex :: nat
  refcount :: int
  tx_sem :: rtdm_sem
  can_sys_clock :: u32
  baudrate :: u32
  bit_time :: can_bittime
  dev_state :: can_state
  state_before_sleep :: can_state
  ctrl_mode :: u32
  recv_list :: "nat option"
  empty_list :: "nat option"
  receivers :: "rtcan_recv list"
  free_entries :: int
  tx_count :: u32
  rx_count :: u32
  err_count :: u32
  tx_skb :: rtcan_skb
  tx_socket :: "nat option"

text \<open>
  The global state: the table \<open>rtcan_devices\<close>, the memory of the device and socket structures (by
  address) and \<open>rtcan_socket_list\<close>. A driver extends the record by its hardware.
\<close>

record can_world =
  rtcan_devices :: "nat option list"
  devs :: "nat \<Rightarrow> rtcan_device"
  socks :: "nat \<Rightarrow> rtcan_socket"
  rtcan_socket_list :: "nat list"

definition upd_dev :: "nat \<Rightarrow> (rtcan_device \<Rightarrow> rtcan_device) \<Rightarrow> 'z can_world_scheme \<Rightarrow> 'z can_world_scheme" where
  "upd_dev d f w = w\<lparr>devs := (devs w)(d := f (devs w d))\<rparr>"

definition upd_sock :: "nat \<Rightarrow> (rtcan_socket \<Rightarrow> rtcan_socket) \<Rightarrow> 'z can_world_scheme \<Rightarrow> 'z can_world_scheme" where
  "upd_sock s f w = w\<lparr>socks := (socks w)(s := f (socks w s))\<rparr>"

lemma upd_dev_simps [simp]:
  "devs (upd_dev d f w) = (devs w)(d := f (devs w d))"
  "socks (upd_dev d f w) = socks w"
  "rtcan_devices (upd_dev d f w) = rtcan_devices w"
  "rtcan_socket_list (upd_dev d f w) = rtcan_socket_list w"
  "can_world.more (upd_dev d f w) = can_world.more w"
  by (simp_all add: upd_dev_def)

lemma upd_sock_simps [simp]:
  "socks (upd_sock s g w) = (socks w)(s := g (socks w s))"
  "devs (upd_sock s g w) = devs w"
  "rtcan_devices (upd_sock s g w) = rtcan_devices w"
  "rtcan_socket_list (upd_sock s g w) = rtcan_socket_list w"
  "can_world.more (upd_sock s g w) = can_world.more w"
  by (simp_all add: upd_sock_def)

section \<open>Device operations\<close>

text \<open>
  The function pointers of \<open>struct rtcan_device\<close>; \<open>None\<close> is a null pointer. Each takes the device and
  the global state. \<open>hard_start_xmit\<close> and \<open>do_set_mode\<close> are set by every driver; they may fault, or wait
  forever for the hardware.
\<close>

record 'w can_ops =
  hard_start_xmit :: "nat \<Rightarrow> can_frame \<Rightarrow> 'w \<Rightarrow> (cret \<times> 'w) kres"
  do_set_mode :: "(nat \<Rightarrow> can_mode \<Rightarrow> 'w \<Rightarrow> (cret \<times> 'w) kres) option"
  do_get_state :: "(nat \<Rightarrow> 'w \<Rightarrow> can_state \<times> 'w) option"
  do_set_bit_time :: "(nat \<Rightarrow> can_bittime \<Rightarrow> 'w \<Rightarrow> cret \<times> 'w) option"
  do_enable_bus_err :: "(nat \<Rightarrow> 'w \<Rightarrow> 'w) option"

end
