(* ===== verification/Can_Dev.thy ===== *)
theory Can_Dev
  imports Can_Types
begin

text \<open>
  Device management of RT-Socket-CAN (\<open>rtcan_dev.c\<close>): allocation of the device structure with its
  receiver array, the table of registered devices, lookup by index and by name with reference
  counts, name allocation, registration and unregistration. \<open>dev_lists\<close> is the invariant of the
  receiver array, \<open>registry_ok\<close> the invariant of the table.
\<close>

section \<open>Operations\<close>

definition IFNAMSIZ :: nat where "IFNAMSIZ = 16"

text \<open>
  The C strings are character lists without the terminating zero: \<open>strncmp(a, b, n) == 0\<close> is the
  equality of the first n characters.
\<close>

fun dev_get_by_name_from :: "(nat \<Rightarrow> rtcan_device) \<Rightarrow> nat option list \<Rightarrow> string \<Rightarrow> nat option" where
  "dev_get_by_name_from ds [] name = None"
| "dev_get_by_name_from ds (None # slots) name = dev_get_by_name_from ds slots name"
| "dev_get_by_name_from ds (Some d # slots) name =
     (if take IFNAMSIZ (dev_name (ds d)) = take IFNAMSIZ name then Some d
      else dev_get_by_name_from ds slots name)"

definition rtcan_dev_reference :: "nat \<Rightarrow> 'z can_world_scheme \<Rightarrow> 'z can_world_scheme" where
  "rtcan_dev_reference d = upd_dev d (\<lambda>dev. dev\<lparr>refcount := refcount dev + 1\<rparr>)"

definition rtcan_dev_dereference :: "nat \<Rightarrow> 'z can_world_scheme \<Rightarrow> 'z can_world_scheme" where
  "rtcan_dev_dereference d = upd_dev d (\<lambda>dev. dev\<lparr>refcount := refcount dev - 1\<rparr>)"

definition rtcan_dev_get_by_name ::
    "'z can_world_scheme \<Rightarrow> string \<Rightarrow> nat option \<times> 'z can_world_scheme" where
  "rtcan_dev_get_by_name w name =
     (case dev_get_by_name_from (devs w) (rtcan_devices w) name of
        None \<Rightarrow> (None, w)
      | Some d \<Rightarrow> (Some d, rtcan_dev_reference d w))"

definition rtcan_dev_get_by_index ::
    "'z can_world_scheme \<Rightarrow> int \<Rightarrow> nat option \<times> 'z can_world_scheme" where
  "rtcan_dev_get_by_index w ifindex =
     (if ifindex \<le> 0 \<or> ifindex > int RTCAN_MAX_DEVICES then (None, w)
      else case rtcan_devices w ! nat (ifindex - 1) of
        None \<Rightarrow> (None, w)
      | Some d \<Rightarrow> (Some d, rtcan_dev_reference d w))"

text \<open>\<open>snprintf(buf, IFNAMSIZ, mask, i)\<close> with one \<open>%d\<close> in the mask.\<close>

fun format_d :: "string \<Rightarrow> nat \<Rightarrow> string" where
  "format_d [] n = []"
| "format_d [c] n = [c]"
| "format_d (c # c' # cs) n =
     (if c = CHR ''%'' \<and> c' = CHR ''d'' then dec_digits n @ cs else c # format_d (c' # cs) n)"

definition snprintf_ifname :: "string \<Rightarrow> nat \<Rightarrow> string" where
  "snprintf_ifname tmpl i = take (IFNAMSIZ - 1) (format_d tmpl i)"

fun alloc_name_loop :: "'z can_world_scheme \<Rightarrow> nat \<Rightarrow> string \<Rightarrow> nat list \<Rightarrow> 'z can_world_scheme" where
  "alloc_name_loop w d tmpl [] = w"
| "alloc_name_loop w d tmpl (i # is) =
     (let buf = snprintf_ifname tmpl i in
      case rtcan_dev_get_by_name w buf of
        (None, w1) \<Rightarrow> upd_dev d (\<lambda>dev. dev\<lparr>dev_name := take IFNAMSIZ buf\<rparr>) w1
      | (Some tmp, w1) \<Rightarrow> alloc_name_loop (rtcan_dev_dereference tmp w1) d tmpl is)"

definition rtcan_dev_alloc_name :: "'z can_world_scheme \<Rightarrow> nat \<Rightarrow> string \<Rightarrow> 'z can_world_scheme" where
  "rtcan_dev_alloc_name w d tmpl = alloc_name_loop w d tmpl [0..<RTCAN_MAX_DEVICES]"

definition zero_skb :: rtcan_skb where
  "zero_skb = \<lparr>rb_frame_size = 0, rb_frame = replicate sizeof_rb_frame 0\<rparr>"

definition zero_filter :: can_filter where
  "zero_filter = \<lparr>flt_can_id = 0, flt_can_mask = 0\<rparr>"

definition fresh_receivers :: "rtcan_recv list" where
  "fresh_receivers = map (\<lambda>j. \<lparr>can_filter_of = zero_filter, match_count = 0, recv_sock = None,
     next_recv = (if j < RTCAN_MAX_RECEIVERS - 1 then Some (j + 1) else None)\<rparr>) [0..<RTCAN_MAX_RECEIVERS]"

text \<open>
  \<open>mem\<close> is the address \<open>kmalloc\<close> returned, \<open>None\<close> when it failed. The structure is cleared, then the
  receiver array is linked into the empty list.
\<close>

definition fresh_device :: rtcan_device where
  "fresh_device = \<lparr>dev_name = [], dev_ifindex = 0, refcount = 0,
     tx_sem = \<lparr>sem_destroy = False, sem_count = 0, sem_sleepers = 0\<rparr>,
     can_sys_clock = 0, baudrate = 0,
     bit_time = CAN_BITTIME_STD \<lparr>brp = 0, prop_seg = 0, phase_seg1 = 0, phase_seg2 = 0, sjw = 0, sam = 0\<rparr>,
     dev_state = CAN_STATE_ACTIVE, state_before_sleep = CAN_STATE_ACTIVE, ctrl_mode = 0,
     recv_list = None, empty_list = Some 0, receivers = fresh_receivers,
     free_entries = int RTCAN_MAX_RECEIVERS, tx_count = 0, rx_count = 0, err_count = 0,
     tx_skb = zero_skb, tx_socket = None\<rparr>"

definition rtcan_dev_alloc ::
    "'z can_world_scheme \<Rightarrow> nat option \<Rightarrow> nat option \<times> 'z can_world_scheme" where
  "rtcan_dev_alloc w mem =
     (case mem of None \<Rightarrow> (None, w) | Some d \<Rightarrow> (Some d, upd_dev d (\<lambda>_. fresh_device) w))"

definition rtcan_dev_free :: "'z can_world_scheme \<Rightarrow> nat option \<Rightarrow> 'z can_world_scheme" where
  "rtcan_dev_free w dev =
     (case dev of None \<Rightarrow> w
      | Some d \<Rightarrow> upd_dev d (\<lambda>dv. dv\<lparr>tx_sem := rtdm_sem_destroy (tx_sem dv)\<rparr>) w)"

fun new_index_from :: "nat \<Rightarrow> nat option list \<Rightarrow> errno + nat" where
  "new_index_from i [] = Inl ENOMEM"
| "new_index_from i (None # slots) = Inr (i + 1)"
| "new_index_from i (Some d # slots) = new_index_from (i + 1) slots"

definition rtcan_dev_new_index :: "'z can_world_scheme \<Rightarrow> errno + nat" where
  "rtcan_dev_new_index w = new_index_from 0 (rtcan_devices w)"

definition rtcan_dev_register :: "'z can_world_scheme \<Rightarrow> nat \<Rightarrow> cret \<times> 'z can_world_scheme" where
  "rtcan_dev_register w d =
     (case rtcan_dev_new_index w of
        Inl e \<Rightarrow> (Inl e, w)
      | Inr ret \<Rightarrow>
          let w1 = upd_dev d (\<lambda>dev. dev\<lparr>dev_ifindex := ret\<rparr>) w;
              name = dev_name (devs w1 d);
              w2 = (if CHR ''%'' \<in> set name then rtcan_dev_alloc_name w1 d name else w1)
          in case dev_get_by_name_from (devs w2) (rtcan_devices w2) (dev_name (devs w2 d)) of
               Some _ \<Rightarrow> (Inl EEXIST, w2)
             | None \<Rightarrow>
                 (Inr 0, w2\<lparr>rtcan_devices := (rtcan_devices w2)[dev_ifindex (devs w2 d) - 1 := Some d]\<rparr>))"

text \<open>
  Unregistration polls the reference count once a second; \<open>waits\<close> is what the rest of the system
  does during each of these waits. \<open>None\<close>: still waiting after the last of them.
\<close>

fun unregister_wait ::
    "'z can_world_scheme \<Rightarrow> nat \<Rightarrow> ('z can_world_scheme \<Rightarrow> 'z can_world_scheme) list
      \<Rightarrow> 'z can_world_scheme option" where
  "unregister_wait w d [] = (if refcount (devs w d) > 0 then None else Some w)"
| "unregister_wait w d (f # fs) =
     (if refcount (devs w d) > 0 then unregister_wait (f w) d fs else Some w)"

definition rtcan_dev_unregister ::
    "'z can_world_scheme \<Rightarrow> nat \<Rightarrow> ('z can_world_scheme \<Rightarrow> 'z can_world_scheme) list
      \<Rightarrow> (cret \<times> 'z can_world_scheme) option" where
  "rtcan_dev_unregister w d waits =
     (if CAN_STATE_OPERATING (dev_state (devs w d)) then Some (Inl EBUSY, w)
      else case unregister_wait w d waits of
        None \<Rightarrow> None
      | Some w' \<Rightarrow>
          Some (Inr 0, w'\<lparr>rtcan_devices := (rtcan_devices w')[dev_ifindex (devs w' d) - 1 := None]\<rparr>))"

section \<open>The receiver array of a device\<close>

definition nxt :: "rtcan_recv list \<Rightarrow> nat \<Rightarrow> nat option" where
  "nxt rs i = next_recv (rs ! i)"

text \<open>
  The reception list and the empty list are two disjoint chains that share out the array, and
  \<open>free_entries\<close> is the length of the empty list.
\<close>

definition dev_lists :: "rtcan_device \<Rightarrow> nat list \<Rightarrow> nat list \<Rightarrow> bool" where
  "dev_lists dev recv avail \<longleftrightarrow>
     length (receivers dev) = RTCAN_MAX_RECEIVERS \<and>
     chain (nxt (receivers dev)) (recv_list dev) recv \<and>
     chain (nxt (receivers dev)) (empty_list dev) avail \<and>
     distinct (recv @ avail) \<and> set (recv @ avail) = {..<RTCAN_MAX_RECEIVERS} \<and>
     free_entries dev = int (length avail)"

lemma dev_listsD:
  assumes "dev_lists dev recv avail"
  shows "length (receivers dev) = RTCAN_MAX_RECEIVERS"
    "chain (nxt (receivers dev)) (recv_list dev) recv"
    "chain (nxt (receivers dev)) (empty_list dev) avail"
    "distinct (recv @ avail)" "set (recv @ avail) = {..<RTCAN_MAX_RECEIVERS}"
    "free_entries dev = int (length avail)"
  using assms by (simp_all add: dev_lists_def)

lemma dev_lists_recv:
  assumes "dev_lists dev recv avail"
  shows "length recv \<le> RTCAN_MAX_RECEIVERS" "set recv \<subseteq> {..<length (receivers dev)}"
proof -
  have "length (recv @ avail) = card (set (recv @ avail))"
    using dev_listsD(4) [OF assms] by (rule distinct_card [symmetric])
  also have "\<dots> = RTCAN_MAX_RECEIVERS" unfolding dev_listsD(5) [OF assms] by simp
  finally show "length recv \<le> RTCAN_MAX_RECEIVERS" by simp
  show "set recv \<subseteq> {..<length (receivers dev)}" using dev_listsD(1,5) [OF assms] by auto
qed

lemma fresh_nxt:
  "i < RTCAN_MAX_RECEIVERS \<Longrightarrow>
    nxt fresh_receivers i = (if i < RTCAN_MAX_RECEIVERS - 1 then Some (i + 1) else None)"
  by (simp add: nxt_def fresh_receivers_def)

lemma upt_chain:
  "k \<le> RTCAN_MAX_RECEIVERS \<Longrightarrow>
    chain (nxt fresh_receivers) (if k < RTCAN_MAX_RECEIVERS then Some k else None) [k..<RTCAN_MAX_RECEIVERS]"
proof (induction "RTCAN_MAX_RECEIVERS - k" arbitrary: k)
  case (Suc n)
  then have k: "k < RTCAN_MAX_RECEIVERS" and n: "n = RTCAN_MAX_RECEIVERS - Suc k" by simp_all
  have "nxt fresh_receivers k = (if Suc k < RTCAN_MAX_RECEIVERS then Some (Suc k) else None)"
    using k by (auto simp: fresh_nxt)
  then show ?case using Suc.hyps(1) [OF n] k by (simp add: upt_conv_Cons)
qed simp

lemma fresh_device_lists: "dev_lists fresh_device [] [0..<RTCAN_MAX_RECEIVERS]"
proof -
  have "chain (nxt fresh_receivers) (Some 0) [0..<RTCAN_MAX_RECEIVERS]"
    using upt_chain [of 0] by (simp add: RTCAN_MAX_RECEIVERS_def)
  then show ?thesis
    by (auto simp: dev_lists_def fresh_device_def) (simp add: fresh_receivers_def)
qed

section \<open>The table of devices\<close>

definition registered :: "'z can_world_scheme \<Rightarrow> nat \<Rightarrow> bool" where
  "registered w d \<longleftrightarrow> Some d \<in> set (rtcan_devices w)"

definition ifname :: "'z can_world_scheme \<Rightarrow> nat \<Rightarrow> string" where
  "ifname w d = take IFNAMSIZ (dev_name (devs w d))"

definition registry_ok :: "'z can_world_scheme \<Rightarrow> bool" where
  "registry_ok w \<longleftrightarrow> length (rtcan_devices w) = RTCAN_MAX_DEVICES \<and>
     (\<forall>i < RTCAN_MAX_DEVICES. \<forall>d. rtcan_devices w ! i = Some d \<longrightarrow> dev_ifindex (devs w d) = i + 1) \<and>
     inj_on (ifname w) {d. registered w d}"

lemma get_by_name_from_Some:
  "dev_get_by_name_from ds slots name = Some d \<Longrightarrow>
    Some d \<in> set slots \<and> take IFNAMSIZ (dev_name (ds d)) = take IFNAMSIZ name"
  by (induction ds slots name rule: dev_get_by_name_from.induct) (auto split: if_splits)

lemma get_by_name_from_None:
  "dev_get_by_name_from ds slots name = None \<longleftrightarrow>
    (\<forall>d. Some d \<in> set slots \<longrightarrow> take IFNAMSIZ (dev_name (ds d)) \<noteq> take IFNAMSIZ name)"
  by (induction ds slots name rule: dev_get_by_name_from.induct) auto

lemma get_by_name_from_cong:
  "(\<And>d. Some d \<in> set slots \<Longrightarrow> dev_name (ds' d) = dev_name (ds d)) \<Longrightarrow>
    dev_get_by_name_from ds' slots name = dev_get_by_name_from ds slots name"
  by (induction ds slots name rule: dev_get_by_name_from.induct) auto

lemma new_index_from_Inr:
  "new_index_from i slots = Inr n \<Longrightarrow>
    \<exists>k < length slots. n = i + k + 1 \<and> slots ! k = None \<and> (\<forall>j < k. slots ! j \<noteq> None)"
proof (induction i slots rule: new_index_from.induct)
  case (3 i d slots)
  then obtain k where "k < length slots" "n = i + 1 + k + 1" "slots ! k = None"
      "\<forall>j < k. slots ! j \<noteq> None"
    by auto
  then show ?case
    by (intro exI [of _ "Suc k"]) (auto simp: nth_Cons split: nat.splits)
qed auto

lemma new_index_from_Inl:
  "new_index_from i slots = Inl e \<longleftrightarrow> e = ENOMEM \<and> None \<notin> set slots"
  by (induction i slots rule: new_index_from.induct) auto

lemma ref_deref [simp]: "rtcan_dev_dereference d (rtcan_dev_reference d w) = w"
  by (simp add: rtcan_dev_dereference_def rtcan_dev_reference_def upd_dev_def)

text \<open>Name allocation looks the candidates up and leaves every reference count as it was.\<close>

lemma alloc_name_loop_eq:
  "alloc_name_loop w d tmpl is =
    (case find (\<lambda>i. dev_get_by_name_from (devs w) (rtcan_devices w) (snprintf_ifname tmpl i) = None) is of
       None \<Rightarrow> w
     | Some i \<Rightarrow> upd_dev d (\<lambda>dev. dev\<lparr>dev_name := take IFNAMSIZ (snprintf_ifname tmpl i)\<rparr>) w)"
  by (induction "is")
    (auto simp: rtcan_dev_get_by_name_def Let_def split: option.splits)

lemma alloc_name_frame:
  "rtcan_devices (rtcan_dev_alloc_name w d tmpl) = rtcan_devices w"
  "d' \<noteq> d \<Longrightarrow> devs (rtcan_dev_alloc_name w d tmpl) d' = devs w d'"
  "dev_ifindex (devs (rtcan_dev_alloc_name w d tmpl) d) = dev_ifindex (devs w d)"
  by (simp_all add: rtcan_dev_alloc_name_def alloc_name_loop_eq split: option.splits)

lemma register_cases:
  assumes "registry_ok w" "\<not> registered w d"
  obtains (full) "None \<notin> set (rtcan_devices w)" "rtcan_dev_register w d = (Inl ENOMEM, w)"
  | (slot) k w2 where
      "k < RTCAN_MAX_DEVICES" "rtcan_devices w ! k = None" "\<forall>j < k. rtcan_devices w ! j \<noteq> None"
      "rtcan_devices w2 = rtcan_devices w" "\<forall>d'. d' \<noteq> d \<longrightarrow> devs w2 d' = devs w d'"
      "dev_ifindex (devs w2 d) = k + 1"
      "w2 = (let w1 = upd_dev d (\<lambda>dev. dev\<lparr>dev_ifindex := k + 1\<rparr>) w in
         if CHR ''%'' \<in> set (dev_name (devs w d)) then rtcan_dev_alloc_name w1 d (dev_name (devs w d)) else w1)"
      "rtcan_dev_register w d =
        (if dev_get_by_name_from (devs w2) (rtcan_devices w) (dev_name (devs w2 d)) = None
         then (Inr 0, w2\<lparr>rtcan_devices := (rtcan_devices w)[k := Some d]\<rparr>) else (Inl EEXIST, w2))"
proof (cases "rtcan_dev_new_index w")
  case (Inl e)
  then have "e = ENOMEM" "None \<notin> set (rtcan_devices w)"
    by (simp_all add: rtcan_dev_new_index_def new_index_from_Inl)
  with Inl show thesis
    by (intro full) (simp_all add: rtcan_dev_register_def)
next
  case (Inr ret)
  then obtain k where k: "k < RTCAN_MAX_DEVICES" "ret = k + 1" "rtcan_devices w ! k = None"
      "\<forall>j < k. rtcan_devices w ! j \<noteq> None"
    using assms(1) new_index_from_Inr [of 0 "rtcan_devices w" ret]
    by (auto simp: rtcan_dev_new_index_def registry_ok_def)
  define w1 where "w1 = upd_dev d (\<lambda>dev. dev\<lparr>dev_ifindex := ret\<rparr>) w"
  define w2 where "w2 = (if CHR ''%'' \<in> set (dev_name (devs w1 d))
      then rtcan_dev_alloc_name w1 d (dev_name (devs w1 d)) else w1)"
  have frame: "rtcan_devices w2 = rtcan_devices w" "\<forall>d'. d' \<noteq> d \<longrightarrow> devs w2 d' = devs w d'"
      "dev_ifindex (devs w2 d) = k + 1"
    by (simp_all add: w2_def w1_def alloc_name_frame k(2))
  have w2_eq: "w2 = (let w1 = upd_dev d (\<lambda>dev. dev\<lparr>dev_ifindex := k + 1\<rparr>) w in
      if CHR ''%'' \<in> set (dev_name (devs w d)) then rtcan_dev_alloc_name w1 d (dev_name (devs w d)) else w1)"
    by (simp add: w2_def w1_def k(2) Let_def)
  have "rtcan_dev_register w d =
      (case dev_get_by_name_from (devs w2) (rtcan_devices w2) (dev_name (devs w2 d)) of
         Some _ \<Rightarrow> (Inl EEXIST, w2)
       | None \<Rightarrow> (Inr 0, w2\<lparr>rtcan_devices := (rtcan_devices w2)[dev_ifindex (devs w2 d) - 1 := Some d]\<rparr>))"
    unfolding rtcan_dev_register_def w2_def w1_def Inr Let_def by simp
  then have "rtcan_dev_register w d =
      (if dev_get_by_name_from (devs w2) (rtcan_devices w) (dev_name (devs w2 d)) = None
       then (Inr 0, w2\<lparr>rtcan_devices := (rtcan_devices w)[k := Some d]\<rparr>) else (Inl EEXIST, w2))"
    using frame by (simp split: option.splits)
  from slot [OF k(1,3,4) frame w2_eq this] show thesis .
qed

lemma registry_ok_insert:
  assumes ok: "registry_ok w" and new: "\<not> registered w d"
    and k: "k < RTCAN_MAX_DEVICES" "rtcan_devices w ! k = None"
    and frame: "rtcan_devices w2 = rtcan_devices w" "\<forall>d'. d' \<noteq> d \<longrightarrow> devs w2 d' = devs w d'"
      "dev_ifindex (devs w2 d) = k + 1"
    and free: "dev_get_by_name_from (devs w2) (rtcan_devices w) (dev_name (devs w2 d)) = None"
  shows "registry_ok (w2\<lparr>rtcan_devices := (rtcan_devices w)[k := Some d]\<rparr>)" (is "registry_ok ?w'")
proof -
  have len: "length (rtcan_devices w) = RTCAN_MAX_DEVICES"
    using ok by (simp add: registry_ok_def)
  have same: "\<And>d'. registered w d' \<Longrightarrow> devs w2 d' = devs w d'"
    using new frame(2) by metis
  have reg: "{d'. registered ?w' d'} = insert d {d'. registered w d'}"
    using k len by (auto simp: registered_def in_set_conv_nth nth_list_update) (metis option.distinct(1))
  have "inj_on (ifname ?w') {d'. registered w d'}"
    using ok same by (auto simp: registry_ok_def inj_on_def ifname_def)
  moreover have "ifname ?w' d \<notin> ifname ?w' ` {d'. registered w d'}"
    using free by (auto simp: get_by_name_from_None ifname_def registered_def)
  ultimately have "inj_on (ifname ?w') {d'. registered ?w' d'}"
    using new unfolding reg by (subst inj_on_insert) auto
  moreover have "\<And>i d'. i < RTCAN_MAX_DEVICES \<Longrightarrow> rtcan_devices w ! i = Some d' \<Longrightarrow>
      dev_ifindex (devs w2 d') = i + 1"
    using ok len same by (metis nth_mem registered_def registry_ok_def)
  ultimately show ?thesis
    using k len frame(3) by (auto simp: registry_ok_def nth_list_update)
qed


lemma rtcan_names_distinct:
  "i < RTCAN_MAX_DEVICES \<Longrightarrow>
    take IFNAMSIZ (snprintf_ifname ''rtcan%d'' i) = ''rtcan'' @ [char_of (48 + i)]"
  by (simp add: snprintf_ifname_def IFNAMSIZ_def RTCAN_MAX_DEVICES_def dec_digits_small)

lemma rtcan_names_inj:
  "inj_on (\<lambda>i. take IFNAMSIZ (snprintf_ifname ''rtcan%d'' i)) {..<RTCAN_MAX_DEVICES}"
proof (rule inj_onI)
  fix i j
  assume ij: "i \<in> {..<RTCAN_MAX_DEVICES}" "j \<in> {..<RTCAN_MAX_DEVICES}"
    and "take IFNAMSIZ (snprintf_ifname ''rtcan%d'' i) = take IFNAMSIZ (snprintf_ifname ''rtcan%d'' j)"
  then have "(char_of (48 + i) :: char) = char_of (48 + j)"
    by (simp add: rtcan_names_distinct)
  then have "(of_char (char_of (48 + i) :: char) :: nat) = of_char (char_of (48 + j) :: char)"
    by simp
  then show "i = j" using ij by (simp add: RTCAN_MAX_DEVICES_def)
qed

lemma card_registered_less:
  assumes "length (rtcan_devices w) = RTCAN_MAX_DEVICES" "None \<in> set (rtcan_devices w)"
  shows "card {d. registered w d} < RTCAN_MAX_DEVICES"
proof -
  have "Some ` {d. registered w d} \<subseteq> set (rtcan_devices w) - {None}"
    by (auto simp: registered_def)
  then have "card (Some ` {d. registered w d}) \<le> card (set (rtcan_devices w) - {None})"
    by (intro card_mono) auto
  also have "\<dots> < card (set (rtcan_devices w))"
    using assms(2) by (intro psubset_card_mono) auto
  also have "\<dots> \<le> RTCAN_MAX_DEVICES" using card_length [of "rtcan_devices w"] assms(1) by simp
  finally show ?thesis by (simp add: card_image)
qed

text \<open>By the pigeonhole principle a table with a free slot leaves a name \<open>rtcanN\<close> unused.\<close>

lemma free_rtcan_name:
  assumes "length (rtcan_devices w) = RTCAN_MAX_DEVICES" "None \<in> set (rtcan_devices w)"
  obtains i where "i < RTCAN_MAX_DEVICES"
    "dev_get_by_name_from (devs w) (rtcan_devices w) (snprintf_ifname ''rtcan%d'' i) = None"
proof -
  let ?name = "\<lambda>i. take IFNAMSIZ (snprintf_ifname ''rtcan%d'' i)"
  have fin: "finite {d. registered w d}"
    by (rule finite_subset [of _ "the ` set (rtcan_devices w)"])
      (force simp: registered_def image_iff)+
  have "\<not> ?name ` {..<RTCAN_MAX_DEVICES} \<subseteq> ifname w ` {d. registered w d}"
  proof
    assume "?name ` {..<RTCAN_MAX_DEVICES} \<subseteq> ifname w ` {d. registered w d}"
    then have "card (?name ` {..<RTCAN_MAX_DEVICES}) \<le> card (ifname w ` {d. registered w d})"
      using fin by (intro card_mono) auto
    also have "\<dots> \<le> card {d. registered w d}" using fin by (rule card_image_le)
    also have "\<dots> < RTCAN_MAX_DEVICES" using assms by (rule card_registered_less)
    finally show False by (simp add: card_image [OF rtcan_names_inj])
  qed
  then obtain i where "i < RTCAN_MAX_DEVICES" "?name i \<notin> ifname w ` {d. registered w d}" by blast
  then show thesis
    by (intro that [of i]) (auto simp: get_by_name_from_None ifname_def registered_def image_iff)
qed

lemma register_rtcan_ok:
  assumes ok: "registry_ok w" and new: "\<not> registered w d" and name: "dev_name (devs w d) = ''rtcan%d''"
    and slot: "None \<in> set (rtcan_devices w)"
  obtains k n w' where "k < RTCAN_MAX_DEVICES" "rtcan_devices w ! k = None" "rtcan_dev_register w d = (Inr 0, w')"
    "w' = (upd_dev d (\<lambda>dev. dev\<lparr>dev_ifindex := k + 1, dev_name := n\<rparr>) w)\<lparr>rtcan_devices := (rtcan_devices w)[k := Some d]\<rparr>"
    "registry_ok w'"
proof (rule register_cases [OF ok new])
  fix k w2
  define w1 where "w1 = upd_dev d (\<lambda>dev. dev\<lparr>dev_ifindex := k + 1\<rparr>) w"
  let ?free = "\<lambda>i. dev_get_by_name_from (devs w1) (rtcan_devices w1) (snprintf_ifname ''rtcan%d'' i) = None"
  assume k: "k < RTCAN_MAX_DEVICES" "rtcan_devices w ! k = None"
    and frame: "rtcan_devices w2 = rtcan_devices w" "\<forall>d'. d' \<noteq> d \<longrightarrow> devs w2 d' = devs w d'"
      "dev_ifindex (devs w2 d) = k + 1"
    and w2: "w2 = (let w1 = upd_dev d (\<lambda>dev. dev\<lparr>dev_ifindex := k + 1\<rparr>) w in
         if CHR ''%'' \<in> set (dev_name (devs w d)) then rtcan_dev_alloc_name w1 d (dev_name (devs w d)) else w1)"
    and res: "rtcan_dev_register w d =
        (if dev_get_by_name_from (devs w2) (rtcan_devices w) (dev_name (devs w2 d)) = None
         then (Inr 0, w2\<lparr>rtcan_devices := (rtcan_devices w)[k := Some d]\<rparr>) else (Inl EEXIST, w2))"
  have "length (rtcan_devices w) = RTCAN_MAX_DEVICES" using ok by (simp add: registry_ok_def)
  then obtain i where "i < RTCAN_MAX_DEVICES" "?free i"
    using slot free_rtcan_name [of w1] by (auto simp: w1_def)
  then have "find ?free [0..<RTCAN_MAX_DEVICES] \<noteq> None"
    by (auto simp: find_None_iff)
  then obtain j where j: "find ?free [0..<RTCAN_MAX_DEVICES] = Some j" "?free j"
    by (auto simp: find_Some_iff)
  have w2_eq: "w2 = upd_dev d (\<lambda>dev. dev\<lparr>dev_name := take IFNAMSIZ (snprintf_ifname ''rtcan%d'' j)\<rparr>) w1"
  proof -
    have "w2 = rtcan_dev_alloc_name w1 d ''rtcan%d''"
      by (simp add: w2 name w1_def Let_def)
    then show ?thesis
      by (simp only: rtcan_dev_alloc_name_def alloc_name_loop_eq j(1) option.case)
  qed
  have free: "dev_get_by_name_from (devs w2) (rtcan_devices w) (dev_name (devs w2 d)) = None"
    using j(2) new by (auto simp: w2_eq w1_def get_by_name_from_None registered_def)
  have "w2 = upd_dev d (\<lambda>dev. dev\<lparr>dev_ifindex := k + 1, dev_name := take IFNAMSIZ (snprintf_ifname ''rtcan%d'' j)\<rparr>) w"
    by (simp add: w2_eq w1_def upd_dev_def)
  with that [OF k, of "w2\<lparr>rtcan_devices := (rtcan_devices w)[k := Some d]\<rparr>"
      "take IFNAMSIZ (snprintf_ifname ''rtcan%d'' j)"] res free
    registry_ok_insert [OF ok new k frame free]
  show thesis by simp
qed (use slot in simp)

text \<open>C12: With the name template \<open>rtcan%d\<close> that every board driver uses, registration succeeds
  whenever a slot of the table is free, whatever the names of the devices already registered: some
  number is left, so it never fails with \<open>-EEXIST\<close>; with no slot free it returns \<open>-ENOMEM\<close>.\<close>

theorem register_rtcan_total:
  assumes ok: "registry_ok w" and new: "\<not> registered w d" and name: "dev_name (devs w d) = ''rtcan%d''"
  shows "(None \<in> set (rtcan_devices w) \<longrightarrow> (\<exists>w'. rtcan_dev_register w d = (Inr 0, w'))) \<and>
    (None \<notin> set (rtcan_devices w) \<longrightarrow> rtcan_dev_register w d = (Inl ENOMEM, w))"
proof (cases "None \<in> set (rtcan_devices w)")
  case True
  then show ?thesis using register_rtcan_ok [OF ok new name] by blast
next
  case False
  have "length (rtcan_devices w) = RTCAN_MAX_DEVICES" using ok by (simp add: registry_ok_def)
  with False show ?thesis by (cases rule: register_cases [OF ok new]) (metis nth_mem)+
qed

section \<open>Witnesses\<close>

definition two_devices :: can_world where
  "two_devices = \<lparr>rtcan_devices = [Some 0, None, None, None],
     devs = (\<lambda>d. if d = 0 then fresh_device\<lparr>dev_name := ''rtcan0'', dev_ifindex := 1\<rparr>
       else fresh_device\<lparr>dev_name := ''rtcan%d''\<rparr>),
     socks = (\<lambda>_. undefined), rtcan_socket_list = []\<rparr>"

lemma two_devices_ok: "registry_ok two_devices" "\<not> registered two_devices 1"
  by (auto simp: registry_ok_def two_devices_def RTCAN_MAX_DEVICES_def registered_def nth_Cons
      split: nat.splits)

lemma two_devices_register:
  "fst (rtcan_dev_register two_devices 1) = Inr 0"
  "dev_name (devs (snd (rtcan_dev_register two_devices 1)) 1) = ''rtcan1''"
  by code_simp+


theorem register_rtcan_total_witness: "\<exists>w'. rtcan_dev_register two_devices 1 = (Inr 0, w')"
  using register_rtcan_total [OF two_devices_ok] by (simp add: two_devices_def)

end
