(* ===== verification/Can_Filter.thy ===== *)
theory Can_Filter
  imports Can_Dev
begin

text \<open>
  Reception filters (\<open>rtcan_raw_filter.c\<close>). Binding a socket moves entries from the empty list of
  the device's receiver array to the front of its reception list, unbinding moves them back; both
  work on the \<open>next\<close> pointers. The abstraction \<open>dev_view\<close> reads a device's reception list as an
  association list from sockets to their mounted filters: \<open>rtcan_raw_add_filter\<close> and
  \<open>rtcan_raw_remove_filter\<close> implement insertion and deletion on it, and never dereference a null
  pointer or walk in a cycle when \<open>rtcan_raw_check_filter\<close> has granted the space.
\<close>

section \<open>Operations\<close>

definition rtcan_raw_mount_filter :: "can_filter \<Rightarrow> can_filter" where
  "rtcan_raw_mount_filter f =
     (if flt_can_id f AND CAN_INV_FILTER \<noteq> 0
      then \<lparr>flt_can_id = flt_can_id f AND NOT CAN_INV_FILTER, flt_can_mask = flt_can_mask f OR CAN_INV_FILTER\<rparr>
      else \<lparr>flt_can_id = flt_can_id f, flt_can_mask = flt_can_mask f AND NOT CAN_INV_FILTER\<rparr>)"

text \<open>The range of interface indices a binding concerns.\<close>

definition bind_range :: "int \<Rightarrow> int list" where
  "bind_range ifindex = (if ifindex \<noteq> 0 then [ifindex] else map int [1..<RTCAN_MAX_DEVICES + 1])"

fun check_filter_loop ::
    "'z can_world_scheme \<Rightarrow> int \<Rightarrow> int \<Rightarrow> int \<Rightarrow> int \<Rightarrow> int list \<Rightarrow> cret \<times> 'z can_world_scheme" where
  "check_filter_loop w old_all old_ifindex sock_len flen [] = (Inr 0, w)"
| "check_filter_loop w old_all old_ifindex sock_len flen (i # is) =
     (case rtcan_dev_get_by_index w i of
        (None, w1) \<Rightarrow> check_filter_loop w1 old_all old_ifindex sock_len flen is
      | (Some d, w1) \<Rightarrow>
          let n = free_entries (devs w1 d) + old_all;
              w2 = rtcan_dev_dereference d w1;
              n' = (if i = old_ifindex then n + sock_len else n)
          in if n' < flen then (Inl ENOSPC, w2)
             else check_filter_loop w2 old_all old_ifindex sock_len flen is)"

definition rtcan_raw_check_filter ::
    "'z can_world_scheme \<Rightarrow> nat \<Rightarrow> int \<Rightarrow> rtcan_filter_list \<Rightarrow> cret \<times> 'z can_world_scheme" where
  "rtcan_raw_check_filter w s ifindex fl =
     (if rtcan_flist_no_filter fl then (Inr 0, w)
      else
        let sock = socks w s;
            flen = (case fl of Flist fs \<Rightarrow> int (length fs) | _ \<Rightarrow> 1);
            i = sock_ifindex sock;
            old_all = (if rtcan_sock_has_filter sock \<and> i = 0 then flistlen sock else 0);
            old_ifindex = (if rtcan_sock_has_filter sock \<and> i \<noteq> 0 then i else 0)
        in check_filter_loop w old_all old_ifindex (flistlen sock) flen (bind_range ifindex))"

text \<open>Pointers into the receiver array.\<close>

definition recv_ptr :: "rtcan_recv list \<Rightarrow> nat option \<Rightarrow> nat kres" where
  "recv_ptr rs p = (case p of None \<Rightarrow> Inl NullDeref
     | Some i \<Rightarrow> if i < length rs then Inr i else Inl OutOfBounds)"

definition fill_recv :: "rtcan_recv list \<Rightarrow> nat \<Rightarrow> nat \<Rightarrow> can_filter \<Rightarrow> rtcan_recv list" where
  "fill_recv rs i s f = rs[i := (rs ! i)\<lparr>can_filter_of := f, match_count := 0, recv_sock := Some s\<rparr>]"

definition set_next :: "rtcan_recv list \<Rightarrow> nat \<Rightarrow> nat option \<Rightarrow> rtcan_recv list" where
  "set_next rs i p = rs[i := (rs ! i)\<lparr>next_recv := p\<rparr>]"

text \<open>The loop that registers the remaining filters, and the body for one device.\<close>

fun add_fill :: "rtcan_recv list \<Rightarrow> nat \<Rightarrow> nat \<Rightarrow> can_filter list \<Rightarrow> (rtcan_recv list \<times> nat) kres" where
  "add_fill rs s cur [] = Inr (rs, cur)"
| "add_fill rs s cur (f # fs) =
     kbind (recv_ptr rs (next_recv (rs ! cur)))
       (\<lambda>p. add_fill (fill_recv rs p s (rtcan_raw_mount_filter f)) s p fs)"

definition add_filter_dev :: "rtcan_device \<Rightarrow> nat \<Rightarrow> can_filter list \<Rightarrow> rtcan_device kres" where
  "add_filter_dev dev s fs =
     kbind (recv_ptr (receivers dev) (empty_list dev)) (\<lambda>first.
     kbind (case fs of
              f # fs' \<Rightarrow> add_fill (fill_recv (receivers dev) first s (rtcan_raw_mount_filter f)) s first fs'
            | [] \<Rightarrow> Inr (fill_recv (receivers dev) first s zero_filter, first)) (\<lambda>(rs, cur).
     Inr (dev\<lparr>free_entries := free_entries dev - (if fs \<noteq> [] then int (length fs) else 1),
              empty_list := next_recv (rs ! cur),
              receivers := set_next rs cur (recv_list dev),
              recv_list := Some first\<rparr>)))"

fun add_filter_loop :: "'z can_world_scheme \<Rightarrow> nat \<Rightarrow> can_filter list \<Rightarrow> int list \<Rightarrow> 'z can_world_scheme kres" where
  "add_filter_loop w s fs [] = Inr w"
| "add_filter_loop w s fs (i # is) =
     (case rtcan_dev_get_by_index w i of
        (None, w1) \<Rightarrow> add_filter_loop w1 s fs is
      | (Some d, w1) \<Rightarrow>
          kbind (add_filter_dev (devs w1 d) s fs)
            (\<lambda>dev. add_filter_loop (rtcan_dev_dereference d (upd_dev d (\<lambda>_. dev) w1)) s fs is))"

definition rtcan_raw_add_filter ::
    "'z can_world_scheme \<Rightarrow> nat \<Rightarrow> int \<Rightarrow> (int \<times> 'z can_world_scheme) kres" where
  "rtcan_raw_add_filter w s ifindex =
     (case flist (socks w s) of
        RTCAN_FLIST_NO_FILTER \<Rightarrow> Inr (0, w)
      | fl \<Rightarrow>
          let fs = (case fl of Flist fs \<Rightarrow> fs | _ \<Rightarrow> [])
          in kbind (add_filter_loop w s fs (bind_range ifindex))
               (\<lambda>w'. Inr (if fs \<noteq> [] then int (length fs) else 1, w')))"

text \<open>
  The search loop visits each of the 16 entries at most once or runs for ever, so 17 rounds decide:
  fuel 0 is divergence.
\<close>

fun find_sock :: "nat \<Rightarrow> rtcan_recv list \<Rightarrow> nat \<Rightarrow> nat option \<Rightarrow> nat option \<Rightarrow> (nat option \<times> nat) kres" where
  "find_sock 0 rs s first p = Inl Diverges"
| "find_sock (Suc n) rs s first p =
     kbind (recv_ptr rs p)
       (\<lambda>i. if recv_sock (rs ! i) = Some s then Inr (first, i)
            else find_sock n rs s (Some i) (next_recv (rs ! i)))"

fun walk :: "nat \<Rightarrow> rtcan_recv list \<Rightarrow> nat \<Rightarrow> nat kres" where
  "walk 0 rs cur = Inr cur"
| "walk (Suc n) rs cur = kbind (recv_ptr rs (next_recv (rs ! cur))) (walk n rs)"

definition remove_filter_dev :: "rtcan_device \<Rightarrow> nat \<Rightarrow> int \<Rightarrow> rtcan_device kres" where
  "remove_filter_dev dev s flen =
     kbind (find_sock (RTCAN_MAX_RECEIVERS + 1) (receivers dev) s None (recv_list dev)) (\<lambda>(first, p).
     kbind (walk (nat (flen - 1)) (receivers dev) p) (\<lambda>cur.
     let after = next_recv (receivers dev ! cur);
         dev1 = (case first of
             Some i \<Rightarrow> dev\<lparr>receivers := set_next (receivers dev) i after\<rparr>
           | None \<Rightarrow> dev\<lparr>recv_list := after\<rparr>)
     in Inr (dev1\<lparr>receivers := set_next (receivers dev1) cur (empty_list dev1),
                  empty_list := Some p,
                  free_entries := free_entries dev1 + flen\<rparr>)))"

fun remove_filter_loop :: "'z can_world_scheme \<Rightarrow> nat \<Rightarrow> int list \<Rightarrow> 'z can_world_scheme kres" where
  "remove_filter_loop w s [] = Inr w"
| "remove_filter_loop w s (i # is) =
     (case rtcan_dev_get_by_index w i of
        (None, w1) \<Rightarrow> remove_filter_loop w1 s is
      | (Some d, w1) \<Rightarrow>
          kbind (remove_filter_dev (devs w1 d) s (flistlen (socks w1 s)))
            (\<lambda>dev. remove_filter_loop (rtcan_dev_dereference d (upd_dev d (\<lambda>_. dev) w1)) s is))"

definition rtcan_raw_remove_filter :: "'z can_world_scheme \<Rightarrow> nat \<Rightarrow> 'z can_world_scheme kres" where
  "rtcan_raw_remove_filter w s =
     (if \<not> rtcan_sock_has_filter (socks w s) then Inr w
      else remove_filter_loop w s (bind_range (sock_ifindex (socks w s))))"

section \<open>The view of a reception list\<close>

definition entry :: "rtcan_recv list \<Rightarrow> nat \<Rightarrow> nat option \<times> can_filter" where
  "entry rs i = (recv_sock (rs ! i), can_filter_of (rs ! i))"

definition entries :: "(nat \<times> can_filter list) list \<Rightarrow> (nat option \<times> can_filter) list" where
  "entries bs = concat (map (\<lambda>(s, fs). map (Pair (Some s)) fs) bs)"

definition dev_view :: "rtcan_device \<Rightarrow> (nat \<times> can_filter list) list \<Rightarrow> bool" where
  "dev_view dev bs \<longleftrightarrow>
     (\<exists>recv avail. dev_lists dev recv avail \<and> map (entry (receivers dev)) recv = entries bs) \<and>
     distinct (map fst bs) \<and> (\<forall>(s, fs) \<in> set bs. fs \<noteq> [])"

text \<open>What a socket's filter list looks like once it is mounted; no list means one match-all entry.\<close>

definition mounted :: "can_filter list \<Rightarrow> can_filter list" where
  "mounted fs = (if fs = [] then [zero_filter] else map rtcan_raw_mount_filter fs)"

text \<open>Everything but the filter lists is left alone.\<close>

definition same_but_lists :: "rtcan_device \<Rightarrow> rtcan_device \<Rightarrow> bool" where
  "same_but_lists dev dev' \<longleftrightarrow>
     dev' = dev\<lparr>free_entries := free_entries dev', empty_list := empty_list dev',
                receivers := receivers dev', recv_list := recv_list dev'\<rparr>"

lemma same_but_listsD:
  assumes "same_but_lists dev dev'"
  shows "dev_ifindex dev' = dev_ifindex dev" "dev_name dev' = dev_name dev" "refcount dev' = refcount dev"
  using arg_cong [OF assms [unfolded same_but_lists_def], of dev_ifindex]
    arg_cong [OF assms [unfolded same_but_lists_def], of dev_name]
    arg_cong [OF assms [unfolded same_but_lists_def], of refcount]
  by simp_all

lemma same_but_lists_refl [simp]: "same_but_lists dev dev"
  by (simp add: same_but_lists_def)

lemma same_but_lists_trans: "same_but_lists a b \<Longrightarrow> same_but_lists b c \<Longrightarrow> same_but_lists a c"
  by (cases a; cases b; cases c) (simp add: same_but_lists_def)

lemma same_but_lists_refcount:
  "same_but_lists (dev\<lparr>refcount := r\<rparr>) dev' \<Longrightarrow> same_but_lists dev (dev'\<lparr>refcount := refcount dev\<rparr>)"
  by (cases dev; cases dev') (simp add: same_but_lists_def)

lemma entries_simps [simp]:
  "entries [] = []"
  "entries ((s, fs) # bs) = map (Pair (Some s)) fs @ entries bs"
  "entries (bs @ bs') = entries bs @ entries bs'"
  by (simp_all add: entries_def)

lemma entries_sock: "e \<in> set (entries bs) \<Longrightarrow> \<exists>t \<in> fst ` set bs. fst e = Some t"
  by (induction bs) auto

lemma mounted_not_Nil [simp]: "mounted fs \<noteq> []"
  by (simp add: mounted_def)

lemma length_mounted: "int (length (mounted fs)) = (if fs \<noteq> [] then int (length fs) else 1)"
  by (simp add: mounted_def)

lemma entry_fst: "fst (entry rs i) = recv_sock (rs ! i)"
  by (simp add: entry_def)

lemma fill_recv_simps [simp]:
  "length (fill_recv rs i s f) = length rs"
  "nxt (fill_recv rs i s f) = nxt rs"
  "i < length rs \<Longrightarrow> entry (fill_recv rs i s f) = (entry rs)(i := (Some s, f))"
  by (simp_all add: fill_recv_def nxt_def entry_def fun_eq_iff nth_list_update_any)

lemma set_next_simps [simp]:
  "length (set_next rs i p) = length rs"
  "entry (set_next rs i p) = entry rs"
  "i < length rs \<Longrightarrow> nxt (set_next rs i p) = (nxt rs)(i := p)"
  by (simp_all add: set_next_def nxt_def entry_def fun_eq_iff nth_list_update_any)

lemma nxt_next: "next_recv (rs ! i) = nxt rs i"
  by (simp add: nxt_def)

lemma recv_ptr_Some [simp]: "i < length rs \<Longrightarrow> recv_ptr rs (Some i) = Inr i"
  by (simp add: recv_ptr_def)

section \<open>Insertion\<close>

lemma add_fill_ok:
  assumes "lseg (nxt rs) (nxt rs cur) xs q" "length xs = length fs" "set xs \<subseteq> {..<length rs}" "distinct xs"
  shows "\<exists>rs'. add_fill rs s cur fs = Inr (rs', last (cur # xs)) \<and> nxt rs' = nxt rs \<and>
    length rs' = length rs \<and> (\<forall>i. i \<notin> set xs \<longrightarrow> entry rs' i = entry rs i) \<and>
    map (entry rs') xs = map (\<lambda>f. (Some s, rtcan_raw_mount_filter f)) fs"
  using assms
proof (induction fs arbitrary: rs cur xs)
  case (Cons f fs)
  then obtain x xs' where xs: "xs = x # xs'" by (cases xs) auto
  let ?rs = "fill_recv rs x s (rtcan_raw_mount_filter f)"
  have x: "nxt rs cur = Some x" "x < length rs" using Cons.prems xs by auto
  have "\<exists>rs'. add_fill ?rs s x fs = Inr (rs', last (x # xs')) \<and> nxt rs' = nxt ?rs \<and>
      length rs' = length ?rs \<and> (\<forall>i. i \<notin> set xs' \<longrightarrow> entry rs' i = entry ?rs i) \<and>
      map (entry rs') xs' = map (\<lambda>f. (Some s, rtcan_raw_mount_filter f)) fs"
    using Cons.prems xs by (intro Cons.IH) auto
  then show ?case
    using Cons.prems(4) x by (auto simp: xs nxt_next)
qed simp

lemma add_fill_head:
  "(case fs of
      f # fs' \<Rightarrow> add_fill (fill_recv rs p s (rtcan_raw_mount_filter f)) s p fs'
    | [] \<Rightarrow> Inr (fill_recv rs p s zero_filter, p))
   = add_fill (fill_recv rs p s (hd (mounted fs))) s p (tl fs)"
  by (cases fs) (simp_all add: mounted_def)

lemma mounted_tl:
  "map (Pair (Some s)) (mounted fs) =
    (Some s, hd (mounted fs)) # map (\<lambda>f. (Some s, rtcan_raw_mount_filter f)) (tl fs)"
  by (cases fs) (simp_all add: mounted_def)

lemma add_filter_dev_ok:
  assumes view: "dev_view dev bs" and s: "s \<notin> fst ` set bs"
    and room: "int (length (mounted fs)) \<le> free_entries dev"
  shows "\<exists>dev'. add_filter_dev dev s fs = Inr dev' \<and> dev_view dev' ((s, mounted fs) # bs) \<and>
    free_entries dev' = free_entries dev - int (length (mounted fs)) \<and> same_but_lists dev dev'"
proof -
  let ?rs = "receivers dev" and ?n = "length (mounted fs)"
  obtain recv avail where lists: "dev_lists dev recv avail" and ent: "map (entry ?rs) recv = entries bs"
    using view by (auto simp: dev_view_def)
  note l = dev_listsD [OF lists]
  have n: "?n \<le> length avail" using room l by simp
  then obtain p xs where take: "take ?n avail = p # xs"
    by (cases "take ?n avail") auto
  define rest where "rest = drop ?n avail"
  have avail: "avail = (p # xs) @ rest" using take by (metis append_take_drop_id rest_def)
  have len: "length xs = length (tl fs)"
    using arg_cong [OF take, of length] n by (cases fs) (simp_all add: mounted_def)
  obtain q where q: "lseg (nxt ?rs) (Some p) (p # xs) q" "chain (nxt ?rs) q rest" "empty_list dev = Some p"
    using l avail by (auto simp: lseg_append)
  have bound: "set (p # xs) \<subseteq> {..<length ?rs}" "distinct (p # xs)" using l avail by auto
  let ?rs1 = "fill_recv ?rs p s (hd (mounted fs))"
  define cur where "cur = last (p # xs)"
  obtain rs' where rs': "add_fill ?rs1 s p (tl fs) = Inr (rs', cur)" "nxt rs' = nxt ?rs"
      "length rs' = length ?rs" "\<forall>i. i \<notin> set xs \<longrightarrow> entry rs' i = entry ?rs1 i"
      "map (entry rs') xs = map (\<lambda>f. (Some s, rtcan_raw_mount_filter f)) (tl fs)"
    using add_fill_ok [of ?rs1 p xs q "tl fs" s] q(1) len bound by (auto simp: cur_def)
  define dev' where "dev' = dev\<lparr>free_entries := free_entries dev - int ?n, empty_list := nxt rs' cur,
    receivers := set_next rs' cur (recv_list dev), recv_list := Some p\<rparr>"
  have mem: "cur \<in> set (p # xs)" unfolding cur_def by (rule last_in_set) simp
  then have cur: "cur < length rs'" using bound(1) rs'(3) by (metis lessThan_iff subsetD)
  have res: "add_filter_dev dev s fs = Inr dev'"
    using q(3) bound(1) rs'(1)
    by (simp add: add_filter_dev_def add_fill_head dev'_def nxt_next length_mounted)
  have seg: "lseg ((nxt ?rs)(cur := recv_list dev)) (Some p) (p # xs) (recv_list dev)"
    unfolding cur_def by (rule lseg_redirect [OF q(1) _ bound(2)]) simp
  have disj: "set (p # xs) \<inter> set recv = {}" "set (p # xs) \<inter> set rest = {}"
    using l avail by auto
  then have notin: "cur \<notin> set recv" "cur \<notin> set rest" using mem by blast+
  have "nxt rs' cur = q" using lseg_last [OF q(1)] rs'(2) by (simp add: cur_def)
  moreover have "lseg ((nxt ?rs)(cur := recv_list dev)) (Some p) ((p # xs) @ recv) None"
    using seg l notin(1)
    by (subst lseg_append, intro exI [of _ "recv_list dev"]) (simp add: lseg_upd_notin)
  moreover have "set (((p # xs) @ recv) @ rest) = {..<RTCAN_MAX_RECEIVERS}" "distinct (((p # xs) @ recv) @ rest)"
    using l avail by auto
  ultimately have "dev_lists dev' ((p # xs) @ recv) rest"
    using l(1,6) q(2) rs'(2,3) cur notin(2) n
    unfolding dev_lists_def dev'_def by (simp add: lseg_upd_notin rest_def)
  moreover have "map (entry rs') recv = map (entry ?rs) recv"
    using rs'(4) disj(1) bound(1) by auto
  then have "map (entry (receivers dev')) ((p # xs) @ recv) = entries ((s, mounted fs) # bs)"
    using rs'(4,5) bound ent by (auto simp: dev'_def mounted_tl)
  ultimately have "dev_view dev' ((s, mounted fs) # bs)"
    using view s by (auto simp: dev_view_def image_iff)
  then show ?thesis
    using res by (auto simp: same_but_lists_def dev'_def)
qed

section \<open>Deletion\<close>

lemma find_sock_ok:
  assumes "lseg (nxt rs) p xs (Some i)" "\<forall>x \<in> set xs. x < length rs \<and> recv_sock (rs ! x) \<noteq> Some s"
    "i < length rs" "recv_sock (rs ! i) = Some s" "length xs < n"
  shows "find_sock n rs s prev p = Inr (if xs = [] then prev else Some (last xs), i)"
  using assms
proof (induction xs arbitrary: p prev n)
  case Nil
  then show ?case by (cases n) auto
next
  case (Cons x xs)
  then show ?case by (cases n) (auto simp: nxt_next)
qed

lemma walk_ok:
  assumes "lseg (nxt rs) (nxt rs cur) xs q" "set xs \<subseteq> {..<length rs}"
  shows "walk (length xs) rs cur = Inr (last (cur # xs))"
  using assms by (induction xs arbitrary: cur) (auto simp: nxt_next)

text \<open>The two ways to unlink a block: behind an entry, or at the head of the reception list.\<close>

lemma unlink_block:
  assumes ch: "chain (nxt rs) h (xs @ blk @ zs)" and d: "distinct (xs @ blk @ zs)" and b: "blk \<noteq> []"
    and bound: "set (xs @ blk) \<subseteq> {..<length rs}"
  shows "\<exists>rs' hd'. (rs', hd') = (case if xs = [] then None else Some (last xs) of
        Some i \<Rightarrow> (set_next rs i (nxt rs (last blk)), h) | None \<Rightarrow> (rs, nxt rs (last blk))) \<and>
      chain (nxt rs') hd' (xs @ zs) \<and> nxt rs' (last blk) = nxt rs (last blk) \<and>
      (\<forall>i. i \<notin> set xs \<longrightarrow> nxt rs' i = nxt rs i) \<and> entry rs' = entry rs \<and> length rs' = length rs"
proof -
  obtain p q where seg: "lseg (nxt rs) h xs p" "lseg (nxt rs) p blk q" "chain (nxt rs) q zs"
    using ch by (auto simp: lseg_append)
  have q: "nxt rs (last blk) = q" using lseg_last [OF seg(2) b] .
  have lb: "last blk \<notin> set xs" using d b by auto
  show ?thesis
  proof (cases "xs = []")
    case False
    then have l: "last xs < length rs" "last xs \<in> set xs"
      using subsetD [OF bound, of "last xs"] by simp_all
    then have "last xs \<notin> set zs" using d by auto
    then have "chain ((nxt rs)(last xs := q)) h (xs @ zs)"
      using lseg_redirect [OF seg(1) False] d seg(3)
      by (subst lseg_append, intro exI [of _ q]) (simp add: lseg_upd_notin)
    then show ?thesis using False l q lb by auto
  qed (use seg q in auto)
qed

lemma remove_filter_dev_eq:
  assumes "find_sock (RTCAN_MAX_RECEIVERS + 1) (receivers dev) s None (recv_list dev) = Inr (prev, p)"
    "walk (nat (flen - 1)) (receivers dev) p = Inr cur"
    "(rs', hd') = (case prev of Some i \<Rightarrow> (set_next (receivers dev) i (nxt (receivers dev) cur), recv_list dev)
       | None \<Rightarrow> (receivers dev, nxt (receivers dev) cur))"
  shows "remove_filter_dev dev s flen = Inr (dev\<lparr>free_entries := free_entries dev + flen,
     empty_list := Some p, receivers := set_next rs' cur (empty_list dev), recv_list := hd'\<rparr>)"
  using assms by (auto simp: remove_filter_dev_def nxt_next Let_def split: option.splits)

lemma dev_lists_free_block:
  assumes lists: "dev_lists dev (xs @ blk @ zs) avail" and b: "blk \<noteq> []"
    and rs': "chain (nxt rs') hd' (xs @ zs)" "\<forall>i. i \<notin> set xs \<longrightarrow> nxt rs' i = nxt (receivers dev) i"
      "length rs' = length (receivers dev)"
  shows "dev_lists (dev\<lparr>free_entries := free_entries dev + int (length blk), empty_list := Some (hd blk),
     receivers := set_next rs' (last blk) (empty_list dev), recv_list := hd'\<rparr>) (xs @ zs) (blk @ avail)"
proof -
  note l = dev_listsD [OF lists]
  have lb: "last blk \<in> set blk" using b by simp
  have notin: "last blk \<notin> set (xs @ zs)" "last blk \<notin> set avail" "last blk < length rs'"
    using l lb rs'(3) by auto
  obtain q where "lseg (nxt (receivers dev)) (Some (hd blk)) blk q"
    using l b by (cases blk) (auto simp: lseg_append)
  moreover have disj: "\<forall>i \<in> set blk \<union> set avail. nxt rs' i = nxt (receivers dev) i"
    using l rs'(2) by auto
  ultimately have "lseg (nxt rs') (Some (hd blk)) blk q"
    using lseg_cong [of blk "nxt rs'" "nxt (receivers dev)"] by auto
  then have "lseg ((nxt rs')(last blk := empty_list dev)) (Some (hd blk)) blk (empty_list dev)"
    using b l by (intro lseg_redirect) auto
  moreover have "chain ((nxt rs')(last blk := empty_list dev)) (empty_list dev) avail"
    using l notin(2) disj lseg_cong [of avail "nxt rs'" "nxt (receivers dev)"] by (simp add: lseg_upd_notin)
  ultimately have "chain ((nxt rs')(last blk := empty_list dev)) (Some (hd blk)) (blk @ avail)"
    by (auto simp: lseg_append)
  moreover have "distinct ((xs @ zs) @ blk @ avail)" "set ((xs @ zs) @ blk @ avail) = {..<RTCAN_MAX_RECEIVERS}"
    using l by auto
  ultimately show ?thesis
    using l rs' notin unfolding dev_lists_def by (simp add: lseg_upd_notin)
qed

text \<open>The search of \<open>rtcan_raw_remove_filter\<close> ends at the block of the socket.\<close>

lemma locate_block:
  assumes view: "dev_view dev (bs1 @ (s, fs) # bs2)"
  obtains xs p ps zs avail where "dev_lists dev (xs @ (p # ps) @ zs) avail"
    "map (entry (receivers dev)) xs = entries bs1" "map (entry (receivers dev)) zs = entries bs2"
    "length (p # ps) = length fs"
    "find_sock (RTCAN_MAX_RECEIVERS + 1) (receivers dev) s None (recv_list dev) =
      Inr (if xs = [] then None else Some (last xs), p)"
    "walk (nat (int (length fs) - 1)) (receivers dev) p = Inr (last (p # ps))"
proof -
  let ?rs = "receivers dev"
  obtain recv avail where lists: "dev_lists dev recv avail"
      and ent: "map (entry ?rs) recv = entries (bs1 @ (s, fs) # bs2)"
    using view by (auto simp: dev_view_def)
  note l = dev_listsD [OF lists]
  obtain xs ys where "recv = xs @ ys" and xs: "map (entry ?rs) xs = entries bs1"
      and "map (entry ?rs) ys = map (Pair (Some s)) fs @ entries bs2"
    using ent by (auto elim: map_append_split)
  moreover from this(3) obtain blk zs where "ys = blk @ zs"
      and blk: "map (entry ?rs) blk = map (Pair (Some s)) fs" and zs: "map (entry ?rs) zs = entries bs2"
    by (rule map_append_split)
  ultimately have recv: "recv = xs @ blk @ zs" by simp
  have fs: "fs \<noteq> []" "length blk = length fs" using view arg_cong [OF blk, of length] by (auto simp: dev_view_def)
  then obtain p ps where p: "blk = p # ps" by (cases blk) auto
  have bound: "set (xs @ blk) \<subseteq> {..<length ?rs}" using l recv by auto
  obtain q where seg: "lseg (nxt ?rs) (recv_list dev) xs (Some p)" "lseg (nxt ?rs) (nxt ?rs p) ps q"
    using l(2) recv p by (auto simp: lseg_append)
  have s1: "s \<notin> fst ` set bs1" using view by (auto simp: dev_view_def)
  have "fst (entry ?rs x) \<noteq> Some s" if "x \<in> set xs" for x
  proof -
    have "entry ?rs x \<in> set (entries bs1)" using that by (metis xs image_eqI set_map)
    then obtain t where "t \<in> fst ` set bs1" "fst (entry ?rs x) = Some t" using entries_sock by blast
    then show ?thesis using s1 by auto
  qed
  moreover have "fst (entry ?rs p) = Some s" using blk p fs(1) by (cases fs) auto
  moreover have "length xs \<le> RTCAN_MAX_RECEIVERS"
    using dev_lists_recv(1) [OF lists] recv by simp
  ultimately have "find_sock (RTCAN_MAX_RECEIVERS + 1) ?rs s None (recv_list dev) =
      Inr (if xs = [] then None else Some (last xs), p)"
    by (intro find_sock_ok [OF seg(1)]) (use bound p in \<open>auto simp: entry_fst\<close>)
  moreover have "walk (nat (int (length fs) - 1)) ?rs p = Inr (last (p # ps))"
  proof -
    have "nat (int (length fs) - 1) = length ps" using fs(2) p by simp
    then show ?thesis using walk_ok [OF seg(2)] bound p by simp
  qed
  ultimately show thesis using that [of xs p ps zs avail] lists recv xs zs p fs(2) by simp
qed

lemma remove_filter_dev_ok:
  assumes view: "dev_view dev (bs1 @ (s, fs) # bs2)"
  shows "\<exists>dev'. remove_filter_dev dev s (int (length fs)) = Inr dev' \<and> dev_view dev' (bs1 @ bs2) \<and>
    free_entries dev' = free_entries dev + int (length fs) \<and> same_but_lists dev dev'"
proof (rule locate_block [OF view])
  fix xs ps zs avail :: "nat list" and p :: nat
  let ?rs = "receivers dev" and ?blk = "p # ps"
  assume lists: "dev_lists dev (xs @ ?blk @ zs) avail"
    and ent: "map (entry ?rs) xs = entries bs1" "map (entry ?rs) zs = entries bs2"
    and len: "length ?blk = length fs"
    and find: "find_sock (RTCAN_MAX_RECEIVERS + 1) ?rs s None (recv_list dev) =
      Inr (if xs = [] then None else Some (last xs), p)"
    and walk: "walk (nat (int (length fs) - 1)) ?rs p = Inr (last ?blk)"
  note l = dev_listsD [OF lists]
  have "distinct (xs @ ?blk @ zs)" "set (xs @ ?blk) \<subseteq> {..<length ?rs}" using l by auto
  from unlink_block [OF l(2) this(1) _ this(2)]
  obtain rs' hd' where new: "(rs', hd') = (case if xs = [] then None else Some (last xs) of
        Some i \<Rightarrow> (set_next ?rs i (nxt ?rs (last ?blk)), recv_list dev) | None \<Rightarrow> (?rs, nxt ?rs (last ?blk)))"
      and rs': "chain (nxt rs') hd' (xs @ zs)" "\<forall>i. i \<notin> set xs \<longrightarrow> nxt rs' i = nxt ?rs i"
        "entry rs' = entry ?rs" "length rs' = length ?rs"
    by blast
  define dev' where "dev' = dev\<lparr>free_entries := free_entries dev + int (length fs),
     empty_list := Some p, receivers := set_next rs' (last ?blk) (empty_list dev), recv_list := hd'\<rparr>"
  have res: "remove_filter_dev dev s (int (length fs)) = Inr dev'"
    unfolding dev'_def by (rule remove_filter_dev_eq [OF find walk new])
  have "dev_lists dev' (xs @ zs) (?blk @ avail)"
    unfolding dev'_def len [symmetric] using dev_lists_free_block [OF lists _ rs'(1,2,4)]
    by (simp del: last.simps)
  moreover have "map (entry (receivers dev')) (xs @ zs) = entries (bs1 @ bs2)"
    using ent rs'(3) by (simp add: dev'_def)
  ultimately have "dev_view dev' (bs1 @ bs2)" using view unfolding dev_view_def by auto
  then show ?thesis using res by (auto simp: same_but_lists_def dev'_def)
qed

section \<open>The interface of a filter table\<close>

text \<open>
  What the socket layer relies on: insertion prepends a block, deletion takes the socket's block
  out, the rest of the table and the space accounting are exact.
\<close>

locale filter_table =
  fixes tview :: "'d \<Rightarrow> (nat \<times> 'f list) list \<Rightarrow> bool"
    and space :: "'d \<Rightarrow> int"
    and tadd :: "'d \<Rightarrow> nat \<Rightarrow> 'g list \<Rightarrow> 'd kres"
    and tdel :: "'d \<Rightarrow> nat \<Rightarrow> int \<Rightarrow> 'd kres"
    and prep :: "'g list \<Rightarrow> 'f list"
    and frame :: "'d \<Rightarrow> 'd \<Rightarrow> bool"
  assumes keys_distinct: "tview d bs \<Longrightarrow> distinct (map fst bs)"
    and insert_law: "tview d bs \<Longrightarrow> s \<notin> fst ` set bs \<Longrightarrow> int (length (prep fs)) \<le> space d \<Longrightarrow>
      \<exists>d'. tadd d s fs = Inr d' \<and> tview d' ((s, prep fs) # bs) \<and>
        space d' = space d - int (length (prep fs)) \<and> frame d d'"
    and delete_law: "tview d (bs1 @ (s, ms) # bs2) \<Longrightarrow>
      \<exists>d'. tdel d s (int (length ms)) = Inr d' \<and> tview d' (bs1 @ bs2) \<and>
        space d' = space d + int (length ms) \<and> frame d d'"
begin

text \<open>Read as a finite map the table behaves like a map.\<close>

definition holds :: "'d \<Rightarrow> (nat \<times> 'f list) set \<Rightarrow> bool" where
  "holds d M \<longleftrightarrow> (\<exists>bs. tview d bs \<and> set bs = M)"

lemma holds_insert:
  assumes "holds d M" "s \<notin> fst ` M" "int (length (prep fs)) \<le> space d"
  shows "\<exists>d'. tadd d s fs = Inr d' \<and> holds d' (insert (s, prep fs) M) \<and>
    space d' = space d - int (length (prep fs)) \<and> frame d d'"
proof -
  obtain bs where bs: "tview d bs" "set bs = M" using assms(1) by (auto simp: holds_def)
  then obtain d' where d': "tadd d s fs = Inr d'" "tview d' ((s, prep fs) # bs)"
      "space d' = space d - int (length (prep fs))" "frame d d'"
    using insert_law [OF bs(1), of s fs] assms(2,3) by auto
  then have "holds d' (insert (s, prep fs) M)"
    using bs(2) unfolding holds_def by (intro exI [of _ "(s, prep fs) # bs"]) simp
  then show ?thesis using d' by blast
qed

lemma holds_delete:
  assumes "holds d M" "(s, fs) \<in> M"
  shows "\<exists>d'. tdel d s (int (length fs)) = Inr d' \<and> holds d' (M - {(s, fs)}) \<and> s \<notin> fst ` (M - {(s, fs)}) \<and>
    space d' = space d + int (length fs) \<and> frame d d'"
proof -
  obtain bs1 bs2 where bs: "tview d (bs1 @ (s, fs) # bs2)" "set (bs1 @ (s, fs) # bs2) = M"
    using assms by (auto simp: holds_def dest: split_list)
  obtain d' where d': "tdel d s (int (length fs)) = Inr d'" "tview d' (bs1 @ bs2)"
      "space d' = space d + int (length fs)" "frame d d'"
    using delete_law [OF bs(1)] by blast
  have "s \<notin> fst ` set (bs1 @ bs2)" using keys_distinct [OF bs(1)] by auto
  moreover have "set (bs1 @ bs2) = M - {(s, fs)}" using bs(2) calculation by force
  ultimately show ?thesis using d' by (auto simp: holds_def)
qed

lemma holds_unique: "holds d M \<Longrightarrow> (s, fs) \<in> M \<Longrightarrow> (s, gs) \<in> M \<Longrightarrow> fs = gs"
  unfolding holds_def by (auto dest: keys_distinct eq_key_imp_eq_value)

text \<open>Mounting a list and taking it out again restores the table and its space.\<close>

lemma insert_delete:
  assumes "holds d M" "s \<notin> fst ` M" "int (length (prep fs)) \<le> space d"
  shows "\<exists>d' d''. tadd d s fs = Inr d' \<and> tdel d' s (int (length (prep fs))) = Inr d'' \<and>
    holds d'' M \<and> space d'' = space d"
proof -
  obtain d' where d': "tadd d s fs = Inr d'" "holds d' (insert (s, prep fs) M)"
      "space d' = space d - int (length (prep fs))"
    using holds_insert [OF assms] by blast
  moreover have "insert (s, prep fs) M - {(s, prep fs)} = M" using assms(2) by force
  ultimately show ?thesis
    using holds_delete [OF d'(2), of s "prep fs"] by auto
qed

end

interpretation ft: filter_table dev_view free_entries add_filter_dev remove_filter_dev mounted same_but_lists
proof
  show "dev_view d bs \<Longrightarrow> distinct (map fst bs)" for d bs
    by (simp add: dev_view_def)
qed (rule add_filter_dev_ok remove_filter_dev_ok; assumption)+

abbreviation dev_holds :: "rtcan_device \<Rightarrow> (nat \<times> can_filter list) set \<Rightarrow> bool" where
  "dev_holds \<equiv> ft.holds"

section \<open>All interfaces\<close>

text \<open>
  A binding table B gives every socket the interface it is bound to (0: all) and the filters it has
  mounted (none: nothing mounted); \<open>filters_for w B\<close> says that the reception list of every registered
  device holds exactly the blocks B asks for.
\<close>

type_synonym bindings = "nat \<Rightarrow> int \<times> can_filter list"

definition mounts :: "bindings \<Rightarrow> nat \<Rightarrow> (nat \<times> can_filter list) set" where
  "mounts B i = {(s, fs). fs = snd (B s) \<and> fs \<noteq> [] \<and> (fst (B s) = 0 \<or> fst (B s) = int i)}"

definition filters_for :: "'z can_world_scheme \<Rightarrow> bindings \<Rightarrow> bool" where
  "filters_for w B \<longleftrightarrow> registry_ok w \<and>
     (\<forall>d. registered w d \<longrightarrow> dev_holds (devs w d) (mounts B (dev_ifindex (devs w d))))"

definition slot :: "'z can_world_scheme \<Rightarrow> int \<Rightarrow> nat option" where
  "slot w i = fst (rtcan_dev_get_by_index w i)"

lemma get_by_index_slot:
  "rtcan_dev_get_by_index w i =
    (case slot w i of None \<Rightarrow> (None, w) | Some d \<Rightarrow> (Some d, rtcan_dev_reference d w))"
  by (simp add: slot_def rtcan_dev_get_by_index_def split: option.splits)

lemma slot_registered:
  assumes "registry_ok w" "slot w i = Some d"
  shows "registered w d" "int (dev_ifindex (devs w d)) = i"
proof -
  have i: "0 < i" "i \<le> int RTCAN_MAX_DEVICES" "rtcan_devices w ! nat (i - 1) = Some d"
    using assms(2) by (auto simp: slot_def rtcan_dev_get_by_index_def split: if_splits option.splits)
  then have "nat (i - 1) < RTCAN_MAX_DEVICES" by simp
  then show "registered w d" "int (dev_ifindex (devs w d)) = i"
    using assms(1) i by (auto simp: registry_ok_def registered_def in_set_conv_nth)
qed

lemma registered_slot:
  assumes "registry_ok w" "registered w d"
  shows "slot w (int (dev_ifindex (devs w d))) = Some d"
    and "0 < dev_ifindex (devs w d)" "dev_ifindex (devs w d) \<le> RTCAN_MAX_DEVICES"
proof -
  obtain k where "k < RTCAN_MAX_DEVICES" "rtcan_devices w ! k = Some d"
    using assms by (auto simp: registered_def registry_ok_def in_set_conv_nth)
  moreover have "dev_ifindex (devs w d) = k + 1" using assms(1) calculation by (simp add: registry_ok_def)
  ultimately show "slot w (int (dev_ifindex (devs w d))) = Some d" "0 < dev_ifindex (devs w d)"
      "dev_ifindex (devs w d) \<le> RTCAN_MAX_DEVICES"
    by (simp_all add: slot_def rtcan_dev_get_by_index_def)
qed

lemma slot_cong: "rtcan_devices w' = rtcan_devices w \<Longrightarrow> slot w' i = slot w i"
  by (simp add: slot_def rtcan_dev_get_by_index_def split: option.splits)

lemma registry_ok_devs:
  assumes "registry_ok w" "\<And>d. same_but_lists (devs w d) (f d)"
  shows "registry_ok (w\<lparr>devs := f\<rparr>)"
proof -
  have same: "dev_ifindex (f d) = dev_ifindex (devs w d)" "dev_name (f d) = dev_name (devs w d)" for d
    using same_but_listsD [OF assms(2)] by simp_all
  then show ?thesis
    using assms(1) by (auto simp: registry_ok_def registered_def ifname_def inj_on_def)
qed

lemma dev_holds_refcount [simp]: "dev_holds (dev\<lparr>refcount := r\<rparr>) M = dev_holds dev M"
  by (simp add: ft.holds_def dev_view_def dev_lists_def)

text \<open>The loops of both operations visit each interface of the range once.\<close>

fun dev_loop ::
    "(rtcan_device \<Rightarrow> rtcan_device kres) \<Rightarrow> 'z can_world_scheme \<Rightarrow> int list \<Rightarrow> 'z can_world_scheme kres" where
  "dev_loop g w [] = Inr w"
| "dev_loop g w (i # is) =
     (case rtcan_dev_get_by_index w i of
        (None, w1) \<Rightarrow> dev_loop g w1 is
      | (Some d, w1) \<Rightarrow>
          kbind (g (devs w1 d)) (\<lambda>dev. dev_loop g (rtcan_dev_dereference d (upd_dev d (\<lambda>_. dev) w1)) is))"

lemma add_filter_loop_eq: "add_filter_loop w s fs is = dev_loop (\<lambda>dev. add_filter_dev dev s fs) w is"
  by (induction "is" arbitrary: w) (auto split: prod.splits option.splits)

lemma remove_filter_loop_eq:
  "remove_filter_loop w s is = dev_loop (\<lambda>dev. remove_filter_dev dev s (flistlen (socks w s))) w is"
proof (induction "is" arbitrary: w)
  case (Cons i "is")
  then show ?case
    by (auto simp: get_by_index_slot rtcan_dev_reference_def rtcan_dev_dereference_def
        split: option.splits)
qed simp

lemma dev_loop_ok:
  assumes "registry_ok w" "distinct is"
    and "\<forall>i \<in> set is. \<forall>d. slot w i = Some d \<longrightarrow>
      (\<exists>dev'. g ((devs w d)\<lparr>refcount := refcount (devs w d) + 1\<rparr>) = Inr dev' \<and>
        same_but_lists ((devs w d)\<lparr>refcount := refcount (devs w d) + 1\<rparr>) dev' \<and>
        Q d (dev'\<lparr>refcount := refcount (devs w d)\<rparr>))"
  shows "\<exists>f. dev_loop g w is = Inr (w\<lparr>devs := f\<rparr>) \<and> (\<forall>d. same_but_lists (devs w d) (f d)) \<and>
    (\<forall>d. if \<exists>i \<in> set is. slot w i = Some d then Q d (f d) else f d = devs w d)"
  using assms
proof (induction "is" arbitrary: w)
  case Nil
  then show ?case by (intro exI [of _ "devs w"]) (simp add: same_but_lists_def)
next
  case (Cons i "is")
  show ?case
  proof (cases "slot w i")
    case None
    have "\<exists>f. dev_loop g w is = Inr (w\<lparr>devs := f\<rparr>) \<and> (\<forall>d. same_but_lists (devs w d) (f d)) \<and>
        (\<forall>d. if \<exists>i \<in> set is. slot w i = Some d then Q d (f d) else f d = devs w d)"
      using Cons.prems by (intro Cons.IH) auto
    with None show ?thesis by (simp add: get_by_index_slot)
  next
    case (Some d)
    obtain dev' where dev': "g ((devs w d)\<lparr>refcount := refcount (devs w d) + 1\<rparr>) = Inr dev'"
        "same_but_lists ((devs w d)\<lparr>refcount := refcount (devs w d) + 1\<rparr>) dev'"
        "Q d (dev'\<lparr>refcount := refcount (devs w d)\<rparr>)"
      using Cons.prems(3) Some by auto
    have rc: "refcount dev' = refcount (devs w d) + 1"
      using same_but_listsD(3) [OF dev'(2)] by simp
    let ?new = "dev'\<lparr>refcount := refcount (devs w d)\<rparr>"
    let ?w = "w\<lparr>devs := (devs w)(d := ?new)\<rparr>"
    have same: "same_but_lists (devs w e) (devs ?w e)" for e
      using same_but_lists_refcount [OF dev'(2)] by simp
    have ok: "registry_ok ?w" using registry_ok_devs [OF Cons.prems(1), of "devs ?w"] same by simp
    have sl: "slot ?w j = slot w j" for j by (rule slot_cong) simp
    have other: "e \<noteq> d" if "j \<in> set is" "slot w j = Some e" for j e
      using slot_registered(2) [OF Cons.prems(1) that(2)] slot_registered(2) [OF Cons.prems(1) Some]
        that(1) Cons.prems(2) by auto
    obtain f where f: "dev_loop g ?w is = Inr (?w\<lparr>devs := f\<rparr>)" "\<forall>e. same_but_lists (devs ?w e) (f e)"
        "\<forall>e. if \<exists>j \<in> set is. slot ?w j = Some e then Q e (f e) else f e = devs ?w e"
      using Cons.IH [OF ok] Cons.prems(2,3) other unfolding sl by fastforce
    have "dev_loop g w (i # is) = Inr (w\<lparr>devs := f\<rparr>)"
      using f(1) dev'(1) rc
      by (simp add: get_by_index_slot Some rtcan_dev_reference_def rtcan_dev_dereference_def upd_dev_def)
    moreover have "same_but_lists (devs w e) (f e)" for e
      using same_but_lists_trans [OF same] f(2) by blast
    moreover have "if \<exists>j \<in> set (i # is). slot w j = Some e then Q e (f e) else f e = devs w e" for e
      using f(3) [rule_format, of e] other dev'(3) Some unfolding sl by (auto split: if_splits)
    ultimately show ?thesis by blast
  qed
qed

definition in_range :: "int \<Rightarrow> nat \<Rightarrow> bool" where
  "in_range ifindex i \<longleftrightarrow> ifindex = 0 \<or> ifindex = int i"

lemma bind_range_distinct [simp]: "distinct (bind_range ifindex)"
  by (simp add: bind_range_def distinct_map)

lemma bind_range_slot:
  assumes "registry_ok w"
  shows "(\<exists>i \<in> set (bind_range ifindex). slot w i = Some d) \<longleftrightarrow>
    registered w d \<and> in_range ifindex (dev_ifindex (devs w d))"
proof
  assume "\<exists>i \<in> set (bind_range ifindex). slot w i = Some d"
  then show "registered w d \<and> in_range ifindex (dev_ifindex (devs w d))"
    using slot_registered [OF assms] by (fastforce simp: bind_range_def in_range_def split: if_splits)
next
  assume reg: "registered w d \<and> in_range ifindex (dev_ifindex (devs w d))"
  then have "int (dev_ifindex (devs w d)) \<in> set (bind_range ifindex)"
    using registered_slot(2,3) [OF assms, of d]
    by (auto simp: bind_range_def in_range_def simp del: upt_Suc)
  then show "\<exists>i \<in> set (bind_range ifindex). slot w i = Some d"
    using registered_slot(1) [OF assms] reg by blast
qed

lemma mounts_mem: "(s, fs) \<in> mounts B i \<longleftrightarrow> fs = snd (B s) \<and> fs \<noteq> [] \<and> in_range (fst (B s)) i"
  by (auto simp: mounts_def in_range_def)

lemma mounts_remove:
  "mounts (B(s := (k, []))) i = {(t, fs) \<in> mounts B i. t \<noteq> s}"
  by (auto simp: mounts_def split: if_splits)

lemma mounts_insert:
  "snd (B s) = [] \<Longrightarrow> fs \<noteq> [] \<Longrightarrow>
    mounts (B(s := (k, fs))) i = (if in_range k i then insert (s, fs) (mounts B i) else mounts B i)"
  by (auto simp: mounts_def in_range_def split: if_splits)

lemma filters_for_devs:
  assumes "filters_for w B" "\<forall>d. same_but_lists (devs w d) (f d)"
    and "\<And>d. registered w d \<Longrightarrow> dev_holds (f d) (mounts B' (dev_ifindex (devs w d)))"
  shows "filters_for (w\<lparr>devs := f\<rparr>) B'"
proof -
  have "dev_ifindex (f d) = dev_ifindex (devs w d)" for d using assms(2) same_but_listsD(1) by blast
  then show ?thesis
    using assms registry_ok_devs [of w f] by (auto simp: filters_for_def registered_def)
qed

text \<open>
  Removing the filters of a bound socket: no fault, and the reception lists of all interfaces are
  those of the table without the socket.
\<close>

definition mounted_len :: "bindings \<Rightarrow> nat \<Rightarrow> nat \<Rightarrow> int" where
  "mounted_len B s i = (if in_range (fst (B s)) i then int (length (snd (B s))) else 0)"

lemma remove_filter_ok:
  assumes inv: "filters_for w B"
    and B: "fst (B s) = sock_ifindex (socks w s)" "max 0 (flistlen (socks w s)) = int (length (snd (B s)))"
  shows "\<exists>f. rtcan_raw_remove_filter w s = Inr (w\<lparr>devs := f\<rparr>) \<and>
    filters_for (w\<lparr>devs := f\<rparr>) (B(s := (0, []))) \<and> (\<forall>d. same_but_lists (devs w d) (f d)) \<and>
    (\<forall>d. registered w d \<longrightarrow>
      free_entries (f d) = free_entries (devs w d) + mounted_len B s (dev_ifindex (devs w d)))"
proof (cases "snd (B s) = []")
  case True
  then have "mounts (B(s := (0, []))) = mounts B"
    by (auto simp: mounts_def fun_eq_iff split: if_splits)
  with True B inv show ?thesis
    by (intro exI [of _ "devs w"])
      (auto simp: rtcan_raw_remove_filter_def rtcan_sock_has_filter_def filters_for_def mounted_len_def)
next
  case False
  define n where "n = flistlen (socks w s)"
  have n: "n = int (length (snd (B s)))" using B(2) False by (auto simp: n_def max_def split: if_splits)
  let ?B = "B(s := (0, []))"
  let ?Q = "\<lambda>d dev. dev_holds dev (mounts ?B (dev_ifindex (devs w d))) \<and>
    free_entries dev = free_entries (devs w d) + n"
  have reg: "registry_ok w" using inv by (simp add: filters_for_def)
  have loop: "\<exists>dev'. remove_filter_dev ((devs w d)\<lparr>refcount := refcount (devs w d) + 1\<rparr>) s n = Inr dev' \<and>
      same_but_lists ((devs w d)\<lparr>refcount := refcount (devs w d) + 1\<rparr>) dev' \<and>
      ?Q d (dev'\<lparr>refcount := refcount (devs w d)\<rparr>)"
    if "i \<in> set (bind_range (fst (B s)))" "slot w i = Some d" for i d
  proof -
    let ?M = "mounts B (dev_ifindex (devs w d))"
    have d: "registered w d" "in_range (fst (B s)) (dev_ifindex (devs w d))"
      using bind_range_slot [OF reg] that by blast+
    then have "dev_holds ((devs w d)\<lparr>refcount := refcount (devs w d) + 1\<rparr>) ?M" "(s, snd (B s)) \<in> ?M"
      using inv False by (simp_all add: filters_for_def mounts_mem)
    moreover have "mounts ?B (dev_ifindex (devs w d)) = ?M - {(s, snd (B s))}"
      by (auto simp: mounts_def split: if_splits)
    ultimately show ?thesis
      using ft.holds_delete [of "(devs w d)\<lparr>refcount := refcount (devs w d) + 1\<rparr>" ?M s "snd (B s)"] n
      by auto
  qed
  obtain f where f: "dev_loop (\<lambda>dev. remove_filter_dev dev s n) w (bind_range (fst (B s))) = Inr (w\<lparr>devs := f\<rparr>)"
      "\<forall>d. same_but_lists (devs w d) (f d)"
      "\<forall>d. if \<exists>i \<in> set (bind_range (fst (B s))). slot w i = Some d then ?Q d (f d) else f d = devs w d"
    using dev_loop_ok [where g = "\<lambda>dev. remove_filter_dev dev s n" and Q = ?Q, OF reg bind_range_distinct]
    loop by blast
  have "rtcan_raw_remove_filter w s = Inr (w\<lparr>devs := f\<rparr>)"
    using f(1) n False B(1)
    by (simp add: rtcan_raw_remove_filter_def rtcan_sock_has_filter_def remove_filter_loop_eq n_def)
  moreover have "dev_holds (f d) (mounts ?B (dev_ifindex (devs w d))) \<and>
      free_entries (f d) = free_entries (devs w d) + mounted_len B s (dev_ifindex (devs w d))"
    if d: "registered w d" for d
  proof (cases "in_range (fst (B s)) (dev_ifindex (devs w d))")
    case True
    then show ?thesis
      using f(3) [rule_format, of d] d n unfolding bind_range_slot [OF reg] by (simp add: mounted_len_def)
  next
    case False
    moreover have "mounts ?B (dev_ifindex (devs w d)) = mounts B (dev_ifindex (devs w d))"
      using False by (auto simp: mounts_def in_range_def split: if_splits)
    ultimately show ?thesis
      using f(3) [rule_format, of d] d inv unfolding bind_range_slot [OF reg]
      by (simp add: mounted_len_def filters_for_def)
  qed
  ultimately show ?thesis using f(2) filters_for_devs [OF inv f(2), of ?B] by blast
qed

text \<open>Mounting the list of a socket that has nothing mounted, where there is room for it.\<close>

definition flist_filters :: "rtcan_filter_list \<Rightarrow> can_filter list" where
  "flist_filters fl = (case fl of Flist fs \<Rightarrow> fs | _ \<Rightarrow> [])"

definition mounted_flist :: "rtcan_filter_list \<Rightarrow> can_filter list" where
  "mounted_flist fl = (if fl = RTCAN_FLIST_NO_FILTER then [] else mounted (flist_filters fl))"

lemma add_filter_ok:
  assumes inv: "filters_for w B" and free: "snd (B s) = []"
    and room: "\<And>d. registered w d \<Longrightarrow> in_range ifindex (dev_ifindex (devs w d)) \<Longrightarrow>
      int (length (mounted_flist (flist (socks w s)))) \<le> free_entries (devs w d)"
  shows "\<exists>f. rtcan_raw_add_filter w s ifindex =
      Inr (int (length (mounted_flist (flist (socks w s)))), w\<lparr>devs := f\<rparr>) \<and>
    filters_for (w\<lparr>devs := f\<rparr>) (B(s := (ifindex, mounted_flist (flist (socks w s))))) \<and>
    (\<forall>d. same_but_lists (devs w d) (f d))"
proof (cases "flist (socks w s) = RTCAN_FLIST_NO_FILTER")
  case True
  have "mounts (B(s := (ifindex, []))) = mounts B" using free by (auto simp: mounts_def fun_eq_iff split: if_splits)
  with True inv show ?thesis
    by (intro exI [of _ "devs w"]) (auto simp: rtcan_raw_add_filter_def mounted_flist_def filters_for_def)
next
  case False
  define fs where "fs = flist_filters (flist (socks w s))"
  have ms: "mounted_flist (flist (socks w s)) = mounted fs" using False by (simp add: mounted_flist_def fs_def)
  let ?B = "B(s := (ifindex, mounted fs))"
  let ?Q = "\<lambda>d dev. dev_holds dev (mounts ?B (dev_ifindex (devs w d)))"
  have reg: "registry_ok w" using inv by (simp add: filters_for_def)
  have loop: "\<exists>dev'. add_filter_dev ((devs w d)\<lparr>refcount := refcount (devs w d) + 1\<rparr>) s fs = Inr dev' \<and>
      same_but_lists ((devs w d)\<lparr>refcount := refcount (devs w d) + 1\<rparr>) dev' \<and>
      ?Q d (dev'\<lparr>refcount := refcount (devs w d)\<rparr>)"
    if "i \<in> set (bind_range ifindex)" "slot w i = Some d" for i d
  proof -
    let ?M = "mounts B (dev_ifindex (devs w d))"
    have d: "registered w d" "in_range ifindex (dev_ifindex (devs w d))"
      using bind_range_slot [OF reg] that by blast+
    have "dev_holds ((devs w d)\<lparr>refcount := refcount (devs w d) + 1\<rparr>) ?M"
      using inv d(1) by (simp add: filters_for_def)
    moreover have "s \<notin> fst ` ?M" using free by (auto simp: mounts_def)
    ultimately show ?thesis
      using ft.holds_insert [of "(devs w d)\<lparr>refcount := refcount (devs w d) + 1\<rparr>" ?M s fs]
        room [OF d] d(2) free by (auto simp: ms mounts_insert)
  qed
  obtain f where f: "dev_loop (\<lambda>dev. add_filter_dev dev s fs) w (bind_range ifindex) = Inr (w\<lparr>devs := f\<rparr>)"
      "\<forall>d. same_but_lists (devs w d) (f d)"
      "\<forall>d. if \<exists>i \<in> set (bind_range ifindex). slot w i = Some d then ?Q d (f d) else f d = devs w d"
    using dev_loop_ok [where g = "\<lambda>dev. add_filter_dev dev s fs" and Q = ?Q, OF reg bind_range_distinct]
    loop by blast
  have "rtcan_raw_add_filter w s ifindex = Inr (int (length (mounted fs)), w\<lparr>devs := f\<rparr>)"
    using f(1) False
    by (cases "flist (socks w s)")
      (simp_all add: rtcan_raw_add_filter_def add_filter_loop_eq fs_def flist_filters_def Let_def
        length_mounted mounted_def)
  moreover have "?Q d (f d)" if "registered w d" for d
    using f(3) [rule_format, of d] that inv free unfolding bind_range_slot [OF reg]
    by (auto simp: mounts_insert filters_for_def split: if_splits)
  ultimately show ?thesis using f(2) filters_for_devs [OF inv f(2), of ?B] unfolding ms by blast
qed

text \<open>
  The check is exact: it grants the space if and only if every device in the range has room for
  the new list once the socket's old entries there are given back. It changes nothing.
\<close>

lemma check_filter_loop_eq:
  "check_filter_loop w old_all old_ifindex sock_len flen is =
    (if \<forall>i \<in> set is. \<forall>d. slot w i = Some d \<longrightarrow>
        flen \<le> free_entries (devs w d) + old_all + (if i = old_ifindex then sock_len else 0)
     then (Inr 0, w) else (Inl ENOSPC, w))"
proof (induction "is")
  case (Cons i "is")
  have "free_entries (devs (rtcan_dev_reference d w) d) = free_entries (devs w d)" for d
    by (simp add: rtcan_dev_reference_def)
  then show ?case
    by (cases "slot w i") (simp_all add: get_by_index_slot Let_def Cons.IH not_less)
qed simp

lemma check_filter_exact:
  assumes reg: "registry_ok w"
    and B: "fst (B s) = sock_ifindex (socks w s)" "max 0 (flistlen (socks w s)) = int (length (snd (B s)))"
    and len: "flen = int (length (mounted_flist fl))" and fl: "fl \<noteq> RTCAN_FLIST_NO_FILTER" "fl \<noteq> Flist []"
  shows "rtcan_raw_check_filter w s ifindex fl =
    (if \<forall>d. registered w d \<and> in_range ifindex (dev_ifindex (devs w d)) \<longrightarrow>
        flen \<le> free_entries (devs w d) + mounted_len B s (dev_ifindex (devs w d))
     then (Inr 0, w) else (Inl ENOSPC, w))"
proof -
  let ?sock = "socks w s"
  let ?all = "if rtcan_sock_has_filter ?sock \<and> sock_ifindex ?sock = 0 then flistlen ?sock else 0"
  let ?one = "if rtcan_sock_has_filter ?sock \<and> sock_ifindex ?sock \<noteq> 0 then sock_ifindex ?sock else 0"
  have old: "?all + (if int (dev_ifindex (devs w d)) = ?one then flistlen ?sock else 0) =
      mounted_len B s (dev_ifindex (devs w d))" if "registered w d" for d
    using registered_slot(2) [OF reg that] B
    by (auto simp: mounted_len_def in_range_def rtcan_sock_has_filter_def max_def split: if_splits)
  have "flen \<le> free_entries (devs w d) + ?all + (if i = ?one then flistlen ?sock else 0) \<longleftrightarrow>
      flen \<le> free_entries (devs w d) + mounted_len B s (dev_ifindex (devs w d))"
    if "slot w i = Some d" for i d
    using old [OF slot_registered(1) [OF reg that]] slot_registered(2) [OF reg that] by (simp add: add.assoc)
  then have "(\<forall>i \<in> set (bind_range ifindex). \<forall>d. slot w i = Some d \<longrightarrow>
      flen \<le> free_entries (devs w d) + ?all + (if i = ?one then flistlen ?sock else 0)) \<longleftrightarrow>
    (\<forall>d. (\<exists>i \<in> set (bind_range ifindex). slot w i = Some d) \<longrightarrow>
      flen \<le> free_entries (devs w d) + mounted_len B s (dev_ifindex (devs w d)))"
    by (simp only: Ball_def Bex_def) blast
  also have "\<dots> \<longleftrightarrow> (\<forall>d. registered w d \<and> in_range ifindex (dev_ifindex (devs w d)) \<longrightarrow>
      flen \<le> free_entries (devs w d) + mounted_len B s (dev_ifindex (devs w d)))"
    unfolding bind_range_slot [OF reg] ..
  finally show ?thesis
    using len fl
    by (cases fl) (simp_all add: rtcan_raw_check_filter_def rtcan_flist_no_filter_def check_filter_loop_eq
        mounted_flist_def flist_filters_def mounted_def Let_def)
qed

end
