(* ===== verification/Can_Bind.thy ===== *)
theory Can_Bind
  imports Can_Filter
begin

text \<open>
  The life of a CAN socket: creation, binding, socket options, closing (\<open>rtcan_socket.c\<close> and the
  control path of \<open>rtcan_raw.c\<close>). A socket is named by the address of its context. Every operation
  runs under \<open>rtcan_recv_list_lock\<close>, so it is one atomic step.
\<close>

section \<open>Operations\<close>

definition rtcan_socket_init :: "'z can_world_scheme \<Rightarrow> nat \<Rightarrow> 'z can_world_scheme" where
  "rtcan_socket_init w s =
     (upd_sock s (\<lambda>sock. sock\<lparr>recv_sem := rtdm_sem_init (recv_sem sock) 0,
        recv_head := 0, recv_tail := 0, sock_ifindex := 0, flistlen := RTCAN_SOCK_UNBOUND,
        flist := FlistNull, err_mask := 0, rx_buf_full := 0, loopback := 1,
        tx_timeout := RTDM_TIMEOUT_INFINITE, rx_timeout := RTDM_TIMEOUT_INFINITE,
        tx_wait_head := []\<rparr>) w)
     \<lparr>rtcan_socket_list := s # rtcan_socket_list w\<rparr>"

text \<open>
  The loop that wakes the sleeping senders takes them off the list one at a time; the result is the
  list of the tasks unblocked, in that order.
\<close>

fun wake_senders :: "nat list \<Rightarrow> nat list \<Rightarrow> nat list" where
  "wake_senders woken [] = woken"
| "wake_senders woken (t # ts) = wake_senders (woken @ [t]) ts"

definition rtcan_socket_cleanup :: "'z can_world_scheme \<Rightarrow> nat \<Rightarrow> nat list \<times> 'z can_world_scheme" where
  "rtcan_socket_cleanup w s =
     (wake_senders [] (tx_wait_head (socks w s)),
      (upd_sock s (\<lambda>sock. sock\<lparr>tx_wait_head := [], recv_sem := rtdm_sem_destroy (recv_sem sock)\<rparr>) w)
      \<lparr>rtcan_socket_list := remove1 s (rtcan_socket_list w)\<rparr>)"

definition CAN_PROTO_RAW :: int where "CAN_PROTO_RAW = 0"

definition rtcan_raw_socket :: "'z can_world_scheme \<Rightarrow> nat \<Rightarrow> int \<Rightarrow> cret \<times> 'z can_world_scheme" where
  "rtcan_raw_socket w s protocol =
     (if protocol \<noteq> CAN_PROTO_RAW \<and> protocol \<noteq> 0 then (Inl EPROTONOSUPPORT, w)
      else (Inr 0, rtcan_socket_init w s))"

definition rtcan_raw_unbind :: "'z can_world_scheme \<Rightarrow> nat \<Rightarrow> 'z can_world_scheme kres" where
  "rtcan_raw_unbind w s =
     kbind (rtcan_raw_remove_filter w s)
       (\<lambda>w1. Inr (upd_sock s (\<lambda>sock. sock\<lparr>flist := FlistNull, flistlen := RTCAN_SOCK_UNBOUND,
                                         sock_ifindex := 0\<rparr>) w1))"

definition rtcan_raw_close ::
    "'z can_world_scheme \<Rightarrow> nat \<Rightarrow> (cret \<times> nat list \<times> 'z can_world_scheme) kres" where
  "rtcan_raw_close w s =
     kbind (if rtcan_sock_is_bound (socks w s) then rtcan_raw_unbind w s else Inr w)
       (\<lambda>w1. Inr (Inr 0, rtcan_socket_cleanup w1 s))"

definition rtcan_raw_bind ::
    "'z can_world_scheme \<Rightarrow> nat \<Rightarrow> sockaddr_can \<Rightarrow> (cret \<times> 'z can_world_scheme) kres" where
  "rtcan_raw_bind w s scan =
     (if scan_family scan \<noteq> AF_CAN then Inr (Inl EINVAL, w)
      else if scan_ifindex scan < 0 \<or> scan_ifindex scan > int RTCAN_MAX_DEVICES then Inr (Inl ENODEV, w)
      else if bit (context_flags (socks w s)) RTDM_CLOSING then Inr (Inl EBADF, w)
      else case rtcan_raw_check_filter w s (scan_ifindex scan) (flist (socks w s)) of
        (Inl e, w1) \<Rightarrow> Inr (Inl e, w1)
      | (Inr _, w1) \<Rightarrow>
          kbind (rtcan_raw_remove_filter w1 s) (\<lambda>w2.
          kbind (rtcan_raw_add_filter w2 s (scan_ifindex scan)) (\<lambda>(n, w3).
          Inr (Inr 0, upd_sock s (\<lambda>sock. sock\<lparr>flistlen := n, sock_ifindex := scan_ifindex scan\<rparr>) w3))))"

text \<open>
  Socket options. \<open>so_optval\<close> is the memory behind \<open>optval\<close> (as many bytes as \<open>optlen\<close> says) and
  \<open>so_readable\<close> whether a user-space caller may read it; \<open>user\<close> tells a user-space caller from a
  kernel one, \<open>mem\<close> whether the allocation succeeds.
\<close>

record setsockopt_args =
  so_level :: int
  so_optname :: int
  so_optval :: "u8 list"
  so_readable :: bool

definition SOL_CAN_RAW :: int where "SOL_CAN_RAW = 103"
definition CAN_RAW_FILTER :: int where "CAN_RAW_FILTER = 1"
definition CAN_RAW_ERR_FILTER :: int where "CAN_RAW_ERR_FILTER = 2"
definition CAN_RAW_LOOPBACK :: int where "CAN_RAW_LOOPBACK = 3"

definition filter_at :: "u8 list \<Rightarrow> nat \<Rightarrow> can_filter" where
  "filter_at mem i = \<lparr>flt_can_id = bytes_u32 (take 4 (drop (sizeof_can_filter * i) mem)),
     flt_can_mask = bytes_u32 (take 4 (drop (sizeof_can_filter * i + 4) mem))\<rparr>"

definition so_flist :: "bool \<Rightarrow> setsockopt_args \<Rightarrow> bool \<Rightarrow> errno + rtcan_filter_list" where
  "so_flist user so mem =
     (let optlen = length (so_optval so); n = optlen div sizeof_can_filter in
      if optlen = 0 then Inr RTCAN_FLIST_NO_FILTER
      else if n < 1 \<or> n > RTCAN_MAX_RECEIVERS \<or> optlen mod sizeof_can_filter \<noteq> 0 then Inl EINVAL
      else if \<not> mem then Inl ENOMEM
      else if user \<and> \<not> so_readable so then Inl EFAULT
      else Inr (Flist (map (filter_at (so_optval so)) [0..<n])))"

text \<open>
  Replacing the list: \<open>rtdm_free\<close> of the pointer -1 is the fault \<open>BadFree\<close>.
\<close>

definition replace_flist :: "'z can_world_scheme \<Rightarrow> nat \<Rightarrow> rtcan_filter_list \<Rightarrow> 'z can_world_scheme kres" where
  "replace_flist w s fl =
     (if \<not> rtcan_flist_no_filter fl \<and> flist (socks w s) = RTCAN_FLIST_NO_FILTER then Inl BadFree
      else Inr (upd_sock s (\<lambda>sock. sock\<lparr>flist := fl\<rparr>) w))"

definition set_filter :: "'z can_world_scheme \<Rightarrow> nat \<Rightarrow> rtcan_filter_list \<Rightarrow> (cret \<times> 'z can_world_scheme) kres" where
  "set_filter w s fl =
     (let ifindex = sock_ifindex (socks w s) in
      if rtcan_sock_is_bound (socks w s) then
        case (if rtcan_flist_no_filter fl then (Inr 0, w) else rtcan_raw_check_filter w s ifindex fl) of
          (Inl e, w1) \<Rightarrow> Inr (Inl e, w1)
        | (Inr _, w1) \<Rightarrow>
            kbind (rtcan_raw_remove_filter w1 s) (\<lambda>w2.
            kbind (replace_flist w2 s fl) (\<lambda>w3.
            kbind (rtcan_raw_add_filter w3 s ifindex) (\<lambda>(n, w4).
            Inr (Inr 0, upd_sock s (\<lambda>sock. sock\<lparr>flistlen := n\<rparr>) w4))))
      else kbind (replace_flist w s fl) (\<lambda>w3. Inr (Inr 0, w3)))"

definition rtcan_raw_setsockopt ::
    "'z can_world_scheme \<Rightarrow> nat \<Rightarrow> bool \<Rightarrow> setsockopt_args \<Rightarrow> bool \<Rightarrow> (cret \<times> 'z can_world_scheme) kres" where
  "rtcan_raw_setsockopt w s user so mem =
     (if so_level so \<noteq> SOL_CAN_RAW then Inr (Inl ENOPROTOOPT, w)
      else if so_optname so = CAN_RAW_FILTER then
        (case so_flist user so mem of Inl e \<Rightarrow> Inr (Inl e, w) | Inr fl \<Rightarrow> set_filter w s fl)
      else if so_optname so = CAN_RAW_ERR_FILTER then
        (if length (so_optval so) \<noteq> 4 then Inr (Inl EINVAL, w)
         else if user \<and> \<not> so_readable so then Inr (Inl EFAULT, w)
         else Inr (Inr 0, upd_sock s (\<lambda>sock. sock\<lparr>err_mask := bytes_u32 (so_optval so)\<rparr>) w))
      else if so_optname so = CAN_RAW_LOOPBACK then
        (if length (so_optval so) \<noteq> 4 then Inr (Inl EINVAL, w)
         else if user \<and> \<not> so_readable so then Inr (Inl EFAULT, w)
         else Inr (Inr 0, upd_sock s (\<lambda>sock. sock\<lparr>loopback := sint (bytes_u32 (so_optval so))\<rparr>) w))
      else Inr (Inl ENOPROTOOPT, w))"

section \<open>The invariant of sockets and reception lists\<close>

text \<open>
  A bound socket has the filters of its \<open>flist\<close> mounted on its interface, an unbound one nothing;
  the reception lists of all devices are exactly what the live sockets ask for.
\<close>

definition sock_ok :: "rtcan_socket \<Rightarrow> bool" where
  "sock_ok sock \<longleftrightarrow> flist sock \<noteq> Flist [] \<and>
     (if rtcan_sock_is_bound sock then flistlen sock = int (length (mounted_flist (flist sock)))
      else sock_ifindex sock = 0)"

definition bindings_of :: "'z can_world_scheme \<Rightarrow> bindings" where
  "bindings_of w s =
     (if s \<in> set (rtcan_socket_list w) \<and> rtcan_sock_is_bound (socks w s)
      then (sock_ifindex (socks w s), mounted_flist (flist (socks w s))) else (0, []))"

definition can_inv :: "'z can_world_scheme \<Rightarrow> bool" where
  "can_inv w \<longleftrightarrow> filters_for w (bindings_of w) \<and> distinct (rtcan_socket_list w) \<and>
     (\<forall>s \<in> set (rtcan_socket_list w). sock_ok (socks w s))"

text \<open>Whether every device in the range has room for a filter list of the socket.\<close>

definition room_for :: "'z can_world_scheme \<Rightarrow> nat \<Rightarrow> int \<Rightarrow> rtcan_filter_list \<Rightarrow> bool" where
  "room_for w s ifindex fl \<longleftrightarrow>
     (\<forall>d. registered w d \<and> in_range ifindex (dev_ifindex (devs w d)) \<longrightarrow>
        int (length (mounted_flist fl)) \<le>
          free_entries (devs w d) + mounted_len (bindings_of w) s (dev_ifindex (devs w d)))"

lemma filters_for_frame [simp]:
  "filters_for (upd_sock s g w) B = filters_for w B"
  "filters_for (w\<lparr>rtcan_socket_list := l\<rparr>) B = filters_for w B"
  by (simp_all add: filters_for_def registry_ok_def registered_def ifname_def inj_on_def)

lemma bindings_sock:
  assumes "sock_ok (socks w s)" "s \<in> set (rtcan_socket_list w)"
  shows "fst (bindings_of w s) = sock_ifindex (socks w s)"
    "max 0 (flistlen (socks w s)) = int (length (snd (bindings_of w s)))"
  using assms by (auto simp: sock_ok_def bindings_of_def rtcan_sock_is_bound_def)

lemma dev_holds_free: "dev_holds dev M \<Longrightarrow> 0 \<le> free_entries dev"
  by (auto simp: ft.holds_def dev_view_def dev_lists_def)

lemma check_filter_room:
  assumes inv: "can_inv w" and s: "s \<in> set (rtcan_socket_list w)" and fl: "fl \<noteq> Flist []"
  shows "rtcan_raw_check_filter w s ifindex fl =
    (if room_for w s ifindex fl then (Inr 0, w) else (Inl ENOSPC, w))"
proof (cases "fl = RTCAN_FLIST_NO_FILTER")
  case True
  have "0 \<le> free_entries (devs w d)" if "registered w d" for d
    using inv that by (auto simp: can_inv_def filters_for_def intro: dev_holds_free)
  moreover have "0 \<le> mounted_len B s i" for B i by (simp add: mounted_len_def)
  ultimately show ?thesis
    using True
    by (auto simp: rtcan_raw_check_filter_def rtcan_flist_no_filter_def room_for_def mounted_flist_def
        intro!: add_nonneg_nonneg)
next
  case False
  have ok: "sock_ok (socks w s)" "registry_ok w" using inv s by (auto simp: can_inv_def filters_for_def)
  show ?thesis
    using check_filter_exact [where B = "bindings_of w" and s = s, OF ok(2) bindings_sock [OF ok(1) s] refl False fl]
    by (simp add: room_for_def)
qed

text \<open>Unmounting a socket and mounting a list for which there is room: the core of bind and setsockopt.\<close>

lemma remount_ok:
  assumes inv: "can_inv w" and s: "s \<in> set (rtcan_socket_list w)" and room: "room_for w s ifindex fl"
  shows "\<exists>f g. rtcan_raw_remove_filter w s = Inr (w\<lparr>devs := f\<rparr>) \<and>
    rtcan_raw_add_filter (upd_sock s (\<lambda>sock. sock\<lparr>flist := fl\<rparr>) (w\<lparr>devs := f\<rparr>)) s ifindex =
      Inr (int (length (mounted_flist fl)), upd_sock s (\<lambda>sock. sock\<lparr>flist := fl\<rparr>) (w\<lparr>devs := g\<rparr>)) \<and>
    filters_for (w\<lparr>devs := g\<rparr>) ((bindings_of w)(s := (ifindex, mounted_flist fl)))"
proof -
  let ?B = "bindings_of w"
  have inv': "filters_for w ?B" and ok: "sock_ok (socks w s)" using inv s by (auto simp: can_inv_def)
  obtain f where f: "rtcan_raw_remove_filter w s = Inr (w\<lparr>devs := f\<rparr>)"
      "filters_for (w\<lparr>devs := f\<rparr>) (?B(s := (0, [])))" "\<forall>d. same_but_lists (devs w d) (f d)"
      "\<forall>d. registered w d \<longrightarrow> free_entries (f d) = free_entries (devs w d) + mounted_len ?B s (dev_ifindex (devs w d))"
    using remove_filter_ok [where s = s, OF inv' bindings_sock [OF ok s]] by blast
  let ?w = "upd_sock s (\<lambda>sock. sock\<lparr>flist := fl\<rparr>) (w\<lparr>devs := f\<rparr>)"
  have "int (length (mounted_flist (flist (socks ?w s)))) \<le> free_entries (devs ?w d)"
    if "registered ?w d" "in_range ifindex (dev_ifindex (devs ?w d))" for d
    using that f(4) room same_but_listsD(1) [OF f(3) [rule_format, of d]]
    by (auto simp: room_for_def registered_def)
  from add_filter_ok [of ?w "?B(s := (0, []))" s ifindex, OF _ _ this]
  obtain g where g: "rtcan_raw_add_filter ?w s ifindex =
      Inr (int (length (mounted_flist fl)), ?w\<lparr>devs := g\<rparr>)"
      "filters_for (?w\<lparr>devs := g\<rparr>) (?B(s := (ifindex, mounted_flist fl)))"
    using f(2) by auto
  moreover have "?w\<lparr>devs := g\<rparr> = upd_sock s (\<lambda>sock. sock\<lparr>flist := fl\<rparr>) (w\<lparr>devs := g\<rparr>)"
    by (simp add: upd_sock_def)
  ultimately show ?thesis using f(1) by (intro exI [of _ f] exI [of _ g]) simp
qed

lemma can_inv_update:
  assumes inv: "can_inv w" and s: "s \<in> set (rtcan_socket_list w)"
    and filt: "filters_for w' ((bindings_of w)(s := bindings_of w' s))"
    and frame: "rtcan_socket_list w' = rtcan_socket_list w" "\<And>t. t \<noteq> s \<Longrightarrow> socks w' t = socks w t"
    and ok: "sock_ok (socks w' s)"
  shows "can_inv w'" "bindings_of w' = (bindings_of w)(s := bindings_of w' s)"
proof -
  show "bindings_of w' = (bindings_of w)(s := bindings_of w' s)"
    using frame by (auto simp: bindings_of_def fun_eq_iff)
  with filt have "filters_for w' (bindings_of w')" by simp
  then show "can_inv w'"
    using inv frame ok unfolding can_inv_def by metis
qed

lemma bind_effect:
  assumes inv: "can_inv w" and s: "s \<in> set (rtcan_socket_list w)"
    and scan: "scan_family scan = AF_CAN" "0 \<le> scan_ifindex scan" "scan_ifindex scan \<le> int RTCAN_MAX_DEVICES"
    and live: "\<not> bit (context_flags (socks w s)) RTDM_CLOSING"
  shows "if room_for w s (scan_ifindex scan) (flist (socks w s))
    then \<exists>w'. rtcan_raw_bind w s scan = Inr (Inr 0, w') \<and> can_inv w' \<and>
      rtcan_socket_list w' = rtcan_socket_list w \<and> rtcan_devices w' = rtcan_devices w \<and>
      socks w' = (socks w)(s := (socks w s)\<lparr>flistlen := int (length (mounted_flist (flist (socks w s)))),
        sock_ifindex := scan_ifindex scan\<rparr>) \<and>
      bindings_of w' = (bindings_of w)(s := (scan_ifindex scan, mounted_flist (flist (socks w s))))
    else rtcan_raw_bind w s scan = Inr (Inl ENOSPC, w)"
proof -
  let ?fl = "flist (socks w s)" and ?i = "scan_ifindex scan"
  have fl: "sock_ok (socks w s)" "?fl \<noteq> Flist []" using inv s by (auto simp: can_inv_def sock_ok_def)
  note check = check_filter_room [OF inv s fl(2), of ?i]
  have same: "upd_sock s (\<lambda>sock. sock\<lparr>flist := ?fl\<rparr>) (w\<lparr>devs := f\<rparr>) = w\<lparr>devs := f\<rparr>" for f
    by (simp add: upd_sock_def)
  show ?thesis
  proof (cases "room_for w s ?i ?fl")
    case True
    obtain f g where fg: "rtcan_raw_remove_filter w s = Inr (w\<lparr>devs := f\<rparr>)"
        "rtcan_raw_add_filter (w\<lparr>devs := f\<rparr>) s ?i = Inr (int (length (mounted_flist ?fl)), w\<lparr>devs := g\<rparr>)"
        "filters_for (w\<lparr>devs := g\<rparr>) ((bindings_of w)(s := (?i, mounted_flist ?fl)))"
      using remount_ok [OF inv s True] unfolding same by blast
    define w' where "w' = upd_sock s (\<lambda>sock. sock\<lparr>flistlen := int (length (mounted_flist ?fl)), sock_ifindex := ?i\<rparr>)
      (w\<lparr>devs := g\<rparr>)"
    have b: "bindings_of w' s = (?i, mounted_flist ?fl)"
      using s by (simp add: w'_def bindings_of_def rtcan_sock_is_bound_def)
    have "rtcan_raw_bind w s scan = Inr (Inr 0, w')"
      using fg scan live True check by (simp add: rtcan_raw_bind_def w'_def)
    moreover have "can_inv w'" "bindings_of w' = (bindings_of w)(s := bindings_of w' s)"
      by (rule can_inv_update [OF inv s];
          use fg(3) b fl in \<open>simp add: w'_def sock_ok_def rtcan_sock_is_bound_def\<close>)+
    ultimately show ?thesis using True b by (auto simp: w'_def)
  next
    case False
    then show ?thesis using scan live check by (simp add: rtcan_raw_bind_def)
  qed
qed

lemma so_flist_not_empty: "so_flist user so mem = Inr fl \<Longrightarrow> fl \<noteq> Flist []"
  by (auto simp: so_flist_def Let_def split: if_splits)

lemma replace_flist_ok:
  "flist (socks w s) \<noteq> RTCAN_FLIST_NO_FILTER \<or> fl = RTCAN_FLIST_NO_FILTER \<Longrightarrow>
    replace_flist w s fl = Inr (upd_sock s (\<lambda>sock. sock\<lparr>flist := fl\<rparr>) w)"
  by (auto simp: replace_flist_def rtcan_flist_no_filter_def)

text \<open>Setting the filter list of a socket, bound or not.\<close>

lemma set_filter_effect:
  assumes inv: "can_inv w" and s: "s \<in> set (rtcan_socket_list w)" and fl: "fl \<noteq> Flist []"
    and old: "flist (socks w s) \<noteq> RTCAN_FLIST_NO_FILTER \<or> fl = RTCAN_FLIST_NO_FILTER"
  shows "if \<not> rtcan_sock_is_bound (socks w s) \<or> room_for w s (sock_ifindex (socks w s)) fl
    then \<exists>w'. set_filter w s fl = Inr (Inr 0, w') \<and> can_inv w' \<and> flist (socks w' s) = fl \<and>
      rtcan_socket_list w' = rtcan_socket_list w \<and>
      bindings_of w' = (if rtcan_sock_is_bound (socks w s)
        then (bindings_of w)(s := (sock_ifindex (socks w s), mounted_flist fl)) else bindings_of w)
    else set_filter w s fl = Inr (Inl ENOSPC, w)"
proof (cases "rtcan_sock_is_bound (socks w s)")
  case False
  define w' where "w' = upd_sock s (\<lambda>sock. sock\<lparr>flist := fl\<rparr>) w"
  have res: "set_filter w s fl = Inr (Inr 0, w')"
    using False replace_flist_ok [OF old] by (simp add: set_filter_def w'_def Let_def)
  have b: "bindings_of w' s = bindings_of w s" "sock_ok (socks w' s)"
    using False inv s fl
    by (auto simp: w'_def bindings_of_def rtcan_sock_is_bound_def can_inv_def sock_ok_def)
  have "can_inv w'" "bindings_of w' = (bindings_of w)(s := bindings_of w' s)"
    by (rule can_inv_update [OF inv s]; use b inv in \<open>simp add: w'_def can_inv_def\<close>)+
  then show ?thesis using False res b(1) by (auto simp: w'_def)
next
  case True
  let ?i = "sock_ifindex (socks w s)"
  note check = check_filter_room [OF inv s fl, of ?i]
  show ?thesis
  proof (cases "room_for w s ?i fl")
    case room: True
    obtain f g where fg: "rtcan_raw_remove_filter w s = Inr (w\<lparr>devs := f\<rparr>)"
        "rtcan_raw_add_filter (upd_sock s (\<lambda>sock. sock\<lparr>flist := fl\<rparr>) (w\<lparr>devs := f\<rparr>)) s ?i =
          Inr (int (length (mounted_flist fl)), upd_sock s (\<lambda>sock. sock\<lparr>flist := fl\<rparr>) (w\<lparr>devs := g\<rparr>))"
        "filters_for (w\<lparr>devs := g\<rparr>) ((bindings_of w)(s := (?i, mounted_flist fl)))"
      using remount_ok [OF inv s room] by blast
    define w' where "w' = upd_sock s (\<lambda>sock. sock\<lparr>flistlen := int (length (mounted_flist fl))\<rparr>)
      (upd_sock s (\<lambda>sock. sock\<lparr>flist := fl\<rparr>) (w\<lparr>devs := g\<rparr>))"
    have b: "bindings_of w' s = (?i, mounted_flist fl)"
      using s by (simp add: w'_def bindings_of_def rtcan_sock_is_bound_def)
    have "set_filter w s fl = Inr (Inr 0, w')"
      using fg True room check old replace_flist_ok [of "w\<lparr>devs := f\<rparr>" s fl]
      by (simp add: set_filter_def w'_def Let_def)
    moreover have "can_inv w'" "bindings_of w' = (bindings_of w)(s := bindings_of w' s)"
      by (rule can_inv_update [OF inv s];
          use fg(3) b fl in \<open>simp add: w'_def sock_ok_def rtcan_sock_is_bound_def\<close>)+
    ultimately show ?thesis using True room b by (auto simp: w'_def)
  next
    case False
    then have "fl \<noteq> RTCAN_FLIST_NO_FILTER"
      using check by (auto simp: rtcan_raw_check_filter_def rtcan_flist_no_filter_def)
    then show ?thesis using False True check by (simp add: set_filter_def rtcan_flist_no_filter_def)
  qed
qed

lemma wake_senders_eq [simp]: "wake_senders woken ts = woken @ ts"
  by (induction woken ts rule: wake_senders.induct) simp_all

lemma close_effect:
  assumes inv: "can_inv w" and s: "s \<in> set (rtcan_socket_list w)"
  shows "\<exists>w'. rtcan_raw_close w s = Inr (Inr 0, tx_wait_head (socks w s), w') \<and> can_inv w' \<and>
    rtcan_socket_list w' = remove1 s (rtcan_socket_list w) \<and> sem_destroy (recv_sem (socks w' s)) \<and>
    bindings_of w' = (bindings_of w)(s := (0, []))"
proof -
  have ok: "sock_ok (socks w s)" and filt: "filters_for w (bindings_of w)"
    and dist: "distinct (rtcan_socket_list w)" using inv s by (auto simp: can_inv_def)
  obtain f where f: "rtcan_raw_remove_filter w s = Inr (w\<lparr>devs := f\<rparr>)"
      "filters_for (w\<lparr>devs := f\<rparr>) ((bindings_of w)(s := (0, [])))"
    using remove_filter_ok [where s = s, OF filt bindings_sock [OF ok s]] by blast
  define w1 where "w1 = (if rtcan_sock_is_bound (socks w s)
    then upd_sock s (\<lambda>sock. sock\<lparr>flist := FlistNull, flistlen := RTCAN_SOCK_UNBOUND, sock_ifindex := 0\<rparr>)
      (w\<lparr>devs := f\<rparr>) else w)"
  define w' where "w' = snd (rtcan_socket_cleanup w1 s)"
  have frame: "rtcan_socket_list w' = remove1 s (rtcan_socket_list w)" "\<And>t. t \<noteq> s \<Longrightarrow> socks w' t = socks w t"
    by (simp_all add: w'_def w1_def rtcan_socket_cleanup_def)
  have b: "bindings_of w' = (bindings_of w)(s := (0, []))"
    using frame dist by (auto simp: bindings_of_def fun_eq_iff)
  have "\<not> rtcan_sock_is_bound (socks w s) \<Longrightarrow> (bindings_of w)(s := (0, [])) = bindings_of w"
    by (auto simp: bindings_of_def fun_eq_iff)
  then have "filters_for w1 ((bindings_of w)(s := (0, [])))" using f(2) filt by (simp add: w1_def)
  then have "filters_for w' (bindings_of w')" unfolding b by (simp add: w'_def rtcan_socket_cleanup_def)
  then have "can_inv w'" using inv frame dist by (auto simp: can_inv_def)
  moreover have "rtcan_raw_close w s = Inr (Inr 0, tx_wait_head (socks w s), w')"
    using f(1) by (simp add: rtcan_raw_close_def rtcan_raw_unbind_def w'_def w1_def rtcan_socket_cleanup_def)
  moreover have "sem_destroy (recv_sem (socks w' s))"
    by (simp add: w'_def rtcan_socket_cleanup_def rtdm_sem_destroy_def)
  ultimately show ?thesis using b frame(1) by blast
qed

lemma socket_effect:
  assumes inv: "can_inv w" and s: "s \<notin> set (rtcan_socket_list w)"
  shows "can_inv (rtcan_socket_init w s)" "bindings_of (rtcan_socket_init w s) = bindings_of w"
proof -
  show b: "bindings_of (rtcan_socket_init w s) = bindings_of w"
    using s by (auto simp: rtcan_socket_init_def bindings_of_def fun_eq_iff rtcan_sock_is_bound_def RTCAN_SOCK_UNBOUND_def)
  have "filters_for (rtcan_socket_init w s) (bindings_of w)"
    using inv by (simp add: rtcan_socket_init_def can_inv_def)
  then show "can_inv (rtcan_socket_init w s)"
    using inv s unfolding can_inv_def b
    by (auto simp: rtcan_socket_init_def sock_ok_def rtcan_sock_is_bound_def RTCAN_SOCK_UNBOUND_def)
qed

lemma setsockopt_effect:
  assumes inv: "can_inv w" and s: "s \<in> set (rtcan_socket_list w)"
    and old: "flist (socks w s) \<noteq> RTCAN_FLIST_NO_FILTER \<or> so_optname so \<noteq> CAN_RAW_FILTER \<or> so_optval so = []"
  shows "\<exists>r w'. rtcan_raw_setsockopt w s user so mem = Inr (r, w') \<and> can_inv w'"
proof (cases "so_level so = SOL_CAN_RAW \<and> so_optname so = CAN_RAW_FILTER")
  case True
  show ?thesis
  proof (cases "so_flist user so mem")
    case (Inr fl)
    then have "flist (socks w s) \<noteq> RTCAN_FLIST_NO_FILTER \<or> fl = RTCAN_FLIST_NO_FILTER"
      using old True by (auto simp: so_flist_def)
    from set_filter_effect [OF inv s so_flist_not_empty [OF Inr] this]
    have "\<exists>r w'. set_filter w s fl = Inr (r, w') \<and> can_inv w'"
      using inv by (auto split: if_splits)
    then show ?thesis using True Inr by (simp add: rtcan_raw_setsockopt_def)
  qed (use True inv in \<open>simp add: rtcan_raw_setsockopt_def\<close>)
next
  case False
  have "can_inv (upd_sock s g w)" if "\<And>sk. flist (g sk) = flist sk \<and> flistlen (g sk) = flistlen sk \<and>
      sock_ifindex (g sk) = sock_ifindex sk" for g
  proof -
    have "bindings_of (upd_sock s g w) = bindings_of w"
      using that by (auto simp: bindings_of_def fun_eq_iff rtcan_sock_is_bound_def)
    then show ?thesis
      using inv that by (auto simp: can_inv_def sock_ok_def rtcan_sock_is_bound_def)
  qed
  then show ?thesis using False inv by (auto simp: rtcan_raw_setsockopt_def)
qed

section \<open>Sequences of socket operations\<close>

inductive sock_step :: "'z can_world_scheme \<Rightarrow> 'z can_world_scheme \<Rightarrow> bool" where
  step_socket: "s \<notin> set (rtcan_socket_list w) \<Longrightarrow> rtcan_raw_socket w s protocol = (r, w') \<Longrightarrow> sock_step w w'"
| step_bind: "s \<in> set (rtcan_socket_list w) \<Longrightarrow> rtcan_raw_bind w s scan = Inr (r, w') \<Longrightarrow> sock_step w w'"
| step_setsockopt: "s \<in> set (rtcan_socket_list w) \<Longrightarrow>
    flist (socks w s) \<noteq> RTCAN_FLIST_NO_FILTER \<or> so_optname so \<noteq> CAN_RAW_FILTER \<or> so_optval so = [] \<Longrightarrow>
    rtcan_raw_setsockopt w s user so mem = Inr (r, w') \<Longrightarrow> sock_step w w'"
| step_close: "s \<in> set (rtcan_socket_list w) \<Longrightarrow> rtcan_raw_close w s = Inr (r, ts, w') \<Longrightarrow> sock_step w w'"

definition sock_init :: "'z can_world_scheme \<Rightarrow> bool" where
  "sock_init w \<longleftrightarrow> registry_ok w \<and> rtcan_socket_list w = [] \<and>
     (\<forall>d. registered w d \<longrightarrow> (\<exists>avail. dev_lists (devs w d) [] avail))"

lemma bind_total:
  assumes inv: "can_inv w" and s: "s \<in> set (rtcan_socket_list w)"
  shows "\<exists>r w'. rtcan_raw_bind w s scan = Inr (r, w') \<and> can_inv w'"
proof (cases "scan_family scan = AF_CAN \<and> 0 \<le> scan_ifindex scan \<and>
    scan_ifindex scan \<le> int RTCAN_MAX_DEVICES \<and> \<not> bit (context_flags (socks w s)) RTDM_CLOSING")
  case True
  then show ?thesis using bind_effect [OF inv s, of scan] inv by (auto split: if_splits)
next
  case False
  then show ?thesis using inv by (auto simp: rtcan_raw_bind_def)
qed

interpretation sock_life: inductive_invariant sock_init sock_step can_inv
proof
  fix w :: "'a can_world_scheme"
  assume init: "sock_init w"
  then have "bindings_of w = (\<lambda>_. (0, []))" by (auto simp: sock_init_def bindings_of_def)
  moreover have "mounts (\<lambda>_. (0, [])) i = {}" for i by (simp add: mounts_def)
  moreover have "dev_holds dev {}" if "dev_lists dev [] avail" for dev avail
    using that unfolding ft.holds_def by (intro exI [of _ "[]"]) (auto simp: dev_view_def)
  ultimately show "can_inv w" using init by (auto simp: sock_init_def can_inv_def filters_for_def)
next
  fix w w' :: "'a can_world_scheme"
  assume inv: "can_inv w" and "sock_step w w'"
  from this(2) show "can_inv w'"
  proof (cases rule: sock_step.cases)
    case (step_socket s protocol r)
    then show ?thesis
      using inv socket_effect(1) [OF inv step_socket(1)] by (auto simp: rtcan_raw_socket_def split: if_splits)
  next
    case (step_bind s scan r)
    then show ?thesis using bind_total [OF inv, of s scan] by auto
  next
    case (step_setsockopt s so user mem r)
    then show ?thesis using setsockopt_effect [OF inv step_setsockopt(1,2), of user mem] by auto
  next
    case (step_close s r ts)
    then show ?thesis using close_effect [OF inv step_close(1)] by auto
  qed
qed

section \<open>Properties\<close>


text \<open>C4: Binding a socket is exact: with a valid address it succeeds if and only if every registered
  device of the range has room for the socket's filters once its old ones there are released; then
  the reception lists of all devices hold the old blocks of the other sockets and the new block of
  this one, and otherwise \<open>-ENOSPC\<close> is returned and nothing has changed.\<close>

theorem bind_exact:
  assumes "can_inv w" "s \<in> set (rtcan_socket_list w)" "scan_family scan = AF_CAN"
    "0 \<le> scan_ifindex scan" "scan_ifindex scan \<le> int RTCAN_MAX_DEVICES"
    "\<not> bit (context_flags (socks w s)) RTDM_CLOSING"
  shows "if room_for w s (scan_ifindex scan) (flist (socks w s))
    then \<exists>w'. rtcan_raw_bind w s scan = Inr (Inr 0, w') \<and> can_inv w' \<and>
      bindings_of w' = (bindings_of w)(s := (scan_ifindex scan, mounted_flist (flist (socks w s))))
    else rtcan_raw_bind w s scan = Inr (Inl ENOSPC, w)"
  using bind_effect [OF assms] by (auto split: if_splits)

text \<open>C6: Closing a socket takes exactly its filters out of the reception lists of all devices, wakes
  every sender that sleeps on it, destroys its semaphore and takes it off the list of sockets.\<close>

theorem close_releases:
  assumes "can_inv w" "s \<in> set (rtcan_socket_list w)"
  shows "\<exists>w'. rtcan_raw_close w s = Inr (Inr 0, tx_wait_head (socks w s), w') \<and> can_inv w' \<and>
    bindings_of w' = (bindings_of w)(s := (0, [])) \<and> s \<notin> set (rtcan_socket_list w') \<and>
    sem_destroy (recv_sem (socks w' s))"
proof -
  have "distinct (rtcan_socket_list w)" using assms(1) by (simp add: can_inv_def)
  then show ?thesis using close_effect [OF assms] by auto
qed


text \<open>A fault of the code: the list to free is chosen by looking at the new list, not at the old
  one. A socket whose filters were switched off with an empty list passes the marker -1 to
  \<open>rtdm_free\<close> when a filter list is set afterwards.\<close>

theorem setsockopt_frees_marker:
  assumes "\<not> rtcan_sock_is_bound (socks w s)" "so_readable so" "length (so_optval so) = 8"
    "so_level so = SOL_CAN_RAW" "so_optname so = CAN_RAW_FILTER"
  shows "\<exists>w1. rtcan_raw_setsockopt w s user (so\<lparr>so_optval := []\<rparr>) True = Inr (Inr 0, w1) \<and>
    rtcan_raw_setsockopt w1 s user so True = Inl BadFree"
  using assms
  by (simp add: rtcan_raw_setsockopt_def so_flist_def set_filter_def replace_flist_def
      rtcan_flist_no_filter_def sizeof_can_filter_def RTCAN_MAX_RECEIVERS_def rtcan_sock_is_bound_def)

section \<open>Witnesses\<close>

definition blank_socket :: rtcan_socket where
  "blank_socket = \<lparr>context_flags = 0, tx_timeout = 0, rx_timeout = 0, recv_head = 0, recv_tail = 0,
     recv_buf = replicate RTCAN_RXBUF_SIZE 0,
     recv_sem = \<lparr>sem_destroy = False, sem_count = 0, sem_sleepers = 0\<rparr>, tx_wait_head = [],
     sock_ifindex = 0, flistlen = - 1, err_mask = 0, rx_buf_full = 0, flist = FlistNull, loopback = 1\<rparr>"

definition one_device :: can_world where
  "one_device = \<lparr>rtcan_devices = [Some 0, None, None, None],
     devs = (\<lambda>_. fresh_device\<lparr>dev_name := ''rtcan0'', dev_ifindex := 1\<rparr>),
     socks = (\<lambda>_. blank_socket), rtcan_socket_list = []\<rparr>"

definition one_socket :: can_world where
  "one_socket = rtcan_socket_init one_device 7"

definition all_interfaces :: sockaddr_can where
  "all_interfaces = \<lparr>scan_family = AF_CAN, scan_ifindex = 0\<rparr>"

definition one_filter :: setsockopt_args where
  "one_filter = \<lparr>so_level = SOL_CAN_RAW, so_optname = CAN_RAW_FILTER,
     so_optval = [0x23, 1, 0, 0, 0xFF, 7, 0, 0], so_readable = True\<rparr>"

lemma one_device_init: "sock_init one_device"
proof -
  have "dev_lists (fresh_device\<lparr>dev_name := n, dev_ifindex := k\<rparr>) [] [0..<RTCAN_MAX_RECEIVERS]" for n k
    using fresh_device_lists by (simp add: dev_lists_def)
  then show ?thesis
    by (auto simp: sock_init_def registry_ok_def one_device_def registered_def RTCAN_MAX_DEVICES_def
        nth_Cons inj_on_def split: nat.splits)
qed

lemma one_socket_reach: "reach sock_init sock_step one_socket" "7 \<in> set (rtcan_socket_list one_socket)"
proof -
  have "sock_step one_device one_socket"
    by (rule step_socket [of 7 _ 0 "Inr 0"])
      (simp_all add: rtcan_raw_socket_def one_socket_def one_device_def)
  then show "reach sock_init sock_step one_socket"
    using one_device_init reach_init reach_step by metis
  show "7 \<in> set (rtcan_socket_list one_socket)" by (simp add: one_socket_def rtcan_socket_init_def)
qed

lemmas one_socket_inv = sock_life.reach_inv [OF one_socket_reach(1)]

lemma one_socket_room: "room_for one_socket 7 0 FlistNull"
  by (auto simp: room_for_def one_socket_def rtcan_socket_init_def one_device_def fresh_device_def
      mounted_flist_def flist_filters_def mounted_def mounted_len_def registered_def RTCAN_MAX_RECEIVERS_def)

lemma one_socket_state: "flist (socks one_socket 7) = FlistNull" "context_flags (socks one_socket 7) = 0"
    "\<not> rtcan_sock_is_bound (socks one_socket 7)"
  by (simp_all add: one_socket_def rtcan_socket_init_def one_device_def blank_socket_def
      rtcan_sock_is_bound_def RTCAN_SOCK_UNBOUND_def)


theorem bind_exact_witness:
  "\<exists>w'. rtcan_raw_bind one_socket 7 all_interfaces = Inr (Inr 0, w') \<and> can_inv w' \<and>
     bindings_of w' 7 = (0, [zero_filter])"
proof -
  have "mounted_flist FlistNull = [zero_filter]"
    by (simp add: mounted_flist_def flist_filters_def mounted_def)
  then show ?thesis
    using bind_exact [OF one_socket_inv one_socket_reach(2), of all_interfaces] one_socket_room
    by (auto simp: all_interfaces_def one_socket_state RTCAN_MAX_DEVICES_def)
qed

theorem close_releases_witness:
  "\<exists>w'. rtcan_raw_close one_socket 7 = Inr (Inr 0, [], w') \<and> 7 \<notin> set (rtcan_socket_list w')"
  using close_releases [OF one_socket_inv one_socket_reach(2)]
  by (auto simp: one_socket_def rtcan_socket_init_def)

definition bound_socket :: can_world where
  "bound_socket = (case rtcan_raw_bind one_socket 7 all_interfaces of Inr (r, w) \<Rightarrow> w | Inl _ \<Rightarrow> one_socket)"

theorem setsockopt_frees_marker_witness:
  "\<exists>w1. rtcan_raw_setsockopt one_socket 7 True (one_filter\<lparr>so_optval := []\<rparr>) True = Inr (Inr 0, w1) \<and>
     rtcan_raw_setsockopt w1 7 True one_filter True = Inl BadFree"
  by (rule setsockopt_frees_marker [OF one_socket_state(3)]) (simp_all add: one_filter_def)

lemma bound_socket_reach: "reach sock_init sock_step bound_socket" "7 \<in> set (rtcan_socket_list bound_socket)"
    "rtcan_socket_list bound_socket = [7]"
    "socks bound_socket = (socks one_socket)(7 := (socks one_socket 7)\<lparr>flistlen := 1, sock_ifindex := 0\<rparr>)"
proof -
  obtain w' where w': "rtcan_raw_bind one_socket 7 all_interfaces = Inr (Inr 0, w')"
      "rtcan_socket_list w' = rtcan_socket_list one_socket"
      "socks w' = (socks one_socket)(7 := (socks one_socket 7)\<lparr>flistlen := 1, sock_ifindex := 0\<rparr>)"
    using bind_effect [OF one_socket_inv one_socket_reach(2), of all_interfaces] one_socket_room
    by (auto simp: all_interfaces_def one_socket_state RTCAN_MAX_DEVICES_def mounted_flist_def
        flist_filters_def mounted_def)
  then show "reach sock_init sock_step bound_socket" "7 \<in> set (rtcan_socket_list bound_socket)"
      "rtcan_socket_list bound_socket = [7]"
      "socks bound_socket = (socks one_socket)(7 := (socks one_socket 7)\<lparr>flistlen := 1, sock_ifindex := 0\<rparr>)"
    using reach_step [OF one_socket_reach(1) step_bind [OF one_socket_reach(2) w'(1)]] one_socket_reach(2)
    by (simp_all add: bound_socket_def one_socket_def rtcan_socket_init_def one_device_def)
qed

lemma bound_socket_state:
  "rtcan_sock_is_bound (socks bound_socket 7)" "flist (socks bound_socket 7) = FlistNull"
  "sock_ifindex (socks bound_socket 7) = 0" "free_entries (devs bound_socket 0) = 15"
  "rtcan_devices bound_socket = [Some 0, None, None, None]"
  by code_simp+


text \<open>C37: A fault of the code: registering a device while a socket is bound to all interfaces mounts
  nothing on the new device, but closing the socket looks for its entries there. The search runs off
  the end of the new device's empty reception list.\<close>

theorem late_device_close_faults:
  assumes empty_table: "rtcan_devices w = replicate RTCAN_MAX_DEVICES None"
    and bound: "rtcan_sock_has_filter (socks w s)" "sock_ifindex (socks w s) = 0"
    and new: "recv_list (devs w d) = None" "rtcan_dev_register w d = (Inr 0, w')"
  shows "rtcan_raw_close w' s = Inl NullDeref"
proof -
  have t: "rtcan_devices w = [None, None, None, None]"
    using empty_table by (simp add: RTCAN_MAX_DEVICES_def eval_nat_numeral)
  have w': "rtcan_devices w' = [Some d, None, None, None]" "recv_list (devs w' d) = None" "socks w' = socks w"
    using new t
    by (auto simp: rtcan_dev_register_def rtcan_dev_new_index_def rtcan_dev_alloc_name_def alloc_name_loop_eq Let_def
        split: if_splits option.splits)
  have "bind_range 0 = 1 # map int [2..<RTCAN_MAX_DEVICES + 1]"
    by (simp add: bind_range_def RTCAN_MAX_DEVICES_def upt_rec)
  moreover have "rtcan_dev_get_by_index w' 1 = (Some d, rtcan_dev_reference d w')"
    using w'(1) by (simp add: rtcan_dev_get_by_index_def RTCAN_MAX_DEVICES_def)
  ultimately show ?thesis
    using bound w'(2,3)
    by (simp add: rtcan_raw_close_def rtcan_raw_unbind_def rtcan_raw_remove_filter_def
        rtcan_sock_is_bound_def rtcan_sock_has_filter_def remove_filter_dev_def rtcan_dev_reference_def
        recv_ptr_def)
qed

definition no_device :: can_world where
  "no_device = one_device\<lparr>rtcan_devices := replicate RTCAN_MAX_DEVICES None\<rparr>"

definition bound_to_none :: can_world where
  "bound_to_none = (case rtcan_raw_bind (rtcan_socket_init no_device 7) 7 all_interfaces of
     Inr (r, w) \<Rightarrow> w | Inl _ \<Rightarrow> no_device)"

lemma bound_to_none_state:
  "rtcan_devices bound_to_none = replicate RTCAN_MAX_DEVICES None"
  "rtcan_sock_has_filter (socks bound_to_none 7)" "sock_ifindex (socks bound_to_none 7) = 0"
  "recv_list (devs bound_to_none 0) = None" "fst (rtcan_dev_register bound_to_none 0) = Inr 0"
  by code_simp+

theorem late_device_close_faults_witness:
  "rtcan_raw_close (snd (rtcan_dev_register bound_to_none 0)) 7 = Inl NullDeref"
  by (rule late_device_close_faults [OF bound_to_none_state(1-4)])
    (simp add: prod_eq_iff bound_to_none_state(5))

end
