(* ===== verification/Can_Data.thy ===== *)
theory Can_Data
  imports Can_Bind
begin

text \<open>
  The data path of RT-Socket-CAN (\<open>rtcan_raw.c\<close>): filtering and delivery of received frames into the
  receive rings of the sockets, loopback of sent frames, \<open>recvmsg\<close> and \<open>sendmsg\<close>. The abstraction
  \<open>ring_holds\<close> reads a socket's ring as a queue of encoded frames; delivery appends to it,
  \<open>recvmsg\<close> takes from its front, and the receive semaphore counts it.
\<close>

section \<open>Reception\<close>

definition rtcan_accept_msg :: "u32 \<Rightarrow> can_filter \<Rightarrow> bool" where
  "rtcan_accept_msg can_id f =
     (if flt_can_mask f AND CAN_INV_FILTER \<noteq> 0
      then can_id AND flt_can_mask f \<noteq> flt_can_id f
      else can_id AND flt_can_mask f = flt_can_id f)"

definition wants_timestamp :: "rtcan_socket \<Rightarrow> bool" where
  "wants_timestamp sock = bit (context_flags sock) RTCAN_GET_TIMESTAMP"

definition rtcan_rcv_deliver :: "rtcan_socket \<Rightarrow> rtcan_skb \<Rightarrow> (rtcan_socket \<times> rtcan_skb) kres" where
  "rtcan_rcv_deliver sock skb =
     (let ts = wants_timestamp sock;
          cpy_size = rb_frame_size skb + (if ts then RTCAN_TIMESTAMP_SIZE else 0);
          dlc = rb_can_dlc (rb_frame skb);
          frame = set_rb_can_dlc
            (if ts then dlc OR RTCAN_HAS_TIMESTAMP else dlc AND RTCAN_HAS_NO_TIMESTAMP) (rb_frame skb);
          skb' = skb\<lparr>rb_frame := frame\<rparr>;
          diff = int (recv_head sock) - int (recv_tail sock);
          size_free = (if diff \<le> 0 then diff + int RTCAN_RXBUF_SIZE else diff)
      in if size_free > int cpy_size then
           if cpy_size > length frame then Inl OutOfBounds
           else Inr (sock\<lparr>
              recv_buf := ring_copy_in RTCAN_RXBUF_SIZE (recv_buf sock) (recv_tail sock) (take cpy_size frame),
              recv_tail := ring_advance RTCAN_RXBUF_SIZE (recv_tail sock) cpy_size,
              recv_sem := rtdm_sem_up (recv_sem sock)\<rparr>, skb')
         else Inr (sock\<lparr>rx_buf_full := rx_buf_full sock + 1\<rparr>, skb'))"

text \<open>
  The walk through the reception list. \<open>matches\<close> is the test of the loop; a listener without socket
  faults where the code dereferences it. As in the search for a socket's entries, more than 16
  rounds are an endless loop.
\<close>

fun rcv_listeners ::
    "nat \<Rightarrow> ('z can_world_scheme \<Rightarrow> rtcan_skb \<Rightarrow> rtcan_recv \<Rightarrow> bool kres) \<Rightarrow> (rtcan_device \<Rightarrow> rtcan_device)
      \<Rightarrow> 'z can_world_scheme \<Rightarrow> nat \<Rightarrow> rtcan_skb \<Rightarrow> nat option \<Rightarrow> ('z can_world_scheme \<times> rtcan_skb) kres" where
  "rcv_listeners n matches visit w d skb None = Inr (w, skb)"
| "rcv_listeners 0 matches visit w d skb (Some i) = Inl Diverges"
| "rcv_listeners (Suc n) matches visit w d skb (Some i) =
     kbind (recv_ptr (receivers (devs w d)) (Some i)) (\<lambda>i.
     let w1 = upd_dev d visit w; r = receivers (devs w1 d) ! i in
     kbind (matches w1 skb r) (\<lambda>m.
       if m then
         (case recv_sock r of
            None \<Rightarrow> Inl NullDeref
          | Some s \<Rightarrow>
              kbind (rtcan_rcv_deliver (socks w1 s) skb) (\<lambda>(sock, skb').
              rcv_listeners n matches visit
                (upd_sock s (\<lambda>_. sock) (upd_dev d (\<lambda>dev. dev\<lparr>receivers :=
                   (receivers dev)[i := r\<lparr>match_count := match_count r + 1\<rparr>]\<rparr>) w1))
                d skb' (next_recv r)))
       else rcv_listeners n matches visit w1 d skb (next_recv r)))"

definition match_error :: "'z can_world_scheme \<Rightarrow> rtcan_skb \<Rightarrow> rtcan_recv \<Rightarrow> bool kres" where
  "match_error w skb r =
     (case recv_sock r of None \<Rightarrow> Inl NullDeref
      | Some s \<Rightarrow> Inr (rb_can_id (rb_frame skb) AND err_mask (socks w s) \<noteq> 0))"

definition match_data :: "'z can_world_scheme \<Rightarrow> rtcan_skb \<Rightarrow> rtcan_recv \<Rightarrow> bool kres" where
  "match_data w skb r = Inr (rtcan_accept_msg (rb_can_id (rb_frame skb)) (can_filter_of r))"

definition rtcan_rcv ::
    "'z can_world_scheme \<Rightarrow> nat \<Rightarrow> rtcan_skb \<Rightarrow> u64 \<Rightarrow> ('z can_world_scheme \<times> rtcan_skb) kres" where
  "rtcan_rcv w d skb timestamp =
     kbind (rb_memcpy (rb_frame skb) (rb_frame_size skb) (u64_bytes timestamp)) (\<lambda>frame.
     let skb1 = skb\<lparr>rb_frame := frame\<rparr>; hd_listener = recv_list (devs w d) in
     if rb_can_id frame AND CAN_ERR_FLAG \<noteq> 0 then
       rcv_listeners RTCAN_MAX_RECEIVERS match_error id
         (upd_dev d (\<lambda>dev. dev\<lparr>err_count := err_count dev + 1\<rparr>) w) d skb1 hd_listener
     else
       rcv_listeners RTCAN_MAX_RECEIVERS match_data id
         (upd_dev d (\<lambda>dev. dev\<lparr>rx_count := rx_count dev + 1\<rparr>) w) d skb1 hd_listener)"

section \<open>Loopback of sent frames\<close>

text \<open>The copy reads \<open>can_dlc\<close> bytes of the 8-byte array \<open>frame->data\<close>.\<close>

definition rtcan_tx_push :: "'z can_world_scheme \<Rightarrow> nat \<Rightarrow> nat \<Rightarrow> can_frame \<Rightarrow> 'z can_world_scheme kres" where
  "rtcan_tx_push w d s frame =
     (let dev = devs w d;
          rb1 = set_rb_can_dlc (frm_can_dlc frame) (set_rb_can_id (frm_can_id frame) (rb_frame (tx_skb dev)));
          dlc = unat (frm_can_dlc frame);
          copy = (dlc \<noteq> 0 \<and> frm_can_id frame AND CAN_RTR_FLAG = 0)
      in if copy \<and> dlc > length (frm_data frame) then Inl OutOfBounds
         else
           let rb2 = (if copy then memcpy_at rb1 6 (take dlc (frm_data frame)) else rb1);
               rb3 = set_rb_can_ifindex (of_nat (dev_ifindex dev)) rb2
           in Inr (upd_dev d (\<lambda>dev. dev\<lparr>tx_skb := \<lparr>rb_frame_size = EMPTY_RB_FRAME_SIZE + (if copy then dlc else 0),
                 rb_frame = rb3\<rparr>, tx_socket := Some s\<rparr>) w))"

definition match_loopback :: "nat option \<Rightarrow> 'z can_world_scheme \<Rightarrow> rtcan_skb \<Rightarrow> rtcan_recv \<Rightarrow> bool kres" where
  "match_loopback sender w skb r =
     Inr (sender \<noteq> recv_sock r \<and> rtcan_accept_msg (rb_can_id (rb_frame skb)) (can_filter_of r))"

definition rtcan_loopback :: "'z can_world_scheme \<Rightarrow> nat \<Rightarrow> u64 \<Rightarrow> 'z can_world_scheme kres" where
  "rtcan_loopback w d timestamp =
     (let skb = tx_skb (devs w d) in
      kbind (rb_memcpy (rb_frame skb) (rb_frame_size skb) (u64_bytes timestamp)) (\<lambda>frame.
      kbind (rcv_listeners RTCAN_MAX_RECEIVERS (match_loopback (tx_socket (devs w d)))
               (\<lambda>dev. dev\<lparr>rx_count := rx_count dev + 1\<rparr>) w d (skb\<lparr>rb_frame := frame\<rparr>) (recv_list (devs w d)))
        (\<lambda>(w', skb'). Inr (upd_dev d (\<lambda>dev. dev\<lparr>tx_skb := skb', tx_socket := None\<rparr>) w'))))"

section \<open>Receiving a message\<close>

definition MSG_OOB :: u32 where "MSG_OOB = 0x1"
definition MSG_PEEK :: u32 where "MSG_PEEK = 0x2"
definition MSG_DONTWAIT :: u32 where "MSG_DONTWAIT = 0x40"

text \<open>
  A message header as the kernel sees it: which of the pointers are null, and the lengths.
  \<open>mh_frame\<close> and \<open>mh_name\<close> are the memory behind \<open>iov_base\<close> and \<open>msg_name\<close> (for sending).
\<close>

record msghdr =
  mh_name :: "sockaddr_can option"
  mh_namelen :: nat
  mh_iovlen :: nat
  mh_iov_len :: nat
  mh_frame :: can_frame
  mh_readable :: bool
  mh_control :: bool
  mh_controllen :: nat

text \<open>What a successful call copies back to the caller.\<close>

record received =
  rcv_frame :: can_frame
  rcv_name :: "sockaddr_can option"
  rcv_timestamp :: "u64 option"
  rcv_controllen :: nat

text \<open>\<open>MEMCPY_FROM_RING_BUF\<close>: the bytes copied and the new index.\<close>

definition MEMCPY_FROM_RING_BUF :: "u8 list \<Rightarrow> nat \<Rightarrow> nat \<Rightarrow> u8 list \<times> nat" where
  "MEMCPY_FROM_RING_BUF buf index len =
     (ring_copy_out RTCAN_RXBUF_SIZE buf index len, ring_advance RTCAN_RXBUF_SIZE index len)"

text \<open>The part between taking and releasing \<open>rtcan_socket_lock\<close>.\<close>

definition fetch_frame :: "rtcan_socket \<Rightarrow> bool \<Rightarrow> can_frame \<times> u8 \<times> u8 \<times> u64 \<times> nat" where
  "fetch_frame sock want_ts =
     (let buf = recv_buf sock;
          (idb, i1) = MEMCPY_FROM_RING_BUF buf (recv_head sock) 4;
          can_id = bytes_u32 idb;
          ifindex = buf ! i1;
          i2 = ring_advance RTCAN_RXBUF_SIZE i1 1;
          can_dlc = buf ! i2;
          i3 = ring_advance RTCAN_RXBUF_SIZE i2 1;
          dlc = can_dlc AND RTCAN_HAS_NO_TIMESTAMP;
          payload_size = (if dlc > 8 then 8 else unat dlc);
          (dat, i4) = (if can_id AND CAN_RTR_FLAG = 0 \<and> payload_size \<noteq> 0
             then MEMCPY_FROM_RING_BUF buf i3 payload_size else ([], i3));
          (ts, i5) = (if want_ts \<and> can_dlc AND RTCAN_HAS_TIMESTAMP \<noteq> 0
             then (let (b, i) = MEMCPY_FROM_RING_BUF buf i4 RTCAN_TIMESTAMP_SIZE in (bytes_u64 b, i))
             else (0, i4))
      in (\<lparr>frm_can_id = can_id, frm_can_dlc = dlc, frm_data = memcpy_at (replicate 8 0) 0 dat\<rparr>,
          ifindex, can_dlc, ts, i5))"

fun enable_bus_err_loop ::
    "(nat \<Rightarrow> 'z can_world_scheme can_ops) \<Rightarrow> 'z can_world_scheme \<Rightarrow> int list \<Rightarrow> 'z can_world_scheme" where
  "enable_bus_err_loop ops w [] = w"
| "enable_bus_err_loop ops w (i # is) =
     (case rtcan_dev_get_by_index w i of
        (None, w1) \<Rightarrow> enable_bus_err_loop ops w1 is
      | (Some d, w1) \<Rightarrow>
          let w2 = (case do_enable_bus_err (ops d) of Some f \<Rightarrow> f d w1 | None \<Rightarrow> w1)
          in enable_bus_err_loop ops (rtcan_dev_dereference d w2) is)"

definition rtcan_raw_enable_bus_err ::
    "(nat \<Rightarrow> 'z can_world_scheme can_ops) \<Rightarrow> 'z can_world_scheme \<Rightarrow> nat \<Rightarrow> 'z can_world_scheme" where
  "rtcan_raw_enable_bus_err ops w s =
     (if err_mask (socks w s) AND CAN_ERR_BUSERROR \<noteq> 0
      then enable_bus_err_loop ops w (bind_range (sock_ifindex (socks w s))) else w)"

definition recv_sem_of :: "nat \<Rightarrow> 'z can_world_scheme \<Rightarrow> rtdm_sem" where
  "recv_sem_of s w = recv_sem (socks w s)"

definition upd_recv_sem :: "nat \<Rightarrow> (rtdm_sem \<Rightarrow> rtdm_sem) \<Rightarrow> 'z can_world_scheme \<Rightarrow> 'z can_world_scheme" where
  "upd_recv_sem s f = upd_sock s (\<lambda>sock. sock\<lparr>recv_sem := f (recv_sem sock)\<rparr>)"

text \<open>\<open>None\<close>: the call is still asleep. The result is the error, or the message received.\<close>

definition rtcan_raw_recvmsg ::
    "(nat \<Rightarrow> 'z can_world_scheme can_ops) \<Rightarrow> 'z can_world_scheme \<Rightarrow> nat \<Rightarrow> msghdr \<Rightarrow> u32
      \<Rightarrow> 'z can_world_scheme wakeup \<Rightarrow> 'z can_world_scheme wakeup list
      \<Rightarrow> ((errno + received) \<times> 'z can_world_scheme) option" where
  "rtcan_raw_recvmsg ops w s msg flags k ks =
     (if flags AND NOT (MSG_DONTWAIT OR MSG_PEEK) \<noteq> 0 then Some (Inl EINVAL, w)
      else if (case mh_name msg of Some _ \<Rightarrow> mh_namelen msg < sizeof_sockaddr_can | None \<Rightarrow> mh_namelen msg \<noteq> 0)
        then Some (Inl EINVAL, w)
      else if mh_iovlen msg \<noteq> 1 then Some (Inl EMSGSIZE, w)
      else if mh_iov_len msg < sizeof_can_frame then Some (Inl EMSGSIZE, w)
      else if (if mh_control msg then mh_controllen msg < RTCAN_TIMESTAMP_SIZE else mh_controllen msg \<noteq> 0)
        then Some (Inl EINVAL, w)
      else
        let w1 = rtcan_raw_enable_bus_err ops w s;
            timeout = (if flags AND MSG_DONTWAIT \<noteq> 0 then RTDM_TIMEOUT_NONE else rx_timeout (socks w1 s))
        in case rtdm_sem_timeddown_in (recv_sem_of s) (upd_recv_sem s) w1 timeout k ks of
             None \<Rightarrow> None
           | Some (Inl e, w2) \<Rightarrow> Some (Inl (if e = EIDRM then EBADF else if e = EWOULDBLOCK then EAGAIN else e), w2)
           | Some (Inr _, w2) \<Rightarrow>
               let (frame, ifindex, can_dlc, ts, index) = fetch_frame (socks w2 s) (mh_controllen msg \<noteq> 0);
                   w3 = (if flags AND MSG_PEEK \<noteq> 0 then upd_recv_sem s rtdm_sem_up w2
                         else upd_sock s (\<lambda>sock. sock\<lparr>recv_head := index\<rparr>) w2);
                   has_ts = (can_dlc AND RTCAN_HAS_TIMESTAMP \<noteq> 0)
               in Some (Inr \<lparr>rcv_frame = frame,
                     rcv_name = (if mh_namelen msg \<noteq> 0
                       then Some \<lparr>scan_family = AF_CAN, scan_ifindex = int (unat ifindex)\<rparr> else None),
                     rcv_timestamp = (if mh_controllen msg \<noteq> 0 \<and> has_ts then Some ts else None),
                     rcv_controllen = (if mh_controllen msg \<noteq> 0 \<and> has_ts then RTCAN_TIMESTAMP_SIZE else 0)\<rparr>, w3))"

section \<open>Sending a message\<close>

definition tx_sem_of :: "nat \<Rightarrow> 'z can_world_scheme \<Rightarrow> rtdm_sem" where
  "tx_sem_of d w = tx_sem (devs w d)"

definition upd_tx_sem :: "nat \<Rightarrow> (rtdm_sem \<Rightarrow> rtdm_sem) \<Rightarrow> 'z can_world_scheme \<Rightarrow> 'z can_world_scheme" where
  "upd_tx_sem d f = upd_dev d (\<lambda>dev. dev\<lparr>tx_sem := f (tx_sem dev)\<rparr>)"

text \<open>The checks in front of the transmission: the error, or the interface and the frame.\<close>

definition sendmsg_args :: "rtcan_socket \<Rightarrow> bool \<Rightarrow> msghdr \<Rightarrow> u32 \<Rightarrow> errno + (int \<times> can_frame)" where
  "sendmsg_args sock user msg flags =
     (if flags AND MSG_OOB \<noteq> 0 then Inl EOPNOTSUPP
      else if flags AND NOT MSG_DONTWAIT \<noteq> 0 then Inl EINVAL
      else if mh_iovlen msg \<noteq> 1 then Inl EMSGSIZE
      else case (case mh_name msg of
             None \<Rightarrow> if mh_namelen msg \<noteq> 0 then Inl EINVAL
               else if sock_ifindex sock = 0 then Inl ENXIO else Inr (sock_ifindex sock)
           | Some scan \<Rightarrow> if mh_namelen msg < sizeof_sockaddr_can then Inl EINVAL
               else if scan_family scan \<noteq> AF_CAN then Inl EINVAL else Inr (scan_ifindex scan)) of
        Inl e \<Rightarrow> Inl e
      | Inr ifindex \<Rightarrow>
          if mh_iov_len msg \<noteq> sizeof_can_frame then Inl EMSGSIZE
          else if user \<and> \<not> mh_readable msg then Inl EFAULT
          else if frm_can_dlc (mh_frame msg) > 15 then Inl EINVAL
          else if frm_can_id (mh_frame msg) AND CAN_EFF_FLAG = 0 \<and>
              frm_can_id (mh_frame msg) AND CAN_EFF_MASK > CAN_SFF_MASK - 16 then Inl EINVAL
          else Inr (ifindex, mh_frame msg))"

text \<open>
  Passing the guard: the task queues at the socket, takes the transmit semaphore, and dequeues
  itself unless \<open>close\<close> has taken it off the queue meanwhile.
\<close>

definition tx_acquire ::
    "'z can_world_scheme \<Rightarrow> nat \<Rightarrow> nat \<Rightarrow> nat \<Rightarrow> int \<Rightarrow> 'z can_world_scheme wakeup
      \<Rightarrow> 'z can_world_scheme wakeup list \<Rightarrow> (cret \<times> 'z can_world_scheme) option" where
  "tx_acquire w s d task timeout k ks =
     (if bit (context_flags (socks w s)) RTDM_CLOSING then Some (Inl EBADF, w)
      else
        let w1 = upd_sock s (\<lambda>sock. sock\<lparr>tx_wait_head := task # tx_wait_head sock\<rparr>) w
        in case rtdm_sem_timeddown_in (tx_sem_of d) (upd_tx_sem d) w1 timeout k ks of
             None \<Rightarrow> None
           | Some (r, w2) \<Rightarrow>
               if task \<in> set (tx_wait_head (socks w2 s))
               then Some (r, upd_sock s (\<lambda>sock. sock\<lparr>tx_wait_head := remove1 task (tx_wait_head sock)\<rparr>) w2)
               else Some (Inl EBADF, w2))"

text \<open>The part after the guard was passed, up to the dereference.\<close>

definition tx_transmit ::
    "(nat \<Rightarrow> 'z can_world_scheme can_ops) \<Rightarrow> 'z can_world_scheme \<Rightarrow> nat \<Rightarrow> nat \<Rightarrow> can_frame
      \<Rightarrow> (cret \<times> 'z can_world_scheme) kres" where
  "tx_transmit ops w s d frame =
     kbind (if loopback (socks w s) \<noteq> 0 then rtcan_tx_push w d s frame else Inr w) (\<lambda>w1.
     if \<not> CAN_STATE_OPERATING (dev_state (devs w1 d)) then
       (if dev_state (devs w1 d) = CAN_STATE_SLEEPING
        then Inr (Inl ECOMM, upd_tx_sem d rtdm_sem_up w1)
        else Inr (Inl ENETDOWN, w1))
     else
       kbind (hard_start_xmit (ops d) d frame (upd_dev d (\<lambda>dev. dev\<lparr>tx_count := tx_count dev + 1\<rparr>) w1))
         (\<lambda>(r, w2). Inr (if r = Inr 0 then Inr (int sizeof_can_frame) else r, w2)))"

definition rtcan_raw_sendmsg ::
    "(nat \<Rightarrow> 'z can_world_scheme can_ops) \<Rightarrow> 'z can_world_scheme \<Rightarrow> nat \<Rightarrow> bool \<Rightarrow> msghdr \<Rightarrow> u32 \<Rightarrow> nat
      \<Rightarrow> 'z can_world_scheme wakeup \<Rightarrow> 'z can_world_scheme wakeup list
      \<Rightarrow> (cret \<times> 'z can_world_scheme) option kres" where
  "rtcan_raw_sendmsg ops w s user msg flags task k ks =
     (case sendmsg_args (socks w s) user msg flags of
        Inl e \<Rightarrow> Inr (Some (Inl e, w))
      | Inr (ifindex, frame) \<Rightarrow>
          (case rtcan_dev_get_by_index w ifindex of
             (None, w1) \<Rightarrow> Inr (Some (Inl ENXIO, w1))
           | (Some d, w1) \<Rightarrow>
               let timeout = (if flags AND MSG_DONTWAIT \<noteq> 0 then RTDM_TIMEOUT_NONE else tx_timeout (socks w1 s))
               in case tx_acquire w1 s d task timeout k ks of
                    None \<Rightarrow> Inr None
                  | Some (Inl e, w2) \<Rightarrow>
                      Inr (Some (Inl (if e = EIDRM then ENETDOWN else if e = EWOULDBLOCK then EAGAIN else e),
                                 rtcan_dev_dereference d w2))
                  | Some (Inr _, w2) \<Rightarrow>
                      kbind (tx_transmit ops w2 s d frame)
                        (\<lambda>(r, w3). Inr (Some (r, rtcan_dev_dereference d w3)))))"

end
