(* ===== verification/Can_Queue.thy ===== *)
theory Can_Queue
  imports Can_Data
begin

text \<open>
  The receive ring of a socket as a queue of messages. \<open>encode\<close> is the byte image of a message,
  \<open>sock_queue\<close> the refinement relation: the used part of the ring is the concatenation of the images
  and the receive semaphore counts them. Delivery appends, \<open>recvmsg\<close> takes from the front.
\<close>

interpretation rxr: pow2_ring RTCAN_RXBUF_SIZE
  by unfold_locales (rule exI [of _ 10], simp add: RTCAN_RXBUF_SIZE_def)

section \<open>Messages and their images\<close>

record can_msg =
  m_id :: u32
  m_ifindex :: u8
  m_dlc :: u8
  m_data :: "u8 list"
  m_ts :: "u64 option"

definition payload_len :: "u32 \<Rightarrow> u8 \<Rightarrow> nat" where
  "payload_len can_id dlc = (if can_id AND CAN_RTR_FLAG = 0 then min 8 (unat dlc) else 0)"

definition wf_msg :: "can_msg \<Rightarrow> bool" where
  "wf_msg m \<longleftrightarrow> m_dlc m AND RTCAN_HAS_NO_TIMESTAMP = m_dlc m \<and> length (m_data m) = payload_len (m_id m) (m_dlc m)"

definition wire_dlc :: "can_msg \<Rightarrow> u8" where
  "wire_dlc m = (if m_ts m = None then m_dlc m else m_dlc m OR RTCAN_HAS_TIMESTAMP)"

definition ts_bytes :: "u64 option \<Rightarrow> u8 list" where
  "ts_bytes t = (case t of None \<Rightarrow> [] | Some v \<Rightarrow> u64_bytes v)"

definition encode :: "can_msg \<Rightarrow> u8 list" where
  "encode m = u32_bytes (m_id m) @ [m_ifindex m] @ [wire_dlc m] @ m_data m @ ts_bytes (m_ts m)"

definition ring_holds :: "rtcan_socket \<Rightarrow> can_msg list \<Rightarrow> bool" where
  "ring_holds sock q \<longleftrightarrow> length (recv_buf sock) = RTCAN_RXBUF_SIZE \<and>
     recv_head sock < RTCAN_RXBUF_SIZE \<and> recv_tail sock < RTCAN_RXBUF_SIZE \<and>
     ring_read RTCAN_RXBUF_SIZE (recv_buf sock) (recv_head sock)
       (ring_used RTCAN_RXBUF_SIZE (recv_head sock) (recv_tail sock)) = concat (map encode q) \<and>
     (\<forall>m \<in> set q. wf_msg m)"

definition sock_queue :: "rtcan_socket \<Rightarrow> can_msg list \<Rightarrow> bool" where
  "sock_queue sock q \<longleftrightarrow> ring_holds sock q \<and> rs.counts (recv_sem sock) q"

lemma flag_bits:
  "(RTCAN_HAS_TIMESTAMP :: u8) = NOT RTCAN_HAS_NO_TIMESTAMP"
  by (simp add: RTCAN_HAS_TIMESTAMP_def RTCAN_HAS_NO_TIMESTAMP_def)

lemma dlc_flag:
  fixes dlc :: u8
  assumes "dlc AND RTCAN_HAS_NO_TIMESTAMP = dlc"
  shows "dlc AND RTCAN_HAS_TIMESTAMP = 0" "(dlc OR RTCAN_HAS_TIMESTAMP) AND RTCAN_HAS_NO_TIMESTAMP = dlc"
    "(dlc OR RTCAN_HAS_TIMESTAMP) AND RTCAN_HAS_TIMESTAMP \<noteq> 0"
proof -
  show "dlc AND RTCAN_HAS_TIMESTAMP = 0"
    unfolding flag_bits by (metis assms and.assoc and.right_neutral and_zero_eq bit.conj_cancel_right)
  show "(dlc OR RTCAN_HAS_TIMESTAMP) AND RTCAN_HAS_NO_TIMESTAMP = dlc"
    unfolding flag_bits using assms by (simp add: bit.conj_disj_distrib2)
  have "(dlc OR RTCAN_HAS_TIMESTAMP) AND RTCAN_HAS_TIMESTAMP = RTCAN_HAS_TIMESTAMP"
    by (simp add: bit.conj_disj_distrib2 bit_eq_iff bit_and_iff bit_or_iff)
  then show "(dlc OR RTCAN_HAS_TIMESTAMP) AND RTCAN_HAS_TIMESTAMP \<noteq> 0"
    by (simp add: RTCAN_HAS_TIMESTAMP_def)
qed

lemma wire_dlc_simps:
  assumes "wf_msg m"
  shows "wire_dlc m AND RTCAN_HAS_NO_TIMESTAMP = m_dlc m"
    "wire_dlc m AND RTCAN_HAS_TIMESTAMP \<noteq> 0 \<longleftrightarrow> m_ts m \<noteq> None"
  using assms dlc_flag [of "m_dlc m"] by (auto simp: wf_msg_def wire_dlc_def)

section \<open>Reading the ring\<close>

text \<open>\<open>at_ring buf i bs\<close>: the bytes bs stand in the ring from index i on.\<close>

definition at_ring :: "u8 list \<Rightarrow> nat \<Rightarrow> u8 list \<Rightarrow> bool" where
  "at_ring buf i bs \<longleftrightarrow> ring_read RTCAN_RXBUF_SIZE buf i (length bs) = bs"

lemma at_ring_append:
  "at_ring buf i (xs @ ys) \<longleftrightarrow> at_ring buf i xs \<and> at_ring buf (ring_advance RTCAN_RXBUF_SIZE i (length xs)) ys"
  by (simp add: at_ring_def ring_read_add rxr.advance_mod)

lemma at_ring_single: "at_ring buf i [b] \<Longrightarrow> i < RTCAN_RXBUF_SIZE \<Longrightarrow> buf ! i = b"
  by (simp add: at_ring_def ring_read_def)

lemma memcpy_from_ring:
  assumes "at_ring buf i bs" "length buf = RTCAN_RXBUF_SIZE" "i < RTCAN_RXBUF_SIZE" "length bs \<le> RTCAN_RXBUF_SIZE"
  shows "MEMCPY_FROM_RING_BUF buf i (length bs) = (bs, ring_advance RTCAN_RXBUF_SIZE i (length bs))"
  using assms rxr.copy_out_read [of buf i "length bs"] by (simp add: MEMCPY_FROM_RING_BUF_def at_ring_def)

lemma advance_advance:
  "ring_advance RTCAN_RXBUF_SIZE (ring_advance RTCAN_RXBUF_SIZE i m) n = ring_advance RTCAN_RXBUF_SIZE i (m + n)"
  by (simp add: rxr.advance_mod mod_add_left_eq add.assoc)

text \<open>
  Fetching the message at the head of the ring. The index advances over the timestamp only where
  the caller wants it.
\<close>

definition padded :: "u8 list \<Rightarrow> u8 list" where
  "padded dat = dat @ replicate (8 - length dat) 0"

lemma fetch_frame_at:
  assumes wf: "wf_msg m" and at: "at_ring (recv_buf sock) (recv_head sock) (encode m)"
    and buf: "length (recv_buf sock) = RTCAN_RXBUF_SIZE" "recv_head sock < RTCAN_RXBUF_SIZE"
  shows "fetch_frame sock want =
    (\<lparr>frm_can_id = m_id m, frm_can_dlc = m_dlc m, frm_data = padded (m_data m)\<rparr>, m_ifindex m, wire_dlc m,
     if want then case m_ts m of Some t \<Rightarrow> t | None \<Rightarrow> 0 else 0,
     ring_advance RTCAN_RXBUF_SIZE (recv_head sock)
       (6 + length (m_data m) + (if want \<and> m_ts m \<noteq> None then 8 else 0)))"
proof -
  let ?b = "recv_buf sock" and ?h = "recv_head sock"
  define i1 where "i1 = ring_advance RTCAN_RXBUF_SIZE ?h 4"
  define i2 where "i2 = ring_advance RTCAN_RXBUF_SIZE i1 1"
  define i3 where "i3 = ring_advance RTCAN_RXBUF_SIZE i2 1"
  define i4 where "i4 = ring_advance RTCAN_RXBUF_SIZE i3 (length (m_data m))"
  have less: "i1 < RTCAN_RXBUF_SIZE" "i2 < RTCAN_RXBUF_SIZE" "i3 < RTCAN_RXBUF_SIZE" "i4 < RTCAN_RXBUF_SIZE"
    by (simp_all add: i1_def i2_def i3_def i4_def rxr.advance_less)
  have parts: "at_ring ?b ?h (u32_bytes (m_id m))" "at_ring ?b i1 [m_ifindex m]" "at_ring ?b i2 [wire_dlc m]"
      "at_ring ?b i3 (m_data m)" "at_ring ?b i4 (ts_bytes (m_ts m))"
    using at unfolding encode_def i1_def i2_def i3_def i4_def
    by (simp_all only: at_ring_append) (simp_all)
  have id: "MEMCPY_FROM_RING_BUF ?b ?h 4 = (u32_bytes (m_id m), i1)"
    using memcpy_from_ring [OF parts(1) buf] by (simp add: i1_def RTCAN_RXBUF_SIZE_def)
  have len: "length (m_data m) = payload_len (m_id m) (m_dlc m)" "length (m_data m) \<le> 8"
    using wf by (auto simp: wf_msg_def payload_len_def)
  have dat: "MEMCPY_FROM_RING_BUF ?b i3 (length (m_data m)) = (m_data m, i4)"
    using memcpy_from_ring [OF parts(4) buf(1) less(3)] len(2) by (simp add: i4_def RTCAN_RXBUF_SIZE_def)
  have "(if m_dlc m > 8 then 8 else unat (m_dlc m)) = min 8 (unat (m_dlc m))"
    by (simp add: min_def word_less_nat_alt not_less)
  then have data: "(if m_id m AND CAN_RTR_FLAG = 0 \<and> (if m_dlc m > 8 then 8 else unat (m_dlc m)) \<noteq> 0
      then MEMCPY_FROM_RING_BUF ?b i3 (if m_dlc m > 8 then 8 else unat (m_dlc m)) else ([], i3)) = (m_data m, i4)"
    using dat len(1) by (auto simp: payload_len_def i4_def rxr.advance_mod less(3))
  have i4: "i4 = ring_advance RTCAN_RXBUF_SIZE ?h (6 + length (m_data m))"
    by (simp add: i1_def i2_def i3_def i4_def advance_advance)
  have ts: "MEMCPY_FROM_RING_BUF ?b i4 RTCAN_TIMESTAMP_SIZE =
      (u64_bytes t, ring_advance RTCAN_RXBUF_SIZE ?h (6 + length (m_data m) + 8))" if "m_ts m = Some t" for t
    using memcpy_from_ring [OF parts(5) buf(1) less(4)] that
    by (simp add: ts_bytes_def RTCAN_TIMESTAMP_SIZE_def RTCAN_RXBUF_SIZE_def)
      (simp add: i4 RTCAN_RXBUF_SIZE_def [symmetric] advance_advance)
  have pad: "memcpy_at (replicate 8 0) 0 (m_data m) = padded (m_data m)"
    using len(2) by (simp add: memcpy_at_def padded_def)
  show ?thesis
    unfolding fetch_frame_def Let_def id prod.case bytes_u32_u32_bytes i1_def [symmetric]
      i2_def [symmetric] i3_def [symmetric] at_ring_single [OF parts(2) less(1)]
      at_ring_single [OF parts(3) less(2)] wire_dlc_simps(1) [OF wf] data pad
    by (cases "m_ts m")
      (auto simp: wire_dlc_simps(2) [OF wf] ts [unfolded i4] i4)
qed

lemma length_encode:
  "length (encode m) = 6 + length (m_data m) + (if m_ts m = None then 0 else 8)"
  by (simp add: encode_def ts_bytes_def split: option.splits)

lemma ring_holds_head:
  assumes "ring_holds sock (m # q)"
  shows "at_ring (recv_buf sock) (recv_head sock) (encode m)" "wf_msg m"
    "length (encode m) \<le> ring_used RTCAN_RXBUF_SIZE (recv_head sock) (recv_tail sock)"
proof -
  let ?u = "ring_used RTCAN_RXBUF_SIZE (recv_head sock) (recv_tail sock)"
  have r: "ring_read RTCAN_RXBUF_SIZE (recv_buf sock) (recv_head sock) ?u = encode m @ concat (map encode q)"
    and wf: "wf_msg m" using assms by (simp_all add: ring_holds_def)
  show le: "length (encode m) \<le> ?u" using arg_cong [OF r, of length] by simp
  show "at_ring (recv_buf sock) (recv_head sock) (encode m)"
    using take_ring_read [OF le, of RTCAN_RXBUF_SIZE "recv_buf sock" "recv_head sock"] by (simp add: at_ring_def r)
  show "wf_msg m" by (rule wf)
qed

lemma ring_holds_consume:
  assumes h: "ring_holds sock (m # q)"
  shows "ring_holds (sock\<lparr>recv_head := ring_advance RTCAN_RXBUF_SIZE (recv_head sock) (length (encode m))\<rparr>) q"
proof -
  let ?h = "recv_head sock" and ?t = "recv_tail sock" and ?n = "length (encode m)"
  let ?u = "ring_used RTCAN_RXBUF_SIZE ?h ?t"
  have s: "?h < RTCAN_RXBUF_SIZE" "?t < RTCAN_RXBUF_SIZE" using h by (simp_all add: ring_holds_def)
  note le = ring_holds_head(3) [OF h]
  have "ring_read RTCAN_RXBUF_SIZE (recv_buf sock) ?h ?u = encode m @ concat (map encode q)"
    using h by (simp add: ring_holds_def)
  then have "drop ?n (ring_read RTCAN_RXBUF_SIZE (recv_buf sock) ?h ?u) = concat (map encode q)" by simp
  then have "ring_read RTCAN_RXBUF_SIZE (recv_buf sock) (ring_advance RTCAN_RXBUF_SIZE ?h ?n) (?u - ?n) =
      concat (map encode q)"
    by (simp add: drop_ring_read [OF le] rxr.advance_mod)
  then show ?thesis
    using h rxr.ring_used_advance_head [OF s le] rxr.advance_less by (auto simp: ring_holds_def)
qed

section \<open>Delivery\<close>

lemma u32_bytes_bytes_u32: "length bs = 4 \<Longrightarrow> u32_bytes (bytes_u32 bs) = bs"
proof -
  assume "length bs = 4"
  then obtain a b c d where bs: "bs = [a, b, c, d]"
    by (auto simp: length_Suc_conv eval_nat_numeral)
  have "ucast (bytes_u32 bs) = a" "ucast (drop_bit 8 (bytes_u32 bs)) = b"
      "ucast (drop_bit 16 (bytes_u32 bs)) = c" "ucast (drop_bit 24 (bytes_u32 bs)) = d"
    by (rule bit_word_eqI; force simp: bs bytes_u32_def bit_or_iff bit_push_bit_iff bit_ucast_iff bit_drop_bit_eq
        dest: bit_imp_le_length)+
  then show ?thesis by (simp add: u32_bytes_def bs)
qed

text \<open>
  A frame as the drivers hand it over, with the timestamp written behind the payload, and the
  message that is delivered to a socket.
\<close>

definition skb_payload :: "rtcan_skb \<Rightarrow> nat" where
  "skb_payload skb = payload_len (rb_can_id (rb_frame skb)) (rb_can_dlc (rb_frame skb) AND RTCAN_HAS_NO_TIMESTAMP)"

definition wf_skb :: "rtcan_skb \<Rightarrow> bool" where
  "wf_skb skb \<longleftrightarrow> length (rb_frame skb) = sizeof_rb_frame \<and>
     rb_frame_size skb = EMPTY_RB_FRAME_SIZE + skb_payload skb"

definition stamped :: "rtcan_skb \<Rightarrow> u64 \<Rightarrow> bool" where
  "stamped skb now \<longleftrightarrow> take RTCAN_TIMESTAMP_SIZE (drop (rb_frame_size skb) (rb_frame skb)) = u64_bytes now"

definition msg_of :: "rtcan_skb \<Rightarrow> u64 option \<Rightarrow> can_msg" where
  "msg_of skb ts = \<lparr>m_id = rb_can_id (rb_frame skb), m_ifindex = rb_can_ifindex (rb_frame skb),
     m_dlc = rb_can_dlc (rb_frame skb) AND RTCAN_HAS_NO_TIMESTAMP,
     m_data = take (skb_payload skb) (drop 6 (rb_frame skb)), m_ts = ts\<rparr>"

lemma skb_payload_le: "skb_payload skb \<le> 8"
  by (simp add: skb_payload_def payload_len_def)

lemma wf_msg_of: "wf_skb skb \<Longrightarrow> wf_msg (msg_of skb ts)"
  using skb_payload_le [of skb]
  by (simp add: wf_skb_def wf_msg_def msg_of_def skb_payload_def [symmetric] and.assoc EMPTY_RB_FRAME_SIZE_eq)

text \<open>The bytes copied are the image of the message.\<close>

lemma set_dlc_image:
  assumes "length f = 22" "6 + n + k \<le> 22"
  shows "take (6 + n + k) (set_rb_can_dlc v f) =
    u32_bytes (rb_can_id f) @ [rb_can_ifindex f] @ [v] @ take n (drop 6 f) @ take k (drop (6 + n) f)"
proof -
  have "take 4 f = u32_bytes (rb_can_id f)"
    using assms(1) u32_bytes_bytes_u32 [of "take 4 f"] by (simp add: rb_can_id_def)
  moreover have "take 6 (f[5 := v]) = take 4 f @ [f ! 4] @ [v]"
    using assms(1) by (simp add: take_Suc_conv_app_nth eval_nat_numeral)
  ultimately show ?thesis
    by (simp add: set_rb_can_dlc_def rb_can_ifindex_def take_add add.assoc drop_update_cancel
        add.commute [of n 6])
qed

lemma deliver_image:
  fixes ts :: bool
  assumes "wf_skb skb" "stamped skb now"
  shows "take (rb_frame_size skb + (if ts then RTCAN_TIMESTAMP_SIZE else 0))
      (set_rb_can_dlc (if ts then rb_can_dlc (rb_frame skb) OR RTCAN_HAS_TIMESTAMP
         else rb_can_dlc (rb_frame skb) AND RTCAN_HAS_NO_TIMESTAMP) (rb_frame skb)) =
    encode (msg_of skb (if ts then Some now else None))"
proof -
  have or: "(x AND RTCAN_HAS_NO_TIMESTAMP) OR RTCAN_HAS_TIMESTAMP = x OR RTCAN_HAS_TIMESTAMP" for x :: u8
    unfolding flag_bits by (simp add: bit_eq_iff bit_and_iff bit_or_iff bit_not_iff) blast
  have size: "rb_frame_size skb = 6 + skb_payload skb" "length (rb_frame skb) = 22"
    using assms(1) by (simp_all add: wf_skb_def EMPTY_RB_FRAME_SIZE_eq)
  show ?thesis
    using assms(2) skb_payload_le [of skb] set_dlc_image [of "rb_frame skb" "skb_payload skb" 8]
      set_dlc_image [of "rb_frame skb" "skb_payload skb" 0] size
    by (auto simp: encode_def msg_of_def wire_dlc_def ts_bytes_def or stamped_def RTCAN_TIMESTAMP_SIZE_def)
qed

text \<open>
  Delivery appends the message when the ring has more free bytes than it needs, and counts an
  overflow otherwise; either way it does not fault.
\<close>

definition stamp_for :: "rtcan_socket \<Rightarrow> u64 \<Rightarrow> u64 option" where
  "stamp_for sock now = (if wants_timestamp sock then Some now else None)"

definition used_bytes :: "rtcan_socket \<Rightarrow> nat" where
  "used_bytes sock = ring_used RTCAN_RXBUF_SIZE (recv_head sock) (recv_tail sock)"

definition accepts :: "rtcan_socket \<Rightarrow> can_msg \<Rightarrow> bool" where
  "accepts sock m \<longleftrightarrow> used_bytes sock + length (encode m) < RTCAN_RXBUF_SIZE"

lemma size_free_used:
  fixes h t :: nat
  assumes "h < RTCAN_RXBUF_SIZE" "t < RTCAN_RXBUF_SIZE"
  shows "(if int h - int t \<le> 0 then int h - int t + int RTCAN_RXBUF_SIZE else int h - int t) =
    int RTCAN_RXBUF_SIZE - int (ring_used RTCAN_RXBUF_SIZE h t)"
  using assms by (auto simp: ring_used_def mod_if of_nat_diff)

lemma ring_holds_append:
  assumes h: "ring_holds sock q" and m: "wf_msg m" and room: "accepts sock m"
  shows "ring_holds (sock\<lparr>
      recv_buf := ring_copy_in RTCAN_RXBUF_SIZE (recv_buf sock) (recv_tail sock) (encode m),
      recv_tail := ring_advance RTCAN_RXBUF_SIZE (recv_tail sock) (length (encode m)), recv_sem := sem\<rparr>) (q @ [m])"
proof -
  let ?h = "recv_head sock" and ?t = "recv_tail sock" and ?n = "length (encode m)"
  have s: "?h < RTCAN_RXBUF_SIZE" "?t < RTCAN_RXBUF_SIZE" "length (recv_buf sock) = RTCAN_RXBUF_SIZE"
    using h by (simp_all add: ring_holds_def)
  have room': "used_bytes sock + ?n \<le> RTCAN_RXBUF_SIZE" "ring_used RTCAN_RXBUF_SIZE ?h ?t + ?n < RTCAN_RXBUF_SIZE"
    using room by (simp_all add: accepts_def used_bytes_def)
  have tail: "(?h + used_bytes sock) mod RTCAN_RXBUF_SIZE = ?t"
    unfolding used_bytes_def by (rule rxr.ring_used_tail [OF s(1,2)])
  have "ring_read RTCAN_RXBUF_SIZE (ring_copy_in RTCAN_RXBUF_SIZE (recv_buf sock) ?t (encode m)) ?h (used_bytes sock + ?n) =
      concat (map encode (q @ [m]))"
    using rxr.read_copy_in_append [OF s(3) room'(1), of ?h] tail h by (simp add: ring_holds_def used_bytes_def)
  moreover have "ring_used RTCAN_RXBUF_SIZE ?h (ring_advance RTCAN_RXBUF_SIZE ?t ?n) = used_bytes sock + ?n"
    unfolding used_bytes_def by (rule rxr.ring_used_advance_tail [OF s(1,2) room'(2)])
  moreover have "length (ring_copy_in RTCAN_RXBUF_SIZE (recv_buf sock) ?t (encode m)) = RTCAN_RXBUF_SIZE"
    using s room' by (intro rxr.length_copy_in) auto
  ultimately show ?thesis using h m s by (auto simp: ring_holds_def rxr.advance_less)
qed

lemma deliver_effect:
  assumes q: "sock_queue sock q" and skb: "wf_skb skb" "stamped skb now"
  defines "m \<equiv> msg_of skb (stamp_for sock now)"
  shows "\<exists>sock' skb'. rtcan_rcv_deliver sock skb = Inr (sock', skb') \<and> wf_skb skb' \<and> stamped skb' now \<and>
    (\<forall>ts. msg_of skb' ts = msg_of skb ts) \<and> sock_queue sock' (if accepts sock m then q @ [m] else q) \<and>
    sock' = sock\<lparr>recv_buf := recv_buf sock', recv_tail := recv_tail sock', recv_sem := recv_sem sock',
      rx_buf_full := rx_buf_full sock + (if accepts sock m then 0 else 1)\<rparr>"
proof -
  let ?ts = "wants_timestamp sock" and ?f = "rb_frame skb"
  let ?dlc = "if ?ts then rb_can_dlc ?f OR RTCAN_HAS_TIMESTAMP else rb_can_dlc ?f AND RTCAN_HAS_NO_TIMESTAMP"
  let ?n = "rb_frame_size skb + (if ?ts then RTCAN_TIMESTAMP_SIZE else 0)"
  let ?skb = "skb\<lparr>rb_frame := set_rb_can_dlc ?dlc ?f\<rparr>"
  have len: "length ?f = 22" "rb_frame_size skb = 6 + skb_payload skb" "skb_payload skb \<le> 8"
    using skb(1) skb_payload_le by (simp_all add: wf_skb_def EMPTY_RB_FRAME_SIZE_eq)
  have img: "take ?n (set_rb_can_dlc ?dlc ?f) = encode m"
    unfolding m_def stamp_for_def by (rule deliver_image [OF skb])
  have le: "?n \<le> 22" using len by (simp add: RTCAN_TIMESTAMP_SIZE_def)
  then have n: "?n = length (encode m)" using arg_cong [OF img, of length] len(1) by simp
  have field: "rb_can_id (rb_frame ?skb) = rb_can_id ?f" "rb_can_ifindex (rb_frame ?skb) = rb_can_ifindex ?f"
      "rb_can_dlc (rb_frame ?skb) AND RTCAN_HAS_NO_TIMESTAMP = rb_can_dlc ?f AND RTCAN_HAS_NO_TIMESTAMP"
      "drop 6 (rb_frame ?skb) = drop 6 ?f"
    using len by (auto simp: set_rb_can_dlc_def rb_can_id_def rb_can_ifindex_def rb_can_dlc_def and.assoc
        take_update_cancel flag_bits bit.conj_disj_distrib2)
  have "skb_payload ?skb = skb_payload skb" by (simp only: skb_payload_def field)
  then have same: "wf_skb ?skb" "\<And>ts. msg_of ?skb ts = msg_of skb ts"
    using skb(1) field by (simp_all add: wf_skb_def msg_of_def)
  have st: "stamped ?skb now"
    using skb(2) len by (simp add: stamped_def set_rb_can_dlc_def drop_update_cancel)
  have s: "recv_head sock < RTCAN_RXBUF_SIZE" "recv_tail sock < RTCAN_RXBUF_SIZE" "ring_holds sock q"
    using q by (simp_all add: sock_queue_def ring_holds_def)
  have free: "(if int (recv_head sock) - int (recv_tail sock) \<le> 0
      then int (recv_head sock) - int (recv_tail sock) + int RTCAN_RXBUF_SIZE
      else int (recv_head sock) - int (recv_tail sock)) > int ?n \<longleftrightarrow> accepts sock m"
    using n unfolding size_free_used [OF s(1,2)] accepts_def used_bytes_def by linarith
  have res: "rtcan_rcv_deliver sock skb = (if accepts sock m then Inr (sock\<lparr>
      recv_buf := ring_copy_in RTCAN_RXBUF_SIZE (recv_buf sock) (recv_tail sock) (encode m),
      recv_tail := ring_advance RTCAN_RXBUF_SIZE (recv_tail sock) (length (encode m)),
      recv_sem := rtdm_sem_up (recv_sem sock)\<rparr>, ?skb)
    else Inr (sock\<lparr>rx_buf_full := rx_buf_full sock + 1\<rparr>, ?skb))"
    unfolding rtcan_rcv_deliver_def Let_def
    unfolding free img
    unfolding n using le [unfolded n] len(1) by simp
  show ?thesis
  proof (cases "accepts sock m")
    case True
    have "wf_msg m" unfolding m_def by (rule wf_msg_of [OF skb(1)])
    from ring_holds_append [OF s(3) this True] rs.counts_produce [of "recv_sem sock" q m] q
    show ?thesis using True res same st by (auto simp: sock_queue_def)
  next
    case False
    then show ?thesis using res same st q by (auto simp: sock_queue_def ring_holds_def)
  qed
qed

end
