(* ===== verification/Can_Delivery.thy ===== *)
theory Can_Delivery
  imports Can_Queue
begin

text \<open>
  What a received or looped back frame does to all sockets: the walk through the reception list of
  the device hands it to every socket once for each of its filters that accepts it, and to no other
  socket. The queues are bounded: a message that does not fit is dropped and counted.
\<close>

section \<open>Bounded queues\<close>

definition qbytes :: "can_msg list \<Rightarrow> nat" where
  "qbytes q = length (concat (map encode q))"

definition q_add :: "can_msg \<Rightarrow> can_msg list \<Rightarrow> can_msg list" where
  "q_add m q = (if qbytes q + length (encode m) < RTCAN_RXBUF_SIZE then q @ [m] else q)"

text \<open>What the entries es of a reception list do to the queue of socket s.\<close>

definition q_recv :: "(nat option \<times> can_filter \<Rightarrow> bool) \<Rightarrow> nat \<Rightarrow> can_msg \<Rightarrow> (nat option \<times> can_filter) list
    \<Rightarrow> can_msg list \<Rightarrow> can_msg list" where
  "q_recv P s m es q = foldl (\<lambda>q e. if fst e = Some s \<and> P e then q_add m q else q) q es"

lemma q_recv_simps [simp]:
  "q_recv P s m [] q = q"
  "q_recv P s m (e # es) q = q_recv P s m es (if fst e = Some s \<and> P e then q_add m q else q)"
  "q_recv P s m (es @ es') q = q_recv P s m es' (q_recv P s m es q)"
  by (simp_all add: q_recv_def)

lemma accepts_qbytes:
  assumes "sock_queue sock q"
  shows "accepts sock m \<longleftrightarrow> qbytes q + length (encode m) < RTCAN_RXBUF_SIZE"
proof -
  have "used_bytes sock = qbytes q"
    using assms unfolding sock_queue_def ring_holds_def used_bytes_def qbytes_def
    by (metis length_ring_read)
  then show ?thesis by (simp add: accepts_def)
qed

lemma q_recv_own:
  "q_recv P s m (map (Pair (Some s)) fs) q = (q_add m ^^ length (filter (\<lambda>f. P (Some s, f)) fs)) q"
  by (induction fs arbitrary: q) (auto simp: funpow_swap1)

lemma q_recv_other: "\<forall>e \<in> set es. fst e \<noteq> Some s \<Longrightarrow> q_recv P s m es q = q"
  by (induction es) auto

lemma q_recv_entries:
  assumes "distinct (map fst bs)" "(s, fs) \<in> set bs"
  shows "q_recv P s m (entries bs) q = (q_add m ^^ length (filter (\<lambda>f. P (Some s, f)) fs)) q"
proof -
  obtain bs1 bs2 where bs: "bs = bs1 @ (s, fs) # bs2" using assms(2) by (auto dest: split_list)
  then have "s \<notin> fst ` set bs1" "s \<notin> fst ` set bs2" using assms(1) by auto
  then have "\<forall>e \<in> set (entries bs1). fst e \<noteq> Some s" "\<forall>e \<in> set (entries bs2). fst e \<noteq> Some s"
    using entries_sock by (metis option.inject)+
  then show ?thesis by (simp add: bs q_recv_other q_recv_own)
qed

section \<open>The walk\<close>

text \<open>Only counters of the device change, and only the receive state of the sockets.\<close>

definition counted :: "rtcan_device \<Rightarrow> rtcan_device \<Rightarrow> bool" where
  "counted dev dev' \<longleftrightarrow> length (receivers dev') = length (receivers dev) \<and>
     nxt (receivers dev') = nxt (receivers dev) \<and> entry (receivers dev') = entry (receivers dev) \<and>
     dev' = dev\<lparr>receivers := receivers dev', rx_count := rx_count dev', err_count := err_count dev'\<rparr>"

definition sock_frame :: "rtcan_socket \<Rightarrow> rtcan_socket \<Rightarrow> bool" where
  "sock_frame sock sock' \<longleftrightarrow>
     sock' = sock\<lparr>recv_buf := recv_buf sock', recv_tail := recv_tail sock', recv_sem := recv_sem sock',
       rx_buf_full := rx_buf_full sock'\<rparr>"

lemma counted_trans: "counted a b \<Longrightarrow> counted b c \<Longrightarrow> counted a c"
  by (cases a; cases b; cases c) (simp add: counted_def)

lemma sock_frame_refl [simp]: "sock_frame sock sock"
  by (simp add: sock_frame_def)

lemma sock_frameI:
  "sock' = sock\<lparr>recv_buf := a, recv_tail := b, recv_sem := c, rx_buf_full := e\<rparr> \<Longrightarrow> sock_frame sock sock'"
  by (simp add: sock_frame_def)

lemma sock_frame_trans: "sock_frame a b \<Longrightarrow> sock_frame b c \<Longrightarrow> sock_frame a c"
  by (cases a; cases b; cases c) (simp add: sock_frame_def)

lemma sock_frameD:
  assumes "sock_frame sock sock'"
  shows "err_mask sock' = err_mask sock" "wants_timestamp sock' = wants_timestamp sock"
    "flist sock' = flist sock" "flistlen sock' = flistlen sock" "sock_ifindex sock' = sock_ifindex sock"
  using assms by (cases sock; cases sock'; simp add: sock_frame_def wants_timestamp_def)+

lemma counted_holds: "counted dev dev' \<Longrightarrow> dev_holds dev M \<Longrightarrow> dev_holds dev' M"
  by (cases dev; cases dev') (auto simp: counted_def ft.holds_def dev_view_def dev_lists_def)

lemma counted_count:
  "i < length (receivers dev) \<Longrightarrow>
    counted dev (dev\<lparr>receivers := (receivers dev)[i := (receivers dev ! i)\<lparr>match_count := c\<rparr>]\<rparr>)"
  by (simp add: counted_def nxt_def entry_def fun_eq_iff nth_list_update_any)

text \<open>The test of the loop, as long as the error masks are those of the start.\<close>

definition test_is :: "('z can_world_scheme \<Rightarrow> rtcan_skb \<Rightarrow> rtcan_recv \<Rightarrow> bool kres) \<Rightarrow> 'z can_world_scheme \<Rightarrow> u32
    \<Rightarrow> (nat option \<times> can_filter \<Rightarrow> bool) \<Rightarrow> bool" where
  "test_is matches w can_id P \<longleftrightarrow> (\<forall>w' skb r. (\<forall>s. err_mask (socks w' s) = err_mask (socks w s)) \<longrightarrow>
     rb_can_id (rb_frame skb) = can_id \<longrightarrow> recv_sock r \<noteq> None \<longrightarrow>
     matches w' skb r = Inr (P (recv_sock r, can_filter_of r)))"

lemma test_is_cong: "test_is matches w can_id P \<Longrightarrow> (\<And>s. err_mask (socks w' s) = err_mask (socks w s)) \<Longrightarrow>
    test_is matches w' can_id P"
  by (simp add: test_is_def)

text \<open>One round of the walk.\<close>

definition walked :: "nat set \<Rightarrow> nat \<Rightarrow> 'z can_world_scheme \<Rightarrow> 'z can_world_scheme \<Rightarrow> bool" where
  "walked L d w w' \<longleftrightarrow> rtcan_devices w' = rtcan_devices w \<and> rtcan_socket_list w' = rtcan_socket_list w \<and>
     can_world.more w' = can_world.more w \<and> (\<forall>e. e \<noteq> d \<longrightarrow> devs w' e = devs w e) \<and>
     counted (devs w d) (devs w' d) \<and> (\<forall>s. sock_frame (socks w s) (socks w' s)) \<and>
     (\<forall>s. s \<notin> L \<longrightarrow> socks w' s = socks w s)"

lemma walked_refl: "walked L d w w"
  by (simp add: walked_def counted_def fun_upd_idem)

lemma walked_trans: "walked L d w1 w2 \<Longrightarrow> walked L d w2 w3 \<Longrightarrow> walked L d w1 w3"
  unfolding walked_def by (metis counted_trans sock_frame_trans)

lemma walked_devs: "walked L d w w' \<Longrightarrow> length (receivers (devs w' d)) = length (receivers (devs w d)) \<and>
    nxt (receivers (devs w' d)) = nxt (receivers (devs w d)) \<and>
    entry (receivers (devs w' d)) = entry (receivers (devs w d))"
  by (simp add: walked_def counted_def)

definition same_msg :: "u64 \<Rightarrow> rtcan_skb \<Rightarrow> rtcan_skb \<Rightarrow> bool" where
  "same_msg now skb skb' \<longleftrightarrow> wf_skb skb' \<and> stamped skb' now \<and> (\<forall>ts. msg_of skb' ts = msg_of skb ts)"

lemma same_msg_id: "same_msg now skb skb' \<Longrightarrow> rb_can_id (rb_frame skb') = rb_can_id (rb_frame skb)"
  unfolding same_msg_def msg_of_def by (metis can_msg.select_convs(1))

lemma listener_step:
  assumes i: "i < length (receivers (devs w d))" and s: "s \<in> L" "fst (entry (receivers (devs w d)) i) = Some s"
    and q: "\<forall>s \<in> L. sock_queue (socks w s) (q s)" and skb: "wf_skb skb" "stamped skb now"
    and test: "test_is matches w (rb_can_id (rb_frame skb)) P" and visit: "\<And>dev. counted dev (visit dev)"
  shows "\<exists>w' skb'. rcv_listeners (Suc n) matches visit w d skb (Some i) =
      rcv_listeners n matches visit w' d skb' (nxt (receivers (devs w d)) i) \<and>
    walked L d w w' \<and> same_msg now skb skb' \<and>
    (\<forall>t \<in> L. sock_queue (socks w' t) (if t = s \<and> P (entry (receivers (devs w d)) i)
      then q_add (msg_of skb (stamp_for (socks w s) now)) (q s) else q t))"
proof -
  define dev1 where "dev1 = visit (devs w d)"
  have v: "counted (devs w d) dev1" unfolding dev1_def by (rule visit)
  have same: "length (receivers dev1) = length (receivers (devs w d))" "nxt (receivers dev1) = nxt (receivers (devs w d))"
      "entry (receivers dev1) = entry (receivers (devs w d))" using v by (simp_all add: counted_def)
  define w1 where "w1 = upd_dev d visit w"
  have w1: "devs w1 d = dev1" "socks w1 = socks w" "walked L d w w1"
    using v by (simp_all add: w1_def dev1_def walked_def upd_dev_def)
  let ?r = "receivers dev1 ! i" and ?e = "entry (receivers (devs w d)) i"
  have e: "(recv_sock ?r, can_filter_of ?r) = ?e" "recv_sock ?r = Some s" "next_recv ?r = nxt (receivers (devs w d)) i"
    using same s(2) by (metis entry_def, metis entry_fst, metis nxt_def)
  have unfold: "rcv_listeners (Suc n) matches visit w d skb (Some i) = (if P ?e then
      kbind (rtcan_rcv_deliver (socks w s) skb) (\<lambda>(sock, skb'). rcv_listeners n matches visit
        (upd_sock s (\<lambda>_. sock) (upd_dev d (\<lambda>dev. dev\<lparr>receivers :=
           (receivers dev)[i := ?r\<lparr>match_count := match_count ?r + 1\<rparr>]\<rparr>) w1)) d skb' (nxt (receivers (devs w d)) i))
     else rcv_listeners n matches visit w1 d skb (nxt (receivers (devs w d)) i))"
    using test e i by (simp add: test_is_def dev1_def w1_def Let_def)
  show ?thesis
  proof (cases "P ?e")
    case False
    have "same_msg now skb skb" using skb by (simp add: same_msg_def)
    then show ?thesis using unfold False w1 q by (intro exI [of _ w1] exI [of _ skb]) simp
  next
    case True
    let ?m = "msg_of skb (stamp_for (socks w s) now)"
    have qs: "sock_queue (socks w s) (q s)" using q s(1) by blast
    obtain sock' skb' where del: "rtcan_rcv_deliver (socks w s) skb = Inr (sock', skb')"
        "same_msg now skb skb'" "sock_queue sock' (q_add ?m (q s))" "sock_frame (socks w s) sock'"
      using deliver_effect [OF qs skb] sock_frameI unfolding accepts_qbytes [OF qs] q_add_def same_msg_def
      by blast
    define w2 where "w2 = upd_sock s (\<lambda>_. sock') (upd_dev d (\<lambda>dev. dev\<lparr>receivers :=
           (receivers dev)[i := ?r\<lparr>match_count := match_count ?r + 1\<rparr>]\<rparr>) w1)"
    have "counted dev1 (devs w2 d)" using counted_count [of i dev1] i same(1) by (simp add: w2_def w1(1))
    then have "walked L d w1 w2"
      using del(4) s(1) by (auto simp: walked_def w2_def w1 upd_sock_def upd_dev_def)
    then have "walked L d w w2" using w1(3) walked_trans by blast
    then show ?thesis
      using unfold True del q by (intro exI [of _ w2] exI [of _ skb']) (auto simp: w2_def w1(2))
  qed
qed

lemma listeners_ok:
  assumes "chain (nxt (receivers (devs w d))) p xs" "set xs \<subseteq> {..<length (receivers (devs w d))}" "length xs \<le> n"
    and "\<forall>i \<in> set xs. \<exists>s \<in> L. fst (entry (receivers (devs w d)) i) = Some s"
    and "\<forall>s \<in> L. sock_queue (socks w s) (q s)"
    and "wf_skb skb" "stamped skb now" "test_is matches w (rb_can_id (rb_frame skb)) P"
    and "\<And>dev. counted dev (visit dev)"
  shows "\<exists>w' skb'. rcv_listeners n matches visit w d skb p = Inr (w', skb') \<and> walked L d w w' \<and>
    same_msg now skb skb' \<and>
    (\<forall>s \<in> L. sock_queue (socks w' s) (q_recv P s (msg_of skb (stamp_for (socks w s) now))
       (map (entry (receivers (devs w d))) xs) (q s)))"
  using assms
proof (induction xs arbitrary: n w skb p q)
  case Nil
  then show ?case using walked_refl by (auto simp: same_msg_def)
next
  case (Cons i xs)
  then obtain n' where n: "n = Suc n'" by (cases n) auto
  let ?rs = "receivers (devs w d)"
  have p: "p = Some i" "i < length ?rs" "chain (nxt ?rs) (nxt ?rs i) xs" using Cons.prems(1,2) by auto
  obtain s where s: "s \<in> L" "fst (entry ?rs i) = Some s" using Cons.prems(4) by auto
  define q1 where "q1 t = (if t = s \<and> P (entry ?rs i) then q_add (msg_of skb (stamp_for (socks w s) now)) (q s) else q t)" for t
  obtain w1 skb1 where step: "rcv_listeners (Suc n') matches visit w d skb (Some i) =
        rcv_listeners n' matches visit w1 d skb1 (nxt ?rs i)" "walked L d w w1" "same_msg now skb skb1"
      "\<forall>t \<in> L. sock_queue (socks w1 t) (q1 t)"
    using listener_step [OF p(2) s Cons.prems(5-9), of n'] unfolding q1_def by blast
  note d1 = walked_devs [OF step(2)]
  have fr: "err_mask (socks w1 t) = err_mask (socks w t)" "stamp_for (socks w1 t) now = stamp_for (socks w t) now" for t
    using step(2) sock_frameD(1,2) unfolding walked_def stamp_for_def by metis+
  have "test_is matches w1 (rb_can_id (rb_frame skb1)) P"
    using test_is_cong [OF Cons.prems(8), of w1] fr(1) same_msg_id [OF step(3)] by simp
  moreover have "wf_skb skb1" "stamped skb1 now" using step(3) by (simp_all add: same_msg_def)
  ultimately obtain w' skb' where rec: "rcv_listeners n' matches visit w1 d skb1 (nxt ?rs i) = Inr (w', skb')"
      "walked L d w1 w'" "same_msg now skb1 skb'"
      "\<forall>t \<in> L. sock_queue (socks w' t) (q_recv P t (msg_of skb1 (stamp_for (socks w1 t) now)) (map (entry ?rs) xs) (q1 t))"
    using Cons.IH [of w1 "nxt ?rs i" n' q1 skb1] Cons.prems(2-4,9) p(3) n step(4) d1 by auto
  have "msg_of skb1 = msg_of skb" using step(3) by (simp add: same_msg_def fun_eq_iff)
  then have "same_msg now skb skb'" "\<forall>t \<in> L. sock_queue (socks w' t)
      (q_recv P t (msg_of skb (stamp_for (socks w t) now)) (map (entry ?rs) (i # xs)) (q t))"
    using rec(3,4) s(2) fr(2) by (auto simp: same_msg_def q1_def eq_commute [of _ s])
  then show ?case using step(1) rec(1) walked_trans [OF step(2) rec(2)] p(1) n by auto
qed

section \<open>Stamping and filtering\<close>

lemma stamp_ok:
  assumes "wf_skb skb"
  shows "\<exists>frame. rb_memcpy (rb_frame skb) (rb_frame_size skb) (u64_bytes now) = Inr frame \<and>
    same_msg now skb (skb\<lparr>rb_frame := frame\<rparr>)"
proof -
  let ?f = "rb_frame skb" and ?n = "skb_payload skb"
  have size: "rb_frame_size skb = 6 + ?n" "length ?f = 22" "?n \<le> 8"
    using assms skb_payload_le by (simp_all add: wf_skb_def EMPTY_RB_FRAME_SIZE_eq)
  define g where "g = memcpy_at ?f (6 + ?n) (u64_bytes now)"
  have g: "length g = 22" "take (6 + ?n) g = take (6 + ?n) ?f" "take 8 (drop (6 + ?n) g) = u64_bytes now"
    using size by (simp_all add: g_def memcpy_at_def)
  have "take 4 g = take 4 ?f" "g ! 4 = ?f ! 4" "g ! 5 = ?f ! 5"
    using size by (simp_all add: g_def take_memcpy_at nth_memcpy_at)
  moreover have "take ?n (drop 6 g) = take ?n (drop 6 ?f)"
    using arg_cong [OF g(2), of "drop 6"] by (simp add: take_drop add.commute)
  ultimately have f: "rb_can_id g = rb_can_id ?f" "rb_can_ifindex g = rb_can_ifindex ?f" "rb_can_dlc g = rb_can_dlc ?f"
      "take ?n (drop 6 g) = take ?n (drop 6 ?f)"
    by (simp_all add: rb_can_id_def rb_can_ifindex_def rb_can_dlc_def)
  have p: "skb_payload (skb\<lparr>rb_frame := g\<rparr>) = ?n" by (simp add: skb_payload_def f)
  have "same_msg now skb (skb\<lparr>rb_frame := g\<rparr>)"
    using g f size unfolding same_msg_def wf_skb_def stamped_def msg_of_def p
    by (simp add: EMPTY_RB_FRAME_SIZE_eq RTCAN_TIMESTAMP_SIZE_def)
  then show ?thesis using size by (simp add: rb_memcpy_def g_def)
qed

text \<open>The filter test as the profile header documents it, on the list the user passed.\<close>

definition filter_doc :: "u32 \<Rightarrow> can_filter \<Rightarrow> bool" where
  "filter_doc received f =
     (if flt_can_id f AND CAN_INV_FILTER \<noteq> 0
      then received AND flt_can_mask f \<noteq> flt_can_id f AND NOT CAN_INV_FILTER
      else received AND flt_can_mask f = flt_can_id f)"

lemma mask_without_flag:
  fixes x y e :: u32
  assumes "x AND e = 0"
  shows "x AND (y OR e) = x AND y" "x AND (y AND NOT e) = x AND y"
  using assms
  by (auto simp: bit_eq_iff bit_and_iff bit_or_iff bit_not_iff)

text \<open>C8: A mounted filter accepts a data frame exactly when the rule documented for user filters
  does, inverted filters included.\<close>

theorem mounted_filter_documented:
  assumes "received AND CAN_ERR_FLAG = 0"
  shows "rtcan_accept_msg received (rtcan_raw_mount_filter f) = filter_doc received f"
proof -
  have "(y AND NOT CAN_INV_FILTER) AND CAN_INV_FILTER = 0" for y :: u32
    by (simp add: and.assoc)
  moreover have "(y OR CAN_INV_FILTER) AND CAN_INV_FILTER = CAN_INV_FILTER" for y :: u32
    by (simp add: bit_eq_iff bit_and_iff bit_or_iff)
  then have "(y OR CAN_INV_FILTER) AND CAN_INV_FILTER \<noteq> 0" for y :: u32
    by (simp add: can_consts)
  ultimately have flag: "(y AND NOT CAN_INV_FILTER) AND CAN_INV_FILTER = 0"
      "(y OR CAN_INV_FILTER) AND CAN_INV_FILTER \<noteq> 0" for y :: u32
    by blast+
  show ?thesis
    using mask_without_flag [of received CAN_INV_FILTER "flt_can_mask f"] assms flag
    by (auto simp: rtcan_accept_msg_def rtcan_raw_mount_filter_def filter_doc_def CAN_INV_FILTER_def)
qed

section \<open>Delivery to all sockets\<close>

text \<open>How often a frame is handed to socket s: once per mounted filter that accepts it; an error
  frame once per mounted filter if the socket's error mask selects it.\<close>

definition hits :: "'z can_world_scheme \<Rightarrow> nat \<Rightarrow> u32 \<Rightarrow> nat \<Rightarrow> nat" where
  "hits w d can_id s =
     (if in_range (fst (bindings_of w s)) (dev_ifindex (devs w d)) then
        (if can_id AND CAN_ERR_FLAG \<noteq> 0
         then (if can_id AND err_mask (socks w s) \<noteq> 0 then length (snd (bindings_of w s)) else 0)
         else length (filter (rtcan_accept_msg can_id) (snd (bindings_of w s))))
      else 0)"

definition queues :: "'z can_world_scheme \<Rightarrow> (nat \<Rightarrow> can_msg list) \<Rightarrow> bool" where
  "queues w q \<longleftrightarrow> (\<forall>s \<in> set (rtcan_socket_list w). sock_queue (socks w s) (q s))"

lemma filters_for_cong:
  assumes "rtcan_devices w' = rtcan_devices w"
    and "\<And>d. dev_ifindex (devs w' d) = dev_ifindex (devs w d) \<and> dev_name (devs w' d) = dev_name (devs w d)"
    and "\<And>d M. dev_holds (devs w d) M \<Longrightarrow> dev_holds (devs w' d) M"
    and "filters_for w B"
  shows "filters_for w' B"
  using assms by (auto simp: filters_for_def registry_ok_def registered_def ifname_def inj_on_def)

lemma walked_inv:
  assumes inv: "can_inv w" and wk: "walked L d w w'"
  shows "can_inv w'" "bindings_of w' = bindings_of w"
proof -
  have socks: "flist (socks w' s) = flist (socks w s)" "flistlen (socks w' s) = flistlen (socks w s)"
      "sock_ifindex (socks w' s) = sock_ifindex (socks w s)" for s
    using wk sock_frameD(3-5) unfolding walked_def by metis+
  then show b: "bindings_of w' = bindings_of w"
    using wk by (auto simp: bindings_of_def fun_eq_iff walked_def rtcan_sock_is_bound_def)
  have "dev_ifindex (devs w' e) = dev_ifindex (devs w e) \<and> dev_name (devs w' e) = dev_name (devs w e)" for e
    using wk by (cases "devs w d"; cases "devs w' d"; cases "e = d") (auto simp: walked_def counted_def)
  moreover have "dev_holds (devs w e) M \<Longrightarrow> dev_holds (devs w' e) M" for e M
    using wk counted_holds unfolding walked_def by metis
  ultimately have "filters_for w' (bindings_of w')"
    using inv wk unfolding b by (intro filters_for_cong [of w' w]) (simp_all add: can_inv_def walked_def)
  then show "can_inv w'"
    using inv wk socks by (auto simp: can_inv_def walked_def sock_ok_def rtcan_sock_is_bound_def)
qed

text \<open>The walk over the reception list of a registered device, for any test.\<close>

lemma listeners_deliver:
  assumes inv: "can_inv w" and d: "registered w d" and q: "queues w q"
    and skb: "wf_skb skb" "stamped skb now" and test: "test_is matches w (rb_can_id (rb_frame skb)) P"
    and visit: "\<And>dev. counted dev (visit dev)"
  shows "\<exists>w' skb'. rcv_listeners RTCAN_MAX_RECEIVERS matches visit w d skb (recv_list (devs w d)) = Inr (w', skb') \<and>
    walked (set (rtcan_socket_list w)) d w w' \<and> same_msg now skb skb' \<and>
    queues w' (\<lambda>s. (q_add (msg_of skb (stamp_for (socks w s) now)) ^^
      (if in_range (fst (bindings_of w s)) (dev_ifindex (devs w d))
       then length (filter (\<lambda>f. P (Some s, f)) (snd (bindings_of w s))) else 0)) (q s))"
proof -
  let ?L = "set (rtcan_socket_list w)" and ?i = "dev_ifindex (devs w d)" and ?rs = "receivers (devs w d)"
  have "dev_holds (devs w d) (mounts (bindings_of w) ?i)" using inv d by (simp add: can_inv_def filters_for_def)
  then obtain bs xs avail where bs: "set bs = mounts (bindings_of w) ?i" "distinct (map fst bs)"
      and lists: "dev_lists (devs w d) xs avail" and ent: "map (entry ?rs) xs = entries bs"
    by (auto simp: ft.holds_def dev_view_def)
  note l = dev_listsD [OF lists]
  have key: "snd (bindings_of w s) \<noteq> [] \<Longrightarrow> s \<in> ?L" for s
    by (simp add: bindings_of_def split: if_splits)
  have socks_L: "\<forall>i \<in> set xs. \<exists>s \<in> ?L. fst (entry ?rs i) = Some s"
  proof
    fix i
    assume "i \<in> set xs"
    then have "entry ?rs i \<in> set (entries bs)" by (metis ent image_eqI set_map)
    then obtain s where s: "s \<in> fst ` set bs" "fst (entry ?rs i) = Some s" using entries_sock by blast
    then obtain fs where "(s, fs) \<in> mounts (bindings_of w) ?i" using bs(1) by auto
    then have "s \<in> ?L" using key unfolding mounts_mem by blast
    then show "\<exists>s \<in> ?L. fst (entry ?rs i) = Some s" using s(2) by blast
  qed
  obtain w' skb' where res:
      "rcv_listeners RTCAN_MAX_RECEIVERS matches visit w d skb (recv_list (devs w d)) = Inr (w', skb')"
      "walked ?L d w w'" "same_msg now skb skb'"
      "\<forall>s \<in> ?L. sock_queue (socks w' s) (q_recv P s (msg_of skb (stamp_for (socks w s) now)) (entries bs) (q s))"
    using listeners_ok [OF l(2) dev_lists_recv(2,1) [OF lists] socks_L _ skb test visit, of q] q
    unfolding ent queues_def by blast
  have "q_recv P s m (entries bs) r = (q_add m ^^ (if in_range (fst (bindings_of w s)) ?i
      then length (filter (\<lambda>f. P (Some s, f)) (snd (bindings_of w s))) else 0)) r" for s m r
  proof (cases "(s, snd (bindings_of w s)) \<in> set bs")
    case True
    then show ?thesis using q_recv_entries [OF bs(2) True] unfolding bs(1) mounts_mem by simp
  next
    case False
    then have "s \<notin> fst ` set bs" unfolding bs(1) by (auto simp: mounts_def)
    then have "\<forall>e \<in> set (entries bs). fst e \<noteq> Some s" using entries_sock by (metis option.inject)
    then show ?thesis using False unfolding bs(1) mounts_mem by (auto simp: q_recv_other)
  qed
  then show ?thesis using res by (auto simp: queues_def walked_def)
qed

text \<open>Reception, with everything it leaves untouched.\<close>

lemma rcv_effect:
  assumes inv: "can_inv w" and d: "registered w d" and q: "queues w q" and skb: "wf_skb skb"
  shows "\<exists>w' skb'. rtcan_rcv w d skb now = Inr (w', skb') \<and>
    walked (set (rtcan_socket_list w)) d w w' \<and> same_msg now skb skb' \<and>
    queues w' (\<lambda>s. (q_add (msg_of skb (stamp_for (socks w s) now)) ^^ hits w d (rb_can_id (rb_frame skb)) s) (q s))"
proof -
  let ?id = "rb_can_id (rb_frame skb)"
  obtain frame where frame: "rb_memcpy (rb_frame skb) (rb_frame_size skb) (u64_bytes now) = Inr frame"
      "same_msg now skb (skb\<lparr>rb_frame := frame\<rparr>)"
    using stamp_ok [OF skb] by blast
  then have skb1: "wf_skb (skb\<lparr>rb_frame := frame\<rparr>)" "stamped (skb\<lparr>rb_frame := frame\<rparr>) now" "rb_can_id frame = ?id"
      "\<And>ts. msg_of (skb\<lparr>rb_frame := frame\<rparr>) ts = msg_of skb ts"
    using same_msg_id [OF frame(2)] by (simp_all add: same_msg_def)
  define g :: "rtcan_device \<Rightarrow> rtcan_device" where
    "g = (if ?id AND CAN_ERR_FLAG \<noteq> 0 then (\<lambda>dev. dev\<lparr>err_count := err_count dev + 1\<rparr>)
       else (\<lambda>dev. dev\<lparr>rx_count := rx_count dev + 1\<rparr>))"
  define P where "P e = (if ?id AND CAN_ERR_FLAG \<noteq> 0 then ?id AND err_mask (socks w (the (fst e))) \<noteq> 0
       else rtcan_accept_msg ?id (snd e))" for e :: "nat option \<times> can_filter"
  let ?matches = "if ?id AND CAN_ERR_FLAG \<noteq> 0 then match_error else match_data"
  define w1 where "w1 = upd_dev d g w"
  have wk: "walked {} d w w1" by (simp add: walked_def w1_def g_def counted_def)
  note inv1 = walked_inv [OF inv wk]
  have frame1: "registered w1 d" "queues w1 q" "recv_list (devs w1 d) = recv_list (devs w d)"
      "dev_ifindex (devs w1 d) = dev_ifindex (devs w d)" "socks w1 = socks w"
    using d q by (simp_all add: w1_def g_def registered_def queues_def)
  have "test_is ?matches w1 ?id P"
    by (auto simp: test_is_def match_error_def match_data_def P_def frame1(5))
  then obtain w' skb' where res: "rcv_listeners RTCAN_MAX_RECEIVERS ?matches id w1 d (skb\<lparr>rb_frame := frame\<rparr>)
        (recv_list (devs w d)) = Inr (w', skb')" "walked (set (rtcan_socket_list w1)) d w1 w'" "same_msg now (skb\<lparr>rb_frame := frame\<rparr>) skb'"
      "queues w' (\<lambda>s. (q_add (msg_of skb (stamp_for (socks w s) now)) ^^
      (if in_range (fst (bindings_of w s)) (dev_ifindex (devs w d))
       then length (filter (\<lambda>f. P (Some s, f)) (snd (bindings_of w s))) else 0)) (q s))"
    using listeners_deliver [OF inv1(1) frame1(1,2) skb1(1,2), of ?matches P id]
    unfolding inv1(2) frame1(3-5) skb1(4) by (auto simp: skb1(3) counted_def)
  have "(if in_range (fst (bindings_of w s)) (dev_ifindex (devs w d))
       then length (filter (\<lambda>f. P (Some s, f)) (snd (bindings_of w s))) else 0) = hits w d ?id s" for s
    by (simp add: hits_def P_def)
  moreover have "rtcan_rcv w d skb now = Inr (w', skb')"
    using res(1) frame(1) skb1(3) by (auto simp: rtcan_rcv_def Let_def w1_def g_def split: if_splits)
  moreover have "walked (set (rtcan_socket_list w)) d w w1" by (simp add: walked_def w1_def g_def counted_def)
  then have "walked (set (rtcan_socket_list w)) d w w'"
    using res(2) walked_trans by (simp add: w1_def)
  moreover have "same_msg now skb skb'" using res(3) skb1(4) by (simp add: same_msg_def)
  ultimately show ?thesis using res(4) by auto
qed

text \<open>C1: Reception never faults and reaches exactly the right sockets: every live socket gets the
  message, stamped with the time of reception if it asked for timestamps, once for each of its
  mounted filters that accepts it (error frames by error mask), appended behind what its queue held
  and dropped only where the ring has no room. The bindings of all sockets stay as they are.\<close>

theorem rcv_delivers:
  assumes inv: "can_inv w" and d: "registered w d" and q: "queues w q" and skb: "wf_skb skb"
  shows "\<exists>w' skb'. rtcan_rcv w d skb now = Inr (w', skb') \<and> can_inv w' \<and> bindings_of w' = bindings_of w \<and>
    rtcan_socket_list w' = rtcan_socket_list w \<and>
    queues w' (\<lambda>s. (q_add (msg_of skb (stamp_for (socks w s) now)) ^^ hits w d (rb_can_id (rb_frame skb)) s) (q s))"
  using rcv_effect [OF assms, of now] walked_inv [OF inv] unfolding walked_def by blast

section \<open>Loopback\<close>

definition loopback_hits :: "'z can_world_scheme \<Rightarrow> nat \<Rightarrow> u32 \<Rightarrow> nat \<Rightarrow> nat" where
  "loopback_hits w d can_id s =
     (if tx_socket (devs w d) \<noteq> Some s \<and> in_range (fst (bindings_of w s)) (dev_ifindex (devs w d))
      then length (filter (rtcan_accept_msg can_id) (snd (bindings_of w s))) else 0)"

lemma loopback_effect:
  assumes inv: "can_inv w" and d: "registered w d" and q: "queues w q" and skb: "wf_skb (tx_skb (devs w d))"
  shows "\<exists>w'. rtcan_loopback w d now = Inr w' \<and> can_inv w' \<and> bindings_of w' = bindings_of w \<and>
    rtcan_socket_list w' = rtcan_socket_list w \<and>
    tx_socket (devs w' d) = None \<and>
    (\<exists>v skb'. walked (set (rtcan_socket_list w)) d w v \<and>
      w' = upd_dev d (\<lambda>dev. dev\<lparr>tx_skb := skb', tx_socket := None\<rparr>) v) \<and>
    queues w' (\<lambda>s. (q_add (msg_of (tx_skb (devs w d)) (stamp_for (socks w s) now)) ^^
      loopback_hits w d (rb_can_id (rb_frame (tx_skb (devs w d)))) s) (q s))"
proof -
  let ?skb = "tx_skb (devs w d)"
  let ?id = "rb_can_id (rb_frame ?skb)"
  define P where "P e = (tx_socket (devs w d) \<noteq> fst e \<and> rtcan_accept_msg ?id (snd e))" for e :: "nat option \<times> can_filter"
  obtain frame where frame: "rb_memcpy (rb_frame ?skb) (rb_frame_size ?skb) (u64_bytes now) = Inr frame"
      "same_msg now ?skb (?skb\<lparr>rb_frame := frame\<rparr>)"
    using stamp_ok [OF skb] by blast
  then have skb1: "wf_skb (?skb\<lparr>rb_frame := frame\<rparr>)" "stamped (?skb\<lparr>rb_frame := frame\<rparr>) now" "rb_can_id frame = ?id"
      "\<And>ts. msg_of (?skb\<lparr>rb_frame := frame\<rparr>) ts = msg_of ?skb ts"
    using same_msg_id [OF frame(2)] by (simp_all add: same_msg_def)
  have "test_is (match_loopback (tx_socket (devs w d))) w ?id P"
    by (auto simp: test_is_def match_loopback_def P_def)
  then obtain w' skb' where res: "rcv_listeners RTCAN_MAX_RECEIVERS (match_loopback (tx_socket (devs w d)))
        (\<lambda>dev. dev\<lparr>rx_count := rx_count dev + 1\<rparr>) w d (?skb\<lparr>rb_frame := frame\<rparr>) (recv_list (devs w d)) = Inr (w', skb')"
      "walked (set (rtcan_socket_list w)) d w w'"
      "queues w' (\<lambda>s. (q_add (msg_of ?skb (stamp_for (socks w s) now)) ^^
      (if in_range (fst (bindings_of w s)) (dev_ifindex (devs w d))
       then length (filter (\<lambda>f. P (Some s, f)) (snd (bindings_of w s))) else 0)) (q s))"
    using listeners_deliver [OF inv d q skb1(1,2), of "match_loopback (tx_socket (devs w d))" P
        "\<lambda>dev. dev\<lparr>rx_count := rx_count dev + 1\<rparr>"]
    by (auto simp: skb1 counted_def)
  define w2 where "w2 = upd_dev d (\<lambda>dev. dev\<lparr>tx_skb := skb', tx_socket := None\<rparr>) w'"
  have P: "(if in_range (fst (bindings_of w s)) (dev_ifindex (devs w d))
       then length (filter (\<lambda>f. P (Some s, f)) (snd (bindings_of w s))) else 0) = loopback_hits w d ?id s" for s
    by (simp add: loopback_hits_def P_def)
  have b: "bindings_of w2 = bindings_of w'" by (simp add: w2_def bindings_of_def fun_eq_iff)
  have "dev_holds (dev\<lparr>tx_skb := a, tx_socket := c\<rparr>) M = dev_holds dev M" for dev a c M
    by (simp add: ft.holds_def dev_view_def dev_lists_def)
  then have "filters_for w2 B" if "filters_for w' B" for B
    using that by (intro filters_for_cong [of w2 w']) (auto simp: w2_def)
  then have "can_inv w2"
    using walked_inv(1) [OF inv res(2)] b by (simp add: can_inv_def) (simp add: w2_def)
  moreover have "rtcan_loopback w d now = Inr w2"
    using frame(1) res(1) by (simp add: rtcan_loopback_def w2_def)
  moreover have "queues w2 (\<lambda>s. (q_add (msg_of ?skb (stamp_for (socks w s) now)) ^^ loopback_hits w d ?id s) (q s))"
    using res(3) unfolding P by (auto simp: w2_def queues_def)
  moreover have "rtcan_socket_list w2 = rtcan_socket_list w" "tx_socket (devs w2 d) = None"
    using res(2) by (simp_all add: w2_def walked_def)
  ultimately show ?thesis
    using res(2) b walked_inv(2) [OF inv res(2)] unfolding w2_def by (intro exI conjI) auto
qed

text \<open>A frame on its way out, stored for the loopback.\<close>

definition sent_msg :: "rtcan_device \<Rightarrow> can_frame \<Rightarrow> u64 option \<Rightarrow> can_msg" where
  "sent_msg dev frame ts = \<lparr>m_id = frm_can_id frame, m_ifindex = of_nat (dev_ifindex dev), m_dlc = frm_can_dlc frame,
     m_data = (if frm_can_id frame AND CAN_RTR_FLAG = 0 then take (unat (frm_can_dlc frame)) (frm_data frame) else []),
     m_ts = ts\<rparr>"

lemma small_dlc: "(dlc :: u8) \<le> 8 \<Longrightarrow> dlc AND RTCAN_HAS_NO_TIMESTAMP = dlc" "dlc \<le> 8 \<Longrightarrow> unat dlc \<le> 8"
proof -
  assume "dlc \<le> 8"
  then show n: "unat dlc \<le> 8" by (simp add: word_le_nat_alt)
  then have "unat dlc < 2 ^ 7" by simp
  then have "take_bit 7 dlc = dlc"
    by (simp add: word_unat_eq_iff unsigned_take_bit_eq take_bit_nat_eq_self)
  moreover have "RTCAN_HAS_NO_TIMESTAMP = mask 7" by (simp add: RTCAN_HAS_NO_TIMESTAMP_def mask_eq_exp_minus_1)
  ultimately show "dlc AND RTCAN_HAS_NO_TIMESTAMP = dlc" by (simp add: take_bit_eq_mask)
qed

lemma tx_push_effect:
  assumes dlc: "frm_can_dlc frame \<le> 8" and dat: "length (frm_data frame) = 8"
    and buf: "length (rb_frame (tx_skb (devs w d))) = sizeof_rb_frame"
  shows "\<exists>skb. rtcan_tx_push w d s frame = Inr (upd_dev d (\<lambda>dev. dev\<lparr>tx_skb := skb, tx_socket := Some s\<rparr>) w) \<and>
    wf_skb skb \<and> (\<forall>ts. msg_of skb ts = sent_msg (devs w d) frame ts)"
proof -
  let ?n = "unat (frm_can_dlc frame)" and ?f = "rb_frame (tx_skb (devs w d))"
  let ?copy = "?n \<noteq> 0 \<and> frm_can_id frame AND CAN_RTR_FLAG = 0"
  have n: "?n \<le> 8" and and7: "frm_can_dlc frame AND RTCAN_HAS_NO_TIMESTAMP = frm_can_dlc frame"
    using small_dlc dlc by blast+
  have len: "length ?f = 22" using buf by (simp add: EMPTY_RB_FRAME_SIZE_eq)
  define f1 where "f1 = set_rb_can_dlc (frm_can_dlc frame) (set_rb_can_id (frm_can_id frame) ?f)"
  define f2 where "f2 = (if ?copy then memcpy_at f1 6 (take ?n (frm_data frame)) else f1)"
  define f3 where "f3 = set_rb_can_ifindex (of_nat (dev_ifindex (devs w d))) f2"
  define skb where "skb = \<lparr>rb_frame_size = EMPTY_RB_FRAME_SIZE + (if ?copy then ?n else 0), rb_frame = f3\<rparr>"
  have l1: "length f1 = 22" "take 4 f1 = u32_bytes (frm_can_id frame)" "f1 ! 5 = frm_can_dlc frame"
    using len by (simp_all add: f1_def set_rb_can_dlc_def set_rb_can_id_def memcpy_at_def)
  have l2: "length f2 = 22" "take 6 f2 = take 6 f1" "?copy \<Longrightarrow> take ?n (drop 6 f2) = take ?n (frm_data frame)"
    using l1 n dat by (auto simp: f2_def memcpy_at_def)
  have "take 4 f2 = take 4 f1" "f2 ! 5 = f1 ! 5"
    using l1 n dat by (auto simp: f2_def take_memcpy_at nth_memcpy_at)
  then have l3: "length f3 = 22" "rb_can_id f3 = frm_can_id frame" "rb_can_dlc f3 = frm_can_dlc frame"
      "rb_can_ifindex f3 = of_nat (dev_ifindex (devs w d))" "drop 6 f3 = drop 6 f2"
    using l1 l2(1) by (simp_all add: f3_def set_rb_can_ifindex_def rb_can_id_def rb_can_dlc_def rb_can_ifindex_def)
  have pay: "skb_payload skb = (if ?copy then ?n else 0)"
    using n by (auto simp: skb_payload_def skb_def l3 and7 payload_len_def)
  have "rtcan_tx_push w d s frame = Inr (upd_dev d (\<lambda>dev. dev\<lparr>tx_skb := skb, tx_socket := Some s\<rparr>) w)"
    using n dat unfolding rtcan_tx_push_def Let_def f1_def [symmetric]
    by (simp add: f2_def f3_def skb_def)
  moreover have "wf_skb skb" unfolding wf_skb_def pay by (simp add: skb_def l3 EMPTY_RB_FRAME_SIZE_eq)
  moreover have "msg_of skb ts = sent_msg (devs w d) frame ts" for ts
    unfolding msg_of_def pay sent_msg_def using l2(3) by (auto simp: skb_def l3 and7)
  ultimately show ?thesis by blast
qed

text \<open>C7: A sent frame comes back to every other socket: after it was stored and the controller
  reported the transmission, each live socket but the sender has it in its queue, with the sender's
  identifier, length and payload, once for each of its mounted filters that accepts it.\<close>

theorem loopback_delivers:
  assumes inv: "can_inv w" and d: "registered w d" and q: "queues w q"
    and frame: "frm_can_dlc frame \<le> 8" "length (frm_data frame) = 8"
    and buf: "length (rb_frame (tx_skb (devs w d))) = sizeof_rb_frame"
  shows "\<exists>w1 w2. rtcan_tx_push w d s frame = Inr w1 \<and> rtcan_loopback w1 d now = Inr w2 \<and> can_inv w2 \<and>
    rtcan_socket_list w2 = rtcan_socket_list w \<and> tx_socket (devs w2 d) = None \<and>
    queues w2 (\<lambda>t. if t = s then q t
      else (q_add (sent_msg (devs w d) frame (stamp_for (socks w t) now)) ^^
        (if in_range (fst (bindings_of w t)) (dev_ifindex (devs w d))
         then length (filter (rtcan_accept_msg (frm_can_id frame)) (snd (bindings_of w t))) else 0)) (q t))"
proof -
  obtain skb where skb: "rtcan_tx_push w d s frame =
      Inr (upd_dev d (\<lambda>dev. dev\<lparr>tx_skb := skb, tx_socket := Some s\<rparr>) w)" "wf_skb skb"
      "\<forall>ts. msg_of skb ts = sent_msg (devs w d) frame ts"
    using tx_push_effect [OF frame buf] by blast
  define w1 where "w1 = upd_dev d (\<lambda>dev. dev\<lparr>tx_skb := skb, tx_socket := Some s\<rparr>) w"
  have b: "bindings_of w1 = bindings_of w" by (simp add: w1_def bindings_of_def fun_eq_iff)
  have "dev_holds (dev\<lparr>tx_skb := a, tx_socket := c\<rparr>) M = dev_holds dev M" for dev a c M
    by (simp add: ft.holds_def dev_view_def dev_lists_def)
  then have "filters_for w1 (bindings_of w)"
    using inv by (intro filters_for_cong [of w1 w]) (auto simp: w1_def can_inv_def)
  then have inv1: "can_inv w1" using inv b by (simp add: can_inv_def) (simp add: w1_def)
  have 1: "registered w1 d" "queues w1 q" "wf_skb (tx_skb (devs w1 d))" "tx_skb (devs w1 d) = skb"
      "tx_socket (devs w1 d) = Some s" "dev_ifindex (devs w1 d) = dev_ifindex (devs w d)" "socks w1 = socks w"
    using d q skb(2) by (simp_all add: w1_def registered_def queues_def)
  have "rb_can_id (rb_frame skb) = frm_can_id frame"
    using skb(3) unfolding msg_of_def sent_msg_def by (metis can_msg.select_convs(1))
  then have "loopback_hits w1 d (rb_can_id (rb_frame skb)) t = (if t = s then 0 else
      if in_range (fst (bindings_of w t)) (dev_ifindex (devs w d))
      then length (filter (rtcan_accept_msg (frm_can_id frame)) (snd (bindings_of w t))) else 0)" for t
    by (simp add: loopback_hits_def 1 b)
  note hits = this
  obtain w2 where w2: "rtcan_loopback w1 d now = Inr w2" "can_inv w2" "tx_socket (devs w2 d) = None"
      "rtcan_socket_list w2 = rtcan_socket_list w1"
      "queues w2 (\<lambda>t. (q_add (msg_of skb (stamp_for (socks w t) now)) ^^
        loopback_hits w1 d (rb_can_id (rb_frame skb)) t) (q t))"
    using loopback_effect [OF inv1 1(1-3), of now] unfolding 1(4,7) by blast
  have "queues w2 (\<lambda>t. if t = s then q t
      else (q_add (sent_msg (devs w d) frame (stamp_for (socks w t) now)) ^^
        (if in_range (fst (bindings_of w t)) (dev_ifindex (devs w d))
         then length (filter (rtcan_accept_msg (frm_can_id frame)) (snd (bindings_of w t))) else 0)) (q t))"
    using w2(5) unfolding hits queues_def skb(3) [rule_format] by auto
  then show ?thesis using skb(1) w2 by (auto simp: w1_def)
qed

section \<open>Receiving\<close>

interpretation rx_sem: sem_field "recv_sem_of s" "upd_recv_sem s" for s
  by unfold_locales (simp_all add: recv_sem_of_def upd_recv_sem_def upd_sock_def)

interpretation txs: sem_field "tx_sem_of d" "upd_tx_sem d" for d
  by unfold_locales (simp_all add: tx_sem_of_def upd_tx_sem_def upd_dev_def)

definition recv_args_ok :: "msghdr \<Rightarrow> u32 \<Rightarrow> bool" where
  "recv_args_ok msg flags \<longleftrightarrow> flags AND NOT (MSG_DONTWAIT OR MSG_PEEK) = 0 \<and>
     (case mh_name msg of Some _ \<Rightarrow> sizeof_sockaddr_can \<le> mh_namelen msg | None \<Rightarrow> mh_namelen msg = 0) \<and>
     mh_iovlen msg = 1 \<and> sizeof_can_frame \<le> mh_iov_len msg \<and>
     (if mh_control msg then RTCAN_TIMESTAMP_SIZE \<le> mh_controllen msg else mh_controllen msg = 0)"

text \<open>The caller's view of a message.\<close>

definition received_msg :: "msghdr \<Rightarrow> can_msg \<Rightarrow> received" where
  "received_msg msg m = \<lparr>rcv_frame = \<lparr>frm_can_id = m_id m, frm_can_dlc = m_dlc m, frm_data = padded (m_data m)\<rparr>,
     rcv_name = (if mh_namelen msg \<noteq> 0 then Some \<lparr>scan_family = AF_CAN, scan_ifindex = int (unat (m_ifindex m))\<rparr> else None),
     rcv_timestamp = (if mh_controllen msg \<noteq> 0 then m_ts m else None),
     rcv_controllen = (if mh_controllen msg \<noteq> 0 \<and> m_ts m \<noteq> None then RTCAN_TIMESTAMP_SIZE else 0)\<rparr>"

lemma recvmsg_granted:
  assumes args: "recv_args_ok msg flags" and bus: "err_mask (socks w s) AND CAN_ERR_BUSERROR = 0"
    and q: "sock_queue (socks w s) (m # q)"
  shows "rtcan_raw_recvmsg ops w s msg flags k ks = Some (Inr (received_msg msg m),
    if flags AND MSG_PEEK \<noteq> 0 then w
    else upd_sock s (\<lambda>sock. sock\<lparr>recv_sem := (recv_sem sock)\<lparr>sem_count := sem_count (recv_sem sock) - 1\<rparr>,
       recv_head := ring_advance RTCAN_RXBUF_SIZE (recv_head sock)
         (6 + length (m_data m) + (if mh_controllen msg \<noteq> 0 \<and> m_ts m \<noteq> None then 8 else 0))\<rparr>) w)"
proof -
  define w2 where "w2 = upd_recv_sem s (\<lambda>x. x\<lparr>sem_count := sem_count x - 1\<rparr>) w"
  have h: "ring_holds (socks w s) (m # q)" and c: "sem_idle (recv_sem_of s w)" "0 < sem_val (recv_sem_of s w)"
    using q by (simp_all add: sock_queue_def rs.counts_def recv_sem_of_def)
  have b: "length (recv_buf (socks w s)) = RTCAN_RXBUF_SIZE" "recv_head (socks w s) < RTCAN_RXBUF_SIZE"
    using h by (simp_all add: ring_holds_def)
  have down: "rtdm_sem_timeddown_in (recv_sem_of s) (upd_recv_sem s) w t k ks = Some (Inr 0, w2)" for t
    unfolding w2_def by (rule rx_sem.timeddown_in_granted [OF c])
  have "fetch_frame (socks w2 s) want = fetch_frame (socks w s) want" for want
    by (simp add: fetch_frame_def upd_recv_sem_def w2_def)
  note fetch = this [unfolded fetch_frame_at [OF ring_holds_head(2,1) [OF h] b]]
  have up: "upd_recv_sem s rtdm_sem_up w2 = w"
    by (simp add: upd_recv_sem_def rtdm_sem_up_def upd_sock_def w2_def)
  have head: "upd_sock s (\<lambda>sock. sock\<lparr>recv_head := ring_advance RTCAN_RXBUF_SIZE (recv_head (socks w s)) n\<rparr>) w2 =
      upd_sock s (\<lambda>sock. sock\<lparr>recv_sem := (recv_sem sock)\<lparr>sem_count := sem_count (recv_sem sock) - 1\<rparr>,
        recv_head := ring_advance RTCAN_RXBUF_SIZE (recv_head sock) n\<rparr>) w" for n
    by (simp add: w2_def upd_recv_sem_def upd_sock_def)
  have checks: "flags AND NOT (MSG_DONTWAIT OR MSG_PEEK) = 0"
      "\<not> (case mh_name msg of Some _ \<Rightarrow> mh_namelen msg < sizeof_sockaddr_can | None \<Rightarrow> mh_namelen msg \<noteq> 0)"
      "mh_iovlen msg = 1" "\<not> mh_iov_len msg < sizeof_can_frame"
      "\<not> (if mh_control msg then mh_controllen msg < RTCAN_TIMESTAMP_SIZE else mh_controllen msg \<noteq> 0)"
    using args by (auto simp: recv_args_ok_def split: option.splits if_splits)
  have en: "rtcan_raw_enable_bus_err ops w s = w" using bus by (simp add: rtcan_raw_enable_bus_err_def)
  show ?thesis
    unfolding rtcan_raw_recvmsg_def Let_def en
    using checks wire_dlc_simps(2) [OF ring_holds_head(2) [OF h]]
    by (cases "m_ts m") (simp_all add: down fetch up head received_msg_def)
qed

end
