(* ===== verification/Can_Receive.thy ===== *)
theory Can_Receive
  imports Can_Delivery
begin

text \<open>
  The properties of \<open>recvmsg\<close> and \<open>sendmsg\<close> over the message queues, and witnesses for the data path.
\<close>

section \<open>recvmsg\<close>

text \<open>C2: \<open>recvmsg\<close> is first-in first-out: with a message queued it returns at once the oldest one
  (identifier, length, payload, sender's interface, timestamp if there is one) and leaves the rest of
  the queue, or all of it with \<open>MSG_PEEK\<close>; other sockets are not touched. The caller passes a control
  buffer whenever the message carries a timestamp.\<close>

theorem recvmsg_fifo:
  assumes "recv_args_ok msg flags" "err_mask (socks w s) AND CAN_ERR_BUSERROR = 0"
    "sock_queue (socks w s) (m # q)" "mh_controllen msg \<noteq> 0 \<or> m_ts m = None"
  shows "\<exists>w'. rtcan_raw_recvmsg ops w s msg flags k ks = Some (Inr (received_msg msg m), w') \<and>
    sock_queue (socks w' s) (if flags AND MSG_PEEK \<noteq> 0 then m # q else q) \<and>
    (\<forall>t. t \<noteq> s \<longrightarrow> socks w' t = socks w t) \<and> devs w' = devs w"
proof (cases "flags AND MSG_PEEK \<noteq> 0")
  case True
  then show ?thesis using recvmsg_granted [OF assms(1-3)] assms(3) by auto
next
  case False
  let ?sock = "socks w s"
  define w' where "w' = upd_sock s (\<lambda>sock. sock\<lparr>recv_sem := (recv_sem sock)\<lparr>sem_count := sem_count (recv_sem sock) - 1\<rparr>,
       recv_head := ring_advance RTCAN_RXBUF_SIZE (recv_head sock) (length (encode m))\<rparr>) w"
  have "6 + length (m_data m) + (if mh_controllen msg \<noteq> 0 \<and> m_ts m \<noteq> None then 8 else 0) = length (encode m)"
    using assms(4) by (auto simp: length_encode)
  then have res: "rtcan_raw_recvmsg ops w s msg flags k ks = Some (Inr (received_msg msg m), w')"
    using recvmsg_granted [OF assms(1-3), of ops k ks] False by (simp only: w'_def simp_thms if_False)
  have "ring_holds ?sock (m # q)" "sem_idle (recv_sem ?sock)" "sem_val (recv_sem ?sock) = Suc (length q)"
    using assms(3) by (simp_all add: sock_queue_def rs.counts_def)
  then have "sock_queue (socks w' s) q"
    using ring_holds_consume [of ?sock m q]
    by (auto simp: sock_queue_def w'_def rs.counts_def sem_idle_def sem_val_def ring_holds_def)
  then show ?thesis using res False by (auto simp: w'_def)
qed

text \<open>On an empty queue \<open>recvmsg\<close> with \<open>MSG_DONTWAIT\<close> returns \<open>-EAGAIN\<close> and changes nothing.\<close>

theorem recvmsg_empty:
  assumes "recv_args_ok msg flags" "err_mask (socks w s) AND CAN_ERR_BUSERROR = 0"
    "sock_queue (socks w s) []" "flags AND MSG_DONTWAIT \<noteq> 0"
  shows "rtcan_raw_recvmsg ops w s msg flags quiet_in ks = Some (Inl EAGAIN, w)"
proof -
  have c: "sem_idle (recv_sem_of s w)" "sem_val (recv_sem_of s w) = 0"
    using assms(3) by (simp_all add: sock_queue_def rs.counts_def recv_sem_of_def)
  have down: "rtdm_sem_timeddown_in (recv_sem_of s) (upd_recv_sem s) w RTDM_TIMEOUT_NONE quiet_in ks =
      Some (Inl EWOULDBLOCK, w)"
    by (rule rx_sem.timeddown_in_nowait [OF c]) (simp add: RTDM_TIMEOUT_NONE_def)
  have "rtcan_raw_enable_bus_err ops w s = w" using assms(2) by (simp add: rtcan_raw_enable_bus_err_def)
  then show ?thesis
    using assms(1,4) by (auto simp: rtcan_raw_recvmsg_def recv_args_ok_def down Let_def split: option.splits if_splits)
qed

text \<open>A fault of the code: a reader that passes no control buffer does not skip the timestamp of
  a stamped message. The ring is out of step from then on: the next \<open>recvmsg\<close> takes the low half of
  the old timestamp for the identifier of a frame.\<close>

theorem recvmsg_timestamp_desync:
  assumes "recv_args_ok msg flags" "err_mask (socks w s) AND CAN_ERR_BUSERROR = 0"
    "sock_queue (socks w s) (m # q)" "mh_controllen msg = 0" "m_ts m = Some t" "flags AND MSG_PEEK = 0"
  shows "\<exists>w'. rtcan_raw_recvmsg ops w s msg flags k ks = Some (Inr (received_msg msg m), w') \<and>
    frm_can_id (fst (fetch_frame (socks w' s) want)) = ucast t"
proof -
  let ?sock = "socks w s"
  define h' where "h' = ring_advance RTCAN_RXBUF_SIZE (recv_head ?sock) (6 + length (m_data m))"
  define w' where "w' = upd_sock s (\<lambda>sock. sock\<lparr>recv_sem := (recv_sem sock)\<lparr>sem_count := sem_count (recv_sem sock) - 1\<rparr>,
       recv_head := ring_advance RTCAN_RXBUF_SIZE (recv_head sock) (6 + length (m_data m))\<rparr>) w"
  have res: "rtcan_raw_recvmsg ops w s msg flags k ks = Some (Inr (received_msg msg m), w')"
    using recvmsg_granted [OF assms(1-3), of ops k ks] assms(4,6) by (simp add: w'_def)
  have h: "ring_holds ?sock (m # q)" using assms(3) by (simp add: sock_queue_def)
  have "encode m = (u32_bytes (m_id m) @ [m_ifindex m] @ [wire_dlc m] @ m_data m) @ u32_bytes (ucast t) @
      u32_bytes (ucast (drop_bit 32 t))"
    by (simp add: encode_def ts_bytes_def assms(5) u64_bytes_def)
  with ring_holds_head(1) [OF h] have "at_ring (recv_buf ?sock) h' (u32_bytes (ucast t))"
    by (simp only: at_ring_append) (simp add: h'_def)
  moreover have "length (recv_buf ?sock) = RTCAN_RXBUF_SIZE" "h' < RTCAN_RXBUF_SIZE"
    using h by (simp_all add: ring_holds_def h'_def rxr.advance_less)
  ultimately have "MEMCPY_FROM_RING_BUF (recv_buf ?sock) h' 4 = (u32_bytes (ucast t), ring_advance RTCAN_RXBUF_SIZE h' 4)"
    using memcpy_from_ring [of "recv_buf ?sock" h' "u32_bytes (ucast t)"] by (simp add: RTCAN_RXBUF_SIZE_def)
  then have "frm_can_id (fst (fetch_frame (socks w' s) want)) = ucast t"
    by (simp add: fetch_frame_def Let_def w'_def h'_def [symmetric] split: prod.splits)
  then show ?thesis using res by blast
qed

section \<open>sendmsg\<close>

text \<open>C36: A fault of the code: a data frame with a length code of 9 to 15 passes the checks of
  \<open>sendmsg\<close>, and storing it for the loopback copies that many bytes out of the 8-byte payload.\<close>

theorem sendmsg_overlong_dlc:
  assumes "sendmsg_args (socks w s) user msg flags = Inr (ifindex, frame)"
    "fst (rtcan_dev_get_by_index w ifindex) = Some d"
    "\<not> bit (context_flags (socks w s)) RTDM_CLOSING" "loopback (socks w s) \<noteq> 0"
    "sem_idle (tx_sem (devs w d))" "0 < sem_val (tx_sem (devs w d))"
    "length (frm_data frame) = 8" "8 < frm_can_dlc frame" "frm_can_id frame AND CAN_RTR_FLAG = 0"
  shows "frm_can_dlc frame \<le> 15 \<and> rtcan_raw_sendmsg ops w s user msg flags task k ks = Inl OutOfBounds"
proof -
  define w1 where "w1 = rtcan_dev_reference d w"
  define w2 where "w2 = upd_sock s (\<lambda>sock. sock\<lparr>tx_wait_head := task # tx_wait_head sock\<rparr>) w1"
  have get: "rtcan_dev_get_by_index w ifindex = (Some d, w1)"
    using assms(2) by (auto simp: rtcan_dev_get_by_index_def w1_def split: if_splits option.splits)
  have s1: "socks w1 = socks w" "tx_sem (devs w1 d) = tx_sem (devs w d)"
    by (simp_all add: w1_def rtcan_dev_reference_def)
  have c: "sem_idle (tx_sem_of d w2)" "0 < sem_val (tx_sem_of d w2)"
    using assms(5,6) s1 by (simp_all add: w2_def tx_sem_of_def)
  define w3 where "w3 = upd_tx_sem d (\<lambda>x. x\<lparr>sem_count := sem_count x - 1\<rparr>) w2"
  define w4 where "w4 = upd_sock s (\<lambda>sock. sock\<lparr>tx_wait_head := remove1 task (tx_wait_head sock)\<rparr>) w3"
  have "task \<in> set (tx_wait_head (socks w3 s))" by (simp add: w3_def upd_tx_sem_def w2_def)
  then have acq: "tx_acquire w1 s d task t k ks = Some (Inr 0, w4)" for t
    using assms(3) txs.timeddown_in_granted [OF c]
    by (simp add: tx_acquire_def s1 w2_def [symmetric] w3_def [symmetric] w4_def)
  have l: "loopback (socks w4 s) \<noteq> 0" using assms(4) by (simp add: w4_def w3_def w2_def upd_tx_sem_def s1)
  have dlc: "unat (frm_can_dlc frame) > 8" using assms(8) by (simp add: word_less_nat_alt)
  then have "rtcan_tx_push w4 d s frame = Inl OutOfBounds"
    using assms(7,9) by (simp add: rtcan_tx_push_def Let_def)
  then have "rtcan_raw_sendmsg ops w s user msg flags task k ks = Inl OutOfBounds"
    using assms(1) l by (simp add: rtcan_raw_sendmsg_def get acq tx_transmit_def Let_def)
  moreover have "frm_can_dlc frame \<le> 15"
    using assms(1) by (auto simp: sendmsg_args_def not_less split: if_splits sum.splits)
  ultimately show ?thesis by blast
qed

section \<open>Witnesses\<close>

definition demo_msg :: "u64 option \<Rightarrow> can_msg" where
  "demo_msg ts = \<lparr>m_id = 0x123, m_ifindex = 1, m_dlc = 2, m_data = [0xAB, 0xCD], m_ts = ts\<rparr>"

definition demo_skb :: rtcan_skb where
  "demo_skb = \<lparr>rb_frame_size = 8, rb_frame = [0x23, 1, 0, 0, 1, 2, 0xAB, 0xCD] @ replicate 14 0\<rparr>"

definition demo_hdr :: "bool \<Rightarrow> msghdr" where
  "demo_hdr ctl = \<lparr>mh_name = None, mh_namelen = 0, mh_iovlen = 1, mh_iov_len = 16,
     mh_frame = \<lparr>frm_can_id = 0x123, frm_can_dlc = 9, frm_data = replicate 8 0\<rparr>, mh_readable = True,
     mh_control = ctl, mh_controllen = (if ctl then 8 else 0)\<rparr>"

definition queued_socket :: "u64 option \<Rightarrow> rtcan_socket" where
  "queued_socket ts = blank_socket\<lparr>
     recv_buf := ring_copy_in RTCAN_RXBUF_SIZE (replicate RTCAN_RXBUF_SIZE 0) 0 (encode (demo_msg ts)),
     recv_tail := ring_advance RTCAN_RXBUF_SIZE 0 (length (encode (demo_msg ts))),
     recv_sem := \<lparr>sem_destroy = False, sem_count = 1, sem_sleepers = 0\<rparr>\<rparr>"

definition queued :: "u64 option \<Rightarrow> can_world" where
  "queued ts = bound_socket\<lparr>socks := (\<lambda>_. queued_socket ts)\<rparr>"

lemma blank_queue: "recv_buf sock = replicate RTCAN_RXBUF_SIZE 0 \<Longrightarrow> recv_head sock = 0 \<Longrightarrow> recv_tail sock = 0 \<Longrightarrow>
    ring_holds sock []"
  by (simp add: ring_holds_def ring_used_def) (simp add: RTCAN_RXBUF_SIZE_def)

lemma demo_msg_wf: "wf_msg (demo_msg ts)" "length (encode (demo_msg ts)) \<le> 16"
  by (simp_all add: wf_msg_def demo_msg_def RTCAN_HAS_NO_TIMESTAMP_def payload_len_def can_consts length_encode)

lemma queued_queue: "sock_queue (socks (queued ts) s) [demo_msg ts]" "err_mask (socks (queued ts) s) = 0"
    "rx_timeout (socks (queued ts) s) = 0"
proof -
  have "ring_holds blank_socket []" by (rule blank_queue) (simp_all add: blank_socket_def)
  moreover have "accepts blank_socket (demo_msg ts)"
    using demo_msg_wf(2) [of ts]
    by (simp add: accepts_def used_bytes_def ring_used_def blank_socket_def) (simp add: RTCAN_RXBUF_SIZE_def)
  ultimately show "sock_queue (socks (queued ts) s) [demo_msg ts]"
    using ring_holds_append [OF _ demo_msg_wf(1), of blank_socket "[]" ts]
    by (simp add: sock_queue_def queued_def queued_socket_def blank_socket_def rs.counts_def sem_idle_def sem_val_def)
  show "err_mask (socks (queued ts) s) = 0" "rx_timeout (socks (queued ts) s) = 0"
    by (simp_all add: queued_def queued_socket_def blank_socket_def)
qed

lemma demo_hdr_ok: "recv_args_ok (demo_hdr ctl) 0" "recv_args_ok (demo_hdr ctl) MSG_DONTWAIT"
  by (simp_all add: recv_args_ok_def demo_hdr_def MSG_DONTWAIT_def MSG_PEEK_def sizeof_can_frame_def
      RTCAN_TIMESTAMP_SIZE_def)

theorem recvmsg_fifo_witness:
  "\<exists>w'. rtcan_raw_recvmsg (\<lambda>_. undefined) (queued (Some 5)) 7 (demo_hdr True) 0 quiet_in [] =
      Some (Inr (received_msg (demo_hdr True) (demo_msg (Some 5))), w') \<and> sock_queue (socks w' 7) []"
  using recvmsg_fifo [OF demo_hdr_ok(1) _ queued_queue(1), of "Some 5" 7 True "\<lambda>_. undefined" quiet_in "[]"]
    queued_queue(2) [of "Some 5"] by (auto simp: demo_hdr_def)

theorem recvmsg_timestamp_desync_witness:
  "\<exists>w'. rtcan_raw_recvmsg (\<lambda>_. undefined) (queued (Some 0x42)) 7 (demo_hdr False) 0 quiet_in [] =
      Some (Inr (received_msg (demo_hdr False) (demo_msg (Some 0x42))), w') \<and>
    frm_can_id (fst (fetch_frame (socks w' 7) False)) = 0x42"
  using recvmsg_timestamp_desync [OF demo_hdr_ok(1) _ queued_queue(1), of "Some 0x42" 7 False "0x42"
      "\<lambda>_. undefined" quiet_in "[]" False] queued_queue(2) [of "Some 0x42"]
  by (auto simp: demo_hdr_def demo_msg_def)

definition drained :: can_world where
  "drained = bound_socket\<lparr>socks := (\<lambda>_. blank_socket)\<rparr>"

theorem recvmsg_empty_witness:
  "rtcan_raw_recvmsg (\<lambda>_. undefined) drained 7 (demo_hdr False) MSG_DONTWAIT quiet_in [] = Some (Inl EAGAIN, drained)"
proof (rule recvmsg_empty [OF demo_hdr_ok(2)])
  have "ring_holds blank_socket []" by (rule blank_queue) (simp_all add: blank_socket_def)
  then show "sock_queue (socks drained 7) []"
    by (simp add: sock_queue_def drained_def rs.counts_def sem_idle_def sem_val_def) (simp add: blank_socket_def)
qed (simp_all add: drained_def blank_socket_def MSG_DONTWAIT_def)

theorem mounted_filter_documented_witness:
  "rtcan_accept_msg 0x123 (rtcan_raw_mount_filter \<lparr>flt_can_id = 0x20000100, flt_can_mask = 0x700\<rparr>) = False"
  using mounted_filter_documented [of "0x123" "\<lparr>flt_can_id = 0x20000100, flt_can_mask = 0x700\<rparr>"]
  by (simp add: filter_doc_def can_consts)

lemma bound_socket_queues: "queues bound_socket (\<lambda>_. [])" "registered bound_socket 0" "can_inv bound_socket"
    "bindings_of bound_socket 7 = (0, [zero_filter])" "wf_skb demo_skb" "wants_timestamp (socks bound_socket 7) = False"
proof -
  have "ring_holds (socks bound_socket 7) []"
    by (rule blank_queue) (simp_all add: bound_socket_reach(4) one_socket_def rtcan_socket_init_def one_device_def blank_socket_def)
  then show "queues bound_socket (\<lambda>_. [])"
    by (simp add: queues_def bound_socket_reach(3) sock_queue_def rs.counts_def)
      (simp add: bound_socket_reach(4) one_socket_def rtcan_socket_init_def one_device_def blank_socket_def
        rtdm_sem_init_def sem_idle_def sem_val_def)
  show "registered bound_socket 0" by (simp add: registered_def bound_socket_state(5))
  show "can_inv bound_socket" by (rule sock_life.reach_inv [OF bound_socket_reach(1)])
  show "bindings_of bound_socket 7 = (0, [zero_filter])"
    by (simp add: bindings_of_def bound_socket_reach(3) bound_socket_state mounted_flist_def flist_filters_def mounted_def)
  show "wants_timestamp (socks bound_socket 7) = False"
    by (simp add: wants_timestamp_def bound_socket_reach(4) one_socket_def rtcan_socket_init_def one_device_def blank_socket_def)
  show "wf_skb demo_skb" by code_simp
qed

theorem rcv_delivers_witness:
  "\<exists>w' skb'. rtcan_rcv bound_socket 0 demo_skb 5 = Inr (w', skb') \<and> sock_queue (socks w' 7) [demo_msg None]"
proof -
  have "hits bound_socket 0 0x123 7 = 1" "rb_can_id (rb_frame demo_skb) = 0x123"
      "msg_of demo_skb None = demo_msg None"
    by (simp add: hits_def bound_socket_queues in_range_def zero_filter_def rtcan_accept_msg_def can_consts) code_simp+
  moreover have "q_add (demo_msg None) [] = [demo_msg None]"
    using demo_msg_wf(2) [of None] by (simp add: q_add_def qbytes_def RTCAN_RXBUF_SIZE_def)
  moreover obtain w' skb' where "rtcan_rcv bound_socket 0 demo_skb 5 = Inr (w', skb')"
      "rtcan_socket_list w' = [7]"
      "queues w' (\<lambda>s. (q_add (msg_of demo_skb (stamp_for (socks bound_socket s) 5)) ^^
        hits bound_socket 0 (rb_can_id (rb_frame demo_skb)) s) [])"
    using rcv_delivers [OF bound_socket_queues(3,2,1,5), of 5] bound_socket_reach(3) by auto
  ultimately show ?thesis by (auto simp: queues_def stamp_for_def bound_socket_queues)
qed

definition demo_frame :: "u8 \<Rightarrow> can_frame" where
  "demo_frame dlc = \<lparr>frm_can_id = 0x123, frm_can_dlc = dlc, frm_data = [0xAB, 0xCD, 0, 0, 0, 0, 0, 0]\<rparr>"

theorem loopback_delivers_witness:
  "\<exists>w1 w2. rtcan_tx_push bound_socket 0 8 (demo_frame 2) = Inr w1 \<and> rtcan_loopback w1 0 5 = Inr w2 \<and>
     sock_queue (socks w2 7) [demo_msg None]"
proof -
  have "length (rb_frame (tx_skb (devs bound_socket 0))) = sizeof_rb_frame" "dev_ifindex (devs bound_socket 0) = 1"
    by code_simp+
  moreover have "filter (rtcan_accept_msg 0x123) [zero_filter] = [zero_filter]"
    by (simp add: zero_filter_def rtcan_accept_msg_def can_consts)
  moreover have "q_add (demo_msg None) [] = [demo_msg None]"
    using demo_msg_wf(2) [of None] by (simp add: q_add_def qbytes_def RTCAN_RXBUF_SIZE_def)
  moreover have "sent_msg (devs bound_socket 0) (demo_frame 2) None = demo_msg None"
    using calculation(2) by (simp add: sent_msg_def demo_frame_def demo_msg_def can_consts)
  ultimately show ?thesis
    using loopback_delivers [OF bound_socket_queues(3,2,1), of "demo_frame 2" 8 5] bound_socket_reach(3)
    by (auto simp: queues_def stamp_for_def bound_socket_queues in_range_def demo_frame_def)
qed

definition sending :: can_world where
  "sending = upd_dev 0 (\<lambda>dev. dev\<lparr>tx_sem := \<lparr>sem_destroy = False, sem_count = 1, sem_sleepers = 0\<rparr>\<rparr>)
     (bound_socket\<lparr>socks := (\<lambda>_. blank_socket)\<rparr>)"

definition overlong_hdr :: msghdr where
  "overlong_hdr = (demo_hdr False)\<lparr>mh_name := Some \<lparr>scan_family = AF_CAN, scan_ifindex = 1\<rparr>, mh_namelen := 8\<rparr>"

theorem sendmsg_overlong_dlc_witness:
  "rtcan_raw_sendmsg (\<lambda>_. undefined) sending 7 True overlong_hdr 0 1 quiet_in [] = Inl OutOfBounds"
proof -
  have "sendmsg_args (socks sending 7) True overlong_hdr 0 = Inr (1, mh_frame overlong_hdr)"
    "fst (rtcan_dev_get_by_index sending 1) = Some 0"
    by code_simp+
  then show ?thesis
    using sendmsg_overlong_dlc [of sending 7 True overlong_hdr 0 1 "mh_frame overlong_hdr" 0 "\<lambda>_. undefined" 1 quiet_in "[]"]
    by (simp add: sending_def blank_socket_def sem_idle_def sem_val_def overlong_hdr_def demo_hdr_def can_consts)
qed

end
