(* ===== verification/Can_Ioctl.thy ===== *)
theory Can_Ioctl
  imports Can_Receive "HOL-Library.Signed_Division"
begin

text \<open>
  Device configuration (\<open>rtcan_raw_dev.c\<close>) and the ioctl dispatcher of \<open>rtcan_raw.c\<close>: the bit timing
  calculation in the 32-bit arithmetic of C, the get and set requests, the stop/configure/restart
  sequence around a change of the bit timing.
\<close>

section \<open>Bit timing\<close>

definition RTCAN_MAX_TSEG1 :: int where "RTCAN_MAX_TSEG1 = 15"
definition RTCAN_MAX_TSEG2 :: int where "RTCAN_MAX_TSEG2 = 7"

text \<open>
  \<open>rate\<close> is unsigned, \<open>clock\<close>, \<open>brp\<close> and the errors are \<open>int\<close>. \<open>clock / ((1 + tseg / 2) * rate)\<close> is
  therefore an unsigned division, by zero if the product wraps to 0; \<open>clock / (brp * (1 + tseg / 2))\<close>
  is a signed one. The state of the loop is \<open>(best_error, best_tseg, best_brp)\<close>.
\<close>

definition bt_try :: "u32 \<Rightarrow> u32 \<Rightarrow> nat \<Rightarrow> int \<times> int \<times> int \<Rightarrow> (int \<times> int \<times> int) kres" where
  "bt_try clock rate tseg best =
     (let quanta = 1 + tseg div 2; prod = of_nat quanta * rate in
      if prod = 0 then Inl DivByZero
      else
        let brp = sint (clock div prod + of_nat (tseg mod 2)) in
        if brp = 0 \<or> brp > 64 then Inr best
        else
          let error0 = sint (rate - of_int (sint clock sdiv (brp * int quanta)));
              error = (if error0 < 0 then - error0 else error0)
          in if error \<le> fst best then Inr (error, int (tseg div 2), brp - 1) else Inr best)"

fun bt_loop :: "u32 \<Rightarrow> u32 \<Rightarrow> nat list \<Rightarrow> int \<times> int \<times> int \<Rightarrow> (int \<times> int \<times> int) kres" where
  "bt_loop clock rate [] best = Inr best"
| "bt_loop clock rate (t # ts) best = kbind (bt_try clock rate t best) (bt_loop clock rate ts)"

definition bt_segments :: "int \<Rightarrow> int \<Rightarrow> int \<times> int" where
  "bt_segments sampl_pt best_tseg =
     (let t2 = best_tseg - (sampl_pt * (best_tseg + 1)) sdiv 100;
          t2' = (if t2 < 0 then 0 else t2);
          tseg2 = (if t2' > RTCAN_MAX_TSEG2 then RTCAN_MAX_TSEG2 else t2');
          tseg1 = best_tseg - tseg2 - 2
      in if tseg1 > RTCAN_MAX_TSEG1 then (RTCAN_MAX_TSEG1, best_tseg - RTCAN_MAX_TSEG1 - 2) else (tseg1, tseg2))"

definition rtcan_calc_bit_time :: "u32 \<Rightarrow> u32 \<Rightarrow> (errno + can_bittime_std) kres" where
  "rtcan_calc_bit_time clock rate =
     (let sampl_pt = (if rate > (1000000 + 500000) div 2 then 75 else 90);
          sampl_pt = (if rate < (12500 + 10000) div 2 then 75 else sampl_pt);
          sjw = (if rate < (100000 + 125000) div 2 then 1 else 0 :: int)
      in kbind (bt_loop clock rate [4..<50] (1000000000, 0, 0)) (\<lambda>(best_error, best_tseg, best_brp).
         if best_error \<noteq> 0 \<and> rate div of_int best_error < 10 then Inr (Inl EDOM)
         else
           let (tseg1, tseg2) = bt_segments sampl_pt best_tseg
           in Inr (Inr \<lparr>brp = of_int (best_brp + 1), prop_seg = 0, phase_seg1 = of_int (tseg1 + 1),
                phase_seg2 = of_int (tseg2 + 1), sjw = of_int (sjw + 1), sam = 0\<rparr>)))"

section \<open>Requests\<close>

text \<open>
  A request with the data of its \<open>ifreq\<close>; a successful get request returns a reply.
\<close>

datatype dev_get = SIOCGIFINDEX | SIOCGCANSTATE | SIOCGCANCTRLMODE | SIOCGCANBAUDRATE | SIOCGCANCUSTOMBITTIME

datatype dev_set = SIOCSCANMODE can_mode | SIOCSCANCTRLMODE u32 | SIOCSCANBAUDRATE u32
  | SIOCSCANCUSTOMBITTIME can_bittime

datatype dev_reply = RIfindex nat | RState can_state | RCtrlmode u32 | RBaudrate u32 | RBittime can_bittime | RNone

definition refresh_state ::
    "'z can_world_scheme can_ops \<Rightarrow> 'z can_world_scheme \<Rightarrow> nat \<Rightarrow> 'z can_world_scheme" where
  "refresh_state ops w d =
     (case do_get_state ops of
        None \<Rightarrow> w
      | Some f \<Rightarrow> (case f d w of (st, w1) \<Rightarrow> upd_dev d (\<lambda>dev. dev\<lparr>dev_state := st\<rparr>) w1))"

definition rtcan_raw_ioctl_dev_get ::
    "'z can_world_scheme can_ops \<Rightarrow> 'z can_world_scheme \<Rightarrow> nat \<Rightarrow> dev_get \<Rightarrow> dev_reply \<times> 'z can_world_scheme" where
  "rtcan_raw_ioctl_dev_get ops w d req =
     (case req of
        SIOCGIFINDEX \<Rightarrow> (RIfindex (dev_ifindex (devs w d)), w)
      | SIOCGCANSTATE \<Rightarrow> let w1 = refresh_state ops w d in (RState (dev_state (devs w1 d)), w1)
      | SIOCGCANCTRLMODE \<Rightarrow> (RCtrlmode (ctrl_mode (devs w d)), w)
      | SIOCGCANBAUDRATE \<Rightarrow> (RBaudrate (baudrate (devs w d)), w)
      | SIOCGCANCUSTOMBITTIME \<Rightarrow> (RBittime (bit_time (devs w d)), w))"

text \<open>
  The rate a custom bit timing gives: unsigned arithmetic, a division by zero when the product wraps.
\<close>

definition custom_baudrate :: "u32 \<Rightarrow> can_bittime \<Rightarrow> u32 kres" where
  "custom_baudrate clock bt =
     (case bt of
        CAN_BITTIME_STD std \<Rightarrow>
          if brp std \<noteq> 0 then
            (let prod = brp std * (1 + ucast (prop_seg std) + ucast (phase_seg1 std) + ucast (phase_seg2 std))
             in if prod = 0 then Inl DivByZero else Inr (clock div prod))
          else Inr CAN_BAUDRATE_UNKNOWN
      | _ \<Rightarrow> Inr CAN_BAUDRATE_UNKNOWN)"

definition call_set_mode ::
    "'z can_world_scheme can_ops \<Rightarrow> nat \<Rightarrow> can_mode \<Rightarrow> 'z can_world_scheme \<Rightarrow> (cret \<times> 'z can_world_scheme) kres" where
  "call_set_mode ops d mode w = (case do_set_mode ops of None \<Rightarrow> Inl NullDeref | Some f \<Rightarrow> f d mode w)"

definition call_set_bit_time ::
    "'z can_world_scheme can_ops \<Rightarrow> nat \<Rightarrow> can_bittime \<Rightarrow> 'z can_world_scheme \<Rightarrow> (cret \<times> 'z can_world_scheme) kres" where
  "call_set_bit_time ops d bt w = (case do_set_bit_time ops of None \<Rightarrow> Inl NullDeref | Some f \<Rightarrow> Inr (f d bt w))"

text \<open>The configuration itself, between the stop and the restart.\<close>

definition dev_set_body ::
    "'z can_world_scheme can_ops \<Rightarrow> 'z can_world_scheme \<Rightarrow> nat \<Rightarrow> dev_set \<Rightarrow> can_bittime
      \<Rightarrow> (cret \<times> 'z can_world_scheme) kres" where
  "dev_set_body ops w d req bt_buf =
     (case req of
        SIOCSCANMODE mode \<Rightarrow>
          if do_set_mode ops \<noteq> None \<and> \<not> (mode = CAN_MODE_START \<and> CAN_STATE_OPERATING (dev_state (devs w d)))
          then call_set_mode ops d mode w else Inr (Inr 0, w)
      | SIOCSCANCTRLMODE m \<Rightarrow> Inr (Inr 0, upd_dev d (\<lambda>dev. dev\<lparr>ctrl_mode := m\<rparr>) w)
      | SIOCSCANBAUDRATE rate \<Rightarrow>
          kbind (call_set_bit_time ops d bt_buf w) (\<lambda>(r, w1).
          Inr (r, if r = Inr 0 then upd_dev d (\<lambda>dev. dev\<lparr>baudrate := rate, bit_time := bt_buf\<rparr>) w1 else w1))
      | SIOCSCANCUSTOMBITTIME bt \<Rightarrow>
          kbind (call_set_bit_time ops d bt w) (\<lambda>(r, w1).
          if r = Inr 0 then
            kbind (custom_baudrate (can_sys_clock (devs w1 d)) bt) (\<lambda>b.
            Inr (r, upd_dev d (\<lambda>dev. dev\<lparr>bit_time := bt, baudrate := b\<rparr>) w1))
          else Inr (r, w1)))"

text \<open>
  The first switch of \<open>rtcan_raw_ioctl_dev_set\<close>: \<open>None\<close> is its early return, otherwise the value of the
  local variable \<open>bit_time\<close>. \<open>garbage\<close> is what the uninitialised variable holds: a failed calculation
  leaves the switch and the function goes on with it.
\<close>

definition prepare_bit_time ::
    "'z can_world_scheme can_ops \<Rightarrow> u32 \<Rightarrow> dev_set \<Rightarrow> can_bittime \<Rightarrow> can_bittime option kres" where
  "prepare_bit_time ops clock req garbage =
     (case req of
        SIOCSCANBAUDRATE rate \<Rightarrow>
          if do_set_bit_time ops = None then Inr None
          else kbind (rtcan_calc_bit_time clock rate) (\<lambda>r.
            Inr (Some (case r of Inr std \<Rightarrow> CAN_BITTIME_STD std | Inl e \<Rightarrow> garbage)))
      | _ \<Rightarrow> Inr (Some garbage))"

definition rtcan_raw_ioctl_dev_set ::
    "'z can_world_scheme can_ops \<Rightarrow> 'z can_world_scheme \<Rightarrow> nat \<Rightarrow> dev_set \<Rightarrow> can_bittime
      \<Rightarrow> (cret \<times> 'z can_world_scheme) kres" where
  "rtcan_raw_ioctl_dev_set ops w d req garbage =
     kbind (prepare_bit_time ops (can_sys_clock (devs w d)) req garbage) (\<lambda>b.
     case b of
       None \<Rightarrow> Inr (Inr 0, w)
     | Some bt_buf \<Rightarrow>
         let w1 = refresh_state ops w d;
             started = (case req of SIOCSCANMODE _ \<Rightarrow> False | _ \<Rightarrow> CAN_STATE_OPERATING (dev_state (devs w1 d)))
         in kbind (if started then call_set_mode ops d CAN_MODE_STOP w1 else Inr (Inr 0, w1)) (\<lambda>(stop, w2).
            kbind (if stop = Inr 0 then dev_set_body ops w2 d req bt_buf else Inr (stop, w2)) (\<lambda>(ret, w3).
            if started then kbind (call_set_mode ops d CAN_MODE_START w3) (\<lambda>(_, w4). Inr (ret, w4))
            else Inr (ret, w3))))"

text \<open>
  The dispatcher of the device requests. \<open>user\<close> tells a user-space caller; \<open>readable\<close> and \<open>writable\<close> say
  whether the argument can be copied from and to user space.
\<close>

datatype dev_request = Get dev_get | Set dev_set | Unknown

definition rtcan_raw_ioctl_dev ::
    "(nat \<Rightarrow> 'z can_world_scheme can_ops) \<Rightarrow> 'z can_world_scheme \<Rightarrow> bool \<Rightarrow> bool \<Rightarrow> bool \<Rightarrow> string \<Rightarrow> dev_request
      \<Rightarrow> can_bittime \<Rightarrow> (cret \<times> dev_reply \<times> 'z can_world_scheme) kres" where
  "rtcan_raw_ioctl_dev ops w user readable writable name req garbage =
     (case req of
        Get g \<Rightarrow>
          if g = SIOCGCANCTRLMODE then Inr (Inl EOPNOTSUPP, RNone, w)
          else if user \<and> \<not> readable then Inr (Inl EFAULT, RNone, w)
          else (case rtcan_dev_get_by_name w name of
              (None, w1) \<Rightarrow> Inr (Inl ENODEV, RNone, w1)
            | (Some d, w1) \<Rightarrow>
                (case rtcan_raw_ioctl_dev_get (ops d) w1 d g of
                   (reply, w2) \<Rightarrow>
                     let w3 = rtcan_dev_dereference d w2
                     in if user \<and> \<not> writable then Inr (Inl EFAULT, RNone, w3) else Inr (Inr 0, reply, w3)))
      | Set x \<Rightarrow>
          if user \<and> \<not> readable then Inr (Inl EFAULT, RNone, w)
          else (case rtcan_dev_get_by_name w name of
              (None, w1) \<Rightarrow> Inr (Inl ENODEV, RNone, w1)
            | (Some d, w1) \<Rightarrow>
                kbind (rtcan_raw_ioctl_dev_set (ops d) w1 d x garbage)
                  (\<lambda>(r, w2). Inr (r, RNone, rtcan_dev_dereference d w2)))
      | Unknown \<Rightarrow> Inr (Inl EOPNOTSUPP, RNone, w))"

datatype raw_request = RTIOC_BIND sockaddr_can | RTIOC_SETSOCKOPT setsockopt_args
  | RTCAN_RTIOC_TAKE_TIMESTAMP int | RTCAN_RTIOC_RCV_TIMEOUT int | RTCAN_RTIOC_SND_TIMEOUT int
  | DevRequest string dev_request

definition RTCAN_TAKE_TIMESTAMPS :: int where "RTCAN_TAKE_TIMESTAMPS = 1"

definition rtcan_raw_ioctl ::
    "(nat \<Rightarrow> 'z can_world_scheme can_ops) \<Rightarrow> 'z can_world_scheme \<Rightarrow> nat \<Rightarrow> bool \<Rightarrow> bool \<Rightarrow> bool \<Rightarrow> bool
      \<Rightarrow> raw_request \<Rightarrow> can_bittime \<Rightarrow> (cret \<times> dev_reply \<times> 'z can_world_scheme) kres" where
  "rtcan_raw_ioctl ops w s user readable writable mem req garbage =
     (case req of
        RTIOC_BIND scan \<Rightarrow> kbind (rtcan_raw_bind w s scan) (\<lambda>(r, w1). Inr (r, RNone, w1))
      | RTIOC_SETSOCKOPT so \<Rightarrow> kbind (rtcan_raw_setsockopt w s user so mem) (\<lambda>(r, w1). Inr (r, RNone, w1))
      | RTCAN_RTIOC_TAKE_TIMESTAMP v \<Rightarrow>
          Inr (Inr 0, RNone, upd_sock s (\<lambda>sock. sock\<lparr>context_flags :=
             (if v = RTCAN_TAKE_TIMESTAMPS then set_bit RTCAN_GET_TIMESTAMP (context_flags sock)
              else unset_bit RTCAN_GET_TIMESTAMP (context_flags sock))\<rparr>) w)
      | RTCAN_RTIOC_RCV_TIMEOUT t \<Rightarrow>
          if user \<and> \<not> readable then Inr (Inl EFAULT, RNone, w)
          else Inr (Inr 0, RNone, upd_sock s (\<lambda>sock. sock\<lparr>rx_timeout := t\<rparr>) w)
      | RTCAN_RTIOC_SND_TIMEOUT t \<Rightarrow>
          if user \<and> \<not> readable then Inr (Inl EFAULT, RNone, w)
          else Inr (Inr 0, RNone, upd_sock s (\<lambda>sock. sock\<lparr>tx_timeout := t\<rparr>) w)
      | DevRequest name r \<Rightarrow> rtcan_raw_ioctl_dev ops w user readable writable name r garbage)"

section \<open>The bit timing calculation over the integers\<close>

text \<open>
  For a clock below \<open>2 ^ 31\<close> Hz and a rate of at most 171 Mbit/s nothing wraps; \<open>bt_brp\<close> is the
  prescaler tried for a value of \<open>tseg\<close> and \<open>bt_error\<close> its distance from the rate.
\<close>

definition bt_brp :: "int \<Rightarrow> int \<Rightarrow> nat \<Rightarrow> int" where
  "bt_brp c r t = c div ((1 + int (t div 2)) * r) + int (t mod 2)"

definition bt_error :: "int \<Rightarrow> int \<Rightarrow> int \<Rightarrow> int \<Rightarrow> int" where
  "bt_error c r b q = \<bar>r - c div (b * q)\<bar>"

definition bt_range :: "u32 \<Rightarrow> u32 \<Rightarrow> bool" where
  "bt_range clock rate \<longleftrightarrow> 0 < clock \<and> uint clock < 2 ^ 31 \<and> 0 < rate \<and> 25 * uint rate < 2 ^ 32"

lemma div_le_int: "0 \<le> a \<Longrightarrow> 0 < b \<Longrightarrow> a div b \<le> (a :: int)"
  using zdiv_mono2 [of a 1 b] by simp

lemma le_div_int:
  assumes "0 < (b :: int)"
  shows "k \<le> a div b \<longleftrightarrow> k * b \<le> a"
proof
  assume "k \<le> a div b"
  then have "k * b \<le> (a div b) * b" using assms by (simp add: mult_right_mono)
  also have "\<dots> \<le> a" using assms by (simp add: minus_mod_eq_div_mult [symmetric])
  finally show "k * b \<le> a" .
next
  assume "k * b \<le> a"
  then show "k \<le> a div b" using zdiv_mono1 [of "k * b" a b] assms by simp
qed

lemma sdiv_nonneg: "0 \<le> a \<Longrightarrow> 0 < b \<Longrightarrow> a sdiv b = a div (b :: int)"
  by (cases "a = 0") (simp_all add: signed_divide_int_def)

lemma sint_small: "uint (x :: u32) < 2 ^ 31 \<Longrightarrow> sint x = uint x"
  using signed_take_bit_int_eq_self [of 31 "uint x"] uint_ge_0 [of x] by (simp add: sint_uint)

lemma sint_of_int_small: "- (2 ^ 31) \<le> i \<Longrightarrow> i < 2 ^ 31 \<Longrightarrow> sint (of_int i :: u32) = i"
  using signed_take_bit_int_eq_self [of 31 i] by (simp add: signed_of_int)

lemma uint_of_nat_mult:
  "int n < 2 ^ 32 \<Longrightarrow> int n * uint (r :: u32) < 2 ^ 32 \<Longrightarrow> uint (of_nat n * r) = int n * uint r"
  by (simp add: uint_word_ariths(3) unsigned_of_nat take_bit_nat_eq_self)

lemma bt_try_eq:
  assumes rng: "bt_range clock rate" and t: "t \<in> {4..<50}"
  shows "bt_try clock rate t best =
    (let q = 1 + int (t div 2); b = bt_brp (uint clock) (uint rate) t; e = bt_error (uint clock) (uint rate) b q
     in Inr (if 1 \<le> b \<and> b \<le> 64 \<and> e \<le> fst best then (e, q - 1, b - 1) else best))"
proof -
  let ?c = "uint clock" and ?r = "uint rate" and ?q = "1 + t div 2"
  have c: "0 < ?c" "?c < 2 ^ 31" "clock \<noteq> 0" and r: "0 < ?r" "25 * ?r < 2 ^ 32"
    using rng by (auto simp: bt_range_def word_less_def)
  have q: "3 \<le> ?q" "?q \<le> 25" using t by auto
  have qr: "int ?q * ?r \<le> 25 * ?r" "3 * ?r \<le> int ?q * ?r" using q r by (auto intro: mult_right_mono)
  have prod: "uint (of_nat ?q * rate :: u32) = int ?q * ?r"
    using qr r q by (intro uint_of_nat_mult) linarith+
  then have nz: "of_nat ?q * rate \<noteq> (0 :: u32)" using qr r by auto
  define b where "b = bt_brp ?c ?r t"
  have ge3: "3 \<le> int ?q * ?r" using qr r by linarith
  have dv: "0 \<le> ?c div (int ?q * ?r)" "?c div (int ?q * ?r) \<le> ?c div 3"
    using c ge3 by (auto simp: pos_imp_zdiv_nonneg_iff simp del: of_nat_add intro!: zdiv_mono2)
  have bb: "b = ?c div (int ?q * ?r) + int (t mod 2)" by (simp add: b_def bt_brp_def)
  have b: "0 \<le> b" "b < 2 ^ 31" using dv c by (auto simp: bb)
  have "uint (clock div (of_nat ?q * rate) + of_nat (t mod 2)) = b"
    using prod b c dv by (simp add: uint_word_ariths(1) uint_div unsigned_of_nat take_bit_nat_eq_self bb)
  then have brp: "sint (clock div (of_nat ?q * rate) + of_nat (t mod 2)) = b"
    using b sint_small by metis
  have sd: "sint clock sdiv (b * int ?q) = ?c div (b * int ?q)" if "1 \<le> b"
    using that c q by (simp add: sint_small signed_divide_int_def sgn_mult)
  have err: "sint (rate - of_int (?c div (b * int ?q))) = ?r - ?c div (b * int ?q)" if "1 \<le> b"
  proof -
    have "0 \<le> ?c div (b * int ?q)" "?c div (b * int ?q) \<le> ?c"
      using that c q by (auto simp: pos_imp_zdiv_nonneg_iff intro: div_le_int)
    moreover have "rate - of_int (?c div (b * int ?q)) = (of_int (?r - ?c div (b * int ?q)) :: u32)" by simp
    ultimately show ?thesis using sint_of_int_small [of "?r - ?c div (b * int ?q)"] c r by simp
  qed
  show ?thesis
    unfolding bt_try_def Let_def brp b_def [symmetric] using nz b sd err
    by (auto simp: bt_error_def not_less)
qed

text \<open>
  The loop's invariant: nothing found yet, or a prescaler of 1 to 64 and 3 to 25 quanta per bit with
  the error recorded for them. A candidate is a value of \<open>tseg\<close> with a prescaler in range.
\<close>

definition bt_ok :: "int \<Rightarrow> int \<Rightarrow> int \<times> int \<times> int \<Rightarrow> bool" where
  "bt_ok c r best \<longleftrightarrow> best = (1000000000, 0, 0) \<or>
     (case best of (e, t, b) \<Rightarrow> 2 \<le> t \<and> t \<le> 24 \<and> 0 \<le> b \<and> b \<le> 63 \<and> e = bt_error c r (b + 1) (t + 1))"

definition bt_no_better :: "int \<Rightarrow> int \<Rightarrow> int \<Rightarrow> nat \<Rightarrow> bool" where
  "bt_no_better c r e t \<longleftrightarrow>
     (let b = bt_brp c r t in 1 \<le> b \<and> b \<le> 64 \<longrightarrow> e \<le> bt_error c r b (1 + int (t div 2)))"

lemma bt_try_ok:
  assumes "bt_range clock rate" "t \<in> {4..<50}" "bt_ok (uint clock) (uint rate) best"
  obtains best' where "bt_try clock rate t best = Inr best'" "bt_ok (uint clock) (uint rate) best'"
    "fst best' \<le> fst best" "bt_no_better (uint clock) (uint rate) (fst best') t"
proof -
  let ?q = "1 + int (t div 2)" and ?b = "bt_brp (uint clock) (uint rate) t"
  let ?best = "if 1 \<le> ?b \<and> ?b \<le> 64 \<and> bt_error (uint clock) (uint rate) ?b ?q \<le> fst best
    then (bt_error (uint clock) (uint rate) ?b ?q, ?q - 1, ?b - 1) else best"
  have "2 \<le> t div 2" "t div 2 \<le> 24" using assms(2) by auto
  then have "bt_ok (uint clock) (uint rate) ?best" using assms(3) by (simp add: bt_ok_def add.commute)
  moreover have "fst ?best \<le> fst best" "bt_no_better (uint clock) (uint rate) (fst ?best) t"
    by (auto simp: bt_no_better_def Let_def)
  ultimately show thesis
    using bt_try_eq [OF assms(1,2), of best] by (intro that [of ?best]) (simp_all add: Let_def)
qed

lemma bt_no_better_mono: "bt_no_better c r e t \<Longrightarrow> e' \<le> e \<Longrightarrow> bt_no_better c r e' t"
  by (auto simp: bt_no_better_def Let_def)

lemma bt_loop_ok:
  assumes "bt_range clock rate" "set ts \<subseteq> {4..<50}" "bt_ok (uint clock) (uint rate) best"
  shows "\<exists>best'. bt_loop clock rate ts best = Inr best' \<and> bt_ok (uint clock) (uint rate) best'
    \<and> fst best' \<le> fst best \<and> (\<forall>t\<in>set ts. bt_no_better (uint clock) (uint rate) (fst best') t)"
  using assms(2,3)
proof (induction ts arbitrary: best)
  case (Cons t ts)
  obtain b1 where b1: "bt_try clock rate t best = Inr b1" "bt_ok (uint clock) (uint rate) b1"
      "fst b1 \<le> fst best" "bt_no_better (uint clock) (uint rate) (fst b1) t"
    by (rule bt_try_ok [OF assms(1) _ Cons.prems(2), of t]) (use Cons.prems(1) in auto)
  obtain b2 where "bt_loop clock rate ts b1 = Inr b2" "bt_ok (uint clock) (uint rate) b2" "fst b2 \<le> fst b1"
      "\<forall>t\<in>set ts. bt_no_better (uint clock) (uint rate) (fst b2) t"
    using Cons.IH [OF _ b1(2)] Cons.prems(1) by auto
  with b1 show ?case by (auto intro: bt_no_better_mono)
qed simp

lemma bt_segments_ok:
  assumes "2 \<le> t" "t \<le> 24" "p = 75 \<or> p = 90"
  shows "case bt_segments p t of (t1, t2) \<Rightarrow> 0 \<le> t1 \<and> t1 \<le> 15 \<and> 0 \<le> t2 \<and> t2 \<le> 7 \<and> t1 + t2 = t - 2"
proof -
  define x where "x = (p * (t + 1)) sdiv 100"
  have "100 * x \<le> p * (t + 1)" "p * (t + 1) < 100 * x + 100"
    using assms by (auto simp: x_def sdiv_nonneg)
  then have "t - x - 2 \<le> 15 \<longrightarrow> 0 \<le> t - x" "t - x \<le> 7" "0 \<le> x - 2 \<or> t - x < 0 \<or> 2 \<le> t"
    using assms by auto
  then show ?thesis
    using assms \<open>p * (t + 1) < 100 * x + 100\<close> \<open>100 * x \<le> p * (t + 1)\<close>
    unfolding bt_segments_def x_def [symmetric] Let_def RTCAN_MAX_TSEG1_def RTCAN_MAX_TSEG2_def
    by auto
qed

text \<open>The tolerance test \<open>rate / best_error < 10\<close>.\<close>

lemma bt_tolerance:
  assumes "bt_range clock rate" "bt_ok (uint clock) (uint rate) (e, t, b)"
  shows "e \<noteq> 0 \<and> rate div of_int e < 10 \<longleftrightarrow> uint rate < 10 * e"
    and "\<not> uint rate < 10 * e \<Longrightarrow> 2 \<le> t \<and> t \<le> 24 \<and> 0 \<le> b \<and> b \<le> 63 \<and> e = bt_error (uint clock) (uint rate) (b + 1) (t + 1)"
proof -
  have r: "0 < uint rate" "25 * uint rate < 2 ^ 32" and c: "0 < uint clock" "uint clock < 2 ^ 31"
    using assms(1) by (auto simp: bt_range_def word_less_def)
  have e: "0 \<le> e \<and> e < 2 ^ 32"
  proof (cases "(e, t, b) = (1000000000, 0, 0)")
    case False
    then have "e = \<bar>uint rate - uint clock div ((b + 1) * (t + 1))\<bar>" "0 < (b + 1) * (t + 1)"
      using assms(2) by (auto simp: bt_ok_def bt_error_def)
    moreover have "uint clock div ((b + 1) * (t + 1)) \<le> uint clock" "0 \<le> uint clock div ((b + 1) * (t + 1))"
      using calculation(2) c by (simp_all add: div_le_int pos_imp_zdiv_nonneg_iff)
    ultimately show ?thesis using r c by (simp add: abs_less_iff)
  qed simp
  then have u: "uint (of_int e :: u32) = e" by (simp add: unsigned_of_int take_bit_int_eq_self)
  have "rate div of_int e < 10 \<longleftrightarrow> uint rate div e < 10"
    using e by (simp add: word_less_def uint_div u)
  also have "\<dots> \<longleftrightarrow> uint rate < 10 * e" if "e \<noteq> 0"
    using that e le_div_int [of e 10 "uint rate"] by auto
  finally show "e \<noteq> 0 \<and> rate div of_int e < 10 \<longleftrightarrow> uint rate < 10 * e" using r by auto
  show "\<not> uint rate < 10 * e \<Longrightarrow> 2 \<le> t \<and> t \<le> 24 \<and> 0 \<le> b \<and> b \<le> 63 \<and> e = bt_error (uint clock) (uint rate) (b + 1) (t + 1)"
    using assms(2) r by (auto simp: bt_ok_def)
qed

text \<open>The register values of a result, and the rate they give.\<close>

lemma uint_small: "0 \<le> i \<Longrightarrow> i < 2 ^ LENGTH('a) \<Longrightarrow> uint (of_int i :: 'a :: len word) = i"
  by (simp add: unsigned_of_int take_bit_int_eq_self)

lemma bt_regs:
  "0 \<le> b \<Longrightarrow> b \<le> 63 \<Longrightarrow> 1 \<le> (of_int (b + 1) :: u32) \<and> (of_int (b + 1) :: u32) \<le> 64"
  "0 \<le> x \<Longrightarrow> x \<le> 15 \<Longrightarrow> 1 \<le> (of_int (x + 1) :: u8) \<and> (of_int (x + 1) :: u8) \<le> 16"
  "0 \<le> y \<Longrightarrow> y \<le> 7 \<Longrightarrow> 1 \<le> (of_int (y + 1) :: u8) \<and> (of_int (y + 1) :: u8) \<le> 8"
  by (simp_all add: word_le_def uint_small del: of_int_add)

lemma bt_rate_of:
  assumes "bt_range clock rate" "0 \<le> b" "b \<le> 63" "0 \<le> t1" "t1 \<le> 15" "0 \<le> t2" "t2 \<le> 7"
  shows "\<exists>v. custom_baudrate clock (CAN_BITTIME_STD \<lparr>brp = of_int (b + 1), prop_seg = 0,
      phase_seg1 = of_int (t1 + 1), phase_seg2 = of_int (t2 + 1), sjw = s, sam = 0\<rparr>) = Inr v
    \<and> uint v = uint clock div ((b + 1) * (t1 + t2 + 3))"
proof -
  have seg: "(1 + ucast (of_int (t1 + 1) :: u8) + ucast (of_int (t2 + 1) :: u8) :: u32) = of_int (t1 + t2 + 3)"
    using assms by (intro word_uint_eqI) (simp add: uint_word_ariths(1) uint_small unsigned_ucast_eq take_bit_int_eq_self)
  have b0: "(of_int (b + 1) :: u32) \<noteq> 0" using bt_regs(1) [of b] assms by auto
  have "(b + 1) * (t1 + t2 + 3) \<le> 64 * 25" using assms by (intro mult_mono) auto
  then have pr: "uint (of_int (b + 1) * of_int (t1 + t2 + 3) :: u32) = (b + 1) * (t1 + t2 + 3)"
    using assms by (simp only: of_int_mult [symmetric]) (simp add: uint_small del: of_int_mult of_int_add)
  moreover have "0 < (b + 1) * (t1 + t2 + 3)" using assms by simp
  ultimately have "of_int (b + 1) * of_int (t1 + t2 + 3) \<noteq> (0 :: u32)" by auto
  then show ?thesis using b0 pr by (simp add: custom_baudrate_def seg Let_def uint_div del: of_int_add)
qed

section \<open>The contract of a controller driver\<close>

text \<open>
  What an operation of a driver may change of the global state besides its hardware: the operating
  state and the transmit semaphore of its own device.
\<close>

definition ctl_frame :: "nat \<Rightarrow> 'z can_world_scheme \<Rightarrow> 'z can_world_scheme \<Rightarrow> bool" where
  "ctl_frame d w w' \<longleftrightarrow> rtcan_devices w' = rtcan_devices w \<and> socks w' = socks w
     \<and> rtcan_socket_list w' = rtcan_socket_list w
     \<and> (\<exists>st sb sem. devs w' = (devs w)(d := (devs w d)\<lparr>dev_state := st, state_before_sleep := sb, tx_sem := sem\<rparr>))"

text \<open>The configuration of a device: rate, bit timing and control mode.\<close>

definition dev_config :: "rtcan_device \<Rightarrow> u32 \<times> can_bittime \<times> u32" where
  "dev_config dev = (baudrate dev, bit_time dev, ctrl_mode dev)"

definition set_config :: "u32 \<times> can_bittime \<times> u32 \<Rightarrow> rtcan_device \<Rightarrow> rtcan_device" where
  "set_config c dev = (case c of (b, bt, m) \<Rightarrow> dev\<lparr>baudrate := b, bit_time := bt, ctrl_mode := m\<rparr>)"

text \<open>The frame of a request that leaves the configuration \<open>c\<close>.\<close>

definition cfg_frame :: "nat \<Rightarrow> u32 \<times> can_bittime \<times> u32 \<Rightarrow> 'z can_world_scheme \<Rightarrow> 'z can_world_scheme \<Rightarrow> bool" where
  "cfg_frame d c w w' \<longleftrightarrow> rtcan_devices w' = rtcan_devices w \<and> socks w' = socks w
     \<and> rtcan_socket_list w' = rtcan_socket_list w
     \<and> (\<exists>st sb sem. devs w' = (devs w)(d :=
          set_config c ((devs w d)\<lparr>dev_state := st, state_before_sleep := sb, tx_sem := sem\<rparr>)))"

text \<open>The configuration a request asks for; \<open>buf\<close> is the bit timing calculated for a rate.\<close>

fun new_config :: "dev_set \<Rightarrow> can_bittime \<Rightarrow> u32 \<Rightarrow> u32 \<times> can_bittime \<times> u32 \<Rightarrow> (u32 \<times> can_bittime \<times> u32) kres" where
  "new_config (SIOCSCANMODE mode) buf clock c = Inr c"
| "new_config (SIOCSCANCTRLMODE m) buf clock (b, bt, _) = Inr (b, bt, m)"
| "new_config (SIOCSCANBAUDRATE rate) buf clock (_, _, m) = Inr (rate, buf, m)"
| "new_config (SIOCSCANCUSTOMBITTIME bt) buf clock (_, _, m) =
     kbind (custom_baudrate clock bt) (\<lambda>b. Inr (b, bt, m))"

lemma ctl_frameI:
  "rtcan_devices w' = rtcan_devices w \<Longrightarrow> socks w' = socks w \<Longrightarrow> rtcan_socket_list w' = rtcan_socket_list w
   \<Longrightarrow> devs w' = (devs w)(d := (devs w d)\<lparr>dev_state := st, state_before_sleep := sb, tx_sem := sem\<rparr>)
   \<Longrightarrow> ctl_frame d w w'"
  by (auto simp: ctl_frame_def)

lemma cfg_frameI:
  "rtcan_devices w' = rtcan_devices w \<Longrightarrow> socks w' = socks w \<Longrightarrow> rtcan_socket_list w' = rtcan_socket_list w
   \<Longrightarrow> devs w' = (devs w)(d := set_config c ((devs w d)\<lparr>dev_state := st, state_before_sleep := sb, tx_sem := sem\<rparr>))
   \<Longrightarrow> cfg_frame d c w w'"
  by (auto simp: cfg_frame_def)

lemma ctl_frame_state: "ctl_frame d w (upd_dev d (\<lambda>dev. dev\<lparr>dev_state := st\<rparr>) w)"
  by (rule ctl_frameI [where sb = "state_before_sleep (devs w d)" and sem = "tx_sem (devs w d)" and st = st]) simp_all

lemma ctl_frame_refl [simp]: "ctl_frame d w w"
  by (rule ctl_frameI [where sb = "state_before_sleep (devs w d)" and sem = "tx_sem (devs w d)"
        and st = "dev_state (devs w d)"]) simp_all

lemma cfg_frame_same: "cfg_frame d (dev_config (devs w d)) w w' \<longleftrightarrow> ctl_frame d w w'"
  by (simp add: cfg_frame_def ctl_frame_def dev_config_def set_config_def)

lemma cfg_frame_upd: "cfg_frame d c w (upd_dev d (set_config c) w)"
  by (rule cfg_frameI [where sb = "state_before_sleep (devs w d)" and sem = "tx_sem (devs w d)"
        and st = "dev_state (devs w d)"]) simp_all

lemma upd_dev_set_config:
  "upd_dev d (\<lambda>dev. dev\<lparr>ctrl_mode := m\<rparr>) w = upd_dev d (set_config (baudrate (devs w d), bit_time (devs w d), m)) w"
  "upd_dev d (\<lambda>dev. dev\<lparr>baudrate := b, bit_time := bt\<rparr>) w = upd_dev d (set_config (b, bt, ctrl_mode (devs w d))) w"
  "upd_dev d (\<lambda>dev. dev\<lparr>bit_time := bt, baudrate := b\<rparr>) w = upd_dev d (set_config (b, bt, ctrl_mode (devs w d))) w"
  by (cases "devs w d", simp add: upd_dev_def set_config_def)+

lemma cfg_frame_pre: "ctl_frame d w v \<Longrightarrow> cfg_frame d c v u \<Longrightarrow> cfg_frame d c w u"
  unfolding cfg_frame_def ctl_frame_def by fastforce

lemma set_config_state:
  "(set_config c dev)\<lparr>dev_state := st, state_before_sleep := sb, tx_sem := sem\<rparr>
     = set_config c (dev\<lparr>dev_state := st, state_before_sleep := sb, tx_sem := sem\<rparr>)"
  by (cases dev; cases c) (simp add: set_config_def)

lemma cfg_frame_post:
  assumes "cfg_frame d c w v" "ctl_frame d v u"
  shows "cfg_frame d c w u"
proof -
  obtain st sb sem st' sb' sem' where
      "devs v = (devs w)(d := set_config c ((devs w d)\<lparr>dev_state := st, state_before_sleep := sb, tx_sem := sem\<rparr>))"
      "devs u = (devs v)(d := (devs v d)\<lparr>dev_state := st', state_before_sleep := sb', tx_sem := sem'\<rparr>)"
    using assms by (auto simp: ctl_frame_def cfg_frame_def)
  with assms show ?thesis
    by (intro cfg_frameI [where st = st' and sb = sb' and sem = sem'])
      (simp_all add: cfg_frame_def ctl_frame_def set_config_state)
qed

lemma ctl_frameD:
  assumes "ctl_frame d w w'"
  shows "dev_config (devs w' d) = dev_config (devs w d)" "can_sys_clock (devs w' d) = can_sys_clock (devs w d)"
    "d' \<noteq> d \<Longrightarrow> devs w' d' = devs w d'"
  using assms by (auto simp: ctl_frame_def dev_config_def)

lemma ctl_frame_trans: "ctl_frame d w v \<Longrightarrow> ctl_frame d v u \<Longrightarrow> ctl_frame d w u"
  using cfg_frame_pre [of d w v "dev_config (devs w d)" u] cfg_frame_same [of d v u]
  by (simp add: cfg_frame_same ctl_frameD(1))

lemma ctl_frame_upd:
  "ctl_frame d w v \<Longrightarrow> ctl_frame d w (upd_dev d (\<lambda>dev. dev\<lparr>dev_state := st\<rparr>) v)"
  "ctl_frame d w v \<Longrightarrow> ctl_frame d w (upd_dev d (\<lambda>dev. dev\<lparr>state_before_sleep := st\<rparr>) v)"
  "ctl_frame d w v \<Longrightarrow> ctl_frame d w (upd_tx_sem d f v)"
proof -
  have "ctl_frame d v (upd_tx_sem d f v)"
    by (rule ctl_frameI [where st = "dev_state (devs v d)" and sb = "state_before_sleep (devs v d)"
          and sem = "f (tx_sem (devs v d))"]) (simp_all add: upd_tx_sem_def)
  moreover have "ctl_frame d v (upd_dev d (\<lambda>dev. dev\<lparr>state_before_sleep := st\<rparr>) v)"
    by (rule ctl_frameI [where st = "dev_state (devs v d)" and sb = st
          and sem = "tx_sem (devs v d)"]) simp_all
  ultimately show
    "ctl_frame d w v \<Longrightarrow> ctl_frame d w (upd_dev d (\<lambda>dev. dev\<lparr>dev_state := st\<rparr>) v)"
    "ctl_frame d w v \<Longrightarrow> ctl_frame d w (upd_dev d (\<lambda>dev. dev\<lparr>state_before_sleep := st\<rparr>) v)"
    "ctl_frame d w v \<Longrightarrow> ctl_frame d w (upd_tx_sem d f v)"
    using ctl_frame_trans ctl_frame_state by blast+
qed

lemma ctl_frame_inv:
  assumes "ctl_frame d w w'"
  shows "bindings_of w' = bindings_of w" "can_inv w \<Longrightarrow> can_inv w'"
proof -
  have same: "rtcan_devices w' = rtcan_devices w" "socks w' = socks w" "rtcan_socket_list w' = rtcan_socket_list w"
    using assms by (simp_all add: ctl_frame_def)
  then show b: "bindings_of w' = bindings_of w" by (simp add: bindings_of_def fun_eq_iff)
  obtain st sb sem where devs: "devs w' = (devs w)(d := (devs w d)\<lparr>dev_state := st, state_before_sleep := sb, tx_sem := sem\<rparr>)"
    using assms by (auto simp: ctl_frame_def)
  have "dev_holds (dev\<lparr>dev_state := st, state_before_sleep := sb, tx_sem := sem\<rparr>) M = dev_holds dev M" for dev M
    by (simp add: ft.holds_def dev_view_def dev_lists_def)
  then have "filters_for w B \<Longrightarrow> filters_for w' B" for B
    using same devs by (intro filters_for_cong [of w' w]) auto
  then show "can_inv w \<Longrightarrow> can_inv w'" using same b by (simp add: can_inv_def)
qed

text \<open>
  A driver's operations stay within their frame; a successful stop of an operating controller leaves
  it stopped, a start of a stopped controller that returns succeeds and makes it active.
\<close>

locale can_controller =
  fixes ops :: "'z can_world_scheme can_ops"
    and sm :: "nat \<Rightarrow> can_mode \<Rightarrow> 'z can_world_scheme \<Rightarrow> (cret \<times> 'z can_world_scheme) kres"
  assumes has_set_mode: "do_set_mode ops = Some sm"
    and set_mode_frame: "sm d m w = Inr (r, w') \<Longrightarrow> ctl_frame d w w'"
    and get_state_frame: "do_get_state ops = Some f \<Longrightarrow> ctl_frame d w (snd (f d w))"
    and set_bit_time_frame: "do_set_bit_time ops = Some g \<Longrightarrow> ctl_frame d w (snd (g d bt w))
      \<and> dev_state (devs (snd (g d bt w)) d) = dev_state (devs w d)"
    and stop_stops: "CAN_STATE_OPERATING (dev_state (devs w d)) \<Longrightarrow> sm d CAN_MODE_STOP w = Inr (Inr 0, w')
      \<Longrightarrow> dev_state (devs w' d) = CAN_STATE_STOPPED"
    and start_starts: "dev_state (devs w d) = CAN_STATE_STOPPED \<Longrightarrow> sm d CAN_MODE_START w = Inr (r, w')
      \<Longrightarrow> r = Inr 0 \<and> dev_state (devs w' d) = CAN_STATE_ACTIVE"
begin

lemma refresh_frame: "ctl_frame d w (refresh_state ops w d)"
  using get_state_frame [of _ d w]
  by (auto simp: refresh_state_def split: option.splits prod.splits intro: ctl_frame_trans ctl_frame_state)

lemma call_set_mode_eq: "call_set_mode ops d m w = sm d m w"
  by (simp add: call_set_mode_def has_set_mode)

lemma body_config:
  assumes "dev_set_body ops w d req buf = Inr (r, w')"
  shows "if r = Inr 0
    then \<exists>c. new_config req buf (can_sys_clock (devs w d)) (dev_config (devs w d)) = Inr c \<and> cfg_frame d c w w'
    else ctl_frame d w w'"
proof (cases req)
  case (SIOCSCANMODE m)
  then have "ctl_frame d w w'"
    using assms set_mode_frame [of d m w r w']
    by (auto simp: dev_set_body_def call_set_mode_eq split: if_splits)
  with SIOCSCANMODE show ?thesis by (simp add: cfg_frame_same)
next
  case (SIOCSCANCTRLMODE m)
  then show ?thesis
    using assms cfg_frame_upd [of d "(baudrate (devs w d), bit_time (devs w d), m)" w]
    by (auto simp: dev_set_body_def dev_config_def upd_dev_set_config)
next
  case (SIOCSCANBAUDRATE rate)
  then obtain g v where g: "do_set_bit_time ops = Some g" "g d buf w = (r, v)"
      "w' = (if r = Inr 0 then upd_dev d (\<lambda>dev. dev\<lparr>baudrate := rate, bit_time := buf\<rparr>) v else v)"
    using assms by (auto simp: dev_set_body_def call_set_bit_time_def split: option.splits prod.splits)
  then have "ctl_frame d w v" using set_bit_time_frame [OF g(1), of d w buf] by simp
  with g(3) SIOCSCANBAUDRATE show ?thesis
    using cfg_frame_upd [of d "(rate, buf, ctrl_mode (devs v d))" v] ctl_frameD(1) [of d w v]
    by (auto simp: dev_config_def upd_dev_set_config intro: cfg_frame_pre)
next
  case (SIOCSCANCUSTOMBITTIME bt)
  then obtain g v where g: "do_set_bit_time ops = Some g" "g d bt w = (r, v)"
      "if r = Inr 0 then \<exists>b. custom_baudrate (can_sys_clock (devs v d)) bt = Inr b
         \<and> w' = upd_dev d (\<lambda>dev. dev\<lparr>bit_time := bt, baudrate := b\<rparr>) v else w' = v"
    using assms
    by (auto simp: dev_set_body_def call_set_bit_time_def kbind_eq_Inr split: option.splits prod.splits if_splits)
  then have f: "ctl_frame d w v" using set_bit_time_frame [OF g(1), of d w bt] by simp
  show ?thesis
  proof (cases "r = Inr 0")
    case True
    with g(3) obtain b where "custom_baudrate (can_sys_clock (devs v d)) bt = Inr b"
        "w' = upd_dev d (\<lambda>dev. dev\<lparr>bit_time := bt, baudrate := b\<rparr>) v" by auto
    with True SIOCSCANCUSTOMBITTIME f show ?thesis
      using cfg_frame_upd [of d "(b, bt, ctrl_mode (devs v d))" v] ctl_frameD(1,2) [OF f]
      by (auto simp: dev_config_def upd_dev_set_config intro: cfg_frame_pre)
  qed (use g(3) f SIOCSCANCUSTOMBITTIME in simp)
qed

lemma body_state:
  assumes "dev_set_body ops w d req buf = Inr (r, w')" "\<And>m. req \<noteq> SIOCSCANMODE m"
  shows "dev_state (devs w' d) = dev_state (devs w d)"
proof -
  have "dev_state (devs v d) = dev_state (devs w d)" if "do_set_bit_time ops = Some g" "g d bt w = (x, v)" for g bt x v
    using set_bit_time_frame [OF that(1), of d w bt] that(2) by simp
  then show ?thesis
    using assms
    by (cases req)
      (fastforce simp: dev_set_body_def call_set_bit_time_def kbind_eq_Inr split: option.splits prod.splits if_splits)+
qed

lemma request_run:
  assumes run: "rtcan_raw_ioctl_dev_set ops w d req garbage = Inr (r, w')"
    and buf: "prepare_bit_time ops (can_sys_clock (devs w d)) req garbage = Inr (Some buf)"
  obtains started stop w2 w3 where
    "started = (case req of SIOCSCANMODE _ \<Rightarrow> False | _ \<Rightarrow> CAN_STATE_OPERATING (dev_state (devs (refresh_state ops w d) d)))"
    "(if started then sm d CAN_MODE_STOP (refresh_state ops w d) else Inr (Inr 0, refresh_state ops w d)) = Inr (stop, w2)"
    "(if stop = Inr 0 then dev_set_body ops w2 d req buf else Inr (stop, w2)) = Inr (r, w3)"
    "if started then \<exists>x. sm d CAN_MODE_START w3 = Inr (x, w') else w' = w3"
proof -
  define w1 where "w1 = refresh_state ops w d"
  define started where "started = (case req of SIOCSCANMODE _ \<Rightarrow> False | _ \<Rightarrow> CAN_STATE_OPERATING (dev_state (devs w1 d)))"
  have "kbind (if started then sm d CAN_MODE_STOP w1 else Inr (Inr 0, w1)) (\<lambda>(stop, w2).
      kbind (if stop = Inr 0 then dev_set_body ops w2 d req buf else Inr (stop, w2)) (\<lambda>(ret, w3).
      if started then kbind (sm d CAN_MODE_START w3) (\<lambda>(_, w4). Inr (ret, w4)) else Inr (ret, w3))) = Inr (r, w')"
    using run unfolding rtcan_raw_ioctl_dev_set_def buf w1_def [symmetric] Let_def started_def [symmetric] call_set_mode_eq
    by simp
  then obtain stop w2 w3 where "(if started then sm d CAN_MODE_STOP w1 else Inr (Inr 0, w1)) = Inr (stop, w2)"
      "(if stop = Inr 0 then dev_set_body ops w2 d req buf else Inr (stop, w2)) = Inr (r, w3)"
      "if started then \<exists>x. sm d CAN_MODE_START w3 = Inr (x, w') else w' = w3"
    by (cases started) (auto simp: kbind_eq_Inr)
  then show thesis by (rule that [folded w1_def, OF started_def])
qed

text \<open>
  A request changes the configuration exactly when it succeeds, and then to what it asks for; a
  failed request leaves it. Sockets, other devices and the rest of the device stay as they are.
\<close>

lemma request_config:
  assumes run: "rtcan_raw_ioctl_dev_set ops w d req garbage = Inr (r, w')"
    and buf: "prepare_bit_time ops (can_sys_clock (devs w d)) req garbage = Inr (Some buf)"
  shows "if r = Inr 0
    then \<exists>c. new_config req buf (can_sys_clock (devs w d)) (dev_config (devs w d)) = Inr c \<and> cfg_frame d c w w'
    else ctl_frame d w w'"
proof -
  define w1 where "w1 = refresh_state ops w d"
  have f1: "ctl_frame d w w1" unfolding w1_def by (rule refresh_frame)
  obtain started stop w2 w3 where
      two: "(if started then sm d CAN_MODE_STOP w1 else Inr (Inr 0, w1)) = Inr (stop, w2)"
    and three: "(if stop = Inr 0 then dev_set_body ops w2 d req buf else Inr (stop, w2)) = Inr (r, w3)"
    and four: "if started then \<exists>x. sm d CAN_MODE_START w3 = Inr (x, w') else w' = w3"
    by (rule request_run [OF run buf, folded w1_def])
  have f2: "ctl_frame d w w2"
    using two f1 set_mode_frame [of d CAN_MODE_STOP w1 stop w2] ctl_frame_trans [OF f1] by (cases started) auto
  have f4: "ctl_frame d w3 w'" using four set_mode_frame [of d CAN_MODE_START w3 _ w'] by (auto split: if_splits)
  show ?thesis
  proof (cases "stop = Inr 0")
    case True
    then have body: "dev_set_body ops w2 d req buf = Inr (r, w3)" using three by simp
    then show ?thesis
      using body_config [OF body] f2 f4 ctl_frameD(1,2) [OF f2]
      by (auto split: if_splits intro: cfg_frame_post [OF cfg_frame_pre [OF f2] f4] ctl_frame_trans)
  qed (use three f2 f4 in \<open>auto intro: ctl_frame_trans\<close>)
qed

text \<open>
  The bit timing and the control mode of an operating controller change while it is stopped, and it is
  active again afterwards, whatever the driver says to the new bit timing.
\<close>

lemma request_restarts:
  assumes run: "rtcan_raw_ioctl_dev_set ops w d req garbage = Inr (r, w')"
    and buf: "prepare_bit_time ops (can_sys_clock (devs w d)) req garbage = Inr (Some buf)"
    and req: "\<And>m. req \<noteq> SIOCSCANMODE m"
    and up: "CAN_STATE_OPERATING (dev_state (devs (refresh_state ops w d) d))"
    and stop: "sm d CAN_MODE_STOP (refresh_state ops w d) = Inr (Inr 0, w2)"
  shows "dev_state (devs w' d) = CAN_STATE_ACTIVE
    \<and> dev_state (devs w2 d) = CAN_STATE_STOPPED
    \<and> (\<exists>w3 x. dev_set_body ops w2 d req buf = Inr (r, w3) \<and> sm d CAN_MODE_START w3 = Inr (x, w'))"
proof -
  have started: "(case req of SIOCSCANMODE _ \<Rightarrow> False | _ \<Rightarrow> CAN_STATE_OPERATING (dev_state (devs (refresh_state ops w d) d)))"
    using req up by (cases req) auto
  obtain w3 x where body: "dev_set_body ops w2 d req buf = Inr (r, w3)" and w': "sm d CAN_MODE_START w3 = Inr (x, w')"
    by (rule request_run [OF run buf]) (use started stop in auto)
  have st: "dev_state (devs w2 d) = CAN_STATE_STOPPED" by (rule stop_stops [OF up stop])
  then have "dev_state (devs w3 d) = CAN_STATE_STOPPED" using body_state [OF body req] by simp
  then show ?thesis using start_starts [OF _ w'] w' st body by auto
qed

end

text \<open>The result of the calculation.\<close>

lemma calc_bit_time_ok:
  assumes rng: "bt_range clock rate"
  shows "\<exists>res. rtcan_calc_bit_time clock rate = Inr res \<and>
    (case res of
       Inl e \<Rightarrow> e = EDOM \<and> (\<forall>t\<in>{4..<50}. bt_no_better (uint clock) (uint rate) (uint rate div 10 + 1) t)
     | Inr bt \<Rightarrow>
         1 \<le> brp bt \<and> brp bt \<le> 64 \<and> prop_seg bt = 0 \<and> 1 \<le> phase_seg1 bt \<and> phase_seg1 bt \<le> 16
         \<and> 1 \<le> phase_seg2 bt \<and> phase_seg2 bt \<le> 8 \<and> (sjw bt = 1 \<or> sjw bt = 2) \<and> sam bt = 0
         \<and> (\<exists>b. custom_baudrate clock (CAN_BITTIME_STD bt) = Inr b
              \<and> 10 * \<bar>uint rate - uint b\<bar> \<le> uint rate
              \<and> (\<forall>t\<in>{4..<50}. bt_no_better (uint clock) (uint rate) \<bar>uint rate - uint b\<bar> t)))"
proof -
  let ?c = "uint clock" and ?r = "uint rate"
  define pt where "pt = (if rate < (12500 + 10000) div 2 then 75
    else if rate > (1000000 + 500000) div 2 then 75 else 90 :: int)"
  have pt: "pt = 75 \<or> pt = 90" by (simp add: pt_def)
  define sj where "sj = (if rate < (100000 + 125000) div 2 then 1 else 0 :: int)"
  obtain e t b where lp: "bt_loop clock rate [4..<50] (1000000000, 0, 0) = Inr (e, t, b)"
      and ok: "bt_ok ?c ?r (e, t, b)" and nb: "\<forall>t\<in>{4..<50}. bt_no_better ?c ?r e t"
    using bt_loop_ok [OF rng, of "[4..<50]" "(1000000000, 0, 0)"]
    by (auto simp: bt_ok_def simp del: upt_rec_numeral)
  have calc: "rtcan_calc_bit_time clock rate = Inr (if ?r < 10 * e then Inl EDOM else
      Inr \<lparr>brp = of_int (b + 1), prop_seg = 0, phase_seg1 = of_int (fst (bt_segments pt t) + 1),
        phase_seg2 = of_int (snd (bt_segments pt t) + 1), sjw = of_int (sj + 1), sam = 0\<rparr>)"
    unfolding rtcan_calc_bit_time_def lp pt_def sj_def bt_tolerance(1) [OF rng ok, symmetric]
    by (simp add: Let_def split_beta)
  show ?thesis
  proof (cases "?r < 10 * e")
    case True
    then have "?r div 10 + 1 \<le> e" by linarith
    with True nb show ?thesis by (auto simp: calc intro: bt_no_better_mono)
  next
    case False
    have fnd: "2 \<le> t" "t \<le> 24" "0 \<le> b" "b \<le> 63" "e = bt_error ?c ?r (b + 1) (t + 1)"
      using bt_tolerance(2) [OF rng ok False] by auto
    obtain t1 t2 where seg: "bt_segments pt t = (t1, t2)" "0 \<le> t1" "t1 \<le> 15" "0 \<le> t2" "t2 \<le> 7" "t1 + t2 = t - 2"
      using bt_segments_ok [OF fnd(1,2) pt] by (auto split: prod.splits)
    obtain v where v: "custom_baudrate clock (CAN_BITTIME_STD \<lparr>brp = of_int (b + 1), prop_seg = 0,
        phase_seg1 = of_int (t1 + 1), phase_seg2 = of_int (t2 + 1), sjw = of_int (sj + 1), sam = 0\<rparr>) = Inr v"
        "\<bar>?r - uint v\<bar> = e"
      using bt_rate_of [OF rng fnd(3,4) seg(2-5), of "of_int (sj + 1)"] seg(6) fnd(5)
      by (auto simp: bt_error_def add.commute simp del: of_int_add)
    have "sj = 0 \<or> sj = 1" by (simp add: sj_def)
    then show ?thesis
      using False v nb bt_regs(1) [OF fnd(3,4)] bt_regs(2) [OF seg(2,3)] bt_regs(3) [OF seg(4,5)]
      unfolding calc seg(1) by (auto simp del: of_int_add)
  qed
qed

section \<open>The properties of the device requests\<close>

text \<open>
  C13: For a clock below \<open>2 ^ 31\<close> Hz and a positive rate below \<open>2 ^ 32 / 25\<close> the bit timing calculation
  returns. It gives up with \<open>-EDOM\<close> exactly when no prescaler of 1 to 64 and number of quanta that it
  tries comes within a tenth of the rate; otherwise the prescaler is 1 to 64, the segments fit the
  controller's registers (1 to 16 and 1 to 8 quanta), the rate that these values give, as the driver
  itself computes it for a custom bit timing, is within a tenth of the requested one, and no value
  the loop tries is closer.
\<close>

theorem calc_bit_time_sound:
  assumes rng: "bt_range clock rate"
  shows "\<exists>res. rtcan_calc_bit_time clock rate = Inr res \<and>
    (case res of
       Inl e \<Rightarrow> e = EDOM \<and> (\<forall>t\<in>{4..<50}. bt_no_better (uint clock) (uint rate) (uint rate div 10 + 1) t)
     | Inr bt \<Rightarrow>
         1 \<le> brp bt \<and> brp bt \<le> 64 \<and> prop_seg bt = 0 \<and> 1 \<le> phase_seg1 bt \<and> phase_seg1 bt \<le> 16
         \<and> 1 \<le> phase_seg2 bt \<and> phase_seg2 bt \<le> 8 \<and> (sjw bt = 1 \<or> sjw bt = 2) \<and> sam bt = 0
         \<and> (\<exists>b. custom_baudrate clock (CAN_BITTIME_STD bt) = Inr b
              \<and> 10 * \<bar>uint rate - uint b\<bar> \<le> uint rate
              \<and> (\<forall>t\<in>{4..<50}. bt_no_better (uint clock) (uint rate) \<bar>uint rate - uint b\<bar> t)))"
  by (rule calc_bit_time_ok [OF rng])

theorem calc_bit_time_sound_witness:
  "\<exists>res. rtcan_calc_bit_time 8000000 500000 = Inr res \<and>
    (case res of
       Inl e \<Rightarrow> e = EDOM \<and> (\<forall>t\<in>{4..<50}. bt_no_better 8000000 500000 50001 t)
     | Inr bt \<Rightarrow>
         1 \<le> brp bt \<and> brp bt \<le> 64 \<and> prop_seg bt = 0 \<and> 1 \<le> phase_seg1 bt \<and> phase_seg1 bt \<le> 16
         \<and> 1 \<le> phase_seg2 bt \<and> phase_seg2 bt \<le> 8 \<and> (sjw bt = 1 \<or> sjw bt = 2) \<and> sam bt = 0
         \<and> (\<exists>b. custom_baudrate 8000000 (CAN_BITTIME_STD bt) = Inr b
              \<and> 10 * \<bar>500000 - uint b\<bar> \<le> 500000
              \<and> (\<forall>t\<in>{4..<50}. bt_no_better 8000000 500000 \<bar>500000 - uint b\<bar> t)))"
proof -
  have "bt_range 8000000 500000" by (simp add: bt_range_def)
  moreover have "uint (8000000 :: u32) = 8000000" "uint (500000 :: u32) = 500000" "500000 div 10 + 1 = (50001 :: int)"
    by simp_all
  ultimately show ?thesis using calc_bit_time_sound [of 8000000 500000] by (simp only:)
qed

text \<open>A rate of 0 makes the first division of the loop one by zero.\<close>

lemma calc_rate_zero: "rtcan_calc_bit_time clock 0 = Inl DivByZero"
proof -
  have "bt_loop clock 0 [4..<50] best = Inl DivByZero" for best
    by (subst upt_conv_Cons) (simp_all add: bt_try_def)
  then show ?thesis by (simp add: rtcan_calc_bit_time_def)
qed

end
