(* ===== verification/Can_Virt.thy ===== *)
theory Can_Virt
  imports Can_Ioctl
begin

text \<open>
  The virtual CAN bus (\<open>rtcan_virt.c\<close>): a sent frame is delivered to every other active device of the
  driver and looped back on the sending one. The module's array of devices extends the global state;
  \<open>devices\<close> is the module parameter.
\<close>

section \<open>Operations\<close>

definition RTCAN_MAX_VIRT_DEVS :: nat where "RTCAN_MAX_VIRT_DEVS = 8"
definition VIRT_TX_BUFS :: int where "VIRT_TX_BUFS = 1"

record virt_world = can_world +
  rtcan_virt_devs :: "nat option list"

text \<open>A read of the array, and the dereference of what was read.\<close>

definition virt_dev :: "'z virt_world_scheme \<Rightarrow> nat \<Rightarrow> nat kres" where
  "virt_dev w i =
     (if i < length (rtcan_virt_devs w)
      then case rtcan_virt_devs w ! i of None \<Rightarrow> Inl NullDeref | Some d \<Rightarrow> Inr d
      else Inl OutOfBounds)"

text \<open>The frame is built in a local variable, \<open>stack\<close> being what was there before.\<close>

definition virt_frame :: "u8 list \<Rightarrow> can_frame \<Rightarrow> rtcan_skb kres" where
  "virt_frame stack frame =
     (let rb = set_rb_can_id (frm_can_id frame) (set_rb_can_dlc (frm_can_dlc frame) stack);
          dlc = unat (frm_can_dlc frame)
      in if frm_can_id frame AND CAN_RTR_FLAG \<noteq> 0 then Inr \<lparr>rb_frame_size = EMPTY_RB_FRAME_SIZE, rb_frame = rb\<rparr>
         else if dlc > length (frm_data frame) then Inl OutOfBounds
         else Inr \<lparr>rb_frame_size = EMPTY_RB_FRAME_SIZE + dlc, rb_frame = memcpy_at rb 6 (take dlc (frm_data frame))\<rparr>)"

definition rtcan_loopback_pending :: "rtcan_device \<Rightarrow> bool" where
  "rtcan_loopback_pending dev = (tx_socket dev \<noteq> None)"

text \<open>\<open>clk i\<close> is the clock when the frame reaches the device at position \<open>i\<close>.\<close>

fun virt_deliver ::
    "(nat \<Rightarrow> u64) \<Rightarrow> nat \<Rightarrow> 'z virt_world_scheme \<Rightarrow> rtcan_skb \<Rightarrow> nat list \<Rightarrow> 'z virt_world_scheme kres" where
  "virt_deliver clk tx_dev w skb [] = Inr w"
| "virt_deliver clk tx_dev w skb (i # is) =
     kbind (virt_dev w i) (\<lambda>rx_dev.
     if dev_state (devs w rx_dev) = CAN_STATE_ACTIVE then
       if tx_dev \<noteq> rx_dev then
         kbind (rtcan_rcv w rx_dev
             (skb\<lparr>rb_frame := set_rb_can_ifindex (of_nat (dev_ifindex (devs w rx_dev))) (rb_frame skb)\<rparr>) (clk i))
           (\<lambda>(w1, skb1). virt_deliver clk tx_dev w1 skb1 is)
       else if rtcan_loopback_pending (devs w tx_dev) then
         kbind (rtcan_loopback w tx_dev (clk i)) (\<lambda>w1. virt_deliver clk tx_dev w1 skb is)
       else virt_deliver clk tx_dev w skb is
     else virt_deliver clk tx_dev w skb is)"

definition rtcan_virt_start_xmit ::
    "(nat \<Rightarrow> u64) \<Rightarrow> u8 list \<Rightarrow> nat \<Rightarrow> nat \<Rightarrow> can_frame \<Rightarrow> 'z virt_world_scheme \<Rightarrow> (cret \<times> 'z virt_world_scheme) kres" where
  "rtcan_virt_start_xmit clk stack devices tx_dev frame w =
     kbind (virt_frame stack frame) (\<lambda>skb.
     kbind (virt_deliver clk tx_dev (upd_tx_sem tx_dev rtdm_sem_up w) skb [0..<devices]) (\<lambda>w1.
     Inr (Inr 0, w1)))"

definition rtcan_virt_set_mode ::
    "nat \<Rightarrow> can_mode \<Rightarrow> 'z can_world_scheme \<Rightarrow> cret \<times> 'z can_world_scheme" where
  "rtcan_virt_set_mode d mode w =
     (case mode of
        CAN_MODE_STOP \<Rightarrow>
          (Inr 0, upd_tx_sem d rtdm_sem_destroy (upd_dev d (\<lambda>dev. dev\<lparr>dev_state := CAN_STATE_STOPPED\<rparr>) w))
      | CAN_MODE_START \<Rightarrow>
          (Inr 0, upd_dev d (\<lambda>dev. dev\<lparr>dev_state := CAN_STATE_ACTIVE\<rparr>)
             (upd_tx_sem d (\<lambda>sem. rtdm_sem_init sem VIRT_TX_BUFS) w))
      | _ \<Rightarrow> (Inl EOPNOTSUPP, w))"

text \<open>The function pointers \<open>rtcan_virt_init_one\<close> sets; the others stay null.\<close>

definition virt_ops :: "(nat \<Rightarrow> u64) \<Rightarrow> u8 list \<Rightarrow> nat \<Rightarrow> 'z virt_world_scheme can_ops" where
  "virt_ops clk stack devices = \<lparr>hard_start_xmit = rtcan_virt_start_xmit clk stack devices,
     do_set_mode = Some (\<lambda>d mode w. Inr (rtcan_virt_set_mode d mode w)), do_get_state = None, do_set_bit_time = None,
     do_enable_bus_err = None\<rparr>"


text \<open>\<open>mem\<close> is the result of the allocation.\<close>

definition rtcan_virt_init_one ::
    "'z virt_world_scheme \<Rightarrow> nat \<Rightarrow> nat option \<Rightarrow> (cret \<times> 'z virt_world_scheme) kres" where
  "rtcan_virt_init_one w idx mem =
     (case rtcan_dev_alloc w mem of
        (None, w1) \<Rightarrow> Inr (Inl ENOMEM, w1)
      | (Some d, w1) \<Rightarrow>
          let w2 = snd (rtcan_virt_set_mode d CAN_MODE_STOP w1);
              w3 = upd_dev d (\<lambda>dev. dev\<lparr>dev_name := take IFNAMSIZ RTCAN_DEV_NAME\<rparr>) w2
          in case rtcan_dev_register w3 d of
               (Inl e, w4) \<Rightarrow> Inr (Inl e, rtcan_dev_free w4 (Some d))
             | (Inr r, w4) \<Rightarrow>
                 if idx < length (rtcan_virt_devs w4)
                 then Inr (Inr 0, w4\<lparr>rtcan_virt_devs := (rtcan_virt_devs w4)[idx := Some d]\<rparr>)
                 else Inl OutOfBounds)"

text \<open>
  The error path of the initialisation unregisters the devices that are there, in reverse order;
  \<open>waits i\<close> is what happens while the device at position \<open>i\<close> waits for its last reference. The
  result \<open>None\<close> is a wait that does not end.
\<close>

fun virt_unwind ::
    "'z virt_world_scheme \<Rightarrow> nat \<Rightarrow> (nat \<Rightarrow> ('z virt_world_scheme \<Rightarrow> 'z virt_world_scheme) list)
      \<Rightarrow> 'z virt_world_scheme option kres" where
  "virt_unwind w 0 waits = Inr (Some w)"
| "virt_unwind w (Suc i) waits =
     kbind (virt_dev w i) (\<lambda>d.
     case rtcan_dev_unregister w d (waits i) of
       None \<Rightarrow> Inr None
     | Some (r, w1) \<Rightarrow> virt_unwind (rtcan_dev_free w1 (Some d)) i waits)"

fun virt_init_loop ::
    "'z virt_world_scheme \<Rightarrow> nat list \<Rightarrow> (nat \<Rightarrow> nat option)
      \<Rightarrow> (nat \<Rightarrow> ('z virt_world_scheme \<Rightarrow> 'z virt_world_scheme) list) \<Rightarrow> (cret \<times> 'z virt_world_scheme) option kres" where
  "virt_init_loop w [] mem waits = Inr (Some (Inr 0, w))"
| "virt_init_loop w (i # is) mem waits =
     kbind (rtcan_virt_init_one w i (mem i)) (\<lambda>(err, w1).
     if err = Inr 0 then virt_init_loop w1 is mem waits
     else kbind (virt_unwind w1 i waits) (\<lambda>u. Inr (map_option (Pair err) u)))"

definition rtcan_virt_init ::
    "'z virt_world_scheme \<Rightarrow> nat \<Rightarrow> (nat \<Rightarrow> nat option)
      \<Rightarrow> (nat \<Rightarrow> ('z virt_world_scheme \<Rightarrow> 'z virt_world_scheme) list) \<Rightarrow> (cret \<times> 'z virt_world_scheme) option kres" where
  "rtcan_virt_init w devices mem waits = virt_init_loop w [0..<devices] mem waits"

fun virt_exit_loop ::
    "'z virt_world_scheme \<Rightarrow> nat list \<Rightarrow> (nat \<Rightarrow> ('z virt_world_scheme \<Rightarrow> 'z virt_world_scheme) list)
      \<Rightarrow> 'z virt_world_scheme option kres" where
  "virt_exit_loop w [] waits = Inr (Some w)"
| "virt_exit_loop w (i # is) waits =
     kbind (virt_dev w i) (\<lambda>d.
     case rtcan_dev_unregister (snd (rtcan_virt_set_mode d CAN_MODE_STOP w)) d (waits i) of
       None \<Rightarrow> Inr None
     | Some (r, w1) \<Rightarrow> virt_exit_loop (rtcan_dev_free w1 (Some d)) is waits)"

definition rtcan_virt_exit ::
    "'z virt_world_scheme \<Rightarrow> nat \<Rightarrow> (nat \<Rightarrow> ('z virt_world_scheme \<Rightarrow> 'z virt_world_scheme) list)
      \<Rightarrow> 'z virt_world_scheme option kres" where
  "rtcan_virt_exit w devices waits = virt_exit_loop w [0..<devices] waits"

section \<open>The contract of a controller\<close>

lemma virt_devs_upd [simp]: "rtcan_virt_devs (upd_dev d f w) = rtcan_virt_devs w"
  by (simp add: upd_dev_def)

lemma virt_set_mode_frame: "rtcan_virt_set_mode d m w = (r, w') \<Longrightarrow> ctl_frame d w w'"
  by (cases m) (auto simp: rtcan_virt_set_mode_def ctl_frame_upd)

interpretation virt: can_controller "virt_ops clk stack devices" "\<lambda>d mode w. Inr (rtcan_virt_set_mode d mode w)" for clk stack devices
  by unfold_locales
    (simp_all add: virt_ops_def virt_set_mode_frame, auto simp: rtcan_virt_set_mode_def upd_tx_sem_def)

section \<open>Broadcast\<close>

text \<open>
  What the bus does to the queue of socket s, over the devices \<open>(position, device)\<close> in the order of the
  array: a message per accepting filter on every other active device, the stored frame on the sender.
\<close>

fun bus_queue ::
    "(nat \<Rightarrow> u64) \<Rightarrow> 'z virt_world_scheme \<Rightarrow> nat \<Rightarrow> can_frame \<Rightarrow> nat \<Rightarrow> (nat \<times> nat) list \<Rightarrow> can_msg list \<Rightarrow> can_msg list" where
  "bus_queue clk w tx frame s [] q = q"
| "bus_queue clk w tx frame s ((i, d) # ds) q =
     bus_queue clk w tx frame s ds
       (if dev_state (devs w d) \<noteq> CAN_STATE_ACTIVE then q
        else if d \<noteq> tx then
          (q_add (sent_msg (devs w d) frame (stamp_for (socks w s) (clk i))) ^^ hits w d (frm_can_id frame) s) q
        else if tx_socket (devs w tx) = None then q
        else (q_add (msg_of (tx_skb (devs w tx)) (stamp_for (socks w s) (clk i))) ^^
          loopback_hits w tx (rb_can_id (rb_frame (tx_skb (devs w tx)))) s) q)"

text \<open>The state in the middle of the loop; \<open>pend\<close> says that the sender is still to come.\<close>

definition bus_walk :: "bool \<Rightarrow> nat \<Rightarrow> 'z virt_world_scheme \<Rightarrow> 'z virt_world_scheme \<Rightarrow> bool" where
  "bus_walk pend tx w0 w \<longleftrightarrow> rtcan_devices w = rtcan_devices w0 \<and> rtcan_socket_list w = rtcan_socket_list w0 \<and>
     can_world.more w = can_world.more w0 \<and> (\<forall>s. sock_frame (socks w0 s) (socks w s)) \<and>
     (\<forall>e. e \<noteq> tx \<or> pend \<longrightarrow> counted (devs w0 e) (devs w e)) \<and>
     dev_state (devs w tx) = dev_state (devs w0 tx) \<and> dev_ifindex (devs w tx) = dev_ifindex (devs w0 tx)"

lemma counted_refl [simp]: "counted dev dev"
  by (simp add: counted_def)

lemma counted_fields:
  assumes "counted dev dev'"
  shows "dev_state dev' = dev_state dev" "dev_ifindex dev' = dev_ifindex dev" "tx_socket dev' = tx_socket dev"
    "tx_skb dev' = tx_skb dev"
  using assms by (cases dev; cases dev'; simp add: counted_def)+

lemma bus_walkD:
  assumes "bus_walk pend tx w0 w"
  shows "dev_state (devs w e) = dev_state (devs w0 e)" "dev_ifindex (devs w e) = dev_ifindex (devs w0 e)"
    "err_mask (socks w s) = err_mask (socks w0 s)" "stamp_for (socks w s) now = stamp_for (socks w0 s) now"
    "registered w e = registered w0 e" "rtcan_virt_devs w = rtcan_virt_devs w0"
  using assms counted_fields [of "devs w0 e" "devs w e"] sock_frameD(1,2) [of "socks w0 s" "socks w s"]
  by (cases "e = tx"; cases w; cases w0; auto simp: bus_walk_def registered_def stamp_for_def)+

lemma bus_walk_rcv:
  assumes "bus_walk pend tx w0 w" "walked L d w w'"
  shows "bus_walk pend tx w0 w'"
proof -
  have c: "counted (devs w e) (devs w' e)" for e
    using assms(2) by (cases "e = d") (simp_all add: walked_def)
  then show ?thesis
    using assms counted_fields [OF c] counted_trans [OF _ c] sock_frame_trans
    unfolding bus_walk_def walked_def by metis
qed

lemma bus_walk_loopback:
  assumes "bus_walk pend tx w0 w" "walked L tx w v" "w' = upd_dev tx (\<lambda>dev. dev\<lparr>tx_skb := skb, tx_socket := None\<rparr>) v"
  shows "bus_walk False tx w0 w'"
  using bus_walk_rcv [OF assms(1,2)] assms(3) by (auto simp: bus_walk_def)

text \<open>The frame as it travels: only its interface index changes from device to device.\<close>

definition carries :: "can_frame \<Rightarrow> rtcan_skb \<Rightarrow> bool" where
  "carries frame skb \<longleftrightarrow> wf_skb skb \<and>
     (\<forall>dev ts. (msg_of skb ts)\<lparr>m_ifindex := of_nat (dev_ifindex dev)\<rparr> = sent_msg dev frame ts)"

lemma set_ifindex_msg:
  assumes "wf_skb skb"
  shows "wf_skb (skb\<lparr>rb_frame := set_rb_can_ifindex v (rb_frame skb)\<rparr>)"
    "msg_of (skb\<lparr>rb_frame := set_rb_can_ifindex v (rb_frame skb)\<rparr>) ts = (msg_of skb ts)\<lparr>m_ifindex := v\<rparr>"
proof -
  let ?f = "rb_frame skb"
  have len: "length ?f = 22" using assms by (simp add: wf_skb_def EMPTY_RB_FRAME_SIZE_eq)
  then have f: "rb_can_id (set_rb_can_ifindex v ?f) = rb_can_id ?f" "rb_can_dlc (set_rb_can_ifindex v ?f) = rb_can_dlc ?f"
      "rb_can_ifindex (set_rb_can_ifindex v ?f) = v" "drop 6 (set_rb_can_ifindex v ?f) = drop 6 ?f"
    by (simp_all add: set_rb_can_ifindex_def rb_can_id_def rb_can_dlc_def rb_can_ifindex_def)
  have p: "skb_payload (skb\<lparr>rb_frame := set_rb_can_ifindex v ?f\<rparr>) = skb_payload skb"
    by (simp add: skb_payload_def f)
  show "wf_skb (skb\<lparr>rb_frame := set_rb_can_ifindex v ?f\<rparr>)" using assms p by (simp add: wf_skb_def)
  show "msg_of (skb\<lparr>rb_frame := set_rb_can_ifindex v ?f\<rparr>) ts = (msg_of skb ts)\<lparr>m_ifindex := v\<rparr>"
    unfolding msg_of_def p by (simp add: f)
qed

lemma carries_ifindex:
  assumes "carries frame skb"
  defines "skb1 \<equiv> \<lambda>dev. skb\<lparr>rb_frame := set_rb_can_ifindex (of_nat (dev_ifindex dev)) (rb_frame skb)\<rparr>"
  shows "wf_skb (skb1 dev)" "msg_of (skb1 dev) ts = sent_msg dev frame ts"
    "rb_can_id (rb_frame (skb1 dev)) = frm_can_id frame"
    "same_msg now (skb1 dev) skb2 \<Longrightarrow> carries frame skb2"
proof -
  have wf: "wf_skb skb" using assms by (simp add: carries_def)
  show "wf_skb (skb1 dev)" unfolding skb1_def by (rule set_ifindex_msg(1) [OF wf])
  show m: "msg_of (skb1 dev) ts = sent_msg dev frame ts" for ts
    unfolding skb1_def set_ifindex_msg(2) [OF wf] using assms(1) by (simp add: carries_def)
  then show "rb_can_id (rb_frame (skb1 dev)) = frm_can_id frame"
    unfolding msg_of_def sent_msg_def by (metis can_msg.select_convs(1))
  show "carries frame skb2" if "same_msg now (skb1 dev) skb2"
    using that m by (auto simp: same_msg_def carries_def sent_msg_def)
qed

lemma bus_hits:
  assumes "bus_walk pend tx w0 w" "bindings_of w = bindings_of w0"
  shows "hits w d can_id s = hits w0 d can_id s"
    "tx_socket (devs w tx) = tx_socket (devs w0 tx) \<Longrightarrow> loopback_hits w tx can_id s = loopback_hits w0 tx can_id s"
  using assms(2) bus_walkD [OF assms(1)] by (simp_all add: hits_def loopback_hits_def)

lemma virt_deliver_ok:
  assumes "bus_walk (tx \<in> snd ` set ds) tx w0 w" "can_inv w" "bindings_of w = bindings_of w0" "queues w q"
    and "distinct (map snd ds)" "carries frame skb"
    and "\<forall>(i, d) \<in> set ds. virt_dev w0 i = Inr d \<and> registered w0 d"
    and "tx_socket (devs w0 tx) \<noteq> None \<longrightarrow> wf_skb (tx_skb (devs w0 tx))"
  shows "\<exists>w'. virt_deliver clk tx w skb (map fst ds) = Inr w' \<and> can_inv w' \<and> bindings_of w' = bindings_of w0 \<and>
    rtcan_socket_list w' = rtcan_socket_list w0 \<and>
    queues w' (\<lambda>s. bus_queue clk w0 tx frame s ds (q s))"
  using assms
proof (induction ds arbitrary: w q skb)
  case Nil
  then show ?case by (simp add: bus_walk_def)
next
  case (Cons p ds)
  obtain i d where p: "p = (i, d)" by (cases p)
  note bw = Cons.prems(1)
  have "virt_dev w i = virt_dev w0 i" by (simp add: virt_dev_def bus_walkD(6) [OF bw])
  then have dev: "virt_dev w i = Inr d" "registered w d"
    using Cons.prems(7) by (simp_all add: p bus_walkD(5) [OF bw])
  have st: "dev_state (devs w d) = dev_state (devs w0 d)" by (rule bus_walkD(1) [OF bw])
  note rest = Cons.prems(3,5,7,8)
  consider (idle) "dev_state (devs w0 d) \<noteq> CAN_STATE_ACTIVE" | (rx) "dev_state (devs w0 d) = CAN_STATE_ACTIVE" "d \<noteq> tx"
    | (tx) "dev_state (devs w0 d) = CAN_STATE_ACTIVE" "d = tx" by blast
  then show ?case
  proof cases
    case idle
    have "bus_walk (tx \<in> snd ` set ds) tx w0 w" using bw by (auto simp: bus_walk_def p)
    from Cons.IH [OF this Cons.prems(2-4)] show ?thesis using Cons.prems(5-8) dev st idle by (simp add: p)
  next
    case rx
    let ?skb = "skb\<lparr>rb_frame := set_rb_can_ifindex (of_nat (dev_ifindex (devs w d))) (rb_frame skb)\<rparr>"
    note cf = carries_ifindex [OF Cons.prems(6), where dev = "devs w d"]
    obtain w1 skb1 where r: "rtcan_rcv w d ?skb (clk i) = Inr (w1, skb1)" "walked (set (rtcan_socket_list w)) d w w1"
        "same_msg (clk i) ?skb skb1"
        "queues w1 (\<lambda>s. (q_add (msg_of ?skb (stamp_for (socks w s) (clk i))) ^^ hits w d (rb_can_id (rb_frame ?skb)) s) (q s))"
      using rcv_effect [OF Cons.prems(2) dev(2) Cons.prems(4) cf(1)] by blast
    have q1: "queues w1 (\<lambda>s. (q_add (sent_msg (devs w0 d) frame (stamp_for (socks w0 s) (clk i))) ^^ hits w0 d (frm_can_id frame) s) (q s))"
      using r(4) unfolding cf(2,3) bus_hits(1) [OF bw Cons.prems(3)] bus_walkD(4) [OF bw]
      by (simp add: sent_msg_def bus_walkD(2) [OF bw])
    have "bus_walk (tx \<in> snd ` set ds) tx w0 w1" using bus_walk_rcv [OF bw r(2)] rx(2) by (auto simp: p bus_walk_def)
    from Cons.IH [OF this walked_inv(1) [OF Cons.prems(2) r(2)] _ q1 _ cf(4) [OF r(3)]] rest
    show ?thesis using walked_inv(2) [OF Cons.prems(2) r(2)] dev st rx r(1) by (simp add: p)
  next
    case tx
    have "counted (devs w0 tx) (devs w tx)" using bw by (simp add: bus_walk_def p tx)
    note same = counted_fields(3,4) [OF this]
    have tx': "tx \<notin> snd ` set ds" using Cons.prems(5) by (auto simp: p tx)
    show ?thesis
    proof (cases "tx_socket (devs w0 tx) = None")
      case True
      have "bus_walk (tx \<in> snd ` set ds) tx w0 w" using bw by (auto simp: bus_walk_def p)
      from Cons.IH [OF this Cons.prems(2-4)] show ?thesis
        using Cons.prems(5-8) dev st tx True same by (simp add: p rtcan_loopback_pending_def)
    next
      case False
      have "wf_skb (tx_skb (devs w tx))" using Cons.prems(8) False same by simp
      from loopback_effect [OF Cons.prems(2) dev(2) [unfolded tx(2)] Cons.prems(4) this, of "clk i"]
      obtain w1 v skb' where l: "rtcan_loopback w tx (clk i) = Inr w1" "can_inv w1" "bindings_of w1 = bindings_of w"
          "walked (set (rtcan_socket_list w)) tx w v" "w1 = upd_dev tx (\<lambda>dev. dev\<lparr>tx_skb := skb', tx_socket := None\<rparr>) v"
          "queues w1 (\<lambda>s. (q_add (msg_of (tx_skb (devs w tx)) (stamp_for (socks w s) (clk i))) ^^
            loopback_hits w tx (rb_can_id (rb_frame (tx_skb (devs w tx)))) s) (q s))"
        by auto
      have q1: "queues w1 (\<lambda>s. (q_add (msg_of (tx_skb (devs w0 tx)) (stamp_for (socks w0 s) (clk i))) ^^
            loopback_hits w0 tx (rb_can_id (rb_frame (tx_skb (devs w0 tx)))) s) (q s))"
        using l(6) unfolding bus_hits(2) [OF bw Cons.prems(3) same(1)] bus_walkD(4) [OF bw] same(2) .
      have "bus_walk (tx \<in> snd ` set ds) tx w0 w1" using bus_walk_loopback [OF bw l(4,5)] tx' by simp
      from Cons.IH [OF this l(2) _ q1 _ Cons.prems(6)] rest
      show ?thesis using l(1,3) dev st tx False same by (simp add: p rtcan_loopback_pending_def del: not_None_eq)
    qed
  qed
qed

lemma virt_frame_carries:
  assumes dlc: "frm_can_dlc frame \<le> 8" and dat: "length (frm_data frame) = 8" and stk: "length stack = sizeof_rb_frame"
  shows "\<exists>skb. virt_frame stack frame = Inr skb \<and> carries frame skb"
proof -
  let ?n = "unat (frm_can_dlc frame)" and ?data = "frm_can_id frame AND CAN_RTR_FLAG = 0"
  have n: "?n \<le> 8" and and7: "frm_can_dlc frame AND RTCAN_HAS_NO_TIMESTAMP = frm_can_dlc frame"
    using small_dlc dlc by blast+
  have len: "length stack = 22" using stk by (simp add: EMPTY_RB_FRAME_SIZE_eq)
  define f1 where "f1 = set_rb_can_id (frm_can_id frame) (set_rb_can_dlc (frm_can_dlc frame) stack)"
  define f2 where "f2 = (if ?data then memcpy_at f1 6 (take ?n (frm_data frame)) else f1)"
  define skb where "skb = \<lparr>rb_frame_size = EMPTY_RB_FRAME_SIZE + (if ?data then ?n else 0), rb_frame = f2\<rparr>"
  have l1: "length f1 = 22" "take 4 f1 = u32_bytes (frm_can_id frame)" "f1 ! 5 = frm_can_dlc frame"
    using len by (simp_all add: f1_def set_rb_can_dlc_def set_rb_can_id_def memcpy_at_def nth_append)
  have l2: "length f2 = 22" "?data \<Longrightarrow> take ?n (drop 6 f2) = take ?n (frm_data frame)"
    using l1 n dat by (auto simp: f2_def memcpy_at_def)
  have "take 4 f2 = take 4 f1" "f2 ! 5 = f1 ! 5"
    using l1 n dat by (auto simp: f2_def take_memcpy_at nth_memcpy_at)
  then have l3: "rb_can_id f2 = frm_can_id frame" "rb_can_dlc f2 = frm_can_dlc frame"
    using l1 by (simp_all add: rb_can_id_def rb_can_dlc_def)
  have pay: "skb_payload skb = (if ?data then ?n else 0)"
    using n by (auto simp: skb_payload_def skb_def l3 and7 payload_len_def)
  have "virt_frame stack frame = Inr skb"
    using n dat unfolding virt_frame_def Let_def f1_def [symmetric] by (auto simp: f2_def skb_def)
  moreover have "wf_skb skb" unfolding wf_skb_def pay by (simp add: skb_def l2 EMPTY_RB_FRAME_SIZE_eq)
  moreover have "(msg_of skb ts)\<lparr>m_ifindex := of_nat (dev_ifindex dev)\<rparr> = sent_msg dev frame ts" for dev ts
    unfolding msg_of_def pay sent_msg_def using l2(2) by (simp add: skb_def l3 and7)
  ultimately show ?thesis by (auto simp: carries_def)
qed

lemma tx_sem_same:
  "socks (upd_tx_sem d f w) = socks w" "dev_state (devs (upd_tx_sem d f w) e) = dev_state (devs w e)"
  "tx_socket (devs (upd_tx_sem d f w) e) = tx_socket (devs w e)" "tx_skb (devs (upd_tx_sem d f w) e) = tx_skb (devs w e)"
  "sent_msg (devs (upd_tx_sem d f w) e) = sent_msg (devs w e)"
  "hits (upd_tx_sem d f w) e = hits w e" "loopback_hits (upd_tx_sem d f w) e = loopback_hits w e"
proof -
  have "bindings_of (upd_tx_sem d f w) = bindings_of w" by (simp add: upd_tx_sem_def bindings_of_def fun_eq_iff)
  then show "hits (upd_tx_sem d f w) e = hits w e" "loopback_hits (upd_tx_sem d f w) e = loopback_hits w e"
    by (simp_all add: fun_eq_iff hits_def loopback_hits_def) (simp_all add: upd_tx_sem_def)
qed (simp_all add: upd_tx_sem_def sent_msg_def fun_eq_iff)

lemma bus_queue_tx_sem: "bus_queue clk (upd_tx_sem d f w) tx frame s ds q = bus_queue clk w tx frame s ds q"
proof (induction ds arbitrary: q)
  case (Cons p ds)
  then show ?case by (cases p) (simp only: bus_queue.simps tx_sem_same)
qed simp

text \<open>
  C28: A frame of at most 8 bytes sent on the virtual bus reaches every active device but the sender:
  each live socket has it in its queue once per mounted filter that accepts it on each of these
  devices, with the index of the device it came in on, and the sender's device loops the stored frame
  back to the other sockets bound there. The transmission never faults, returns 0, frees the
  transmit slot of the sender, and keeps the sockets' bindings.
\<close>

theorem virt_broadcast:
  assumes "can_inv w" "queues w q" "frm_can_dlc frame \<le> 8" "length (frm_data frame) = 8"
    and "length stack = sizeof_rb_frame" "distinct ds"
    and "\<forall>i < length ds. virt_dev w i = Inr (ds ! i) \<and> registered w (ds ! i)"
    and "tx_socket (devs w tx) \<noteq> None \<longrightarrow> wf_skb (tx_skb (devs w tx))"
  shows "\<exists>w'. rtcan_virt_start_xmit clk stack (length ds) tx frame w = Inr (Inr 0, w') \<and> can_inv w' \<and>
    bindings_of w' = bindings_of w \<and> rtcan_socket_list w' = rtcan_socket_list w \<and>
    queues w' (\<lambda>s. bus_queue clk w tx frame s (zip [0..<length ds] ds) (q s))"
proof -
  define w0 where "w0 = upd_tx_sem tx rtdm_sem_up w"
  have fr: "ctl_frame tx w w0" unfolding w0_def by (simp add: ctl_frame_upd)
  obtain skb where skb: "virt_frame stack frame = Inr skb" "carries frame skb"
    using virt_frame_carries [OF assms(3-5)] by blast
  have same: "virt_dev w0 i = virt_dev w i" "registered w0 e = registered w e" "queues w0 q"
      "tx_socket (devs w0 tx) = tx_socket (devs w tx)" "tx_skb (devs w0 tx) = tx_skb (devs w tx)"
      "rtcan_socket_list w0 = rtcan_socket_list w" for i e
    using assms(2) by (simp_all add: w0_def upd_tx_sem_def virt_dev_def registered_def queues_def)
  have bw: "bus_walk b tx w0 w0" for b by (simp add: bus_walk_def)
  have on_bus: "\<forall>(i, d) \<in> set (zip [0..<length ds] ds). virt_dev w0 i = Inr d \<and> registered w0 d"
    using assms(7) by (auto simp: same in_set_zip)
  have "distinct (map snd (zip [0..<length ds] ds))" using assms(6) by simp
  from virt_deliver_ok [OF bw ctl_frame_inv(2) [OF fr assms(1)] refl same(3) this skb(2) on_bus, of clk] assms(8)
  obtain w' where "virt_deliver clk tx w0 skb (map fst (zip [0..<length ds] ds)) = Inr w'" "can_inv w'"
      "bindings_of w' = bindings_of w0" "rtcan_socket_list w' = rtcan_socket_list w0"
      "queues w' (\<lambda>s. bus_queue clk w0 tx frame s (zip [0..<length ds] ds) (q s))"
    unfolding same by blast
  then show ?thesis
    using skb(1) ctl_frame_inv(1) [OF fr] same
    by (simp add: rtcan_virt_start_xmit_def w0_def [symmetric] map_fst_zip) (simp add: w0_def bus_queue_tx_sem)
qed

section \<open>Loading the module\<close>

text \<open>
  Between two steps of the initialisation: the devices \<open>ds\<close> are registered, stopped and unused, and
  the table without them is the table \<open>T\<close> of the start.
\<close>

definition virt_up :: "nat option list \<Rightarrow> nat list \<Rightarrow> 'z virt_world_scheme \<Rightarrow> bool" where
  "virt_up T ds w \<longleftrightarrow> registry_ok w \<and> length ds \<le> length (rtcan_virt_devs w) \<and> distinct ds \<and>
     (\<forall>j < length ds. rtcan_virt_devs w ! j = Some (ds ! j)) \<and>
     (\<forall>d \<in> set ds. registered w d \<and> dev_state (devs w d) = CAN_STATE_STOPPED \<and> refcount (devs w d) = 0) \<and>
     map (\<lambda>x. if x \<in> Some ` set ds then None else x) (rtcan_devices w) = T"

lemma unregister_unused:
  assumes "dev_state (devs w d) = CAN_STATE_STOPPED" "refcount (devs w d) = 0"
  shows "rtcan_dev_unregister w d fs = Some (Inr 0, w\<lparr>rtcan_devices := (rtcan_devices w)[dev_ifindex (devs w d) - 1 := None]\<rparr>)"
  using assms by (cases fs) (simp_all add: rtcan_dev_unregister_def CAN_STATE_OPERATING_iff)

lemma registered_nth:
  assumes "registry_ok w" "registered w d"
  shows "dev_ifindex (devs w d) - 1 < length (rtcan_devices w)" "rtcan_devices w ! (dev_ifindex (devs w d) - 1) = Some d"
    "j < length (rtcan_devices w) \<Longrightarrow> rtcan_devices w ! j = Some d \<Longrightarrow> j = dev_ifindex (devs w d) - 1"
proof -
  obtain i where "i < length (rtcan_devices w)" "rtcan_devices w ! i = Some d"
    using assms(2) by (auto simp: registered_def in_set_conv_nth)
  moreover have "rtcan_devices w ! j = Some d \<Longrightarrow> j < length (rtcan_devices w) \<Longrightarrow> dev_ifindex (devs w d) = j + 1" for j
    using assms(1) by (simp add: registry_ok_def)
  ultimately show "dev_ifindex (devs w d) - 1 < length (rtcan_devices w)"
    "rtcan_devices w ! (dev_ifindex (devs w d) - 1) = Some d"
    "j < length (rtcan_devices w) \<Longrightarrow> rtcan_devices w ! j = Some d \<Longrightarrow> j = dev_ifindex (devs w d) - 1"
    by force+
qed

lemma set_clear_slot:
  assumes "k < length xs" "xs ! k = Some d" "\<And>j. j < length xs \<Longrightarrow> xs ! j = Some d \<Longrightarrow> j = k"
  shows "Some e \<in> set (xs[k := None]) \<longleftrightarrow> Some e \<in> set xs \<and> e \<noteq> d"
proof
  assume "Some e \<in> set (xs[k := None])"
  then obtain j where "j < length xs" "xs[k := None] ! j = Some e" by (auto simp: in_set_conv_nth)
  then have "j < length xs" "j \<noteq> k" "xs ! j = Some e" by (auto simp: nth_list_update_any split: if_splits)
  then show "Some e \<in> set xs \<and> e \<noteq> d" using assms(3) [of j] nth_mem [of j xs] by auto
next
  assume e: "Some e \<in> set xs \<and> e \<noteq> d"
  then obtain j where "j < length xs" "xs ! j = Some e" by (auto simp: in_set_conv_nth)
  then show "Some e \<in> set (xs[k := None])"
    using e assms(2) by (auto simp: in_set_conv_nth nth_list_update_any intro!: exI [of _ j])
qed

lemma virt_up_release:
  assumes up: "virt_up T (ds @ [d]) w"
  defines "w' \<equiv> rtcan_dev_free (w\<lparr>rtcan_devices := (rtcan_devices w)[dev_ifindex (devs w d) - 1 := None]\<rparr>) (Some d)"
  shows "virt_up T ds w'"
proof -
  let ?k = "dev_ifindex (devs w d) - 1"
  have reg: "registry_ok w" "registered w d" using up by (simp_all add: virt_up_def)
  note k = registered_nth [OF reg]
  have tab: "rtcan_devices w' = (rtcan_devices w)[?k := None]" "rtcan_virt_devs w' = rtcan_virt_devs w"
    by (simp_all add: w'_def rtcan_dev_free_def)
  have dev: "devs w' e = (if e = d then (devs w d)\<lparr>tx_sem := rtdm_sem_destroy (tx_sem (devs w d))\<rparr> else devs w e)" for e
    by (simp add: w'_def rtcan_dev_free_def)
  have regs: "registered w' e \<longleftrightarrow> registered w e \<and> e \<noteq> d" for e
  proof -
    have "Some e \<in> set ((rtcan_devices w)[?k := None]) \<longleftrightarrow> Some e \<in> set (rtcan_devices w) \<and> e \<noteq> d"
      by (rule set_clear_slot) (use k in blast)+
    then show ?thesis by (simp add: registered_def tab)
  qed
  have nm: "ifname w' e = ifname w e" "dev_ifindex (devs w' e) = dev_ifindex (devs w e)" for e
    by (simp_all add: ifname_def dev)
  have "inj_on (ifname w') {e. registered w' e}"
    using reg(1) regs by (auto simp: registry_ok_def inj_on_def nm)
  then have ok: "registry_ok w'"
    using reg(1) by (auto simp: registry_ok_def nm tab nth_list_update_any split: if_splits)
  have "(if (rtcan_devices w)[?k := None] ! j \<in> Some ` set ds then None else (rtcan_devices w)[?k := None] ! j)
      = (if rtcan_devices w ! j \<in> Some ` set (ds @ [d]) then None else rtcan_devices w ! j)"
    if "j < length (rtcan_devices w)" for j
    using that k(2) k(3) [of j] by (cases "j = ?k") auto
  then have "map (\<lambda>x. if x \<in> Some ` set ds then None else x) ((rtcan_devices w)[?k := None])
      = map (\<lambda>x. if x \<in> Some ` set (ds @ [d]) then None else x) (rtcan_devices w)"
    by (intro nth_equalityI) (simp_all only: length_map length_list_update nth_map)
  then have T: "map (\<lambda>x. if x \<in> Some ` set ds then None else x) (rtcan_devices w') = T"
    using up unfolding virt_up_def tab by (simp only:)
  have "rtcan_virt_devs w ! j = Some (ds ! j)" if "j < length ds" for j
    using up that by (auto simp: virt_up_def nth_append dest: spec [of _ j])
  then show ?thesis using up ok T regs tab by (auto simp: virt_up_def dev)
qed

lemma virt_unwind_ok:
  "virt_up T ds w \<Longrightarrow> \<exists>w'. virt_unwind w (length ds) waits = Inr (Some w') \<and> rtcan_devices w' = T"
proof (induction ds arbitrary: w rule: rev_induct)
  case (snoc d ds)
  have "rtcan_virt_devs w ! length ds = Some d" "length ds < length (rtcan_virt_devs w)"
      "dev_state (devs w d) = CAN_STATE_STOPPED" "refcount (devs w d) = 0"
    using snoc.prems by (auto simp: virt_up_def)
  then show ?case
    using snoc.IH [OF virt_up_release [OF snoc.prems]] by (simp add: virt_dev_def unregister_unused)
qed (simp add: virt_up_def map_idI)

lemma virt_up_fresh:
  assumes "virt_up T ds w" "\<not> registered w d"
  shows "virt_up T ds (upd_dev d f w)"
proof -
  have r: "registered (upd_dev d f w) e = registered w e" for e by (simp add: registered_def)
  have "rtcan_devices w ! i \<noteq> Some d" if "i < length (rtcan_devices w)" for i
    using assms(2) nth_mem [OF that] by (auto simp: registered_def)
  then have "registry_ok (upd_dev d f w)"
    using assms by (auto simp: virt_up_def registry_ok_def r inj_on_def ifname_def)
  then show ?thesis using assms by (auto simp: virt_up_def r)
qed

lemma count_list_update:
  "k < length xs \<Longrightarrow> xs ! k = x \<Longrightarrow> y \<noteq> x \<Longrightarrow> count_list xs x = Suc (count_list (xs[k := y]) x)"
proof (induction xs arbitrary: k)
  case (Cons z zs)
  then show ?case by (cases k) auto
qed simp

lemma virt_up_add:
  assumes up: "virt_up T ds w" and new: "d \<notin> set ds" "\<not> registered w d" and idx: "length ds < length (rtcan_virt_devs w)"
    and st: "dev_state (devs w d) = CAN_STATE_STOPPED" "refcount (devs w d) = 0"
    and k: "k < RTCAN_MAX_DEVICES" "rtcan_devices w ! k = None"
    and w1: "w1 = (upd_dev d (\<lambda>dev. dev\<lparr>dev_ifindex := k + 1, dev_name := n\<rparr>) w)\<lparr>rtcan_devices := (rtcan_devices w)[k := Some d]\<rparr>"
    and ok: "registry_ok w1"
  shows "virt_up T (ds @ [d]) (w1\<lparr>rtcan_virt_devs := (rtcan_virt_devs w1)[length ds := Some d]\<rparr>)"
    (is "virt_up T _ ?w'")
proof -
  have len: "k < length (rtcan_devices w)" using up k by (simp add: virt_up_def registry_ok_def)
  have tab: "rtcan_devices ?w' = (rtcan_devices w)[k := Some d]"
      "rtcan_virt_devs ?w' = (rtcan_virt_devs w)[length ds := Some d]"
    by (simp_all add: w1)
  have not_d: "rtcan_devices w ! j \<noteq> Some d" if "j < length (rtcan_devices w)" for j
    using new(2) nth_mem [OF that] by (auto simp: registered_def)
  have "registry_ok ?w'" using ok by (simp add: registry_ok_def registered_def ifname_def inj_on_def)
  moreover have "(if (rtcan_devices w)[k := Some d] ! j \<in> Some ` set (ds @ [d]) then None else (rtcan_devices w)[k := Some d] ! j)
      = (if rtcan_devices w ! j \<in> Some ` set ds then None else rtcan_devices w ! j)"
    if "j < length (rtcan_devices w)" for j
    using that len k(2) not_d [OF that] by (cases "j = k") auto
  then have "map (\<lambda>x. if x \<in> Some ` set (ds @ [d]) then None else x) ((rtcan_devices w)[k := Some d])
      = map (\<lambda>x. if x \<in> Some ` set ds then None else x) (rtcan_devices w)"
    by (intro nth_equalityI) (simp_all only: length_map length_list_update nth_map)
  then have "map (\<lambda>x. if x \<in> Some ` set (ds @ [d]) then None else x) (rtcan_devices ?w') = T"
    using up unfolding virt_up_def tab by (simp only:)
  moreover have "registered ?w' d" using len by (auto simp: registered_def tab set_update_memI)
  moreover have "registered ?w' e" if "e \<in> set ds" for e
  proof -
    have "registered w e" "e \<noteq> d" using up that new by (auto simp: virt_up_def)
    then obtain j where "j < length (rtcan_devices w)" "rtcan_devices w ! j = Some e"
      by (auto simp: registered_def in_set_conv_nth)
    then show ?thesis
      using k(2) unfolding registered_def tab by (auto simp: in_set_conv_nth nth_list_update_any intro!: exI [of _ j])
  qed
  ultimately show ?thesis
    using up new idx st by (auto simp: virt_up_def w1 nth_append nth_list_update_any)
qed

lemma init_one_ok:
  assumes up: "virt_up T ds w" and new: "d \<notin> set ds" "Some d \<notin> set T" and idx: "None \<in> set (rtcan_devices w) \<Longrightarrow> length ds < length (rtcan_virt_devs w)"
  shows "if None \<in> set (rtcan_devices w)
    then \<exists>w'. rtcan_virt_init_one w (length ds) (Some d) = Inr (Inr 0, w') \<and> virt_up T (ds @ [d]) w' \<and>
      length (rtcan_virt_devs w') = length (rtcan_virt_devs w) \<and>
      count_list (rtcan_devices w) None = Suc (count_list (rtcan_devices w') None)
    else \<exists>w'. rtcan_virt_init_one w (length ds) (Some d) = Inr (Inl ENOMEM, w') \<and> virt_up T ds w'"
proof -
  have "\<not> registered w d"
  proof
    assume "registered w d"
    then have "Some d \<in> (\<lambda>x. if x \<in> Some ` set ds then None else x) ` set (rtcan_devices w)"
      using new(1) by (force simp: registered_def)
    then show False using up new(2) by (auto simp: virt_up_def)
  qed
  define X where "X = fresh_device\<lparr>dev_state := CAN_STATE_STOPPED, tx_sem := rtdm_sem_destroy (tx_sem fresh_device),
    dev_name := take IFNAMSIZ RTCAN_DEV_NAME\<rparr>"
  define w3 where "w3 = upd_dev d (\<lambda>_. X) w"
  have w3: "upd_dev d (\<lambda>dev. dev\<lparr>dev_name := take IFNAMSIZ RTCAN_DEV_NAME\<rparr>)
      (snd (rtcan_virt_set_mode d CAN_MODE_STOP (upd_dev d (\<lambda>_. fresh_device) w))) = w3"
    by (simp add: w3_def X_def upd_dev_def rtcan_virt_set_mode_def upd_tx_sem_def)
  have new3: "\<not> registered w3 d" and dev3: "devs w3 d = X" and tab3: "rtcan_devices w3 = rtcan_devices w"
      "rtcan_virt_devs w3 = rtcan_virt_devs w"
    using \<open>\<not> registered w d\<close> by (simp_all add: w3_def registered_def)
  have up3: "virt_up T ds w3" unfolding w3_def by (rule virt_up_fresh [OF up \<open>\<not> registered w d\<close>])
  then have ok3: "registry_ok w3" by (simp add: virt_up_def)
  have name: "dev_name (devs w3 d) = ''rtcan%d''" by (simp add: dev3 X_def RTCAN_DEV_NAME_def IFNAMSIZ_def)
  have run: "rtcan_virt_init_one w (length ds) (Some d) = (case rtcan_dev_register w3 d of
         (Inl e, w4) \<Rightarrow> Inr (Inl e, rtcan_dev_free w4 (Some d))
       | (Inr r, w4) \<Rightarrow> if length ds < length (rtcan_virt_devs w4)
           then Inr (Inr 0, w4\<lparr>rtcan_virt_devs := (rtcan_virt_devs w4)[length ds := Some d]\<rparr>) else Inl OutOfBounds)"
    by (simp add: rtcan_virt_init_one_def rtcan_dev_alloc_def Let_def w3)
  show ?thesis
  proof (cases "None \<in> set (rtcan_devices w)")
    case True
    then have "None \<in> set (rtcan_devices w3)" by (simp add: tab3)
    from register_rtcan_ok [OF ok3 new3 name this] obtain k n w4 where
        k: "k < RTCAN_MAX_DEVICES" "rtcan_devices w3 ! k = None" and reg: "rtcan_dev_register w3 d = (Inr 0, w4)"
      and w4: "w4 = (upd_dev d (\<lambda>dev. dev\<lparr>dev_ifindex := k + 1, dev_name := n\<rparr>) w3)\<lparr>rtcan_devices := (rtcan_devices w3)[k := Some d]\<rparr>"
      and ok4: "registry_ok w4" by blast
    have "virt_up T (ds @ [d]) (w4\<lparr>rtcan_virt_devs := (rtcan_virt_devs w4)[length ds := Some d]\<rparr>)"
      by (rule virt_up_add [OF up3 new(1) new3 _ _ _ k w4 ok4]) (simp_all add: idx [OF True] tab3 dev3 X_def fresh_device_def)
    moreover have "k < length (rtcan_devices w)" using up k(1) by (simp add: virt_up_def registry_ok_def)
    ultimately show ?thesis
      using True idx [OF True] reg count_list_update [of k "rtcan_devices w" None "Some d"] k(2)
      by (simp add: run) (simp add: w4 tab3)
  next
    case False
    then have "rtcan_dev_new_index w3 = Inl ENOMEM"
      by (simp add: rtcan_dev_new_index_def new_index_from_Inl tab3)
    then have "rtcan_dev_register w3 d = (Inl ENOMEM, w3)" by (simp add: rtcan_dev_register_def)
    then show ?thesis using False virt_up_fresh [OF up3 new3] by (simp add: run rtcan_dev_free_def)
  qed
qed

lemma virt_init_loop_ok:
  assumes "virt_up T (map (the \<circ> mem) [0..<i]) w" "i \<le> n" "length (rtcan_virt_devs w) = RTCAN_MAX_VIRT_DEVS"
    and "count_list (rtcan_devices w) None + i \<le> RTCAN_MAX_VIRT_DEVS"
    and mem: "\<forall>j < n. Some (the (mem j)) \<notin> set T" "\<forall>j < n. \<forall>k < n. mem j = mem k \<and> mem j \<noteq> None \<longrightarrow> j = k"
    and "\<forall>j < i. mem j \<noteq> None"
  shows "\<exists>r w'. virt_init_loop w [i..<n] mem waits = Inr (Some (r, w')) \<and>
    (if (\<forall>j \<in> {i..<n}. mem j \<noteq> None) \<and> n - i \<le> count_list (rtcan_devices w) None
     then r = Inr 0 \<and> virt_up T (map (the \<circ> mem) [0..<n]) w' else r = Inl ENOMEM \<and> rtcan_devices w' = T)"
  using assms
proof (induction "n - i" arbitrary: i w)
  case 0
  then have "n = i" by simp
  with "0.prems"(1) show ?case by (simp add: comp_def)
next
  case (Suc m)
  let ?ds = "map (the \<circ> mem) [0..<i]"
  have i: "i < n" "[i..<n] = i # [Suc i..<n]" using Suc.hyps(2) by (simp_all add: upt_conv_Cons)
  have unwind: "\<exists>w'. virt_unwind v i waits = Inr (Some w') \<and> rtcan_devices w' = T" if "virt_up T ?ds v" for v
    using virt_unwind_ok [OF that] by simp
  show ?case
  proof (cases "mem i")
    case None
    then have "rtcan_virt_init_one w i (mem i) = Inr (Inl ENOMEM, w)"
      by (simp add: rtcan_virt_init_one_def rtcan_dev_alloc_def)
    moreover have neg: "\<not> ((\<forall>j \<in> {i..<n}. mem j \<noteq> None) \<and> n - i \<le> count_list (rtcan_devices w) None)"
      using None i(1) by auto
    ultimately show ?thesis using unwind [OF Suc.prems(1)] unfolding if_not_P [OF neg] by (auto simp: i(2))
  next
    case (Some d)
    have fresh: "d \<notin> set ?ds"
    proof
      assume "d \<in> set ?ds"
      then obtain j where j: "j < i" "the (mem j) = d" by auto
      then have "mem j = Some d" using Suc.prems(7) by auto
      then show False using Suc.prems(6) j i(1) Some by (metis less_trans nat_neq_iff option.discI)
    qed
    have T: "Some d \<notin> set T" using Suc.prems(5) i(1) Some by (metis option.sel)
    have "0 < count_list (rtcan_devices w) None" if "None \<in> set (rtcan_devices w)"
      using that by (metis count_list_0_iff gr0I)
    then have idx: "None \<in> set (rtcan_devices w) \<Longrightarrow> length ?ds < length (rtcan_virt_devs w)"
      using Suc.prems(3,4) by simp
    show ?thesis
    proof (cases "None \<in> set (rtcan_devices w)")
      case True
      then obtain w1 where one: "rtcan_virt_init_one w i (mem i) = Inr (Inr 0, w1)" "virt_up T (?ds @ [d]) w1"
          "length (rtcan_virt_devs w1) = length (rtcan_virt_devs w)"
          "count_list (rtcan_devices w) None = Suc (count_list (rtcan_devices w1) None)"
        using init_one_ok [OF Suc.prems(1) fresh T idx] Some by auto
      have "\<exists>r w'. virt_init_loop w1 [Suc i..<n] mem waits = Inr (Some (r, w')) \<and>
          (if (\<forall>j \<in> {Suc i..<n}. mem j \<noteq> None) \<and> n - Suc i \<le> count_list (rtcan_devices w1) None
           then r = Inr 0 \<and> virt_up T (map (the \<circ> mem) [0..<n]) w' else r = Inl ENOMEM \<and> rtcan_devices w' = T)"
        using one Suc.hyps(2) Suc.prems i(1) Some by (intro Suc.hyps(1)) (auto simp: less_Suc_eq)
      moreover have "(\<forall>j \<in> {i..<n}. mem j \<noteq> None) \<longleftrightarrow> (\<forall>j \<in> {Suc i..<n}. mem j \<noteq> None)"
        using Some i(1) by (metis Suc_le_eq atLeastLessThan_iff le_neq_implies_less less_imp_le option.discI)
      moreover have "n - i \<le> count_list (rtcan_devices w) None \<longleftrightarrow> n - Suc i \<le> count_list (rtcan_devices w1) None"
        using one(4) i(1) by linarith
      ultimately show ?thesis unfolding i(2) by (simp add: one(1))
    next
      case False
      then obtain w1 where one: "rtcan_virt_init_one w i (mem i) = Inr (Inl ENOMEM, w1)" "virt_up T ?ds w1"
        using init_one_ok [OF Suc.prems(1) fresh T idx] Some by auto
      have neg: "\<not> ((\<forall>j \<in> {i..<n}. mem j \<noteq> None) \<and> n - i \<le> count_list (rtcan_devices w) None)"
        using False i(1) by (simp add: count_list_0_iff)
      then show ?thesis using unwind [OF one(2)] one(1) unfolding if_not_P [OF neg] by (auto simp: i(2))
    qed
  qed
qed

text \<open>
  Loading the virtual driver is all or nothing. If every allocation succeeds and the table has
  as many free slots as devices are asked for, all of them are registered, stopped, and found through
  the module's array. Otherwise the module fails with \<open>-ENOMEM\<close> and the table of devices is what it was
  before; whatever the parameter \<open>devices\<close>, nothing is written behind the 8 entries of the array.
\<close>

theorem virt_init_all_or_nothing:
  assumes "registry_ok w" "length (rtcan_virt_devs w) = RTCAN_MAX_VIRT_DEVS"
    and "\<forall>i < devices. \<not> registered w (the (mem i))"
    and "\<forall>i < devices. \<forall>j < devices. mem i = mem j \<and> mem i \<noteq> None \<longrightarrow> i = j"
  shows "\<exists>r w'. rtcan_virt_init w devices mem waits = Inr (Some (r, w')) \<and>
    (if (\<forall>i < devices. mem i \<noteq> None) \<and> devices \<le> count_list (rtcan_devices w) None
     then r = Inr 0 \<and> registry_ok w' \<and> (\<forall>i < devices. virt_dev w' i = Inr (the (mem i)) \<and>
       registered w' (the (mem i)) \<and> dev_state (devs w' (the (mem i))) = CAN_STATE_STOPPED)
     else r = Inl ENOMEM \<and> rtcan_devices w' = rtcan_devices w)"
proof -
  have "virt_up (rtcan_devices w) (map (the \<circ> mem) [0..<0]) w" using assms(1) by (simp add: virt_up_def map_idI)
  moreover have "count_list (rtcan_devices w) None \<le> RTCAN_MAX_VIRT_DEVS"
    using assms(1) count_le_length [of "rtcan_devices w" None]
    by (simp add: registry_ok_def RTCAN_MAX_DEVICES_def RTCAN_MAX_VIRT_DEVS_def)
  ultimately obtain r w' where run: "virt_init_loop w [0..<devices] mem waits = Inr (Some (r, w'))"
      "if (\<forall>j \<in> {0..<devices}. mem j \<noteq> None) \<and> devices - 0 \<le> count_list (rtcan_devices w) None
       then r = Inr 0 \<and> virt_up (rtcan_devices w) (map (the \<circ> mem) [0..<devices]) w'
       else r = Inl ENOMEM \<and> rtcan_devices w' = rtcan_devices w"
    using virt_init_loop_ok [of "rtcan_devices w" mem 0 w devices waits] assms(2-4)
    by (auto simp: registered_def)
  show ?thesis
  proof (cases "(\<forall>i < devices. mem i \<noteq> None) \<and> devices \<le> count_list (rtcan_devices w) None")
    case True
    then have "r = Inr 0" "virt_up (rtcan_devices w) (map (the \<circ> mem) [0..<devices]) w'" using run(2) by auto
    then show ?thesis using True run(1) by (auto simp: rtcan_virt_init_def virt_up_def virt_dev_def)
  next
    case False
    then have "r = Inl ENOMEM" "rtcan_devices w' = rtcan_devices w" 
      using run(2) unfolding atLeast0LessThan lessThan_iff Ball_def by (simp_all only: if_False diff_zero)
    with False run(1) show ?thesis unfolding rtcan_virt_init_def by (simp only: if_False) blast
  qed
qed

section \<open>Witnesses\<close>

definition empty_bus :: virt_world where
  "empty_bus = \<lparr>rtcan_devices = replicate RTCAN_MAX_DEVICES None, devs = (\<lambda>_. fresh_device),
     socks = (\<lambda>_. blank_socket), rtcan_socket_list = [], rtcan_virt_devs = replicate RTCAN_MAX_VIRT_DEVS None\<rparr>"

theorem virt_init_all_or_nothing_witness:
  "(\<exists>w'. rtcan_virt_init empty_bus 2 Some (\<lambda>_. []) = Inr (Some (Inr 0, w')) \<and> virt_dev w' 1 = Inr 1 \<and> registered w' 1) \<and>
   (\<exists>w'. rtcan_virt_init empty_bus 5 Some (\<lambda>_. []) = Inr (Some (Inl ENOMEM, w')) \<and> rtcan_devices w' = rtcan_devices empty_bus)"
proof -
  have ok: "registry_ok empty_bus" "length (rtcan_virt_devs empty_bus) = RTCAN_MAX_VIRT_DEVS"
      "\<And>d. \<not> registered empty_bus d"
    by (auto simp: registry_ok_def empty_bus_def registered_def)
  have n: "count_list (rtcan_devices empty_bus) None = 4" by code_simp
  from virt_init_all_or_nothing [OF ok(1,2), of 2 Some "\<lambda>_. []"] ok(3) n
  have "\<exists>w'. rtcan_virt_init empty_bus 2 Some (\<lambda>_. []) = Inr (Some (Inr 0, w')) \<and> virt_dev w' 1 = Inr 1 \<and> registered w' 1"
    by auto
  moreover from virt_init_all_or_nothing [OF ok(1,2), of 5 Some "\<lambda>_. []"] ok(3) n
  have "\<exists>w'. rtcan_virt_init empty_bus 5 Some (\<lambda>_. []) = Inr (Some (Inl ENOMEM, w')) \<and> rtcan_devices w' = rtcan_devices empty_bus"
    by auto
  ultimately show ?thesis by blast
qed

text \<open>Two active devices, and a socket bound to the first one.\<close>

definition bus_idle :: virt_world where
  "bus_idle = \<lparr>rtcan_devices = [Some 0, Some 1, None, None],
     devs = (\<lambda>d. fresh_device\<lparr>dev_name := (if d = 0 then ''rtcan0'' else ''rtcan1''), dev_ifindex := d + 1\<rparr>),
     socks = (\<lambda>_. blank_socket), rtcan_socket_list = [], rtcan_virt_devs = [Some 0, Some 1]\<rparr>"

definition first_interface :: sockaddr_can where
  "first_interface = \<lparr>scan_family = AF_CAN, scan_ifindex = 1\<rparr>"

definition bus_bound :: virt_world where
  "bus_bound = (case rtcan_raw_bind (rtcan_socket_init bus_idle 7) 7 first_interface of
     Inr (r, w) \<Rightarrow> w | Inl _ \<Rightarrow> bus_idle)"

lemma bus_bound_inv: "can_inv bus_bound" "rtcan_socket_list bus_bound = [7]" "bindings_of bus_bound 7 = (1, [zero_filter])"
    "rtcan_devices bus_bound = [Some 0, Some 1, None, None]"
    "socks bus_bound 7 = (socks (rtcan_socket_init bus_idle 7) 7)\<lparr>flistlen := 1, sock_ifindex := 1\<rparr>"
proof -
  let ?w = "rtcan_socket_init bus_idle 7"
  have "dev_lists (fresh_device\<lparr>dev_name := n, dev_ifindex := k\<rparr>) [] [0..<RTCAN_MAX_RECEIVERS]" for n k
    using fresh_device_lists by (simp add: dev_lists_def)
  then have "sock_init bus_idle"
    by (auto simp: sock_init_def registry_ok_def bus_idle_def registered_def RTCAN_MAX_DEVICES_def
        nth_Cons inj_on_def ifname_def IFNAMSIZ_def split: nat.splits)
  moreover have "sock_step bus_idle ?w"
    by (rule step_socket [of 7 _ 0 "Inr 0"]) (simp_all add: rtcan_raw_socket_def bus_idle_def)
  ultimately have "can_inv ?w" using sock_life.reach_inv reach_init reach_step by metis
  moreover have room: "room_for ?w 7 1 FlistNull"
    by (auto simp: room_for_def rtcan_socket_init_def bus_idle_def fresh_device_def
      mounted_flist_def flist_filters_def mounted_def mounted_len_def registered_def RTCAN_MAX_RECEIVERS_def)
  moreover have "7 \<in> set (rtcan_socket_list ?w)" "flist (socks ?w 7) = FlistNull" "context_flags (socks ?w 7) = 0"
    by (simp_all add: rtcan_socket_init_def bus_idle_def blank_socket_def)
  ultimately obtain w' where w': "rtcan_raw_bind ?w 7 first_interface = Inr (Inr 0, w')" "can_inv w'"
      "rtcan_socket_list w' = rtcan_socket_list ?w" "rtcan_devices w' = rtcan_devices ?w"
      "socks w' = (socks ?w)(7 := (socks ?w 7)\<lparr>flistlen := 1, sock_ifindex := 1\<rparr>)"
      "bindings_of w' = (bindings_of ?w)(7 := (1, [zero_filter]))"
    using bind_effect [of ?w 7 first_interface]
    by (auto simp: first_interface_def RTCAN_MAX_DEVICES_def mounted_flist_def flist_filters_def mounted_def)
  then show "can_inv bus_bound" "rtcan_socket_list bus_bound = [7]" "bindings_of bus_bound 7 = (1, [zero_filter])"
      "rtcan_devices bus_bound = [Some 0, Some 1, None, None]"
      "socks bus_bound 7 = (socks ?w 7)\<lparr>flistlen := 1, sock_ifindex := 1\<rparr>"
    by (simp_all add: bus_bound_def) (simp_all add: rtcan_socket_init_def bus_idle_def)
qed

lemma bus_bound_state: "dev_state (devs bus_bound 0) = CAN_STATE_ACTIVE" "dev_state (devs bus_bound (Suc 0)) = CAN_STATE_ACTIVE"
    "tx_socket (devs bus_bound (Suc 0)) = None" "dev_ifindex (devs bus_bound 0) = 1" "rtcan_virt_devs bus_bound = [Some 0, Some 1]"
  by code_simp+

definition demo_frame :: can_frame where
  "demo_frame = \<lparr>frm_can_id = 0x123, frm_can_dlc = 2, frm_data = [0xAB, 0xCD, 0, 0, 0, 0, 0, 0]\<rparr>"

theorem virt_broadcast_witness:
  "\<exists>w'. rtcan_virt_start_xmit (\<lambda>_. 0) (replicate 22 0) 2 1 demo_frame bus_bound = Inr (Inr 0, w') \<and>
     sock_queue (socks w' 7) [demo_msg None]"
proof -
  have q: "queues bus_bound (\<lambda>_. [])"
  proof -
    have "ring_holds (socks bus_bound 7) []"
      by (rule blank_queue) (simp_all add: bus_bound_inv(5) rtcan_socket_init_def bus_idle_def blank_socket_def)
    then show ?thesis
      by (simp add: queues_def bus_bound_inv(2) sock_queue_def rs.counts_def)
        (simp add: bus_bound_inv(5) rtcan_socket_init_def bus_idle_def blank_socket_def rtdm_sem_init_def sem_idle_def sem_val_def)
  qed
  have "\<forall>i < length [0, 1 :: nat]. virt_dev bus_bound i = Inr ([0, 1] ! i) \<and> registered bus_bound ([0, 1] ! i)"
    by (auto simp: less_Suc_eq virt_dev_def bus_bound_state(5) registered_def bus_bound_inv(4))
  note on_bus = this
  have two: "length [0, 1 :: nat] = 2" by simp
  have "\<exists>w'. rtcan_virt_start_xmit (\<lambda>_. 0) (replicate 22 0) (length [0, 1 :: nat]) 1 demo_frame bus_bound = Inr (Inr 0, w') \<and>
      can_inv w' \<and> bindings_of w' = bindings_of bus_bound \<and> rtcan_socket_list w' = rtcan_socket_list bus_bound \<and>
      queues w' (\<lambda>s. bus_queue (\<lambda>_. 0) bus_bound 1 demo_frame s (zip [0..<length [0, 1 :: nat]] [0, 1]) [])"
    by (rule virt_broadcast [OF bus_bound_inv(1) q _ _ _ _ on_bus])
      (simp_all add: demo_frame_def EMPTY_RB_FRAME_SIZE_eq bus_bound_state(3))
  then obtain w' where w': "rtcan_virt_start_xmit (\<lambda>_. 0) (replicate 22 0) 2 1 demo_frame bus_bound = Inr (Inr 0, w')"
      "rtcan_socket_list w' = [7]"
      "queues w' (\<lambda>s. bus_queue (\<lambda>_. 0) bus_bound 1 demo_frame s (zip [0..<2] [0, 1]) [])"
    unfolding two bus_bound_inv(2) by blast
  have "wants_timestamp (socks bus_bound 7) = False"
    by (simp add: wants_timestamp_def bus_bound_inv(5) rtcan_socket_init_def bus_idle_def blank_socket_def)
  moreover have "hits bus_bound 0 0x123 7 = 1"
    by (simp add: hits_def bus_bound_inv(3) bus_bound_state(4) in_range_def zero_filter_def rtcan_accept_msg_def can_consts)
  moreover have "sent_msg (devs bus_bound 0) demo_frame None = demo_msg None"
    by (simp add: sent_msg_def demo_frame_def demo_msg_def bus_bound_state(4) can_consts)
  moreover have "q_add (demo_msg None) [] = [demo_msg None]"
    using demo_msg_wf(2) [of None] by (simp add: q_add_def qbytes_def RTCAN_RXBUF_SIZE_def)
  moreover have "zip [0..<2] [0, 1] = [(0, 0), (1, 1 :: nat)]" by (simp add: upt_rec)
  ultimately have "bus_queue (\<lambda>_. 0) bus_bound 1 demo_frame 7 (zip [0..<2] [0, 1]) [] = [demo_msg None]"
    using bus_bound_state by (simp add: stamp_for_def) (simp add: demo_frame_def)
  then show ?thesis using w' by (auto simp: queues_def)
qed

end
