(* ===== verification/Can_Wire.thy ===== *)
theory Can_Wire
  imports Can_Ioctl
begin

text \<open>
  What the drivers of the CAN controllers share: the parts of a frame that travel over the wire, the
  ring buffer frame built from what a controller has received, the data bytes of error frames
  (\<open>rtcan.h\<close>), and the steps of an interrupt handler that hand frames to the sockets.
\<close>

section \<open>Error frames and interrupt results\<close>

definition CAN_ERR_CRTL_RX_OVERFLOW :: u8 where "CAN_ERR_CRTL_RX_OVERFLOW = 1"
definition CAN_ERR_CRTL_RX_WARNING :: u8 where "CAN_ERR_CRTL_RX_WARNING = 4"
definition CAN_ERR_CRTL_TX_WARNING :: u8 where "CAN_ERR_CRTL_TX_WARNING = 8"
definition CAN_ERR_CRTL_RX_PASSIVE :: u8 where "CAN_ERR_CRTL_RX_PASSIVE = 16"
definition CAN_ERR_CRTL_TX_PASSIVE :: u8 where "CAN_ERR_CRTL_TX_PASSIVE = 32"
definition CAN_ERR_PROT_BIT :: u8 where "CAN_ERR_PROT_BIT = 1"
definition CAN_ERR_PROT_FORM :: u8 where "CAN_ERR_PROT_FORM = 2"
definition CAN_ERR_PROT_STUFF :: u8 where "CAN_ERR_PROT_STUFF = 4"
definition CAN_ERR_PROT_TX :: u8 where "CAN_ERR_PROT_TX = 0x80"

datatype irq_return = RTDM_IRQ_NONE | RTDM_IRQ_HANDLED

section \<open>Frames on the wire\<close>

text \<open>What of an identifier travels: the format, the 29 or 11 identifier bits and the RTR bit.\<close>

definition wire_id :: "u32 \<Rightarrow> u32" where
  "wire_id can_id =
     (if can_id AND CAN_EFF_FLAG \<noteq> 0 then CAN_EFF_FLAG OR (can_id AND CAN_EFF_MASK) else can_id AND CAN_SFF_MASK)
     OR (can_id AND CAN_RTR_FLAG)"

lemma mask_consts: "CAN_EFF_MASK = mask 29" "CAN_SFF_MASK = mask 11"
  by (simp_all add: can_consts mask_eq_exp_minus_1)

definition wire_size :: "can_frame \<Rightarrow> nat" where
  "wire_size frame = (if frm_can_dlc frame > 8 then 8 else unat (frm_can_dlc frame))"

lemma wire_size_le: "wire_size frame \<le> 8"
  by (auto simp: wire_size_def word_less_nat_alt)

section \<open>Received frames\<close>

lemma dlc_nibble: "(dlc :: u8) \<le> 15 \<Longrightarrow> dlc AND 15 = dlc \<and> dlc AND 0x40 = 0 \<and> dlc AND 0x80 = 0"
proof -
  assume "dlc \<le> 15"
  then have "unat dlc < 2 ^ 4" by (simp add: word_le_nat_alt)
  then have "take_bit 4 dlc = dlc" by (simp add: word_unat_eq_iff unsigned_take_bit_eq take_bit_nat_eq_self)
  then have m: "dlc AND 15 = dlc" by (simp add: take_bit_eq_mask mask_numeral)
  have "(dlc AND 15) AND 0x40 = 0" "(dlc AND 15) AND 0x80 = 0" by (simp_all add: and.assoc)
  then show ?thesis using m by simp
qed

lemma build_skb:
  fixes ix :: u8
  assumes "length f = sizeof_rb_frame" "dlc AND RTCAN_HAS_NO_TIMESTAMP = dlc" "length dat = payload_len can_id dlc"
  defines "skb \<equiv> \<lparr>rb_frame_size = EMPTY_RB_FRAME_SIZE + length dat,
    rb_frame = set_rb_can_ifindex ix (memcpy_at (set_rb_can_id can_id (set_rb_can_dlc dlc f)) 6 dat)\<rparr>"
  shows "wf_skb skb" "msg_of skb ts = \<lparr>m_id = can_id, m_ifindex = ix, m_dlc = dlc, m_data = dat, m_ts = ts\<rparr>"
proof -
  have len: "length f = 22" "length dat \<le> 8"
    using assms(1,3) by (simp_all add: EMPTY_RB_FRAME_SIZE_eq payload_len_def)
  define f1 where "f1 = set_rb_can_id can_id (set_rb_can_dlc dlc f)"
  define f2 where "f2 = set_rb_can_ifindex ix (memcpy_at f1 6 dat)"
  have l1: "length f1 = 22" "take 4 f1 = u32_bytes can_id" "f1 ! 5 = dlc"
    using len by (simp_all add: f1_def set_rb_can_dlc_def set_rb_can_id_def memcpy_at_def nth_append)
  have l2: "length f2 = 22" "rb_can_id f2 = can_id" "rb_can_dlc f2 = dlc" "rb_can_ifindex f2 = ix"
    using l1 len by (simp_all add: f2_def set_rb_can_ifindex_def rb_can_id_def rb_can_dlc_def rb_can_ifindex_def
        take_memcpy_at nth_memcpy_at)
  have l3: "take (length dat) (drop 6 f2) = dat"
    using l1 len by (simp add: f2_def set_rb_can_ifindex_def memcpy_at_def)
  have skb: "skb = \<lparr>rb_frame_size = EMPTY_RB_FRAME_SIZE + length dat, rb_frame = f2\<rparr>"
    by (simp add: skb_def f2_def f1_def)
  have pay: "skb_payload skb = length dat" by (simp add: skb_payload_def skb l2 assms(2,3))
  show "wf_skb skb" unfolding wf_skb_def pay by (simp add: skb l2 EMPTY_RB_FRAME_SIZE_eq)
  show "msg_of skb ts = \<lparr>m_id = can_id, m_ifindex = ix, m_dlc = dlc, m_data = dat, m_ts = ts\<rparr>"
    unfolding msg_of_def pay by (simp add: skb l2 l3 assms(2))
qed

definition wire_msg :: "rtcan_device \<Rightarrow> can_frame \<Rightarrow> u64 option \<Rightarrow> can_msg" where
  "wire_msg dev frame ts = \<lparr>m_id = wire_id (frm_can_id frame), m_ifindex = of_nat (dev_ifindex dev),
     m_dlc = frm_can_dlc frame,
     m_data = (if frm_can_id frame AND CAN_RTR_FLAG = 0 then take (wire_size frame) (frm_data frame) else []), m_ts = ts\<rparr>"

lemma and_exp_cases: "(i :: 'a :: len word) AND 2 ^ n = 0 \<or> i AND 2 ^ n = 2 ^ n"
proof (cases "bit i n")
  case True
  then have "i AND 2 ^ n = 2 ^ n" by (intro bit_word_eqI) (auto simp: bit_and_iff bit_exp_iff)
  then show ?thesis ..
next
  case False
  then have "i AND 2 ^ n = 0" by (intro bit_word_eqI) (auto simp: bit_and_iff bit_exp_iff)
  then show ?thesis ..
qed

lemma wire_id_rtr:
  "wire_id i AND CAN_RTR_FLAG = i AND CAN_RTR_FLAG"
  "i AND CAN_RTR_FLAG \<noteq> 0 \<Longrightarrow> i AND CAN_RTR_FLAG = CAN_RTR_FLAG"
  using and_exp_cases [of i 30] by (simp_all add: wire_id_def can_consts bit.conj_disj_distrib2 and.assoc)

lemma dlc15_stamp: "(dlc :: u8) \<le> 15 \<Longrightarrow> dlc AND RTCAN_HAS_NO_TIMESTAMP = dlc"
proof -
  assume "dlc \<le> 15"
  then have "dlc = dlc AND 15" by (simp add: dlc_nibble)
  then have "dlc AND RTCAN_HAS_NO_TIMESTAMP = dlc AND (15 AND RTCAN_HAS_NO_TIMESTAMP)" by (metis and.assoc)
  then show ?thesis using dlc_nibble [OF \<open>dlc \<le> 15\<close>] by (simp add: RTCAN_HAS_NO_TIMESTAMP_def)
qed

section \<open>Steps of an interrupt handler\<close>

text \<open>
  What the handler relies on: the device is registered, the queues are intact, and a frame that waits
  for its loopback is well formed.
\<close>

definition ctl_ready :: "nat \<Rightarrow> 'z can_world_scheme \<Rightarrow> bool" where
  "ctl_ready d w \<longleftrightarrow> can_inv w \<and> registered w d \<and> (\<exists>q. queues w q) \<and>
     (tx_socket (devs w d) \<noteq> None \<longrightarrow> wf_skb (tx_skb (devs w d)))"

lemma ctl_ready_frame: "ctl_ready d w \<Longrightarrow> ctl_frame d w w' \<Longrightarrow> ctl_ready d w'"
  using ctl_frame_inv(2) [of d w w']
  by (auto simp: ctl_ready_def registered_def queues_def ctl_frame_def)

lemma counted_tx: "counted dev dev' \<Longrightarrow> tx_socket dev' = tx_socket dev \<and> tx_skb dev' = tx_skb dev"
  by (cases dev; cases dev') (simp add: counted_def)

lemma ctl_ready_walked:
  assumes "ctl_ready d w" "walked L d w w'" "queues w' q"
  shows "ctl_ready d w'"
  using assms walked_inv(1) [OF _ assms(2)] counted_tx [of "devs w d" "devs w' d"]
  by (auto simp: ctl_ready_def walked_def registered_def)

lemma rtr_bit: "(i :: u32) AND CAN_RTR_FLAG = 0 \<longleftrightarrow> \<not> bit i 30"
proof -
  have "bit (2 ^ 30 :: u32) 30" by (simp add: bit_exp_iff del: power_numeral)
  then show ?thesis
    using and_exp_cases [of i 30] bit_and_iff [of i "2 ^ 30" 30] by (auto simp: can_consts)
qed

lemma bit_u8_high: "\<not> bit (x :: u8) (numeral n)" if "8 \<le> (numeral n :: nat)"
  using that bit_imp_le_length [of x "numeral n"] by auto

lemma ctl_ready_rcv:
  assumes "ctl_ready d w" "wf_skb skb"
  shows "\<exists>w' skb'. rtcan_rcv w d skb now = Inr (w', skb') \<and> ctl_ready d w' \<and> bindings_of w' = bindings_of w \<and>
    can_world.more w' = can_world.more w \<and> length (rb_frame skb') = sizeof_rb_frame"
proof -
  obtain q where q: "queues w q" "can_inv w" "registered w d" using assms(1) by (auto simp: ctl_ready_def)
  obtain w' skb' where r: "rtcan_rcv w d skb now = Inr (w', skb')" "walked (set (rtcan_socket_list w)) d w w'"
      "same_msg now skb skb'" "\<exists>q'. queues w' q'"
    using rcv_effect [OF q(2,3,1) assms(2)] by blast
  then show ?thesis
    using ctl_ready_walked [OF assms(1) r(2)] walked_inv(2) [OF q(2) r(2)]
    by (auto simp: same_msg_def wf_skb_def walked_def)
qed

lemma ctl_ready_loopback:
  assumes "ctl_ready d w" "tx_socket (devs w d) \<noteq> None"
  shows "\<exists>w'. rtcan_loopback w d now = Inr w' \<and> ctl_ready d w' \<and> bindings_of w' = bindings_of w \<and>
    can_world.more w' = can_world.more w"
proof -
  obtain q where q: "queues w q" "can_inv w" "registered w d" "wf_skb (tx_skb (devs w d))"
    using assms by (auto simp: ctl_ready_def)
  obtain w' v skb' where l: "rtcan_loopback w d now = Inr w'" "can_inv w'" "bindings_of w' = bindings_of w"
      "tx_socket (devs w' d) = None" "walked (set (rtcan_socket_list w)) d w v"
      "w' = upd_dev d (\<lambda>dev. dev\<lparr>tx_skb := skb', tx_socket := None\<rparr>) v" "\<exists>q'. queues w' q'"
    using loopback_effect [OF q(2,3,1,4), of now] by auto
  moreover have "registered w' d" using q(3) l(5) by (simp add: registered_def l(6) walked_def)
  moreover have "can_world.more w' = can_world.more w" using l(5) by (simp add: l(6) walked_def upd_dev_def)
  ultimately show ?thesis by (simp add: ctl_ready_def)
qed

text \<open>What the stack knows of a state does not depend on the hardware that extends it.\<close>

lemma same_stack:
  assumes "rtcan_devices v = rtcan_devices w" "devs v = devs w" "socks v = socks w" "rtcan_socket_list v = rtcan_socket_list w"
  shows "can_inv v = can_inv w" "registered v d = registered w d" "queues v q = queues w q" "bindings_of v = bindings_of w"
proof -
  show b: "bindings_of v = bindings_of w" by (simp add: bindings_of_def fun_eq_iff assms)
  have "filters_for v B = filters_for w B" for B
    by (simp add: filters_for_def registry_ok_def registered_def ifname_def inj_on_def assms)
  then show "can_inv v = can_inv w" unfolding can_inv_def b by (simp add: assms)
qed (simp_all add: registered_def queues_def assms)

end
