(* ===== verification/Can_Mscan.thy ===== *)
theory Can_Mscan
  imports Can_Wire
begin

text \<open>
  The driver of the MSCAN controllers of the MPC5200 (\<open>mscan/rtcan_mscan.c\<close>). The registers of a chip are
  memory mapped at \<open>dev->base_addr\<close>; the chip is an argument of the operations: reading a register
  returns its value and may change the state of the chip, writing one changes it. The state of the
  chips by base address, the base addresses of the devices, the driver's device table and the GPIO
  port configuration extend the global state.
\<close>

section \<open>Registers\<close>

definition MSCAN_WUPE :: u8 where "MSCAN_WUPE = 0x04"
definition MSCAN_SLPRQ :: u8 where "MSCAN_SLPRQ = 0x02"
definition MSCAN_INITRQ :: u8 where "MSCAN_INITRQ = 0x01"
definition MSCAN_CANE :: u8 where "MSCAN_CANE = 0x80"
definition MSCAN_CLKSRC :: u8 where "MSCAN_CLKSRC = 0x40"
definition MSCAN_LOOPB :: u8 where "MSCAN_LOOPB = 0x20"
definition MSCAN_LISTEN :: u8 where "MSCAN_LISTEN = 0x10"
definition MSCAN_SLPAK :: u8 where "MSCAN_SLPAK = 0x02"
definition MSCAN_INITAK :: u8 where "MSCAN_INITAK = 0x01"
definition MSCAN_WUPIF :: u8 where "MSCAN_WUPIF = 0x80"
definition MSCAN_CSCIF :: u8 where "MSCAN_CSCIF = 0x40"
definition MSCAN_RSTAT1 :: u8 where "MSCAN_RSTAT1 = 0x20"
definition MSCAN_RSTAT0 :: u8 where "MSCAN_RSTAT0 = 0x10"
definition MSCAN_TSTAT1 :: u8 where "MSCAN_TSTAT1 = 0x08"
definition MSCAN_TSTAT0 :: u8 where "MSCAN_TSTAT0 = 0x04"
definition MSCAN_OVRIF :: u8 where "MSCAN_OVRIF = 0x02"
definition MSCAN_RXF :: u8 where "MSCAN_RXF = 0x01"
definition MSCAN_WUPIE :: u8 where "MSCAN_WUPIE = 0x80"
definition MSCAN_RIER :: u8 where
  "MSCAN_RIER = 0x02 OR 0x01 OR MSCAN_WUPIF OR 0x40 OR 0x10 OR 0x20 OR 0x04 OR 0x08"
definition MSCAN_TXE0 :: u8 where "MSCAN_TXE0 = 0x01"
definition MSCAN_TXIE0 :: u8 where "MSCAN_TXIE0 = 0x01"
definition MSCAN_IDAM1 :: u8 where "MSCAN_IDAM1 = 0x20"
definition MSCAN_IDAM0 :: u8 where "MSCAN_IDAM0 = 0x10"
definition MSCAN_BUF_STD_RTR :: u8 where "MSCAN_BUF_STD_RTR = 0x10"
definition MSCAN_BUF_EXT_RTR :: u8 where "MSCAN_BUF_EXT_RTR = 0x01"
definition MSCAN_BUF_EXTENDED :: u8 where "MSCAN_BUF_EXTENDED = 0x08"

lemmas mscan_bits = MSCAN_WUPE_def MSCAN_SLPRQ_def MSCAN_INITRQ_def MSCAN_CANE_def MSCAN_CLKSRC_def MSCAN_LOOPB_def
  MSCAN_LISTEN_def MSCAN_SLPAK_def MSCAN_INITAK_def MSCAN_WUPIF_def MSCAN_CSCIF_def MSCAN_RSTAT1_def
  MSCAN_RSTAT0_def MSCAN_TSTAT1_def MSCAN_TSTAT0_def MSCAN_OVRIF_def MSCAN_RXF_def MSCAN_WUPIE_def MSCAN_RIER_def
  MSCAN_TXE0_def MSCAN_TXIE0_def MSCAN_IDAM1_def MSCAN_IDAM0_def MSCAN_BUF_STD_RTR_def MSCAN_BUF_EXT_RTR_def
  MSCAN_BUF_EXTENDED_def

text \<open>The fields of \<open>struct mscan_msgbuf\<close> and \<open>struct mscan_regs\<close> that the driver uses.\<close>

datatype mscan_msgbuf = idr nat | dsr nat | dlr | tbpr

datatype mscan_regs = canctl0 | canctl1 | canbtr0 | canbtr1 | canrflg | canrier | cantflg | cantier | cantbsel
  | canidac | canidar nat | canidmr nat | canrxfg mscan_msgbuf | cantxfg mscan_msgbuf

section \<open>Access to the chip\<close>

record 'h mscan_chip =
  ms_read :: "mscan_regs \<Rightarrow> 'h \<Rightarrow> u8 \<times> 'h"
  ms_write :: "mscan_regs \<Rightarrow> u8 \<Rightarrow> 'h \<Rightarrow> 'h"

record 'h mscan_world = can_world +
  ms_hw :: "u32 \<Rightarrow> 'h"
  base_addr :: "nat \<Rightarrow> u32"
  rtcan_mscan_devs :: "nat option list"
  port_config :: u32

definition mrd ::
    "'h mscan_chip \<Rightarrow> nat \<Rightarrow> mscan_regs \<Rightarrow> ('h, 'z) mscan_world_scheme \<Rightarrow> u8 \<times> ('h, 'z) mscan_world_scheme" where
  "mrd chip d r w =
     (case ms_read chip r (ms_hw w (base_addr w d)) of (v, h) \<Rightarrow> (v, w\<lparr>ms_hw := (ms_hw w)(base_addr w d := h)\<rparr>))"

definition mwr ::
    "'h mscan_chip \<Rightarrow> nat \<Rightarrow> mscan_regs \<Rightarrow> u8 \<Rightarrow> ('h, 'z) mscan_world_scheme \<Rightarrow> ('h, 'z) mscan_world_scheme" where
  "mwr chip d r v w = w\<lparr>ms_hw := (ms_hw w)(base_addr w d := ms_write chip r v (ms_hw w (base_addr w d)))\<rparr>"

text \<open>A compound assignment reads the register and writes it back.\<close>

definition mupd ::
    "'h mscan_chip \<Rightarrow> nat \<Rightarrow> mscan_regs \<Rightarrow> (u8 \<Rightarrow> u8) \<Rightarrow> ('h, 'z) mscan_world_scheme \<Rightarrow> ('h, 'z) mscan_world_scheme" where
  "mupd chip d r f w = (case mrd chip d r w of (v, w1) \<Rightarrow> mwr chip d r (f v) w1)"

fun mrd_list ::
    "'h mscan_chip \<Rightarrow> nat \<Rightarrow> mscan_regs list \<Rightarrow> ('h, 'z) mscan_world_scheme \<Rightarrow> u8 list \<times> ('h, 'z) mscan_world_scheme" where
  "mrd_list chip d [] w = ([], w)"
| "mrd_list chip d (r # rs) w =
     (case mrd chip d r w of (v, w1) \<Rightarrow> case mrd_list chip d rs w1 of (vs, w2) \<Rightarrow> (v # vs, w2))"

fun mwr_list ::
    "'h mscan_chip \<Rightarrow> nat \<Rightarrow> (mscan_regs \<times> u8) list \<Rightarrow> ('h, 'z) mscan_world_scheme \<Rightarrow> ('h, 'z) mscan_world_scheme" where
  "mwr_list chip d [] w = w"
| "mwr_list chip d ((r, v) # rvs) w = mwr_list chip d rvs (mwr chip d r v w)"

text \<open>The data bytes lie in pairs, with a gap of two bytes after each pair.\<close>

definition dsr_at :: "nat \<Rightarrow> mscan_msgbuf" where
  "dsr_at i = dsr (i + i div 2 * 2)"

section \<open>Interrupts\<close>

definition mscan_rx_id ::
    "'h mscan_chip \<Rightarrow> nat \<Rightarrow> ('h, 'z) mscan_world_scheme \<Rightarrow> u32 \<times> bool \<times> ('h, 'z) mscan_world_scheme" where
  "mscan_rx_id chip d w =
     (let (x, w1) = mrd chip d (canrxfg (idr 1)) w in
      if x AND MSCAN_BUF_EXTENDED \<noteq> 0 then
        (case mrd_list chip d (map (\<lambda>i. canrxfg (idr i)) [0, 1, 1, 4, 5, 5]) w1 of
           (xs, w2) \<Rightarrow>
             (push_bit 21 (ucast (xs ! 0)) OR push_bit 13 (ucast (xs ! 1 AND 0xE0)) OR push_bit 15 (ucast (xs ! 2 AND 0x07))
                OR push_bit 7 (ucast (xs ! 3)) OR ucast (drop_bit 1 (xs ! 4)) OR CAN_EFF_FLAG,
              xs ! 5 AND MSCAN_BUF_EXT_RTR \<noteq> 0, w2))
      else
        (case mrd_list chip d (map (\<lambda>i. canrxfg (idr i)) [0, 1, 1]) w1 of
           (xs, w2) \<Rightarrow>
             (push_bit 3 (ucast (xs ! 0)) OR ucast (drop_bit 5 (xs ! 1)), xs ! 2 AND MSCAN_BUF_STD_RTR \<noteq> 0, w2)))"

definition rtcan_mscan_rx_interrupt ::
    "'h mscan_chip \<Rightarrow> nat \<Rightarrow> rtcan_skb \<Rightarrow> ('h, 'z) mscan_world_scheme \<Rightarrow> rtcan_skb \<times> ('h, 'z) mscan_world_scheme" where
  "rtcan_mscan_rx_interrupt chip d skb w =
     (let (len, w1) = mrd chip d (canrxfg dlr) w;
          dlc = len AND 0x0F;
          size = (if dlc > 8 then 8 else unat dlc);
          (can_id, rtr, w2) = mscan_rx_id chip d w1;
          (dat, w3) = (if rtr then ([], w2) else mrd_list chip d (map (\<lambda>i. canrxfg (dsr_at i)) [0..<size]) w2);
          rb = memcpy_at (set_rb_can_id (if rtr then can_id OR CAN_RTR_FLAG else can_id)
                 (set_rb_can_dlc dlc (rb_frame skb))) 6 dat
      in (\<lparr>rb_frame_size = EMPTY_RB_FRAME_SIZE + (if rtr then 0 else size),
           rb_frame = set_rb_can_ifindex (of_nat (dev_ifindex (devs w3 d))) rb\<rparr>, w3))"

definition mscan_stat_map :: "can_state list" where
  "mscan_stat_map = [CAN_STATE_ACTIVE, CAN_STATE_BUS_WARNING, CAN_STATE_BUS_PASSIVE, CAN_STATE_BUS_OFF]"

text \<open>
  The error sources: the class bits of the error frame, its data byte 1 and the new state. The local
  variables \<open>rstat\<close> and \<open>tstat\<close> are filled as the code does it.
\<close>

definition mscan_rstat :: "u8 \<Rightarrow> u8" where
  "mscan_rstat r_status = drop_bit 2 (r_status AND (MSCAN_TSTAT0 OR MSCAN_TSTAT1)) AND 3"

definition mscan_tstat :: "u8 \<Rightarrow> u8" where
  "mscan_tstat r_status = drop_bit 4 (r_status AND (MSCAN_RSTAT0 OR MSCAN_RSTAT1)) AND 3"

definition mscan_err_sources ::
    "'h mscan_chip \<Rightarrow> nat \<Rightarrow> u8 \<Rightarrow> ('h, 'z) mscan_world_scheme \<Rightarrow> u32 \<times> u8 \<times> ('h, 'z) mscan_world_scheme" where
  "mscan_err_sources chip d r_status w =
     (if r_status AND MSCAN_OVRIF \<noteq> 0 then (CAN_ERR_FLAG OR CAN_ERR_CRTL, CAN_ERR_CRTL_RX_OVERFLOW, w)
      else if r_status AND MSCAN_CSCIF \<noteq> 0 then
        let rstat = mscan_rstat r_status; tstat = mscan_tstat r_status;
            st = mscan_stat_map ! unat (max rstat tstat);
            w1 = upd_dev d (\<lambda>dev. dev\<lparr>dev_state := st\<rparr>) w
        in case st of
             CAN_STATE_BUS_OFF \<Rightarrow>
               (CAN_ERR_FLAG OR CAN_ERR_BUSOFF, 0, upd_tx_sem d rtdm_sem_destroy (mwr chip d canrier 0 w1))
           | CAN_STATE_BUS_PASSIVE \<Rightarrow>
               (CAN_ERR_FLAG OR CAN_ERR_CRTL, if tstat > rstat then CAN_ERR_CRTL_TX_PASSIVE else CAN_ERR_CRTL_RX_PASSIVE, w1)
           | CAN_STATE_BUS_WARNING \<Rightarrow>
               (CAN_ERR_FLAG OR CAN_ERR_CRTL, if tstat > rstat then CAN_ERR_CRTL_TX_WARNING else CAN_ERR_CRTL_RX_WARNING, w1)
           | _ \<Rightarrow> (CAN_ERR_FLAG, 0, w1)
      else (CAN_ERR_FLAG, 0, w))"

definition rtcan_mscan_err_interrupt ::
    "'h mscan_chip \<Rightarrow> nat \<Rightarrow> rtcan_skb \<Rightarrow> u8 \<Rightarrow> ('h, 'z) mscan_world_scheme \<Rightarrow> rtcan_skb \<times> ('h, 'z) mscan_world_scheme" where
  "rtcan_mscan_err_interrupt chip d skb r_status w =
     (let (can_id, d1, w1) = mscan_err_sources chip d r_status w;
          rb = memcpy_at (set_rb_can_id can_id (set_rb_can_dlc CAN_ERR_DLC (rb_frame skb))) 6 [0, d1, 0, 0, 0, 0, 0, 0]
      in (\<lparr>rb_frame_size = EMPTY_RB_FRAME_SIZE + unat CAN_ERR_DLC,
           rb_frame = set_rb_can_ifindex (of_nat (dev_ifindex (devs w1 d))) rb\<rparr>, w1))"

text \<open>The three parts of the handler; \<open>clk\<close> is the clock, \<open>skb\<close> the local variable all deliveries share.\<close>

definition mscan_tx_part ::
    "'h mscan_chip \<Rightarrow> u64 \<Rightarrow> nat \<Rightarrow> ('h, 'z) mscan_world_scheme \<Rightarrow> ('h, 'z) mscan_world_scheme kres" where
  "mscan_tx_part chip clk d w =
     (let (tier, w1) = mrd chip d cantier w;
          (tflg, w2) = (if tier AND MSCAN_TXIE0 \<noteq> 0 then mrd chip d cantflg w1 else (0, w1))
      in if tier AND MSCAN_TXIE0 \<noteq> 0 \<and> tflg AND MSCAN_TXE0 \<noteq> 0 then
           let w3 = upd_tx_sem d rtdm_sem_up (mwr chip d cantier 0 w2)
           in if tx_socket (devs w3 d) \<noteq> None then rtcan_loopback w3 d clk else Inr w3
         else Inr w2)"

definition mscan_rx_part ::
    "'h mscan_chip \<Rightarrow> u64 \<Rightarrow> nat \<Rightarrow> u8 \<Rightarrow> rtcan_skb \<Rightarrow> ('h, 'z) mscan_world_scheme
      \<Rightarrow> (rtcan_skb \<times> ('h, 'z) mscan_world_scheme) kres" where
  "mscan_rx_part chip clk d rflg skb w =
     (if rflg AND MSCAN_RXF \<noteq> 0 then
        (case rtcan_mscan_rx_interrupt chip d skb w of
           (skb1, w1) \<Rightarrow> kbind (rtcan_rcv w1 d skb1 clk) (\<lambda>(w2, skb2). Inr (skb2, w2)))
      else Inr (skb, w))"

definition mscan_err_part ::
    "'h mscan_chip \<Rightarrow> u64 \<Rightarrow> nat \<Rightarrow> u8 \<Rightarrow> rtcan_skb \<Rightarrow> ('h, 'z) mscan_world_scheme
      \<Rightarrow> (rtcan_skb \<times> ('h, 'z) mscan_world_scheme) kres" where
  "mscan_err_part chip clk d rflg skb w =
     (if rflg AND (MSCAN_CSCIF OR MSCAN_OVRIF) \<noteq> 0 then
        (case rtcan_mscan_err_interrupt chip d skb rflg w of
           (skb1, w1) \<Rightarrow> kbind (rtcan_rcv w1 d skb1 clk) (\<lambda>(w2, skb2). Inr (skb2, w2)))
      else Inr (skb, w))"

text \<open>\<open>stack\<close> is the uninitialised local variable \<open>skb\<close>; a wake-up interrupt is only logged.\<close>

definition rtcan_mscan_interrupt ::
    "'h mscan_chip \<Rightarrow> u64 \<Rightarrow> rtcan_skb \<Rightarrow> nat \<Rightarrow> ('h, 'z) mscan_world_scheme
      \<Rightarrow> (irq_return \<times> ('h, 'z) mscan_world_scheme) kres" where
  "rtcan_mscan_interrupt chip clk stack d w =
     (case mrd chip d canrflg w of
        (rflg, w1) \<Rightarrow>
          kbind (mscan_tx_part chip clk d w1) (\<lambda>w2.
          kbind (mscan_rx_part chip clk d rflg stack w2) (\<lambda>(skb1, w3).
          kbind (mscan_err_part chip clk d rflg skb1 w3) (\<lambda>(skb2, w4).
          Inr (RTDM_IRQ_HANDLED, if rflg \<noteq> 0 then mwr chip d canrflg rflg w4 else w4)))))"

section \<open>Operating modes\<close>

text \<open>
  The waits for the chip's acknowledgement have no limit: \<open>fuel\<close> bounds the number of tests, and the
  fault \<open>Diverges\<close> is a chip that has not acknowledged by then. \<open>env n\<close> is what the chip and the rest of
  the system do in the \<open>n\<close>-th sleep, the device lock being free. \<open>test\<close> reads the chip and tells whether
  the loop goes on.
\<close>

fun mscan_wait :: "('w \<Rightarrow> bool \<times> 'w) \<Rightarrow> (nat \<Rightarrow> 'w \<Rightarrow> 'w) \<Rightarrow> nat \<Rightarrow> nat \<Rightarrow> 'w \<Rightarrow> 'w kres" where
  "mscan_wait test env 0 n w = Inl Diverges"
| "mscan_wait test env (Suc fuel) n w =
     (case test w of (busy, w1) \<Rightarrow> if busy then mscan_wait test env fuel (Suc n) (env n w1) else Inr w1)"

definition not_stopped :: "'h mscan_chip \<Rightarrow> nat \<Rightarrow> ('h, 'z) mscan_world_scheme \<Rightarrow> bool \<times> ('h, 'z) mscan_world_scheme" where
  "not_stopped chip d w =
     (case mrd chip d canctl1 w of (reg, w1) \<Rightarrow> (reg AND MSCAN_SLPAK = 0 \<or> reg AND MSCAN_INITAK = 0, w1))"

definition not_normal :: "'h mscan_chip \<Rightarrow> nat \<Rightarrow> ('h, 'z) mscan_world_scheme \<Rightarrow> bool \<times> ('h, 'z) mscan_world_scheme" where
  "not_normal chip d w =
     (case mrd chip d canctl1 w of
        (a, w1) \<Rightarrow> if a AND MSCAN_INITAK \<noteq> 0 then (True, w1)
          else case mrd chip d canctl1 w1 of (b, w2) \<Rightarrow> (b AND MSCAN_SLPAK \<noteq> 0, w2))"

definition not_asleep :: "'h mscan_chip \<Rightarrow> nat \<Rightarrow> ('h, 'z) mscan_world_scheme \<Rightarrow> bool \<times> ('h, 'z) mscan_world_scheme" where
  "not_asleep chip d w = (case mrd chip d canctl1 w of (a, w1) \<Rightarrow> (a AND MSCAN_SLPAK = 0, w1))"

definition in_init :: "'h mscan_chip \<Rightarrow> nat \<Rightarrow> ('h, 'z) mscan_world_scheme \<Rightarrow> bool \<times> ('h, 'z) mscan_world_scheme" where
  "in_init chip d w = (case mrd chip d canctl1 w of (a, w1) \<Rightarrow> (a AND MSCAN_INITAK \<noteq> 0, w1))"

definition rtcan_mscan_mode_stop ::
    "'h mscan_chip \<Rightarrow> (nat \<Rightarrow> ('h, 'z) mscan_world_scheme \<Rightarrow> ('h, 'z) mscan_world_scheme) \<Rightarrow> nat \<Rightarrow> nat
      \<Rightarrow> ('h, 'z) mscan_world_scheme \<Rightarrow> (cret \<times> ('h, 'z) mscan_world_scheme) kres" where
  "rtcan_mscan_mode_stop chip env fuel d w =
     (if \<not> CAN_STATE_OPERATING (dev_state (devs w d)) then Inr (Inr 0, w)
      else
        kbind (mscan_wait (not_stopped chip d) env fuel 0
          (mupd chip d canctl0 (\<lambda>v. v OR MSCAN_INITRQ) (mupd chip d canctl0 (\<lambda>v. v OR MSCAN_SLPRQ) w))) (\<lambda>w1.
        Inr (Inr 0, upd_tx_sem d rtdm_sem_destroy (upd_dev d (\<lambda>dev. dev\<lparr>dev_state := CAN_STATE_STOPPED\<rparr>) w1))))"

definition mscan_set_ctl1 ::
    "'h mscan_chip \<Rightarrow> nat \<Rightarrow> ('h, 'z) mscan_world_scheme \<Rightarrow> ('h, 'z) mscan_world_scheme" where
  "mscan_set_ctl1 chip d w =
     (let cm = ctrl_mode (devs w d);
          w1 = mupd chip d canctl1 (\<lambda>v. if cm AND CAN_CTRLMODE_LISTENONLY \<noteq> 0 then v OR MSCAN_LISTEN else v AND NOT MSCAN_LISTEN) w
      in mupd chip d canctl1 (\<lambda>v. if cm AND CAN_CTRLMODE_LOOPBACK \<noteq> 0 then v OR MSCAN_LOOPB else v AND NOT MSCAN_LOOPB) w1)"

definition mscan_leave_init ::
    "'h mscan_chip \<Rightarrow> (nat \<Rightarrow> ('h, 'z) mscan_world_scheme \<Rightarrow> ('h, 'z) mscan_world_scheme) \<Rightarrow> nat \<Rightarrow> nat
      \<Rightarrow> ('h, 'z) mscan_world_scheme \<Rightarrow> (cret \<times> ('h, 'z) mscan_world_scheme) kres" where
  "mscan_leave_init chip env fuel d w =
     (let w1 = mscan_set_ctl1 chip d (upd_tx_sem d (\<lambda>sem. rtdm_sem_init sem 1) w);
          w2 = mupd chip d canctl0 (\<lambda>v. v AND NOT MSCAN_SLPRQ) (mupd chip d canctl0 (\<lambda>v. v AND NOT MSCAN_INITRQ) w1)
      in kbind (mscan_wait (not_normal chip d) env fuel 0 w2) (\<lambda>w3.
         Inr (Inr 0, upd_dev d (\<lambda>dev. dev\<lparr>dev_state := CAN_STATE_ACTIVE\<rparr>) (mupd chip d canrier (\<lambda>v. v OR MSCAN_RIER) w3))))"

definition rtcan_mscan_mode_start ::
    "'h mscan_chip \<Rightarrow> (nat \<Rightarrow> ('h, 'z) mscan_world_scheme \<Rightarrow> ('h, 'z) mscan_world_scheme) \<Rightarrow> nat \<Rightarrow> nat
      \<Rightarrow> ('h, 'z) mscan_world_scheme \<Rightarrow> (cret \<times> ('h, 'z) mscan_world_scheme) kres" where
  "rtcan_mscan_mode_start chip env fuel d w =
     (case dev_state (devs w d) of
        CAN_STATE_SLEEPING \<Rightarrow> mscan_leave_init chip env fuel d w
      | CAN_STATE_STOPPED \<Rightarrow> mscan_leave_init chip env fuel d w
      | CAN_STATE_BUS_OFF \<Rightarrow>
          Inr (Inr 0, upd_dev d (\<lambda>dev. dev\<lparr>dev_state := CAN_STATE_ACTIVE\<rparr>)
            (upd_tx_sem d (\<lambda>sem. rtdm_sem_init sem 1) (mwr chip d canrier MSCAN_RIER w)))
      | _ \<Rightarrow> Inr (Inr 0, w))"

section \<open>Bit timing\<close>

definition BTR0_SET_BRP :: "u32 \<Rightarrow> u32" where "BTR0_SET_BRP x = (x - 1) AND 0x3f"
definition BTR0_SET_SJW :: "u32 \<Rightarrow> u32" where "BTR0_SET_SJW x = push_bit 6 (x - 1) AND push_bit 6 3"
definition BTR1_SET_TSEG1 :: "u32 \<Rightarrow> u32" where "BTR1_SET_TSEG1 x = (x - 1) AND 0xf"
definition BTR1_SET_TSEG2 :: "u32 \<Rightarrow> u32" where "BTR1_SET_TSEG2 x = push_bit 4 (x - 1) AND push_bit 4 7"
definition BTR1_SET_SAM :: "u32 \<Rightarrow> u32" where "BTR1_SET_SAM x = push_bit 7 (x AND 1)"

lemmas btr_macros = BTR0_SET_BRP_def BTR0_SET_SJW_def BTR1_SET_TSEG1_def BTR1_SET_TSEG2_def BTR1_SET_SAM_def

definition mscan_btr0 :: "can_bittime_std \<Rightarrow> u8" where
  "mscan_btr0 bt = ucast (BTR0_SET_BRP (brp bt) OR BTR0_SET_SJW (ucast (sjw bt)))"

definition mscan_btr1 :: "can_bittime_std \<Rightarrow> u8" where
  "mscan_btr1 bt = ucast (BTR1_SET_TSEG1 (ucast (prop_seg bt) + ucast (phase_seg1 bt))
     OR BTR1_SET_TSEG2 (ucast (phase_seg2 bt)) OR BTR1_SET_SAM (ucast (sam bt)))"

definition rtcan_mscan_set_bit_time ::
    "'h mscan_chip \<Rightarrow> nat \<Rightarrow> can_bittime \<Rightarrow> ('h, 'z) mscan_world_scheme \<Rightarrow> cret \<times> ('h, 'z) mscan_world_scheme" where
  "rtcan_mscan_set_bit_time chip d bt w =
     (case bt of
        CAN_BITTIME_BTR btr0 btr1 \<Rightarrow> (Inr 0, mwr chip d canbtr1 btr1 (mwr chip d canbtr0 btr0 w))
      | CAN_BITTIME_STD std \<Rightarrow> (Inr 0, mwr chip d canbtr1 (mscan_btr1 std) (mwr chip d canbtr0 (mscan_btr0 std) w))
      | CAN_BITTIME_OTHER t \<Rightarrow> (Inl EINVAL, w))"

section \<open>The sleep mode\<close>

text \<open>The two waits of the sleep mode share one counter and give up when it has reached 1000.\<close>

function mscan_retry :: "('w \<Rightarrow> bool \<times> 'w) \<Rightarrow> (nat \<Rightarrow> 'w \<Rightarrow> 'w) \<Rightarrow> nat \<Rightarrow> 'w \<Rightarrow> nat \<times> 'w" where
  "mscan_retry test env retries w =
     (case test w of
        (busy, w1) \<Rightarrow>
          if busy then
            if retries \<ge> 1000 then (retries + 1, env retries w1)
            else mscan_retry test env (retries + 1) (env retries w1)
          else (retries, w1))"
  by pat_completeness auto
termination by (relation "measure (\<lambda>(test, env, retries, w). 1000 - retries)") auto

declare mscan_retry.simps [simp del]

definition mscan_sleep ::
    "'h mscan_chip \<Rightarrow> (nat \<Rightarrow> ('h, 'z) mscan_world_scheme \<Rightarrow> ('h, 'z) mscan_world_scheme) \<Rightarrow> nat
      \<Rightarrow> ('h, 'z) mscan_world_scheme \<Rightarrow> cret \<times> ('h, 'z) mscan_world_scheme" where
  "mscan_sleep chip env d w =
     (let st = dev_state (devs w d) in
      if \<not> CAN_STATE_OPERATING st then (Inl ENETDOWN, upd_dev d (\<lambda>dev. dev\<lparr>dev_state := st\<rparr>) w)
      else if st = CAN_STATE_SLEEPING then (Inr 0, upd_dev d (\<lambda>dev. dev\<lparr>dev_state := st\<rparr>) w)
      else
        let w1 = upd_dev d (\<lambda>dev. dev\<lparr>state_before_sleep := st\<rparr>) w;
            w2 = mupd chip d canctl0 (\<lambda>v. v OR (MSCAN_SLPRQ OR MSCAN_WUPE)) (mwr chip d cantier 0 (mwr chip d canrier 0 w1));
            (retries, w3) = mscan_retry (not_asleep chip d) env 0 w2;
            w4 = mupd chip d canctl0 (\<lambda>v. v AND NOT MSCAN_INITRQ) w3;
            (retries', w5) = mscan_retry (in_init chip d) env retries w4
        in (Inr 0, upd_dev d (\<lambda>dev. dev\<lparr>dev_state := CAN_STATE_SLEEPING\<rparr>) (mwr chip d canrier MSCAN_WUPIE w5)))"

definition rtcan_mscan_set_mode ::
    "'h mscan_chip \<Rightarrow> (nat \<Rightarrow> ('h, 'z) mscan_world_scheme \<Rightarrow> ('h, 'z) mscan_world_scheme) \<Rightarrow> nat \<Rightarrow> nat \<Rightarrow> can_mode
      \<Rightarrow> ('h, 'z) mscan_world_scheme \<Rightarrow> (cret \<times> ('h, 'z) mscan_world_scheme) kres" where
  "rtcan_mscan_set_mode chip env fuel d mode w =
     (case mode of
        CAN_MODE_STOP \<Rightarrow> rtcan_mscan_mode_stop chip env fuel d w
      | CAN_MODE_START \<Rightarrow> rtcan_mscan_mode_start chip env fuel d w
      | CAN_MODE_SLEEP \<Rightarrow> Inr (mscan_sleep chip env d w)
      | CAN_MODE_OTHER m \<Rightarrow> Inr (Inl EOPNOTSUPP, w))"

section \<open>Transmission\<close>

definition mscan_tx_id ::
    "'h mscan_chip \<Rightarrow> nat \<Rightarrow> u32 \<Rightarrow> ('h, 'z) mscan_world_scheme \<Rightarrow> ('h, 'z) mscan_world_scheme" where
  "mscan_tx_id chip d can_id w =
     (let rtr = (can_id AND CAN_RTR_FLAG \<noteq> 0) in
      if can_id AND CAN_EFF_FLAG \<noteq> 0 then
        let w1 = mwr_list chip d [(cantxfg (idr 0), ucast (drop_bit 21 (can_id AND 0x1fe00000))),
                   (cantxfg (idr 1), ucast (drop_bit 13 (can_id AND 0x001c0000)))] w;
            w2 = mupd chip d (cantxfg (idr 1)) (\<lambda>v. v OR ucast (drop_bit 15 (can_id AND 0x00038000))) w1;
            w3 = mupd chip d (cantxfg (idr 1)) (\<lambda>v. v OR 0x18) w2;
            w4 = mwr_list chip d [(cantxfg (idr 4), ucast (drop_bit 7 (can_id AND 0x00007f80))),
                   (cantxfg (idr 5), ucast (push_bit 1 (can_id AND 0x0000007f)))] w3
        in mupd chip d (cantxfg (idr 5)) (\<lambda>v. if rtr then v OR 0x1 else v AND NOT 0x1) w4
      else
        let w1 = mwr_list chip d [(cantxfg (idr 0), ucast (drop_bit 3 (can_id AND 0x000007f8))),
                   (cantxfg (idr 1), ucast (push_bit 5 (can_id AND 0x00000007)))] w
        in mupd chip d (cantxfg (idr 1)) (\<lambda>v. if rtr then v OR 0x10 else v AND NOT 0x10) w1)"

definition rtcan_mscan_start_xmit ::
    "'h mscan_chip \<Rightarrow> nat \<Rightarrow> can_frame \<Rightarrow> ('h, 'z) mscan_world_scheme \<Rightarrow> cret \<times> ('h, 'z) mscan_world_scheme" where
  "rtcan_mscan_start_xmit chip d frame w =
     (let (tflg, w1) = mrd chip d cantflg w in
      if tflg AND MSCAN_TXE0 = 0 then (Inl EIO, w1)
      else
        let w2 = mwr chip d cantbsel MSCAN_TXE0 w1;
            dlc = frm_can_dlc frame; size = (if dlc > 8 then 8 else unat dlc); can_id = frm_can_id frame;
            dat = (if can_id AND CAN_RTR_FLAG \<noteq> 0 then [] else map (\<lambda>i. (cantxfg (dsr_at i), frm_data frame ! i)) [0..<size]);
            w3 = mwr_list chip d (dat @ [(cantxfg dlr, dlc), (cantxfg tbpr, 0), (cantflg, MSCAN_TXE0)]) (mscan_tx_id chip d can_id w2)
        in (Inr 0, mupd chip d cantier (\<lambda>v. v OR MSCAN_TXIE0) w3))"

section \<open>Initialisation\<close>

definition mscan_chip_config :: "'h mscan_chip \<Rightarrow> nat \<Rightarrow> ('h, 'z) mscan_world_scheme \<Rightarrow> ('h, 'z) mscan_world_scheme" where
  "mscan_chip_config chip d w =
     (let w1 = mupd chip d canctl1 (\<lambda>v. v AND NOT MSCAN_LISTEN) (mupd chip d canctl1 (\<lambda>v. v OR MSCAN_CLKSRC) w);
          w2 = mwr_list chip d
            (map (\<lambda>i. (canidar i, 0x00)) [1, 0, 3, 2] @ map (\<lambda>i. (canidmr i, 0xFF)) [1, 0, 3, 2]
             @ map (\<lambda>i. (canidar i, 0x00)) [5, 4, 7, 6] @ map (\<lambda>i. (canidmr i, 0xFF)) [5, 4, 7, 6]) w1
      in mupd chip d canidac (\<lambda>v. v AND NOT (MSCAN_IDAM0 OR MSCAN_IDAM1)) w2)"

text \<open>\<open>psc2\<close> is the build option for the PSC2 pins, \<open>pins\<close> the module parameter \<open>mscan_pins\<close>.\<close>

definition strncmp_eq :: "string \<Rightarrow> string \<Rightarrow> nat \<Rightarrow> bool" where
  "strncmp_eq s t n \<longleftrightarrow> take n s = take n t"

definition mscan_gpio_config ::
    "bool \<Rightarrow> string option \<Rightarrow> ('h, 'z) mscan_world_scheme \<Rightarrow> ('h, 'z) mscan_world_scheme" where
  "mscan_gpio_config psc2 pins w =
     (let can_to_psc2 =
        (case pins of
           None \<Rightarrow> psc2
         | Some s \<Rightarrow>
             if strncmp_eq s ''psc2'' 4 \<or> strncmp_eq s ''PSC2'' 4 then True
             else if strncmp_eq s ''i2c1/tmr01'' 10 \<or> strncmp_eq s ''I2C1/TMR01'' 10 then False
             else psc2)
      in if can_to_psc2 then w\<lparr>port_config := (port_config w AND NOT 0x10000070) OR 0x00000010\<rparr>
         else w\<lparr>port_config := port_config w OR 0x10000000\<rparr>)"

definition RTCAN_MSCAN_DEVS :: nat where "RTCAN_MSCAN_DEVS = 2"
definition mscan_dev_name :: string where "mscan_dev_name = ''rtcan%d''"
definition MSCAN_CAN1_ADDR :: "u32 \<Rightarrow> u32" where "MSCAN_CAN1_ADDR mbar = mbar + 0x0900"
definition MSCAN_CAN2_ADDR :: "u32 \<Rightarrow> u32" where "MSCAN_CAN2_ADDR mbar = mbar + 0x0980"

text \<open>
  The surroundings of the module: the base of the memory mapped registers, the module parameters
  \<open>mscan_clock\<close> and \<open>port\<close>, the results of the allocations and of \<open>rtdm_irq_request\<close> for each entry, and
  what goes on during the waits of each entry, for the chip and for the last reference.
\<close>

record 'w mscan_module =
  mbar :: u32
  mscan_clock :: u32
  port :: "nat \<Rightarrow> int"
  dev_mem :: "nat \<Rightarrow> nat option"
  irq_result :: "nat \<Rightarrow> cret"
  chip_env :: "nat \<Rightarrow> nat \<Rightarrow> 'w \<Rightarrow> 'w"
  ref_waits :: "nat \<Rightarrow> ('w \<Rightarrow> 'w) list"

text \<open>A failure after the allocation switches the module off and frees the device.\<close>

definition mscan_out_dev_free ::
    "'h mscan_chip \<Rightarrow> nat \<Rightarrow> ('h, 'z) mscan_world_scheme \<Rightarrow> ('h, 'z) mscan_world_scheme" where
  "mscan_out_dev_free chip d w = rtcan_dev_free (mupd chip d canctl1 (\<lambda>v. v AND NOT MSCAN_CANE) w) (Some d)"

definition mscan_init_dev ::
    "'h mscan_chip \<Rightarrow> ('h, 'z) mscan_world_scheme mscan_module \<Rightarrow> nat \<Rightarrow> nat \<Rightarrow> u32 \<Rightarrow> nat
      \<Rightarrow> ('h, 'z) mscan_world_scheme \<Rightarrow> (cret \<times> ('h, 'z) mscan_world_scheme) kres" where
  "mscan_init_dev chip m fuel idx addr d w =
     (let w1 = upd_dev d (\<lambda>dev. dev\<lparr>can_sys_clock := mscan_clock m\<rparr>) w;
          w2 = w1\<lparr>base_addr := (base_addr w1)(d := addr)\<rparr>;
          w3 = upd_dev d (\<lambda>dev. dev\<lparr>dev_state := CAN_STATE_ACTIVE\<rparr>) (mupd chip d canctl1 (\<lambda>v. v OR MSCAN_CANE) w2)
      in kbind (rtcan_mscan_mode_stop chip (chip_env m idx) fuel d w3) (\<lambda>(_, w4).
         let w5 = upd_dev d (\<lambda>dev. dev\<lparr>dev_name := take IFNAMSIZ mscan_dev_name\<rparr>) w4
         in if irq_result m idx \<noteq> Inr 0 then Inr (irq_result m idx, mscan_out_dev_free chip d w5)
            else
              case rtcan_dev_register (mscan_chip_config chip d w5) d of
                (ret, w6) \<Rightarrow>
                  if ret \<noteq> Inr 0 then Inr (ret, mscan_out_dev_free chip d w6)
                  else if idx < length (rtcan_mscan_devs w6)
                  then Inr (Inr 0, w6\<lparr>rtcan_mscan_devs := (rtcan_mscan_devs w6)[idx := Some d]\<rparr>)
                  else Inl OutOfBounds))"

definition rtcan_mscan_init_one ::
    "'h mscan_chip \<Rightarrow> ('h, 'z) mscan_world_scheme mscan_module \<Rightarrow> nat \<Rightarrow> nat
      \<Rightarrow> ('h, 'z) mscan_world_scheme \<Rightarrow> (cret \<times> ('h, 'z) mscan_world_scheme) kres" where
  "rtcan_mscan_init_one chip m fuel idx w =
     (if port m idx \<noteq> 1 \<and> port m idx \<noteq> 2 then Inr (Inr 0, w)
      else
        let addr = (if port m idx = 1 then MSCAN_CAN1_ADDR (mbar m) else MSCAN_CAN2_ADDR (mbar m))
        in case rtcan_dev_alloc w (dev_mem m idx) of
             (None, w1) \<Rightarrow> Inr (Inl ENOMEM, w1)
           | (Some d, w1) \<Rightarrow> mscan_init_dev chip m fuel idx addr d w1)"

text \<open>The result \<open>None\<close> is a wait for the last reference that does not end.\<close>

fun mscan_exit_loop ::
    "'h mscan_chip \<Rightarrow> ('h, 'z) mscan_world_scheme mscan_module \<Rightarrow> nat \<Rightarrow> nat list
      \<Rightarrow> ('h, 'z) mscan_world_scheme \<Rightarrow> ('h, 'z) mscan_world_scheme option kres" where
  "mscan_exit_loop chip m fuel [] w = Inr (Some w)"
| "mscan_exit_loop chip m fuel (i # is) w =
     (if length (rtcan_mscan_devs w) \<le> i then Inl OutOfBounds
      else
        case rtcan_mscan_devs w ! i of
          None \<Rightarrow> mscan_exit_loop chip m fuel is w
        | Some d \<Rightarrow>
            kbind (rtcan_mscan_mode_stop chip (chip_env m i) fuel d w) (\<lambda>(_, w1).
            case rtcan_dev_unregister w1 d (ref_waits m i) of
              None \<Rightarrow> Inr None
            | Some (_, w2) \<Rightarrow> mscan_exit_loop chip m fuel is (rtcan_dev_free w2 (Some d))))"

definition rtcan_mscan_exit ::
    "'h mscan_chip \<Rightarrow> ('h, 'z) mscan_world_scheme mscan_module \<Rightarrow> nat
      \<Rightarrow> ('h, 'z) mscan_world_scheme \<Rightarrow> ('h, 'z) mscan_world_scheme option kres" where
  "rtcan_mscan_exit chip m fuel w = mscan_exit_loop chip m fuel [0..<RTCAN_MSCAN_DEVS] w"

text \<open>
  \<open>err = rtcan_mscan_init_one(i) != 0\<close> assigns the result of the comparison: the error code of a failed
  initialisation is lost.
\<close>

fun mscan_init_loop ::
    "'h mscan_chip \<Rightarrow> ('h, 'z) mscan_world_scheme mscan_module \<Rightarrow> nat \<Rightarrow> nat list
      \<Rightarrow> ('h, 'z) mscan_world_scheme \<Rightarrow> (cret \<times> ('h, 'z) mscan_world_scheme) option kres" where
  "mscan_init_loop chip m fuel [] w = Inr (Some (Inr 0, w))"
| "mscan_init_loop chip m fuel (i # is) w =
     (if port m i < 1 \<or> port m i > int RTCAN_MSCAN_DEVS then mscan_init_loop chip m fuel is w
      else
        kbind (rtcan_mscan_init_one chip m fuel i w) (\<lambda>(ret, w1).
        let err = (if ret \<noteq> Inr 0 then 1 else 0)
        in if err \<noteq> 0 then kbind (rtcan_mscan_exit chip m fuel w1) (\<lambda>u. Inr (map_option (Pair (Inr err)) u))
           else mscan_init_loop chip m fuel is w1))"

definition rtcan_mscan_init ::
    "'h mscan_chip \<Rightarrow> ('h, 'z) mscan_world_scheme mscan_module \<Rightarrow> nat \<Rightarrow> bool \<Rightarrow> string option
      \<Rightarrow> ('h, 'z) mscan_world_scheme \<Rightarrow> (cret \<times> ('h, 'z) mscan_world_scheme) option kres" where
  "rtcan_mscan_init chip m fuel psc2 pins w =
     mscan_init_loop chip m fuel [0..<RTCAN_MSCAN_DEVS] (mscan_gpio_config psc2 pins w)"

text \<open>
  The function pointers that the initialisation installs. In the operations reached through them only
  the chip goes on during a busy wait: \<open>tick n\<close> is what it does.
\<close>

definition ms_env :: "(nat \<Rightarrow> 'h \<Rightarrow> 'h) \<Rightarrow> nat \<Rightarrow> nat \<Rightarrow> ('h, 'z) mscan_world_scheme \<Rightarrow> ('h, 'z) mscan_world_scheme" where
  "ms_env tick d n w = w\<lparr>ms_hw := (ms_hw w)(base_addr w d := tick n (ms_hw w (base_addr w d)))\<rparr>"

definition mscan_ops :: "'h mscan_chip \<Rightarrow> (nat \<Rightarrow> 'h \<Rightarrow> 'h) \<Rightarrow> nat \<Rightarrow> ('h, 'z) mscan_world_scheme can_ops" where
  "mscan_ops chip tick fuel = \<lparr>hard_start_xmit = (\<lambda>d frame w. Inr (rtcan_mscan_start_xmit chip d frame w)),
     do_set_mode = Some (\<lambda>d. rtcan_mscan_set_mode chip (ms_env tick d) fuel d), do_get_state = None,
     do_set_bit_time = Some (rtcan_mscan_set_bit_time chip), do_enable_bus_err = None\<rparr>"

section \<open>Frames of the register accesses\<close>

lemma ms_frame [simp]:
  "devs (mwr chip d r v w) = devs w" "socks (mwr chip d r v w) = socks w"
  "rtcan_devices (mwr chip d r v w) = rtcan_devices w" "rtcan_socket_list (mwr chip d r v w) = rtcan_socket_list w"
  "base_addr (mwr chip d r v w) = base_addr w"
  "devs (mupd chip d r f w) = devs w" "socks (mupd chip d r f w) = socks w"
  "rtcan_devices (mupd chip d r f w) = rtcan_devices w" "rtcan_socket_list (mupd chip d r f w) = rtcan_socket_list w"
  "base_addr (mupd chip d r f w) = base_addr w" "rtcan_mscan_devs (mupd chip d r f w) = rtcan_mscan_devs w"
  by (simp_all add: mwr_def mupd_def mrd_def split: prod.splits)

lemma ctl_frame_ms_hw: "ctl_frame d w v \<Longrightarrow> ctl_frame d w (v\<lparr>ms_hw := h\<rparr>)"
  by (simp add: ctl_frame_def)

lemma ctl_frame_mrd: "mrd chip d r v = (x, v') \<Longrightarrow> ctl_frame d w v \<Longrightarrow> ctl_frame d w v'"
  by (auto simp: mrd_def ctl_frame_ms_hw split: prod.splits)

lemma ctl_frame_mwr: "ctl_frame d w v \<Longrightarrow> ctl_frame d w (mwr chip d r x v)"
  by (simp add: mwr_def ctl_frame_ms_hw)

lemma ctl_frame_mupd: "ctl_frame d w v \<Longrightarrow> ctl_frame d w (mupd chip d r f v)"
  by (auto simp: mupd_def split: prod.splits intro: ctl_frame_mwr ctl_frame_mrd)

lemma ctl_frame_ms_env: "ctl_frame d w v \<Longrightarrow> ctl_frame d w (ms_env tick d n v)"
  by (simp add: ms_env_def ctl_frame_ms_hw)

lemma ctl_frame_mrd_list: "mrd_list chip d rs v = (xs, v') \<Longrightarrow> ctl_frame d w v \<Longrightarrow> ctl_frame d w v' \<and> length xs = length rs"
proof (induction rs arbitrary: v xs)
  case (Cons r rs)
  obtain x v1 ys where "mrd chip d r v = (x, v1)" "mrd_list chip d rs v1 = (ys, v')" "xs = x # ys"
    using Cons.prems(1) by (auto split: prod.splits)
  then show ?case using Cons.IH [of v1 ys] Cons.prems(2) by (auto intro: ctl_frame_mrd)
qed simp

lemmas mscan_frame = ctl_frame_upd ctl_frame_mwr ctl_frame_mupd ctl_frame_ms_env

text \<open>What the tests of the busy waits change is the chip.\<close>

lemma ms_test_frame:
  "not_stopped chip d v = (b, v') \<Longrightarrow> ctl_frame d w v \<Longrightarrow> ctl_frame d w v'"
  "not_normal chip d v = (b, v') \<Longrightarrow> ctl_frame d w v \<Longrightarrow> ctl_frame d w v'"
  "not_asleep chip d v = (b, v') \<Longrightarrow> ctl_frame d w v \<Longrightarrow> ctl_frame d w v'"
  "in_init chip d v = (b, v') \<Longrightarrow> ctl_frame d w v \<Longrightarrow> ctl_frame d w v'"
  by (auto simp: not_stopped_def not_normal_def not_asleep_def in_init_def split: prod.splits if_splits dest!: ctl_frame_mrd)

lemma mscan_wait_inv:
  assumes "\<And>v b v'. test v = (b, v') \<Longrightarrow> I v \<Longrightarrow> I v'" "\<And>n v. I v \<Longrightarrow> I (env n v)"
  shows "mscan_wait test env fuel n v = Inr v' \<Longrightarrow> I v \<Longrightarrow> I v'"
proof (induction fuel arbitrary: n v)
  case (Suc fuel)
  obtain b v1 where t: "test v = (b, v1)" by fastforce
  then show ?case using Suc assms(1) [OF t] assms(2) [of v1 n] by (auto split: if_splits)
qed simp

lemma mscan_retry_inv:
  assumes "\<And>v b v'. test v = (b, v') \<Longrightarrow> I v \<Longrightarrow> I v'" "\<And>n v. I v \<Longrightarrow> I (env n v)"
  shows "I v \<Longrightarrow> I (snd (mscan_retry test env r v))"
  using assms
proof (induction test env r v rule: mscan_retry.induct)
  case (1 test env r v)
  obtain b v1 where t: "test v = (b, v1)" by fastforce
  then have "I v1" "I (env r v1)" using 1 by blast+
  then show ?case using "1.IH" [OF t [symmetric]] "1.prems" t by (subst mscan_retry.simps) auto
qed

lemma mscan_sleep_frame: "mscan_sleep chip (ms_env tick d) d w = (r, w') \<Longrightarrow> ctl_frame d w w'"
proof -
  assume run: "mscan_sleep chip (ms_env tick d) d w = (r, w')"
  define w2 where "w2 = mupd chip d canctl0 (\<lambda>v. v OR (MSCAN_SLPRQ OR MSCAN_WUPE))
    (mwr chip d cantier 0 (mwr chip d canrier 0 (upd_dev d (\<lambda>dev. dev\<lparr>state_before_sleep := dev_state (devs w d)\<rparr>) w)))"
  obtain k w3 where r3: "mscan_retry (not_asleep chip d) (ms_env tick d) 0 w2 = (k, w3)" by fastforce
  obtain k' w5 where r5: "mscan_retry (in_init chip d) (ms_env tick d) k (mupd chip d canctl0 (\<lambda>v. v AND NOT MSCAN_INITRQ) w3) = (k', w5)"
    by fastforce
  have "ctl_frame d w w2" by (simp add: w2_def mscan_frame)
  then have "ctl_frame d w w3"
    using mscan_retry_inv [where I = "ctl_frame d w" and test = "not_asleep chip d" and env = "ms_env tick d" and r = 0 and v = w2]
      ms_test_frame(3) mscan_frame r3 by (metis snd_conv)
  then have "ctl_frame d w w5"
    using mscan_retry_inv [where I = "ctl_frame d w" and test = "in_init chip d" and env = "ms_env tick d" and r = k
        and v = "mupd chip d canctl0 (\<lambda>v. v AND NOT MSCAN_INITRQ) w3"]
      ms_test_frame(4) mscan_frame r5 by (metis snd_conv)
  then show ?thesis
    using run unfolding mscan_sleep_def Let_def w2_def [symmetric] r3 r5 prod.case
    by (auto split: if_splits intro!: mscan_frame)
qed

lemma mscan_wait_frame:
  assumes "mscan_wait test (ms_env tick d) fuel n v = Inr v'" "ctl_frame d w v"
    and "test = not_stopped chip d \<or> test = not_normal chip d"
  shows "ctl_frame d w v'"
proof (rule mscan_wait_inv [where I = "ctl_frame d w", OF _ _ assms(1,2)])
  show "ctl_frame d w v1" if "test v0 = (b, v1)" "ctl_frame d w v0" for v0 b v1
    using that assms(3) ms_test_frame(1,2) [of chip d v0 b v1 w] by blast
qed (rule ctl_frame_ms_env)

lemma mscan_leave_init_frame:
  assumes "mscan_leave_init chip (ms_env tick d) fuel d w = Inr (r, w')"
  shows "ctl_frame d w w' \<and> r = Inr 0 \<and> dev_state (devs w' d) = CAN_STATE_ACTIVE"
  using assms by (auto simp: mscan_leave_init_def mscan_set_ctl1_def Let_def kbind_eq_Inr intro!: mscan_frame elim!: mscan_wait_frame)

lemma mscan_stop_frame:
  assumes "rtcan_mscan_mode_stop chip (ms_env tick d) fuel d w = Inr (r, w')"
  shows "ctl_frame d w w' \<and> r = Inr 0 \<and>
    dev_state (devs w' d) = (if CAN_STATE_OPERATING (dev_state (devs w d)) then CAN_STATE_STOPPED else dev_state (devs w d))"
  using assms
  by (auto simp: rtcan_mscan_mode_stop_def kbind_eq_Inr upd_tx_sem_def split: if_splits
      intro!: mscan_frame(1-3) [unfolded upd_tx_sem_def] mscan_frame elim!: mscan_wait_frame)

interpretation mscan: can_controller "mscan_ops chip tick fuel" "\<lambda>d. rtcan_mscan_set_mode chip (ms_env tick d) fuel d"
  for chip tick fuel
proof unfold_locales
  fix d m w r w'
  assume "rtcan_mscan_set_mode chip (ms_env tick d) fuel d m w = Inr (r, w')"
  then show "ctl_frame d w w'"
    using mscan_stop_frame [of chip tick d fuel w r w'] mscan_leave_init_frame [of chip tick d fuel w r w'] mscan_sleep_frame [of chip tick d w r w']
    by (auto simp: rtcan_mscan_set_mode_def rtcan_mscan_mode_start_def split: can_mode.splits can_state.splits intro!: mscan_frame)
next
  fix d w bt g
  assume "do_set_bit_time (mscan_ops chip tick fuel) = Some g"
  then show "ctl_frame d w (snd (g d bt w)) \<and> dev_state (devs (snd (g d bt w)) d) = dev_state (devs w d)"
    by (auto simp: mscan_ops_def rtcan_mscan_set_bit_time_def split: can_bittime.splits intro!: mscan_frame)
next
  fix d w w'
  assume "CAN_STATE_OPERATING (dev_state (devs w d))"
    "rtcan_mscan_set_mode chip (ms_env tick d) fuel d CAN_MODE_STOP w = Inr (Inr 0, w')"
  then show "dev_state (devs w' d) = CAN_STATE_STOPPED"
    using mscan_stop_frame [of chip tick d fuel w "Inr 0" w'] by (simp add: rtcan_mscan_set_mode_def)
next
  fix d w r w'
  assume "dev_state (devs w d) = CAN_STATE_STOPPED"
    "rtcan_mscan_set_mode chip (ms_env tick d) fuel d CAN_MODE_START w = Inr (r, w')"
  then show "r = Inr 0 \<and> dev_state (devs w' d) = CAN_STATE_ACTIVE"
    using mscan_leave_init_frame [of chip tick d fuel w r w'] by (simp add: rtcan_mscan_set_mode_def rtcan_mscan_mode_start_def)
qed (simp_all add: mscan_ops_def)

end
