(* ===== verification/Can_Sja1000.thy ===== *)
theory Can_Sja1000
  imports Can_Wire
begin

text \<open>
  The driver core of the Philips SJA1000 controller (\<open>sja1000/rtcan_sja1000.c\<close>). The board drivers give
  access to the chip through the function pointers of \<open>struct rtcan_sja1000\<close>; the chip itself is an
  argument of the operations: reading a register returns its value and may change the state of the
  chip, writing one changes it. The state of the chips and the counters \<open>bus_err_on\<close> extend the global
  state.
\<close>

section \<open>Registers\<close>

definition SJA_MOD :: nat where "SJA_MOD = 0"
definition SJA_CMR :: nat where "SJA_CMR = 1"
definition SJA_SR :: nat where "SJA_SR = 2"
definition SJA_IR :: nat where "SJA_IR = 3"
definition SJA_IER :: nat where "SJA_IER = 4"
definition SJA_BTR0 :: nat where "SJA_BTR0 = 6"
definition SJA_BTR1 :: nat where "SJA_BTR1 = 7"
definition SJA_OCR :: nat where "SJA_OCR = 8"
definition SJA_ALC :: nat where "SJA_ALC = 11"
definition SJA_ECC :: nat where "SJA_ECC = 12"
definition SJA_RXERR :: nat where "SJA_RXERR = 14"
definition SJA_TXERR :: nat where "SJA_TXERR = 15"
definition SJA_CDR :: nat where "SJA_CDR = 31"
definition SJA_AMR0 :: nat where "SJA_AMR0 = 20"
definition SJA_AMR1 :: nat where "SJA_AMR1 = 21"
definition SJA_AMR2 :: nat where "SJA_AMR2 = 22"
definition SJA_AMR3 :: nat where "SJA_AMR3 = 23"
definition SJA_FIR :: nat where "SJA_FIR = 16"
definition SJA_ID1 :: nat where "SJA_ID1 = 17"
definition SJA_ID2 :: nat where "SJA_ID2 = 18"
definition SJA_ID3 :: nat where "SJA_ID3 = 19"
definition SJA_ID4 :: nat where "SJA_ID4 = 20"
definition SJA_DATA_SFF :: "nat \<Rightarrow> nat" where "SJA_DATA_SFF x = 19 + x"
definition SJA_DATA_EFF :: "nat \<Rightarrow> nat" where "SJA_DATA_EFF x = 21 + x"

definition SJA_MOD_RM :: u8 where "SJA_MOD_RM = 1"
definition SJA_MOD_LOM :: u8 where "SJA_MOD_LOM = 2"
definition SJA_MOD_STM :: u8 where "SJA_MOD_STM = 4"
definition SJA_MOD_SM :: u8 where "SJA_MOD_SM = 16"
definition SJA_CMR_TR :: u8 where "SJA_CMR_TR = 1"
definition SJA_CMR_RRB :: u8 where "SJA_CMR_RRB = 4"
definition SJA_CMR_SRR :: u8 where "SJA_CMR_SRR = 16"
definition SJA_SR_RBS :: u8 where "SJA_SR_RBS = 1"
definition SJA_SR_DOS :: u8 where "SJA_SR_DOS = 2"
definition SJA_SR_TBS :: u8 where "SJA_SR_TBS = 4"
definition SJA_SR_ES :: u8 where "SJA_SR_ES = 0x40"
definition SJA_SR_BS :: u8 where "SJA_SR_BS = 0x80"
definition SJA_IR_RI :: u8 where "SJA_IR_RI = 1"
definition SJA_IR_TI :: u8 where "SJA_IR_TI = 2"
definition SJA_IR_EI :: u8 where "SJA_IR_EI = 4"
definition SJA_IR_DOI :: u8 where "SJA_IR_DOI = 8"
definition SJA_IR_WUI :: u8 where "SJA_IR_WUI = 16"
definition SJA_IR_EPI :: u8 where "SJA_IR_EPI = 32"
definition SJA_IR_ALI :: u8 where "SJA_IR_ALI = 64"
definition SJA_IR_BEI :: u8 where "SJA_IR_BEI = 0x80"
definition SJA_IER_EIE :: u8 where "SJA_IER_EIE = 4"
definition SJA1000_IER :: u8 where "SJA1000_IER = 1 OR 2 OR SJA_IER_EIE OR 16 OR 32 OR 0x80 OR 64 OR 8"
definition SJA_ECC_SEG_MASK :: u8 where "SJA_ECC_SEG_MASK = 31"
definition SJA_ECC_DIR :: u8 where "SJA_ECC_DIR = 32"
definition SJA_ECC_ERR_MASK :: u8 where "SJA_ECC_ERR_MASK = 0xC0"
definition SJA_FIR_DLC_MASK :: u8 where "SJA_FIR_DLC_MASK = 15"
definition SJA_FIR_RTR :: u8 where "SJA_FIR_RTR = 0x40"
definition SJA_FIR_EFF :: u8 where "SJA_FIR_EFF = 0x80"
lemmas sja_regs = SJA_MOD_def SJA_CMR_def SJA_SR_def SJA_IR_def SJA_IER_def SJA_BTR0_def SJA_BTR1_def SJA_OCR_def
  SJA_ALC_def SJA_ECC_def SJA_RXERR_def SJA_TXERR_def SJA_CDR_def SJA_AMR0_def SJA_AMR1_def SJA_AMR2_def
  SJA_AMR3_def SJA_FIR_def SJA_ID1_def SJA_ID2_def SJA_ID3_def SJA_ID4_def SJA_DATA_SFF_def SJA_DATA_EFF_def

lemmas sja_bits = SJA_MOD_RM_def SJA_MOD_LOM_def SJA_MOD_STM_def SJA_MOD_SM_def SJA_CMR_TR_def SJA_CMR_RRB_def
  SJA_CMR_SRR_def SJA_SR_RBS_def SJA_SR_DOS_def SJA_SR_TBS_def SJA_SR_ES_def SJA_SR_BS_def SJA_IR_RI_def
  SJA_IR_TI_def SJA_IR_EI_def SJA_IR_DOI_def SJA_IR_WUI_def SJA_IR_EPI_def SJA_IR_ALI_def SJA_IR_BEI_def
  SJA_IER_EIE_def SJA1000_IER_def SJA_ECC_SEG_MASK_def SJA_ECC_DIR_def SJA_ECC_ERR_MASK_def
  SJA_FIR_DLC_MASK_def SJA_FIR_RTR_def SJA_FIR_EFF_def

section \<open>Access to the chip\<close>

record 'h rtcan_sja1000 =
  read_reg :: "nat \<Rightarrow> 'h \<Rightarrow> u8 \<times> 'h"
  write_reg :: "nat \<Rightarrow> u8 \<Rightarrow> 'h \<Rightarrow> 'h"
  irq_ack :: "('h \<Rightarrow> 'h) option"
  ocr :: u8
  cdr :: u8

text \<open>\<open>bus_err_on\<close> is a \<open>char\<close>: 8 bits, compared as a signed number.\<close>

record 'h sja_world = can_world +
  sja_hw :: "nat \<Rightarrow> 'h"
  bus_err_on :: "nat \<Rightarrow> u8"

definition rd :: "'h rtcan_sja1000 \<Rightarrow> nat \<Rightarrow> nat \<Rightarrow> ('h, 'z) sja_world_scheme \<Rightarrow> u8 \<times> ('h, 'z) sja_world_scheme" where
  "rd chip d r w = (case read_reg chip r (sja_hw w d) of (v, h) \<Rightarrow> (v, w\<lparr>sja_hw := (sja_hw w)(d := h)\<rparr>))"

definition wr :: "'h rtcan_sja1000 \<Rightarrow> nat \<Rightarrow> nat \<Rightarrow> u8 \<Rightarrow> ('h, 'z) sja_world_scheme \<Rightarrow> ('h, 'z) sja_world_scheme" where
  "wr chip d r v w = w\<lparr>sja_hw := (sja_hw w)(d := write_reg chip r v (sja_hw w d))\<rparr>"

fun rd_list ::
    "'h rtcan_sja1000 \<Rightarrow> nat \<Rightarrow> nat list \<Rightarrow> ('h, 'z) sja_world_scheme \<Rightarrow> u8 list \<times> ('h, 'z) sja_world_scheme" where
  "rd_list chip d [] w = ([], w)"
| "rd_list chip d (r # rs) w =
     (case rd chip d r w of (v, w1) \<Rightarrow> case rd_list chip d rs w1 of (vs, w2) \<Rightarrow> (v # vs, w2))"

fun wr_list ::
    "'h rtcan_sja1000 \<Rightarrow> nat \<Rightarrow> (nat \<times> u8) list \<Rightarrow> ('h, 'z) sja_world_scheme \<Rightarrow> ('h, 'z) sja_world_scheme" where
  "wr_list chip d [] w = w"
| "wr_list chip d ((r, v) # rvs) w = wr_list chip d rvs (wr chip d r v w)"

section \<open>Interrupts\<close>

text \<open>Reading a received frame out of the chip into the ring buffer frame.\<close>

definition rtcan_sja_rx_interrupt ::
    "'h rtcan_sja1000 \<Rightarrow> nat \<Rightarrow> rtcan_skb \<Rightarrow> ('h, 'z) sja_world_scheme \<Rightarrow> rtcan_skb \<times> ('h, 'z) sja_world_scheme" where
  "rtcan_sja_rx_interrupt chip d skb w =
     (let (fir, w1) = rd chip d SJA_FIR w;
          dlc = fir AND SJA_FIR_DLC_MASK;
          size = (if dlc > 8 then 8 else unat dlc);
          rtr = (fir AND SJA_FIR_RTR \<noteq> 0);
          (can_id, w2) =
            (if fir AND SJA_FIR_EFF \<noteq> 0 then
               (let (ids, w') = rd_list chip d [SJA_ID1, SJA_ID2, SJA_ID3, SJA_ID4] w1
                in (CAN_EFF_FLAG OR push_bit 21 (ucast (ids ! 0)) OR push_bit 13 (ucast (ids ! 1))
                      OR push_bit 5 (ucast (ids ! 2)) OR ucast (drop_bit 3 (ids ! 3)), w'))
             else
               (let (ids, w') = rd_list chip d [SJA_ID1, SJA_ID2] w1
                in (push_bit 3 (ucast (ids ! 0)) OR ucast (drop_bit 5 (ids ! 1)), w')));
          (dat, w3) =
            (if rtr then ([], w2)
             else rd_list chip d (map (if fir AND SJA_FIR_EFF \<noteq> 0 then SJA_DATA_EFF else SJA_DATA_SFF) [0..<size]) w2);
          w4 = wr chip d SJA_CMR SJA_CMR_RRB w3;
          rb = memcpy_at (set_rb_can_id (if rtr then can_id OR CAN_RTR_FLAG else can_id)
                 (set_rb_can_dlc dlc (rb_frame skb))) 6 dat
      in (\<lparr>rb_frame_size = EMPTY_RB_FRAME_SIZE + (if rtr then 0 else size),
           rb_frame = set_rb_can_ifindex (of_nat (dev_ifindex (devs w4 d))) rb\<rparr>, w4))"

text \<open>
  An error interrupt: the error frame with its class bits and its data bytes 0 to 3, and the new state
  of the controller.
\<close>

definition sja_ecc_data :: "u8 \<Rightarrow> u8 \<times> u8" where
  "sja_ecc_data ecc =
     (let err = ecc AND SJA_ECC_ERR_MASK;
          (d2, d3) = (if err = 0 then (CAN_ERR_PROT_BIT, 0) else if err = 0x40 then (CAN_ERR_PROT_FORM, 0)
            else if err = 0x80 then (CAN_ERR_PROT_STUFF, 0) else (0, ecc AND SJA_ECC_SEG_MASK))
      in (if ecc AND SJA_ECC_DIR = 0 then d2 OR CAN_ERR_PROT_TX else d2, d3))"

definition sja_err_sources ::
    "'h rtcan_sja1000 \<Rightarrow> nat \<Rightarrow> u8 \<Rightarrow> ('h, 'z) sja_world_scheme \<Rightarrow> u32 \<times> u8 list \<times> ('h, 'z) sja_world_scheme" where
  "sja_err_sources chip d irq_source w =
     (let (id1, d1) = (if irq_source AND SJA_IR_DOI \<noteq> 0
             then (CAN_ERR_FLAG OR CAN_ERR_CRTL, CAN_ERR_CRTL_RX_OVERFLOW) else (CAN_ERR_FLAG, 0));
          (id2, d0, w1) = (if irq_source AND SJA_IR_ALI \<noteq> 0
             then (let (alc, w') = rd chip d SJA_ALC w in (id1 OR CAN_ERR_LOSTARB, alc AND 0x1f, w'))
             else (id1, 0, w));
          (id3, d2, d3, w2) = (if irq_source AND SJA_IR_BEI \<noteq> 0
             then (let (ecc, w') = rd chip d SJA_ECC w1
                   in (id2 OR CAN_ERR_PROT OR CAN_ERR_BUSERROR, fst (sja_ecc_data ecc), snd (sja_ecc_data ecc), w'))
             else (id2, 0, 0, w1))
      in (id3, [d0, d1, d2, d3, 0, 0, 0, 0], w2))"

text \<open>The new state for the old one and the status register; the flag tells a bus-off.\<close>

definition sja_err_state ::
    "'h rtcan_sja1000 \<Rightarrow> nat \<Rightarrow> u8 \<Rightarrow> u8 \<Rightarrow> can_state \<Rightarrow> ('h, 'z) sja_world_scheme
      \<Rightarrow> can_state \<times> bool \<times> ('h, 'z) sja_world_scheme" where
  "sja_err_state chip d irq_source status old w =
     (let st = (if irq_source AND SJA_IR_EPI \<noteq> 0
             then (if old = CAN_STATE_BUS_WARNING then CAN_STATE_BUS_PASSIVE else CAN_STATE_BUS_WARNING) else old)
      in if irq_source AND SJA_IR_EI \<noteq> 0 then
           (if status AND SJA_SR_BS \<noteq> 0 then
              (CAN_STATE_BUS_OFF, True, upd_tx_sem d rtdm_sem_destroy (wr chip d SJA_IER SJA_IER_EIE w))
            else if status AND SJA_SR_ES \<noteq> 0 then (CAN_STATE_BUS_WARNING, False, w)
            else if st = CAN_STATE_BUS_WARNING then (CAN_STATE_ACTIVE, False, w)
            else (st, False, wr chip d SJA_IER SJA1000_IER w))
         else (st, False, w))"

definition rtcan_sja_err_interrupt ::
    "'h rtcan_sja1000 \<Rightarrow> nat \<Rightarrow> rtcan_skb \<Rightarrow> u8 \<Rightarrow> ('h, 'z) sja_world_scheme \<Rightarrow> rtcan_skb \<times> ('h, 'z) sja_world_scheme" where
  "rtcan_sja_err_interrupt chip d skb irq_source w =
     (let old = dev_state (devs w d);
          (status, w1) = rd chip d SJA_SR w;
          (txerr, w2) = rd chip d SJA_TXERR w1;
          (rxerr, w3) = rd chip d SJA_RXERR w2;
          (id1, dat, w4) = sja_err_sources chip d irq_source w3;
          (st, busoff, w5) = sja_err_state chip d irq_source status old w4;
          id2 = (if busoff then id1 OR CAN_ERR_BUSOFF else id1);
          warn = (st \<noteq> old \<and> (st = CAN_STATE_BUS_WARNING \<or> st = CAN_STATE_BUS_PASSIVE));
          id3 = (if warn then id2 OR CAN_ERR_PROT else id2);
          dat' = (if warn then dat[1 := (if txerr > rxerr then CAN_ERR_CRTL_TX_WARNING else CAN_ERR_CRTL_RX_WARNING)] else dat);
          rb = memcpy_at (set_rb_can_id id3 (set_rb_can_dlc CAN_ERR_DLC (rb_frame skb))) 6 dat'
      in (\<lparr>rb_frame_size = EMPTY_RB_FRAME_SIZE + unat CAN_ERR_DLC,
           rb_frame = set_rb_can_ifindex (of_nat (dev_ifindex (devs w5 d))) rb\<rparr>,
          upd_dev d (\<lambda>dev. dev\<lparr>dev_state := st\<rparr>) w5))"

text \<open>
  One turn of the handler's loop for a non-zero \<open>irq_source\<close>; \<open>clk\<close> is the clock in this turn. \<open>skb\<close> is the
  local variable that all deliveries share.
\<close>

definition sja_error_turn ::
    "'h rtcan_sja1000 \<Rightarrow> u64 \<Rightarrow> nat \<Rightarrow> u8 \<Rightarrow> rtcan_skb \<Rightarrow> ('h, 'z) sja_world_scheme
      \<Rightarrow> (rtcan_skb \<times> ('h, 'z) sja_world_scheme) kres" where
  "sja_error_turn chip clk d irq_source skb w =
     (if irq_source AND (SJA_IR_EI OR SJA_IR_DOI OR SJA_IR_EPI OR SJA_IR_ALI OR SJA_IR_BEI) \<noteq> 0 then
        let n = bus_err_on w d;
            w1 = (if irq_source AND SJA_IR_BEI \<noteq> 0 then w\<lparr>bus_err_on := (bus_err_on w)(d := n - 1)\<rparr> else w)
        in if irq_source AND SJA_IR_BEI \<noteq> 0 \<and> sint n < 2 then Inr (skb, w1)
           else (case rtcan_sja_err_interrupt chip d skb irq_source w1 of
                   (skb1, w2) \<Rightarrow> kbind (rtcan_rcv w2 d skb1 clk) (\<lambda>(w3, skb2). Inr (skb2, w3)))
      else Inr (skb, w))"

definition sja_tx_turn ::
    "u64 \<Rightarrow> nat \<Rightarrow> u8 \<Rightarrow> ('h, 'z) sja_world_scheme \<Rightarrow> ('h, 'z) sja_world_scheme kres" where
  "sja_tx_turn clk d irq_source w =
     (if irq_source AND SJA_IR_TI \<noteq> 0 then
        let w1 = upd_tx_sem d rtdm_sem_up w
        in if tx_socket (devs w1 d) \<noteq> None then rtcan_loopback w1 d clk else Inr w1
      else Inr w)"

definition sja_rx_turn ::
    "'h rtcan_sja1000 \<Rightarrow> u64 \<Rightarrow> nat \<Rightarrow> u8 \<Rightarrow> rtcan_skb \<Rightarrow> ('h, 'z) sja_world_scheme
      \<Rightarrow> (rtcan_skb \<times> ('h, 'z) sja_world_scheme) kres" where
  "sja_rx_turn chip clk d irq_source skb w =
     (if irq_source AND SJA_IR_RI \<noteq> 0 then
        (case rtcan_sja_rx_interrupt chip d skb w of
           (skb1, w1) \<Rightarrow> kbind (rtcan_rcv w1 d skb1 clk) (\<lambda>(w2, skb2). Inr (skb2, w2)))
      else Inr (skb, w))"

definition sja_turn ::
    "'h rtcan_sja1000 \<Rightarrow> u64 \<Rightarrow> nat \<Rightarrow> u8 \<Rightarrow> rtcan_skb \<Rightarrow> ('h, 'z) sja_world_scheme
      \<Rightarrow> (rtcan_skb \<times> ('h, 'z) sja_world_scheme) kres" where
  "sja_turn chip clk d irq_source skb w =
     (let w1 = (if irq_source AND SJA_IR_WUI \<noteq> 0
                then upd_dev d (\<lambda>dev. dev\<lparr>dev_state := state_before_sleep dev\<rparr>) w else w)
      in kbind (sja_error_turn chip clk d irq_source skb w1) (\<lambda>(skb1, w2).
         kbind (sja_tx_turn clk d irq_source w2) (\<lambda>w3.
         sja_rx_turn chip clk d irq_source skb1 w3)))"

text \<open>
  The loop runs as long as the interrupt register reads non-zero; \<open>fuel\<close> bounds the number of turns,
  and the fault \<open>Diverges\<close> is a chip that never stops reporting events. \<open>clk n\<close> is the clock in the turn
  with \<open>n\<close> turns of fuel left.
\<close>

fun sja_irq_loop ::
    "'h rtcan_sja1000 \<Rightarrow> (nat \<Rightarrow> u64) \<Rightarrow> nat \<Rightarrow> nat \<Rightarrow> irq_return \<Rightarrow> rtcan_skb \<Rightarrow> ('h, 'z) sja_world_scheme
      \<Rightarrow> (irq_return \<times> ('h, 'z) sja_world_scheme) kres" where
  "sja_irq_loop chip clk 0 d ret skb w = Inl Diverges"
| "sja_irq_loop chip clk (Suc fuel) d ret skb w =
     (case rd chip d SJA_IR w of
        (irq_source, w1) \<Rightarrow>
          if irq_source = 0 then Inr (ret, w1)
          else kbind (sja_turn chip (clk fuel) d irq_source skb w1) (\<lambda>(skb1, w2).
            sja_irq_loop chip clk fuel d RTDM_IRQ_HANDLED skb1 w2))"

text \<open>\<open>stack\<close> is the uninitialised local variable \<open>skb\<close>.\<close>

definition rtcan_sja_interrupt ::
    "'h rtcan_sja1000 \<Rightarrow> (nat \<Rightarrow> u64) \<Rightarrow> nat \<Rightarrow> rtcan_skb \<Rightarrow> nat \<Rightarrow> ('h, 'z) sja_world_scheme
      \<Rightarrow> (irq_return \<times> ('h, 'z) sja_world_scheme) kres" where
  "rtcan_sja_interrupt chip clk fuel stack d w =
     kbind (sja_irq_loop chip clk fuel d RTDM_IRQ_NONE stack w) (\<lambda>(ret, w1).
     Inr (ret, case irq_ack chip of None \<Rightarrow> w1 | Some f \<Rightarrow> w1\<lparr>sja_hw := (sja_hw w1)(d := f (sja_hw w1 d))\<rparr>))"

section \<open>Operating modes\<close>

definition STATE_OPERATING :: "can_state \<Rightarrow> bool" where
  "STATE_OPERATING st = (st \<noteq> CAN_STATE_STOPPED \<and> st \<noteq> CAN_STATE_BUS_OFF)"

definition STATE_RESET :: "can_state \<Rightarrow> bool" where
  "STATE_RESET st = (st = CAN_STATE_STOPPED \<or> st = CAN_STATE_BUS_OFF)"

text \<open>The result, the state passed by reference, and the global state.\<close>

definition rtcan_sja_is_operating ::
    "'h rtcan_sja1000 \<Rightarrow> nat \<Rightarrow> can_state \<Rightarrow> ('h, 'z) sja_world_scheme \<Rightarrow> bool \<times> can_state \<times> ('h, 'z) sja_world_scheme" where
  "rtcan_sja_is_operating chip d st w =
     (if STATE_OPERATING st then
        (case rd chip d SJA_MOD w of
           (v, w1) \<Rightarrow> if v AND SJA_MOD_RM \<noteq> 0
             then (False, CAN_STATE_STOPPED, upd_tx_sem d rtdm_sem_destroy (wr chip d SJA_IER 0 w1))
             else (True, st, w1))
      else (False, st, w))"

text \<open>
  The busy wait for the reset mode, at most \<open>n\<close> tests of the mode register. \<open>env k\<close> is what the chip and
  the rest of the system do while the code sleeps with \<open>wait_loop = k\<close>, the device lock being free. The
  result says whether \<open>wait_loop\<close> is still positive.
\<close>

fun sja_wait_reset ::
    "'h rtcan_sja1000 \<Rightarrow> (nat \<Rightarrow> ('h, 'z) sja_world_scheme \<Rightarrow> ('h, 'z) sja_world_scheme) \<Rightarrow> nat \<Rightarrow> nat
      \<Rightarrow> ('h, 'z) sja_world_scheme \<Rightarrow> bool \<times> ('h, 'z) sja_world_scheme" where
  "sja_wait_reset chip env d 0 w = (False, w)"
| "sja_wait_reset chip env d (Suc n) w =
     (case rd chip d SJA_MOD w of
        (v, w1) \<Rightarrow> if v AND SJA_MOD_RM \<noteq> 0 then (True, w1) else sja_wait_reset chip env d n (env (Suc n) w1))"

definition rtcan_sja_mode_stop ::
    "'h rtcan_sja1000 \<Rightarrow> (nat \<Rightarrow> ('h, 'z) sja_world_scheme \<Rightarrow> ('h, 'z) sja_world_scheme) \<Rightarrow> nat
      \<Rightarrow> ('h, 'z) sja_world_scheme \<Rightarrow> cret \<times> ('h, 'z) sja_world_scheme" where
  "rtcan_sja_mode_stop chip env d w =
     (if STATE_RESET (dev_state (devs w d)) then (Inr 0, w)
      else case sja_wait_reset chip env d 50 (wr chip d SJA_MOD SJA_MOD_RM (wr chip d SJA_IER 0 w)) of
        (True, w1) \<Rightarrow> (Inr 0, upd_tx_sem d rtdm_sem_destroy (upd_dev d (\<lambda>dev. dev\<lparr>dev_state := CAN_STATE_STOPPED\<rparr>) w1))
      | (False, w1) \<Rightarrow> (Inl EAGAIN, wr chip d SJA_IER SJA1000_IER w1))"

definition sja_mod_reg :: "u32 \<Rightarrow> u8" where
  "sja_mod_reg cm =
     (if cm AND CAN_CTRLMODE_LISTENONLY \<noteq> 0 then SJA_MOD_LOM else 0)
     OR (if cm AND CAN_CTRLMODE_LOOPBACK \<noteq> 0 then SJA_MOD_STM else 0)"

text \<open>A start out of the sleep mode waits for the wake-up interrupt, which \<open>env 0\<close> serves.\<close>

definition rtcan_sja_mode_start ::
    "'h rtcan_sja1000 \<Rightarrow> (nat \<Rightarrow> ('h, 'z) sja_world_scheme \<Rightarrow> ('h, 'z) sja_world_scheme) \<Rightarrow> nat
      \<Rightarrow> ('h, 'z) sja_world_scheme \<Rightarrow> cret \<times> ('h, 'z) sja_world_scheme" where
  "rtcan_sja_mode_start chip env d w =
     (let mod_reg = sja_mod_reg (ctrl_mode (devs w d)) in
      case dev_state (devs w d) of
        CAN_STATE_STOPPED \<Rightarrow>
          let w1 = wr chip d SJA_TXERR 0 (wr chip d SJA_RXERR 0 w);
              w2 = snd (rd chip d SJA_ECC w1);
              w3 = upd_tx_sem d (\<lambda>sem. rtdm_sem_init sem 1) (upd_dev d (\<lambda>dev. dev\<lparr>dev_state := CAN_STATE_ACTIVE\<rparr>) w2)
          in (Inr 0, wr chip d SJA_MOD mod_reg (wr chip d SJA_IER SJA1000_IER w3))
      | CAN_STATE_SLEEPING \<Rightarrow> (Inr 0, env 0 (wr chip d SJA_MOD mod_reg w))
      | CAN_STATE_BUS_OFF \<Rightarrow>
          (Inr 0, upd_dev d (\<lambda>dev. dev\<lparr>dev_state := CAN_STATE_ACTIVE\<rparr>)
             (upd_tx_sem d (\<lambda>sem. rtdm_sem_init sem 1) (wr chip d SJA_MOD mod_reg w)))
      | _ \<Rightarrow> (Inr 0, w))"

definition rtcan_sja_get_state ::
    "'h rtcan_sja1000 \<Rightarrow> nat \<Rightarrow> ('h, 'z) sja_world_scheme \<Rightarrow> can_state \<times> ('h, 'z) sja_world_scheme" where
  "rtcan_sja_get_state chip d w = (case rtcan_sja_is_operating chip d (dev_state (devs w d)) w of (_, st, w1) \<Rightarrow> (st, w1))"

definition rtcan_sja_set_mode ::
    "'h rtcan_sja1000 \<Rightarrow> (nat \<Rightarrow> ('h, 'z) sja_world_scheme \<Rightarrow> ('h, 'z) sja_world_scheme) \<Rightarrow> nat \<Rightarrow> can_mode
      \<Rightarrow> ('h, 'z) sja_world_scheme \<Rightarrow> cret \<times> ('h, 'z) sja_world_scheme" where
  "rtcan_sja_set_mode chip env d mode w =
     (case mode of
        CAN_MODE_STOP \<Rightarrow> rtcan_sja_mode_stop chip env d w
      | CAN_MODE_START \<Rightarrow> rtcan_sja_mode_start chip env d w
      | CAN_MODE_SLEEP \<Rightarrow>
          (case rtcan_sja_is_operating chip d (dev_state (devs w d)) w of
             (False, st, w1) \<Rightarrow> (Inl ENETDOWN, upd_dev d (\<lambda>dev. dev\<lparr>dev_state := st\<rparr>) w1)
           | (True, st, w1) \<Rightarrow>
               if st = CAN_STATE_SLEEPING then (Inr 0, upd_dev d (\<lambda>dev. dev\<lparr>dev_state := st\<rparr>) w1)
               else
                 let w2 = upd_dev d (\<lambda>dev. dev\<lparr>state_before_sleep := st\<rparr>) w1;
                     (v, w3) = rd chip d SJA_MOD w2
                 in (Inr 0, upd_dev d (\<lambda>dev. dev\<lparr>dev_state := CAN_STATE_SLEEPING\<rparr>) (wr chip d SJA_MOD (v OR SJA_MOD_SM) w3)))
      | CAN_MODE_OTHER m \<Rightarrow> (Inl EOPNOTSUPP, w))"

section \<open>Bit timing, bus errors, transmission\<close>

definition sja_btr0 :: "can_bittime_std \<Rightarrow> u8" where
  "sja_btr0 bt = ucast (((brp bt - 1) AND 0x3f) OR (push_bit 6 (ucast (sjw bt) - 1 :: u32) AND 0xC0))"

definition sja_btr1 :: "can_bittime_std \<Rightarrow> u8" where
  "sja_btr1 bt = ucast (((ucast (prop_seg bt) + ucast (phase_seg1 bt) - 1 :: u32) AND 0xf)
     OR (push_bit 4 (ucast (phase_seg2 bt) - 1) AND 0x70) OR push_bit 7 (ucast (sam bt) AND 1))"

definition rtcan_sja_set_bit_time ::
    "'h rtcan_sja1000 \<Rightarrow> nat \<Rightarrow> can_bittime \<Rightarrow> ('h, 'z) sja_world_scheme \<Rightarrow> cret \<times> ('h, 'z) sja_world_scheme" where
  "rtcan_sja_set_bit_time chip d bt w =
     (case bt of
        CAN_BITTIME_BTR btr0 btr1 \<Rightarrow> (Inr 0, wr chip d SJA_BTR1 btr1 (wr chip d SJA_BTR0 btr0 w))
      | CAN_BITTIME_STD std \<Rightarrow> (Inr 0, wr chip d SJA_BTR1 (sja_btr1 std) (wr chip d SJA_BTR0 (sja_btr0 std) w))
      | CAN_BITTIME_OTHER t \<Rightarrow> (Inl EINVAL, w))"

definition rtcan_sja_enable_bus_err ::
    "'h rtcan_sja1000 \<Rightarrow> nat \<Rightarrow> ('h, 'z) sja_world_scheme \<Rightarrow> ('h, 'z) sja_world_scheme" where
  "rtcan_sja_enable_bus_err chip d w =
     (if sint (bus_err_on w d) < 2 then
        let w1 = (if sint (bus_err_on w d) < 1 then snd (rd chip d SJA_ECC w) else w)
        in w1\<lparr>bus_err_on := (bus_err_on w1)(d := 2)\<rparr>
      else w)"

definition rtcan_sja_start_xmit ::
    "'h rtcan_sja1000 \<Rightarrow> nat \<Rightarrow> can_frame \<Rightarrow> ('h, 'z) sja_world_scheme \<Rightarrow> cret \<times> ('h, 'z) sja_world_scheme" where
  "rtcan_sja_start_xmit chip d frame w =
     (let dlc = frm_can_dlc frame; size = (if dlc > 8 then 8 else unat dlc); can_id = frm_can_id frame;
          eff = (can_id AND CAN_EFF_FLAG \<noteq> 0); rtr = (can_id AND CAN_RTR_FLAG \<noteq> 0);
          ids = (if eff then [(SJA_ID1, ucast (drop_bit 21 can_id)), (SJA_ID2, ucast (drop_bit 13 can_id)),
                   (SJA_ID3, ucast (drop_bit 5 can_id)), (SJA_ID4, ucast (push_bit 3 can_id))]
                 else [(SJA_ID1, ucast (drop_bit 3 can_id)), (SJA_ID2, ucast (push_bit 5 can_id))]);
          dat = (if rtr then []
                 else map (\<lambda>i. ((if eff then SJA_DATA_EFF i else SJA_DATA_SFF i), frm_data frame ! i)) [0..<size]);
          fir = dlc OR (if eff then SJA_FIR_EFF else 0) OR (if rtr then SJA_FIR_RTR else 0);
          w1 = wr chip d SJA_FIR fir (wr_list chip d dat (wr_list chip d ids w))
      in (Inr 0, wr chip d SJA_CMR
            (if ctrl_mode (devs w1 d) AND CAN_CTRLMODE_LOOPBACK \<noteq> 0 then SJA_CMR_SRR else SJA_CMR_TR) w1))"

section \<open>Registration\<close>

definition sja1000_chip_config :: "'h rtcan_sja1000 \<Rightarrow> nat \<Rightarrow> ('h, 'z) sja_world_scheme \<Rightarrow> ('h, 'z) sja_world_scheme" where
  "sja1000_chip_config chip d w =
     wr_list chip d [(SJA_CDR, cdr chip), (SJA_OCR, ocr chip), (SJA_AMR0, 0xFF), (SJA_AMR1, 0xFF),
       (SJA_AMR2, 0xFF), (SJA_AMR3, 0xFF)] w"

text \<open>
  The function pointers that \<open>rtcan_sja1000_register\<close> installs. In the operations reached through them
  only the chip goes on during a busy wait: \<open>tick k\<close> is what it does.
\<close>

definition hw_env :: "(nat \<Rightarrow> 'h \<Rightarrow> 'h) \<Rightarrow> nat \<Rightarrow> nat \<Rightarrow> ('h, 'z) sja_world_scheme \<Rightarrow> ('h, 'z) sja_world_scheme" where
  "hw_env tick d k w = w\<lparr>sja_hw := (sja_hw w)(d := tick k (sja_hw w d))\<rparr>"

definition sja_ops :: "'h rtcan_sja1000 \<Rightarrow> (nat \<Rightarrow> 'h \<Rightarrow> 'h) \<Rightarrow> ('h, 'z) sja_world_scheme can_ops" where
  "sja_ops chip tick = \<lparr>hard_start_xmit = (\<lambda>d frame w. Inr (rtcan_sja_start_xmit chip d frame w)),
     do_set_mode = Some (\<lambda>d mode w. Inr (rtcan_sja_set_mode chip (hw_env tick d) d mode w)), do_get_state = Some (rtcan_sja_get_state chip),
     do_set_bit_time = Some (rtcan_sja_set_bit_time chip), do_enable_bus_err = Some (rtcan_sja_enable_bus_err chip)\<rparr>"

text \<open>
  \<open>irq\<close> is the result of \<open>rtdm_irq_request\<close>; \<open>chip\<close> is \<open>None\<close> where \<open>dev->priv\<close> is null. The interrupt line is
  given back on the error path, which leaves no trace in this state.
\<close>

definition rtcan_sja1000_register ::
    "'h rtcan_sja1000 option \<Rightarrow> (nat \<Rightarrow> ('h, 'z) sja_world_scheme \<Rightarrow> ('h, 'z) sja_world_scheme) \<Rightarrow> cret \<Rightarrow> nat
      \<Rightarrow> ('h, 'z) sja_world_scheme \<Rightarrow> cret \<times> ('h, 'z) sja_world_scheme" where
  "rtcan_sja1000_register priv env irq d w =
     (case priv of
        None \<Rightarrow> (Inl EINVAL, w)
      | Some chip \<Rightarrow>
          let w1 = snd (rtcan_sja_mode_stop chip env d (upd_dev d (\<lambda>dev. dev\<lparr>dev_state := CAN_STATE_ACTIVE\<rparr>) w));
              (sr, w2) = rd chip d SJA_SR w1
          in if sr AND (SJA_SR_RBS OR SJA_SR_DOS OR SJA_SR_TBS) \<noteq> SJA_SR_TBS then (Inl ENODEV, w2)
             else
               let w3 = w2\<lparr>bus_err_on := (bus_err_on w2)(d := 1)\<rparr>
               in if irq \<noteq> Inr 0 then (irq, w3)
                  else
                    let (ret, w4) = rtcan_dev_register (sja1000_chip_config chip d w3) d
                    in if ret \<noteq> Inr 0 then (ret, w4) else (Inr 0, w4))"

definition rtcan_sja1000_unregister ::
    "'h rtcan_sja1000 \<Rightarrow> (nat \<Rightarrow> ('h, 'z) sja_world_scheme \<Rightarrow> ('h, 'z) sja_world_scheme) \<Rightarrow> nat
      \<Rightarrow> (('h, 'z) sja_world_scheme \<Rightarrow> ('h, 'z) sja_world_scheme) list \<Rightarrow> ('h, 'z) sja_world_scheme
      \<Rightarrow> ('h, 'z) sja_world_scheme option" where
  "rtcan_sja1000_unregister chip env d waits w =
     map_option snd (rtcan_dev_unregister (snd (rtcan_sja_mode_stop chip env d w)) d waits)"

section \<open>Frames of the register accesses\<close>

lemma chip_frame [simp]:
  "devs (wr chip d r v w) = devs w" "socks (wr chip d r v w) = socks w"
  "rtcan_devices (wr chip d r v w) = rtcan_devices w" "rtcan_socket_list (wr chip d r v w) = rtcan_socket_list w"
  "bus_err_on (wr chip d r v w) = bus_err_on w"
  "devs (snd (rd chip d r w)) = devs w" "socks (snd (rd chip d r w)) = socks w"
  "rtcan_devices (snd (rd chip d r w)) = rtcan_devices w" "rtcan_socket_list (snd (rd chip d r w)) = rtcan_socket_list w"
  "bus_err_on (snd (rd chip d r w)) = bus_err_on w"
  by (simp_all add: wr_def rd_def split: prod.splits)

lemma ctl_frame_hw: "ctl_frame d w v \<Longrightarrow> ctl_frame d w (v\<lparr>sja_hw := h\<rparr>)"
  by (simp add: ctl_frame_def)

lemma ctl_frame_rd: "rd chip d r v = (x, v') \<Longrightarrow> ctl_frame d w v \<Longrightarrow> ctl_frame d w v'"
  by (auto simp: rd_def ctl_frame_hw split: prod.splits)

lemma ctl_frame_wr: "ctl_frame d w v \<Longrightarrow> ctl_frame d w (wr chip d r x v)"
  by (simp add: wr_def ctl_frame_hw)

lemmas sja_frame = ctl_frame_upd ctl_frame_wr ctl_frame_refl

lemma wait_reset_frame:
  "ctl_frame d w v \<Longrightarrow> ctl_frame d w (snd (sja_wait_reset chip (hw_env tick d) d n v))"
proof (induction n arbitrary: v)
  case (Suc n)
  obtain x v1 where "rd chip d SJA_MOD v = (x, v1)" by fastforce
  then show ?case
    using Suc.IH [of "hw_env tick d (Suc n) v1"] ctl_frame_rd [OF _ Suc.prems]
    by (auto simp: hw_env_def ctl_frame_hw)
qed simp

lemma is_operating_frame:
  "rtcan_sja_is_operating chip d st w = (b, st', w') \<Longrightarrow> ctl_frame d w w'"
  by (auto simp: rtcan_sja_is_operating_def split: if_splits prod.splits intro!: sja_frame elim!: ctl_frame_rd)

lemma sja_set_mode_frame: "ctl_frame d w (snd (rtcan_sja_set_mode chip (hw_env tick d) d m w))"
proof (cases m)
  case CAN_MODE_STOP
  have "ctl_frame d w (wr chip d SJA_MOD SJA_MOD_RM (wr chip d SJA_IER 0 w))" by (simp add: sja_frame)
  from wait_reset_frame [OF this, of chip tick 50] show ?thesis
    by (auto simp: CAN_MODE_STOP rtcan_sja_set_mode_def rtcan_sja_mode_stop_def split: prod.splits bool.splits
        intro!: sja_frame)
next
  case CAN_MODE_START
  then show ?thesis
    by (auto simp: rtcan_sja_set_mode_def rtcan_sja_mode_start_def Let_def hw_env_def split: can_state.splits
        intro!: sja_frame ctl_frame_hw ctl_frame_rd [OF prod.collapse [symmetric]])
next
  case CAN_MODE_SLEEP
  obtain b st w1 where op: "rtcan_sja_is_operating chip d (dev_state (devs w d)) w = (b, st, w1)"
    by (metis prod_cases3)
  obtain v w3 where r: "rd chip d SJA_MOD (upd_dev d (\<lambda>dev. dev\<lparr>state_before_sleep := st\<rparr>) w1) = (v, w3)" by fastforce
  have "ctl_frame d w w1" "ctl_frame d w w3"
    using is_operating_frame [OF op] ctl_frame_rd [OF r] by (auto intro: sja_frame)
  then show ?thesis
    using op r by (auto simp: CAN_MODE_SLEEP rtcan_sja_set_mode_def Let_def split: bool.splits intro!: sja_frame)
qed (simp add: rtcan_sja_set_mode_def)

interpretation sja: can_controller "sja_ops chip tick" "\<lambda>d mode w. Inr (rtcan_sja_set_mode chip (hw_env tick d) d mode w)" for chip tick
proof unfold_locales
  fix d w f
  assume "do_get_state (sja_ops chip tick) = Some f"
  then show "ctl_frame d w (snd (f d w))"
    using is_operating_frame [of chip d "dev_state (devs w d)" w]
    by (auto simp: sja_ops_def rtcan_sja_get_state_def split: prod.splits)
next
  fix d w bt g
  assume "do_set_bit_time (sja_ops chip tick) = Some g"
  then show "ctl_frame d w (snd (g d bt w)) \<and> dev_state (devs (snd (g d bt w)) d) = dev_state (devs w d)"
    by (auto simp: sja_ops_def rtcan_sja_set_bit_time_def split: can_bittime.splits intro!: sja_frame)
next
  fix d w w'
  assume "CAN_STATE_OPERATING (dev_state (devs w d))"
    "Inr (rtcan_sja_set_mode chip (hw_env tick d) d CAN_MODE_STOP w) = Inr (Inr 0, w')"
  then show "dev_state (devs w' d) = CAN_STATE_STOPPED"
    by (auto simp: rtcan_sja_set_mode_def rtcan_sja_mode_stop_def STATE_RESET_def CAN_STATE_OPERATING_iff upd_tx_sem_def
        split: prod.splits bool.splits if_splits)
next
  fix d m w r w'
  assume "Inr (rtcan_sja_set_mode chip (hw_env tick d) d m w) = Inr (r, w')"
  then show "ctl_frame d w w'" using sja_set_mode_frame [of d w chip tick m] by simp
qed (simp add: sja_ops_def, auto simp: rtcan_sja_set_mode_def rtcan_sja_mode_start_def Let_def upd_tx_sem_def)

end
