(* ===== verification/Can_Sja_Wire.thy ===== *)
theory Can_Sja_Wire
  imports Can_Sja1000
begin

text \<open>
  The SJA1000 on the wire: the register image of a frame is decoded to the frame that was sent, a frame on the wire reaches
  the sockets, and the interrupt handler returns.
\<close>

section \<open>A chip as a register file\<close>

text \<open>Reads return what was written last; used where a statement is about the values in the registers.\<close>

definition reg_chip :: "(nat \<Rightarrow> u8) rtcan_sja1000" where
  "reg_chip = \<lparr>read_reg = (\<lambda>r h. (h r, h)), write_reg = (\<lambda>r v h. h(r := v)), irq_ack = None, ocr = 0, cdr = 0\<rparr>"

lemma rd_reg_chip [simp]: "rd reg_chip d r w = (sja_hw w d r, w)"
  by (simp add: rd_def reg_chip_def)

lemma rd_list_reg_chip [simp]: "rd_list reg_chip d rs w = (map (sja_hw w d) rs, w)"
  by (induction rs) simp_all

lemma wr_reg_chip [simp]: "sja_hw (wr reg_chip d r v w) = (sja_hw w)(d := (sja_hw w d)(r := v))"
  by (simp add: wr_def reg_chip_def)

lemma wr_list_frame [simp]:
  "devs (wr_list chip d rvs w) = devs w" "socks (wr_list chip d rvs w) = socks w"
  "rtcan_devices (wr_list chip d rvs w) = rtcan_devices w"
  "rtcan_socket_list (wr_list chip d rvs w) = rtcan_socket_list w"
  by (induction chip d rvs w rule: wr_list.induct) simp_all

lemma wr_list_reg_chip:
  "sja_hw (wr_list reg_chip d rvs w) d r = (case map_of (rev rvs) r of None \<Rightarrow> sja_hw w d r | Some v \<Rightarrow> v)"
proof (induction rvs arbitrary: w)
  case (Cons p rvs)
  then show ?case by (cases p) (auto simp: map_add_def split: option.splits)
qed simp

section \<open>The register image of a frame\<close>

lemma eff_image:
  "push_bit 21 (ucast (ucast (drop_bit 21 i) :: u8)) OR push_bit 13 (ucast (ucast (drop_bit 13 i) :: u8))
     OR push_bit 5 (ucast (ucast (drop_bit 5 i) :: u8)) OR ucast (drop_bit 3 (ucast (push_bit 3 i) :: u8))
   = (i :: u32) AND CAN_EFF_MASK"
proof (rule bit_word_eqI)
  fix n
  assume "n < LENGTH(32)"
  then show "bit (push_bit 21 (ucast (ucast (drop_bit 21 i) :: u8) :: u32) OR push_bit 13 (ucast (ucast (drop_bit 13 i) :: u8))
     OR push_bit 5 (ucast (ucast (drop_bit 5 i) :: u8)) OR ucast (drop_bit 3 (ucast (push_bit 3 i) :: u8))) n
     = bit (i AND CAN_EFF_MASK) n"
    unfolding mask_consts
    by (cases "n < 5"; cases "n < 13"; cases "n < 21")
      (auto simp: bit_or_iff bit_and_iff bit_push_bit_iff bit_ucast_iff bit_drop_bit_eq bit_mask_iff not_le)
qed

lemma sff_image:
  "push_bit 3 (ucast (ucast (drop_bit 3 i) :: u8)) OR ucast (drop_bit 5 (ucast (push_bit 5 i) :: u8))
   = (i :: u32) AND CAN_SFF_MASK"
  unfolding mask_consts
  by (rule bit_word_eqI)
    (auto simp: bit_or_iff bit_and_iff bit_push_bit_iff bit_ucast_iff bit_drop_bit_eq bit_mask_iff not_le)

definition fir_of :: "can_frame \<Rightarrow> u8" where
  "fir_of frame = frm_can_dlc frame OR (if frm_can_id frame AND CAN_EFF_FLAG \<noteq> 0 then SJA_FIR_EFF else 0)
     OR (if frm_can_id frame AND CAN_RTR_FLAG \<noteq> 0 then SJA_FIR_RTR else 0)"

lemma fir_fields:
  assumes "frm_can_dlc frame \<le> 15"
  shows "fir_of frame AND SJA_FIR_DLC_MASK = frm_can_dlc frame"
    "fir_of frame AND SJA_FIR_EFF \<noteq> 0 \<longleftrightarrow> frm_can_id frame AND CAN_EFF_FLAG \<noteq> 0"
    "fir_of frame AND SJA_FIR_RTR \<noteq> 0 \<longleftrightarrow> frm_can_id frame AND CAN_RTR_FLAG \<noteq> 0"
  using dlc_nibble [OF assms] by (simp_all add: fir_of_def sja_bits bit.conj_disj_distrib2)

text \<open>The transmit buffer after \<open>rtcan_sja_start_xmit\<close>.\<close>

lemma tx_buffer:
  assumes "rtcan_sja_start_xmit reg_chip d frame w = (r, w1)"
  defines "i \<equiv> frm_can_id frame"
  defines "eff \<equiv> i AND CAN_EFF_FLAG \<noteq> 0"
  shows "sja_hw w1 d SJA_FIR = fir_of frame"
    "eff \<Longrightarrow> map (sja_hw w1 d) [SJA_ID1, SJA_ID2, SJA_ID3, SJA_ID4] =
       [ucast (drop_bit 21 i), ucast (drop_bit 13 i), ucast (drop_bit 5 i), ucast (push_bit 3 i)]"
    "\<not> eff \<Longrightarrow> map (sja_hw w1 d) [SJA_ID1, SJA_ID2] = [ucast (drop_bit 3 i), ucast (push_bit 5 i)]"
    "i AND CAN_RTR_FLAG = 0 \<Longrightarrow> k < wire_size frame \<Longrightarrow>
       sja_hw w1 d ((if eff then SJA_DATA_EFF else SJA_DATA_SFF) k) = frm_data frame ! k"
proof -
  define ids where "ids = (if eff then [(SJA_ID1, ucast (drop_bit 21 i)), (SJA_ID2, ucast (drop_bit 13 i)),
                   (SJA_ID3, ucast (drop_bit 5 i)), (SJA_ID4, ucast (push_bit 3 i))]
                 else [(SJA_ID1, ucast (drop_bit 3 i)), (SJA_ID2, ucast (push_bit 5 i :: u32))] :: (nat \<times> u8) list)"
  define dat where "dat = (if i AND CAN_RTR_FLAG \<noteq> 0 then []
                 else map (\<lambda>j. ((if eff then SJA_DATA_EFF j else SJA_DATA_SFF j), frm_data frame ! j)) [0..<wire_size frame])"
  define w0 where "w0 = wr_list reg_chip d ids w"
  have w1: "w1 = wr reg_chip d SJA_CMR (if ctrl_mode (devs w d) AND CAN_CTRLMODE_LOOPBACK \<noteq> 0 then SJA_CMR_SRR else SJA_CMR_TR)
      (wr reg_chip d SJA_FIR (fir_of frame) (wr_list reg_chip d dat w0))"
    using assms(1) unfolding rtcan_sja_start_xmit_def Let_def w0_def ids_def dat_def i_def eff_def fir_of_def
      wire_size_def wr_list_frame chip_frame prod.inject by (elim conjE) (simp only:)
  show "sja_hw w1 d SJA_FIR = fir_of frame" by (simp add: w1 sja_regs)
  have out: "map_of (rev dat) r = None" if "r < (if eff then 21 else 19)" for r
    using that by (auto simp: dat_def sja_regs map_of_eq_None_iff image_iff split: if_splits)
  show "eff \<Longrightarrow> map (sja_hw w1 d) [SJA_ID1, SJA_ID2, SJA_ID3, SJA_ID4] =
       [ucast (drop_bit 21 i), ucast (drop_bit 13 i), ucast (drop_bit 5 i), ucast (push_bit 3 i)]"
    using out by (simp add: w1 wr_list_reg_chip sja_regs) (simp add: w0_def wr_list_reg_chip ids_def sja_regs)
  show "\<not> eff \<Longrightarrow> map (sja_hw w1 d) [SJA_ID1, SJA_ID2] = [ucast (drop_bit 3 i), ucast (push_bit 5 i)]"
    using out by (simp add: w1 wr_list_reg_chip sja_regs) (simp add: w0_def wr_list_reg_chip ids_def sja_regs)
  show "sja_hw w1 d ((if eff then SJA_DATA_EFF else SJA_DATA_SFF) k) = frm_data frame ! k"
    if "i AND CAN_RTR_FLAG = 0" "k < wire_size frame"
  proof -
    let ?reg = "if eff then SJA_DATA_EFF else SJA_DATA_SFF"
    have "distinct (map fst (rev dat))" "(?reg k, frm_data frame ! k) \<in> set (rev dat)"
      using that by (auto simp: dat_def sja_regs distinct_map inj_on_def rev_map [symmetric])
    then have "map_of (rev dat) (?reg k) = Some (frm_data frame ! k)" by (rule map_of_is_SomeI)
    then show ?thesis by (simp add: w1 wr_list_reg_chip) (simp add: sja_regs)
  qed
qed

section \<open>From one controller to the other\<close>

lemma rx_decode:
  assumes xmit: "rtcan_sja_start_xmit reg_chip a frame w = (r, w1)"
    and frame: "frm_can_dlc frame \<le> 15" "length (frm_data frame) = 8"
    and wire: "\<forall>k \<in> {16..28}. sja_hw v b k = sja_hw w1 a k"
    and stk: "length (rb_frame skb) = sizeof_rb_frame"
  shows "\<exists>skb'. rtcan_sja_rx_interrupt reg_chip b skb v = (skb', wr reg_chip b SJA_CMR SJA_CMR_RRB v) \<and>
    wf_skb skb' \<and> (\<forall>ts. msg_of skb' ts = wire_msg (devs v b) frame ts)"
proof -
  let ?i = "frm_can_id frame" and ?n = "wire_size frame"
  let ?eff = "?i AND CAN_EFF_FLAG \<noteq> 0" and ?rtr = "?i AND CAN_RTR_FLAG \<noteq> 0"
  note tx = tx_buffer [OF xmit] and f = fir_fields [OF frame(1)]
  define dat where "dat = (if ?rtr then [] else take ?n (frm_data frame))"
  have n: "?n \<le> 8" by (rule wire_size_le)
  have hw: "sja_hw v b k = sja_hw w1 a k" if "16 \<le> k" "k \<le> 28" for k using wire that by simp
  have fir: "sja_hw v b SJA_FIR = fir_of frame" using tx(1) hw [of SJA_FIR] by (simp add: sja_regs)
  have ids4: "map (sja_hw v b) [SJA_ID1, SJA_ID2, SJA_ID3, SJA_ID4] =
       [ucast (drop_bit 21 ?i), ucast (drop_bit 13 ?i), ucast (drop_bit 5 ?i), ucast (push_bit 3 ?i)]" if ?eff
    using tx(2) [OF that] hw by (simp add: sja_regs)
  have ids2: "map (sja_hw v b) [SJA_ID1, SJA_ID2] = [ucast (drop_bit 3 ?i), ucast (push_bit 5 ?i)]" if "\<not> ?eff"
    using tx(3) [OF that] hw by (simp add: sja_regs)
  have "sja_hw v b ((if ?eff then SJA_DATA_EFF else SJA_DATA_SFF) k) = frm_data frame ! k" if "\<not> ?rtr" "k < ?n" for k
    using tx(4) [of k] that n hw [of "(if ?eff then SJA_DATA_EFF else SJA_DATA_SFF) k"] by (simp add: sja_regs split: if_splits)
  then have data: "map (sja_hw v b) (map (if ?eff then SJA_DATA_EFF else SJA_DATA_SFF) [0..<?n]) = take ?n (frm_data frame)"
    if "\<not> ?rtr" using that n frame(2) by (intro nth_equalityI) auto
  define skb' where "skb' = \<lparr>rb_frame_size = EMPTY_RB_FRAME_SIZE + length dat,
    rb_frame = set_rb_can_ifindex (of_nat (dev_ifindex (devs v b)))
      (memcpy_at (set_rb_can_id (wire_id ?i) (set_rb_can_dlc (frm_can_dlc frame) (rb_frame skb))) 6 dat)\<rparr>"
  have rtr0: "(if ?rtr then x OR CAN_RTR_FLAG else x) = x OR (?i AND CAN_RTR_FLAG)" for x
    using wire_id_rtr(2) [of ?i] by (cases ?rtr) simp_all
  have size: "(if ?rtr then 0 else ?n) = length dat" using n frame(2) by (simp add: dat_def)
  have run: "rtcan_sja_rx_interrupt reg_chip b skb v = (skb', wr reg_chip b SJA_CMR SJA_CMR_RRB v)"
  proof (cases ?eff)
    case True
    then show ?thesis
      using ids4 data unfolding rtcan_sja_rx_interrupt_def Let_def rd_reg_chip rd_list_reg_chip prod.case fir f
        wire_size_def [symmetric] size rtr0
      by (simp add: eff_image [simplified or.assoc] or.assoc wire_id_def skb'_def dat_def)
  next
    case False
    then show ?thesis
      using ids2 data unfolding rtcan_sja_rx_interrupt_def Let_def rd_reg_chip rd_list_reg_chip prod.case fir f
        wire_size_def [symmetric] size rtr0
      by (simp add: sff_image wire_id_def skb'_def dat_def)
  qed
  have "payload_len (wire_id ?i) (frm_can_dlc frame) = length dat"
    using n frame(2) by (auto simp: payload_len_def wire_id_rtr dat_def wire_size_def word_less_nat_alt)
  from build_skb [OF stk dlc15_stamp [OF frame(1)] this [symmetric]] run
  show ?thesis by (auto simp: skb'_def wire_msg_def dat_def)
qed

text \<open>
  C16: A frame written to the transmit buffer of one SJA1000 and carried over the wire into the receive
  buffer of another is read back unchanged: identifier, format and RTR bit, length code (also the
  codes 9 to 15, which stand for 8 bytes), payload. The interface index is that of the receiver.
\<close>

theorem sja_wire_roundtrip:
  assumes "rtcan_sja_start_xmit reg_chip a frame w = (r, w1)"
    "frm_can_dlc frame \<le> 15" "length (frm_data frame) = 8" "wire_id (frm_can_id frame) = frm_can_id frame"
    "\<forall>k \<in> {16..28}. sja_hw v b k = sja_hw w1 a k" "length (rb_frame skb) = sizeof_rb_frame"
  shows "r = Inr 0 \<and> (\<exists>skb' v'. rtcan_sja_rx_interrupt reg_chip b skb v = (skb', v') \<and> wf_skb skb' \<and>
    msg_of skb' None = \<lparr>m_id = frm_can_id frame, m_ifindex = of_nat (dev_ifindex (devs v b)), m_dlc = frm_can_dlc frame,
      m_data = (if frm_can_id frame AND CAN_RTR_FLAG = 0 then take (wire_size frame) (frm_data frame) else []), m_ts = None\<rparr>)"
proof -
  have "r = Inr 0" using assms(1) by (simp add: rtcan_sja_start_xmit_def Let_def)
  moreover obtain skb' where "rtcan_sja_rx_interrupt reg_chip b skb v = (skb', wr reg_chip b SJA_CMR SJA_CMR_RRB v)"
      "wf_skb skb'" "msg_of skb' None = wire_msg (devs v b) frame None"
    using rx_decode [OF assms(1-3,5,6)] by blast
  ultimately show ?thesis by (simp add: wire_msg_def assms(4))
qed

text \<open>
  C26: End to end over the wire: when the receiving controller raises its receive interrupt, every
  live socket has the frame that was sent in its queue, once for each of its mounted filters that
  accepts it, with the time of reception if it asked for timestamps.
\<close>

theorem sja_wire_delivery:
  assumes xmit: "rtcan_sja_start_xmit reg_chip a frame w = (r, w1)"
    and frame: "frm_can_dlc frame \<le> 15" "length (frm_data frame) = 8"
    and wire: "\<forall>k \<in> {16..28}. sja_hw v b k = sja_hw w1 a k"
    and stk: "length (rb_frame skb) = sizeof_rb_frame"
    and inv: "can_inv v" "registered v b" "queues v q"
  shows "\<exists>skb' v'. sja_rx_turn reg_chip now b SJA_IR_RI skb v = Inr (skb', v') \<and> can_inv v' \<and>
    bindings_of v' = bindings_of v \<and> rtcan_socket_list v' = rtcan_socket_list v \<and>
    queues v' (\<lambda>s. (q_add (wire_msg (devs v b) frame (stamp_for (socks v s) now)) ^^ hits v b (wire_id (frm_can_id frame)) s) (q s))"
proof -
  define v1 where "v1 = wr reg_chip b SJA_CMR SJA_CMR_RRB v"
  obtain skb1 where rx: "rtcan_sja_rx_interrupt reg_chip b skb v = (skb1, v1)" "wf_skb skb1"
      "\<forall>ts. msg_of skb1 ts = wire_msg (devs v b) frame ts"
    using rx_decode [OF xmit frame wire stk] unfolding v1_def by blast
  have fr: "ctl_frame b v v1" unfolding v1_def by (simp add: sja_frame)
  have same: "registered v1 b" "queues v1 q" "socks v1 = socks v" "rtcan_socket_list v1 = rtcan_socket_list v"
      "dev_ifindex (devs v1 b) = dev_ifindex (devs v b)"
    using inv by (simp_all add: v1_def registered_def queues_def)
  have id: "rb_can_id (rb_frame skb1) = wire_id (frm_can_id frame)"
    using rx(3) unfolding msg_of_def wire_msg_def by (metis can_msg.select_convs(1))
  have h: "hits v1 b i s = hits v b i s" for i s
    by (simp add: hits_def same ctl_frame_inv(1) [OF fr])
  obtain v2 skb2 where "rtcan_rcv v1 b skb1 now = Inr (v2, skb2)" "walked (set (rtcan_socket_list v1)) b v1 v2"
      "queues v2 (\<lambda>s. (q_add (msg_of skb1 (stamp_for (socks v1 s) now)) ^^ hits v1 b (rb_can_id (rb_frame skb1)) s) (q s))"
    using rcv_effect [OF ctl_frame_inv(2) [OF fr inv(1)] same(1,2) rx(2)] by blast
  then show ?thesis
    using rx walked_inv [OF ctl_frame_inv(2) [OF fr inv(1)]] ctl_frame_inv(1) [OF fr]
    unfolding id h same(3) by (simp add: sja_rx_turn_def SJA_IR_RI_def) (simp add: walked_def same)
qed

section \<open>The interrupt handler\<close>

text \<open>
  The chip reports only finitely many events: a measure of what is pending that a non-zero read of
  the interrupt register lowers and no other access raises.
\<close>

definition irq_measure :: "'h rtcan_sja1000 \<Rightarrow> ('h \<Rightarrow> nat) \<Rightarrow> bool" where
  "irq_measure chip pend \<longleftrightarrow>
     (\<forall>h. fst (read_reg chip SJA_IR h) \<noteq> 0 \<longrightarrow> pend (snd (read_reg chip SJA_IR h)) < pend h) \<and>
     (\<forall>r h. r \<noteq> SJA_IR \<longrightarrow> pend (snd (read_reg chip r h)) \<le> pend h) \<and>
     (\<forall>r v h. pend (write_reg chip r v h) \<le> pend h)"

text \<open>A step of the driver that stays within its frame and raises no event.\<close>

definition chip_step :: "('h \<Rightarrow> nat) \<Rightarrow> nat \<Rightarrow> ('h, 'z) sja_world_scheme \<Rightarrow> ('h, 'z) sja_world_scheme \<Rightarrow> bool" where
  "chip_step pend d w w' \<longleftrightarrow> ctl_frame d w w' \<and> pend (sja_hw w' d) \<le> pend (sja_hw w d)"

lemma hw_upd [simp]:
  "sja_hw (upd_dev d f w) = sja_hw w" "sja_hw (upd_tx_sem d g w) = sja_hw w" "sja_hw (upd_sock s h w) = sja_hw w"
  by (simp_all add: upd_dev_def upd_tx_sem_def upd_sock_def)

lemma chip_step_refl [simp]: "chip_step pend d w w"
  by (simp add: chip_step_def)

lemma chip_step_upd:
  "chip_step pend d w v \<Longrightarrow> chip_step pend d w (upd_dev d (\<lambda>dev. dev\<lparr>dev_state := st\<rparr>) v)"
  "chip_step pend d w v \<Longrightarrow> chip_step pend d w (upd_tx_sem d f v)"
  by (simp_all add: chip_step_def ctl_frame_upd)

lemma chip_step_wr:
  "irq_measure chip pend \<Longrightarrow> chip_step pend d w v \<Longrightarrow> chip_step pend d w (wr chip d r x v)"
  unfolding chip_step_def irq_measure_def
  by (simp add: ctl_frame_wr) (simp add: wr_def, meson order_trans)

lemma chip_step_rd:
  assumes "irq_measure chip pend" "r \<noteq> SJA_IR" "rd chip d r v = (x, v')" "chip_step pend d w v"
  shows "chip_step pend d w v'"
proof -
  have "sja_hw v' d = snd (read_reg chip r (sja_hw v d))" using assms(3) by (auto simp: rd_def split: prod.splits)
  then have "pend (sja_hw v' d) \<le> pend (sja_hw v d)" using assms(1,2) by (simp add: irq_measure_def)
  then show ?thesis using assms(4) ctl_frame_rd [OF assms(3)] by (auto simp: chip_step_def)
qed

lemma chip_step_rd_list:
  assumes "irq_measure chip pend" "SJA_IR \<notin> set rs" "rd_list chip d rs v = (xs, v')" "chip_step pend d w v"
  shows "chip_step pend d w v' \<and> length xs = length rs"
  using assms(2-)
proof (induction rs arbitrary: v xs)
  case (Cons r rs)
  obtain x v1 ys where r: "rd chip d r v = (x, v1)" "rd_list chip d rs v1 = (ys, v')" "xs = x # ys"
    using Cons.prems(2) by (auto split: prod.splits)
  have "chip_step pend d w v1"
    by (rule chip_step_rd [OF assms(1) _ r(1) Cons.prems(3)]) (use Cons.prems(1) in simp)
  then show ?case using Cons.IH [OF _ r(2)] Cons.prems(1) r(3) by simp
qed simp

lemma rx_effect:
  assumes chip: "irq_measure chip pend" and run: "rtcan_sja_rx_interrupt chip d skb w = (skb', w')"
    and stk: "length (rb_frame skb) = sizeof_rb_frame"
  shows "chip_step pend d w w' \<and> wf_skb skb'"
proof -
  obtain fir w1 where fir: "rd chip d SJA_FIR w = (fir, w1)" by fastforce
  define dlc where "dlc = fir AND SJA_FIR_DLC_MASK"
  define size where "size = (if dlc > 8 then 8 else unat dlc)"
  let ?eff = "fir AND SJA_FIR_EFF \<noteq> 0" and ?rtr = "fir AND SJA_FIR_RTR \<noteq> 0"
  define ids where "ids = (if ?eff then [SJA_ID1, SJA_ID2, SJA_ID3, SJA_ID4] else [SJA_ID1, SJA_ID2])"
  obtain xs w2 where ids_rd: "rd_list chip d ids w1 = (xs, w2)" by fastforce
  define can_id where "can_id = (if ?eff then CAN_EFF_FLAG OR push_bit 21 (ucast (xs ! 0)) OR push_bit 13 (ucast (xs ! 1))
      OR push_bit 5 (ucast (xs ! 2)) OR ucast (drop_bit 3 (xs ! 3))
    else push_bit 3 (ucast (xs ! 0)) OR ucast (drop_bit 5 (xs ! 1)) :: u32)"
  define regs where "regs = (if ?rtr then [] else map (if ?eff then SJA_DATA_EFF else SJA_DATA_SFF) [0..<size])"
  obtain dat w3 where dat: "rd_list chip d regs w2 = (dat, w3)" by fastforce
  define id' where "id' = (if ?rtr then can_id OR CAN_RTR_FLAG else can_id)"
  have "ids = ids" "regs = regs" by simp_all
  have no_ir: "SJA_FIR \<noteq> SJA_IR" "SJA_IR \<notin> set ids" "SJA_IR \<notin> set regs"
    by (auto simp: ids_def regs_def sja_regs)
  have st: "chip_step pend d w w3" "length dat = length regs"
    using chip_step_rd_list [OF chip no_ir(3) dat] chip_step_rd_list [OF chip no_ir(2) ids_rd]
      chip_step_rd [OF chip no_ir(1) fir chip_step_refl] by blast+
  have "\<not> bit can_id 30"
    unfolding can_id_def CAN_EFF_FLAG_def
    by (auto simp: bit_or_iff bit_push_bit_iff bit_ucast_iff bit_drop_bit_eq bit_u8_high)
  then have id0: "can_id AND CAN_RTR_FLAG = 0" by (simp add: rtr_bit)
  have "payload_len id' dlc = length dat"
    unfolding st(2) by (auto simp: payload_len_def id'_def id0 bit.conj_disj_distrib2 regs_def size_def word_less_nat_alt)
      (simp_all add: can_consts)
  moreover have "dlc AND RTCAN_HAS_NO_TIMESTAMP = dlc"
    by (simp add: dlc_def SJA_FIR_DLC_MASK_def RTCAN_HAS_NO_TIMESTAMP_def and.assoc)
  ultimately have wf: "wf_skb \<lparr>rb_frame_size = EMPTY_RB_FRAME_SIZE + length dat,
    rb_frame = set_rb_can_ifindex (of_nat (dev_ifindex (devs w3 d))) (memcpy_at (set_rb_can_id id' (set_rb_can_dlc dlc (rb_frame skb))) 6 dat)\<rparr>"
    by (intro build_skb(1) [OF stk]) simp_all
  have len: "(if ?rtr then 0 else size) = length dat" by (simp add: st(2) regs_def)
  have ids_eq: "(if ?eff then (let (ids, w') = rd_list chip d [SJA_ID1, SJA_ID2, SJA_ID3, SJA_ID4] w1
        in (CAN_EFF_FLAG OR push_bit 21 (ucast (ids ! 0)) OR push_bit 13 (ucast (ids ! 1))
              OR push_bit 5 (ucast (ids ! 2)) OR ucast (drop_bit 3 (ids ! 3)), w'))
     else (let (ids, w') = rd_list chip d [SJA_ID1, SJA_ID2] w1
        in (push_bit 3 (ucast (ids ! 0)) OR ucast (drop_bit 5 (ids ! 1)), w'))) = (can_id, w2)"
    using ids_rd by (simp add: ids_def can_id_def split: if_splits)
  have dat_eq: "(if ?rtr then ([], w2) else rd_list chip d (map (if ?eff then SJA_DATA_EFF else SJA_DATA_SFF) [0..<size]) w2) = (dat, w3)"
    using dat by (simp add: regs_def split: if_splits)
  have "skb' = \<lparr>rb_frame_size = EMPTY_RB_FRAME_SIZE + length dat,
    rb_frame = set_rb_can_ifindex (of_nat (dev_ifindex (devs w3 d))) (memcpy_at (set_rb_can_id id' (set_rb_can_dlc dlc (rb_frame skb))) 6 dat)\<rparr>"
      "w' = wr chip d SJA_CMR SJA_CMR_RRB w3"
    using run unfolding rtcan_sja_rx_interrupt_def fir Let_def prod.case dlc_def [symmetric] size_def [symmetric]
      ids_eq [unfolded Let_def] dat_eq len id'_def [symmetric] by simp_all
  then show ?thesis using wf st(1) by (simp add: chip_step_wr [OF chip])
qed

lemma err_sources_effect:
  assumes chip: "irq_measure chip pend" and run: "sja_err_sources chip d src v = (i, dat, v')" and v: "chip_step pend d w v"
  shows "chip_step pend d w v' \<and> length dat = 8 \<and> i AND CAN_RTR_FLAG = 0"
proof -
  obtain alc v1 ecc v2 where r: "rd chip d SJA_ALC v = (alc, v1)" "rd chip d SJA_ECC v = (ecc, v2)" by fastforce
  obtain ecc' v3 where r3: "rd chip d SJA_ECC v1 = (ecc', v3)" by fastforce
  have "SJA_ALC \<noteq> SJA_IR" "SJA_ECC \<noteq> SJA_IR" by (simp_all add: sja_regs)
  then have "chip_step pend d w v1" "chip_step pend d w v2" "chip_step pend d w v3"
    using chip_step_rd [OF chip _ _ v] chip_step_rd [OF chip] r r3 v by metis+
  then show ?thesis
    using run v r r3 by (auto simp: sja_err_sources_def can_consts bit.conj_disj_distrib2 split: if_splits)
qed

lemma err_state_effect:
  assumes chip: "irq_measure chip pend" and run: "sja_err_state chip d src status old v = (st, off, v')" and v: "chip_step pend d w v"
  shows "chip_step pend d w v'"
  using run v by (auto simp: sja_err_state_def Let_def chip_step_upd chip_step_wr [OF chip] split: if_splits)

lemma err_effect:
  assumes chip: "irq_measure chip pend" and run: "rtcan_sja_err_interrupt chip d skb src w = (skb', w')"
    and stk: "length (rb_frame skb) = sizeof_rb_frame"
  shows "chip_step pend d w w' \<and> wf_skb skb'"
proof -
  obtain status w1 txerr w2 rxerr w3 where r: "rd chip d SJA_SR w = (status, w1)" "rd chip d SJA_TXERR w1 = (txerr, w2)"
      "rd chip d SJA_RXERR w2 = (rxerr, w3)" by (metis prod.exhaust)
  obtain i dat w4 where src: "sja_err_sources chip d src w3 = (i, dat, w4)" by (metis prod_cases3)
  obtain st off w5 where state: "sja_err_state chip d src status (dev_state (devs w d)) w4 = (st, off, w5)" by (metis prod_cases3)
  have no_ir: "SJA_SR \<noteq> SJA_IR" "SJA_TXERR \<noteq> SJA_IR" "SJA_RXERR \<noteq> SJA_IR" by (simp_all add: sja_regs)
  have "chip_step pend d w w3"
    by (rule chip_step_rd [OF chip no_ir(3) r(3) chip_step_rd [OF chip no_ir(2) r(2) chip_step_rd [OF chip no_ir(1) r(1) chip_step_refl]]])
  note s4 = err_sources_effect [OF chip src this]
  then have s5: "chip_step pend d w w5" using err_state_effect [OF chip state] by blast
  define warn where "warn = (st \<noteq> dev_state (devs w d) \<and> (st = CAN_STATE_BUS_WARNING \<or> st = CAN_STATE_BUS_PASSIVE))"
  define id2 where "id2 = (if off then i OR CAN_ERR_BUSOFF else i)"
  define id3 where "id3 = (if warn then id2 OR CAN_ERR_PROT else id2)"
  define dat' where "dat' = (if warn then dat[1 := (if txerr > rxerr then CAN_ERR_CRTL_TX_WARNING else CAN_ERR_CRTL_RX_WARNING)] else dat)"
  have len: "length dat' = unat CAN_ERR_DLC" using s4 by (simp add: dat'_def CAN_ERR_DLC_def)
  have "id3 AND CAN_RTR_FLAG = 0"
    using s4 by (auto simp: id3_def id2_def bit.conj_disj_distrib2 can_consts)
  then have "payload_len id3 CAN_ERR_DLC = length dat'" by (simp add: payload_len_def len CAN_ERR_DLC_def)
  then have "wf_skb \<lparr>rb_frame_size = EMPTY_RB_FRAME_SIZE + length dat', rb_frame = set_rb_can_ifindex (of_nat (dev_ifindex (devs w5 d)))
      (memcpy_at (set_rb_can_id id3 (set_rb_can_dlc CAN_ERR_DLC (rb_frame skb))) 6 dat')\<rparr>"
    by (intro build_skb(1) [OF stk]) (simp_all add: CAN_ERR_DLC_def RTCAN_HAS_NO_TIMESTAMP_def)
  moreover have "skb' = \<lparr>rb_frame_size = EMPTY_RB_FRAME_SIZE + length dat', rb_frame = set_rb_can_ifindex (of_nat (dev_ifindex (devs w5 d)))
      (memcpy_at (set_rb_can_id id3 (set_rb_can_dlc CAN_ERR_DLC (rb_frame skb))) 6 dat')\<rparr>"
      "w' = upd_dev d (\<lambda>dev. dev\<lparr>dev_state := st\<rparr>) w5"
    using run unfolding rtcan_sja_err_interrupt_def r src state Let_def prod.case warn_def [symmetric] id2_def [symmetric]
      id3_def [symmetric] dat'_def [symmetric] len by simp_all
  ultimately show ?thesis using s5 by (simp add: chip_step_upd)
qed

lemma more_hw: "can_world.more w' = can_world.more w \<Longrightarrow> sja_hw w' = sja_hw w"
  by (cases w; cases w') simp

text \<open>A completed step of the handler.\<close>

definition turn_done :: "('h \<Rightarrow> nat) \<Rightarrow> nat \<Rightarrow> ('h, 'z) sja_world_scheme \<Rightarrow> ('h, 'z) sja_world_scheme \<Rightarrow> bool" where
  "turn_done pend d w w' \<longleftrightarrow> ctl_ready d w' \<and> bindings_of w' = bindings_of w \<and> pend (sja_hw w' d) \<le> pend (sja_hw w d)"

lemma turn_done_trans: "turn_done pend d w v \<Longrightarrow> turn_done pend d v u \<Longrightarrow> turn_done pend d w u"
  by (auto simp: turn_done_def)

lemma turn_done_chip: "ctl_ready d w \<Longrightarrow> chip_step pend d w w' \<Longrightarrow> turn_done pend d w w'"
  using ctl_ready_frame ctl_frame_inv(1) unfolding turn_done_def chip_step_def by blast

lemma turn_done_rcv:
  assumes "ctl_ready d w" "wf_skb skb"
  shows "\<exists>w' skb'. rtcan_rcv w d skb now = Inr (w', skb') \<and> turn_done pend d w w' \<and> length (rb_frame skb') = sizeof_rb_frame"
  using ctl_ready_rcv [OF assms, of now] more_hw by (fastforce simp: turn_done_def)

lemma turn_done_loopback:
  assumes "ctl_ready d w" "tx_socket (devs w d) \<noteq> None"
  shows "\<exists>w'. rtcan_loopback w d now = Inr w' \<and> turn_done pend d w w'"
  using ctl_ready_loopback [OF assms, of now] more_hw by (fastforce simp: turn_done_def)

lemma sja_turn_ok:
  assumes chip: "irq_measure chip pend" and rdy: "ctl_ready d w" and stk: "length (rb_frame skb) = sizeof_rb_frame"
  shows "\<exists>skb' w'. sja_turn chip clk d src skb w = Inr (skb', w') \<and> turn_done pend d w w' \<and>
    length (rb_frame skb') = sizeof_rb_frame"
proof -
  define w1 where "w1 = (if src AND SJA_IR_WUI \<noteq> 0 then upd_dev d (\<lambda>dev. dev\<lparr>dev_state := state_before_sleep dev\<rparr>) w else w)"
  have "ctl_frame d w (upd_dev d (\<lambda>dev. dev\<lparr>dev_state := state_before_sleep dev\<rparr>) w)"
    by (rule ctl_frameI [where st = "state_before_sleep (devs w d)" and sb = "state_before_sleep (devs w d)"
          and sem = "tx_sem (devs w d)"]) simp_all
  then have t1: "turn_done pend d w w1" by (intro turn_done_chip [OF rdy]) (simp add: w1_def chip_step_def)
  have "\<exists>skb' w'. sja_error_turn chip clk d src skb w1 = Inr (skb', w') \<and> turn_done pend d w1 w' \<and>
      length (rb_frame skb') = sizeof_rb_frame"
  proof -
    have r1: "ctl_ready d w1" using t1 by (simp add: turn_done_def)
    define w2 where "w2 = (if src AND SJA_IR_BEI \<noteq> 0 then w1\<lparr>bus_err_on := (bus_err_on w1)(d := bus_err_on w1 d - 1)\<rparr> else w1)"
    have "ctl_frame d w1 w2" using ctl_frame_refl [of d w1] unfolding ctl_frame_def w2_def by simp
    then have t2: "turn_done pend d w1 w2" by (intro turn_done_chip [OF r1]) (simp add: chip_step_def w2_def)
    obtain skb3 w3 where e: "rtcan_sja_err_interrupt chip d skb src w2 = (skb3, w3)" by fastforce
    have t3: "turn_done pend d w2 w3" "wf_skb skb3"
      using err_effect [OF chip e stk] turn_done_chip [of d w2 pend w3] t2 unfolding turn_done_def by blast+
    obtain w4 skb4 where "rtcan_rcv w3 d skb3 clk = Inr (w4, skb4)" "turn_done pend d w3 w4"
        "length (rb_frame skb4) = sizeof_rb_frame"
      using turn_done_rcv [OF _ t3(2)] t3(1) unfolding turn_done_def by blast
    moreover have "turn_done pend d w1 w1" using r1 by (simp add: turn_done_def)
    ultimately show ?thesis
      using t2 stk e turn_done_trans [OF t2 turn_done_trans [OF t3(1)]]
      unfolding sja_error_turn_def Let_def w2_def [symmetric] by simp
  qed
  then obtain skb2 w2 where e: "sja_error_turn chip clk d src skb w1 = Inr (skb2, w2)" "turn_done pend d w1 w2"
      "length (rb_frame skb2) = sizeof_rb_frame" by blast
  have "\<exists>w3. sja_tx_turn clk d src w2 = Inr w3 \<and> turn_done pend d w2 w3"
  proof -
    have r2: "ctl_ready d w2" using e(2) by (simp add: turn_done_def)
    have t: "turn_done pend d w2 (upd_tx_sem d rtdm_sem_up w2)" by (intro turn_done_chip [OF r2]) (simp add: chip_step_upd)
    have "\<exists>w'. rtcan_loopback (upd_tx_sem d rtdm_sem_up w2) d clk = Inr w' \<and> turn_done pend d w2 w'"
      if "tx_socket (devs (upd_tx_sem d rtdm_sem_up w2) d) \<noteq> None"
      using turn_done_loopback [OF _ that] t turn_done_trans unfolding turn_done_def by blast
    then show ?thesis using t r2 by (auto simp: sja_tx_turn_def Let_def turn_done_def)
  qed
  then obtain w3 where x: "sja_tx_turn clk d src w2 = Inr w3" "turn_done pend d w2 w3" by blast
  have "\<exists>skb' w'. sja_rx_turn chip clk d src skb2 w3 = Inr (skb', w') \<and> turn_done pend d w3 w' \<and>
      length (rb_frame skb') = sizeof_rb_frame"
  proof -
    have r3: "ctl_ready d w3" using x(2) by (simp add: turn_done_def)
    obtain skb4 w4 where rx: "rtcan_sja_rx_interrupt chip d skb2 w3 = (skb4, w4)" by fastforce
    have t4: "turn_done pend d w3 w4" "wf_skb skb4"
      using rx_effect [OF chip rx e(3)] turn_done_chip [OF r3] by auto
    obtain w5 skb5 where "rtcan_rcv w4 d skb4 clk = Inr (w5, skb5)" "turn_done pend d w4 w5"
        "length (rb_frame skb5) = sizeof_rb_frame"
      using turn_done_rcv [OF _ t4(2)] t4(1) unfolding turn_done_def by blast
    moreover have "turn_done pend d w3 w3" using r3 by (simp add: turn_done_def)
    ultimately show ?thesis using rx t4(1) e(3) turn_done_trans by (auto simp: sja_rx_turn_def)
  qed
  then show ?thesis
    using e x turn_done_trans [OF t1 turn_done_trans [OF e(2)]] turn_done_trans
    unfolding sja_turn_def w1_def [symmetric] Let_def by fastforce
qed

lemma sja_irq_loop_ok:
  assumes chip: "irq_measure chip pend"
  shows "ctl_ready d w \<Longrightarrow> length (rb_frame skb) = sizeof_rb_frame \<Longrightarrow> pend (sja_hw w d) < fuel \<Longrightarrow>
    \<exists>ret' w'. sja_irq_loop chip clk fuel d ret skb w = Inr (ret', w') \<and> ctl_ready d w' \<and> bindings_of w' = bindings_of w"
proof (induction fuel arbitrary: w skb ret)
  case (Suc fuel)
  obtain src w1 where ir: "rd chip d SJA_IR w = (src, w1)" by fastforce
  have fr: "ctl_frame d w w1" by (rule ctl_frame_rd [OF ir ctl_frame_refl])
  then have r1: "ctl_ready d w1" "bindings_of w1 = bindings_of w"
    using ctl_ready_frame [OF Suc.prems(1)] ctl_frame_inv(1) by auto
  show ?case
  proof (cases "src = 0")
    case False
    have "pend (sja_hw w1 d) < pend (sja_hw w d)"
      using ir False chip by (auto simp: rd_def irq_measure_def split: prod.splits) (metis fst_conv snd_conv)
    moreover obtain skb2 w2 where t: "sja_turn chip (clk fuel) d src skb w1 = Inr (skb2, w2)" "turn_done pend d w1 w2"
        "length (rb_frame skb2) = sizeof_rb_frame"
      using sja_turn_ok [OF chip r1(1) Suc.prems(2)] by blast
    ultimately have "\<exists>ret' w'. sja_irq_loop chip clk fuel d RTDM_IRQ_HANDLED skb2 w2 = Inr (ret', w') \<and> ctl_ready d w' \<and>
        bindings_of w' = bindings_of w2"
      using Suc.prems(3) by (intro Suc.IH) (auto simp: turn_done_def)
    then show ?thesis using ir t False r1(2) by (auto simp: turn_done_def)
  qed (use ir r1 in simp)
qed simp


section \<open>Witnesses\<close>

text \<open>The state of a CAN stack with SJA1000 chips in a given state.\<close>

definition with_sja :: "can_world \<Rightarrow> (nat \<Rightarrow> 'h) \<Rightarrow> 'h sja_world" where
  "with_sja w h = \<lparr>rtcan_devices = rtcan_devices w, devs = devs w, socks = socks w,
     rtcan_socket_list = rtcan_socket_list w, sja_hw = h, bus_err_on = (\<lambda>_. 1)\<rparr>"

lemma with_sja_inv:
  "can_inv (with_sja w h) = can_inv w" "registered (with_sja w h) d = registered w d"
  "queues (with_sja w h) q = queues w q" "bindings_of (with_sja w h) = bindings_of w"
  by (rule same_stack; simp add: with_sja_def)+

definition wire_frame :: can_frame where
  "wire_frame = \<lparr>frm_can_id = 0x123, frm_can_dlc = 2, frm_data = [0xAB, 0xCD, 0, 0, 0, 0, 0, 0]\<rparr>"

definition tx_regs :: "nat \<Rightarrow> u8" where
  "tx_regs = sja_hw (snd (rtcan_sja_start_xmit reg_chip 1 wire_frame (with_sja bound_socket (\<lambda>_ _. 0)))) 1"

lemma demo_xmit: "rtcan_sja_start_xmit reg_chip 1 wire_frame (with_sja bound_socket (\<lambda>_ _. 0))
    = (Inr 0, snd (rtcan_sja_start_xmit reg_chip 1 wire_frame (with_sja bound_socket (\<lambda>_ _. 0))))"
  by (simp add: rtcan_sja_start_xmit_def Let_def)

lemma wire_frame_wire: "frm_can_dlc wire_frame \<le> 15" "length (frm_data wire_frame) = 8"
    "wire_id (frm_can_id wire_frame) = frm_can_id wire_frame" "wire_size wire_frame = 2"
    "length (rb_frame zero_skb) = sizeof_rb_frame"
  by (simp_all add: wire_frame_def wire_id_def can_consts wire_size_def zero_skb_def)

lemma demo_wire: "\<forall>k \<in> {16..28}. sja_hw (with_sja bound_socket (\<lambda>_. tx_regs)) 0 k =
    sja_hw (snd (rtcan_sja_start_xmit reg_chip 1 wire_frame (with_sja bound_socket (\<lambda>_ _. 0)))) 1 k"
  by (simp add: with_sja_def tx_regs_def)

lemma demo_wire_msg: "wire_msg (devs (with_sja bound_socket (\<lambda>_. tx_regs)) 0) wire_frame None = demo_msg None"
proof -
  have "dev_ifindex (devs bound_socket 0) = 1" by code_simp
  then show ?thesis
    unfolding wire_msg_def wire_frame_wire(3,4)
    by (simp add: with_sja_def wire_frame_def demo_msg_def can_consts)
qed

theorem sja_wire_roundtrip_witness:
  "\<exists>skb' v'. rtcan_sja_rx_interrupt reg_chip 0 zero_skb (with_sja bound_socket (\<lambda>_. tx_regs)) = (skb', v') \<and>
     msg_of skb' None = demo_msg None"
  using sja_wire_roundtrip [OF demo_xmit wire_frame_wire(1-3) demo_wire wire_frame_wire(5)]
    demo_wire_msg [unfolded wire_msg_def wire_frame_wire(3)] by auto

theorem sja_wire_delivery_witness:
  "\<exists>skb' v'. sja_rx_turn reg_chip 5 0 SJA_IR_RI zero_skb (with_sja bound_socket (\<lambda>_. tx_regs)) = Inr (skb', v') \<and>
     sock_queue (socks v' 7) [demo_msg None]"
proof -
  let ?v = "with_sja bound_socket (\<lambda>_. tx_regs)"
  obtain skb' v' where r: "sja_rx_turn reg_chip 5 0 SJA_IR_RI zero_skb ?v = Inr (skb', v')" "rtcan_socket_list v' = [7]"
      "queues v' (\<lambda>s. (q_add (wire_msg (devs ?v 0) wire_frame (stamp_for (socks ?v s) 5)) ^^ hits ?v 0 (wire_id (frm_can_id wire_frame)) s) [])"
    using sja_wire_delivery [OF demo_xmit wire_frame_wire(1,2) demo_wire wire_frame_wire(5), of "\<lambda>_. []" 5]
      bound_socket_queues(1-3) bound_socket_reach(3) unfolding with_sja_inv by (auto simp: with_sja_def)
  have "hits ?v 0 0x123 7 = 1"
    by (simp add: hits_def with_sja_inv bound_socket_queues in_range_def zero_filter_def rtcan_accept_msg_def can_consts)
  moreover have "q_add (demo_msg None) [] = [demo_msg None]"
    using demo_msg_wf(2) [of None] by (simp add: q_add_def qbytes_def RTCAN_RXBUF_SIZE_def)
  moreover have "stamp_for (socks ?v 7) 5 = None"
    using bound_socket_queues(6) by (simp add: stamp_for_def with_sja_def)
  moreover have "wire_id (frm_can_id wire_frame) = 0x123" unfolding wire_frame_wire(3) by (simp add: wire_frame_def)
  ultimately show ?thesis using r demo_wire_msg by (auto simp: queues_def)
qed

text \<open>A chip with a list of events to report in its interrupt register.\<close>

definition event_chip :: "(u8 list \<times> (nat \<Rightarrow> u8)) rtcan_sja1000" where
  "event_chip = \<lparr>read_reg = (\<lambda>r (ir, h). if r = SJA_IR then (case ir of [] \<Rightarrow> (0, [], h) | x # xs \<Rightarrow> (x, xs, h)) else (h r, ir, h)),
     write_reg = (\<lambda>r v (ir, h). (ir, h(r := v))), irq_ack = None, ocr = 0, cdr = 0\<rparr>"


end
