(* ===== verification/Can_Sja_Modes.thy ===== *)
theory Can_Sja_Modes
  imports Can_Sja_Wire
begin

text \<open>
  Configuration and operating modes of the SJA1000 driver: the bit timing registers, the device
  requests on this driver, sleep and wake-up, bus-off, and the faults of the bus error handling.
\<close>

section \<open>The bit timing registers\<close>

text \<open>The fields of the registers, as the controller reads them.\<close>

definition btr_brp :: "u8 \<Rightarrow> nat" where "btr_brp btr0 = unat (btr0 AND 0x3f) + 1"
definition btr_sjw :: "u8 \<Rightarrow> nat" where "btr_sjw btr0 = unat (drop_bit 6 btr0) + 1"
definition btr_tseg1 :: "u8 \<Rightarrow> nat" where "btr_tseg1 btr1 = unat (btr1 AND 0xf) + 1"
definition btr_tseg2 :: "u8 \<Rightarrow> nat" where "btr_tseg2 btr1 = unat (drop_bit 4 btr1 AND 7) + 1"

lemma field_masks: "(0x3f :: 'a :: len word) = mask 6" "(0xf :: 'a word) = mask 4" "(7 :: 'a word) = mask 3"
    "(0xC0 :: 'a word) = push_bit 6 (mask 2)" "(0x70 :: 'a word) = push_bit 4 (mask 3)"
  by (simp_all add: mask_eq_exp_minus_1 push_bit_eq_mult)

lemma btr0_fields:
  fixes a b :: u32
  defines "r \<equiv> ucast ((a AND 0x3f) OR (push_bit 6 b AND 0xC0)) :: u8"
  shows "r AND 0x3f = ucast (a AND 0x3f)" "drop_bit 6 r = ucast (b AND mask 2)"
  unfolding r_def field_masks
  by (rule bit_word_eqI; auto simp: bit_or_iff bit_and_iff bit_push_bit_iff bit_ucast_iff bit_drop_bit_eq bit_mask_iff)+

lemma btr1_fields:
  fixes p q s :: u32
  defines "r \<equiv> ucast ((p AND 0xf) OR (push_bit 4 q AND 0x70) OR push_bit 7 (s AND 1)) :: u8"
  shows "r AND 0xf = ucast (p AND 0xf)" "drop_bit 4 r AND 7 = ucast (q AND 7)"
  unfolding r_def field_masks
  by (rule bit_word_eqI; auto simp: bit_or_iff bit_and_iff bit_push_bit_iff bit_ucast_iff bit_drop_bit_eq bit_mask_iff bit_1_iff)+

lemma unat_field:
  assumes "1 \<le> unat (x :: u32)" "unat x \<le> 2 ^ k" "k \<le> 8"
  shows "unat (ucast ((x - 1) AND mask k) :: u8) + 1 = unat x"
proof -
  have "1 \<le> x" using assms(1) by (simp add: word_le_nat_alt)
  then have "unat (x - 1) = unat x - 1" by (simp add: unat_sub)
  then have "unat (x - 1) < 2 ^ k" using assms by linarith
  moreover have "(2 :: nat) ^ k \<le> 2 ^ 8" using assms(3) by (intro power_increasing) auto
  ultimately show ?thesis
    using assms(1) \<open>unat (x - 1) = unat x - 1\<close>
    by (simp add: unsigned_ucast_eq unsigned_take_bit_eq take_bit_nat_eq_self flip: take_bit_eq_mask)
qed

text \<open>The timing values that fit the registers.\<close>

definition sja_fits :: "can_bittime_std \<Rightarrow> bool" where
  "sja_fits bt \<longleftrightarrow> 1 \<le> unat (brp bt) \<and> unat (brp bt) \<le> 64 \<and> 1 \<le> unat (sjw bt) \<and> unat (sjw bt) \<le> 4 \<and>
     1 \<le> unat (prop_seg bt) + unat (phase_seg1 bt) \<and> unat (prop_seg bt) + unat (phase_seg1 bt) \<le> 16 \<and>
     1 \<le> unat (phase_seg2 bt) \<and> unat (phase_seg2 bt) \<le> 8"

lemma btr_encode:
  assumes "sja_fits bt"
  shows "btr_brp (sja_btr0 bt) = unat (brp bt)" "btr_sjw (sja_btr0 bt) = unat (sjw bt)"
    "btr_tseg1 (sja_btr1 bt) = unat (prop_seg bt) + unat (phase_seg1 bt)"
    "btr_tseg2 (sja_btr1 bt) = unat (phase_seg2 bt)"
proof -
  have u: "unat (ucast x :: u32) = unat x" for x :: u8
    using unsigned_less [of x, where 'a = nat] by (simp add: unsigned_ucast_eq take_bit_nat_eq_self)
  have sum: "unat (ucast (prop_seg bt) + ucast (phase_seg1 bt) :: u32) = unat (prop_seg bt) + unat (phase_seg1 bt)"
    using assms by (simp add: unat_word_ariths(1) u sja_fits_def)
  show "btr_brp (sja_btr0 bt) = unat (brp bt)"
    using assms unat_field [of "brp bt" 6] unfolding btr_brp_def sja_btr0_def btr0_fields(1)
    by (simp add: field_masks sja_fits_def)
  show "btr_sjw (sja_btr0 bt) = unat (sjw bt)"
    using assms unat_field [of "ucast (sjw bt)" 2] unfolding btr_sjw_def sja_btr0_def btr0_fields(2)
    by (simp add: sja_fits_def u)
  show "btr_tseg1 (sja_btr1 bt) = unat (prop_seg bt) + unat (phase_seg1 bt)"
    using assms unat_field [of "ucast (prop_seg bt) + ucast (phase_seg1 bt)" 4] sum
    unfolding btr_tseg1_def sja_btr1_def btr1_fields(1) by (simp add: field_masks sja_fits_def)
  show "btr_tseg2 (sja_btr1 bt) = unat (phase_seg2 bt)"
    using assms unat_field [of "ucast (phase_seg2 bt)" 3] unfolding btr_tseg2_def sja_btr1_def btr1_fields(2)
    by (simp add: field_masks sja_fits_def u)
qed

text \<open>A request on a stopped device: only the bit timing is touched.\<close>

lemma same_state:
  assumes "dev_state (devs w d) = st"
  shows "upd_dev d (\<lambda>dev. dev\<lparr>dev_state := st\<rparr>) w = w"
proof -
  have "(devs w d)\<lparr>dev_state := st\<rparr> = devs w d" using assms by (cases "devs w d") simp
  then show ?thesis by (cases w) (simp add: upd_dev_def fun_upd_idem)
qed

lemma sja_do_set_bit_time: "do_set_bit_time (sja_ops chip tick) = Some (rtcan_sja_set_bit_time chip)"
  by (simp add: sja_ops_def)

lemma prepare_baudrate:
  "prepare_bit_time (sja_ops chip tick) clock (SIOCSCANBAUDRATE rate) garbage =
     kbind (rtcan_calc_bit_time clock rate) (\<lambda>r. Inr (Some (case r of Inr std \<Rightarrow> CAN_BITTIME_STD std | Inl e \<Rightarrow> garbage)))"
  by (simp add: prepare_bit_time_def sja_do_set_bit_time)

lemma stopped_request:
  assumes "dev_state (devs w d) = CAN_STATE_STOPPED"
    and "rtcan_calc_bit_time (can_sys_clock (devs w d)) rate = Inr res"
    and "buf = (case res of Inr std \<Rightarrow> CAN_BITTIME_STD std | Inl e \<Rightarrow> garbage)"
  shows "rtcan_raw_ioctl_dev_set (sja_ops chip tick) w d (SIOCSCANBAUDRATE rate) garbage =
    (case rtcan_sja_set_bit_time chip d buf w of
       (r, w1) \<Rightarrow> Inr (r, if r = Inr 0 then upd_dev d (\<lambda>dev. dev\<lparr>baudrate := rate, bit_time := buf\<rparr>) w1 else w1))"
proof -
  have "rtcan_sja_get_state chip d w = (CAN_STATE_STOPPED, w)"
    using assms(1) by (simp add: rtcan_sja_get_state_def rtcan_sja_is_operating_def STATE_OPERATING_def)
  moreover have "upd_dev d (\<lambda>dev. dev\<lparr>dev_state := CAN_STATE_STOPPED\<rparr>) w = w"
    by (rule same_state [OF assms(1)])
  ultimately have "refresh_state (sja_ops chip tick) w d = w"
    by (simp add: refresh_state_def sja_ops_def)
  then show ?thesis
    unfolding rtcan_raw_ioctl_dev_set_def prepare_baudrate assms(2,3)
    by (simp add: assms(1) CAN_STATE_OPERATING_iff dev_set_body_def call_set_bit_time_def sja_do_set_bit_time split: prod.splits)
qed

text \<open>The rate that the registers give.\<close>

definition btr_rate :: "u32 \<Rightarrow> u8 \<Rightarrow> u8 \<Rightarrow> int" where
  "btr_rate clock btr0 btr1 = uint clock div int (btr_brp btr0 * (1 + btr_tseg1 btr1 + btr_tseg2 btr1))"

lemma calc_fits:
  assumes "bt_range clock rate" "rtcan_calc_bit_time clock rate = Inr (Inr bt)"
  shows "sja_fits bt" "10 * \<bar>uint rate - btr_rate clock (sja_btr0 bt) (sja_btr1 bt)\<bar> \<le> uint rate"
proof -
  obtain b where bt: "1 \<le> brp bt" "brp bt \<le> 64" "prop_seg bt = 0" "1 \<le> phase_seg1 bt" "phase_seg1 bt \<le> 16"
      "1 \<le> phase_seg2 bt" "phase_seg2 bt \<le> 8" "sjw bt = 1 \<or> sjw bt = 2"
    and b: "custom_baudrate clock (CAN_BITTIME_STD bt) = Inr b" "10 * \<bar>uint rate - uint b\<bar> \<le> uint rate"
    using calc_bit_time_ok [OF assms(1)] assms(2) by auto
  show fits: "sja_fits bt" using bt by (auto simp: sja_fits_def word_le_nat_alt)
  define q where "q = 1 + unat (phase_seg1 bt) + unat (phase_seg2 bt)"
  have q: "(1 + ucast (prop_seg bt) + ucast (phase_seg1 bt) + ucast (phase_seg2 bt) :: u32) = of_nat q"
    by (simp add: bt(3) q_def)
  have qb: "q \<le> 25" "unat (brp bt) \<le> 64" "0 < q * unat (brp bt)"
    using bt by (auto simp: q_def word_le_nat_alt)
  then have "q * unat (brp bt) \<le> 25 * 64" by (intro mult_mono) auto
  then have "uint (of_nat (q * unat (brp bt)) :: u32) = int (q * unat (brp bt))"
    by (simp add: unsigned_of_nat take_bit_nat_eq_self del: of_nat_mult)
  moreover have "brp bt * of_nat q = of_nat (q * unat (brp bt))" by simp
  ultimately have p: "uint (brp bt * of_nat q) = int (q * unat (brp bt))" by (simp only:)
  have "brp bt * of_nat q \<noteq> 0"
  proof
    assume "brp bt * of_nat q = 0"
    with p have "int (q * unat (brp bt)) = 0" by (simp only: unsigned_0)
    with qb(3) show False by (simp only: of_nat_eq_0_iff)
  qed
  then have "uint b = uint clock div int (q * unat (brp bt))"
    using b(1) p by (auto simp: custom_baudrate_def q Let_def uint_div split: if_splits)
  then show "10 * \<bar>uint rate - btr_rate clock (sja_btr0 bt) (sja_btr1 bt)\<bar> \<le> uint rate"
    using b(2) by (simp add: btr_rate_def btr_encode [OF fits] bt(3) q_def mult.commute)
qed

lemma programmed:
  assumes "dev_state (devs w d) = CAN_STATE_STOPPED"
    and "rtcan_calc_bit_time (can_sys_clock (devs w d)) rate = Inr res"
    and "CAN_BITTIME_STD bt = (case res of Inr std \<Rightarrow> CAN_BITTIME_STD std | Inl e \<Rightarrow> garbage)"
  obtains w' where "rtcan_raw_ioctl_dev_set (sja_ops reg_chip tick) w d (SIOCSCANBAUDRATE rate) garbage = Inr (Inr 0, w')"
    "sja_hw w' d SJA_BTR0 = sja_btr0 bt" "sja_hw w' d SJA_BTR1 = sja_btr1 bt"
    "baudrate (devs w' d) = rate" "bit_time (devs w' d) = CAN_BITTIME_STD bt"
proof -
  define w' where "w' = upd_dev d (\<lambda>dev. dev\<lparr>baudrate := rate, bit_time := CAN_BITTIME_STD bt\<rparr>)
    (wr reg_chip d SJA_BTR1 (sja_btr1 bt) (wr reg_chip d SJA_BTR0 (sja_btr0 bt) w))"
  have "rtcan_raw_ioctl_dev_set (sja_ops reg_chip tick) w d (SIOCSCANBAUDRATE rate) garbage = Inr (Inr 0, w')"
    unfolding stopped_request [OF assms] by (simp add: rtcan_sja_set_bit_time_def w'_def)
  moreover have "sja_hw w' d SJA_BTR0 = sja_btr0 bt" "sja_hw w' d SJA_BTR1 = sja_btr1 bt"
      "baudrate (devs w' d) = rate" "bit_time (devs w' d) = CAN_BITTIME_STD bt"
    by (simp_all add: w'_def sja_regs)
  ultimately show thesis by (rule that)
qed

text \<open>An error interrupt with the bus-off status.\<close>

lemma rd_devs: "rd chip d r w = (v, w') \<Longrightarrow> devs w' = devs w \<and> v = fst (read_reg chip r (sja_hw w d))"
  by (auto simp: rd_def split: prod.splits)

lemma err_sources_devs: "sja_err_sources chip d src w = (i, dat, w') \<Longrightarrow> devs w' = devs w"
  by (auto simp: sja_err_sources_def Let_def split: if_splits prod.splits dest!: rd_devs)

lemma err_busoff:
  assumes run: "rtcan_sja_err_interrupt chip d skb src w = (skb', w')" and ei: "src AND SJA_IR_EI \<noteq> 0"
    and bs: "fst (read_reg chip SJA_SR (sja_hw w d)) AND SJA_SR_BS \<noteq> 0"
  shows "dev_state (devs w' d) = CAN_STATE_BUS_OFF \<and> tx_sem (devs w' d) = rtdm_sem_destroy (tx_sem (devs w d))"
proof -
  obtain status w1 txerr w2 rxerr w3 where r: "rd chip d SJA_SR w = (status, w1)" "rd chip d SJA_TXERR w1 = (txerr, w2)"
      "rd chip d SJA_RXERR w2 = (rxerr, w3)" by (metis prod.exhaust)
  obtain i dat w4 where src: "sja_err_sources chip d src w3 = (i, dat, w4)" by (metis prod_cases3)
  have "devs w4 = devs w" using rd_devs [OF r(1)] rd_devs [OF r(2)] rd_devs [OF r(3)] err_sources_devs [OF src] by simp
  moreover have state: "sja_err_state chip d src status (dev_state (devs w d)) w4 =
      (CAN_STATE_BUS_OFF, True, upd_tx_sem d rtdm_sem_destroy (wr chip d SJA_IER SJA_IER_EIE w4))"
    using ei bs rd_devs [OF r(1)] by (simp add: sja_err_state_def)
  ultimately show ?thesis
    using run unfolding rtcan_sja_err_interrupt_def r src state Let_def prod.case
    by (auto simp: upd_tx_sem_def)
qed

lemma counted_state:
  assumes "counted dev dev'"
  shows "dev_state dev' = dev_state dev" "tx_sem dev' = tx_sem dev"
  using assms by (cases dev; cases dev'; simp add: counted_def)+

text \<open>The wake-up interrupt, served while a start waits for it.\<close>

definition serve_wakeup :: "u64 \<Rightarrow> nat \<Rightarrow> rtcan_skb \<Rightarrow> nat \<Rightarrow> (nat \<Rightarrow> u8) sja_world \<Rightarrow> (nat \<Rightarrow> u8) sja_world" where
  "serve_wakeup clk d skb k w = (case sja_turn reg_chip clk d SJA_IR_WUI skb w of Inr (_, w') \<Rightarrow> w' | Inl _ \<Rightarrow> w)"

section \<open>The properties\<close>

text \<open>
  On a stopped SJA1000 a request for a baud rate that the calculation can meet succeeds and records
  the rate, and the two bit timing registers, read back field by field, give a rate within a tenth of
  the requested one.
\<close>

theorem sja_baudrate_programmed:
  assumes "dev_state (devs w d) = CAN_STATE_STOPPED" "bt_range (can_sys_clock (devs w d)) rate"
    and "rtcan_calc_bit_time (can_sys_clock (devs w d)) rate = Inr (Inr bt)"
  shows "\<exists>w'. rtcan_raw_ioctl_dev_set (sja_ops reg_chip tick) w d (SIOCSCANBAUDRATE rate) garbage = Inr (Inr 0, w')
    \<and> baudrate (devs w' d) = rate
    \<and> 10 * \<bar>uint rate - btr_rate (can_sys_clock (devs w d)) (sja_hw w' d SJA_BTR0) (sja_hw w' d SJA_BTR1)\<bar> \<le> uint rate"
  by (rule programmed [OF assms(1,3), of bt garbage]) (use calc_fits(2) [OF assms(2,3)] in auto)

text \<open>
  A baud rate that the calculation rejects is not reported: on a stopped SJA1000 the request returns
  0, records the requested rate and programs the bit timing registers from the uninitialised local
  variable of the request handler, whatever it holds.
\<close>

theorem sja_baudrate_edom_ignored:
  assumes "dev_state (devs w d) = CAN_STATE_STOPPED"
    and "rtcan_calc_bit_time (can_sys_clock (devs w d)) rate = Inr (Inl EDOM)"
  shows "\<exists>w'. rtcan_raw_ioctl_dev_set (sja_ops reg_chip tick) w d (SIOCSCANBAUDRATE rate) (CAN_BITTIME_STD stack)
      = Inr (Inr 0, w')
    \<and> baudrate (devs w' d) = rate \<and> bit_time (devs w' d) = CAN_BITTIME_STD stack
    \<and> sja_hw w' d SJA_BTR0 = sja_btr0 stack \<and> sja_hw w' d SJA_BTR1 = sja_btr1 stack"
  by (rule programmed [OF assms, of stack "CAN_BITTIME_STD stack"]) auto


text \<open>
  A bus-off reported by an error interrupt without a bus error is handled: the error part of the
  handler returns, the device is in the bus-off state and the transmission semaphore is destroyed, so
  that no sender waits for a controller that is off the bus.
\<close>

theorem sja_bus_off:
  assumes chip: "irq_measure chip pend" and rdy: "ctl_ready d w" and stk: "length (rb_frame skb) = sizeof_rb_frame"
    and src: "src AND SJA_IR_EI \<noteq> 0" "src AND SJA_IR_BEI = 0"
    and bs: "fst (read_reg chip SJA_SR (sja_hw w d)) AND SJA_SR_BS \<noteq> 0"
  shows "\<exists>skb' w'. sja_error_turn chip clk d src skb w = Inr (skb', w') \<and> dev_state (devs w' d) = CAN_STATE_BUS_OFF
    \<and> tx_sem (devs w' d) = rtdm_sem_destroy (tx_sem (devs w d)) \<and> ctl_ready d w'"
proof -
  obtain skb1 w1 where e: "rtcan_sja_err_interrupt chip d skb src w = (skb1, w1)" by fastforce
  have r1: "ctl_ready d w1" "wf_skb skb1"
    using err_effect [OF chip e stk] ctl_ready_frame [OF rdy] by (auto simp: chip_step_def)
  obtain q where q: "queues w1 q" "can_inv w1" "registered w1 d" using r1(1) by (auto simp: ctl_ready_def)
  obtain w2 skb2 where r: "rtcan_rcv w1 d skb1 clk = Inr (w2, skb2)" "walked (set (rtcan_socket_list w1)) d w1 w2"
      "\<exists>q'. queues w2 q'"
    using rcv_effect [OF q(2,3,1) r1(2)] by blast
  have "counted (devs w1 d) (devs w2 d)" using r(2) by (simp add: walked_def)
  then have "dev_state (devs w2 d) = dev_state (devs w1 d)" "tx_sem (devs w2 d) = tx_sem (devs w1 d)"
    by (simp_all only: counted_state)
  moreover have "src AND (SJA_IR_EI OR x) \<noteq> 0" for x
  proof -
    have "src AND SJA_IR_EI = (src AND (SJA_IR_EI OR x)) AND SJA_IR_EI"
      by (rule bit_word_eqI) (auto simp: bit_and_iff bit_or_iff)
    then show ?thesis using src(1) by (metis bit.conj_zero_left)
  qed
  then have "src AND (SJA_IR_EI OR SJA_IR_DOI OR SJA_IR_EPI OR SJA_IR_ALI OR SJA_IR_BEI) \<noteq> 0"
    by (metis or.assoc)
  then have "sja_error_turn chip clk d src skb w = Inr (skb2, w2)"
    using src(2) by (simp add: sja_error_turn_def e r(1))
  ultimately show ?thesis using err_busoff [OF e src(1) bs] ctl_ready_walked [OF r1(1) r(2)] r(3) by auto
qed

text \<open>
  A bus-off that comes with a bus error is lost once the bus error reports are used up: with
  \<open>bus_err_on\<close> below 2 the handler skips the whole error handling, so that the device keeps its state and
  the transmission semaphore stays alive, whatever the status register says.
\<close>

theorem sja_bus_off_lost:
  assumes "sint (bus_err_on w d) < 2"
  shows "sja_turn chip clk d (SJA_IR_EI OR SJA_IR_BEI) skb w =
    Inr (skb, w\<lparr>bus_err_on := (bus_err_on w)(d := bus_err_on w d - 1)\<rparr>)"
  using assms by (simp add: sja_turn_def sja_error_turn_def sja_tx_turn_def sja_rx_turn_def sja_bits)

text \<open>
  Sleep and wake-up: an operating controller that is put to sleep is sleeping with the sleep mode
  bit set; a start then clears the bit, and with the wake-up interrupt served in the meantime the
  device is back in the state it had before, with the mode register of its control mode.
\<close>

theorem sja_sleep_wake:
  assumes "dev_state (devs w d) = st" "STATE_OPERATING st" "st \<noteq> CAN_STATE_SLEEPING"
    and "sja_hw w d SJA_MOD AND SJA_MOD_RM = 0"
  shows "\<exists>w1 w2. rtcan_sja_set_mode reg_chip env d CAN_MODE_SLEEP w = (Inr 0, w1)
    \<and> dev_state (devs w1 d) = CAN_STATE_SLEEPING \<and> sja_hw w1 d SJA_MOD = sja_hw w d SJA_MOD OR SJA_MOD_SM
    \<and> rtcan_sja_set_mode reg_chip (serve_wakeup clk d skb) d CAN_MODE_START w1 = (Inr 0, w2)
    \<and> dev_state (devs w2 d) = st \<and> sja_hw w2 d SJA_MOD = sja_mod_reg (ctrl_mode (devs w d))"
  using assms
  by (simp add: rtcan_sja_set_mode_def rtcan_sja_is_operating_def rtcan_sja_mode_start_def serve_wakeup_def sja_turn_def
      sja_error_turn_def sja_tx_turn_def sja_rx_turn_def sja_bits upd_dev_def Let_def)

section \<open>Witnesses\<close>

definition sja_demo :: "can_state \<Rightarrow> (nat \<Rightarrow> u8) sja_world" where
  "sja_demo st = upd_dev 0 (\<lambda>dev. dev\<lparr>dev_state := st, can_sys_clock := 8000000\<rparr>) (with_sja bound_socket (\<lambda>_ _. 0))"

definition demo_bt :: can_bittime_std where
  "demo_bt = \<lparr>brp = 1, prop_seg = 0, phase_seg1 = 13, phase_seg2 = 2, sjw = 1, sam = 0\<rparr>"

lemma demo_calc: "rtcan_calc_bit_time 8000000 500000 = Inr (Inr demo_bt)"
    "rtcan_calc_bit_time 8000000 5000000 = Inr (Inl EDOM)"
  by code_simp+

lemma sja_demo_dev: "dev_state (devs (sja_demo st) 0) = st" "can_sys_clock (devs (sja_demo st) 0) = 8000000"
    "sja_hw (sja_demo st) 0 r = 0"
  by (simp_all add: sja_demo_def) (simp add: with_sja_def)

theorem sja_baudrate_programmed_witness:
  "\<exists>w'. rtcan_raw_ioctl_dev_set (sja_ops reg_chip (\<lambda>_ h. h)) (sja_demo CAN_STATE_STOPPED) 0 (SIOCSCANBAUDRATE 500000)
      (CAN_BITTIME_OTHER 7) = Inr (Inr 0, w')
    \<and> baudrate (devs w' 0) = 500000
    \<and> 10 * \<bar>500000 - btr_rate 8000000 (sja_hw w' 0 SJA_BTR0) (sja_hw w' 0 SJA_BTR1)\<bar> \<le> 500000"
  using sja_baudrate_programmed [of "sja_demo CAN_STATE_STOPPED" 0 500000 demo_bt "\<lambda>_ h. h" "CAN_BITTIME_OTHER 7"]
    demo_calc(1) unfolding sja_demo_dev by (simp add: bt_range_def)

theorem sja_baudrate_edom_ignored_witness:
  "\<exists>w'. rtcan_raw_ioctl_dev_set (sja_ops reg_chip (\<lambda>_ h. h)) (sja_demo CAN_STATE_STOPPED) 0 (SIOCSCANBAUDRATE 5000000)
      (CAN_BITTIME_STD demo_bt) = Inr (Inr 0, w')
    \<and> baudrate (devs w' 0) = 5000000 \<and> bit_time (devs w' 0) = CAN_BITTIME_STD demo_bt
    \<and> sja_hw w' 0 SJA_BTR0 = sja_btr0 demo_bt \<and> sja_hw w' 0 SJA_BTR1 = sja_btr1 demo_bt"
  using sja_baudrate_edom_ignored [of "sja_demo CAN_STATE_STOPPED" 0 5000000 "\<lambda>_ h. h" demo_bt]
    demo_calc(2) unfolding sja_demo_dev by simp


theorem sja_bus_off_witness:
  "\<exists>skb' w'. sja_error_turn event_chip 5 0 SJA_IR_EI zero_skb (with_sja bound_socket (\<lambda>_. ([], \<lambda>_. SJA_SR_BS))) = Inr (skb', w')
    \<and> dev_state (devs w' 0) = CAN_STATE_BUS_OFF"
proof -
  let ?w = "with_sja bound_socket (\<lambda>_. ([] :: u8 list, \<lambda>_ :: nat. SJA_SR_BS))"
  have "irq_measure event_chip (length \<circ> fst)"
    by (auto simp: irq_measure_def event_chip_def split: list.splits)
  moreover have "tx_socket (devs bound_socket 0) = None" by code_simp
  then have "ctl_ready 0 ?w"
    using bound_socket_queues(1-3) by (auto simp: ctl_ready_def with_sja_inv) (simp_all add: with_sja_def)
  moreover have "fst (read_reg event_chip SJA_SR (sja_hw ?w 0)) AND SJA_SR_BS \<noteq> 0"
    by (simp add: event_chip_def with_sja_def sja_regs sja_bits)
  moreover have "SJA_IR_EI AND SJA_IR_EI \<noteq> 0" "SJA_IR_EI AND SJA_IR_BEI = 0" by (simp_all add: sja_bits)
  ultimately show ?thesis
    using sja_bus_off [OF _ _ wire_frame_wire(5), of event_chip "length \<circ> fst" 0 ?w SJA_IR_EI 5] by blast
qed

theorem sja_bus_off_lost_witness:
  "sja_turn reg_chip 5 0 (SJA_IR_EI OR SJA_IR_BEI) zero_skb (with_sja bound_socket (\<lambda>_ _. SJA_SR_BS)) =
    Inr (zero_skb, (with_sja bound_socket (\<lambda>_ _. SJA_SR_BS))\<lparr>bus_err_on := (\<lambda>_. 1)(0 := 0)\<rparr>)"
  using sja_bus_off_lost [of "with_sja bound_socket (\<lambda>_ _. SJA_SR_BS)" 0 reg_chip 5 zero_skb] by (simp add: with_sja_def)

theorem sja_sleep_wake_witness:
  "\<exists>w1 w2. rtcan_sja_set_mode reg_chip (\<lambda>_ w. w) 0 CAN_MODE_SLEEP (sja_demo CAN_STATE_BUS_WARNING) = (Inr 0, w1)
    \<and> dev_state (devs w1 0) = CAN_STATE_SLEEPING \<and> sja_hw w1 0 SJA_MOD = SJA_MOD_SM
    \<and> rtcan_sja_set_mode reg_chip (serve_wakeup 5 0 zero_skb) 0 CAN_MODE_START w1 = (Inr 0, w2)
    \<and> dev_state (devs w2 0) = CAN_STATE_BUS_WARNING"
  using sja_sleep_wake [of "sja_demo CAN_STATE_BUS_WARNING" 0 CAN_STATE_BUS_WARNING "\<lambda>_ w. w" 5 zero_skb]
  unfolding sja_demo_dev by (auto simp: STATE_OPERATING_def)

end
