(* ===== verification/Can_Mscan_Wire.thy ===== *)
theory Can_Mscan_Wire
  imports Can_Mscan Can_Sja_Modes
begin

text \<open>
  Properties of the MSCAN driver: the register image of a frame, the interrupt handler, the waits for
  the chip, the error status, the sleep mode, the initialisation.
\<close>

section \<open>A chip as a register file\<close>

definition reg_file :: "(mscan_regs \<Rightarrow> u8) mscan_chip" where
  "reg_file = \<lparr>ms_read = (\<lambda>r h. (h r, h)), ms_write = (\<lambda>r v h. h(r := v))\<rparr>"

definition regs_of :: "('h, 'z) mscan_world_scheme \<Rightarrow> nat \<Rightarrow> 'h" where
  "regs_of w d = ms_hw w (base_addr w d)"

lemma mrd_reg_file [simp]: "mrd reg_file d r w = (regs_of w d r, w)"
  by (simp add: mrd_def reg_file_def regs_of_def)

lemma mrd_list_reg_file [simp]: "mrd_list reg_file d rs w = (map (regs_of w d) rs, w)"
  by (induction rs) simp_all

lemma mwr_reg_file [simp]: "regs_of (mwr reg_file d r v w) d = (regs_of w d)(r := v)"
  by (simp add: mwr_def reg_file_def regs_of_def)

lemma mupd_reg_file [simp]: "regs_of (mupd reg_file d r f w) d = (regs_of w d)(r := f (regs_of w d r))"
  by (simp add: mupd_def)

lemma regs_of_upd [simp]:
  "regs_of (upd_dev d' f w) d = regs_of w d" "regs_of (upd_tx_sem d' g w) d = regs_of w d"
  "regs_of (ms_env tick d n w) d = tick n (regs_of w d)" "devs (ms_env tick d' n w) = devs w"
  by (simp_all add: regs_of_def upd_dev_def upd_tx_sem_def ms_env_def)

lemma mwr_list_reg_file:
  "regs_of (mwr_list reg_file d rvs w) d r = (case map_of (rev rvs) r of None \<Rightarrow> regs_of w d r | Some v \<Rightarrow> v)"
proof (induction rvs arbitrary: w)
  case (Cons p rvs)
  then show ?case by (cases p) (auto simp: map_add_def split: option.splits)
qed simp

section \<open>The register image of a frame\<close>

lemma bit_twice: "bit ((x :: u32) * 2) n \<longleftrightarrow> 0 < n \<and> n < 32 \<and> bit x (n - 1)"
  using bit_push_bit_iff [of 1 x n] bit_imp_le_length [of x "n - 1"] by (auto simp: push_bit_eq_mult)

lemmas wire_bit = bit_or_iff bit_and_iff bit_not_iff bit_push_bit_iff bit_ucast_iff bit_drop_bit_eq bit_twice

text \<open>Equality of bytes and of words, bit by bit.\<close>

lemma less_8_cases: "n < 8 \<Longrightarrow> n \<in> {0, 1, 2, 3, 4, 5, 6, 7 :: nat}"
  by auto

lemma less_32_cases:
  assumes "n < 32"
  shows "n \<in> {0, 1, 2, 3, 4, 5, 6, 7, 8, 9, 10, 11, 12, 13, 14, 15, 16, 17, 18, 19, 20, 21, 22, 23, 24, 25, 26,
    27, 28, 29, 30, 31 :: nat}"
proof -
  have "[0..<32] = [0, 1, 2, 3, 4, 5, 6, 7, 8, 9, 10, 11, 12, 13, 14, 15, 16, 17, 18, 19, 20, 21, 22, 23, 24, 25, 26, 27, 28, 29, 30, 31 :: nat]"
    by code_simp
  moreover have "n \<in> set [0..<32]" using assms by simp
  ultimately show ?thesis by simp
qed

text \<open>The four identifier registers of an extended frame and the two of a standard frame.\<close>

definition eff_idr1 :: "u32 \<Rightarrow> u8" where
  "eff_idr1 i = (ucast (drop_bit 13 (i AND 0x001c0000)) OR ucast (drop_bit 15 (i AND 0x00038000))) OR 0x18"

definition eff_idr5 :: "u32 \<Rightarrow> u8" where
  "eff_idr5 i = (let x = ucast (push_bit 1 (i AND 0x0000007f)) in if i AND CAN_RTR_FLAG \<noteq> 0 then x OR 0x1 else x AND NOT 0x1)"

definition sff_idr1 :: "u32 \<Rightarrow> u8" where
  "sff_idr1 i = (let x = ucast (push_bit 5 (i AND 0x00000007)) in if i AND CAN_RTR_FLAG \<noteq> 0 then x OR 0x10 else x AND NOT 0x10)"

lemma eff_idr1_bit: "bit (eff_idr1 i) n \<longleftrightarrow> n < 8 \<and> (if n < 3 then bit i (n + 15) else if n < 5 then True else bit i (n + 13))"
proof (cases "n < 8")
  case True
  then show ?thesis using less_8_cases [OF True] by (auto simp: eff_idr1_def wire_bit)
qed (use bit_imp_le_length in fastforce)

lemma eff_idr5_bit: "bit (eff_idr5 i) n \<longleftrightarrow> n < 8 \<and> (if n = 0 then i AND CAN_RTR_FLAG \<noteq> 0 else bit i (n - 1))"
proof (cases "n < 8")
  case True
  then show ?thesis using less_8_cases [OF True] by (auto simp: eff_idr5_def wire_bit Let_def)
qed (use bit_imp_le_length in fastforce)

lemma sff_idr1_bit: "bit (sff_idr1 i) n \<longleftrightarrow> n < 8 \<and> (if n = 4 then i AND CAN_RTR_FLAG \<noteq> 0 else 5 \<le> n \<and> bit i (n - 5))"
proof (cases "n < 8")
  case True
  then show ?thesis using less_8_cases [OF True] by (auto simp: sff_idr1_def wire_bit Let_def)
qed (use bit_imp_le_length in fastforce)

lemma mscan_eff_image:
  fixes i :: u32
  shows "push_bit 21 (ucast (ucast (drop_bit 21 (i AND 0x1fe00000)) :: u8)) OR push_bit 13 (ucast (eff_idr1 i AND 0xE0))
     OR push_bit 15 (ucast (eff_idr1 i AND 0x07)) OR push_bit 7 (ucast (ucast (drop_bit 7 (i AND 0x00007f80)) :: u8))
     OR ucast (drop_bit 1 (eff_idr5 i)) = i AND CAN_EFF_MASK" (is "?l = _")
proof (rule bit_word_eqI)
  fix n assume "n < LENGTH(32)"
  then have "n < 32" by simp
  from less_32_cases [OF this] show "bit ?l n = bit (i AND CAN_EFF_MASK) n"
    by (elim insertE) (simp_all add: wire_bit eff_idr1_bit eff_idr5_bit can_consts, simp add: numeral_2_eq_2)
qed

lemma mscan_sff_image:
  fixes i :: u32
  shows "push_bit 3 (ucast (ucast (drop_bit 3 (i AND 0x000007f8)) :: u8)) OR ucast (drop_bit 5 (sff_idr1 i)) = i AND CAN_SFF_MASK"
    (is "?l = _")
proof (rule bit_word_eqI)
  fix n assume "n < LENGTH(32)"
  then have "n < 32" by simp
  from less_32_cases [OF this] show "bit ?l n = bit (i AND CAN_SFF_MASK) n"
    by (elim insertE) (simp_all add: wire_bit sff_idr1_bit can_consts)
qed

lemma and_bit_one: "(x :: u8) AND 2 ^ k = 0 \<longleftrightarrow> \<not> bit x k"
  using and_exp_cases [of x k] bit_and_iff [of x "2 ^ k" k] bit_imp_le_length [of x k]
  by (auto simp: bit_exp_iff)

lemma mscan_id_flags:
  "eff_idr1 i AND MSCAN_BUF_EXTENDED \<noteq> 0" "sff_idr1 i AND MSCAN_BUF_EXTENDED = 0"
  "eff_idr5 i AND MSCAN_BUF_EXT_RTR \<noteq> 0 \<longleftrightarrow> i AND CAN_RTR_FLAG \<noteq> 0"
  "sff_idr1 i AND MSCAN_BUF_STD_RTR \<noteq> 0 \<longleftrightarrow> i AND CAN_RTR_FLAG \<noteq> 0"
  using and_bit_one [of "eff_idr1 i" 3] and_bit_one [of "sff_idr1 i" 3] and_bit_one [of "eff_idr5 i" 0] and_bit_one [of "sff_idr1 i" 4]
  by (simp_all add: mscan_bits eff_idr1_bit eff_idr5_bit sff_idr1_bit)

text \<open>The transmit buffer after \<open>rtcan_mscan_start_xmit\<close>.\<close>

lemma dsr_at_inj [simp]: "dsr_at i = dsr_at j \<longleftrightarrow> i = j"
proof -
  have "(n + n div 2 * 2) div 4 * 2 + (n + n div 2 * 2) mod 4 = n" for n :: nat
  proof -
    define q r where "q = n div 2" and "r = n mod 2"
    then have n: "n = 2 * q + r" "n div 2 = q" "r < 2" by simp_all
    have "n + n div 2 * 2 = q * 4 + r" unfolding n(2) using n(1) by simp
    with n show ?thesis by simp
  qed
  then have "inj (\<lambda>n :: nat. n + n div 2 * 2)" by (rule inj_on_inverseI)
  then show ?thesis by (auto simp: dsr_at_def dest: injD)
qed

lemma dsr_at_other [simp]: "dsr_at i \<noteq> idr j" "dsr_at i \<noteq> dlr" "dsr_at i \<noteq> tbpr" "idr j \<noteq> dsr_at i" "dlr \<noteq> dsr_at i" "tbpr \<noteq> dsr_at i"
  by (simp_all add: dsr_at_def)

definition tx_image :: "u32 \<Rightarrow> nat \<Rightarrow> u8" where
  "tx_image i k =
     (if i AND CAN_EFF_FLAG \<noteq> 0 then
        (if k = 0 then ucast (drop_bit 21 (i AND 0x1fe00000)) else if k = 1 then eff_idr1 i
         else if k = 4 then ucast (drop_bit 7 (i AND 0x00007f80)) else eff_idr5 i)
      else if k = 0 then ucast (drop_bit 3 (i AND 0x000007f8)) else sff_idr1 i)"

lemma tx_id_image:
  assumes "k \<in> (if i AND CAN_EFF_FLAG \<noteq> 0 then {0, 1, 4, 5} else {0, 1})"
  shows "regs_of (mscan_tx_id reg_file d i w) d (cantxfg (idr k)) = tx_image i k"
  using assms
  by (auto simp: mscan_tx_id_def Let_def mwr_list_reg_file tx_image_def eff_idr1_def eff_idr5_def sff_idr1_def split: if_splits)

lemma mscan_tx_buffer:
  assumes run: "rtcan_mscan_start_xmit reg_file d frame w = (Inr 0, w1)"
  defines "i \<equiv> frm_can_id frame"
  shows "regs_of w1 d (cantxfg dlr) = frm_can_dlc frame"
    "k \<in> (if i AND CAN_EFF_FLAG \<noteq> 0 then {0, 1, 4, 5} else {0, 1}) \<Longrightarrow> regs_of w1 d (cantxfg (idr k)) = tx_image i k"
    "i AND CAN_RTR_FLAG = 0 \<Longrightarrow> j < wire_size frame \<Longrightarrow> regs_of w1 d (cantxfg (dsr_at j)) = frm_data frame ! j"
proof -
  define w0 where "w0 = mscan_tx_id reg_file d i (mwr reg_file d cantbsel MSCAN_TXE0 w)"
  define dat where "dat = (if i AND CAN_RTR_FLAG \<noteq> 0 then [] else map (\<lambda>j. (cantxfg (dsr_at j), frm_data frame ! j)) [0..<wire_size frame])"
  define w2 where "w2 = mwr_list reg_file d (dat @ [(cantxfg dlr, frm_can_dlc frame), (cantxfg tbpr, 0), (cantflg, MSCAN_TXE0)]) w0"
  have w1: "w1 = mupd reg_file d cantier (\<lambda>v. v OR MSCAN_TXIE0) w2"
    using run unfolding rtcan_mscan_start_xmit_def Let_def w2_def w0_def dat_def i_def wire_size_def by (simp split: if_splits)
  have w2r: "regs_of w2 d r = (case map_of (rev dat) r of None \<Rightarrow> regs_of w0 d r | Some v \<Rightarrow> v)"
    if "r \<noteq> cantxfg dlr" "r \<noteq> cantxfg tbpr" "r \<noteq> cantflg" for r
    using that by (simp add: w2_def mwr_list_reg_file)
  show "regs_of w1 d (cantxfg dlr) = frm_can_dlc frame" by (simp add: w1 w2_def mwr_list_reg_file)
  have "map_of (rev dat) (cantxfg (idr k)) = None" for k by (auto simp: dat_def map_of_eq_None_iff)
  then show "k \<in> (if i AND CAN_EFF_FLAG \<noteq> 0 then {0, 1, 4, 5} else {0, 1}) \<Longrightarrow> regs_of w1 d (cantxfg (idr k)) = tx_image i k"
    using tx_id_image [of k i d] by (simp add: w1 w2r) (simp add: w0_def)
  show "regs_of w1 d (cantxfg (dsr_at j)) = frm_data frame ! j" if "i AND CAN_RTR_FLAG = 0" "j < wire_size frame"
  proof -
    have "distinct (map fst (rev dat))" "(cantxfg (dsr_at j), frm_data frame ! j) \<in> set (rev dat)"
      using that by (auto simp: dat_def distinct_map inj_on_def rev_map [symmetric])
    then have "map_of (rev dat) (cantxfg (dsr_at j)) = Some (frm_data frame ! j)" by (rule map_of_is_SomeI)
    then show ?thesis by (simp add: w1 w2r)
  qed
qed

section \<open>From one controller to the other\<close>

lemma rx_id_image:
  assumes "\<And>k. k \<in> (if i AND CAN_EFF_FLAG \<noteq> 0 then {0, 1, 4, 5} else {0, 1}) \<Longrightarrow> regs_of v b (canrxfg (idr k)) = tx_image i k"
  shows "mscan_rx_id reg_file b v = (wire_id i AND NOT CAN_RTR_FLAG, i AND CAN_RTR_FLAG \<noteq> 0, v)"
proof (cases "i AND CAN_EFF_FLAG \<noteq> 0")
  case True
  have r: "regs_of v b (canrxfg (idr 0)) = ucast (drop_bit 21 (i AND 0x1fe00000))" "regs_of v b (canrxfg (idr (Suc 0))) = eff_idr1 i"
      "regs_of v b (canrxfg (idr 4)) = ucast (drop_bit 7 (i AND 0x00007f80))" "regs_of v b (canrxfg (idr 5)) = eff_idr5 i"
    using assms [of 0] assms [of 1] assms [of 4] assms [of 5] True by (simp_all add: tx_image_def)
  have "wire_id i AND NOT CAN_RTR_FLAG = (i AND CAN_EFF_MASK) OR CAN_EFF_FLAG"
    using True by (simp add: wire_id_def bit.conj_disj_distrib2 and.assoc) (simp add: can_consts or.commute)
  then show ?thesis
    using mscan_eff_image [of i] by (simp add: mscan_rx_id_def r mscan_id_flags or.assoc [symmetric])
next
  case False
  have r: "regs_of v b (canrxfg (idr 0)) = ucast (drop_bit 3 (i AND 0x000007f8))" "regs_of v b (canrxfg (idr (Suc 0))) = sff_idr1 i"
    using assms [of 0] assms [of 1] False by (simp_all add: tx_image_def)
  have "wire_id i AND NOT CAN_RTR_FLAG = i AND CAN_SFF_MASK"
    using False by (simp add: wire_id_def bit.conj_disj_distrib2 and.assoc) (simp add: can_consts)
  then show ?thesis
    using mscan_sff_image [of i] by (simp add: mscan_rx_id_def r mscan_id_flags)
qed

lemma wire_id_split: "(if i AND CAN_RTR_FLAG \<noteq> 0 then (wire_id i AND NOT CAN_RTR_FLAG) OR CAN_RTR_FLAG else wire_id i AND NOT CAN_RTR_FLAG) = wire_id i"
proof (rule bit_word_eqI)
  fix n
  have "bit (wire_id i) 30 \<longleftrightarrow> bit i 30" using wire_id_rtr(1) [of i] rtr_bit [of i] rtr_bit [of "wire_id i"] by simp
  moreover have "bit CAN_RTR_FLAG n \<longleftrightarrow> n = 30" using bit_exp_iff [of 30 n] by (auto simp: can_consts)
  ultimately show "bit (if i AND CAN_RTR_FLAG \<noteq> 0 then (wire_id i AND NOT CAN_RTR_FLAG) OR CAN_RTR_FLAG else wire_id i AND NOT CAN_RTR_FLAG) n
      = bit (wire_id i) n"
    using rtr_bit [of i] bit_imp_le_length [of "wire_id i" n] by (auto simp: bit_or_iff bit_and_iff bit_not_iff)
qed

lemma mscan_rx_decode:
  assumes xmit: "rtcan_mscan_start_xmit reg_file a frame w = (Inr 0, w1)"
    and frame: "frm_can_dlc frame \<le> 15" "length (frm_data frame) = 8"
    and wire: "\<And>r. regs_of v b (canrxfg r) = regs_of w1 a (cantxfg r)"
    and stk: "length (rb_frame skb) = sizeof_rb_frame"
  shows "\<exists>skb'. rtcan_mscan_rx_interrupt reg_file b skb v = (skb', v) \<and>
    wf_skb skb' \<and> (\<forall>ts. msg_of skb' ts = wire_msg (devs v b) frame ts)"
proof -
  let ?i = "frm_can_id frame" and ?n = "wire_size frame"
  let ?rtr = "?i AND CAN_RTR_FLAG \<noteq> 0"
  note tx = mscan_tx_buffer [OF xmit]
  define dat where "dat = (if ?rtr then [] else take ?n (frm_data frame))"
  have n: "?n \<le> 8" by (rule wire_size_le)
  have dlc: "regs_of v b (canrxfg dlr) AND 0x0F = frm_can_dlc frame" using tx(1) dlc_nibble [OF frame(1)] by (simp add: wire)
  have id: "mscan_rx_id reg_file b v = (wire_id ?i AND NOT CAN_RTR_FLAG, ?rtr, v)"
    by (rule rx_id_image) (simp only: wire tx(2))
  have data: "map (regs_of v b) (map (\<lambda>i. canrxfg (dsr_at i)) [0..<?n]) = take ?n (frm_data frame)" if "\<not> ?rtr"
    using that tx(3) n frame(2) by (intro nth_equalityI) (auto simp: wire)
  define skb' where "skb' = \<lparr>rb_frame_size = EMPTY_RB_FRAME_SIZE + length dat,
    rb_frame = set_rb_can_ifindex (of_nat (dev_ifindex (devs v b)))
      (memcpy_at (set_rb_can_id (wire_id ?i) (set_rb_can_dlc (frm_can_dlc frame) (rb_frame skb))) 6 dat)\<rparr>"
  have size: "(if ?rtr then 0 else ?n) = length dat" using n frame(2) by (simp add: dat_def)
  have dat: "(if ?rtr then ([], v) else mrd_list reg_file b (map (\<lambda>i. canrxfg (dsr_at i)) [0..<?n]) v) = (dat, v)"
    using data by (simp add: dat_def del: map_map)
  have run: "rtcan_mscan_rx_interrupt reg_file b skb v = (skb', v)"
    unfolding rtcan_mscan_rx_interrupt_def Let_def mrd_reg_file prod.case dlc id wire_size_def [symmetric] dat wire_id_split size skb'_def ..
  have "payload_len (wire_id ?i) (frm_can_dlc frame) = length dat"
    using n frame(2) by (auto simp: payload_len_def wire_id_rtr dat_def wire_size_def word_less_nat_alt)
  from build_skb [OF stk dlc15_stamp [OF frame(1)] this [symmetric]] run
  show ?thesis by (auto simp: skb'_def wire_msg_def dat_def)
qed

text \<open>
  C17: A frame written to the transmit buffer of one MSCAN and carried over the wire into the receive
  buffer of another is read back unchanged: identifier, format and RTR bit, length code, payload. The
  transmission succeeds exactly when transmit buffer 0 is empty; otherwise it fails with \<open>-EIO\<close> and
  changes nothing.
\<close>

theorem mscan_wire_roundtrip:
  assumes xmit: "rtcan_mscan_start_xmit reg_file a frame w = (r, w1)"
    and frame: "frm_can_dlc frame \<le> 15" "length (frm_data frame) = 8" "wire_id (frm_can_id frame) = frm_can_id frame"
    and wire: "\<And>r. regs_of v b (canrxfg r) = regs_of w1 a (cantxfg r)"
    and stk: "length (rb_frame skb) = sizeof_rb_frame"
  shows "if regs_of w a cantflg AND MSCAN_TXE0 = 0 then r = Inl EIO \<and> w1 = w
    else r = Inr 0 \<and> (\<exists>skb'. rtcan_mscan_rx_interrupt reg_file b skb v = (skb', v) \<and> wf_skb skb' \<and>
      msg_of skb' None = \<lparr>m_id = frm_can_id frame, m_ifindex = of_nat (dev_ifindex (devs v b)), m_dlc = frm_can_dlc frame,
        m_data = (if frm_can_id frame AND CAN_RTR_FLAG = 0 then take (wire_size frame) (frm_data frame) else []), m_ts = None\<rparr>)"
proof (cases "regs_of w a cantflg AND MSCAN_TXE0 = 0")
  case False
  then have r: "r = Inr 0" using xmit by (auto simp: rtcan_mscan_start_xmit_def Let_def)
  obtain skb' where "rtcan_mscan_rx_interrupt reg_file b skb v = (skb', v)" "wf_skb skb'"
      "msg_of skb' None = wire_msg (devs v b) frame None"
    using mscan_rx_decode [OF xmit [unfolded r] frame(1,2) wire stk] by blast
  then show ?thesis using False r by (simp add: wire_msg_def frame(3))
qed (use xmit in \<open>auto simp: rtcan_mscan_start_xmit_def\<close>)

section \<open>The interrupt handler\<close>

lemma mscan_rx_id_frame:
  assumes "mscan_rx_id chip d v = (i, rtr, v')" "ctl_frame d w v"
  shows "ctl_frame d w v' \<and> i AND CAN_RTR_FLAG = 0"
proof -
  obtain x v1 where x: "mrd chip d (canrxfg (idr 1)) v = (x, v1)" by fastforce
  obtain xs v2 where xs: "mrd_list chip d (map (\<lambda>i. canrxfg (idr i)) [0, 1, 1, 4, 5, 5]) v1 = (xs, v2)" by fastforce
  obtain ys v3 where ys: "mrd_list chip d (map (\<lambda>i. canrxfg (idr i)) [0, 1, 1]) v1 = (ys, v3)" by fastforce
  have "ctl_frame d w v1" using ctl_frame_mrd [OF x assms(2)] .
  then have "ctl_frame d w v2" "ctl_frame d w v3" using ctl_frame_mrd_list [OF xs] ctl_frame_mrd_list [OF ys] by blast+
  then show ?thesis
    using assms(1) unfolding mscan_rx_id_def x Let_def prod.case xs ys
    by (auto simp: rtr_bit CAN_EFF_FLAG_def bit_or_iff bit_and_iff bit_push_bit_iff bit_ucast_iff bit_drop_bit_eq bit_u8_high split: if_splits)
qed

lemma mscan_rx_effect:
  assumes run: "rtcan_mscan_rx_interrupt chip d skb w = (skb', w')" and stk: "length (rb_frame skb) = sizeof_rb_frame"
  shows "ctl_frame d w w' \<and> wf_skb skb'"
proof -
  obtain len w1 where len: "mrd chip d (canrxfg dlr) w = (len, w1)" by fastforce
  obtain i rtr w2 where id: "mscan_rx_id chip d w1 = (i, rtr, w2)" by (metis prod_cases3)
  define dlc where "dlc = len AND 0x0F"
  define size where "size = (if dlc > 8 then 8 else unat dlc)"
  obtain dat w3 where dat: "(if rtr then ([], w2) else mrd_list chip d (map (\<lambda>i. canrxfg (dsr_at i)) [0..<size]) w2) = (dat, w3)"
    by fastforce
  have f2: "ctl_frame d w w2" "i AND CAN_RTR_FLAG = 0"
    using mscan_rx_id_frame [OF id ctl_frame_mrd [OF len ctl_frame_refl]] by simp_all
  have f3: "ctl_frame d w w3 \<and> length dat = (if rtr then 0 else size)"
    using dat f2(1) ctl_frame_mrd_list [of chip d "map (\<lambda>i. canrxfg (dsr_at i)) [0..<size]" w2 dat w3 w] by (auto split: if_splits)
  define id' where "id' = (if rtr then i OR CAN_RTR_FLAG else i)"
  have "payload_len id' dlc = length dat"
    using f3 f2(2) by (auto simp: payload_len_def id'_def bit.conj_disj_distrib2 size_def word_less_nat_alt) (simp_all add: can_consts)
  moreover have "dlc AND RTCAN_HAS_NO_TIMESTAMP = dlc"
    by (simp add: dlc_def RTCAN_HAS_NO_TIMESTAMP_def and.assoc)
  ultimately have "wf_skb \<lparr>rb_frame_size = EMPTY_RB_FRAME_SIZE + length dat,
    rb_frame = set_rb_can_ifindex (of_nat (dev_ifindex (devs w3 d))) (memcpy_at (set_rb_can_id id' (set_rb_can_dlc dlc (rb_frame skb))) 6 dat)\<rparr>"
    by (intro build_skb(1) [OF stk]) simp_all
  moreover have "skb' = \<lparr>rb_frame_size = EMPTY_RB_FRAME_SIZE + length dat,
    rb_frame = set_rb_can_ifindex (of_nat (dev_ifindex (devs w3 d))) (memcpy_at (set_rb_can_id id' (set_rb_can_dlc dlc (rb_frame skb))) 6 dat)\<rparr>"
      "w' = w3"
    using run f3 unfolding rtcan_mscan_rx_interrupt_def len id Let_def prod.case dlc_def [symmetric] size_def [symmetric] dat id'_def [symmetric]
    by auto
  ultimately show ?thesis using f3 by simp
qed

lemma mscan_err_sources_effect:
  assumes "mscan_err_sources chip d r_status w = (i, d1, w')"
  shows "ctl_frame d w w' \<and> i AND CAN_RTR_FLAG = 0"
  using assms
  by (auto simp: mscan_err_sources_def Let_def can_consts split: if_splits can_state.splits intro!: mscan_frame)

lemma mscan_err_effect:
  assumes run: "rtcan_mscan_err_interrupt chip d skb r_status w = (skb', w')" and stk: "length (rb_frame skb) = sizeof_rb_frame"
  shows "ctl_frame d w w' \<and> wf_skb skb'"
proof -
  obtain i d1 w1 where e: "mscan_err_sources chip d r_status w = (i, d1, w1)" by (metis prod_cases3)
  note eff = mscan_err_sources_effect [OF e]
  let ?dat = "[0, d1, 0, 0, 0, 0, 0, 0] :: u8 list"
  have "payload_len i CAN_ERR_DLC = length ?dat" using eff by (simp add: payload_len_def CAN_ERR_DLC_def)
  then have "wf_skb \<lparr>rb_frame_size = EMPTY_RB_FRAME_SIZE + length ?dat, rb_frame = set_rb_can_ifindex (of_nat (dev_ifindex (devs w1 d)))
      (memcpy_at (set_rb_can_id i (set_rb_can_dlc CAN_ERR_DLC (rb_frame skb))) 6 ?dat)\<rparr>"
    by (intro build_skb(1) [OF stk]) (simp_all add: CAN_ERR_DLC_def RTCAN_HAS_NO_TIMESTAMP_def)
  moreover have "length ?dat = unat CAN_ERR_DLC" by (simp add: CAN_ERR_DLC_def)
  ultimately show ?thesis using run eff unfolding rtcan_mscan_err_interrupt_def e Let_def prod.case by (metis prod.inject)
qed

text \<open>A step of the handler.\<close>

definition part_done :: "nat \<Rightarrow> 'z can_world_scheme \<Rightarrow> 'z can_world_scheme \<Rightarrow> bool" where
  "part_done d w w' \<longleftrightarrow> ctl_ready d w' \<and> bindings_of w' = bindings_of w"

lemma part_done_frame: "ctl_ready d w \<Longrightarrow> ctl_frame d w w' \<Longrightarrow> part_done d w w'"
  using ctl_ready_frame ctl_frame_inv(1) unfolding part_done_def by blast

lemma part_done_trans: "part_done d w v \<Longrightarrow> part_done d v u \<Longrightarrow> part_done d w u"
  by (simp add: part_done_def)

lemma part_done_rcv:
  assumes rdy: "ctl_ready d w" and build: "f = (skb1, w1)" "ctl_frame d w w1 \<and> wf_skb skb1"
  shows "\<exists>skb' w'. (case f of (skb1, w1) \<Rightarrow> kbind (rtcan_rcv w1 d skb1 clk) (\<lambda>(w2, skb2). Inr (skb2, w2))) = Inr (skb', w') \<and>
    part_done d w w' \<and> length (rb_frame skb') = sizeof_rb_frame"
proof -
  have "part_done d w w1" using part_done_frame [OF rdy] build(2) by blast
  moreover from this obtain w' skb' where "rtcan_rcv w1 d skb1 clk = Inr (w', skb')" "part_done d w1 w'" "length (rb_frame skb') = sizeof_rb_frame"
    using ctl_ready_rcv [of d w1 skb1 clk] build(2) unfolding part_done_def by blast
  ultimately show ?thesis using part_done_trans by (auto simp: build(1))
qed

lemma mscan_rx_part_ok:
  assumes "ctl_ready d w" "length (rb_frame skb) = sizeof_rb_frame"
  shows "\<exists>skb' w'. mscan_rx_part chip clk d rflg skb w = Inr (skb', w') \<and> part_done d w w' \<and> length (rb_frame skb') = sizeof_rb_frame"
proof -
  obtain skb1 w1 where "rtcan_mscan_rx_interrupt chip d skb w = (skb1, w1)" by fastforce
  then show ?thesis
    using part_done_rcv [OF assms(1) _ mscan_rx_effect [OF _ assms(2)]] assms by (auto simp: mscan_rx_part_def part_done_def)
qed

lemma mscan_err_part_ok:
  assumes "ctl_ready d w" "length (rb_frame skb) = sizeof_rb_frame"
  shows "\<exists>skb' w'. mscan_err_part chip clk d rflg skb w = Inr (skb', w') \<and> part_done d w w' \<and> length (rb_frame skb') = sizeof_rb_frame"
proof -
  obtain skb1 w1 where "rtcan_mscan_err_interrupt chip d skb rflg w = (skb1, w1)" by fastforce
  then show ?thesis
    using part_done_rcv [OF assms(1) _ mscan_err_effect [OF _ assms(2)]] assms by (auto simp: mscan_err_part_def part_done_def)
qed

lemma mscan_tx_part_ok:
  assumes "ctl_ready d w"
  shows "\<exists>w'. mscan_tx_part chip clk d w = Inr w' \<and> part_done d w w'"
proof -
  obtain tier w1 where t: "mrd chip d cantier w = (tier, w1)" by fastforce
  obtain tflg w2 where f: "(if tier AND MSCAN_TXIE0 \<noteq> 0 then mrd chip d cantflg w1 else (0, w1)) = (tflg, w2)" by fastforce
  have f2: "ctl_frame d w w2"
    using f ctl_frame_mrd [OF t ctl_frame_refl] by (auto split: if_splits intro: ctl_frame_mrd)
  define w3 where "w3 = upd_tx_sem d rtdm_sem_up (mwr chip d cantier 0 w2)"
  have p: "part_done d w w2" "part_done d w w3"
    using f2 by (auto simp: w3_def intro!: part_done_frame [OF assms] mscan_frame)
  have "\<exists>w'. rtcan_loopback w3 d clk = Inr w' \<and> part_done d w w'" if "tx_socket (devs w3 d) \<noteq> None"
    using ctl_ready_loopback [OF _ that, of clk] p(2) unfolding part_done_def by auto
  with p show ?thesis unfolding mscan_tx_part_def t Let_def prod.case f w3_def [symmetric] by auto
qed

text \<open>
  C18: The MSCAN interrupt handler is one pass: whatever the registers hold and whatever interrupts
  come together, it returns \<open>RTDM_IRQ_HANDLED\<close> and never faults, the reception lists and the queues of
  all sockets stay well formed, and no socket's binding changes.
\<close>

theorem mscan_interrupt_total:
  assumes "ctl_ready d w" "length (rb_frame stack) = sizeof_rb_frame"
  shows "\<exists>w'. rtcan_mscan_interrupt chip clk stack d w = Inr (RTDM_IRQ_HANDLED, w') \<and> ctl_ready d w' \<and> bindings_of w' = bindings_of w"
proof -
  obtain rflg w1 where r: "mrd chip d canrflg w = (rflg, w1)" by fastforce
  have p1: "part_done d w w1" by (rule part_done_frame [OF assms(1) ctl_frame_mrd [OF r ctl_frame_refl]])
  then obtain w2 where p2: "mscan_tx_part chip clk d w1 = Inr w2" "part_done d w1 w2"
    using mscan_tx_part_ok [of d w1 chip clk] by (auto simp: part_done_def)
  then obtain skb3 w3 where p3: "mscan_rx_part chip clk d rflg stack w2 = Inr (skb3, w3)" "part_done d w2 w3" "length (rb_frame skb3) = sizeof_rb_frame"
    using mscan_rx_part_ok [OF _ assms(2), of d w2 chip clk rflg] by (auto simp: part_done_def)
  then obtain skb4 w4 where p4: "mscan_err_part chip clk d rflg skb3 w3 = Inr (skb4, w4)" "part_done d w3 w4"
    using mscan_err_part_ok [of d w3 skb3 chip clk rflg] by (auto simp: part_done_def)
  have "part_done d w w4" by (rule part_done_trans [OF p1 part_done_trans [OF p2(2) part_done_trans [OF p3(2) p4(2)]]])
  moreover have "part_done d w4 (mwr chip d canrflg rflg w4)"
    using p4(2) by (intro part_done_frame) (simp_all add: part_done_def mscan_frame)
  ultimately show ?thesis
    using part_done_trans [of d w w4] unfolding rtcan_mscan_interrupt_def r prod.case p2 p3 p4 kbind_simps part_done_def by auto
qed

section \<open>Waiting for the chip\<close>

text \<open>The state after \<open>k\<close> unsuccessful tests.\<close>

fun after_tests :: "('w \<Rightarrow> bool \<times> 'w) \<Rightarrow> (nat \<Rightarrow> 'w \<Rightarrow> 'w) \<Rightarrow> nat \<Rightarrow> nat \<Rightarrow> 'w \<Rightarrow> 'w" where
  "after_tests test env n 0 w = w"
| "after_tests test env n (Suc k) w = after_tests test env (Suc n) k (env n (snd (test w)))"

text \<open>A wait ends exactly when some test succeeds, within as many tests as that takes.\<close>

lemma mscan_wait_iff: "(\<exists>w'. mscan_wait test env fuel n w = Inr w') \<longleftrightarrow> (\<exists>k < fuel. \<not> fst (test (after_tests test env n k w)))"
proof (induction fuel arbitrary: n w)
  case (Suc fuel)
  obtain b w1 where t: "test w = (b, w1)" by fastforce
  show ?case
  proof (cases b)
    case True
    have "(\<exists>k < Suc fuel. \<not> fst (test (after_tests test env n k w))) \<longleftrightarrow>
        (\<exists>k < fuel. \<not> fst (test (after_tests test env (Suc n) k (env n w1))))"
      using t True by (auto simp: Ex_less_Suc2)
    then show ?thesis using t True Suc.IH by simp
  qed (use t in \<open>auto intro: exI [of _ 0]\<close>)
qed simp

lemma mscan_wait_fault: "mscan_wait test env fuel n w = Inl e \<Longrightarrow> e = Diverges"
  by (induction fuel arbitrary: n w) (auto split: prod.splits if_splits)

text \<open>The state in which the wait of a stop begins: both requests are written.\<close>

definition stop_requested ::
    "'h mscan_chip \<Rightarrow> nat \<Rightarrow> ('h, 'z) mscan_world_scheme \<Rightarrow> ('h, 'z) mscan_world_scheme" where
  "stop_requested chip d w =
     mupd chip d canctl0 (\<lambda>v. v OR MSCAN_INITRQ) (mupd chip d canctl0 (\<lambda>v. v OR MSCAN_SLPRQ) w)"

text \<open>
  Stopping an operating MSCAN has no time limit. It returns exactly when the chip acknowledges both
  the sleep and the initialisation request in some test, however late; then it succeeds, the device is
  stopped and its transmit semaphore destroyed. On a chip that never acknowledges it does not return:
  no number of tests is enough.
\<close>

theorem mscan_stop_returns:
  assumes "CAN_STATE_OPERATING (dev_state (devs w d))"
  shows "if \<exists>k. \<not> fst (not_stopped chip d (after_tests (not_stopped chip d) env 0 k (stop_requested chip d w)))
    then \<exists>fuel w'. rtcan_mscan_set_mode chip env fuel d CAN_MODE_STOP w = Inr (Inr 0, w') \<and>
      dev_state (devs w' d) = CAN_STATE_STOPPED \<and> sem_destroy (tx_sem (devs w' d))
    else \<forall>fuel. rtcan_mscan_set_mode chip env fuel d CAN_MODE_STOP w = Inl Diverges"
proof -
  let ?wait = "\<lambda>fuel. mscan_wait (not_stopped chip d) env fuel 0 (stop_requested chip d w)"
  have run: "rtcan_mscan_set_mode chip env fuel d CAN_MODE_STOP w =
      kbind (?wait fuel) (\<lambda>w1. Inr (Inr 0, upd_tx_sem d rtdm_sem_destroy (upd_dev d (\<lambda>dev. dev\<lparr>dev_state := CAN_STATE_STOPPED\<rparr>) w1)))" for fuel
    using assms(1) by (simp add: rtcan_mscan_set_mode_def rtcan_mscan_mode_stop_def stop_requested_def)
  show ?thesis
  proof (cases "\<exists>k. \<not> fst (not_stopped chip d (after_tests (not_stopped chip d) env 0 k (stop_requested chip d w)))")
    case True
    then obtain fuel w1 where "?wait fuel = Inr w1"
      using mscan_wait_iff [of "not_stopped chip d" env _ 0 "stop_requested chip d w"] by blast
    then have "rtcan_mscan_set_mode chip env fuel d CAN_MODE_STOP w =
        Inr (Inr 0, upd_tx_sem d rtdm_sem_destroy (upd_dev d (\<lambda>dev. dev\<lparr>dev_state := CAN_STATE_STOPPED\<rparr>) w1))"
      by (simp add: run)
    then show ?thesis using True by (fastforce simp: upd_tx_sem_def rtdm_sem_destroy_def)
  next
    case False
    then have "?wait fuel = Inl Diverges" for fuel
      using mscan_wait_iff [of "not_stopped chip d" env fuel 0 "stop_requested chip d w"] mscan_wait_fault [of "not_stopped chip d" env fuel 0 "stop_requested chip d w"]
      by (cases "?wait fuel") auto
    then show ?thesis using False by (simp add: run)
  qed
qed

section \<open>The error status\<close>

lemma mscan_stat:
  "mscan_rstat s = drop_bit 2 s AND 3" "mscan_tstat s = drop_bit 4 s AND 3"
proof -
  have "mscan_rstat s = drop_bit 2 s AND 3"
  proof (rule bit_word_eqI)
    fix n assume "n < LENGTH(8)"
    then show "bit (mscan_rstat s) n = bit (drop_bit 2 s AND 3) n"
      using less_8_cases [of n] by (auto simp: mscan_rstat_def mscan_bits wire_bit)
  qed
  moreover have "mscan_tstat s = drop_bit 4 s AND 3"
  proof (rule bit_word_eqI)
    fix n assume "n < LENGTH(8)"
    then show "bit (mscan_tstat s) n = bit (drop_bit 4 s AND 3) n"
      using less_8_cases [of n] by (auto simp: mscan_tstat_def mscan_bits wire_bit)
  qed
  ultimately show "mscan_rstat s = drop_bit 2 s AND 3" "mscan_tstat s = drop_bit 4 s AND 3" by simp_all
qed

text \<open>The receiver and the transmitter status as the register has them: bits 4 and 5, bits 2 and 3.\<close>

definition receiver_status :: "u8 \<Rightarrow> u8" where "receiver_status s = drop_bit 4 s AND 3"
definition transmitter_status :: "u8 \<Rightarrow> u8" where "transmitter_status s = drop_bit 2 s AND 3"

text \<open>
  The state that a status change interrupt leaves is the worse of the receiver's and the
  transmitter's error state, and at bus-off the senders are released. But the error frame names the
  wrong side: when the receiver has got worse than the transmitter it reports a transmitter that is
  error passive or at the warning limit, and the other way round, because the two fields of the
  register are read into each other's variable.
\<close>

theorem mscan_status_swapped:
  assumes status: "s AND MSCAN_CSCIF \<noteq> 0" "s AND MSCAN_OVRIF = 0"
    and run: "mscan_err_sources chip d s w = (can_id, data1, w')"
  defines "worse \<equiv> max (receiver_status s) (transmitter_status s)"
  shows "dev_state (devs w' d) = mscan_stat_map ! unat worse \<and>
    (worse = 3 \<longrightarrow> can_id = CAN_ERR_FLAG OR CAN_ERR_BUSOFF \<and> sem_destroy (tx_sem (devs w' d))) \<and>
    (worse = 2 \<longrightarrow> can_id = CAN_ERR_FLAG OR CAN_ERR_CRTL \<and>
       data1 = (if receiver_status s > transmitter_status s then CAN_ERR_CRTL_TX_PASSIVE else CAN_ERR_CRTL_RX_PASSIVE)) \<and>
    (worse = 1 \<longrightarrow> can_id = CAN_ERR_FLAG OR CAN_ERR_CRTL \<and>
       data1 = (if receiver_status s > transmitter_status s then CAN_ERR_CRTL_TX_WARNING else CAN_ERR_CRTL_RX_WARNING)) \<and>
    (worse = 0 \<longrightarrow> can_id = CAN_ERR_FLAG \<and> data1 = 0)"
proof -
  have w: "max (mscan_rstat s) (mscan_tstat s) = worse"
    by (simp add: worse_def receiver_status_def transmitter_status_def mscan_stat max.commute)
  have "unat worse < 4"
    using word_and_le1 [of "drop_bit 4 s" 3] word_and_le1 [of "drop_bit 2 s" 3]
    by (simp add: worse_def receiver_status_def transmitter_status_def word_le_nat_alt max_def)
  then have "worse = 0 \<or> worse = 1 \<or> worse = 2 \<or> worse = 3"
    by (auto simp: word_unat_eq_iff)
  moreover have "receiver_status s = mscan_tstat s" "transmitter_status s = mscan_rstat s"
    by (simp_all add: receiver_status_def transmitter_status_def mscan_stat)
  ultimately show ?thesis
    using run status
    by (auto simp: mscan_err_sources_def Let_def w mscan_stat_map_def upd_tx_sem_def rtdm_sem_destroy_def)
qed

section \<open>The sleep mode\<close>

text \<open>
  The sleep mode of the MSCAN is a trap that only a start leaves. A controller that was put to
  sleep remembers its state and enables nothing but the wake-up interrupt; the wake-up interrupt changes
  neither the state nor the chip's interrupt mask, a request to stop returns 0 and leaves the
  controller asleep, a second request to sleep fails with \<open>-ENETDOWN\<close>, and a start makes the controller
  error active, whatever state it had remembered.
\<close>

theorem mscan_sleep_mode:
  fixes w :: "(mscan_regs \<Rightarrow> u8) mscan_world"
  assumes up: "CAN_STATE_OPERATING (dev_state (devs w d))"
    and sleep: "rtcan_mscan_set_mode reg_file (ms_env tick d) fuel d CAN_MODE_SLEEP w = Inr (r, w1)"
    and idle: "regs_of w2 d cantier = 0" "regs_of w2 d canrflg = MSCAN_WUPIF" and w2: "w2 = w1\<lparr>ms_hw := h\<rparr>"
  shows "r = Inr 0 \<and> dev_state (devs w1 d) = CAN_STATE_SLEEPING \<and> regs_of w1 d canrier = MSCAN_WUPIE \<and>
    state_before_sleep (devs w1 d) = dev_state (devs w d) \<and>
    (\<exists>w3. rtcan_mscan_interrupt reg_file clk stack d w2 = Inr (RTDM_IRQ_HANDLED, w3) \<and> devs w3 = devs w1 \<and>
       regs_of w3 d = (regs_of w2 d)(canrflg := MSCAN_WUPIF)) \<and>
    rtcan_mscan_set_mode reg_file (ms_env tick d) fuel d CAN_MODE_STOP w1 = Inr (Inr 0, w1) \<and>
    (\<exists>w3. rtcan_mscan_set_mode reg_file (ms_env tick d) fuel d CAN_MODE_SLEEP w1 = Inr (Inl ENETDOWN, w3)) \<and>
    (\<forall>r' w3. rtcan_mscan_set_mode reg_file (ms_env tick d) fuel d CAN_MODE_START w1 = Inr (r', w3) \<longrightarrow>
       dev_state (devs w3 d) = CAN_STATE_ACTIVE)"
proof -
  have ns: "dev_state (devs w d) \<noteq> CAN_STATE_SLEEPING" using up by (auto simp: CAN_STATE_OPERATING_iff)
  define w0 where "w0 = mupd reg_file d canctl0 (\<lambda>v. v OR (MSCAN_SLPRQ OR MSCAN_WUPE))
    (mwr reg_file d cantier 0 (mwr reg_file d canrier 0 (upd_dev d (\<lambda>dev. dev\<lparr>state_before_sleep := dev_state (devs w d)\<rparr>) w)))"
  obtain k w3 where r3: "mscan_retry (not_asleep reg_file d) (ms_env tick d) 0 w0 = (k, w3)" by fastforce
  obtain k' w5 where r5: "mscan_retry (in_init reg_file d) (ms_env tick d) k (mupd reg_file d canctl0 (\<lambda>v. v AND NOT MSCAN_INITRQ) w3) = (k', w5)"
    by fastforce
  have "devs w3 = devs w0"
    using mscan_retry_inv [where I = "\<lambda>v. devs v = devs w0" and test = "not_asleep reg_file d" and env = "ms_env tick d" and r = 0 and v = w0] r3
    by (auto simp: not_asleep_def)
  moreover have "devs w5 = devs w3"
    using mscan_retry_inv [where I = "\<lambda>v. devs v = devs w3" and test = "in_init reg_file d" and env = "ms_env tick d" and r = k
        and v = "mupd reg_file d canctl0 (\<lambda>v. v AND NOT MSCAN_INITRQ) w3"] r5
    by (auto simp: in_init_def)
  ultimately have w5: "devs w5 = devs w0" by simp
  have w1: "r = Inr 0" "w1 = upd_dev d (\<lambda>dev. dev\<lparr>dev_state := CAN_STATE_SLEEPING\<rparr>) (mwr reg_file d canrier MSCAN_WUPIE w5)"
    using sleep up ns unfolding rtcan_mscan_set_mode_def mscan_sleep_def Let_def w0_def [symmetric] r3 r5 can_mode.case prod.case by auto
  have st: "dev_state (devs w1 d) = CAN_STATE_SLEEPING" by (simp add: w1)
  moreover have "\<not> CAN_STATE_OPERATING CAN_STATE_SLEEPING" by (simp add: CAN_STATE_OPERATING_iff)
  moreover have "regs_of w1 d canrier = MSCAN_WUPIE"
    using mwr_reg_file [of d canrier MSCAN_WUPIE w5] by (simp add: w1 regs_of_def upd_dev_def)
  moreover have "state_before_sleep (devs w1 d) = dev_state (devs w d)" by (simp add: w1 w5 w0_def)
  moreover have "rtcan_mscan_interrupt reg_file clk stack d w2 = Inr (RTDM_IRQ_HANDLED, mwr reg_file d canrflg MSCAN_WUPIF w2)"
    using idle by (simp add: rtcan_mscan_interrupt_def mscan_tx_part_def mscan_rx_part_def mscan_err_part_def mscan_bits)
  moreover have "devs w2 = devs w1" by (simp add: w2)
  moreover have "dev_state (devs w3 d) = CAN_STATE_ACTIVE" if "rtcan_mscan_set_mode reg_file (ms_env tick d) fuel d CAN_MODE_START w1 = Inr (r', w3)" for r' w3
    using that st mscan_leave_init_frame by (simp add: rtcan_mscan_set_mode_def rtcan_mscan_mode_start_def) blast
  ultimately show ?thesis
    using w1(1) by (simp add: rtcan_mscan_set_mode_def rtcan_mscan_mode_stop_def mscan_sleep_def)
qed

section \<open>Requests and bit timing\<close>

lemma mscan_btr: "mscan_btr0 bt = sja_btr0 bt" "mscan_btr1 bt = sja_btr1 bt"
  by (simp_all add: mscan_btr0_def mscan_btr1_def sja_btr0_def sja_btr1_def btr_macros or.assoc)

lemma refresh_same: "refresh_state (mscan_ops chip tick fuel) w d = w"
  by (simp add: refresh_state_def mscan_ops_def)

text \<open>
  A request on an MSCAN changes the configuration of the device (baud rate, bit timing, control
  mode) exactly when it succeeds, and then to what was asked for; sockets, the other devices and the
  rest of the device stay as they are. Unless the request is a mode change, a controller that was
  operating is active again afterwards.
\<close>

theorem mscan_reconfigure:
  fixes w w' :: "('h, 'z) mscan_world_scheme"
  assumes run: "rtcan_raw_ioctl_dev_set (mscan_ops chip tick fuel) w d req garbage = Inr (r, w')"
    and buf: "prepare_bit_time (mscan_ops chip tick fuel :: ('h, 'z) mscan_world_scheme can_ops) (can_sys_clock (devs w d)) req garbage
      = Inr (Some buf)"
  shows "(if r = Inr 0
      then \<exists>c. new_config req buf (can_sys_clock (devs w d)) (dev_config (devs w d)) = Inr c \<and> cfg_frame d c w w'
      else ctl_frame d w w')
    \<and> ((\<forall>m. req \<noteq> SIOCSCANMODE m) \<and> CAN_STATE_OPERATING (dev_state (devs w d)) \<longrightarrow> dev_state (devs w' d) = CAN_STATE_ACTIVE)"
proof -
  note same = refresh_same [of chip tick fuel w d]
  have "dev_state (devs w' d) = CAN_STATE_ACTIVE" if req: "\<And>m. req \<noteq> SIOCSCANMODE m" and up: "CAN_STATE_OPERATING (dev_state (devs w d))"
  proof -
    have "started" if "started = (case req of SIOCSCANMODE _ \<Rightarrow> False | _ \<Rightarrow> CAN_STATE_OPERATING (dev_state (devs (refresh_state (mscan_ops chip tick fuel) w d) d)))" for started
      using that req up same by (cases req) auto
    then obtain stop w2 where "rtcan_mscan_set_mode chip (ms_env tick d) fuel d CAN_MODE_STOP w = Inr (stop, w2)"
      using mscan.request_run [OF run buf] same by metis
    moreover from this have "stop = Inr 0" using mscan_stop_frame by (simp add: rtcan_mscan_set_mode_def) blast
    ultimately show ?thesis using mscan.request_restarts [OF run buf req] up same by metis
  qed
  then show ?thesis using mscan.request_config [OF run buf] by auto
qed

text \<open>
  Both controller drivers program a bit timing alike: given the same request they return the same
  result, and where it succeeds the two bit timing registers of the MSCAN and of the SJA1000 hold the
  same values; a request of an unknown type is refused by both and leaves the chips alone.
\<close>

theorem mscan_sja_bit_time:
  "case (rtcan_mscan_set_bit_time reg_file d bt w, rtcan_sja_set_bit_time reg_chip e bt v) of
     ((r, w'), (r', v')) \<Rightarrow> r = r' \<and>
       (if r = Inr 0 then regs_of w' d canbtr0 = sja_hw v' e SJA_BTR0 \<and> regs_of w' d canbtr1 = sja_hw v' e SJA_BTR1
        else w' = w \<and> v' = v)"
  by (cases bt) (simp_all add: rtcan_mscan_set_bit_time_def rtcan_sja_set_bit_time_def mscan_btr sja_regs)

section \<open>Initialisation\<close>

text \<open>All enabled entries of the module parameter, initialised in turn, succeed.\<close>

fun mscan_all_ok ::
    "'h mscan_chip \<Rightarrow> ('h, 'z) mscan_world_scheme mscan_module \<Rightarrow> nat \<Rightarrow> nat list \<Rightarrow> ('h, 'z) mscan_world_scheme \<Rightarrow> bool" where
  "mscan_all_ok chip m fuel [] w = True"
| "mscan_all_ok chip m fuel (i # is) w =
     (if port m i < 1 \<or> port m i > int RTCAN_MSCAN_DEVS then mscan_all_ok chip m fuel is w
      else case rtcan_mscan_init_one chip m fuel i w of
             Inr (ret, w1) \<Rightarrow> ret = Inr 0 \<and> mscan_all_ok chip m fuel is w1
           | Inl _ \<Rightarrow> False)"

lemma mscan_init_loop_result:
  "mscan_init_loop chip m fuel is w = Inr (Some (r, w')) \<Longrightarrow> r = (if mscan_all_ok chip m fuel is w then Inr 0 else Inr 1)"
proof (induction "is" arbitrary: w)
  case (Cons i "is")
  show ?case
  proof (cases "port m i < 1 \<or> port m i > int RTCAN_MSCAN_DEVS")
    case False
    then obtain ret w1 where one: "rtcan_mscan_init_one chip m fuel i w = Inr (ret, w1)"
      using Cons.prems by (auto simp: kbind_eq_Inr)
    show ?thesis
    proof (cases "ret = Inr 0")
      case True
      then show ?thesis using False one Cons.prems Cons.IH [of w1] by simp
    next
      case ret: False
      then show ?thesis using False one Cons.prems by (auto simp: kbind_eq_Inr)
    qed
  qed (use Cons in simp)
qed simp

text \<open>
  The MSCAN module never reports a failed initialisation as an error: when the initialisation of an
  enabled controller fails, with whatever error code, all devices are given up again but the module
  init function returns 1, the value of the comparison, and not the negative error code; it returns 0
  exactly when every enabled controller was initialised.
\<close>

theorem mscan_init_error_lost:
  assumes "rtcan_mscan_init chip m fuel psc2 pins w = Inr (Some (r, w'))"
  shows "\<not> is_err r \<and>
    r = (if mscan_all_ok chip m fuel [0..<RTCAN_MSCAN_DEVS] (mscan_gpio_config psc2 pins w) then Inr 0 else Inr 1)"
  using mscan_init_loop_result [OF assms [unfolded rtcan_mscan_init_def]] by simp

section \<open>Witnesses\<close>

text \<open>The state of a CAN stack with MSCAN chips: the device \<open>d\<close> has its chip at the address \<open>d\<close>.\<close>

definition with_mscan :: "can_world \<Rightarrow> (mscan_regs \<Rightarrow> u8) \<Rightarrow> (mscan_regs \<Rightarrow> u8) mscan_world" where
  "with_mscan w h = \<lparr>rtcan_devices = rtcan_devices w, devs = devs w, socks = socks w, rtcan_socket_list = rtcan_socket_list w,
     ms_hw = (\<lambda>_. h), base_addr = of_nat, rtcan_mscan_devs = [None, None], port_config = 0\<rparr>"

lemma with_mscan_regs: "regs_of (with_mscan w h) d = h"
  by (simp add: regs_of_def with_mscan_def)

lemma with_mscan_inv:
  "can_inv (with_mscan w h) = can_inv w" "registered (with_mscan w h) d = registered w d"
  "queues (with_mscan w h) q = queues w q" "bindings_of (with_mscan w h) = bindings_of w"
  by (rule same_stack; simp add: with_mscan_def)+

definition mscan_sent :: "(mscan_regs \<Rightarrow> u8) mscan_world" where
  "mscan_sent = snd (rtcan_mscan_start_xmit reg_file 1 wire_frame (with_mscan bound_socket (\<lambda>r. if r = cantflg then 1 else 0)))"

definition mscan_got :: "(mscan_regs \<Rightarrow> u8) mscan_world" where
  "mscan_got = with_mscan bound_socket (\<lambda>r. case r of canrxfg x \<Rightarrow> regs_of mscan_sent 1 (cantxfg x) | _ \<Rightarrow> 0)"

theorem mscan_wire_roundtrip_witness:
  "\<exists>skb'. rtcan_mscan_rx_interrupt reg_file 0 zero_skb mscan_got = (skb', mscan_got) \<and>
     msg_of skb' None = \<lparr>m_id = 0x123, m_ifindex = 1, m_dlc = 2, m_data = [0xAB, 0xCD], m_ts = None\<rparr>"
proof -
  let ?w = "with_mscan bound_socket (\<lambda>r. if r = cantflg then 1 else 0)"
  have x: "rtcan_mscan_start_xmit reg_file 1 wire_frame ?w = (fst (rtcan_mscan_start_xmit reg_file 1 wire_frame ?w), mscan_sent)"
    by (simp add: mscan_sent_def)
  have g: "regs_of mscan_got 0 (canrxfg r) = regs_of mscan_sent 1 (cantxfg r)" for r by (simp add: mscan_got_def with_mscan_regs)
  have t: "\<not> regs_of ?w 1 cantflg AND MSCAN_TXE0 = 0" by (simp add: with_mscan_regs mscan_bits)
  have "dev_ifindex (devs bound_socket 0) = 1" by code_simp
  then have "dev_ifindex (devs mscan_got 0) = 1" by (simp add: mscan_got_def with_mscan_def)
  then show ?thesis
    using mscan_wire_roundtrip [OF x wire_frame_wire(1-3) g wire_frame_wire(5)] t wire_frame_wire(4)
    by (auto simp: wire_frame_def can_consts)
qed

lemma bound_ready: "ctl_ready 0 (with_mscan bound_socket h)"
proof -
  have "tx_socket (devs bound_socket 0) = None" by code_simp
  then show ?thesis
    using bound_socket_queues(1-3) by (auto simp: ctl_ready_def with_mscan_inv) (simp_all add: with_mscan_def)
qed

theorem mscan_interrupt_total_witness:
  "\<exists>w'. rtcan_mscan_interrupt reg_file 5 zero_skb 0 (with_mscan bound_socket (\<lambda>_. 0xFF)) = Inr (RTDM_IRQ_HANDLED, w') \<and> ctl_ready 0 w'"
  using mscan_interrupt_total [OF bound_ready wire_frame_wire(5), of reg_file 5] by blast

definition mscan_up :: "(mscan_regs \<Rightarrow> u8) \<Rightarrow> (mscan_regs \<Rightarrow> u8) mscan_world" where
  "mscan_up h = upd_dev 0 (\<lambda>dev. dev\<lparr>dev_state := CAN_STATE_ACTIVE\<rparr>) (with_mscan bound_socket h)"

lemma mscan_up_regs [simp]: "regs_of (mscan_up h) d = h" "dev_state (devs (mscan_up h) 0) = CAN_STATE_ACTIVE"
  using with_mscan_regs [of bound_socket h d] by (simp_all add: mscan_up_def regs_of_def upd_dev_def)

lemma active_operating: "CAN_STATE_OPERATING CAN_STATE_ACTIVE"
  by (simp add: CAN_STATE_OPERATING_iff)

lemma same_regs: "regs_of w d canctl1 = v \<Longrightarrow> after_tests (not_stopped reg_file d) (\<lambda>_ w. w) n k w = w"
  by (induction k arbitrary: n) (simp_all add: not_stopped_def)

theorem mscan_stop_returns_witness:
  "(\<exists>fuel w'. rtcan_mscan_set_mode reg_file (\<lambda>_ w. w) fuel 0 CAN_MODE_STOP (mscan_up (\<lambda>_. 3)) = Inr (Inr 0, w') \<and>
      dev_state (devs w' 0) = CAN_STATE_STOPPED) \<and>
   (\<forall>fuel. rtcan_mscan_set_mode reg_file (\<lambda>_ w. w) fuel 0 CAN_MODE_STOP (mscan_up (\<lambda>_. 0)) = Inl Diverges)"
proof -
  have ack: "fst (not_stopped reg_file 0 (after_tests (not_stopped reg_file 0) (\<lambda>_ w. w) 0 k (stop_requested reg_file 0 (mscan_up h))))
      \<longleftrightarrow> h canctl1 AND MSCAN_SLPAK = 0 \<or> h canctl1 AND MSCAN_INITAK = 0" for k h
    by (simp add: same_regs) (simp add: not_stopped_def stop_requested_def)
  show ?thesis
    using mscan_stop_returns [of "mscan_up (\<lambda>_. 3)" 0 reg_file "\<lambda>_ w. w"] mscan_stop_returns [of "mscan_up (\<lambda>_. 0)" 0 reg_file "\<lambda>_ w. w"]
    unfolding ack by (auto simp: active_operating mscan_bits)
qed

text \<open>A receiver that is error passive, with an error active transmitter.\<close>

theorem mscan_status_swapped_witness:
  "\<exists>w'. mscan_err_sources reg_file 0 0x60 (mscan_up (\<lambda>_. 0)) = (CAN_ERR_FLAG OR CAN_ERR_CRTL, CAN_ERR_CRTL_TX_PASSIVE, w') \<and>
     dev_state (devs w' 0) = CAN_STATE_BUS_PASSIVE"
proof -
  obtain i d1 w' where r: "mscan_err_sources reg_file 0 0x60 (mscan_up (\<lambda>_. 0)) = (i, d1, w')" by (metis prod_cases3)
  have s: "receiver_status 0x60 = 2" "transmitter_status 0x60 = 0" by (simp_all add: receiver_status_def transmitter_status_def)
  show ?thesis
    using mscan_status_swapped [OF _ _ r] r unfolding s by (auto simp: mscan_bits mscan_stat_map_def)
qed

theorem mscan_sleep_mode_witness:
  "\<exists>w1. rtcan_mscan_set_mode reg_file (ms_env (\<lambda>_ h. h) 0) 3 0 CAN_MODE_SLEEP (mscan_up (\<lambda>r. if r = canctl1 then 2 else 0)) = Inr (Inr 0, w1) \<and>
     dev_state (devs w1 0) = CAN_STATE_SLEEPING \<and> state_before_sleep (devs w1 0) = CAN_STATE_ACTIVE \<and>
     rtcan_mscan_set_mode reg_file (ms_env (\<lambda>_ h. h) 0) 3 0 CAN_MODE_STOP w1 = Inr (Inr 0, w1)"
proof -
  let ?w = "mscan_up (\<lambda>r. if r = canctl1 then 2 else 0)"
  obtain r w1 where run: "rtcan_mscan_set_mode reg_file (ms_env (\<lambda>_ h. h) 0) 3 0 CAN_MODE_SLEEP ?w = Inr (r, w1)"
    by (cases "mscan_sleep reg_file (ms_env (\<lambda>_ h. h) 0) 0 ?w") (simp add: rtcan_mscan_set_mode_def)
  show ?thesis
    using mscan_sleep_mode [OF _ run _ _ refl, where h = "\<lambda>_ r. if r = canrflg then MSCAN_WUPIF else 0"] run
    by (auto simp: active_operating) (auto simp: regs_of_def)
qed

theorem mscan_reconfigure_witness:
  "\<exists>w'. rtcan_raw_ioctl_dev_set (mscan_ops reg_file (\<lambda>_ h r. if r = canctl1 then 3 - h r else h r) 3) (mscan_up (\<lambda>_. 0)) 0 (SIOCSCANCTRLMODE 3)
      (CAN_BITTIME_OTHER 7) = Inr (Inr 0, w') \<and> ctrl_mode (devs w' 0) = 3 \<and> dev_state (devs w' 0) = CAN_STATE_ACTIVE"
proof -
  let ?ops = "mscan_ops reg_file (\<lambda>_ h r. if r = canctl1 then 3 - h r else h r) 3 :: (mscan_regs \<Rightarrow> u8) mscan_world can_ops"
  let ?w = "mscan_up (\<lambda>_. 0)"
  have buf: "prepare_bit_time ?ops (can_sys_clock (devs ?w 0)) (SIOCSCANCTRLMODE 3) (CAN_BITTIME_OTHER 7) = Inr (Some (CAN_BITTIME_OTHER 7))"
    by (simp add: prepare_bit_time_def)
  obtain w' where run: "rtcan_raw_ioctl_dev_set ?ops ?w 0 (SIOCSCANCTRLMODE 3) (CAN_BITTIME_OTHER 7) = Inr (Inr 0, w')"
  proof -
    have "\<exists>w'. rtcan_raw_ioctl_dev_set ?ops ?w 0 (SIOCSCANCTRLMODE 3) (CAN_BITTIME_OTHER 7) = Inr (Inr 0, w')"
      unfolding rtcan_raw_ioctl_dev_set_def buf
      by (simp add: refresh_same active_operating mscan.call_set_mode_eq rtcan_mscan_set_mode_def rtcan_mscan_mode_stop_def
          rtcan_mscan_mode_start_def mscan_leave_init_def mscan_set_ctl1_def Let_def numeral_3_eq_3 not_stopped_def not_normal_def
          mscan_bits dev_set_body_def can_consts upd_tx_sem_def)
    with that show thesis by blast
  qed
  show ?thesis
    using mscan_reconfigure [OF run buf] run by (auto simp: active_operating cfg_frame_def ctl_frame_def set_config_def dev_config_def)
qed

definition no_memory :: "(mscan_regs \<Rightarrow> u8) mscan_world mscan_module" where
  "no_memory = \<lparr>mbar = 0xF0000000, mscan_clock = 33000000, port = (\<lambda>i. int i + 1), dev_mem = (\<lambda>_. None), irq_result = (\<lambda>_. Inr 0),
     chip_env = (\<lambda>_ _ w. w), ref_waits = (\<lambda>_. [])\<rparr>"

theorem mscan_init_error_lost_witness:
  "\<exists>w'. rtcan_mscan_init reg_file no_memory 3 True None (with_mscan bound_socket (\<lambda>_. 0)) = Inr (Some (Inr 1, w'))"
proof -
  let ?w = "with_mscan bound_socket (\<lambda>_. 0)"
  let ?v = "mscan_gpio_config True None ?w"
  have one: "rtcan_mscan_init_one reg_file no_memory 3 0 ?v = Inr (Inl ENOMEM, ?v)"
    by (simp add: rtcan_mscan_init_one_def no_memory_def rtcan_dev_alloc_def)
  have two: "[0..<RTCAN_MSCAN_DEVS] = [0, 1]" by (simp add: RTCAN_MSCAN_DEVS_def upt_rec)
  have port: "\<not> (port no_memory 0 < 1 \<or> port no_memory 0 > int RTCAN_MSCAN_DEVS)"
    by (simp add: no_memory_def RTCAN_MSCAN_DEVS_def)
  have "rtcan_mscan_devs ?v = [None, None]" by (simp add: mscan_gpio_config_def with_mscan_def)
  then have "rtcan_mscan_exit reg_file no_memory 3 ?v = Inr (Some ?v)" by (simp add: rtcan_mscan_exit_def two)
  then have "\<exists>r w'. rtcan_mscan_init reg_file no_memory 3 True None ?w = Inr (Some (r, w'))"
    using one port by (simp add: rtcan_mscan_init_def two)
  moreover have "\<not> mscan_all_ok reg_file no_memory 3 [0..<RTCAN_MSCAN_DEVS] ?v" using one port by (simp add: two)
  ultimately show ?thesis using mscan_init_error_lost [of reg_file no_memory 3 True None ?w] by auto
qed

end
