(* ===== verification/Rtdm_Core.thy ===== *)
theory Rtdm_Core
  imports Prelude
begin

text \<open>
  The core of RTDM for native Linux (\<open>skins/rtdm/native/device.c\<close>, \<open>core.c\<close>, \<open>internal.h\<close>): registration of
  drivers, and the way of a system call on a character device or a socket to a handler of the driver.
  What the drivers do is an argument: a handler gets the context of the call, its arguments and the
  state of the driver, and returns a result and a new state, or is still asleep. The services of the
  kernel (memory, device numbers, protocol families) are arguments too.
\<close>

section \<open>Devices and contexts\<close>

definition RTDM_EXCLUSIVE :: u32 where "RTDM_EXCLUSIVE = 0x0001"
definition RTDM_NAMED_DEVICE :: u32 where "RTDM_NAMED_DEVICE = 0x0010"
definition RTDM_PROTOCOL_DEVICE :: u32 where "RTDM_PROTOCOL_DEVICE = 0x0020"
definition RTDM_DEVICE_TYPE_MASK :: u32 where "RTDM_DEVICE_TYPE_MASK = 0x00F0"
definition RTDM_DEVICE_STRUCT_VER :: int where "RTDM_DEVICE_STRUCT_VER = 3"

lemmas rtdm_flags = RTDM_EXCLUSIVE_def RTDM_NAMED_DEVICE_def RTDM_PROTOCOL_DEVICE_def RTDM_DEVICE_TYPE_MASK_def

text \<open>
  A handler, given the address of the context: \<open>Inl\<close> is a fault of the driver, \<open>Inr None\<close> a call that is
  still asleep. A pointer to a handler may be null.
\<close>

type_synonym ('a, 's) handler = "nat \<Rightarrow> 'a \<Rightarrow> 's \<Rightarrow> (cret \<times> 's) option kres"

text \<open>
  \<open>'p\<close> is what a pointer argument of a call points to. A request of \<open>ioctl\<close> is a number, or one of the
  three requests \<open>_RTIOC_BIND\<close>, \<open>_RTIOC_SETSOCKOPT\<close> and \<open>_RTIOC_GETSOCKOPT\<close> that stand for socket calls.
\<close>

datatype 'p rtdm_request = RtdmIoctl u32 'p | RtdmBind 'p | RtdmSetsockopt 'p | RtdmGetsockopt 'p

record ('p, 's) rtdm_operations =
  close_rt :: "(unit, 's) handler option"
  close_nrt :: "(unit, 's) handler option"
  ioctl_rt :: "('p rtdm_request, 's) handler option"
  ioctl_nrt :: "('p rtdm_request, 's) handler option"
  read_rt :: "('p \<times> nat, 's) handler option"
  read_nrt :: "('p \<times> nat, 's) handler option"
  write_rt :: "('p \<times> nat, 's) handler option"
  write_nrt :: "('p \<times> nat, 's) handler option"
  recvmsg_rt :: "('p \<times> u32, 's) handler option"
  recvmsg_nrt :: "('p \<times> u32, 's) handler option"
  sendmsg_rt :: "('p \<times> u32, 's) handler option"
  sendmsg_nrt :: "('p \<times> u32, 's) handler option"

record ('p, 's) rtdm_device =
  struct_version :: int
  device_flags :: u32
  device_name :: string
  protocol_family :: int
  open_rt :: "(int, 's) handler option"
  open_nrt :: "(int, 's) handler option"
  socket_rt :: "(int, 's) handler option"
  socket_nrt :: "(int, 's) handler option"
  dev_ops :: "('p, 's) rtdm_operations"
  proc_name :: "string option"
  device_id :: nat
  chrdev_major :: cret
  dev_refcount :: int

record rtdm_dev_context =
  ctx_flags :: u32
  ctx_fd :: int
  close_lock_count :: int
  ctx_device :: nat

text \<open>
  The state: the allocated device and context structures by address, what the kernel has registered
  (character devices by their major number, protocols, protocol families), and the state of the
  drivers.
\<close>

record ('p, 's) rtdm_sys =
  rdevs :: "nat \<Rightarrow> ('p, 's) rtdm_device option"
  ctxs :: "nat \<Rightarrow> rtdm_dev_context option"
  chrdevs :: "int \<Rightarrow> nat option"
  protos :: "nat \<Rightarrow> bool"
  families :: "int \<Rightarrow> nat option"
  drv :: 's

definition dev_of :: "('p, 's) rtdm_sys \<Rightarrow> nat \<Rightarrow> ('p, 's) rtdm_device kres" where
  "dev_of S d = (case rdevs S d of None \<Rightarrow> Inl UseAfterFree | Some dev \<Rightarrow> Inr dev)"

definition upd_rdev :: "nat \<Rightarrow> (('p, 's) rtdm_device \<Rightarrow> ('p, 's) rtdm_device) \<Rightarrow> ('p, 's) rtdm_sys \<Rightarrow> ('p, 's) rtdm_sys" where
  "upd_rdev d f S = S\<lparr>rdevs := (rdevs S)(d := map_option f (rdevs S d))\<rparr>"

definition rtdm_reference_device :: "nat \<Rightarrow> ('p, 's) rtdm_sys \<Rightarrow> ('p, 's) rtdm_sys" where
  "rtdm_reference_device d S = upd_rdev d (\<lambda>dev. dev\<lparr>dev_refcount := dev_refcount dev + 1\<rparr>) S"

definition rtdm_dereference_device :: "nat \<Rightarrow> ('p, 's) rtdm_sys \<Rightarrow> ('p, 's) rtdm_sys" where
  "rtdm_dereference_device d S = upd_rdev d (\<lambda>dev. dev\<lparr>dev_refcount := dev_refcount dev - 1\<rparr>) S"

section \<open>Registration\<close>

definition rtdm_no_support :: "('a, 's) handler" where
  "rtdm_no_support c a s = Inr (Some (Inl ENOSYS, s))"

definition default_if_null :: "('a, 's) handler option \<Rightarrow> ('a, 's) handler option" where
  "default_if_null h = (case h of None \<Rightarrow> Some rtdm_no_support | Some f \<Rightarrow> Some f)"

definition default_ops :: "('p, 's) rtdm_operations \<Rightarrow> ('p, 's) rtdm_operations" where
  "default_ops ops = \<lparr>
     close_rt = default_if_null (close_rt ops), close_nrt = default_if_null (close_nrt ops),
     ioctl_rt = default_if_null (ioctl_rt ops), ioctl_nrt = default_if_null (ioctl_nrt ops),
     read_rt = default_if_null (read_rt ops), read_nrt = default_if_null (read_nrt ops),
     write_rt = default_if_null (write_rt ops), write_nrt = default_if_null (write_nrt ops),
     recvmsg_rt = default_if_null (recvmsg_rt ops), recvmsg_nrt = default_if_null (recvmsg_nrt ops),
     sendmsg_rt = default_if_null (sendmsg_rt ops), sendmsg_nrt = default_if_null (sendmsg_nrt ops)\<rparr>"

text \<open>The sanity checks are compiled in when \<open>debug\<close> is set. The handlers that create a context:\<close>

definition default_creators :: "bool \<Rightarrow> ('p, 's) rtdm_device \<Rightarrow> ('p, 's) rtdm_device option" where
  "default_creators debug dev =
     (let t = device_flags dev AND RTDM_DEVICE_TYPE_MASK in
      if t = RTDM_NAMED_DEVICE then
        if debug \<and> open_rt dev = None \<and> open_nrt dev = None then None
        else Some (dev\<lparr>open_rt := default_if_null (open_rt dev), open_nrt := default_if_null (open_nrt dev),
                       socket_rt := Some rtdm_no_support, socket_nrt := Some rtdm_no_support\<rparr>)
      else if t = RTDM_PROTOCOL_DEVICE then
        if debug \<and> socket_rt dev = None \<and> socket_nrt dev = None then None
        else Some (dev\<lparr>socket_rt := default_if_null (socket_rt dev), socket_nrt := default_if_null (socket_nrt dev),
                       open_rt := Some rtdm_no_support, open_nrt := Some rtdm_no_support\<rparr>)
      else None)"

text \<open>
  The results of \<open>register_chrdev\<close>, \<open>proto_register\<close> and \<open>sock_register\<close>. With the major number 0 the first
  one chooses a free number and returns it. The name of a protocol is copied from \<open>proc_name\<close>.
\<close>

record kernel_results =
  chrdev_ret :: cret
  proto_ret :: cret
  sock_ret :: cret

definition register_kernel ::
    "kernel_results \<Rightarrow> ('p, 's) rtdm_sys \<Rightarrow> nat \<Rightarrow> ('p, 's) rtdm_device \<Rightarrow> (cret \<times> ('p, 's) rtdm_sys) kres" where
  "register_kernel k S d dev =
     (if device_flags dev AND RTDM_DEVICE_TYPE_MASK = RTDM_NAMED_DEVICE then
        let S1 = upd_rdev d (\<lambda>dev. dev\<lparr>chrdev_major := chrdev_ret k\<rparr>) S
        in Inr (chrdev_ret k, case chrdev_ret k of Inr m \<Rightarrow> S1\<lparr>chrdevs := (chrdevs S1)(m := Some d)\<rparr> | Inl _ \<Rightarrow> S1)
      else if proc_name dev = None then Inl NullDeref
      else if proto_ret k \<noteq> Inr 0 then Inr (proto_ret k, S)
      else
        let S1 = S\<lparr>protos := (protos S)(d := True)\<rparr>
        in Inr (sock_ret k, if sock_ret k = Inr 0 then S1\<lparr>families := (families S1)(protocol_family dev := Some d)\<rparr> else S1))"

definition rtdm_dev_register ::
    "bool \<Rightarrow> kernel_results \<Rightarrow> ('p, 's) rtdm_sys \<Rightarrow> nat \<Rightarrow> (cret \<times> ('p, 's) rtdm_sys) kres" where
  "rtdm_dev_register debug k S d =
     kbind (dev_of S d) (\<lambda>dev.
     if debug \<and> (struct_version dev \<noteq> RTDM_DEVICE_STRUCT_VER \<or> proc_name dev = None) then Inr (Inl EINVAL, S)
     else case default_creators debug dev of
       None \<Rightarrow> Inr (Inl EINVAL, S)
     | Some dev1 \<Rightarrow>
         if debug \<and> close_nrt (dev_ops dev) = None then Inr (Inl EINVAL, upd_rdev d (\<lambda>_. dev1) S)
         else
           let dev2 = dev1\<lparr>dev_ops := default_ops (dev_ops dev1), dev_refcount := 0\<rparr>
           in register_kernel k (upd_rdev d (\<lambda>_. dev2) S) d dev2)"

text \<open>
  Unregistration waits until nobody holds a reference; \<open>waits\<close> is what the rest of the system does in
  each of the delays. \<open>Inr None\<close>: still waiting.
\<close>

definition unregister_kernel :: "('p, 's) rtdm_sys \<Rightarrow> nat \<Rightarrow> ('p, 's) rtdm_device \<Rightarrow> ('p, 's) rtdm_sys" where
  "unregister_kernel S d dev =
     (if device_flags dev AND RTDM_DEVICE_TYPE_MASK = RTDM_NAMED_DEVICE then
        (case chrdev_major dev of Inr m \<Rightarrow> S\<lparr>chrdevs := (chrdevs S)(m := None)\<rparr> | Inl _ \<Rightarrow> S)
      else S\<lparr>families := (families S)(protocol_family dev := None), protos := (protos S)(d := False)\<rparr>)"

fun unregister_loop ::
    "('p, 's) rtdm_sys \<Rightarrow> nat \<Rightarrow> nat \<Rightarrow> (('p, 's) rtdm_sys \<Rightarrow> ('p, 's) rtdm_sys) list
      \<Rightarrow> (cret \<times> ('p, 's) rtdm_sys) option kres" where
  "unregister_loop S d poll_delay waits =
     kbind (dev_of S d) (\<lambda>dev.
     if dev_refcount dev > 0 then
       if poll_delay = 0 then Inr (Some (Inl EAGAIN, S))
       else (case waits of [] \<Rightarrow> Inr None | f # fs \<Rightarrow> unregister_loop (f S) d poll_delay fs)
     else Inr (Some (Inr 0, unregister_kernel S d dev)))"

declare unregister_loop.simps [simp del]

definition rtdm_dev_unregister ::
    "('p, 's) rtdm_sys \<Rightarrow> nat option \<Rightarrow> nat \<Rightarrow> (('p, 's) rtdm_sys \<Rightarrow> ('p, 's) rtdm_sys) list
      \<Rightarrow> (cret \<times> ('p, 's) rtdm_sys) option kres" where
  "rtdm_dev_unregister S device poll_delay waits =
     (case device of
        None \<Rightarrow> Inr (Some (Inl ENODEV, S))
      | Some d \<Rightarrow> kbind (dev_of S d) (\<lambda>dev.
          if device_flags dev AND RTDM_DEVICE_TYPE_MASK = 0 then Inr (Some (Inl ENODEV, S))
          else unregister_loop S d poll_delay waits))"

section \<open>Calls\<close>

definition call_handler ::
    "('a, 's) handler option \<Rightarrow> nat \<Rightarrow> 'a \<Rightarrow> ('p, 's) rtdm_sys \<Rightarrow> (cret \<times> ('p, 's) rtdm_sys) option kres" where
  "call_handler h c a S =
     (case h of
        None \<Rightarrow> Inl NullDeref
      | Some f \<Rightarrow> kbind (f c a (drv S)) (\<lambda>r. Inr (map_option (\<lambda>(ret, s). (ret, S\<lparr>drv := s\<rparr>)) r)))"

text \<open>The second handler is called when the first one is not supported.\<close>

definition or_else ::
    "('a, 's) handler option \<Rightarrow> ('a, 's) handler option \<Rightarrow> nat \<Rightarrow> 'a \<Rightarrow> ('p, 's) rtdm_sys
      \<Rightarrow> (cret \<times> ('p, 's) rtdm_sys) option kres" where
  "or_else h1 h2 c a S =
     kbind (call_handler h1 c a S) (\<lambda>r.
     case r of
       None \<Rightarrow> Inr None
     | Some (ret, S1) \<Rightarrow> if ret = Inl ENOSYS then call_handler h2 c a S1 else Inr (Some (ret, S1)))"

definition new_context :: "nat \<Rightarrow> int \<Rightarrow> rtdm_dev_context" where
  "new_context d pid = \<lparr>ctx_flags = 0, ctx_fd = pid, close_lock_count = 0, ctx_device = d\<rparr>"

text \<open>
  Opening a character device of the device \<open>d\<close>, and creating a socket of its protocol. \<open>mem\<close> is the
  address of the new context, \<open>None\<close> when there is no memory.
\<close>

definition create_context ::
    "(('p, 's) rtdm_device \<Rightarrow> (int, 's) handler option) \<Rightarrow> (('p, 's) rtdm_device \<Rightarrow> (int, 's) handler option)
      \<Rightarrow> ('p, 's) rtdm_sys \<Rightarrow> nat \<Rightarrow> int \<Rightarrow> int \<Rightarrow> nat option \<Rightarrow> (cret \<times> ('p, 's) rtdm_sys) option kres" where
  "create_context nrt rt S d pid arg mem =
     kbind (dev_of S d) (\<lambda>dev.
     let S1 = rtdm_reference_device d S in
     case mem of
       None \<Rightarrow> Inr (Some (Inl ENOMEM, S1))
     | Some c \<Rightarrow> or_else (nrt dev) (rt dev) c arg (S1\<lparr>ctxs := (ctxs S1)(c := Some (new_context d pid))\<rparr>))"

definition rtdm_open ::
    "('p, 's) rtdm_sys \<Rightarrow> nat \<Rightarrow> int \<Rightarrow> int \<Rightarrow> nat option \<Rightarrow> (cret \<times> ('p, 's) rtdm_sys) option kres" where
  "rtdm_open S d pid oflags mem = create_context open_nrt open_rt S d pid oflags mem"

definition rtdm_socket_lx ::
    "('p, 's) rtdm_sys \<Rightarrow> nat \<Rightarrow> int \<Rightarrow> int \<Rightarrow> nat option \<Rightarrow> (cret \<times> ('p, 's) rtdm_sys) option kres" where
  "rtdm_socket_lx S d pid protocol mem = create_context socket_nrt socket_rt S d pid protocol mem"

text \<open>A call on a context: the context and its device have to be there.\<close>

definition with_context ::
    "('p, 's) rtdm_sys \<Rightarrow> nat \<Rightarrow> (rtdm_dev_context \<Rightarrow> ('p, 's) rtdm_operations \<Rightarrow> 'b kres) \<Rightarrow> 'b kres" where
  "with_context S c f =
     (case ctxs S c of
        None \<Rightarrow> Inl UseAfterFree
      | Some ctx \<Rightarrow> kbind (dev_of S (ctx_device ctx)) (\<lambda>dev. f ctx (dev_ops dev)))"

definition release_context :: "nat \<Rightarrow> rtdm_dev_context \<Rightarrow> ('p, 's) rtdm_sys \<Rightarrow> ('p, 's) rtdm_sys" where
  "release_context c ctx S = (let S1 = rtdm_dereference_device (ctx_device ctx) S in S1\<lparr>ctxs := (ctxs S1)(c := None)\<rparr>)"

text \<open>\<open>pd\<close> is \<open>file->private_data\<close>.\<close>

definition rtdm_chrdev_release ::
    "('p, 's) rtdm_sys \<Rightarrow> nat option \<Rightarrow> (cret \<times> ('p, 's) rtdm_sys) option kres" where
  "rtdm_chrdev_release S pd =
     (case pd of
        None \<Rightarrow> Inr (Some (Inl ENODEV, S))
      | Some c \<Rightarrow> with_context S c (\<lambda>ctx ops.
          kbind (call_handler (close_nrt ops) c () S) (\<lambda>r.
          case r of
            None \<Rightarrow> Inr None
          | Some (ret, S1) \<Rightarrow>
              if ret = Inl ENOSYS then
                kbind (call_handler (close_rt ops) c () S1) (\<lambda>r2.
                Inr (map_option (\<lambda>(ret2, S2). (ret2, release_context c ctx S2)) r2))
              else if is_err ret then Inr (Some (ret, S1))
              else Inr (Some (ret, release_context c ctx S1)))))"

definition rtdm_sock_release ::
    "('p, 's) rtdm_sys \<Rightarrow> nat \<Rightarrow> (cret \<times> ('p, 's) rtdm_sys) option kres" where
  "rtdm_sock_release S c =
     with_context S c (\<lambda>ctx ops.
       kbind (call_handler (close_nrt ops) c () S) (\<lambda>r.
       Inr (map_option (\<lambda>(ret, S1). (ret, if is_err ret then S1 else release_context c ctx S1)) r)))"

text \<open>\<open>MAJOR_CHRDEV_FUNCTION_WRAPPER\<close> and \<open>MAJOR_SOCKET_FUNCTION_WRAPPER\<close>: one body, two ways to the context.\<close>

definition function_wrapper ::
    "(('p, 's) rtdm_operations \<Rightarrow> ('a, 's) handler option) \<Rightarrow> (('p, 's) rtdm_operations \<Rightarrow> ('a, 's) handler option)
      \<Rightarrow> ('p, 's) rtdm_sys \<Rightarrow> nat \<Rightarrow> 'a \<Rightarrow> (cret \<times> ('p, 's) rtdm_sys) option kres" where
  "function_wrapper rt nrt S c a = with_context S c (\<lambda>ctx ops. or_else (rt ops) (nrt ops) c a S)"

definition rtdm_chrdev_ioctl where "rtdm_chrdev_ioctl S c request arg = function_wrapper ioctl_rt ioctl_nrt S c (RtdmIoctl request arg)"
definition rtdm_read where "rtdm_read S c buf nbyte = function_wrapper read_rt read_nrt S c (buf, nbyte)"
definition rtdm_write where "rtdm_write S c buf nbyte = function_wrapper write_rt write_nrt S c (buf, nbyte)"
definition rtdm_sock_ioctl where "rtdm_sock_ioctl S c cmd arg = function_wrapper ioctl_rt ioctl_nrt S c (RtdmIoctl cmd arg)"
definition rtdm_sock_recvmsg where "rtdm_sock_recvmsg S c msg flags = function_wrapper recvmsg_rt recvmsg_nrt S c (msg, flags)"
definition rtdm_sock_sendmsg where "rtdm_sock_sendmsg S c msg = function_wrapper sendmsg_rt sendmsg_nrt S c (msg, 0)"

definition rtdm_sock_bind where "rtdm_sock_bind S c args = function_wrapper ioctl_rt ioctl_nrt S c (RtdmBind args)"
definition rtdm_sock_setsockopt where "rtdm_sock_setsockopt S c args = function_wrapper ioctl_rt ioctl_nrt S c (RtdmSetsockopt args)"
definition rtdm_sock_getsockopt where "rtdm_sock_getsockopt S c args = function_wrapper ioctl_rt ioctl_nrt S c (RtdmGetsockopt args)"

lemmas rtdm_call_defs = rtdm_chrdev_ioctl_def rtdm_read_def rtdm_write_def rtdm_sock_ioctl_def rtdm_sock_recvmsg_def
  rtdm_sock_sendmsg_def rtdm_sock_bind_def rtdm_sock_setsockopt_def rtdm_sock_getsockopt_def

end
