(* ===== verification/Rtdm_Life.thy ===== *)
theory Rtdm_Life
  imports Rtdm_Core
begin

text \<open>
  The life of devices and contexts: in any order of registrations, opens, calls, releases and
  unregistrations a call on an open descriptor reaches a handler of a device that is still
  registered. A failed open, on the other hand, leaves a reference behind that keeps the device
  registered for ever.
\<close>

section \<open>The transition system\<close>

datatype 'p rtdm_call = CallIoctl u32 'p | CallRead 'p nat | CallWrite 'p nat | CallSockIoctl u32 'p | CallRecvmsg 'p u32
  | CallSendmsg 'p | CallBind 'p | CallSetsockopt 'p | CallGetsockopt 'p

fun do_call :: "('p, 's) rtdm_sys \<Rightarrow> nat \<Rightarrow> 'p rtdm_call \<Rightarrow> (cret \<times> ('p, 's) rtdm_sys) option kres" where
  "do_call S c (CallIoctl request arg) = rtdm_chrdev_ioctl S c request arg"
| "do_call S c (CallRead buf nbyte) = rtdm_read S c buf nbyte"
| "do_call S c (CallWrite buf nbyte) = rtdm_write S c buf nbyte"
| "do_call S c (CallSockIoctl cmd arg) = rtdm_sock_ioctl S c cmd arg"
| "do_call S c (CallRecvmsg msg flags) = rtdm_sock_recvmsg S c msg flags"
| "do_call S c (CallSendmsg msg) = rtdm_sock_sendmsg S c msg"
| "do_call S c (CallBind args) = rtdm_sock_bind S c args"
| "do_call S c (CallSetsockopt args) = rtdm_sock_setsockopt S c args"
| "do_call S c (CallGetsockopt args) = rtdm_sock_getsockopt S c args"

definition dev_registered :: "('p, 's) rtdm_sys \<Rightarrow> nat \<Rightarrow> bool" where
  "dev_registered S d \<longleftrightarrow> (\<exists>m. chrdevs S m = Some d) \<or> (\<exists>f. families S f = Some d)"

text \<open>
  What the kernel promises: it hands out only device numbers and protocol families that are free, and
  memory that is not in use.
\<close>

definition fresh_results :: "kernel_results \<Rightarrow> ('p, 's) rtdm_sys \<Rightarrow> nat \<Rightarrow> bool" where
  "fresh_results k S d \<longleftrightarrow> (\<forall>m. chrdev_ret k = Inr m \<longrightarrow> chrdevs S m = None)
     \<and> (\<forall>dev. sock_ret k = Inr 0 \<and> rdevs S d = Some dev \<longrightarrow> families S (protocol_family dev) = None)"

definition fresh_mem :: "nat option \<Rightarrow> ('p, 's) rtdm_sys \<Rightarrow> bool" where
  "fresh_mem mem S \<longleftrightarrow> (\<forall>c. mem = Some c \<longrightarrow> ctxs S c = None)"

text \<open>
  A state with the contexts that belong to an open descriptor. The kernel opens no descriptor when the
  handler fails, and drops one whatever its release returns. Drivers allocate device structures,
  register them unless they are registered, and free them only then; interrupts change the state of
  the drivers.
\<close>

type_synonym ('p, 's) rtdm_state = "('p, 's) rtdm_sys \<times> nat set"

inductive rtdm_step :: "bool \<Rightarrow> ('p, 's) rtdm_state \<Rightarrow> ('p, 's) rtdm_state \<Rightarrow> bool" for debug :: bool where
  alloc: "rdevs S d = None \<Longrightarrow> rtdm_step debug (S, fds) (S\<lparr>rdevs := (rdevs S)(d := Some dev)\<rparr>, fds)"
| free: "\<not> dev_registered S d \<Longrightarrow> rtdm_step debug (S, fds) (S\<lparr>rdevs := (rdevs S)(d := None)\<rparr>, fds)"
| register: "\<not> dev_registered S d \<Longrightarrow> fresh_results k S d \<Longrightarrow> rtdm_dev_register debug k S d = Inr (r, S')
    \<Longrightarrow> rtdm_step debug (S, fds) (S', fds)"
| open_chrdev: "chrdevs S m = Some d \<Longrightarrow> fresh_mem mem S \<Longrightarrow> rtdm_open S d pid oflags mem = Inr (Some (r, S'))
    \<Longrightarrow> rtdm_step debug (S, fds) (S', if r = Inr 0 then fds \<union> set_option mem else fds)"
| create_socket: "families S f = Some d \<Longrightarrow> fresh_mem mem S \<Longrightarrow> rtdm_socket_lx S d pid protocol mem = Inr (Some (r, S'))
    \<Longrightarrow> rtdm_step debug (S, fds) (S', if is_err r then fds else fds \<union> set_option mem)"
| call: "c \<in> fds \<Longrightarrow> do_call S c q = Inr (Some (r, S')) \<Longrightarrow> rtdm_step debug (S, fds) (S', fds)"
| release_chrdev: "c \<in> fds \<Longrightarrow> rtdm_chrdev_release S (Some c) = Inr (Some (r, S'))
    \<Longrightarrow> rtdm_step debug (S, fds) (S', fds - {c})"
| release_sock: "c \<in> fds \<Longrightarrow> rtdm_sock_release S c = Inr (Some (r, S')) \<Longrightarrow> rtdm_step debug (S, fds) (S', fds - {c})"
| unregister: "rtdm_dev_unregister S (Some d) poll_delay [] = Inr (Some (r, S')) \<Longrightarrow> dev_registered S d
    \<Longrightarrow> rtdm_step debug (S, fds) (S', fds)"
| driver: "rtdm_step debug (S, fds) (S\<lparr>drv := s\<rparr>, fds)"

definition boot :: "('p, 's) rtdm_state \<Rightarrow> bool" where
  "boot = (\<lambda>(S, fds). fds = {} \<and> rdevs S = (\<lambda>_. None) \<and> ctxs S = (\<lambda>_. None) \<and> chrdevs S = (\<lambda>_. None)
     \<and> families S = (\<lambda>_. None) \<and> protos S = (\<lambda>_. False))"

section \<open>The invariant\<close>

definition complete_ops :: "('p, 's) rtdm_operations \<Rightarrow> bool" where
  "complete_ops ops \<longleftrightarrow> close_rt ops \<noteq> None \<and> close_nrt ops \<noteq> None \<and> ioctl_rt ops \<noteq> None \<and> ioctl_nrt ops \<noteq> None
     \<and> read_rt ops \<noteq> None \<and> read_nrt ops \<noteq> None \<and> write_rt ops \<noteq> None \<and> write_nrt ops \<noteq> None
     \<and> recvmsg_rt ops \<noteq> None \<and> recvmsg_nrt ops \<noteq> None \<and> sendmsg_rt ops \<noteq> None \<and> sendmsg_nrt ops \<noteq> None"

definition complete :: "('p, 's) rtdm_device \<Rightarrow> bool" where
  "complete dev \<longleftrightarrow> open_rt dev \<noteq> None \<and> open_nrt dev \<noteq> None \<and> socket_rt dev \<noteq> None \<and> socket_nrt dev \<noteq> None
     \<and> complete_ops (dev_ops dev)"

definition named :: "('p, 's) rtdm_device \<Rightarrow> bool" where
  "named dev \<longleftrightarrow> device_flags dev AND RTDM_DEVICE_TYPE_MASK = RTDM_NAMED_DEVICE"

definition users :: "('p, 's) rtdm_sys \<Rightarrow> nat \<Rightarrow> nat set" where
  "users S d = {c. \<exists>ctx. ctxs S c = Some ctx \<and> ctx_device ctx = d}"

definition core_inv :: "('p, 's) rtdm_state \<Rightarrow> bool" where
  "core_inv = (\<lambda>(S, fds). finite (dom (ctxs S)) \<and> fds \<subseteq> dom (ctxs S)
     \<and> (\<forall>c ctx. ctxs S c = Some ctx \<longrightarrow> dev_registered S (ctx_device ctx))
     \<and> (\<forall>d. dev_registered S d \<longrightarrow> (\<exists>dev. rdevs S d = Some dev \<and> complete dev \<and> int (card (users S d)) \<le> dev_refcount dev))
     \<and> (\<forall>m d. chrdevs S m = Some d \<longrightarrow> (\<exists>dev. rdevs S d = Some dev \<and> named dev \<and> chrdev_major dev = Inr m))
     \<and> (\<forall>f d. families S f = Some d \<longrightarrow> (\<exists>dev. rdevs S d = Some dev \<and> \<not> named dev \<and> protocol_family dev = f)))"

lemma core_invI:
  assumes "finite (dom (ctxs S))" "fds \<subseteq> dom (ctxs S)" "\<And>c ctx. ctxs S c = Some ctx \<Longrightarrow> dev_registered S (ctx_device ctx)"
    "\<And>d. dev_registered S d \<Longrightarrow> \<exists>dev. rdevs S d = Some dev \<and> complete dev \<and> int (card (users S d)) \<le> dev_refcount dev"
    "\<And>m d. chrdevs S m = Some d \<Longrightarrow> \<exists>dev. rdevs S d = Some dev \<and> named dev \<and> chrdev_major dev = Inr m"
    "\<And>f d. families S f = Some d \<Longrightarrow> \<exists>dev. rdevs S d = Some dev \<and> \<not> named dev \<and> protocol_family dev = f"
  shows "core_inv (S, fds)"
  using assms by (simp add: core_inv_def)

lemma core_invD:
  assumes "core_inv (S, fds)"
  shows "finite (dom (ctxs S))" "fds \<subseteq> dom (ctxs S)" "\<And>c ctx. ctxs S c = Some ctx \<Longrightarrow> dev_registered S (ctx_device ctx)"
    "\<And>d. dev_registered S d \<Longrightarrow> \<exists>dev. rdevs S d = Some dev \<and> complete dev \<and> int (card (users S d)) \<le> dev_refcount dev"
    "\<And>m d. chrdevs S m = Some d \<Longrightarrow> \<exists>dev. rdevs S d = Some dev \<and> named dev \<and> chrdev_major dev = Inr m"
    "\<And>f d. families S f = Some d \<Longrightarrow> \<exists>dev. rdevs S d = Some dev \<and> \<not> named dev \<and> protocol_family dev = f"
  using assms by (auto simp: core_inv_def)

lemma core_inv_drv [simp]: "core_inv (S\<lparr>drv := s\<rparr>, fds) = core_inv (S, fds)"
  by (simp add: core_inv_def dev_registered_def users_def)

lemma core_inv_subset: "core_inv (S, fds) \<Longrightarrow> fds' \<subseteq> dom (ctxs S) \<Longrightarrow> core_inv (S, fds')"
  by (simp add: core_inv_def)

section \<open>Handlers leave the core alone\<close>

lemma call_handler_drv: "call_handler h c a S = Inr (Some (r, S')) \<Longrightarrow> \<exists>s. S' = S\<lparr>drv := s\<rparr>"
  by (auto simp: call_handler_def kbind_eq_Inr split: option.splits)

lemma or_else_drv: "or_else h1 h2 c a S = Inr (Some (r, S')) \<Longrightarrow> \<exists>s. S' = S\<lparr>drv := s\<rparr>"
proof -
  assume run: "or_else h1 h2 c a S = Inr (Some (r, S'))"
  then obtain x where x: "call_handler h1 c a S = Inr x" by (auto simp: or_else_def kbind_eq_Inr)
  then obtain r1 S1 where "x = Some (r1, S1)" using run by (cases x) (auto simp: or_else_def)
  then have one: "call_handler h1 c a S = Inr (Some (r1, S1))"
      "if r1 = Inl ENOSYS then call_handler h2 c a S1 = Inr (Some (r, S')) else S1 = S'"
    using run x by (auto simp: or_else_def split: if_splits)
  obtain s where S1: "S1 = S\<lparr>drv := s\<rparr>" using call_handler_drv [OF one(1)] by blast
  show "\<exists>s. S' = S\<lparr>drv := s\<rparr>"
  proof (cases "r1 = Inl ENOSYS")
    case True
    then have "call_handler h2 c a S1 = Inr (Some (r, S'))" using one(2) by simp
    then show ?thesis using S1 call_handler_drv by fastforce
  next
    case False
    then show ?thesis using one(2) S1 by auto
  qed
qed

lemma wrapper_drv: "function_wrapper rt nrt S c a = Inr (Some (r, S')) \<Longrightarrow> \<exists>s. S' = S\<lparr>drv := s\<rparr>"
  by (auto simp: function_wrapper_def with_context_def kbind_eq_Inr split: option.splits dest: or_else_drv)

lemma do_call_drv: "do_call S c q = Inr (Some (r, S')) \<Longrightarrow> \<exists>s. S' = S\<lparr>drv := s\<rparr>"
  by (cases q) (auto simp: rtdm_call_defs dest: wrapper_drv)

section \<open>Creating and releasing contexts\<close>

lemma upd_rdev_simps [simp]:
  "ctxs (upd_rdev d f S) = ctxs S" "chrdevs (upd_rdev d f S) = chrdevs S" "families (upd_rdev d f S) = families S"
  "rdevs (upd_rdev d f S) e = (if e = d then map_option f (rdevs S d) else rdevs S e)" "protos (upd_rdev d f S) = protos S"
  by (simp_all add: upd_rdev_def)

lemma registered_upd [simp]: "dev_registered (upd_rdev d f S) = dev_registered S"
  by (simp add: dev_registered_def fun_eq_iff)

lemma registered_ctxs [simp]: "dev_registered (S\<lparr>ctxs := x\<rparr>) = dev_registered S"
  by (simp add: dev_registered_def fun_eq_iff)

lemma users_add:
  assumes "ctxs S c = None"
  shows "users (S\<lparr>ctxs := (ctxs S)(c := Some (new_context d pid))\<rparr>) e = (if e = d then insert c (users S e) else users S e)"
  using assms by (auto simp: users_def new_context_def)

lemma finite_users: "finite (dom (ctxs S)) \<Longrightarrow> finite (users S d)"
  by (rule finite_subset [of _ "dom (ctxs S)"]) (auto simp: users_def)

text \<open>A change of the reference count that goes with a change of the contexts.\<close>

lemma core_inv_refcount:
  assumes inv: "core_inv (S, fds)" and d: "dev_registered S d"
    and ctxs: "finite (dom cs)" "fds' \<subseteq> dom cs" "\<And>c ctx. cs c = Some ctx \<Longrightarrow> ctxs S c = Some ctx \<or> ctx_device ctx = d"
    and same: "\<And>e. e \<noteq> d \<Longrightarrow> users (S\<lparr>ctxs := cs\<rparr>) e \<subseteq> users S e"
    and n: "int (card (users (S\<lparr>ctxs := cs\<rparr>) d)) \<le> int (card (users S d)) + n"
  shows "core_inv ((upd_rdev d (\<lambda>dev. dev\<lparr>dev_refcount := dev_refcount dev + n\<rparr>) S)\<lparr>ctxs := cs\<rparr>, fds')"
proof (rule core_invI)
  fix e
  let ?T = "(upd_rdev d (\<lambda>dev. dev\<lparr>dev_refcount := dev_refcount dev + n\<rparr>) S)\<lparr>ctxs := cs\<rparr>"
  assume "dev_registered ?T e"
  then have "dev_registered S e" by simp
  then obtain dev where dev: "rdevs S e = Some dev" "complete dev" "int (card (users S e)) \<le> dev_refcount dev"
    using core_invD(4) [OF inv] by blast
  have u: "users ?T = users (S\<lparr>ctxs := cs\<rparr>)" by (simp add: users_def fun_eq_iff)
  show "\<exists>dev. rdevs ?T e = Some dev \<and> complete dev \<and> int (card (users ?T e)) \<le> dev_refcount dev"
  proof (cases "e = d")
    case True
    then show ?thesis using dev n by (auto simp: u complete_def)
  next
    case False
    have "card (users ?T e) \<le> card (users S e)"
      using same [OF False] finite_users [OF core_invD(1) [OF inv]] by (simp add: u card_mono)
    then show ?thesis using dev False by auto
  qed
next
  show "\<And>m e. chrdevs ((upd_rdev d (\<lambda>dev. dev\<lparr>dev_refcount := dev_refcount dev + n\<rparr>) S)\<lparr>ctxs := cs\<rparr>) m = Some e
    \<Longrightarrow> \<exists>dev. rdevs ((upd_rdev d (\<lambda>dev. dev\<lparr>dev_refcount := dev_refcount dev + n\<rparr>) S)\<lparr>ctxs := cs\<rparr>) e = Some dev
      \<and> named dev \<and> chrdev_major dev = Inr m"
    using core_invD(5) [OF inv] by (fastforce simp: named_def)
  show "\<And>f e. families ((upd_rdev d (\<lambda>dev. dev\<lparr>dev_refcount := dev_refcount dev + n\<rparr>) S)\<lparr>ctxs := cs\<rparr>) f = Some e
    \<Longrightarrow> \<exists>dev. rdevs ((upd_rdev d (\<lambda>dev. dev\<lparr>dev_refcount := dev_refcount dev + n\<rparr>) S)\<lparr>ctxs := cs\<rparr>) e = Some dev
      \<and> \<not> named dev \<and> protocol_family dev = f"
    using core_invD(6) [OF inv] by (fastforce simp: named_def)
next
  show "dev_registered ((upd_rdev d (\<lambda>dev. dev\<lparr>dev_refcount := dev_refcount dev + n\<rparr>) S)\<lparr>ctxs := cs\<rparr>) (ctx_device ctx)"
    if "ctxs ((upd_rdev d (\<lambda>dev. dev\<lparr>dev_refcount := dev_refcount dev + n\<rparr>) S)\<lparr>ctxs := cs\<rparr>) c = Some ctx" for c ctx
    using ctxs(3) [of c ctx] that d core_invD(3) [OF inv, of c ctx] by auto
qed (use ctxs in auto)

lemma create_inv:
  assumes inv: "core_inv (S, fds)" and d: "dev_registered S d" and mem: "fresh_mem mem S"
    and run: "create_context nrt rt S d pid arg mem = Inr (Some (r, S'))" and fds: "fds' \<subseteq> fds \<union> set_option mem"
  shows "core_inv (S', fds')"
proof -
  define cs where "cs = (case mem of None \<Rightarrow> ctxs S | Some c \<Rightarrow> (ctxs S)(c := Some (new_context d pid)))"
  have "\<exists>s. S' = (rtdm_reference_device d S)\<lparr>ctxs := cs, drv := s\<rparr>"
  proof (cases mem)
    case None
    then show ?thesis using run
      by (intro exI [of _ "drv S"]) (auto simp: create_context_def kbind_eq_Inr cs_def rtdm_reference_device_def upd_rdev_def)
  next
    case (Some c)
    have "ctxs (rtdm_reference_device d S) = ctxs S" by (simp add: rtdm_reference_device_def)
    then show ?thesis using run Some by (auto simp: create_context_def kbind_eq_Inr cs_def Let_def dest!: or_else_drv)
  qed
  then obtain s where S': "S' = (rtdm_reference_device d S)\<lparr>ctxs := cs, drv := s\<rparr>" by blast
  have fin: "finite (users S e)" for e by (rule finite_users [OF core_invD(1) [OF inv]])
  have "core_inv ((upd_rdev d (\<lambda>dev. dev\<lparr>dev_refcount := dev_refcount dev + 1\<rparr>) S)\<lparr>ctxs := cs\<rparr>, fds')"
  proof (rule core_inv_refcount [OF inv d])
    show "finite (dom cs)" "fds' \<subseteq> dom cs"
      using core_invD(1,2) [OF inv] fds by (auto simp: cs_def split: option.splits)
    show "\<And>c ctx. cs c = Some ctx \<Longrightarrow> ctxs S c = Some ctx \<or> ctx_device ctx = d"
      by (auto simp: cs_def new_context_def split: option.splits if_splits)
    show "users (S\<lparr>ctxs := cs\<rparr>) e \<subseteq> users S e" if "e \<noteq> d" for e
      using that by (auto simp: cs_def users_def new_context_def split: option.splits if_splits)
    have "users (S\<lparr>ctxs := cs\<rparr>) d \<subseteq> users S d \<union> set_option mem"
      by (auto simp: cs_def users_def split: option.splits if_splits)
    then have "card (users (S\<lparr>ctxs := cs\<rparr>) d) \<le> card (users S d \<union> set_option mem)" using fin by (intro card_mono) auto
    also have "\<dots> \<le> card (users S d) + 1" by (rule order_trans [OF card_Un_le]) (cases mem; simp)
    finally show "int (card (users (S\<lparr>ctxs := cs\<rparr>) d)) \<le> int (card (users S d)) + 1" by simp
  qed
  then show ?thesis unfolding S' by (simp add: rtdm_reference_device_def)
qed

lemma release_inv:
  assumes inv: "core_inv (S, fds)" and c: "ctxs S c = Some ctx"
  shows "core_inv (release_context c ctx S, fds - {c})"
proof -
  let ?d = "ctx_device ctx" and ?cs = "(ctxs S)(c := None)"
  have mem: "c \<in> users S ?d" using c by (auto simp: users_def)
  have u: "users (S\<lparr>ctxs := ?cs\<rparr>) e = users S e - {c}" for e by (auto simp: users_def)
  have "finite (users S ?d)" by (rule finite_users [OF core_invD(1) [OF inv]])
  then have pos: "0 < card (users S ?d)" using mem card_gt_0_iff by blast
  have "core_inv ((upd_rdev ?d (\<lambda>dev. dev\<lparr>dev_refcount := dev_refcount dev + (- 1)\<rparr>) S)\<lparr>ctxs := ?cs\<rparr>, fds - {c})"
  proof (rule core_inv_refcount [OF inv])
    show "dev_registered S ?d" using core_invD(3) [OF inv c] .
    show "int (card (users (S\<lparr>ctxs := ?cs\<rparr>) ?d)) \<le> int (card (users S ?d)) + (- 1)"
      using pos mem by (simp add: u of_nat_diff)
    show "finite (dom ?cs)" using core_invD(1) [OF inv] by simp
  qed (use core_invD(2) [OF inv] u in \<open>auto split: if_splits\<close>)
  moreover have "release_context c ctx S = (upd_rdev ?d (\<lambda>dev. dev\<lparr>dev_refcount := dev_refcount dev + (- 1)\<rparr>) S)\<lparr>ctxs := ?cs\<rparr>"
    by (simp add: release_context_def rtdm_dereference_device_def Let_def upd_rdev_def)
  ultimately show ?thesis by simp
qed

lemma chrdev_release_context:
  assumes "rtdm_chrdev_release S (Some c) = Inr (Some (r, S'))"
  obtains ctx s where "ctxs S c = Some ctx" "S' = S\<lparr>drv := s\<rparr> \<or> S' = release_context c ctx (S\<lparr>drv := s\<rparr>)"
proof -
  obtain ctx dev x where c: "ctxs S c = Some ctx" "call_handler (close_nrt (dev_ops dev)) c () S = Inr x"
      "dev_of S (ctx_device ctx) = Inr dev"
    using assms by (auto simp: rtdm_chrdev_release_def with_context_def kbind_eq_Inr split: option.splits)
  obtain r1 S1 where x: "x = Some (r1, S1)"
    using assms c by (cases x) (auto simp: rtdm_chrdev_release_def with_context_def)
  obtain s where S1: "S1 = S\<lparr>drv := s\<rparr>" using call_handler_drv [OF c(2) [unfolded x]] by blast
  show thesis
  proof (cases "r1 = Inl ENOSYS")
    case True
    then obtain r2 S2 where two: "call_handler (close_rt (dev_ops dev)) c () S1 = Inr (Some (r2, S2))" "S' = release_context c ctx S2"
      using assms c x by (auto simp: rtdm_chrdev_release_def with_context_def kbind_eq_Inr)
    obtain s2 where "S2 = S1\<lparr>drv := s2\<rparr>" using call_handler_drv [OF two(1)] by blast
    then show ?thesis using that [OF c(1), of s2] two(2) S1 by simp
  next
    case False
    then show ?thesis
      using that [OF c(1), of s] assms c x S1 by (auto simp: rtdm_chrdev_release_def with_context_def split: if_splits)
  qed
qed

lemma sock_release_context:
  assumes "rtdm_sock_release S c = Inr (Some (r, S'))"
  obtains ctx s where "ctxs S c = Some ctx" "S' = S\<lparr>drv := s\<rparr> \<or> S' = release_context c ctx (S\<lparr>drv := s\<rparr>)"
proof -
  obtain ctx dev r1 S1 where c: "ctxs S c = Some ctx" "call_handler (close_nrt (dev_ops dev)) c () S = Inr (Some (r1, S1))"
      "S' = S1 \<or> S' = release_context c ctx S1" "dev_of S (ctx_device ctx) = Inr dev"
    using assms by (auto simp: rtdm_sock_release_def with_context_def kbind_eq_Inr split: option.splits if_splits)
  obtain s where "S1 = S\<lparr>drv := s\<rparr>" using call_handler_drv [OF c(2)] by blast
  then show thesis using that c by blast
qed

lemma released_inv:
  assumes "core_inv (S, fds)" "ctxs S c = Some ctx" "S' = S\<lparr>drv := s\<rparr> \<or> S' = release_context c ctx (S\<lparr>drv := s\<rparr>)"
  shows "core_inv (S', fds - {c})"
proof -
  have "core_inv (S\<lparr>drv := s\<rparr>, fds)" using assms(1) by simp
  then show ?thesis
    using assms(2,3) release_inv [of "S\<lparr>drv := s\<rparr>" fds c ctx] core_inv_subset [OF assms(1) subset_trans [OF Diff_subset core_invD(2) [OF assms(1)]]]
    by auto
qed

section \<open>Registering and unregistering\<close>

lemma default_not_null [simp]: "\<exists>f. default_if_null h = Some f"
  by (simp add: default_if_null_def split: option.splits)

lemma default_ops_complete [simp]: "complete_ops (default_ops ops)"
  by (simp add: complete_ops_def default_ops_def)

lemma default_creators_props:
  assumes "default_creators debug dev = Some dev1"
  shows "complete (dev1\<lparr>dev_ops := default_ops (dev_ops dev1), dev_refcount := 0\<rparr>)" "device_flags dev1 = device_flags dev"
    "protocol_family dev1 = protocol_family dev" "proc_name dev1 = proc_name dev" "dev_ops dev1 = dev_ops dev"
  using assms
  by (auto simp: default_creators_def complete_def Let_def split: if_splits)

text \<open>A change of a device that is not registered.\<close>

lemma core_inv_rdev:
  assumes inv: "core_inv (S, fds)" and d: "\<not> dev_registered S d"
  shows "core_inv (S\<lparr>rdevs := (rdevs S)(d := x)\<rparr>, fds)"
proof (rule core_invI)
  let ?T = "S\<lparr>rdevs := (rdevs S)(d := x)\<rparr>"
  have r: "dev_registered ?T e = dev_registered S e" "users ?T e = users S e" for e by (simp_all add: dev_registered_def users_def)
  have reg: "dev_registered S e" if "chrdevs S m = Some e \<or> families S f = Some e" for m f e using that by (auto simp: dev_registered_def)
  show "\<exists>dev. rdevs ?T e = Some dev \<and> complete dev \<and> int (card (users ?T e)) \<le> dev_refcount dev" if "dev_registered ?T e" for e
    using that d core_invD(4) [OF inv, of e] by (auto simp: r)
  show "\<exists>dev. rdevs ?T e = Some dev \<and> named dev \<and> chrdev_major dev = Inr m" if "chrdevs ?T m = Some e" for m e
    using that d core_invD(5) [OF inv, of m e] reg [of m e] by auto
  show "\<exists>dev. rdevs ?T e = Some dev \<and> \<not> named dev \<and> protocol_family dev = f" if "families ?T f = Some e" for f e
    using that d core_invD(6) [OF inv, of f e] reg [of _ e f] by auto
  show "dev_registered ?T (ctx_device ctx)" if "ctxs ?T c = Some ctx" for c ctx
    using core_invD(3) [OF inv, of c ctx] that by (simp add: r)
qed (use core_invD(1,2) [OF inv] in auto)

lemma unregistered_users:
  assumes "core_inv (S, fds)" "\<not> dev_registered S d"
  shows "users S d = {}"
  using core_invD(3) [OF assms(1)] assms(2) by (auto simp: users_def)

lemma register_chrdev_inv:
  assumes inv: "core_inv (S, fds)" and d: "\<not> dev_registered S d" "chrdevs S m = None"
    and dev: "rdevs S d = Some dev" "complete dev" "named dev" "chrdev_major dev = Inr m" "dev_refcount dev = 0"
  shows "core_inv (S\<lparr>chrdevs := (chrdevs S)(m := Some d)\<rparr>, fds)"
proof (rule core_invI)
  let ?T = "S\<lparr>chrdevs := (chrdevs S)(m := Some d)\<rparr>"
  have r: "dev_registered ?T e \<longleftrightarrow> dev_registered S e \<or> e = d" "users ?T e = users S e" for e
    unfolding dev_registered_def users_def by (simp, metis d(2) option.distinct(1)) simp
  show "\<exists>dev. rdevs ?T e = Some dev \<and> complete dev \<and> int (card (users ?T e)) \<le> dev_refcount dev" if "dev_registered ?T e" for e
    using that dev core_invD(4) [OF inv, of e] unregistered_users [OF inv d(1)] by (auto simp: r)
  show "\<exists>dev. rdevs ?T e = Some dev \<and> named dev \<and> chrdev_major dev = Inr k" if "chrdevs ?T k = Some e" for k e
    using that dev core_invD(5) [OF inv, of k e] by (auto split: if_splits)
  show "\<exists>dev. rdevs ?T e = Some dev \<and> \<not> named dev \<and> protocol_family dev = f" if "families ?T f = Some e" for f e
    using that core_invD(6) [OF inv, of f e] by auto
  show "dev_registered ?T (ctx_device ctx)" if "ctxs ?T c = Some ctx" for c ctx
    using core_invD(3) [OF inv, of c ctx] that by (simp add: r)
qed (use core_invD(1,2) [OF inv] in auto)

lemma register_family_inv:
  assumes inv: "core_inv (S, fds)" and d: "\<not> dev_registered S d" "families S (protocol_family dev) = None"
    and dev: "rdevs S d = Some dev" "complete dev" "\<not> named dev" "dev_refcount dev = 0"
  shows "core_inv (S\<lparr>protos := p, families := (families S)(protocol_family dev := Some d)\<rparr>, fds)"
proof (rule core_invI)
  let ?T = "S\<lparr>protos := p, families := (families S)(protocol_family dev := Some d)\<rparr>"
  have r: "dev_registered ?T e \<longleftrightarrow> dev_registered S e \<or> e = d" "users ?T e = users S e" for e
    unfolding dev_registered_def users_def by (simp, metis d(2) option.distinct(1)) simp
  show "\<exists>dev. rdevs ?T e = Some dev \<and> complete dev \<and> int (card (users ?T e)) \<le> dev_refcount dev" if "dev_registered ?T e" for e
    using that dev core_invD(4) [OF inv, of e] unregistered_users [OF inv d(1)] by (auto simp: r)
  show "\<exists>dev. rdevs ?T e = Some dev \<and> named dev \<and> chrdev_major dev = Inr k" if "chrdevs ?T k = Some e" for k e
    using that core_invD(5) [OF inv, of k e] by auto
  show "\<exists>dev. rdevs ?T e = Some dev \<and> \<not> named dev \<and> protocol_family dev = f" if "families ?T f = Some e" for f e
    using that dev core_invD(6) [OF inv, of f e] by (auto split: if_splits)
  show "dev_registered ?T (ctx_device ctx)" if "ctxs ?T c = Some ctx" for c ctx
    using core_invD(3) [OF inv, of c ctx] that by (simp add: r)
qed (use core_invD(1,2) [OF inv] in auto)

lemma core_inv_protos [simp]: "core_inv (S\<lparr>protos := p\<rparr>, fds) = core_inv (S, fds)"
  by (simp add: core_inv_def dev_registered_def users_def)

lemma upd_rdev_eq: "upd_rdev d f S = S\<lparr>rdevs := (rdevs S)(d := map_option f (rdevs S d))\<rparr>"
  by (simp add: upd_rdev_def)

lemma register_kernel_inv:
  assumes inv: "core_inv (S, fds)" and d: "\<not> dev_registered S d" and fresh: "fresh_results k S d"
    and dev: "rdevs S d = Some dev" "complete dev" "dev_refcount dev = 0"
    and run: "register_kernel k S d dev = Inr (r, S')"
  shows "core_inv (S', fds)"
proof (cases "named dev")
  case True
  let ?dev = "dev\<lparr>chrdev_major := chrdev_ret k\<rparr>" and ?T = "upd_rdev d (\<lambda>dev. dev\<lparr>chrdev_major := chrdev_ret k\<rparr>) S"
  have T: "core_inv (?T, fds)" unfolding upd_rdev_eq by (rule core_inv_rdev [OF inv d])
  show ?thesis
  proof (cases "chrdev_ret k")
    case (Inl e)
    then show ?thesis using run True T by (auto simp: register_kernel_def named_def)
  next
    case (Inr m)
    have "core_inv (?T\<lparr>chrdevs := (chrdevs ?T)(m := Some d)\<rparr>, fds)"
      by (rule register_chrdev_inv [OF T, of d m ?dev])
        (use d fresh dev True Inr in \<open>auto simp: fresh_results_def complete_def named_def\<close>)
    then show ?thesis using run True Inr by (auto simp: register_kernel_def named_def)
  qed
next
  case False
  have "core_inv (S\<lparr>protos := p, families := (families S)(protocol_family dev := Some d)\<rparr>, fds)"
    if "sock_ret k = Inr 0" for p
    using register_family_inv [OF inv d _ dev(1,2) False dev(3)] fresh that dev(1) by (simp add: fresh_results_def)
  then show ?thesis
    using run False inv by (auto simp: register_kernel_def named_def Let_def split: if_splits)
qed

lemma register_inv:
  assumes inv: "core_inv (S, fds)" and d: "\<not> dev_registered S d" and fresh: "fresh_results k S d"
    and run: "rtdm_dev_register debug k S d = Inr (r, S')"
  shows "core_inv (S', fds)"
proof -
  obtain dev where dev: "rdevs S d = Some dev" using run by (auto simp: rtdm_dev_register_def dev_of_def split: option.splits)
  show ?thesis
  proof (cases "default_creators debug dev")
    case None
    then show ?thesis using run dev inv by (auto simp: rtdm_dev_register_def dev_of_def split: if_splits)
  next
    case (Some dev1)
    let ?dev2 = "dev1\<lparr>dev_ops := default_ops (dev_ops dev1), dev_refcount := 0\<rparr>"
    note p = default_creators_props [OF Some]
    have upd: "core_inv (upd_rdev d f S, fds)" for f unfolding upd_rdev_eq by (rule core_inv_rdev [OF inv d])
    consider "S' = S" | "S' = upd_rdev d (\<lambda>_. dev1) S" | "register_kernel k (upd_rdev d (\<lambda>_. ?dev2) S) d ?dev2 = Inr (r, S')"
      using run dev Some by (auto simp: rtdm_dev_register_def dev_of_def Let_def split: if_splits)
    then show ?thesis
    proof cases
      case 3
      have "fresh_results k (upd_rdev d (\<lambda>_. ?dev2) S) d" using fresh dev p(3) by (auto simp: fresh_results_def)
      then show ?thesis by (rule register_kernel_inv [OF upd _ _ _ _ _ 3, rotated]) (use d dev p(1) in auto)
    qed (use inv upd in auto)
  qed
qed

lemma unregister_kernel_maps:
  assumes inv: "core_inv (S, fds)" and d: "dev_registered S d" "rdevs S d = Some dev"
  shows "chrdevs (unregister_kernel S d dev) m = Some e \<longleftrightarrow> chrdevs S m = Some e \<and> e \<noteq> d"
    "families (unregister_kernel S d dev) f = Some e \<longleftrightarrow> families S f = Some e \<and> e \<noteq> d"
proof -
  have own_chr: "named dev \<and> chrdev_major dev = Inr m" if "chrdevs S m = Some d" for m
    using core_invD(5) [OF inv that] d(2) by auto
  have own_fam: "\<not> named dev \<and> protocol_family dev = f" if "families S f = Some d" for f
    using core_invD(6) [OF inv that] d(2) by auto
  consider (chr) m0 where "named dev" "chrdev_major dev = Inr m0" "chrdevs S m0 = Some d"
    | (fam) "\<not> named dev" "families S (protocol_family dev) = Some d"
    using d(1) own_chr own_fam unfolding dev_registered_def by metis
  then have "(chrdevs (unregister_kernel S d dev) m = Some e \<longleftrightarrow> chrdevs S m = Some e \<and> e \<noteq> d)
      \<and> (families (unregister_kernel S d dev) f = Some e \<longleftrightarrow> families S f = Some e \<and> e \<noteq> d)"
  proof cases
    case (chr m0)
    then have eq: "unregister_kernel S d dev = S\<lparr>chrdevs := (chrdevs S)(m0 := None)\<rparr>"
      by (simp add: unregister_kernel_def named_def)
    have "chrdevs S m \<noteq> Some d" if "m \<noteq> m0" using own_chr [of m] chr(2) that by auto
    moreover have "families S f \<noteq> Some d" using own_fam [of f] chr(1) by blast
    ultimately show ?thesis using chr(3) unfolding eq by (cases "m = m0") auto
  next
    case fam
    then have eq: "unregister_kernel S d dev = S\<lparr>families := (families S)(protocol_family dev := None), protos := (protos S)(d := False)\<rparr>"
      by (simp add: unregister_kernel_def named_def)
    have "families S f \<noteq> Some d" if "f \<noteq> protocol_family dev" using own_fam [of f] that by auto
    moreover have "chrdevs S m \<noteq> Some d" using own_chr [of m] fam(1) by blast
    ultimately show ?thesis using fam(2) unfolding eq by (cases "f = protocol_family dev") auto
  qed
  then show "chrdevs (unregister_kernel S d dev) m = Some e \<longleftrightarrow> chrdevs S m = Some e \<and> e \<noteq> d"
    "families (unregister_kernel S d dev) f = Some e \<longleftrightarrow> families S f = Some e \<and> e \<noteq> d" by blast+
qed

lemma unregister_kernel_inv:
  assumes inv: "core_inv (S, fds)" and d: "dev_registered S d" "rdevs S d = Some dev" "dev_refcount dev \<le> 0"
  shows "core_inv (unregister_kernel S d dev, fds)" "\<not> dev_registered (unregister_kernel S d dev) d" "users S d = {}"
proof -
  let ?T = "unregister_kernel S d dev"
  have "int (card (users S d)) \<le> 0" using core_invD(4) [OF inv d(1)] d(2,3) by auto
  then show none: "users S d = {}" using finite_users [OF core_invD(1) [OF inv]] by auto
  have same: "ctxs ?T = ctxs S" "rdevs ?T = rdevs S"
    by (auto simp: unregister_kernel_def split: sum.splits)
  have u: "users ?T e = users S e" for e by (simp add: users_def same)
  note maps = unregister_kernel_maps [OF inv d(1,2)]
  have r: "dev_registered ?T e \<longleftrightarrow> dev_registered S e \<and> e \<noteq> d" for e by (auto simp: dev_registered_def maps)
  then show "\<not> dev_registered ?T d" by simp
  show "core_inv (?T, fds)"
  proof (rule core_invI)
    show "dev_registered ?T (ctx_device ctx)" if "ctxs ?T c = Some ctx" for c ctx
      using core_invD(3) [OF inv, of c ctx] that none by (auto simp: r same users_def)
  qed (use core_invD [OF inv] in \<open>auto simp: same maps r u\<close>)
qed

lemma unregister_result:
  assumes "rtdm_dev_unregister S (Some d) poll_delay [] = Inr (Some (r, S'))"
  shows "S' = S \<and> is_err r \<or> (\<exists>dev. rdevs S d = Some dev \<and> dev_refcount dev \<le> 0 \<and> r = Inr 0 \<and> S' = unregister_kernel S d dev)"
  using assms
  by (subst (asm) rtdm_dev_unregister_def, subst (asm) unregister_loop.simps)
    (auto simp: dev_of_def split: option.splits if_splits)

section \<open>Every reachable state\<close>

lemma core_step_inv: "rtdm_step debug T T' \<Longrightarrow> core_inv T \<Longrightarrow> core_inv T'"
proof (induction rule: rtdm_step.induct)
  case (alloc S d fds dev)
  then have "\<not> dev_registered S d" using core_invD(4) [of S fds d] by auto
  then show ?case using alloc by (intro core_inv_rdev)
next
  case (free S d fds)
  then show ?case by (intro core_inv_rdev)
next
  case (register S d k r S' fds)
  show ?case by (rule register_inv [OF register.prems register.hyps])
next
  case (open_chrdev S m d mem pid oflags r S' fds)
  then show ?case
    by (intro create_inv [of S fds d mem open_nrt open_rt pid oflags r S']) (auto simp: dev_registered_def rtdm_open_def)
next
  case (create_socket S f d mem pid protocol r S' fds)
  then show ?case
    by (intro create_inv [of S fds d mem socket_nrt socket_rt pid protocol r S']) (auto simp: dev_registered_def rtdm_socket_lx_def)
next
  case (call c fds S q r S')
  then show ?case by (auto dest!: do_call_drv)
next
  case (release_chrdev c fds S r S')
  show ?case by (rule chrdev_release_context [OF release_chrdev.hyps(2)]) (rule released_inv [OF release_chrdev.prems])
next
  case (release_sock c fds S r S')
  show ?case by (rule sock_release_context [OF release_sock.hyps(2)]) (rule released_inv [OF release_sock.prems])
next
  case (unregister S d poll_delay r S' fds)
  then show ?case using unregister_result unregister_kernel_inv(1) by blast
qed simp

lemma boot_inv: "boot T \<Longrightarrow> core_inv T"
  by (auto simp: boot_def core_inv_def dev_registered_def)

interpretation core_reach: inductive_invariant boot "rtdm_step debug" core_inv for debug
  by unfold_locales (auto intro: boot_inv core_step_inv)

section \<open>Calls reach a handler\<close>

text \<open>Drivers whose handlers never fault.\<close>

definition no_fault :: "('a, 's) handler option \<Rightarrow> bool" where
  "no_fault h \<longleftrightarrow> (\<forall>f. h = Some f \<longrightarrow> (\<forall>c a s. \<exists>r. f c a s = Inr r))"

definition sound_ops :: "('p, 's) rtdm_operations \<Rightarrow> bool" where
  "sound_ops ops \<longleftrightarrow> no_fault (close_rt ops) \<and> no_fault (close_nrt ops) \<and> no_fault (ioctl_rt ops) \<and> no_fault (ioctl_nrt ops)
     \<and> no_fault (read_rt ops) \<and> no_fault (read_nrt ops) \<and> no_fault (write_rt ops) \<and> no_fault (write_nrt ops)
     \<and> no_fault (recvmsg_rt ops) \<and> no_fault (recvmsg_nrt ops) \<and> no_fault (sendmsg_rt ops) \<and> no_fault (sendmsg_nrt ops)"

lemma call_handler_total: "h \<noteq> None \<Longrightarrow> no_fault h \<Longrightarrow> \<exists>r. call_handler h c a S = Inr r"
  by (fastforce simp: no_fault_def call_handler_def kbind_eq_Inr)

lemma or_else_total:
  assumes "h1 \<noteq> None" "no_fault h1" "h2 \<noteq> None" "no_fault h2"
  shows "\<exists>r. or_else h1 h2 c a S = Inr r"
proof -
  obtain x where x: "call_handler h1 c a S = Inr x" using call_handler_total [OF assms(1,2)] by blast
  show ?thesis
  proof (cases x)
    case (Some p)
    obtain r2 where "call_handler h2 c a (snd p) = Inr r2" using call_handler_total [OF assms(3,4)] by blast
    then show ?thesis using x Some by (cases p) (simp add: or_else_def)
  qed (simp add: or_else_def x)
qed

lemma sound_with_context:
  assumes "ctxs S c = Some ctx" "rdevs S (ctx_device ctx) = Some dev"
  shows "with_context S c f = f ctx (dev_ops dev)"
  using assms by (simp add: with_context_def dev_of_def)

lemma calls_total:
  assumes c: "ctxs S c = Some ctx" "rdevs S (ctx_device ctx) = Some dev" and ops: "complete dev" "sound_ops (dev_ops dev)"
  shows "\<exists>r. do_call S c q = Inr r" "\<exists>r. rtdm_chrdev_release S (Some c) = Inr r" "\<exists>r. rtdm_sock_release S c = Inr r"
proof -
  have o: "complete_ops (dev_ops dev)" using ops(1) by (simp add: complete_def)
  show "\<exists>r. do_call S c q = Inr r"
    using o ops(2) unfolding complete_ops_def sound_ops_def
    by (cases q; simp only: do_call.simps rtdm_call_defs function_wrapper_def sound_with_context [OF c]; intro or_else_total; simp)
  obtain x where x: "call_handler (close_nrt (dev_ops dev)) c () S = Inr x"
    using call_handler_total [of "close_nrt (dev_ops dev)" c "()" S] o ops(2) by (auto simp: complete_ops_def sound_ops_def)
  then show "\<exists>r. rtdm_sock_release S c = Inr r" by (simp add: rtdm_sock_release_def sound_with_context [OF c])
  have "\<exists>r. call_handler (close_rt (dev_ops dev)) c () S1 = Inr r" for S1 :: "('a, 'b) rtdm_sys"
    using call_handler_total [of "close_rt (dev_ops dev)" c "()" S1] o ops(2) by (simp add: complete_ops_def sound_ops_def)
  then obtain f where "call_handler (close_rt (dev_ops dev)) c () S1 = Inr (f S1)" for S1 :: "('a, 'b) rtdm_sys" by metis
  then show "\<exists>r. rtdm_chrdev_release S (Some c) = Inr r"
    using x by (cases x) (auto simp: rtdm_chrdev_release_def sound_with_context [OF c])
qed

text \<open>
  C9: In every order of registrations, opens, calls, releases and unregistrations, a call on an open
  descriptor is served: its context exists, its device is registered and holds a reference for it, and
  when the driver's handlers do not fault, every system call and both releases return, so no null
  handler is called and no freed structure is used.
\<close>

theorem rtdm_dispatch_safe:
  assumes "reach boot (rtdm_step debug) (S, fds)" "c \<in> fds"
  shows "\<exists>ctx dev. ctxs S c = Some ctx \<and> dev_registered S (ctx_device ctx) \<and> rdevs S (ctx_device ctx) = Some dev
    \<and> 0 < dev_refcount dev
    \<and> (sound_ops (dev_ops dev) \<longrightarrow> (\<forall>q. \<exists>r. do_call S c q = Inr r)
         \<and> (\<exists>r. rtdm_chrdev_release S (Some c) = Inr r) \<and> (\<exists>r. rtdm_sock_release S c = Inr r))"
proof -
  note inv = core_reach.reach_inv [OF assms(1)]
  obtain ctx where c: "ctxs S c = Some ctx" using core_invD(2) [OF inv] assms(2) by auto
  note reg = core_invD(3) [OF inv c]
  obtain dev where dev: "rdevs S (ctx_device ctx) = Some dev" "complete dev" "int (card (users S (ctx_device ctx))) \<le> dev_refcount dev"
    using core_invD(4) [OF inv reg] by blast
  have "c \<in> users S (ctx_device ctx)" using c by (auto simp: users_def)
  then have "0 < card (users S (ctx_device ctx))"
    using finite_users [OF core_invD(1) [OF inv]] card_gt_0_iff by blast
  then show ?thesis using c reg dev calls_total [OF c dev(1,2)] by auto
qed

section \<open>Failed opens\<close>

text \<open>A context without a descriptor is never released.\<close>

definition leaked :: "nat \<Rightarrow> nat \<Rightarrow> ('p, 's) rtdm_state \<Rightarrow> bool" where
  "leaked c d = (\<lambda>(S, fds). core_inv (S, fds) \<and> c \<notin> fds \<and> (\<exists>ctx. ctxs S c = Some ctx \<and> ctx_device ctx = d))"

lemma create_ctxs:
  assumes "create_context nrt rt S d pid arg mem = Inr (Some (r, S'))"
  shows "ctxs S' = (case mem of None \<Rightarrow> ctxs S | Some c \<Rightarrow> (ctxs S)(c := Some (new_context d pid)))"
proof (cases mem)
  case (Some c)
  obtain s where "S' = (rtdm_reference_device d S)\<lparr>ctxs := (ctxs S)(c := Some (new_context d pid)), drv := s\<rparr>"
    using assms Some by (auto simp: create_context_def kbind_eq_Inr Let_def rtdm_reference_device_def dest!: or_else_drv)
  then show ?thesis using Some by simp
qed (use assms in \<open>auto simp: create_context_def kbind_eq_Inr rtdm_reference_device_def\<close>)

lemma register_ctxs:
  assumes "rtdm_dev_register debug k S d = Inr (r, S')"
  shows "ctxs S' = ctxs S"
  using assms
  by (auto simp: rtdm_dev_register_def register_kernel_def kbind_eq_Inr Let_def split: if_splits option.splits sum.splits)

lemma create_leaked:
  assumes "ctxs S c = Some ctx" "fresh_mem mem S" "create_context nrt rt S d pid arg mem = Inr (Some (r, S'))"
  shows "ctxs S' c = Some ctx" "c \<notin> set_option mem"
  using assms(1,2) create_ctxs [OF assms(3)] by (auto simp: fresh_mem_def split: option.splits)

lemma unregister_ctxs: "ctxs (unregister_kernel S d dev) = ctxs S"
  by (auto simp: unregister_kernel_def split: sum.splits)

lemma released_ctxs:
  "S' = S\<lparr>drv := s\<rparr> \<or> S' = release_context c' ctx' (S\<lparr>drv := s\<rparr>) \<Longrightarrow> c \<noteq> c' \<Longrightarrow> ctxs S' c = ctxs S c"
  by (auto simp: release_context_def rtdm_dereference_device_def Let_def)

lemma leaked_step:
  assumes step: "rtdm_step debug T T'" and leak: "leaked c d T"
  shows "leaked c d T'"
proof -
  have inv: "core_inv T'" using core_step_inv [OF step] leak by (auto simp: leaked_def)
  have "c \<notin> snd T' \<and> ctxs (fst T') c = ctxs (fst T) c"
    using step leak
  proof (induction rule: rtdm_step.induct)
    case (open_chrdev S m e mem pid oflags r S' fds)
    then obtain ctx where "ctxs S c = Some ctx" "c \<notin> fds" by (auto simp: leaked_def)
    then show ?case using create_leaked [OF _ open_chrdev.hyps(2), of c ctx] open_chrdev.hyps(3) by (auto simp: rtdm_open_def)
  next
    case (create_socket S f e mem pid protocol r S' fds)
    then obtain ctx where "ctxs S c = Some ctx" "c \<notin> fds" by (auto simp: leaked_def)
    then show ?case using create_leaked [OF _ create_socket.hyps(2), of c ctx] create_socket.hyps(3) by (auto simp: rtdm_socket_lx_def)
  next
    case (release_chrdev c' fds S r S')
    show ?case
      by (rule chrdev_release_context [OF release_chrdev.hyps(2)]) (use release_chrdev released_ctxs in \<open>fastforce simp: leaked_def\<close>)
  next
    case (release_sock c' fds S r S')
    show ?case
      by (rule sock_release_context [OF release_sock.hyps(2)]) (use release_sock released_ctxs in \<open>fastforce simp: leaked_def\<close>)
  next
    case (unregister S e poll_delay r S' fds)
    then show ?case using unregister_result [OF unregister.hyps(1)] by (auto simp: leaked_def unregister_ctxs)
  qed (auto simp: leaked_def dest!: do_call_drv register_ctxs)
  then show ?thesis using inv leak by (cases T; cases T') (auto simp: leaked_def)
qed

interpretation leak_reach: inductive_invariant "leaked c d" "rtdm_step debug" "leaked c d" for c d debug
  by unfold_locales (auto intro: leaked_step)

lemma leaked_pins:
  assumes "leaked c d (S, fds)"
  shows "dev_registered S d" "rtdm_dev_unregister S (Some d) poll_delay [] = Inr (Some (r, S')) \<Longrightarrow> is_err r"
proof -
  obtain ctx where c: "core_inv (S, fds)" "ctxs S c = Some ctx" "ctx_device ctx = d" using assms by (auto simp: leaked_def)
  show reg: "dev_registered S d" using core_invD(3) [OF c(1,2)] c(3) by simp
  have "c \<in> users S d" using c by (auto simp: users_def)
  then show "is_err r" if run: "rtdm_dev_unregister S (Some d) poll_delay [] = Inr (Some (r, S'))"
    using unregister_result [OF run] unregister_kernel_inv(3) [OF c(1) reg] by auto
qed

text \<open>
  C39: A failed open pins the device. When the open handler of a driver returns an error, the reference
  and the context that \<open>_rtdm_open\<close> took are not given back: whatever happens afterwards, the device stays
  registered, and an unregistration returns an error (or never returns when it is told to wait).
\<close>

theorem rtdm_failed_open_pins:
  assumes "reach boot (rtdm_step debug) (S, fds)" "chrdevs S m = Some d" "ctxs S c = None"
    and "rtdm_open S d pid oflags (Some c) = Inr (Some (Inl e, S'))"
    and later: "reach (\<lambda>T. T = (S', fds)) (rtdm_step debug) (T, fds')"
  shows "dev_registered T d \<and> (\<forall>poll_delay r T'. rtdm_dev_unregister T (Some d) poll_delay [] = Inr (Some (r, T')) \<longrightarrow> is_err r)"
proof -
  have "rtdm_step debug (S, fds) (S', if Inl e = (Inr 0 :: cret) then fds \<union> set_option (Some c) else fds)"
    by (rule rtdm_step.open_chrdev [OF assms(2) _ assms(4)]) (use assms(3) in \<open>simp add: fresh_mem_def\<close>)
  then have inv: "core_inv (S', fds)" using core_reach.reach_inv [OF assms(1)] core_step_inv by fastforce
  have "c \<notin> fds" using core_invD(2) [OF core_reach.reach_inv [OF assms(1)]] assms(3) by auto
  then have leak: "leaked c d (S', fds)"
    using inv create_ctxs [OF assms(4) [unfolded rtdm_open_def]] by (simp add: leaked_def new_context_def)
  have "leaked c d (T, fds')"
    using later by (induction "(T, fds')" arbitrary: T fds' rule: reach.induct) (use leak leaked_step in fastforce)+
  then show ?thesis using leaked_pins by blast
qed

section \<open>Open and release\<close>

text \<open>
  Opening a device and releasing it again leaves the core as it was: when both handlers succeed,
  the reference is given back and the context is freed, and nothing but the state of the driver has
  changed.
\<close>

theorem rtdm_open_release:
  assumes dev: "rdevs S d = Some dev" and c: "ctxs S c = None"
    and opened: "rtdm_open S d pid oflags (Some c) = Inr (Some (Inr 0, S1))"
    and released: "rtdm_chrdev_release S1 (Some c) = Inr (Some (Inr n, S2))"
  shows "\<exists>s. S2 = S\<lparr>drv := s\<rparr>"
proof -
  obtain s where S1: "S1 = (rtdm_reference_device d S)\<lparr>ctxs := (ctxs S)(c := Some (new_context d pid)), drv := s\<rparr>"
    using opened dev
    by (auto simp: rtdm_open_def create_context_def dev_of_def Let_def rtdm_reference_device_def dest!: or_else_drv)
  have wc: "with_context S1 c f = f (new_context d pid) (dev_ops dev)" for f :: "rtdm_dev_context \<Rightarrow> _ \<Rightarrow> 'x kres"
    using dev by (simp add: S1 with_context_def dev_of_def new_context_def rtdm_reference_device_def)
  have undo: "release_context c (new_context d pid) (S1\<lparr>drv := s2\<rparr>) = S\<lparr>drv := s2\<rparr>" for s2
    using dev c by (simp add: S1 release_context_def rtdm_dereference_device_def rtdm_reference_device_def upd_rdev_def Let_def
        new_context_def fun_upd_idem)
  obtain r1 T1 where one: "call_handler (close_nrt (dev_ops dev)) c () S1 = Inr (Some (r1, T1))"
    using released by (auto simp: rtdm_chrdev_release_def wc kbind_eq_Inr split: option.splits)
  obtain s1 where T1: "T1 = S1\<lparr>drv := s1\<rparr>" using call_handler_drv [OF one] by blast
  show ?thesis
  proof (cases "r1 = Inl ENOSYS")
    case True
    then obtain r2 T2 where two: "call_handler (close_rt (dev_ops dev)) c () T1 = Inr (Some (r2, T2))"
        "S2 = release_context c (new_context d pid) T2"
      using released one by (auto simp: rtdm_chrdev_release_def wc kbind_eq_Inr)
    obtain s2 where "T2 = T1\<lparr>drv := s2\<rparr>" using call_handler_drv [OF two(1)] by blast
    then show ?thesis using two(2) undo [of s2] by (auto simp: T1)
  next
    case False
    then have "S2 = release_context c (new_context d pid) T1"
      using released one by (auto simp: rtdm_chrdev_release_def wc split: if_splits)
    then show ?thesis using undo [of s1] by (auto simp: T1)
  qed
qed

section \<open>A small driver\<close>

text \<open>A driver whose open handler refuses every flag but 0.\<close>

definition life_ops :: "(unit, unit) rtdm_operations" where
  "life_ops = \<lparr>close_rt = None, close_nrt = Some (\<lambda>c a s. Inr (Some (Inr 0, s))), ioctl_rt = None, ioctl_nrt = None,
     read_rt = None, read_nrt = None, write_rt = None, write_nrt = None, recvmsg_rt = None, recvmsg_nrt = None,
     sendmsg_rt = None, sendmsg_nrt = None\<rparr>"

definition life_open :: "(int, unit) handler" where
  "life_open c oflags s = Inr (Some (if oflags = 0 then Inr 0 else Inl EBUSY, s))"

definition life_dev :: "(unit, unit) rtdm_device" where
  "life_dev = \<lparr>struct_version = 3, device_flags = RTDM_NAMED_DEVICE, device_name = ''life'', protocol_family = 0,
     open_rt = None, open_nrt = Some life_open, socket_rt = None, socket_nrt = None, dev_ops = life_ops,
     proc_name = Some ''life'', device_id = 0, chrdev_major = Inr 0, dev_refcount = 0\<rparr>"

definition life_ready :: "(unit, unit) rtdm_device" where
  "life_ready = life_dev\<lparr>open_rt := Some rtdm_no_support, socket_rt := Some rtdm_no_support, socket_nrt := Some rtdm_no_support,
     dev_ops := default_ops life_ops, chrdev_major := Inr 254\<rparr>"

definition life_sys :: "(unit, unit) rtdm_sys" where
  "life_sys = \<lparr>rdevs = (\<lambda>_. None)(0 := Some life_ready), ctxs = (\<lambda>_. None), chrdevs = (\<lambda>_. None)(254 := Some 0),
     protos = (\<lambda>_. False), families = (\<lambda>_. None), drv = ()\<rparr>"

definition life_opened :: "(unit, unit) rtdm_sys" where
  "life_opened = (rtdm_reference_device 0 life_sys)\<lparr>ctxs := (\<lambda>_. None)(5 := Some (new_context 0 1))\<rparr>"

lemma life_reach: "reach boot (rtdm_step False) (life_sys, {})"
proof -
  let ?S0 = "life_sys\<lparr>rdevs := (\<lambda>_. None), chrdevs := (\<lambda>_. None)\<rparr>"
  let ?S1 = "?S0\<lparr>rdevs := (rdevs ?S0)(0 := Some life_dev)\<rparr>"
  let ?k = "\<lparr>chrdev_ret = Inr 254, proto_ret = Inr 0, sock_ret = Inr 0\<rparr>"
  have "reach boot (rtdm_step False) (?S0, {})" by (rule reach_init) (simp add: boot_def life_sys_def)
  moreover have "rtdm_step False (?S0, {}) (?S1, {})" by (rule rtdm_step.alloc) simp
  ultimately have "reach boot (rtdm_step False) (?S1, {})" by (rule reach_step)
  moreover have "rtdm_dev_register False ?k ?S1 0 = Inr (Inr 254, life_sys)"
    by (simp add: rtdm_dev_register_def dev_of_def default_creators_def life_dev_def rtdm_flags register_kernel_def Let_def
        upd_rdev_def default_if_null_def life_sys_def life_ready_def)
  then have "rtdm_step False (?S1, {}) (life_sys, {})"
    by (rule rtdm_step.register [rotated 2]) (auto simp: dev_registered_def fresh_results_def life_sys_def)
  ultimately show ?thesis by (rule reach_step)
qed

lemma life_open_call:
  "rtdm_open life_sys 0 1 oflags (Some 5) = Inr (Some (if oflags = 0 then Inr 0 else Inl EBUSY, life_opened))"
  by (simp add: rtdm_open_def create_context_def dev_of_def or_else_def call_handler_def life_sys_def life_ready_def life_dev_def
      life_open_def life_opened_def Let_def rtdm_reference_device_def upd_rdev_def)

theorem rtdm_dispatch_safe_witness:
  "reach boot (rtdm_step False) (life_opened, {5}) \<and> (\<exists>r. rtdm_read life_opened 5 () 8 = Inr r)
    \<and> (\<exists>r. rtdm_chrdev_release life_opened (Some 5) = Inr r)"
proof -
  have "rtdm_step False (life_sys, {}) (life_opened, if Inr 0 = (Inr 0 :: cret) then {} \<union> set_option (Some 5) else {})"
    by (rule rtdm_step.open_chrdev [of _ 254 0 _ 1 0]) (use life_open_call [of 0] in \<open>simp_all add: life_sys_def fresh_mem_def\<close>)
  then have r: "reach boot (rtdm_step False) (life_opened, {5})" using reach_step [OF life_reach] by fastforce
  have "sound_ops (default_ops life_ops)"
    by (simp add: sound_ops_def default_ops_def life_ops_def default_if_null_def no_fault_def rtdm_no_support_def)
  moreover have "ctxs life_opened 5 = Some (new_context 0 1)" "\<exists>dev. rdevs life_opened 0 = Some dev \<and> dev_ops dev = default_ops life_ops"
    by (simp_all add: life_opened_def rtdm_reference_device_def life_sys_def life_ready_def)
  ultimately have "(\<forall>q. \<exists>r. do_call life_opened 5 q = Inr r) \<and> (\<exists>r. rtdm_chrdev_release life_opened (Some 5) = Inr r)"
    using rtdm_dispatch_safe [OF r, of 5] by (auto simp: new_context_def)
  then show ?thesis using r by (metis do_call.simps(2))
qed

theorem rtdm_failed_open_pins_witness:
  "dev_registered life_opened 0 \<and> \<not> (\<exists>T'. rtdm_dev_unregister life_opened (Some 0) 0 [] = Inr (Some (Inr 0, T')))"
proof -
  have "reach (\<lambda>T. T = (life_opened, {})) (rtdm_step False) (life_opened, {})" by (rule reach_init) simp
  then have "dev_registered life_opened 0 \<and> (\<forall>poll_delay r T'.
      rtdm_dev_unregister life_opened (Some 0) poll_delay [] = Inr (Some (r, T')) \<longrightarrow> is_err r)"
    using rtdm_failed_open_pins [OF life_reach, of 254 0 5 1 1 EBUSY life_opened life_opened "{}"] life_open_call [of 1]
    by (simp add: life_sys_def)
  moreover have "\<not> is_err (Inr 0 :: cret)" by simp
  ultimately show ?thesis by metis
qed

theorem rtdm_open_release_witness:
  "\<exists>s. rtdm_chrdev_release life_opened (Some 5) = Inr (Some (Inr 0, life_sys\<lparr>drv := s\<rparr>))"
proof -
  have rel: "\<exists>S2. rtdm_chrdev_release life_opened (Some 5) = Inr (Some (Inr 0, S2))"
    by (simp add: rtdm_chrdev_release_def with_context_def dev_of_def call_handler_def life_opened_def rtdm_reference_device_def
        life_sys_def life_ready_def new_context_def default_ops_def life_ops_def default_if_null_def)
  have "rdevs life_sys 0 = Some life_ready" "ctxs life_sys 5 = None" by (simp_all add: life_sys_def)
  then show ?thesis using rtdm_open_release [of life_sys 0 life_ready 5 1 0 life_opened 0] life_open_call [of 0] rel by auto
qed

end
