(* ===== verification/Can_Proto.thy ===== *)
theory Can_Proto
  imports Can_Ioctl Rtdm_Life
begin

text \<open>
  The CAN raw protocol as an RTDM device: \<open>rtcan_proto_raw_dev\<close> and its registration (the end of
  \<open>rtcan_raw.c\<close>), and the way of a socket call through the RTDM core into the protocol.
\<close>

section \<open>The device\<close>

definition PF_CAN :: int where "PF_CAN = 29"

text \<open>
  What the pointer argument of a call points to: a socket address, the arguments of \<open>setsockopt\<close> (with the
  flag that memory for the filters is available), a request with its data (whether it can be read
  from and written to, and the uninitialised bit timing), a message with what happens while the call
  sleeps.
\<close>

datatype 'w can_arg = CanAddr sockaddr_can | CanOpt setsockopt_args bool | CanReq raw_request bool bool can_bittime
  | CanRecv msghdr "'w wakeup" "'w wakeup list" | CanSend msghdr nat "'w wakeup" "'w wakeup list"

text \<open>The state of the driver: the CAN world, and the message that the last \<open>recvmsg\<close> has copied out.\<close>

type_synonym 'z can_drv = "'z can_world_scheme \<times> received option"

text \<open>The core has cleared the flags of a new context.\<close>

definition can_socket :: "(int, 'z can_drv) handler" where
  "can_socket c protocol = (\<lambda>(w, m).
     case rtcan_raw_socket (upd_sock c (\<lambda>sock. sock\<lparr>context_flags := 0\<rparr>) w) c protocol of
       (r, w1) \<Rightarrow> Inr (Some (r, w1, m)))"

definition can_close :: "(unit, 'z can_drv) handler" where
  "can_close c a = (\<lambda>(w, m). kbind (rtcan_raw_close w c) (\<lambda>(r, _, w1). Inr (Some (r, w1, m))))"

text \<open>
  The requests of the three socket calls carry their own arguments. An argument of another shape than the
  request asks for does not occur: the system calls build it.
\<close>

definition can_ioctl ::
    "(nat \<Rightarrow> 'z can_world_scheme can_ops) \<Rightarrow> ('z can_world_scheme can_arg rtdm_request, 'z can_drv) handler" where
  "can_ioctl ops c req = (\<lambda>(w, m).
     case (case req of
             RtdmBind (CanAddr scan) \<Rightarrow> Some (RTIOC_BIND scan, True, True, True, CAN_BITTIME_BTR 0 0)
           | RtdmSetsockopt (CanOpt so mem) \<Rightarrow> Some (RTIOC_SETSOCKOPT so, True, True, mem, CAN_BITTIME_BTR 0 0)
           | RtdmIoctl _ (CanReq q rd wr garbage) \<Rightarrow> Some (q, rd, wr, True, garbage)
           | _ \<Rightarrow> None) of
       None \<Rightarrow> Inr (Some (Inl EOPNOTSUPP, w, m))
     | Some (q, rd, wr, mem, garbage) \<Rightarrow>
         kbind (rtcan_raw_ioctl ops w c True rd wr mem q garbage) (\<lambda>(r, _, w1). Inr (Some (r, w1, m))))"

definition can_recvmsg ::
    "(nat \<Rightarrow> 'z can_world_scheme can_ops) \<Rightarrow> ('z can_world_scheme can_arg \<times> u32, 'z can_drv) handler" where
  "can_recvmsg ops c = (\<lambda>(arg, flags) (w, m).
     case arg of
       CanRecv msg k ks \<Rightarrow>
         Inr (case rtcan_raw_recvmsg ops w c msg flags k ks of
                None \<Rightarrow> None
              | Some (Inl e, w1) \<Rightarrow> Some (Inl e, w1, m)
              | Some (Inr x, w1) \<Rightarrow> Some (Inr (int sizeof_can_frame), w1, Some x))
     | _ \<Rightarrow> Inr (Some (Inl EINVAL, w, m)))"

definition can_sendmsg ::
    "(nat \<Rightarrow> 'z can_world_scheme can_ops) \<Rightarrow> ('z can_world_scheme can_arg \<times> u32, 'z can_drv) handler" where
  "can_sendmsg ops c = (\<lambda>(arg, flags) (w, m).
     case arg of
       CanSend msg task k ks \<Rightarrow>
         kbind (rtcan_raw_sendmsg ops w c True msg flags task k ks) (\<lambda>r.
         Inr (map_option (\<lambda>(ret, w1). (ret, w1, m)) r))
     | _ \<Rightarrow> Inr (Some (Inl EINVAL, w, m)))"

definition rtcan_proto_raw_dev ::
    "(nat \<Rightarrow> 'z can_world_scheme can_ops) \<Rightarrow> ('z can_world_scheme can_arg, 'z can_drv) rtdm_device" where
  "rtcan_proto_raw_dev ops = \<lparr>struct_version = RTDM_DEVICE_STRUCT_VER, device_flags = RTDM_PROTOCOL_DEVICE, device_name = '''',
     protocol_family = PF_CAN, open_rt = None, open_nrt = None, socket_rt = Some can_socket, socket_nrt = Some can_socket,
     dev_ops = \<lparr>close_rt = Some can_close, close_nrt = Some can_close, ioctl_rt = Some (can_ioctl ops), ioctl_nrt = Some (can_ioctl ops),
       read_rt = None, read_nrt = None, write_rt = None, write_nrt = None,
       recvmsg_rt = Some (can_recvmsg ops), recvmsg_nrt = None, sendmsg_rt = Some (can_sendmsg ops), sendmsg_nrt = None\<rparr>,
     proc_name = Some ''rtcan'', device_id = 0, chrdev_major = Inr 0, dev_refcount = 0\<rparr>"

text \<open>The device is a static structure at the address \<open>d\<close>.\<close>

definition rtcan_raw_proto_register where
  "rtcan_raw_proto_register debug k S d = rtdm_dev_register debug k S d"

definition rtcan_raw_proto_unregister where
  "rtcan_raw_proto_unregister S d waits = rtdm_dev_unregister S (Some d) 1000 waits"

definition rtcan_raw_socket_lx where
  "rtcan_raw_socket_lx S d pid protocol mem = rtdm_socket_lx S d pid protocol mem"

section \<open>A session through the core\<close>

definition can_registered ::
    "(nat \<Rightarrow> 'z can_world_scheme can_ops) \<Rightarrow> nat \<Rightarrow> ('z can_world_scheme can_arg, 'z can_drv) rtdm_sys \<Rightarrow> bool" where
  "can_registered ops d S \<longleftrightarrow> (\<exists>n. rdevs S d = Some ((rtcan_proto_raw_dev ops)\<lparr>
     open_rt := Some rtdm_no_support, open_nrt := Some rtdm_no_support,
     dev_ops := default_ops (dev_ops (rtcan_proto_raw_dev ops)), dev_refcount := n\<rparr>))"

text \<open>Registering the static device succeeds when the kernel takes the protocol and its family.\<close>

lemma proto_register:
  assumes "rdevs S d = Some (rtcan_proto_raw_dev ops)" "proto_ret k = Inr 0" "sock_ret k = Inr 0"
  shows "\<exists>S'. rtcan_raw_proto_register debug k S d = Inr (Inr 0, S') \<and> can_registered ops d S' \<and> families S' PF_CAN = Some d
    \<and> ctxs S' = ctxs S \<and> drv S' = drv S"
  using assms
  by (simp add: rtcan_raw_proto_register_def rtdm_dev_register_def dev_of_def default_creators_def rtcan_proto_raw_dev_def
      rtdm_flags register_kernel_def Let_def can_registered_def upd_rdev_def default_if_null_def default_ops_def)

lemma can_socket_call:
  assumes reg: "can_registered ops d S" and w: "drv S = (w, m)"
    and sock: "rtcan_raw_socket (upd_sock c (\<lambda>sock. sock\<lparr>context_flags := 0\<rparr>) w) c protocol = (Inr 0, w1)"
  shows "rtcan_raw_socket_lx S d pid protocol (Some c) = Inr (Some (Inr 0,
    (rtdm_reference_device d S)\<lparr>ctxs := (ctxs S)(c := Some (new_context d pid)), drv := (w1, m)\<rparr>))"
proof -
  obtain n where "rdevs S d = Some ((rtcan_proto_raw_dev ops)\<lparr>open_rt := Some rtdm_no_support, open_nrt := Some rtdm_no_support,
     dev_ops := default_ops (dev_ops (rtcan_proto_raw_dev ops)), dev_refcount := n\<rparr>)"
    using reg by (auto simp: can_registered_def)
  then show ?thesis
    using w sock
    by (simp add: rtcan_raw_socket_lx_def rtdm_socket_lx_def create_context_def dev_of_def or_else_def call_handler_def
        rtcan_proto_raw_dev_def can_socket_def rtdm_reference_device_def upd_rdev_def)
qed

lemma can_bind_call:
  assumes dev: "rdevs S d = Some dev" "ioctl_rt (dev_ops dev) = Some (can_ioctl ops)" and c: "ctxs S c = Some ctx" "ctx_device ctx = d"
    and w: "drv S = (w, m)" and bind: "rtcan_raw_bind w c scan = Inr (r, w1)" "r \<noteq> Inl ENOSYS"
  shows "rtdm_sock_bind S c (CanAddr scan) = Inr (Some (r, S\<lparr>drv := (w1, m)\<rparr>))"
  using assms
  by (simp add: rtdm_sock_bind_def function_wrapper_def with_context_def dev_of_def or_else_def call_handler_def can_ioctl_def
      rtcan_raw_ioctl_def)

lemma can_release_call:
  assumes dev: "rdevs S d = Some dev" "close_nrt (dev_ops dev) = Some can_close" and c: "ctxs S c = Some ctx" "ctx_device ctx = d"
    and w: "drv S = (w, m)" and close: "rtcan_raw_close w c = Inr (Inr 0, woken, w1)"
  shows "rtdm_sock_release S c = Inr (Some (Inr 0, release_context c ctx (S\<lparr>drv := (w1, m)\<rparr>)))"
  using assms
  by (simp add: rtdm_sock_release_def with_context_def dev_of_def call_handler_def can_close_def)

text \<open>
  C25: A socket session leaves no trace. A raw CAN socket created through the RTDM core, bound to an
  address and released again: creation and release return 0, the bind returns 0 or \<open>-ENOSPC\<close>, and after
  the release the core is as before (the context is freed, the reference given back), the socket is off
  the list of sockets, and the reception lists of all devices are those of the old bindings.
\<close>

theorem can_session_traceless:
  assumes reg: "can_registered ops d S" and c: "ctxs S c = None" and w: "drv S = (w, m)"
    and inv: "can_inv w" "c \<notin> set (rtcan_socket_list w)"
    and scan: "scan_family scan = AF_CAN" "0 \<le> scan_ifindex scan" "scan_ifindex scan \<le> int RTCAN_MAX_DEVICES"
  shows "\<exists>S1 r S2 w3. rtcan_raw_socket_lx S d pid CAN_PROTO_RAW (Some c) = Inr (Some (Inr 0, S1))
    \<and> rtdm_sock_bind S1 c (CanAddr scan) = Inr (Some (r, S2)) \<and> (r = Inr 0 \<or> r = Inl ENOSPC)
    \<and> rtdm_sock_release S2 c = Inr (Some (Inr 0, S\<lparr>drv := (w3, m)\<rparr>))
    \<and> can_inv w3 \<and> rtcan_socket_list w3 = rtcan_socket_list w \<and> bindings_of w3 = bindings_of w"
proof -
  define w0 where "w0 = upd_sock c (\<lambda>sock. sock\<lparr>context_flags := 0\<rparr>) w"
  have b0: "bindings_of w0 = bindings_of w" using inv(2) by (auto simp: w0_def bindings_of_def fun_eq_iff)
  have w0: "can_inv w0" "c \<notin> set (rtcan_socket_list w0)" "bindings_of w0 = bindings_of w" "rtcan_socket_list w0 = rtcan_socket_list w"
    using inv b0 by (auto simp: w0_def can_inv_def)
  define w1 where "w1 = rtcan_socket_init w0 c"
  have w1: "can_inv w1" "bindings_of w1 = bindings_of w" "c \<in> set (rtcan_socket_list w1)"
      "rtcan_socket_list w1 = c # rtcan_socket_list w" "\<not> bit (context_flags (socks w1 c)) RTDM_CLOSING"
    using socket_effect [OF w0(1,2)] w0(3,4) by (simp_all add: w1_def rtcan_socket_init_def w0_def)
  have sock: "rtcan_raw_socket w0 c CAN_PROTO_RAW = (Inr 0, w1)" by (simp add: rtcan_raw_socket_def w1_def)
  define S1 where "S1 = (rtdm_reference_device d S)\<lparr>ctxs := (ctxs S)(c := Some (new_context d pid)), drv := (w1, m)\<rparr>"
  have one: "rtcan_raw_socket_lx S d pid CAN_PROTO_RAW (Some c) = Inr (Some (Inr 0, S1))"
    unfolding S1_def by (rule can_socket_call [OF reg w sock [unfolded w0_def]])
  obtain r w2 where two: "rtcan_raw_bind w1 c scan = Inr (r, w2)" "r = Inr 0 \<or> r = Inl ENOSPC" "can_inv w2"
      "rtcan_socket_list w2 = rtcan_socket_list w1" "\<forall>s. s \<noteq> c \<longrightarrow> bindings_of w2 s = bindings_of w s"
    using bind_effect [OF w1(1,3) scan w1(5)] w1(1,2) by (auto split: if_splits)
  obtain w3 where three: "rtcan_raw_close w2 c = Inr (Inr 0, tx_wait_head (socks w2 c), w3)" "can_inv w3"
      "rtcan_socket_list w3 = remove1 c (rtcan_socket_list w2)" "bindings_of w3 = (bindings_of w2)(c := (0, []))"
    using close_effect [OF two(3), of c] two(4) w1(3) by auto
  obtain n where dev: "rdevs S d = Some ((rtcan_proto_raw_dev ops)\<lparr>open_rt := Some rtdm_no_support, open_nrt := Some rtdm_no_support,
     dev_ops := default_ops (dev_ops (rtcan_proto_raw_dev ops)), dev_refcount := n\<rparr>)"
    using reg by (auto simp: can_registered_def)
  let ?dev = "(rtcan_proto_raw_dev ops)\<lparr>open_rt := Some rtdm_no_support, open_nrt := Some rtdm_no_support,
     dev_ops := default_ops (dev_ops (rtcan_proto_raw_dev ops)), dev_refcount := n + 1\<rparr>"
  have S1: "rdevs S1 d = Some ?dev" "ctxs S1 c = Some (new_context d pid)" "drv S1 = (w1, m)"
    using dev by (simp_all add: S1_def rtdm_reference_device_def)
  have ops: "ioctl_rt (dev_ops ?dev) = Some (can_ioctl ops)" "close_nrt (dev_ops ?dev) = Some can_close"
    by (simp_all add: rtcan_proto_raw_dev_def default_ops_def default_if_null_def)
  have bnd: "rtdm_sock_bind S1 c (CanAddr scan) = Inr (Some (r, S1\<lparr>drv := (w2, m)\<rparr>))"
    by (rule can_bind_call [OF S1(1) ops(1) S1(2) _ S1(3) two(1)]) (use two(2) in \<open>auto simp: new_context_def\<close>)
  have "rtdm_sock_release (S1\<lparr>drv := (w2, m)\<rparr>) c
      = Inr (Some (Inr 0, release_context c (new_context d pid) (S1\<lparr>drv := (w2, m), drv := (w3, m)\<rparr>)))"
    by (rule can_release_call [where d = d and dev = ?dev]) (use S1 ops three(1) in \<open>simp_all add: new_context_def\<close>)
  also have "release_context c (new_context d pid) (S1\<lparr>drv := (w2, m), drv := (w3, m)\<rparr>) = S\<lparr>drv := (w3, m)\<rparr>"
    using dev c by (simp add: S1_def release_context_def rtdm_dereference_device_def rtdm_reference_device_def upd_rdev_def Let_def
        new_context_def fun_upd_idem)
  finally have rel: "rtdm_sock_release (S1\<lparr>drv := (w2, m)\<rparr>) c = Inr (Some (Inr 0, S\<lparr>drv := (w3, m)\<rparr>))" .
  have "bindings_of w c = (0, [])" using inv(2) by (simp add: bindings_of_def)
  then have "bindings_of w3 = bindings_of w" using three(4) two(5) by (auto simp: fun_eq_iff)
  moreover have "rtcan_socket_list w3 = rtcan_socket_list w" using three(3) two(4) w1(4) by simp
  ultimately show ?thesis using one two(2) bnd rel three(2) by blast
qed

text \<open>The core with the protocol registered, and no socket.\<close>

definition demo_can_ops :: "nat \<Rightarrow> can_world can_ops" where
  "demo_can_ops d = \<lparr>hard_start_xmit = (\<lambda>d f w. Inr (Inr 0, w)), do_set_mode = None, do_get_state = None, do_set_bit_time = None,
     do_enable_bus_err = None\<rparr>"

definition proto_sys :: "(can_world can_arg, unit can_drv) rtdm_sys" where
  "proto_sys = \<lparr>rdevs = (\<lambda>_. None)(3 := Some (rtcan_proto_raw_dev demo_can_ops)), ctxs = (\<lambda>_. None), chrdevs = (\<lambda>_. None),
     protos = (\<lambda>_. False), families = (\<lambda>_. None), drv = (one_device, None)\<rparr>"

definition proto_registered :: "(can_world can_arg, unit can_drv) rtdm_sys" where
  "proto_registered = (case rtcan_raw_proto_register False \<lparr>chrdev_ret = Inr 0, proto_ret = Inr 0, sock_ret = Inr 0\<rparr> proto_sys 3 of
     Inr (r, S) \<Rightarrow> S | Inl _ \<Rightarrow> proto_sys)"

lemma proto_registered_props:
  "can_registered demo_can_ops 3 proto_registered" "ctxs proto_registered = (\<lambda>_. None)" "drv proto_registered = (one_device, None)"
proof -
  obtain S where S: "rtcan_raw_proto_register False \<lparr>chrdev_ret = Inr 0, proto_ret = Inr 0, sock_ret = Inr 0\<rparr> proto_sys 3 = Inr (Inr 0, S)"
      "can_registered demo_can_ops 3 S" "ctxs S = ctxs proto_sys" "drv S = drv proto_sys"
    using proto_register [of proto_sys 3 demo_can_ops "\<lparr>chrdev_ret = Inr 0, proto_ret = Inr 0, sock_ret = Inr 0\<rparr>" False]
    by (auto simp: proto_sys_def)
  then have "proto_registered = S" by (simp add: proto_registered_def)
  then show "can_registered demo_can_ops 3 proto_registered" using S by simp
  show "ctxs proto_registered = (\<lambda>_. None)" "drv proto_registered = (one_device, None)"
    using \<open>proto_registered = S\<close> S(3,4) by (simp_all add: proto_sys_def)
qed

theorem can_session_traceless_witness:
  "\<exists>S1 r S2 w3. rtcan_raw_socket_lx proto_registered 3 1 CAN_PROTO_RAW (Some 7) = Inr (Some (Inr 0, S1))
    \<and> rtdm_sock_bind S1 7 (CanAddr all_interfaces) = Inr (Some (r, S2))
    \<and> rtdm_sock_release S2 7 = Inr (Some (Inr 0, proto_registered\<lparr>drv := (w3, None)\<rparr>))"
proof -
  have "can_inv one_device" "7 \<notin> set (rtcan_socket_list one_device)"
    using sock_life.inv_init [OF one_device_init] by (simp_all add: one_device_def)
  then show ?thesis
    using can_session_traceless [OF proto_registered_props(1) _ proto_registered_props(3), of 7 all_interfaces 1] proto_registered_props(2)
    by (auto simp: all_interfaces_def RTCAN_MAX_DEVICES_def)
qed

end
