(* ===== verification/Can_Boards.thy ===== *)
theory Can_Boards
  imports Can_Sja1000 "HOL-Library.Multiset"
begin

text \<open>
  The drivers of boards that are given by module parameters: \<open>rtcan_isa.c\<close> (I/O ports) and \<open>rtcan_mem.c\<close>
  (memory mapped). Each allocates a CAN device, reserves the addresses of the chip, tells the SJA1000
  driver how to reach it and registers it. The bus behind the addresses is an argument, as are the
  kernel's answers; what the kernel has granted is a multiset of resources.
\<close>

section \<open>Addresses and registers\<close>

record 'h io_bus =
  bus_in :: "nat \<Rightarrow> 'h \<Rightarrow> u8 \<times> 'h"
  bus_out :: "nat \<Rightarrow> u8 \<Rightarrow> 'h \<Rightarrow> 'h"

datatype resource = IoRegion nat nat | MemRegion nat nat | Mapping nat | PciRegions | PciEnabled

definition RTCAN_ISA_MAX_DEV :: nat where "RTCAN_ISA_MAX_DEV = 4"
definition RTCAN_ISA_PORT_SIZE :: nat where "RTCAN_ISA_PORT_SIZE = 32"
definition RTCAN_MEM_MAX_DEV :: nat where "RTCAN_MEM_MAX_DEV = 4"
definition RTCAN_MEM_RANGE :: nat where "RTCAN_MEM_RANGE = 0x80"

definition SJA_OCR_MODE_NORMAL :: u8 where "SJA_OCR_MODE_NORMAL = 2"
definition SJA_OCR_TX0_PUSHPULL :: u8 where "SJA_OCR_TX0_PUSHPULL = 24"
definition SJA_CDR_CLK_OFF :: u8 where "SJA_CDR_CLK_OFF = 8"
definition SJA_CDR_CBP :: u8 where "SJA_CDR_CBP = 64"
definition SJA_CDR_CAN_MODE :: u8 where "SJA_CDR_CAN_MODE = 128"

text \<open>The parameters of the modules, one entry per device; an address of zero ends the list.\<close>

record board_params =
  p_addr :: "nat list"
  p_irq :: "nat list"
  p_clock :: "u32 list"
  p_ocr :: "u8 list"
  p_cdr :: "u8 list"

text \<open>
  The kernel: the memory for a device, whether its addresses are free, the address of the mapping,
  the result of \<open>rtdm_irq_request\<close>, what the chip does during a busy wait, and what the rest of the system does
  while \<open>rtcan_dev_unregister\<close> waits.
\<close>

record 'h board_kernel =
  bk_mem :: "nat option"
  bk_region :: bool
  bk_map :: "nat option"
  bk_irq :: "nat \<Rightarrow> cret"
  bk_tick :: "nat \<Rightarrow> 'h \<Rightarrow> 'h"
  bk_waits :: "('h sja_world \<Rightarrow> 'h sja_world) list"

text \<open>
  The state of a module: the table of its devices, and for a device \<open>dev->priv\<close> and the address in
  \<open>dev->board_priv\<close>.
\<close>

record 'h board_mod =
  bm_world :: "'h sja_world"
  bm_res :: "resource multiset"
  bm_devs :: "nat option list"
  bm_priv :: "nat \<Rightarrow> 'h rtcan_sja1000"
  bm_base :: "nat \<Rightarrow> nat"

section \<open>ISA boards\<close>

definition rtcan_isa_readreg :: "'h io_bus \<Rightarrow> nat \<Rightarrow> nat \<Rightarrow> 'h \<Rightarrow> u8 \<times> 'h" where
  "rtcan_isa_readreg bus io port = bus_in bus (io + port)"

definition rtcan_isa_writereg :: "'h io_bus \<Rightarrow> nat \<Rightarrow> nat \<Rightarrow> u8 \<Rightarrow> 'h \<Rightarrow> 'h" where
  "rtcan_isa_writereg bus io port val = bus_out bus (io + port) val"

definition board_clock :: "board_params \<Rightarrow> nat \<Rightarrow> u32" where
  "board_clock P idx = (if p_clock P ! idx \<noteq> 0 then p_clock P ! idx div 2 else 8000000)"

definition board_ocr :: "board_params \<Rightarrow> nat \<Rightarrow> u8" where
  "board_ocr P idx = (if p_ocr P ! idx \<noteq> 0 then p_ocr P ! idx else SJA_OCR_MODE_NORMAL OR SJA_OCR_TX0_PUSHPULL)"

definition board_cdr :: "board_params \<Rightarrow> nat \<Rightarrow> u8" where
  "board_cdr P idx = (if p_cdr P ! idx \<noteq> 0 then p_cdr P ! idx else SJA_CDR_CAN_MODE OR SJA_CDR_CLK_OFF OR SJA_CDR_CBP)"

definition rtcan_isa_init_one ::
    "'h io_bus \<Rightarrow> board_params \<Rightarrow> 'h board_kernel \<Rightarrow> nat \<Rightarrow> 'h board_mod \<Rightarrow> cret \<times> 'h board_mod" where
  "rtcan_isa_init_one bus P k idx M =
     (case rtcan_dev_alloc (bm_world M) (bk_mem k) of
        (None, w) \<Rightarrow> (Inl ENOMEM, M)
      | (Some d, w) \<Rightarrow>
          let io = p_addr P ! idx;
              chip = \<lparr>read_reg = rtcan_isa_readreg bus io, write_reg = rtcan_isa_writereg bus io, irq_ack = None,
                      ocr = board_ocr P idx, cdr = board_cdr P idx\<rparr>;
              M1 = M\<lparr>bm_world := w, bm_priv := (bm_priv M)(d := chip), bm_base := (bm_base M)(d := io)\<rparr>
          in if \<not> bk_region k then (Inl EBUSY, M1\<lparr>bm_world := rtcan_dev_free w (Some d)\<rparr>)
             else
               let w1 = upd_dev d (\<lambda>dev. dev\<lparr>can_sys_clock := board_clock P idx, dev_name := RTCAN_DEV_NAME\<rparr>) w;
                   M2 = M1\<lparr>bm_res := add_mset (IoRegion io RTCAN_ISA_PORT_SIZE) (bm_res M1)\<rparr>;
                   (ret, w2) = rtcan_sja1000_register (Some chip) (hw_env (bk_tick k) d) (bk_irq k (p_irq P ! idx)) d w1
               in if ret \<noteq> Inr 0
                  then (ret, M2\<lparr>bm_res := bm_res M2 - {#IoRegion io RTCAN_ISA_PORT_SIZE#}, bm_world := rtcan_dev_free w2 (Some d)\<rparr>)
                  else (Inr 0, M2\<lparr>bm_world := w2, bm_devs := (bm_devs M2)[idx := Some d]\<rparr>))"

text \<open>One turn of the loop in \<open>rtcan_isa_exit\<close>; \<open>None\<close> waits for ever.\<close>

definition isa_exit_one :: "(nat \<Rightarrow> 'h board_kernel) \<Rightarrow> nat \<Rightarrow> 'h board_mod \<Rightarrow> 'h board_mod option" where
  "isa_exit_one k i M =
     (case bm_devs M ! i of
        None \<Rightarrow> Some M
      | Some d \<Rightarrow>
          map_option (\<lambda>w. M\<lparr>bm_world := rtcan_dev_free w (Some d)\<rparr>)
            (rtcan_sja1000_unregister (bm_priv M d) (hw_env (bk_tick (k i)) d) d (bk_waits (k i)) (bm_world M)))"

text \<open>The loops of both drivers.\<close>

fun board_exit_loop :: "(nat \<Rightarrow> 'm \<Rightarrow> 'm option) \<Rightarrow> nat list \<Rightarrow> 'm \<Rightarrow> 'm option" where
  "board_exit_loop exit_one [] M = Some M"
| "board_exit_loop exit_one (i # is) M = Option.bind (exit_one i M) (board_exit_loop exit_one is)"

fun board_init_loop ::
    "(nat \<Rightarrow> 'm \<Rightarrow> cret \<times> 'm) \<Rightarrow> ('m \<Rightarrow> 'm option) \<Rightarrow> board_params \<Rightarrow> nat list \<Rightarrow> bool \<Rightarrow> 'm \<Rightarrow> (cret \<times> 'm) option" where
  "board_init_loop init_one exit_all P [] some M = Some (if some then Inr 0 else Inl EINVAL, M)"
| "board_init_loop init_one exit_all P (i # is) some M =
     (if p_addr P ! i = 0 then Some (if some then Inr 0 else Inl EINVAL, M)
      else case init_one i M of
        (err, M1) \<Rightarrow>
          if err \<noteq> Inr 0 then map_option (\<lambda>M2. (err, M2)) (exit_all M1)
          else board_init_loop init_one exit_all P is True M1)"

definition rtcan_isa_exit :: "(nat \<Rightarrow> 'h board_kernel) \<Rightarrow> 'h board_mod \<Rightarrow> 'h board_mod option" where
  "rtcan_isa_exit k M = board_exit_loop (isa_exit_one k) [0..<RTCAN_ISA_MAX_DEV] M"

definition rtcan_isa_init ::
    "'h io_bus \<Rightarrow> board_params \<Rightarrow> (nat \<Rightarrow> 'h board_kernel) \<Rightarrow> 'h board_mod \<Rightarrow> (cret \<times> 'h board_mod) option" where
  "rtcan_isa_init bus P k M =
     board_init_loop (\<lambda>i. rtcan_isa_init_one bus P (k i) i) (rtcan_isa_exit k) P [0..<RTCAN_ISA_MAX_DEV] False M"

section \<open>Memory mapped boards\<close>

definition rtcan_mem_readreg :: "'h io_bus \<Rightarrow> nat \<Rightarrow> nat \<Rightarrow> 'h \<Rightarrow> u8 \<times> 'h" where
  "rtcan_mem_readreg bus vmem reg = bus_in bus (vmem + reg)"

definition rtcan_mem_writereg :: "'h io_bus \<Rightarrow> nat \<Rightarrow> nat \<Rightarrow> u8 \<Rightarrow> 'h \<Rightarrow> 'h" where
  "rtcan_mem_writereg bus vmem reg val = bus_out bus (vmem + reg) val"

definition rtcan_mem_init_one ::
    "'h io_bus \<Rightarrow> board_params \<Rightarrow> 'h board_kernel \<Rightarrow> nat \<Rightarrow> 'h board_mod \<Rightarrow> cret \<times> 'h board_mod" where
  "rtcan_mem_init_one bus P k idx M =
     (case rtcan_dev_alloc (bm_world M) (bk_mem k) of
        (None, w) \<Rightarrow> (Inl ENOMEM, M)
      | (Some d, w) \<Rightarrow>
          if \<not> bk_region k then (Inl EBUSY, M\<lparr>bm_world := rtcan_dev_free w (Some d)\<rparr>)
          else
            let reg = MemRegion (p_addr P ! idx) RTCAN_MEM_RANGE; M1 = M\<lparr>bm_world := w, bm_res := add_mset reg (bm_res M)\<rparr> in
            case bk_map k of
              None \<Rightarrow> (Inl EBUSY, M1\<lparr>bm_res := bm_res M1 - {#reg#}, bm_world := rtcan_dev_free w (Some d)\<rparr>)
            | Some vmem \<Rightarrow>
                let chip = \<lparr>read_reg = rtcan_mem_readreg bus vmem, write_reg = rtcan_mem_writereg bus vmem, irq_ack = None,
                            ocr = board_ocr P idx, cdr = board_cdr P idx\<rparr>;
                    w1 = upd_dev d (\<lambda>dev. dev\<lparr>can_sys_clock := board_clock P idx, dev_name := RTCAN_DEV_NAME\<rparr>) w;
                    M2 = M1\<lparr>bm_res := add_mset (Mapping vmem) (bm_res M1), bm_priv := (bm_priv M1)(d := chip), bm_base := (bm_base M1)(d := vmem)\<rparr>;
                    (ret, w2) = rtcan_sja1000_register (Some chip) (hw_env (bk_tick k) d) (bk_irq k (p_irq P ! idx)) d w1
                in if ret \<noteq> Inr 0
                   then (ret, M2\<lparr>bm_res := bm_res M2 - {#Mapping vmem#} - {#reg#}, bm_world := rtcan_dev_free w2 (Some d)\<rparr>)
                   else (Inr 0, M2\<lparr>bm_world := w2, bm_devs := (bm_devs M2)[idx := Some d]\<rparr>))"

definition mem_exit_one :: "board_params \<Rightarrow> (nat \<Rightarrow> 'h board_kernel) \<Rightarrow> nat \<Rightarrow> 'h board_mod \<Rightarrow> 'h board_mod option" where
  "mem_exit_one P k i M =
     (case bm_devs M ! i of
        None \<Rightarrow> Some M
      | Some d \<Rightarrow>
          map_option (\<lambda>w. M\<lparr>bm_world := rtcan_dev_free w (Some d),
              bm_res := bm_res M - {#Mapping (bm_base M d)#} - {#MemRegion (p_addr P ! i) RTCAN_MEM_RANGE#}\<rparr>)
            (rtcan_sja1000_unregister (bm_priv M d) (hw_env (bk_tick (k i)) d) d (bk_waits (k i)) (bm_world M)))"

definition rtcan_mem_exit :: "board_params \<Rightarrow> (nat \<Rightarrow> 'h board_kernel) \<Rightarrow> 'h board_mod \<Rightarrow> 'h board_mod option" where
  "rtcan_mem_exit P k M = board_exit_loop (mem_exit_one P k) [0..<RTCAN_MEM_MAX_DEV] M"

definition rtcan_mem_init ::
    "'h io_bus \<Rightarrow> board_params \<Rightarrow> (nat \<Rightarrow> 'h board_kernel) \<Rightarrow> 'h board_mod \<Rightarrow> (cret \<times> 'h board_mod) option" where
  "rtcan_mem_init bus P k M =
     board_init_loop (\<lambda>i. rtcan_mem_init_one bus P (k i) i) (rtcan_mem_exit P k) P [0..<RTCAN_MEM_MAX_DEV] False M"


section \<open>Resources are given back\<close>

text \<open>
  What the loops need of the functions for one device: \<open>held j m\<close> are the resources of entry \<open>j\<close>, \<open>None\<close>
  for an entry that is not in use. A failed initialisation keeps nothing, a successful one adds what its
  entry holds, and the cleanup of an entry takes just that away.
\<close>

locale board_driver =
  fixes init_one :: "nat \<Rightarrow> 'm \<Rightarrow> cret \<times> 'm" and exit_one :: "nat \<Rightarrow> 'm \<Rightarrow> 'm option"
    and res :: "'m \<Rightarrow> resource multiset" and held :: "nat \<Rightarrow> 'm \<Rightarrow> resource multiset option" and ok :: "'m \<Rightarrow> bool" and n :: nat
  assumes init_fails: "ok m \<Longrightarrow> i < n \<Longrightarrow> held i m = None \<Longrightarrow> init_one i m = (e, m') \<Longrightarrow> e \<noteq> Inr 0 \<Longrightarrow>
      ok m' \<and> res m' = res m \<and> (\<forall>j. held j m' = held j m)"
    and init_succeeds: "ok m \<Longrightarrow> i < n \<Longrightarrow> held i m = None \<Longrightarrow> init_one i m = (Inr 0, m') \<Longrightarrow>
      \<exists>r. ok m' \<and> held i m' = Some r \<and> res m' = res m + r \<and> (\<forall>j. j \<noteq> i \<longrightarrow> held j m' = held j m)"
    and exit_unused: "ok m \<Longrightarrow> i < n \<Longrightarrow> held i m = None \<Longrightarrow> exit_one i m = Some m"
    and exit_used: "ok m \<Longrightarrow> i < n \<Longrightarrow> held i m = Some r \<Longrightarrow>
      \<exists>m'. exit_one i m = Some m' \<and> ok m' \<and> res m' = res m - r \<and> (\<forall>j. j \<noteq> i \<longrightarrow> held j m' = held j m)"
begin

definition held_by :: "nat \<Rightarrow> 'm \<Rightarrow> resource multiset" where
  "held_by j m = (case held j m of None \<Rightarrow> {#} | Some r \<Rightarrow> r)"

lemma held_by_cong: "held j m' = held j m \<Longrightarrow> held_by j m' = held_by j m"
  by (simp add: held_by_def)

lemma exit_loop:
  assumes "ok m" and "distinct is" and "set is \<subseteq> {..<n}" and "res m = X + (\<Sum>j\<in>set is. held_by j m)"
  shows "\<exists>m'. board_exit_loop exit_one is m = Some m' \<and> res m' = X"
  using assms
proof (induction "is" arbitrary: m)
  case (Cons i "is")
  have i: "i < n"
    using Cons.prems(3) by simp
  show ?case
  proof (cases "held i m")
    case None
    then show ?thesis
      using Cons.IH [OF Cons.prems(1)] Cons.prems exit_unused [OF Cons.prems(1) i None] by (simp add: held_by_def)
  next
    case (Some r)
    obtain m1 where m1: "exit_one i m = Some m1" "ok m1" "res m1 = res m - r" "\<forall>j. j \<noteq> i \<longrightarrow> held j m1 = held j m"
      using exit_used [OF Cons.prems(1) i Some] by blast
    have "(\<Sum>j\<in>set is. held_by j m1) = (\<Sum>j\<in>set is. held_by j m)"
      using m1(4) Cons.prems(2) by (intro sum.cong refl held_by_cong) auto
    then have "res m1 = X + (\<Sum>j\<in>set is. held_by j m1)"
      using Cons.prems(2,4) by (simp add: m1(3) held_by_def [of i] Some)
    then show ?thesis
      using Cons.IH [OF m1(2)] Cons.prems(2,3) m1(1) by simp
  qed
qed simp

lemma held_sum_update:
  assumes "i < n" and "held i m = None" and "held i m' = Some r" and "\<forall>j. j \<noteq> i \<longrightarrow> held j m' = held j m"
  shows "(\<Sum>j<n. held_by j m') = (\<Sum>j<n. held_by j m) + r"
proof -
  have "(\<Sum>j\<in>{..<n} - {i}. held_by j m') = (\<Sum>j\<in>{..<n} - {i}. held_by j m)"
    using assms(4) by (intro sum.cong refl held_by_cong) auto
  then show ?thesis
    using assms(1-3) sum.remove [of "{..<n}" i "\<lambda>j. held_by j m'"] sum.remove [of "{..<n}" i "\<lambda>j. held_by j m"]
    by (simp add: held_by_def)
qed

lemma init_loop:
  assumes "ok m" and "distinct is" and "set is \<subseteq> {..<n}" and "\<forall>j\<in>set is. held j m = None"
    and "res m = X + (\<Sum>j<n. held_by j m)" and "\<not> some \<longrightarrow> (\<forall>j<n. held j m = None)"
  shows "\<exists>r m'. board_init_loop init_one (board_exit_loop exit_one [0..<n]) P is some m = Some (r, m') \<and>
    (if r = Inr 0 then ok m' \<and> res m' = X + (\<Sum>j<n. held_by j m') else res m' = X)"
  using assms
proof (induction "is" arbitrary: m some)
  case Nil
  then show ?case
    by (auto simp: held_by_def)
next
  case (Cons i "is")
  show ?case
  proof (cases "p_addr P ! i = 0")
    case True
    then show ?thesis
      using Cons.prems(1,5,6) by (auto simp: held_by_def)
  next
    case False
    obtain e m1 where one: "init_one i m = (e, m1)"
      by (cases "init_one i m")
    have i: "i < n" "held i m = None"
      using Cons.prems(3,4) by simp_all
    show ?thesis
    proof (cases "e = Inr 0")
      case True
      then obtain r where r: "ok m1" "held i m1 = Some r" "res m1 = res m + r" "\<forall>j. j \<noteq> i \<longrightarrow> held j m1 = held j m"
        using init_succeeds [OF Cons.prems(1) i] one by blast
      have "res m1 = X + (\<Sum>j<n. held_by j m1)"
        using held_sum_update [OF i r(2,4)] Cons.prems(5) r(3) by (simp add: add.assoc)
      moreover have "\<forall>j\<in>set is. held j m1 = None"
        using Cons.prems(2,4) r(4) by auto
      ultimately show ?thesis
        using Cons.IH [OF r(1), of True] Cons.prems(2,3) one True False by simp
    next
      case err: False
      then have m1: "ok m1" "res m1 = res m" "\<forall>j. held j m1 = held j m"
        using init_fails [OF Cons.prems(1) i one] by auto
      have "(\<Sum>j\<in>set [0..<n]. held_by j m1) = (\<Sum>j<n. held_by j m)"
        using m1(3) by (intro sum.cong held_by_cong) auto
      then obtain m2 where "board_exit_loop exit_one [0..<n] m1 = Some m2" "res m2 = X"
        using exit_loop [OF m1(1), of "[0..<n]" X] Cons.prems(5) m1(2) by (auto simp: atLeast0LessThan)
      then show ?thesis
        using one err False by simp
    qed
  qed
qed

theorem init_balanced:
  assumes "ok m" and "\<forall>j<n. held j m = None"
  shows "\<exists>r m'. board_init_loop init_one (board_exit_loop exit_one [0..<n]) P [0..<n] False m = Some (r, m') \<and>
    (if r = Inr 0 then \<exists>m''. board_exit_loop exit_one [0..<n] m' = Some m'' \<and> res m'' = res m else res m' = res m)"
proof -
  have s: "{..<n} = set [0..<n]"
    by auto
  obtain r m' where "board_init_loop init_one (board_exit_loop exit_one [0..<n]) P [0..<n] False m = Some (r, m')"
      "if r = Inr 0 then ok m' \<and> res m' = res m + (\<Sum>j<n. held_by j m') else res m' = res m"
    using init_loop [OF assms(1), of "[0..<n]" "res m" False P] assms(2) by (fastforce simp: held_by_def)
  then show ?thesis
    using exit_loop [of m' "[0..<n]" "res m"] unfolding s by (intro exI [of _ r] exI [of _ m']) (auto split: if_splits)
qed

end


text \<open>No function of the SJA1000 driver used here touches a reference count.\<close>

lemma mode_stop_refcount [simp]:
  "refcount (devs (snd (rtcan_sja_mode_stop chip (hw_env tick d) d w)) e) = refcount (devs w e)"
  using sja_set_mode_frame [of d w chip tick CAN_MODE_STOP] by (auto simp: rtcan_sja_set_mode_def ctl_frame_def)

lemma wr_list_devs [simp]: "devs (wr_list chip d rvs w) = devs w"
  by (induction chip d rvs w rule: wr_list.induct) simp_all

lemma dev_register_refcount: "refcount (devs (snd (rtcan_dev_register w d)) e) = refcount (devs w e)"
  by (simp add: rtcan_dev_register_def rtcan_dev_alloc_name_def alloc_name_loop_eq Let_def split: sum.splits option.splits)

lemma register_refcount:
  "refcount (devs (snd (rtcan_sja1000_register priv (hw_env tick d) irq d w)) e) = refcount (devs w e)"
  by (simp add: rtcan_sja1000_register_def sja1000_chip_config_def dev_register_refcount Let_def case_prod_unfold split: option.splits)

lemma dev_free_refcount [simp]: "refcount (devs (rtcan_dev_free w dev) e) = refcount (devs w e)"
  by (simp add: rtcan_dev_free_def split: option.splits)

lemma unregister_returns:
  assumes "refcount (devs w d) \<le> 0"
  shows "\<exists>w'. rtcan_sja1000_unregister chip (hw_env tick d) d waits w = Some w' \<and> (\<forall>e. refcount (devs w' e) = refcount (devs w e))"
proof -
  let ?w = "snd (rtcan_sja_mode_stop chip (hw_env tick d) d w)"
  have "unregister_wait ?w d waits = Some ?w"
    using assms by (cases waits) simp_all
  then show ?thesis
    by (simp add: rtcan_sja1000_unregister_def rtcan_dev_unregister_def)
qed


section \<open>The memory mapped driver keeps the balance\<close>

text \<open>
  The devices of the table are those that were allocated for their entries, at different addresses,
  and nobody refers to them.
\<close>

definition mems_distinct :: "(nat \<Rightarrow> 'h board_kernel) \<Rightarrow> bool" where
  "mems_distinct k \<longleftrightarrow> (\<forall>i j. bk_mem (k i) = bk_mem (k j) \<and> bk_mem (k i) \<noteq> None \<longrightarrow> i = j)"

definition boards_ok :: "(nat \<Rightarrow> 'h board_kernel) \<Rightarrow> nat \<Rightarrow> 'h board_mod \<Rightarrow> bool" where
  "boards_ok k n M \<longleftrightarrow>
     mems_distinct k \<and> length (bm_devs M) = n \<and>
     (\<forall>i<n. \<forall>d. bm_devs M ! i = Some d \<longrightarrow> bk_mem (k i) = Some d \<and> refcount (devs (bm_world M) d) = 0)"

definition mem_held :: "board_params \<Rightarrow> nat \<Rightarrow> 'h board_mod \<Rightarrow> resource multiset option" where
  "mem_held P i M =
     (if i < length (bm_devs M)
      then map_option (\<lambda>d. {#MemRegion (p_addr P ! i) RTCAN_MEM_RANGE, Mapping (bm_base M d)#}) (bm_devs M ! i) else None)"

lemma mem_init_one_cases:
  assumes "rtcan_mem_init_one bus P k i M = (e, M')"
  obtains (nomem) "bk_mem k = None" "e = Inl ENOMEM" "M' = M"
  | (fails) d where "bk_mem k = Some d" "e \<noteq> Inr 0" "bm_res M' = bm_res M" "bm_devs M' = bm_devs M" "\<forall>x. x \<noteq> d \<longrightarrow> bm_base M' x = bm_base M x"
      "\<forall>x. x \<noteq> d \<longrightarrow> refcount (devs (bm_world M') x) = refcount (devs (bm_world M) x)"
  | (succeeds) d vmem where "bk_mem k = Some d" "e = Inr 0" "bm_res M' = bm_res M + {#MemRegion (p_addr P ! i) RTCAN_MEM_RANGE, Mapping vmem#}"
      "bm_devs M' = (bm_devs M)[i := Some d]" "bm_base M' = (bm_base M)(d := vmem)" "refcount (devs (bm_world M') d) = 0"
      "\<forall>x. x \<noteq> d \<longrightarrow> refcount (devs (bm_world M') x) = refcount (devs (bm_world M) x)"
proof (cases "bk_mem k")
  case None
  then show ?thesis
    using assms nomem by (simp add: rtcan_mem_init_one_def rtcan_dev_alloc_def)
next
  case (Some d)
  define w where "w = upd_dev d (\<lambda>_. fresh_device) (bm_world M)"
  have w: "refcount (devs w d) = 0" "\<forall>x. x \<noteq> d \<longrightarrow> refcount (devs w x) = refcount (devs (bm_world M) x)"
    by (simp_all add: w_def fresh_device_def)
  have alloc: "rtcan_dev_alloc (bm_world M) (bk_mem k) = (Some d, w)"
    by (simp add: rtcan_dev_alloc_def Some w_def)
  show ?thesis
  proof (cases "bk_region k \<and> bk_map k \<noteq> None")
    case False
    then have "e = Inl EBUSY \<and> bm_res M' = bm_res M \<and> bm_devs M' = bm_devs M \<and> bm_base M' = bm_base M \<and>
        bm_world M' = rtcan_dev_free w (Some d)"
      using assms by (cases "bk_region k") (auto simp: rtcan_mem_init_one_def alloc Let_def)
    then show ?thesis
      using w(2) by (intro fails [OF Some]) simp_all
  next
    case True
    then obtain vmem where v: "bk_map k = Some vmem" and r: "bk_region k"
      by auto
    define chip where "chip = \<lparr>read_reg = rtcan_mem_readreg bus vmem, write_reg = rtcan_mem_writereg bus vmem, irq_ack = None,
                            ocr = board_ocr P i, cdr = board_cdr P i\<rparr>"
    define w1 where "w1 = upd_dev d (\<lambda>dev. dev\<lparr>can_sys_clock := board_clock P i, dev_name := RTCAN_DEV_NAME\<rparr>) w"
    obtain ret w2 where reg: "rtcan_sja1000_register (Some chip) (hw_env (bk_tick k) d) (bk_irq k (p_irq P ! i)) d w1 = (ret, w2)"
      by fastforce
    have w2: "refcount (devs w2 x) = refcount (devs w x)" for x
      using register_refcount [of "Some chip" "bk_tick k" d "bk_irq k (p_irq P ! i)" w1 x] unfolding reg by (simp add: w1_def split: if_splits)
    have run: "e = ret \<and> bm_devs M' = (if ret = Inr 0 then (bm_devs M)[i := Some d] else bm_devs M) \<and> bm_base M' = (bm_base M)(d := vmem) \<and>
        bm_world M' = (if ret = Inr 0 then w2 else rtcan_dev_free w2 (Some d)) \<and>
        bm_res M' = (if ret = Inr 0 then bm_res M + {#MemRegion (p_addr P ! i) RTCAN_MEM_RANGE, Mapping vmem#} else bm_res M)"
      using assms reg [unfolded chip_def w1_def] by (cases "ret = Inr 0") (auto simp: rtcan_mem_init_one_def alloc v r Let_def)
    show ?thesis
    proof (cases "ret = Inr 0")
      case True
      then show ?thesis
        using run w w2 by (intro succeeds [OF Some]) auto
    next
      case False
      then show ?thesis
        using run w w2 by (intro fails [OF Some]) auto
    qed
  qed
qed


lemma mem_exit_one_used:
  assumes "boards_ok k n M" and "i < n" and "bm_devs M ! i = Some d"
  shows "\<exists>M'. mem_exit_one P k i M = Some M' \<and> boards_ok k n M' \<and> bm_devs M' = bm_devs M \<and> bm_base M' = bm_base M \<and>
    bm_res M' = bm_res M - {#MemRegion (p_addr P ! i) RTCAN_MEM_RANGE, Mapping (bm_base M d)#}"
proof -
  have "refcount (devs (bm_world M) d) \<le> 0"
    using assms by (simp add: boards_ok_def)
  then obtain w where w: "rtcan_sja1000_unregister (bm_priv M d) (hw_env (bk_tick (k i)) d) d (bk_waits (k i)) (bm_world M) = Some w"
      "\<forall>e. refcount (devs w e) = refcount (devs (bm_world M) e)"
    using unregister_returns by blast
  moreover have "boards_ok k n (M\<lparr>bm_world := rtcan_dev_free w (Some d), bm_res := R\<rparr>)" for R
    using assms(1) w(2) unfolding boards_ok_def by simp
  ultimately show ?thesis
    using assms by (auto simp: mem_exit_one_def)
qed

text \<open>The table entry of a device that was cleaned up stays; it is used no more. So the entries count as held.\<close>

interpretation mem_board: board_driver "\<lambda>i. rtcan_mem_init_one bus P (k i) i" "mem_exit_one P k" bm_res "mem_held P"
    "boards_ok k RTCAN_MEM_MAX_DEV" RTCAN_MEM_MAX_DEV for bus P k
proof unfold_locales
  fix m i e m'
  assume ok: "boards_ok k RTCAN_MEM_MAX_DEV m" and i: "i < RTCAN_MEM_MAX_DEV" and none: "mem_held P i m = None"
    and run: "rtcan_mem_init_one bus P (k i) i m = (e, m')" and e: "e \<noteq> Inr 0"
  have *: "bm_devs m ! i = None"
    using none ok i by (simp add: mem_held_def boards_ok_def)
  show "boards_ok k RTCAN_MEM_MAX_DEV m' \<and> bm_res m' = bm_res m \<and> (\<forall>j. mem_held P j m' = mem_held P j m)"
    using run
  proof (cases rule: mem_init_one_cases)
    case nomem
    then show ?thesis
      using ok by simp
  next
    case (fails d)
    have d: "bm_devs m ! j \<noteq> Some d" if "j < RTCAN_MEM_MAX_DEV" for j
      using ok that * fails(1) unfolding boards_ok_def mems_distinct_def by (metis option.distinct(1))
    have "mem_held P j m' = mem_held P j m" for j
      using d [of j] ok fails(4,5) by (cases "bm_devs m ! j") (auto simp: mem_held_def boards_ok_def)
    moreover have "boards_ok k RTCAN_MEM_MAX_DEV m'"
      using d ok fails(4,6) unfolding boards_ok_def by metis
    ultimately show ?thesis
      using fails(3) by simp
  next
    case (succeeds d vmem)
    then show ?thesis
      using e by simp
  qed
next
  fix m i m'
  assume ok: "boards_ok k RTCAN_MEM_MAX_DEV m" and i: "i < RTCAN_MEM_MAX_DEV" and none: "mem_held P i m = None"
    and run: "rtcan_mem_init_one bus P (k i) i m = (Inr 0, m')"
  have *: "bm_devs m ! i = None"
    using none ok i by (simp add: mem_held_def boards_ok_def)
  show "\<exists>r. boards_ok k RTCAN_MEM_MAX_DEV m' \<and> mem_held P i m' = Some r \<and> bm_res m' = bm_res m + r \<and> (\<forall>j. j \<noteq> i \<longrightarrow> mem_held P j m' = mem_held P j m)"
    using run
  proof (cases rule: mem_init_one_cases)
    case (succeeds d vmem)
    have d: "bm_devs m ! j \<noteq> Some d" if "j < RTCAN_MEM_MAX_DEV" for j
      using ok that * succeeds(1) unfolding boards_ok_def mems_distinct_def by (metis option.distinct(1))
    have l: "length (bm_devs m) = RTCAN_MEM_MAX_DEV"
      using ok by (simp add: boards_ok_def)
    have u: "bm_devs m' ! j = (if j = i then Some d else bm_devs m ! j)" for j
      using l i succeeds(4) by (simp add: nth_list_update)
    have "mem_held P j m' = mem_held P j m" if "j \<noteq> i" for j
      using d [of j] l succeeds(4,5) that by (cases "bm_devs m ! j") (auto simp: mem_held_def)
    moreover have "boards_ok k RTCAN_MEM_MAX_DEV m'"
      using d ok succeeds(1,4,6,7) u unfolding boards_ok_def by (auto split: if_splits) metis
    ultimately show ?thesis
      using succeeds(3-5) l i by (simp add: mem_held_def)
  qed simp_all
next
  fix m i
  assume "boards_ok k RTCAN_MEM_MAX_DEV m" "i < RTCAN_MEM_MAX_DEV" "mem_held P i m = None"
  then show "mem_exit_one P k i m = Some m"
    by (auto simp: mem_held_def mem_exit_one_def boards_ok_def split: if_splits)
next
  fix m i r
  assume "boards_ok k RTCAN_MEM_MAX_DEV m" "i < RTCAN_MEM_MAX_DEV" "mem_held P i m = Some r"
  then show "\<exists>m'. mem_exit_one P k i m = Some m' \<and> boards_ok k RTCAN_MEM_MAX_DEV m' \<and> bm_res m' = bm_res m - r \<and>
      (\<forall>j. j \<noteq> i \<longrightarrow> mem_held P j m' = mem_held P j m)"
    using mem_exit_one_used [of k RTCAN_MEM_MAX_DEV m i] by (fastforce simp: mem_held_def split: if_splits)
qed


text \<open>
  C20: Loading the memory mapped driver always returns and is balanced: whatever the kernel answers and
  the chips report, a load that fails has given back every region and mapping it had taken, and after a
  load that succeeds unloading gives back all of them.
\<close>

theorem mem_init_balanced:
  assumes "mems_distinct k" and "bm_devs M = replicate RTCAN_MEM_MAX_DEV None"
  shows "\<exists>r M'. rtcan_mem_init bus P k M = Some (r, M') \<and>
    (if r = Inr 0 then \<exists>M''. rtcan_mem_exit P k M' = Some M'' \<and> bm_res M'' = bm_res M else bm_res M' = bm_res M)"
proof -
  have ok: "boards_ok k RTCAN_MEM_MAX_DEV M" and none: "\<forall>j<RTCAN_MEM_MAX_DEV. mem_held P j M = None"
    using assms by (simp_all add: boards_ok_def mem_held_def)
  have "rtcan_mem_exit P k = board_exit_loop (mem_exit_one P k) [0..<RTCAN_MEM_MAX_DEV]"
    by (rule ext) (simp add: rtcan_mem_exit_def)
  then show ?thesis
    unfolding rtcan_mem_init_def by (simp only: mem_board.init_balanced [OF ok none])
qed

section \<open>The ISA driver does not\<close>

text \<open>
  The cleanup of the ISA driver releases no region: what was reserved stays reserved, also when loading
  fails at a later device.
\<close>

lemma isa_exit_one_res: "isa_exit_one k i M = Some M' \<Longrightarrow> bm_res M' = bm_res M"
  by (auto simp: isa_exit_one_def split: option.splits)

theorem isa_exit_keeps_regions: "rtcan_isa_exit k M = Some M' \<Longrightarrow> bm_res M' = bm_res M"
proof -
  have "board_exit_loop (isa_exit_one k) is M = Some M' \<Longrightarrow> bm_res M' = bm_res M" for "is"
  proof (induction "is" arbitrary: M)
    case (Cons i "is")
    then show ?case
      using isa_exit_one_res by (cases "isa_exit_one k i M") fastforce+
  qed simp
  then show "rtcan_isa_exit k M = Some M' \<Longrightarrow> bm_res M' = bm_res M"
    by (simp add: rtcan_isa_exit_def)
qed

section \<open>A chip that answers is registered\<close>

definition chip_present :: "'h rtcan_sja1000 \<Rightarrow> bool" where
  "chip_present chip \<longleftrightarrow> (\<forall>h. fst (read_reg chip SJA_MOD h) AND SJA_MOD_RM \<noteq> 0 \<and>
     fst (read_reg chip SJA_SR h) AND (SJA_SR_RBS OR SJA_SR_DOS OR SJA_SR_TBS) = SJA_SR_TBS)"

lemma sja_register_ok:
  fixes w :: "'h sja_world"
  assumes "chip_present chip" and "registry_ok w" and "\<not> registered w d" and "dev_name (devs w d) = ''rtcan%d''"
    and "None \<in> set (rtcan_devices w)"
  shows "\<exists>w'. rtcan_sja1000_register (Some chip) (hw_env tick d) (Inr 0) d w = (Inr 0, w')"
proof -
  define w1 where "w1 = snd (rtcan_sja_mode_stop chip (hw_env tick d) d (upd_dev d (\<lambda>dev. dev\<lparr>dev_state := CAN_STATE_ACTIVE\<rparr>) w))"
  have f: "ctl_frame d w w1"
    using sja_set_mode_frame [of d "upd_dev d (\<lambda>dev. dev\<lparr>dev_state := CAN_STATE_ACTIVE\<rparr>) w" chip tick CAN_MODE_STOP]
    unfolding w1_def rtcan_sja_set_mode_def ctl_frame_def by auto
  obtain sr w2 where r: "rd chip d SJA_SR w1 = (sr, w2)"
    by fastforce
  have sr: "sr AND (SJA_SR_RBS OR SJA_SR_DOS OR SJA_SR_TBS) = SJA_SR_TBS"
    using assms(1) r by (auto simp: rd_def chip_present_def split: prod.splits) (metis fst_conv)
  have f2: "ctl_frame d w w2"
    by (rule ctl_frame_rd [OF r f])
  define w3 where "w3 = sja1000_chip_config chip d (w2\<lparr>bus_err_on := (bus_err_on w2)(d := 1)\<rparr>)"
  have w3: "rtcan_devices w3 = rtcan_devices w" "\<forall>e. dev_name (devs w3 e) = dev_name (devs w e) \<and> dev_ifindex (devs w3 e) = dev_ifindex (devs w e)"
    using f2 by (auto simp: w3_def sja1000_chip_config_def ctl_frame_def)
  moreover have "ifname w3 = ifname w"
    using w3(2) by (intro ext) (simp add: ifname_def)
  ultimately have "registry_ok w3" "\<not> registered w3 d" "dev_name (devs w3 d) = ''rtcan%d''" "None \<in> set (rtcan_devices w3)"
    using assms(2-5) by (simp_all add: registry_ok_def registered_def)
  from register_rtcan_ok [OF this] obtain w4 where "rtcan_dev_register w3 d = (Inr 0, w4)"
    by blast
  then show ?thesis
    using sr by (simp add: rtcan_sja1000_register_def w1_def [symmetric] r w3_def [symmetric] Let_def)
qed

section \<open>An example\<close>

text \<open>A chip in reset mode at address 64: the status register says that the transmit buffer is free.\<close>

definition quiet_bus :: "unit io_bus" where
  "quiet_bus = \<lparr>bus_in = (\<lambda>a h. (if a = 64 then SJA_MOD_RM else SJA_SR_TBS, h)), bus_out = (\<lambda>a v h. h)\<rparr>"

definition board_kernel0 :: "nat \<Rightarrow> unit board_kernel" where
  "board_kernel0 i = \<lparr>bk_mem = Some i, bk_region = True, bk_map = Some 64, bk_irq = (\<lambda>_. Inr 0), bk_tick = (\<lambda>_ h. h), bk_waits = []\<rparr>"

definition board_params0 :: board_params where
  "board_params0 = \<lparr>p_addr = [64, 0, 0, 0], p_irq = [5, 0, 0, 0], p_clock = [0, 0, 0, 0], p_ocr = [0, 0, 0, 0], p_cdr = [0, 0, 0, 0]\<rparr>"

definition board_mod0 :: "unit board_mod" where
  "board_mod0 = \<lparr>bm_world = \<lparr>rtcan_devices = replicate RTCAN_MAX_DEVICES None, devs = (\<lambda>_. fresh_device), socks = (\<lambda>_. blank_socket),
       rtcan_socket_list = [], sja_hw = (\<lambda>_. ()), bus_err_on = (\<lambda>_. 0)\<rparr>,
     bm_res = {#}, bm_devs = replicate RTCAN_MEM_MAX_DEV None,
     bm_priv = (\<lambda>_. \<lparr>read_reg = (\<lambda>_ h. (0, h)), write_reg = (\<lambda>_ _ h. h), irq_ack = None, ocr = 0, cdr = 0\<rparr>), bm_base = (\<lambda>_. 0)\<rparr>"

definition board_world0 :: "unit sja_world" where
  "board_world0 = upd_dev 0 (\<lambda>dev. dev\<lparr>can_sys_clock := board_clock board_params0 0, dev_name := RTCAN_DEV_NAME\<rparr>)
     (upd_dev 0 (\<lambda>_. fresh_device) (bm_world board_mod0))"

lemma board_register_example:
  assumes "chip_present chip"
  shows "\<exists>w'. rtcan_sja1000_register (Some chip) (hw_env tick 0) (Inr 0) 0 board_world0 = (Inr 0, w')"
  by (rule sja_register_ok [OF assms])
    (simp_all add: registry_ok_def registered_def board_world0_def board_mod0_def RTCAN_DEV_NAME_def RTCAN_MAX_DEVICES_def)

lemma board_addr0: "p_addr board_params0 ! 0 = 64" "p_addr board_params0 ! Suc 0 = 0"
  by (simp_all add: board_params0_def)

lemma quiet_bus_chip:
  "chip_present \<lparr>read_reg = rtcan_mem_readreg quiet_bus 64, write_reg = wm, irq_ack = None, ocr = c, cdr = e\<rparr>"
  "chip_present \<lparr>read_reg = rtcan_isa_readreg quiet_bus 64, write_reg = wm, irq_ack = None, ocr = c, cdr = e\<rparr>"
  by (simp_all add: chip_present_def rtcan_mem_readreg_def rtcan_isa_readreg_def quiet_bus_def sja_bits SJA_MOD_def SJA_SR_def)

lemma mem_init_example: "\<exists>M'. rtcan_mem_init quiet_bus board_params0 board_kernel0 board_mod0 = Some (Inr 0, M')"
proof -
  have "\<exists>w'. rtcan_sja1000_register (Some \<lparr>read_reg = rtcan_mem_readreg quiet_bus 64, write_reg = rtcan_mem_writereg quiet_bus 64, irq_ack = None,
      ocr = board_ocr board_params0 0, cdr = board_cdr board_params0 0\<rparr>) (hw_env (\<lambda>_ h. h) 0) (Inr 0) 0 board_world0 = (Inr 0, w')"
    by (rule board_register_example [OF quiet_bus_chip(1)])
  then show ?thesis
    by (auto simp: rtcan_mem_init_def rtcan_mem_init_one_def rtcan_dev_alloc_def board_kernel0_def RTCAN_MEM_MAX_DEV_def
        upt_rec Let_def board_addr0 board_world0_def)
qed

theorem mem_init_balanced_witness:
  "\<exists>M' M''. rtcan_mem_init quiet_bus board_params0 board_kernel0 board_mod0 = Some (Inr 0, M') \<and>
    rtcan_mem_exit board_params0 board_kernel0 M' = Some M'' \<and> bm_res M'' = {#}"
proof -
  have k: "mems_distinct board_kernel0" "bm_devs board_mod0 = replicate RTCAN_MEM_MAX_DEV None" "bm_res board_mod0 = {#}"
    by (simp_all add: mems_distinct_def board_kernel0_def board_mod0_def)
  show ?thesis
    using mem_init_balanced [OF k(1,2), of quiet_bus board_params0] mem_init_example k(3) by auto
qed

text \<open>The ISA driver on the same machine: loaded and unloaded, it still holds the ports.\<close>

theorem isa_leaks_ports:
  "\<exists>M' M''. rtcan_isa_init quiet_bus board_params0 board_kernel0 board_mod0 = Some (Inr 0, M') \<and>
    rtcan_isa_exit board_kernel0 M' = Some M'' \<and> bm_res M'' = {#IoRegion 64 32#}"
proof -
  let ?io = "\<lparr>read_reg = rtcan_isa_readreg quiet_bus 64, write_reg = rtcan_isa_writereg quiet_bus 64, irq_ack = None,
    ocr = board_ocr board_params0 0, cdr = board_cdr board_params0 0\<rparr>"
  obtain w where w: "rtcan_sja1000_register (Some ?io) (hw_env (\<lambda>_ h. h) 0) (Inr 0) 0 board_world0 = (Inr 0, w)"
    using board_register_example [OF quiet_bus_chip(2)] by blast
  have rc: "refcount (devs w 0) \<le> 0"
    using register_refcount [of "Some ?io" "\<lambda>_ h. h" 0 "Inr 0" board_world0 0] unfolding w by (simp add: board_world0_def fresh_device_def)
  obtain M' where M': "rtcan_isa_init quiet_bus board_params0 board_kernel0 board_mod0 = Some (Inr 0, M')"
      "bm_res M' = {#IoRegion 64 32#}" "bm_devs M' = [Some 0, None, None, None]" "bm_world M' = w"
    using w unfolding board_world0_def
    by (auto simp: rtcan_isa_init_def rtcan_isa_init_one_def rtcan_dev_alloc_def board_kernel0_def board_addr0 RTCAN_ISA_MAX_DEV_def
        RTCAN_MEM_MAX_DEV_def RTCAN_ISA_PORT_SIZE_def board_mod0_def numeral_eq_Suc upt_rec Let_def)
  obtain w' where "rtcan_sja1000_unregister (bm_priv M' 0) (hw_env (bk_tick (board_kernel0 0)) 0) 0 (bk_waits (board_kernel0 0)) (bm_world M') = Some w'"
    using unregister_returns rc M'(4) by blast
  then obtain M'' where "rtcan_isa_exit board_kernel0 M' = Some M''"
    using M'(3) by (auto simp: rtcan_isa_exit_def isa_exit_one_def RTCAN_ISA_MAX_DEV_def upt_rec)
  then show ?thesis
    using M'(1,2) isa_exit_keeps_regions by metis
qed

end
