(* ===== verification/Can_Pci.thy ===== *)
theory Can_Pci
  imports Can_Boards
begin

text \<open>
  The drivers of PCI cards with one or two SJA1000 chips: \<open>rtcan_peak_pci.c\<close> and \<open>rtcan_ixxat_pci.c\<close>. The
  registers of a card, those of the chip and the configuration, are reached through a channel's view of
  the hardware. Undoing \<open>ioremap\<close> for an address that is not mapped is a fault.
\<close>

type_synonym u16 = "16 word"

section \<open>Cards\<close>

datatype channel = CHANNEL_SINGLE | CHANNEL_MASTER | CHANNEL_SLAVE

record 'h card_bus = "'h io_bus" +
  conf_readw :: "nat \<Rightarrow> 'h \<Rightarrow> u16"
  conf_writew :: "nat \<Rightarrow> u16 \<Rightarrow> 'h \<Rightarrow> 'h"
  conf_writeb :: "nat \<Rightarrow> u8 \<Rightarrow> 'h \<Rightarrow> 'h"

text \<open>The private data of a channel: \<open>struct rtcan_peak_pci\<close> and \<open>struct rtcan_ixxat_pci\<close>.\<close>

record pci_board =
  slave_dev :: "nat option"
  pb_channel :: channel
  base_addr :: nat
  conf_addr :: nat

record 'h pci_mod =
  pm_world :: "'h sja_world"
  pm_res :: "resource multiset"
  pm_priv :: "nat \<Rightarrow> 'h rtcan_sja1000"
  pm_board :: "nat \<Rightarrow> pci_board"
  pm_drvdata :: "nat option"

text \<open>The kernel's answers for a channel, as for the other boards, and for the card.\<close>

record 'h chan_kernel =
  ck_mem :: "nat option"
  ck_conf :: "nat option"
  ck_base :: "nat option"
  ck_irq :: cret
  ck_tick :: "nat \<Rightarrow> 'h \<Rightarrow> 'h"
  ck_waits :: "('h sja_world \<Rightarrow> 'h sja_world) list"

record pci_kernel =
  pk_enable :: cret
  pk_regions :: cret
  pk_read_id :: "cret \<times> nat"
  pk_write1 :: cret
  pk_write2 :: cret

definition upd_hw :: "nat \<Rightarrow> ('h \<Rightarrow> 'h) \<Rightarrow> 'h pci_mod \<Rightarrow> 'h pci_mod" where
  "upd_hw d f M = M\<lparr>pm_world := (pm_world M)\<lparr>sja_hw := (sja_hw (pm_world M))(d := f (sja_hw (pm_world M) d))\<rparr>\<rparr>"

definition iounmap :: "nat \<Rightarrow> 'h pci_mod \<Rightarrow> 'h pci_mod kres" where
  "iounmap a M = (if Mapping a \<in># pm_res M then Inr (M\<lparr>pm_res := pm_res M - {#Mapping a#}\<rparr>) else Inl BadFree)"

definition pci_dev_free :: "nat \<Rightarrow> 'h pci_mod \<Rightarrow> 'h pci_mod" where
  "pci_dev_free d M = M\<lparr>pm_world := rtcan_dev_free (pm_world M) (Some d)\<rparr>"

text \<open>\<open>None\<close>: the unregistration waits for ever.\<close>

definition pci_unregister :: "'h chan_kernel \<Rightarrow> nat \<Rightarrow> 'h pci_mod \<Rightarrow> 'h pci_mod option" where
  "pci_unregister k d M =
     map_option (\<lambda>w. M\<lparr>pm_world := w\<rparr>) (rtcan_sja1000_unregister (pm_priv M d) (hw_env (ck_tick k) d) d (ck_waits k) (pm_world M))"

section \<open>PEAK-PCI\<close>

definition PEAK_PCI_CAN_SYS_CLOCK :: u32 where "PEAK_PCI_CAN_SYS_CLOCK = 16000000 div 2"
definition PELICAN_SINGLE :: u8 where "PELICAN_SINGLE = SJA_CDR_CAN_MODE OR SJA_CDR_CBP OR 0x07 OR SJA_CDR_CLK_OFF"
definition PELICAN_MASTER :: u8 where "PELICAN_MASTER = SJA_CDR_CAN_MODE OR SJA_CDR_CBP OR 0x07"
definition PITA_ICR :: nat where "PITA_ICR = 0x00"
definition PITA_GPIOICR :: nat where "PITA_GPIOICR = 0x18"
definition PITA_MISC :: nat where "PITA_MISC = 0x1C"

definition rtcan_peak_pci_read_reg :: "'h card_bus \<Rightarrow> nat \<Rightarrow> nat \<Rightarrow> 'h \<Rightarrow> u8 \<times> 'h" where
  "rtcan_peak_pci_read_reg bus base port = bus_in bus (base + 4 * port)"

definition rtcan_peak_pci_write_reg :: "'h card_bus \<Rightarrow> nat \<Rightarrow> nat \<Rightarrow> u8 \<Rightarrow> 'h \<Rightarrow> 'h" where
  "rtcan_peak_pci_write_reg bus base port data = bus_out bus (base + 4 * port) data"

definition chan_bit :: "channel \<Rightarrow> u16" where
  "chan_bit c = (if c = CHANNEL_SLAVE then 0x0001 else 0x0002)"

definition rtcan_peak_pci_irq_ack :: "'h card_bus \<Rightarrow> nat \<Rightarrow> channel \<Rightarrow> 'h \<Rightarrow> 'h" where
  "rtcan_peak_pci_irq_ack bus conf c h =
     (if conf_readw bus (conf + PITA_ICR) h AND chan_bit c \<noteq> 0 then conf_writew bus (conf + PITA_ICR) (chan_bit c) h else h)"

text \<open>The cleanup, from a step of the initialisation on; step 0 is the full cleanup of a registered channel.\<close>

definition peak_irq_off :: "'h card_bus \<Rightarrow> pci_board \<Rightarrow> 'h \<Rightarrow> 'h" where
  "peak_irq_off bus b h =
     conf_writew bus (conf_addr b + PITA_ICR + 2) (conf_readw bus (conf_addr b + PITA_ICR + 2) h AND NOT (chan_bit (pb_channel b))) h"

definition rtcan_peak_pci_del_chan ::
    "'h card_bus \<Rightarrow> 'h chan_kernel \<Rightarrow> nat option \<Rightarrow> nat \<Rightarrow> 'h pci_mod \<Rightarrow> 'h pci_mod option kres" where
  "rtcan_peak_pci_del_chan bus k dev init_step M =
     (case dev of
        None \<Rightarrow> Inr (Some M)
      | Some d \<Rightarrow>
          let b = pm_board M d in
          case (if init_step = 0 then pci_unregister k d M else Some M) of
            None \<Rightarrow> Inr None
          | Some M1 \<Rightarrow>
              let M2 = (if init_step \<in> {0, 5} then upd_hw d (peak_irq_off bus b) M1 else M1)
              in kbind (if init_step \<in> {0, 4, 5} then iounmap (base_addr b) M2 else Inr M2) (\<lambda>M3.
                 kbind (if init_step \<in> {0, 3, 4, 5} \<and> pb_channel b \<noteq> CHANNEL_SLAVE then iounmap (conf_addr b) M3 else Inr M3) (\<lambda>M4.
                 Inr (Some (if init_step \<noteq> 1 then pci_dev_free d M4 else M4)))))"

text \<open>
  The reset of the card, by the channel that owns the configuration.
\<close>

definition peak_reset :: "'h card_bus \<Rightarrow> channel \<Rightarrow> nat \<Rightarrow> 'h \<Rightarrow> 'h" where
  "peak_reset bus c conf h =
     conf_writeb bus (conf + PITA_MISC + 3) 0x04 (conf_writeb bus (conf + PITA_MISC + 3) 0x05
       (conf_writeb bus (conf + PITA_GPIOICR) (if c = CHANNEL_MASTER then 0x00 else 0x04)
         (conf_writew bus (conf + PITA_GPIOICR + 2) 0x0005 h)))"

text \<open>
  One channel. The argument \<open>master_dev\<close> is a pointer to a variable: \<open>None\<close> the null pointer, otherwise the
  value of the variable, and the second result its new value.
\<close>

definition peak_failure ::
    "'h card_bus \<Rightarrow> 'h chan_kernel \<Rightarrow> nat option option \<Rightarrow> nat \<Rightarrow> nat \<Rightarrow> cret \<Rightarrow> 'h pci_mod
      \<Rightarrow> (cret \<times> nat option option \<times> 'h pci_mod) option kres" where
  "peak_failure bus k master_dev d init_step ret M =
     kbind (rtcan_peak_pci_del_chan bus k (Some d) init_step M) (\<lambda>r. Inr (map_option (\<lambda>M1. (ret, master_dev, M1)) r))"

text \<open>The configuration space: mapped by a master, shared by a slave; \<open>None\<close>: it cannot be mapped.\<close>

definition peak_conf ::
    "'h card_bus \<Rightarrow> 'h chan_kernel \<Rightarrow> channel \<Rightarrow> nat option option \<Rightarrow> nat \<Rightarrow> 'h pci_mod \<Rightarrow> (nat \<times> 'h pci_mod) option kres" where
  "peak_conf bus k c master_dev d M =
     (if c \<noteq> CHANNEL_SLAVE then
        Inr (map_option (\<lambda>a. (a, upd_hw d (peak_reset bus c a) (M\<lparr>pm_res := add_mset (Mapping a) (pm_res M)\<rparr>))) (ck_conf k))
      else
        case master_dev of
          Some (Some m) \<Rightarrow>
            let b = pm_board M m in Inr (Some (conf_addr b, M\<lparr>pm_board := (pm_board M)(m := b\<lparr>slave_dev := Some d\<rparr>)\<rparr>))
        | _ \<Rightarrow> Inl NullDeref)"

definition peak_irq_on :: "'h card_bus \<Rightarrow> pci_board \<Rightarrow> 'h \<Rightarrow> 'h" where
  "peak_irq_on bus b h =
     conf_writew bus (conf_addr b + PITA_ICR + 2) (conf_readw bus (conf_addr b + PITA_ICR + 2) h OR chan_bit (pb_channel b)) h"

definition peak_chip :: "'h card_bus \<Rightarrow> pci_board \<Rightarrow> 'h rtcan_sja1000" where
  "peak_chip bus b = \<lparr>read_reg = rtcan_peak_pci_read_reg bus (base_addr b), write_reg = rtcan_peak_pci_write_reg bus (base_addr b),
     irq_ack = Some (rtcan_peak_pci_irq_ack bus (conf_addr b) (pb_channel b)),
     ocr = SJA_OCR_MODE_NORMAL OR SJA_OCR_TX0_PUSHPULL,
     cdr = (if pb_channel b = CHANNEL_MASTER then PELICAN_MASTER else PELICAN_SINGLE)\<rparr>"

text \<open>The end of \<open>rtcan_peak_pci_add_chan\<close>, from the mapping of the chip's registers, and from the setup of the chip on.\<close>

definition peak_register ::
    "'h card_bus \<Rightarrow> 'h chan_kernel \<Rightarrow> channel \<Rightarrow> nat option option \<Rightarrow> nat \<Rightarrow> pci_board \<Rightarrow> 'h pci_mod
      \<Rightarrow> (cret \<times> nat option option \<times> 'h pci_mod) option kres" where
  "peak_register bus k c master_dev d b M =
     (let chip = peak_chip bus b;
          M1 = upd_hw d (peak_irq_on bus b) (M\<lparr>pm_priv := (pm_priv M)(d := chip), pm_board := (pm_board M)(d := b),
            pm_world := upd_dev d (\<lambda>dev. dev\<lparr>can_sys_clock := PEAK_PCI_CAN_SYS_CLOCK, dev_name := RTCAN_DEV_NAME\<rparr>) (pm_world M)\<rparr>);
          (ret, w) = rtcan_sja1000_register (Some chip) (hw_env (ck_tick k) d) (ck_irq k) d (pm_world M1);
          M2 = M1\<lparr>pm_world := w\<rparr>
      in if ret \<noteq> Inr 0 then peak_failure bus k master_dev d 5 ret M2
         else if c \<noteq> CHANNEL_SLAVE then
           (case master_dev of None \<Rightarrow> Inl NullDeref | Some _ \<Rightarrow> Inr (Some (Inr 0, Some (Some d), M2)))
         else Inr (Some (Inr 0, master_dev, M2)))"

definition peak_attach ::
    "'h card_bus \<Rightarrow> 'h chan_kernel \<Rightarrow> channel \<Rightarrow> nat option option \<Rightarrow> nat \<Rightarrow> nat \<Rightarrow> 'h pci_mod
      \<Rightarrow> (cret \<times> nat option option \<times> 'h pci_mod) option kres" where
  "peak_attach bus k c master_dev d conf M =
     (let b = \<lparr>slave_dev = None, pb_channel = c, base_addr = 0, conf_addr = conf\<rparr>; M1 = M\<lparr>pm_board := (pm_board M)(d := b)\<rparr> in
      case ck_base k of
        None \<Rightarrow> peak_failure bus k master_dev d (if c \<noteq> CHANNEL_SLAVE then 3 else 2) (Inl ENODEV) M1
      | Some base \<Rightarrow>
          peak_register bus k c master_dev d (b\<lparr>base_addr := base\<rparr>) (M1\<lparr>pm_res := add_mset (Mapping base) (pm_res M1)\<rparr>))"

definition rtcan_peak_pci_add_chan ::
    "'h card_bus \<Rightarrow> 'h chan_kernel \<Rightarrow> channel \<Rightarrow> nat option option \<Rightarrow> 'h pci_mod
      \<Rightarrow> (cret \<times> nat option option \<times> 'h pci_mod) option kres" where
  "rtcan_peak_pci_add_chan bus k c master_dev M =
     (case rtcan_dev_alloc (pm_world M) (ck_mem k) of
        (None, w) \<Rightarrow> Inr (Some (Inl ENOMEM, master_dev, M))
      | (Some d, w) \<Rightarrow>
          let M1 = M\<lparr>pm_world := w, pm_board := (pm_board M)(d := \<lparr>slave_dev = None, pb_channel = c, base_addr = 0, conf_addr = 0\<rparr>)\<rparr>
          in kbind (peak_conf bus k c master_dev d M1) (\<lambda>r.
             case r of
               None \<Rightarrow> peak_failure bus k master_dev d 2 (Inl ENODEV) M1
             | Some (conf, M2) \<Rightarrow> peak_attach bus k c master_dev d conf M2))"

text \<open>
  The probe of a card, \<open>k1\<close> and \<open>k2\<close> for its channels. The error path removes the master if there is one.
\<close>

definition peak_cleanup :: "'h card_bus \<Rightarrow> 'h chan_kernel \<Rightarrow> nat option \<Rightarrow> cret \<Rightarrow> 'h pci_mod \<Rightarrow> (cret \<times> 'h pci_mod) option kres" where
  "peak_cleanup bus k1 master ret M =
     kbind (rtcan_peak_pci_del_chan bus k1 master 0 M) (\<lambda>r.
     Inr (map_option (\<lambda>M1. (ret, M1\<lparr>pm_res := pm_res M1 - {#PciRegions#}\<rparr>)) r))"

definition peak_channels ::
    "'h card_bus \<Rightarrow> nat \<Rightarrow> 'h chan_kernel \<Rightarrow> 'h chan_kernel \<Rightarrow> 'h pci_mod \<Rightarrow> (cret \<times> 'h pci_mod) option kres" where
  "peak_channels bus sub_sys_id k1 k2 M =
     (if sub_sys_id > 3 then
        kbind (rtcan_peak_pci_add_chan bus k1 CHANNEL_MASTER (Some None) M) (\<lambda>r1.
        case r1 of
          None \<Rightarrow> Inr None
        | Some (ret1, m1, M1) \<Rightarrow>
            if ret1 \<noteq> Inr 0 then peak_cleanup bus k1 (the m1) ret1 M1
            else
              kbind (rtcan_peak_pci_add_chan bus k2 CHANNEL_SLAVE m1 M1) (\<lambda>r2.
              case r2 of
                None \<Rightarrow> Inr None
              | Some (ret2, m2, M2) \<Rightarrow>
                  if ret2 \<noteq> Inr 0 then peak_cleanup bus k1 (the m2) ret2 M2
                  else Inr (Some (Inr 0, M2\<lparr>pm_drvdata := the m2\<rparr>))))
      else
        kbind (rtcan_peak_pci_add_chan bus k1 CHANNEL_SINGLE None M) (\<lambda>r1.
        case r1 of
          None \<Rightarrow> Inr None
        | Some (ret1, _, M1) \<Rightarrow>
            if ret1 \<noteq> Inr 0 then peak_cleanup bus k1 None ret1 M1
            else
              kbind (rtcan_peak_pci_add_chan bus k2 CHANNEL_SINGLE None M1) (\<lambda>r2.
              Inr (map_option (\<lambda>(_, _, M2). (Inr 0, M2\<lparr>pm_drvdata := None\<rparr>)) r2))))"

definition peak_pci_init_one ::
    "'h card_bus \<Rightarrow> pci_kernel \<Rightarrow> 'h chan_kernel \<Rightarrow> 'h chan_kernel \<Rightarrow> 'h pci_mod \<Rightarrow> (cret \<times> 'h pci_mod) option kres" where
  "peak_pci_init_one bus pk k1 k2 M =
     (if pk_enable pk \<noteq> Inr 0 then Inr (Some (pk_enable pk, M))
      else
        let M1 = M\<lparr>pm_res := add_mset PciEnabled (pm_res M)\<rparr> in
        if pk_regions pk \<noteq> Inr 0 then Inr (Some (pk_regions pk, M1))
        else
          let M2 = M1\<lparr>pm_res := add_mset PciRegions (pm_res M1)\<rparr>; (ret, sub_sys_id) = pk_read_id pk in
          if ret \<noteq> Inr 0 then peak_cleanup bus k1 None ret M2
          else if pk_write1 pk \<noteq> Inr 0 then peak_cleanup bus k1 None (pk_write1 pk) M2
          else if pk_write2 pk \<noteq> Inr 0 then peak_cleanup bus k1 None (pk_write2 pk) M2
          else peak_channels bus sub_sys_id k1 k2 M2)"

definition peak_pci_remove_one :: "'h card_bus \<Rightarrow> 'h chan_kernel \<Rightarrow> 'h chan_kernel \<Rightarrow> 'h pci_mod \<Rightarrow> 'h pci_mod option kres" where
  "peak_pci_remove_one bus k1 k2 M =
     (case pm_drvdata M of
        None \<Rightarrow> Inl NullDeref
      | Some d \<Rightarrow>
          kbind (rtcan_peak_pci_del_chan bus k2 (slave_dev (pm_board M d)) 0 M) (\<lambda>r1.
          case r1 of
            None \<Rightarrow> Inr None
          | Some M1 \<Rightarrow>
              kbind (rtcan_peak_pci_del_chan bus k1 (Some d) 0 M1) (\<lambda>r2.
              Inr (map_option (\<lambda>M2. M2\<lparr>pm_res := pm_res M2 - {#PciRegions#} - {#PciEnabled#}, pm_drvdata := None\<rparr>) r2))))"

section \<open>IXXAT-PCI\<close>

definition IXXAT_PCI_CAN_SYS_CLOCK :: u32 where "IXXAT_PCI_CAN_SYS_CLOCK = 16000000 div 2"
definition CHANNEL_OFFSET :: nat where "CHANNEL_OFFSET = 0x200"
definition CHANNEL_MASTER_RESET :: nat where "CHANNEL_MASTER_RESET = 0x110"
definition CHANNEL_SLAVE_RESET :: nat where "CHANNEL_SLAVE_RESET = CHANNEL_MASTER_RESET + CHANNEL_OFFSET"
definition IXXAT_INTCSR_OFFSET :: nat where "IXXAT_INTCSR_OFFSET = 0x4c"
definition IXXAT_INTCSR_SLAVE :: u8 where "IXXAT_INTCSR_SLAVE = 0x41"
definition IXXAT_INTCSR_MASTER :: u8 where "IXXAT_INTCSR_MASTER = 0x08"
definition IXXAT_PCI_SUB_SYS_ID :: nat where "IXXAT_PCI_SUB_SYS_ID = 0x2540"
definition SJA_OCR_TX0_INVERT :: u8 where "SJA_OCR_TX0_INVERT = 4"
definition SJA_OCR_TX1_PUSHPULL :: u8 where "SJA_OCR_TX1_PUSHPULL = 192"

definition rtcan_ixxat_pci_read_reg :: "'h card_bus \<Rightarrow> nat \<Rightarrow> nat \<Rightarrow> 'h \<Rightarrow> u8 \<times> 'h" where
  "rtcan_ixxat_pci_read_reg bus base port = bus_in bus (base + port)"

definition rtcan_ixxat_pci_write_reg :: "'h card_bus \<Rightarrow> nat \<Rightarrow> nat \<Rightarrow> u8 \<Rightarrow> 'h \<Rightarrow> 'h" where
  "rtcan_ixxat_pci_write_reg bus base port data = bus_out bus (base + port) data"

text \<open>The interrupt control of the bridge, a byte at an I/O port.\<close>

definition ixxat_intcsr :: "'h card_bus \<Rightarrow> nat \<Rightarrow> (u8 \<Rightarrow> u8) \<Rightarrow> 'h \<Rightarrow> 'h" where
  "ixxat_intcsr bus conf f h =
     (let (v, h1) = bus_in bus (conf + IXXAT_INTCSR_OFFSET) h in bus_out bus (conf + IXXAT_INTCSR_OFFSET) (f v) h1)"

definition rtcan_ixxat_pci_del_chan :: "'h card_bus \<Rightarrow> 'h chan_kernel \<Rightarrow> nat option \<Rightarrow> 'h pci_mod \<Rightarrow> 'h pci_mod option kres" where
  "rtcan_ixxat_pci_del_chan bus k dev M =
     (case dev of
        None \<Rightarrow> Inr (Some M)
      | Some d \<Rightarrow>
          let b = pm_board M d in
          case pci_unregister k d M of
            None \<Rightarrow> Inr None
          | Some M1 \<Rightarrow>
              if slave_dev b \<noteq> None then
                kbind (iounmap (base_addr b)
                  (upd_hw d (\<lambda>h. bus_out bus (base_addr b + CHANNEL_MASTER_RESET) 0x1
                    (ixxat_intcsr bus (conf_addr b) (\<lambda>v. v AND NOT IXXAT_INTCSR_MASTER) h)) M1)) (\<lambda>M2.
                Inr (Some (pci_dev_free d M2)))
              else
                Inr (Some (pci_dev_free d
                  (upd_hw d (\<lambda>h. bus_out bus (base_addr b + CHANNEL_SLAVE_RESET) 0x1
                    (ixxat_intcsr bus (conf_addr b) (\<lambda>v. v AND NOT IXXAT_INTCSR_SLAVE) h)) M1))))"

definition ixxat_chip :: "'h card_bus \<Rightarrow> nat \<Rightarrow> 'h rtcan_sja1000" where
  "ixxat_chip bus base = \<lparr>read_reg = rtcan_ixxat_pci_read_reg bus base, write_reg = rtcan_ixxat_pci_write_reg bus base, irq_ack = None,
     ocr = SJA_OCR_MODE_NORMAL OR SJA_OCR_TX0_INVERT OR SJA_OCR_TX0_PUSHPULL OR SJA_OCR_TX1_PUSHPULL, cdr = SJA_CDR_CAN_MODE\<rparr>"

text \<open>The second result is the new value of the variable \<open>master_dev\<close>.\<close>

definition rtcan_ixxat_pci_add_chan ::
    "'h card_bus \<Rightarrow> 'h chan_kernel \<Rightarrow> channel \<Rightarrow> nat option \<Rightarrow> nat \<Rightarrow> nat \<Rightarrow> 'h pci_mod \<Rightarrow> (cret \<times> nat option \<times> 'h pci_mod) kres" where
  "rtcan_ixxat_pci_add_chan bus k c master_dev conf base M =
     (case rtcan_dev_alloc (pm_world M) (ck_mem k) of
        (None, w) \<Rightarrow> Inr (Inl ENOMEM, master_dev, M)
      | (Some d, w) \<Rightarrow>
          if c = CHANNEL_SLAVE \<and> master_dev = None then Inl NullDeref
          else
            let bs = (pm_board M)(d := \<lparr>slave_dev = None, pb_channel = c, base_addr = base, conf_addr = conf\<rparr>);
                bs1 = (if c = CHANNEL_SLAVE then bs(the master_dev := (bs (the master_dev))\<lparr>slave_dev := Some d\<rparr>) else bs);
                chip = ixxat_chip bus base;
                M1 = upd_hw d (ixxat_intcsr bus conf (\<lambda>v. v OR (if c = CHANNEL_SLAVE then IXXAT_INTCSR_SLAVE else IXXAT_INTCSR_MASTER)))
                  (M\<lparr>pm_board := bs1, pm_priv := (pm_priv M)(d := chip),
                     pm_world := upd_dev d (\<lambda>dev. dev\<lparr>can_sys_clock := IXXAT_PCI_CAN_SYS_CLOCK, dev_name := RTCAN_DEV_NAME\<rparr>) w\<rparr>);
                (ret, w2) = rtcan_sja1000_register (Some chip) (hw_env (ck_tick k) d) (ck_irq k) d (pm_world M1);
                M2 = M1\<lparr>pm_world := w2\<rparr>
            in if ret \<noteq> Inr 0 then Inr (ret, master_dev, pci_dev_free d M2)
               else Inr (Inr 0, if c \<noteq> CHANNEL_SLAVE then Some d else master_dev, M2))"

text \<open>
  The probe: \<open>remap\<close> is the mapping of the chips' registers, \<open>conf\<close> the I/O address of the bridge, \<open>h\<close> the card, on which
  there is a second chip if its registers read as after a reset.
\<close>

definition ixxat_second_chip :: "'h card_bus \<Rightarrow> nat \<Rightarrow> 'h \<Rightarrow> bool" where
  "ixxat_second_chip bus base h =
     (let h1 = bus_out bus (base + CHANNEL_SLAVE_RESET) 0x1 (bus_out bus (base + CHANNEL_MASTER_RESET) 0x1 h);
          (v1, h2) = bus_in bus (base + CHANNEL_OFFSET + SJA_MOD) h1;
          (v2, h3) = bus_in bus (base + CHANNEL_OFFSET + SJA_SR) h2;
          (v3, h4) = bus_in bus (base + CHANNEL_OFFSET + SJA_IR) h3
      in v1 = 0x21 \<and> v2 = 0x0c \<and> v3 = 0xe0)"

definition ixxat_unmap ::
    "'h card_bus \<Rightarrow> 'h chan_kernel \<Rightarrow> nat option \<Rightarrow> nat \<Rightarrow> cret \<Rightarrow> 'h pci_mod \<Rightarrow> (cret \<times> 'h pci_mod) option kres" where
  "ixxat_unmap bus k1 master base ret M =
     kbind (rtcan_ixxat_pci_del_chan bus k1 master M) (\<lambda>r.
     case r of
       None \<Rightarrow> Inr None
     | Some M1 \<Rightarrow> kbind (iounmap base M1) (\<lambda>M2. Inr (Some (ret, M2\<lparr>pm_res := pm_res M2 - {#PciRegions#}\<rparr>))))"

definition ixxat_channels ::
    "'h card_bus \<Rightarrow> bool \<Rightarrow> nat \<Rightarrow> nat \<Rightarrow> 'h chan_kernel \<Rightarrow> 'h chan_kernel \<Rightarrow> 'h pci_mod \<Rightarrow> (cret \<times> 'h pci_mod) option kres" where
  "ixxat_channels bus two conf base k1 k2 M =
     kbind (rtcan_ixxat_pci_add_chan bus k1 (if two then CHANNEL_MASTER else CHANNEL_SINGLE) None conf base M) (\<lambda>(ret1, m1, M1).
     if ret1 \<noteq> Inr 0 then ixxat_unmap bus k1 m1 base ret1 M1
     else if two then
       kbind (rtcan_ixxat_pci_add_chan bus k2 CHANNEL_SLAVE m1 conf (base + CHANNEL_OFFSET) M1) (\<lambda>(ret2, m2, M2).
       if ret2 \<noteq> Inr 0 then ixxat_unmap bus k1 m2 base ret2 M2 else Inr (Some (Inr 0, M2\<lparr>pm_drvdata := m2\<rparr>)))
     else Inr (Some (Inr 0, M1\<lparr>pm_drvdata := m1\<rparr>)))"

definition ixxat_pci_init_one ::
    "'h card_bus \<Rightarrow> pci_kernel \<Rightarrow> nat option \<Rightarrow> nat \<Rightarrow> 'h \<Rightarrow> 'h chan_kernel \<Rightarrow> 'h chan_kernel \<Rightarrow> 'h pci_mod
      \<Rightarrow> (cret \<times> 'h pci_mod) option kres" where
  "ixxat_pci_init_one bus pk remap conf h k1 k2 M =
     (if pk_enable pk \<noteq> Inr 0 then Inr (Some (pk_enable pk, M))
      else
        let M1 = M\<lparr>pm_res := add_mset PciEnabled (pm_res M)\<rparr> in
        if pk_regions pk \<noteq> Inr 0 then Inr (Some (pk_regions pk, M1))
        else
          let M2 = M1\<lparr>pm_res := add_mset PciRegions (pm_res M1)\<rparr>; (ret, sub_sys_id) = pk_read_id pk;
              release = (\<lambda>e. Inr (Some (e, M2\<lparr>pm_res := pm_res M2 - {#PciRegions#}\<rparr>)))
          in if ret \<noteq> Inr 0 then release ret
             else if sub_sys_id \<noteq> IXXAT_PCI_SUB_SYS_ID then Inr (Some (Inl ENODEV, M2))
             else if pk_write1 pk \<noteq> Inr 0 then release (pk_write1 pk)
             else case remap of
               None \<Rightarrow> release (Inl ENODEV)
             | Some base \<Rightarrow> ixxat_channels bus (ixxat_second_chip bus base h) conf base k1 k2 (M2\<lparr>pm_res := add_mset (Mapping base) (pm_res M2)\<rparr>))"

definition ixxat_pci_remove_one :: "'h card_bus \<Rightarrow> 'h chan_kernel \<Rightarrow> 'h chan_kernel \<Rightarrow> 'h pci_mod \<Rightarrow> 'h pci_mod option kres" where
  "ixxat_pci_remove_one bus k1 k2 M =
     (case pm_drvdata M of
        None \<Rightarrow> Inl NullDeref
      | Some d \<Rightarrow>
          kbind (rtcan_ixxat_pci_del_chan bus k2 (slave_dev (pm_board M d)) M) (\<lambda>r1.
          case r1 of
            None \<Rightarrow> Inr None
          | Some M1 \<Rightarrow>
              kbind (rtcan_ixxat_pci_del_chan bus k1 (Some d) M1) (\<lambda>r2.
              Inr (map_option (\<lambda>M2. M2\<lparr>pm_res := pm_res M2 - {#PciRegions#} - {#PciEnabled#}, pm_drvdata := None\<rparr>) r2))))"


section \<open>The dual PEAK card keeps the balance\<close>

lemma upd_hw_simps [simp]:
  "pm_res (upd_hw d f M) = pm_res M" "pm_board (upd_hw d f M) = pm_board M" "pm_priv (upd_hw d f M) = pm_priv M"
  "pm_drvdata (upd_hw d f M) = pm_drvdata M" "devs (pm_world (upd_hw d f M)) = devs (pm_world M)"
  by (simp_all add: upd_hw_def)

lemma pci_dev_free_simps [simp]:
  "pm_res (pci_dev_free d M) = pm_res M" "pm_board (pci_dev_free d M) = pm_board M" "pm_drvdata (pci_dev_free d M) = pm_drvdata M"
  "refcount (devs (pm_world (pci_dev_free d M)) x) = refcount (devs (pm_world M) x)"
  by (simp_all add: pci_dev_free_def)

lemma iounmap_mapped: "Mapping a \<in># pm_res M \<Longrightarrow> iounmap a M = Inr (M\<lparr>pm_res := pm_res M - {#Mapping a#}\<rparr>)"
  by (simp add: iounmap_def)

lemma pci_unregister_ok:
  assumes "refcount (devs (pm_world M) d) \<le> 0"
  shows "\<exists>w. pci_unregister k d M = Some (M\<lparr>pm_world := w\<rparr>) \<and> (\<forall>x. refcount (devs w x) = refcount (devs (pm_world M) x))"
  using unregister_returns [OF assms, of "pm_priv M d" "ck_tick k" "ck_waits k"] by (auto simp: pci_unregister_def)

text \<open>What a removed channel gives back: the mapping of its registers and, unless it is a slave, of the configuration.\<close>

definition chan_maps :: "pci_board \<Rightarrow> resource multiset" where
  "chan_maps b = add_mset (Mapping (base_addr b)) (if pb_channel b \<noteq> CHANNEL_SLAVE then {#Mapping (conf_addr b)#} else {#})"

lemma del_chan_full:
  assumes "refcount (devs (pm_world M) d) \<le> 0" and "pm_res M = R + chan_maps (pm_board M d)"
  shows "\<exists>M'. rtcan_peak_pci_del_chan bus k (Some d) 0 M = Inr (Some M') \<and> pm_res M' = R \<and> pm_board M' = pm_board M \<and>
    pm_drvdata M' = pm_drvdata M \<and> (\<forall>x. refcount (devs (pm_world M') x) = refcount (devs (pm_world M) x))"
proof -
  obtain w where w: "pci_unregister k d M = Some (M\<lparr>pm_world := w\<rparr>)" "\<forall>x. refcount (devs w x) = refcount (devs (pm_world M) x)"
    using pci_unregister_ok [OF assms(1)] by blast
  show ?thesis
    using w assms(2) by (auto simp: rtcan_peak_pci_del_chan_def chan_maps_def Let_def iounmap_mapped)
qed

lemma del_chan_partial:
  assumes "pm_res M = R + (if s \<in> {4, 5} then {#Mapping (base_addr (pm_board M d))#} else {#}) +
      (if s \<in> {3, 4, 5} \<and> pb_channel (pm_board M d) \<noteq> CHANNEL_SLAVE then {#Mapping (conf_addr (pm_board M d))#} else {#})"
    and "s \<in> {2, 3, 4, 5}"
  shows "\<exists>M'. rtcan_peak_pci_del_chan bus k (Some d) s M = Inr (Some M') \<and> pm_res M' = R \<and> pm_board M' = pm_board M \<and>
    pm_drvdata M' = pm_drvdata M \<and> (\<forall>x. refcount (devs (pm_world M') x) = refcount (devs (pm_world M) x))"
  using assms by (auto simp: rtcan_peak_pci_del_chan_def Let_def iounmap_mapped split: if_splits)


text \<open>
  Adding a channel: \<open>ms\<close> is the table of boards as the channel leaves it for the others, a slave having entered itself
  with its master. A failure gives back what was taken.
\<close>

definition chan_boards :: "channel \<Rightarrow> nat option option \<Rightarrow> nat \<Rightarrow> 'h pci_mod \<Rightarrow> nat \<Rightarrow> pci_board" where
  "chan_boards c master_dev d M x =
     (if c = CHANNEL_SLAVE \<and> master_dev = Some (Some x) then (pm_board M x)\<lparr>slave_dev := Some d\<rparr> else pm_board M x)"

definition chan_failed :: "channel \<Rightarrow> nat option option \<Rightarrow> nat \<Rightarrow> 'h pci_mod \<Rightarrow> 'h pci_mod \<Rightarrow> bool" where
  "chan_failed c master_dev d M M' \<longleftrightarrow> pm_res M' = pm_res M \<and> pm_drvdata M' = pm_drvdata M \<and>
     (\<forall>x. x \<noteq> d \<longrightarrow> pm_board M' x = chan_boards c master_dev d M x \<or> pm_board M' x = pm_board M x) \<and>
     (\<forall>x. x \<noteq> d \<longrightarrow> refcount (devs (pm_world M') x) = refcount (devs (pm_world M) x))"

definition chan_added :: "channel \<Rightarrow> nat option option \<Rightarrow> nat \<Rightarrow> 'h pci_mod \<Rightarrow> 'h pci_mod \<Rightarrow> bool" where
  "chan_added c master_dev d M M' \<longleftrightarrow> pm_res M' = pm_res M + chan_maps (pm_board M' d) \<and> pm_drvdata M' = pm_drvdata M \<and>
     pb_channel (pm_board M' d) = c \<and> slave_dev (pm_board M' d) = None \<and>
     (\<forall>x. x \<noteq> d \<longrightarrow> pm_board M' x = chan_boards c master_dev d M x) \<and> refcount (devs (pm_world M') d) = 0 \<and>
     (\<forall>x. x \<noteq> d \<longrightarrow> refcount (devs (pm_world M') x) = refcount (devs (pm_world M) x))"

text \<open>The configuration space, for a master or a slave of a master \<open>m\<close>.\<close>

lemma peak_conf_cases:
  assumes "c = CHANNEL_SLAVE \<longrightarrow> (\<exists>m. master_dev = Some (Some m) \<and> m \<noteq> d)"
  obtains (unmapped) "peak_conf bus k c master_dev d M = Inr None" "c \<noteq> CHANNEL_SLAVE"
  | (mapped) conf M2 where "peak_conf bus k c master_dev d M = Inr (Some (conf, M2))"
      "pm_res M2 = pm_res M + (if c \<noteq> CHANNEL_SLAVE then {#Mapping conf#} else {#})" "pm_drvdata M2 = pm_drvdata M"
      "\<forall>x. x \<noteq> d \<longrightarrow> pm_board M2 x = chan_boards c master_dev d M x" "devs (pm_world M2) = devs (pm_world M)"
proof (cases "c = CHANNEL_SLAVE")
  case True
  then obtain m where "master_dev = Some (Some m)"
    using assms by blast
  then show ?thesis
    using True by (intro mapped [of "conf_addr (pm_board M m)" "M\<lparr>pm_board := (pm_board M)(m := (pm_board M m)\<lparr>slave_dev := Some d\<rparr>)\<rparr>"])
      (auto simp: peak_conf_def chan_boards_def Let_def)
next
  case False
  then show ?thesis
    using unmapped mapped by (cases "ck_conf k") (auto simp: peak_conf_def chan_boards_def)
qed

lemma peak_failure_ok:
  assumes "pm_res M = R + (if s \<in> {4, 5} then {#Mapping (base_addr (pm_board M d))#} else {#}) +
      (if s \<in> {3, 4, 5} \<and> pb_channel (pm_board M d) \<noteq> CHANNEL_SLAVE then {#Mapping (conf_addr (pm_board M d))#} else {#})"
    and "s \<in> {2, 3, 4, 5}"
  shows "\<exists>M'. peak_failure bus k master_dev d s ret M = Inr (Some (ret, master_dev, M')) \<and> pm_res M' = R \<and> pm_board M' = pm_board M \<and>
    pm_drvdata M' = pm_drvdata M \<and> (\<forall>x. refcount (devs (pm_world M') x) = refcount (devs (pm_world M) x))"
  using del_chan_partial [OF assms, of bus k] by (auto simp: peak_failure_def)

lemma register_chan:
  assumes m: "master_dev = Some mv" and res: "pm_res M = R + chan_maps b" and b: "pb_channel b = c" "slave_dev b = None"
  obtains (failed) e M' where "peak_register bus k c master_dev d b M = Inr (Some (e, master_dev, M'))" "e \<noteq> Inr 0" "pm_res M' = R"
      "pm_drvdata M' = pm_drvdata M" "pm_board M' = (pm_board M)(d := b)" "\<forall>x. refcount (devs (pm_world M') x) = refcount (devs (pm_world M) x)"
  | (added) M' where "peak_register bus k c master_dev d b M = Inr (Some (Inr 0, Some (if c \<noteq> CHANNEL_SLAVE then Some d else mv), M'))"
      "pm_res M' = pm_res M" "pm_drvdata M' = pm_drvdata M" "pm_board M' = (pm_board M)(d := b)"
      "\<forall>x. refcount (devs (pm_world M') x) = refcount (devs (pm_world M) x)"
proof -
  define M1 where "M1 = upd_hw d (peak_irq_on bus b) (M\<lparr>pm_priv := (pm_priv M)(d := peak_chip bus b), pm_board := (pm_board M)(d := b),
    pm_world := upd_dev d (\<lambda>dev. dev\<lparr>can_sys_clock := PEAK_PCI_CAN_SYS_CLOCK, dev_name := RTCAN_DEV_NAME\<rparr>) (pm_world M)\<rparr>)"
  obtain ret w where reg: "rtcan_sja1000_register (Some (peak_chip bus b)) (hw_env (ck_tick k) d) (ck_irq k) d (pm_world M1) = (ret, w)"
    by fastforce
  define M2 where "M2 = M1\<lparr>pm_world := w\<rparr>"
  have rc: "refcount (devs w x) = refcount (devs (pm_world M) x)" for x
    using register_refcount [of "Some (peak_chip bus b)" "ck_tick k" d "ck_irq k" "pm_world M1" x] unfolding reg by (simp add: M1_def)
  have M2: "pm_res M2 = pm_res M" "pm_drvdata M2 = pm_drvdata M" "pm_board M2 = (pm_board M)(d := b)"
      "\<forall>x. refcount (devs (pm_world M2) x) = refcount (devs (pm_world M) x)"
    using rc by (simp_all add: M2_def M1_def)
  have M2d: "pm_board M2 d = b"
    by (simp add: M2(3))
  have run: "peak_register bus k c master_dev d b M = (if ret \<noteq> Inr 0 then peak_failure bus k master_dev d 5 ret M2
      else Inr (Some (Inr 0, Some (if c \<noteq> CHANNEL_SLAVE then Some d else mv), M2)))"
    unfolding peak_register_def Let_def M1_def [symmetric] reg m by (simp add: M2_def)
  show thesis
  proof (cases "ret = Inr 0")
    case True
    then show ?thesis
      using run M2 by (intro added) simp_all
  next
    case False
    obtain M' where "peak_failure bus k master_dev d 5 ret M2 = Inr (Some (ret, master_dev, M'))" "pm_res M' = R"
        "pm_board M' = pm_board M2" "pm_drvdata M' = pm_drvdata M2" "\<forall>x. refcount (devs (pm_world M') x) = refcount (devs (pm_world M2) x)"
      using peak_failure_ok [of M2 R 5 d bus k master_dev ret] M2(1) M2d res b by (auto simp: chan_maps_def)
    then show ?thesis
      using False run M2 by (intro failed) simp_all
  qed
qed

lemma attach_chan:
  assumes m: "master_dev = Some mv" and res: "pm_res M = R + (if c \<noteq> CHANNEL_SLAVE then {#Mapping conf#} else {#})"
  obtains (failed) e M' where "peak_attach bus k c master_dev d conf M = Inr (Some (e, master_dev, M'))" "e \<noteq> Inr 0" "pm_res M' = R"
      "pm_drvdata M' = pm_drvdata M" "\<forall>x. x \<noteq> d \<longrightarrow> pm_board M' x = pm_board M x" "\<forall>x. refcount (devs (pm_world M') x) = refcount (devs (pm_world M) x)"
  | (added) M' where "peak_attach bus k c master_dev d conf M = Inr (Some (Inr 0, Some (if c \<noteq> CHANNEL_SLAVE then Some d else mv), M'))"
      "pm_res M' = R + chan_maps (pm_board M' d)" "pm_drvdata M' = pm_drvdata M" "\<forall>x. x \<noteq> d \<longrightarrow> pm_board M' x = pm_board M x"
      "pb_channel (pm_board M' d) = c" "slave_dev (pm_board M' d) = None"
      "\<forall>x. refcount (devs (pm_world M') x) = refcount (devs (pm_world M) x)"
proof -
  note outer = failed added
  define b where "b = \<lparr>slave_dev = None, pb_channel = c, base_addr = 0, conf_addr = conf\<rparr>"
  define M1 where "M1 = M\<lparr>pm_board := (pm_board M)(d := b)\<rparr>"
  show thesis
  proof (cases "ck_base k")
    case None
    let ?s = "if c \<noteq> CHANNEL_SLAVE then 3 else 2 :: nat"
    obtain M' where "peak_failure bus k master_dev d ?s (Inl ENODEV) M1 = Inr (Some (Inl ENODEV, master_dev, M'))" "pm_res M' = R"
        "pm_board M' = pm_board M1" "pm_drvdata M' = pm_drvdata M1" "\<forall>x. refcount (devs (pm_world M') x) = refcount (devs (pm_world M1) x)"
      using peak_failure_ok [of M1 R ?s d bus k master_dev "Inl ENODEV"] res by (cases "c = CHANNEL_SLAVE") (auto simp: M1_def b_def)
    moreover have "peak_attach bus k c master_dev d conf M = peak_failure bus k master_dev d ?s (Inl ENODEV) M1"
      by (simp add: peak_attach_def None M1_def b_def)
    ultimately show ?thesis
      by (intro failed [of "Inl ENODEV" M']) (simp_all add: M1_def)
  next
    case (Some base)
    let ?b = "b\<lparr>base_addr := base\<rparr>" and ?M = "M1\<lparr>pm_res := add_mset (Mapping base) (pm_res M1)\<rparr>"
    have run: "peak_attach bus k c master_dev d conf M = peak_register bus k c master_dev d ?b ?M"
      by (simp add: peak_attach_def Some M1_def b_def)
    have "pm_res ?M = R + chan_maps ?b" "pb_channel ?b = c" "slave_dev ?b = None"
      using res by (simp_all add: M1_def chan_maps_def b_def)
    with m show ?thesis
    proof (cases rule: register_chan [where bus = bus and k = k and d = d])
      case (failed e M')
      then show ?thesis
        using run by (intro outer(1)) (auto simp: M1_def)
    next
      case (added M')
      then show ?thesis
        using run \<open>pm_res ?M = R + chan_maps ?b\<close> by (intro outer(2)) (auto simp: M1_def b_def)
    qed
  qed
qed


lemma add_chan_cases:
  assumes mem: "ck_mem k = Some d" and m: "master_dev = Some mv" and slave: "c = CHANNEL_SLAVE \<longrightarrow> (\<exists>m. mv = Some m \<and> m \<noteq> d)"
  obtains (failed) e M' where "rtcan_peak_pci_add_chan bus k c master_dev M = Inr (Some (e, master_dev, M'))" "e \<noteq> Inr 0"
      "chan_failed c master_dev d M M'"
  | (added) M' where "rtcan_peak_pci_add_chan bus k c master_dev M = Inr (Some (Inr 0, Some (if c \<noteq> CHANNEL_SLAVE then Some d else mv), M'))"
      "chan_added c master_dev d M M'"
proof -
  note outer = failed added
  define M1 where "M1 = M\<lparr>pm_world := upd_dev d (\<lambda>_. fresh_device) (pm_world M),
    pm_board := (pm_board M)(d := \<lparr>slave_dev = None, pb_channel = c, base_addr = 0, conf_addr = 0\<rparr>)\<rparr>"
  have M1: "pm_res M1 = pm_res M" "pm_drvdata M1 = pm_drvdata M" "\<forall>x. x \<noteq> d \<longrightarrow> pm_board M1 x = pm_board M x"
      "refcount (devs (pm_world M1) d) = 0" "\<forall>x. x \<noteq> d \<longrightarrow> refcount (devs (pm_world M1) x) = refcount (devs (pm_world M) x)"
    by (simp_all add: M1_def fresh_device_def)
  have cb: "\<forall>x. x \<noteq> d \<longrightarrow> chan_boards c master_dev d M1 x = chan_boards c master_dev d M x"
    using M1(3) by (simp add: chan_boards_def)
  have run: "rtcan_peak_pci_add_chan bus k c master_dev M = kbind (peak_conf bus k c master_dev d M1) (\<lambda>r.
      case r of None \<Rightarrow> peak_failure bus k master_dev d 2 (Inl ENODEV) M1 | Some (conf, M2) \<Rightarrow> peak_attach bus k c master_dev d conf M2)"
    unfolding M1_def rtcan_peak_pci_add_chan_def by (simp add: rtcan_dev_alloc_def mem Let_def)
  have "c = CHANNEL_SLAVE \<longrightarrow> (\<exists>m. master_dev = Some (Some m) \<and> m \<noteq> d)"
    using m slave by blast
  then show thesis
  proof (cases rule: peak_conf_cases [where bus = bus and k = k and M = M1])
    case unmapped
    obtain M' where "peak_failure bus k master_dev d 2 (Inl ENODEV) M1 = Inr (Some (Inl ENODEV, master_dev, M'))" "pm_res M' = pm_res M1"
        "pm_board M' = pm_board M1" "pm_drvdata M' = pm_drvdata M1" "\<forall>x. refcount (devs (pm_world M') x) = refcount (devs (pm_world M1) x)"
      using peak_failure_ok [of M1 "pm_res M1" 2 d bus k master_dev "Inl ENODEV"] by auto
    then show ?thesis
      using unmapped M1 run by (intro outer(1) [of "Inl ENODEV" M']) (simp_all add: chan_failed_def)
  next
    case (mapped conf M2)
    have "pm_res M2 = pm_res M + (if c \<noteq> CHANNEL_SLAVE then {#Mapping conf#} else {#})"
      using mapped(2) M1(1) by simp
    with m show ?thesis
    proof (cases rule: attach_chan [where bus = bus and k = k and d = d])
      case (failed e M')
      then show ?thesis
        using run mapped M1 cb by (intro outer(1) [of e M']) (simp_all add: chan_failed_def)
    next
      case (added M')
      then show ?thesis
        using run mapped M1 cb by (intro outer(2) [of M']) (simp_all add: chan_added_def)
    qed
  qed
qed

lemma cleanup_none: "peak_cleanup bus k None e M = Inr (Some (e, M\<lparr>pm_res := pm_res M - {#PciRegions#}\<rparr>))"
  by (simp add: peak_cleanup_def rtcan_peak_pci_del_chan_def)

lemma cleanup_master:
  assumes "refcount (devs (pm_world M) d) \<le> 0" and "pm_res M = add_mset PciRegions R + chan_maps (pm_board M d)"
  shows "\<exists>M'. peak_cleanup bus k (Some d) e M = Inr (Some (e, M')) \<and> pm_res M' = R"
  using del_chan_full [OF assms, of bus k] by (auto simp: peak_cleanup_def)

lemma remove_dual:
  assumes "pm_drvdata M = Some d1" and "slave_dev (pm_board M d1) = Some d2"
    and "refcount (devs (pm_world M) d1) \<le> 0" and "refcount (devs (pm_world M) d2) \<le> 0"
    and "pm_res M = R + {#PciRegions, PciEnabled#} + chan_maps (pm_board M d1) + chan_maps (pm_board M d2)"
  shows "\<exists>M'. peak_pci_remove_one bus k1 k2 M = Inr (Some M') \<and> pm_res M' = R"
proof -
  obtain M1 where 1: "rtcan_peak_pci_del_chan bus k2 (Some d2) 0 M = Inr (Some M1)" "pm_board M1 = pm_board M"
      "pm_res M1 = R + {#PciRegions, PciEnabled#} + chan_maps (pm_board M d1)" "\<forall>x. refcount (devs (pm_world M1) x) = refcount (devs (pm_world M) x)"
    using del_chan_full [OF assms(4,5), of bus k2] by blast
  have "refcount (devs (pm_world M1) d1) \<le> 0" "pm_res M1 = R + {#PciRegions, PciEnabled#} + chan_maps (pm_board M1 d1)"
    using 1 assms(3) by simp_all
  from del_chan_full [OF this, of bus k1] obtain M2 where
      "rtcan_peak_pci_del_chan bus k1 (Some d1) 0 M1 = Inr (Some M2)" "pm_res M2 = R + {#PciRegions, PciEnabled#}"
    by blast
  then show ?thesis
    using 1(1) assms(1,2) by (simp add: peak_pci_remove_one_def)
qed

lemma peak_init_granted:
  assumes "pk_enable pk = Inr 0" and "pk_regions pk = Inr 0"
  shows "peak_pci_init_one bus pk k1 k2 M = (let M2 = M\<lparr>pm_res := add_mset PciRegions (add_mset PciEnabled (pm_res M))\<rparr> in
    if fst (pk_read_id pk) \<noteq> Inr 0 then peak_cleanup bus k1 None (fst (pk_read_id pk)) M2
    else if pk_write1 pk \<noteq> Inr 0 then peak_cleanup bus k1 None (pk_write1 pk) M2
    else if pk_write2 pk \<noteq> Inr 0 then peak_cleanup bus k1 None (pk_write2 pk) M2
    else peak_channels bus (snd (pk_read_id pk)) k1 k2 M2)"
  using assms by (simp add: peak_pci_init_one_def Let_def split_beta)

lemma peak_channels_dual:
  assumes "ck_mem k1 = Some d1" and "ck_mem k2 = Some d2" and "d1 \<noteq> d2" and "3 < i"
    and res: "pm_res M = R + {#PciRegions, PciEnabled#}"
  shows "\<exists>r M'. peak_channels bus i k1 k2 M = Inr (Some (r, M')) \<and>
    (if r = Inr 0 then \<exists>M''. peak_pci_remove_one bus k1 k2 M' = Inr (Some M'') \<and> pm_res M'' = R else pm_res M' = R + {#PciEnabled#})"
proof (rule add_chan_cases [OF assms(1), of "Some None" None CHANNEL_MASTER bus M])
  fix e M'
  assume "rtcan_peak_pci_add_chan bus k1 CHANNEL_MASTER (Some None) M = Inr (Some (e, Some None, M'))" "e \<noteq> Inr 0"
    "chan_failed CHANNEL_MASTER (Some None) d1 M M'"
  then show ?thesis
    using assms(4) res by (simp add: peak_channels_def cleanup_none chan_failed_def)
next
  fix M1
  assume master: "rtcan_peak_pci_add_chan bus k1 CHANNEL_MASTER (Some None) M =
      Inr (Some (Inr 0, Some (if CHANNEL_MASTER \<noteq> CHANNEL_SLAVE then Some d1 else None), M1))"
    "chan_added CHANNEL_MASTER (Some None) d1 M M1"
  have m: "pm_res M1 = R + {#PciRegions, PciEnabled#} + chan_maps (pm_board M1 d1)" "refcount (devs (pm_world M1) d1) = 0"
    using master(2) res by (simp_all add: chan_added_def)
  have slave_maps: "chan_maps (b\<lparr>slave_dev := s\<rparr>) = chan_maps b" for b s
    by (simp add: chan_maps_def)
  show ?thesis
  proof (rule add_chan_cases [OF assms(2), of "Some (Some d1)" "Some d1" CHANNEL_SLAVE bus M1])
    fix e M2
    assume slave: "rtcan_peak_pci_add_chan bus k2 CHANNEL_SLAVE (Some (Some d1)) M1 = Inr (Some (e, Some (Some d1), M2))" "e \<noteq> Inr 0"
      "chan_failed CHANNEL_SLAVE (Some (Some d1)) d2 M1 M2"
    have "chan_maps (pm_board M2 d1) = chan_maps (pm_board M1 d1)"
      using slave(3) assms(3) by (auto simp: chan_failed_def chan_boards_def slave_maps)
    then have "pm_res M2 = add_mset PciRegions (R + {#PciEnabled#}) + chan_maps (pm_board M2 d1)" "refcount (devs (pm_world M2) d1) \<le> 0"
      using slave(3) m assms(3) by (simp_all add: chan_failed_def)
    from cleanup_master [OF this(2,1), of bus k1 e] show ?thesis
      using assms(4) master(1) slave(1,2) by (auto simp: peak_channels_def)
  next
    fix M2
    assume slave: "rtcan_peak_pci_add_chan bus k2 CHANNEL_SLAVE (Some (Some d1)) M1 =
        Inr (Some (Inr 0, Some (if CHANNEL_SLAVE \<noteq> CHANNEL_SLAVE then Some d2 else Some d1), M2))"
      "chan_added CHANNEL_SLAVE (Some (Some d1)) d2 M1 M2"
    let ?M = "M2\<lparr>pm_drvdata := Some d1\<rparr>"
    have b: "pm_board M2 d1 = (pm_board M1 d1)\<lparr>slave_dev := Some d2\<rparr>"
      using slave(2) assms(3) by (simp add: chan_added_def chan_boards_def)
    have "\<exists>M'. peak_pci_remove_one bus k1 k2 ?M = Inr (Some M') \<and> pm_res M' = R"
      using slave(2) m assms(3)
      by (intro remove_dual [of ?M d1 d2 R bus k1 k2]) (simp_all add: chan_added_def b slave_maps ac_simps)
    then show ?thesis
      using assms(4) master(1) slave(1) by (simp add: peak_channels_def)
  qed (use assms(3) in auto)
qed auto


text \<open>
  A card with one channel: the probe passes the null pointer for \<open>master_dev\<close>, which
  \<open>rtcan_peak_pci_add_chan\<close> writes through once the channel is registered.
\<close>

lemma registry_upd:
  assumes "registry_ok w" and "\<not> registered w d"
  shows "registry_ok (upd_dev d f w)" "\<not> registered (upd_dev d f w) d"
proof -
  have "ifname (upd_dev d f w) x = ifname w x" if "registered w x" for x
    using that assms(2) by (auto simp: ifname_def upd_dev_def)
  moreover have reg: "registered (upd_dev d f w) x = registered w x" for x
    by (simp add: registered_def)
  ultimately have "inj_on (ifname (upd_dev d f w)) {x. registered w x} = inj_on (ifname w) {x. registered w x}"
    by (intro inj_on_cong) simp
  moreover have "Some d \<notin> set (rtcan_devices w)"
    using assms(2) by (simp add: registered_def)
  ultimately show "registry_ok (upd_dev d f w)" "\<not> registered (upd_dev d f w) d"
    using assms reg by (auto simp: registry_ok_def upd_dev_def) (metis nth_mem)
qed

definition registry_free :: "'h pci_mod \<Rightarrow> nat \<Rightarrow> bool" where
  "registry_free M d \<longleftrightarrow> registry_ok (pm_world M) \<and> \<not> registered (pm_world M) d \<and> None \<in> set (rtcan_devices (pm_world M))"

lemma registry_free_simps [simp]:
  "registry_free (M\<lparr>pm_board := b\<rparr>) d = registry_free M d" "registry_free (M\<lparr>pm_priv := q\<rparr>) d = registry_free M d"
  "registry_free (M\<lparr>pm_res := R\<rparr>) d = registry_free M d" "registry_free (upd_hw d' f M) d = registry_free M d"
  by (simp_all add: registry_free_def upd_hw_def registry_ok_def registered_def ifname_def fun_eq_iff inj_on_def)

lemma registry_free_upd: "registry_free M d \<Longrightarrow> registry_free (M\<lparr>pm_world := upd_dev d f (pm_world M)\<rparr>) d"
  by (simp add: registry_free_def registry_upd)

lemma pci_register_ok:
  assumes "chip_present chip" and "registry_free M d" and "dev_name (devs (pm_world M) d) = ''rtcan%d''"
  shows "\<exists>w. rtcan_sja1000_register (Some chip) (hw_env tick d) (Inr 0) d (pm_world M) = (Inr 0, w)"
  using assms by (intro sja_register_ok) (simp_all add: registry_free_def)

theorem peak_single_faults:
  assumes "ck_mem k1 = Some d" and "ck_conf k1 = Some conf" and "ck_base k1 = Some base" and "ck_irq k1 = Inr 0"
    and "chip_present (peak_chip bus \<lparr>slave_dev = None, pb_channel = CHANNEL_SINGLE, base_addr = base, conf_addr = conf\<rparr>)"
    and "registry_free M d" and "pk_enable pk = Inr 0" and "pk_regions pk = Inr 0" and "pk_read_id pk = (Inr 0, i)" and "i \<le> 3"
    and "pk_write1 pk = Inr 0" and "pk_write2 pk = Inr 0"
  shows "peak_pci_init_one bus pk k1 k2 M = Inl NullDeref"
proof -
  let ?b = "\<lparr>slave_dev = None, pb_channel = CHANNEL_SINGLE, base_addr = base, conf_addr = conf\<rparr>"
  have faults: "peak_register bus k1 CHANNEL_SINGLE None d ?b N = Inl NullDeref" if "registry_free N d" for N
  proof -
    define N1 where "N1 = upd_hw d (peak_irq_on bus ?b) (N\<lparr>pm_priv := (pm_priv N)(d := peak_chip bus ?b), pm_board := (pm_board N)(d := ?b),
      pm_world := upd_dev d (\<lambda>dev. dev\<lparr>can_sys_clock := PEAK_PCI_CAN_SYS_CLOCK, dev_name := RTCAN_DEV_NAME\<rparr>) (pm_world N)\<rparr>)"
    have "registry_free N1 d"
      using registry_free_upd [OF that] unfolding N1_def registry_free_simps(4) by (simp add: registry_free_def)
    moreover have "dev_name (devs (pm_world N1) d) = ''rtcan%d''"
      by (simp add: N1_def RTCAN_DEV_NAME_def)
    ultimately obtain w where "rtcan_sja1000_register (Some (peak_chip bus ?b)) (hw_env (ck_tick k1) d) (Inr 0) d (pm_world N1) = (Inr 0, w)"
      using pci_register_ok [OF assms(5)] by blast
    then show ?thesis
      unfolding peak_register_def Let_def N1_def [symmetric] assms(4) by simp
  qed
  have "registry_free (M\<lparr>pm_world := upd_dev d (\<lambda>_. fresh_device) (pm_world M)\<rparr>) d"
    by (rule registry_free_upd [OF assms(6)])
  then have "registry_free N d" if "pm_world N = upd_dev d (\<lambda>_. fresh_device) (pm_world M)" for N :: "'a pci_mod"
    using that by (simp add: registry_free_def)
  then have "rtcan_peak_pci_add_chan bus k1 CHANNEL_SINGLE None N = Inl NullDeref" if "pm_world N = pm_world M" for N
    unfolding rtcan_peak_pci_add_chan_def
    by (simp add: rtcan_dev_alloc_def assms(1-3) Let_def peak_conf_def peak_attach_def faults that)
  then show ?thesis
    using assms(7-12) by (simp add: peak_init_granted peak_channels_def Let_def)
qed

section \<open>IXXAT cards\<close>

lemma ixxat_add_cases:
  assumes mem: "ck_mem k = Some d" and m: "c = CHANNEL_SLAVE \<Longrightarrow> master_dev \<noteq> None"
  obtains r M' where "rtcan_ixxat_pci_add_chan bus k c master_dev conf base M = Inr (r, if r = Inr 0 \<and> c \<noteq> CHANNEL_SLAVE then Some d else master_dev, M')"
    "pm_res M' = pm_res M" "pm_drvdata M' = pm_drvdata M"
    "pm_board M' = (let bs = (pm_board M)(d := \<lparr>slave_dev = None, pb_channel = c, base_addr = base, conf_addr = conf\<rparr>) in
      if c = CHANNEL_SLAVE then bs(the master_dev := (bs (the master_dev))\<lparr>slave_dev := Some d\<rparr>) else bs)"
    "\<forall>x. refcount (devs (pm_world M') x) = (if x = d then 0 else refcount (devs (pm_world M) x))"
    "ck_irq k \<noteq> Inr 0 \<longrightarrow> r \<noteq> Inr 0"
    "chip_present (ixxat_chip bus base) \<and> registry_free M d \<and> ck_irq k = Inr 0 \<longrightarrow> r = Inr 0"
proof -
  define w where "w = upd_dev d (\<lambda>dev. dev\<lparr>can_sys_clock := IXXAT_PCI_CAN_SYS_CLOCK, dev_name := RTCAN_DEV_NAME\<rparr>)
    (upd_dev d (\<lambda>_. fresh_device) (pm_world M))"
  define bs where "bs = (let bs = (pm_board M)(d := \<lparr>slave_dev = None, pb_channel = c, base_addr = base, conf_addr = conf\<rparr>) in
      if c = CHANNEL_SLAVE then bs(the master_dev := (bs (the master_dev))\<lparr>slave_dev := Some d\<rparr>) else bs)"
  define M1 where "M1 = upd_hw d (ixxat_intcsr bus conf (\<lambda>v. v OR (if c = CHANNEL_SLAVE then IXXAT_INTCSR_SLAVE else IXXAT_INTCSR_MASTER)))
    (M\<lparr>pm_board := bs, pm_priv := (pm_priv M)(d := ixxat_chip bus base), pm_world := w\<rparr>)"
  obtain r v where reg: "rtcan_sja1000_register (Some (ixxat_chip bus base)) (hw_env (ck_tick k) d) (ck_irq k) d (pm_world M1) = (r, v)"
    by fastforce
  have rc: "refcount (devs v x) = (if x = d then 0 else refcount (devs (pm_world M) x))" for x
    using register_refcount [of "Some (ixxat_chip bus base)" "ck_tick k" d "ck_irq k" "pm_world M1" x] unfolding reg
    by (simp add: M1_def w_def fresh_device_def)
  have irq: "r \<noteq> Inr 0" if "ck_irq k \<noteq> Inr 0"
    using reg that by (auto simp: rtcan_sja1000_register_def Let_def split: prod.splits if_splits)
  have "r = Inr 0" if "chip_present (ixxat_chip bus base)" "registry_free M d" "ck_irq k = Inr 0"
  proof -
    have "registry_free (M\<lparr>pm_world := w\<rparr>) d"
      using registry_free_upd [OF registry_free_upd [OF that(2)]] by (simp add: w_def)
    then have "registry_free M1 d"
      unfolding M1_def registry_free_simps(4) by (simp add: registry_free_def)
    moreover have "dev_name (devs (pm_world M1) d) = ''rtcan%d''"
      by (simp add: M1_def w_def RTCAN_DEV_NAME_def)
    ultimately show ?thesis
      using pci_register_ok [OF that(1), of M1 d "ck_tick k"] reg that(3) by simp
  qed
  moreover have "rtcan_ixxat_pci_add_chan bus k c master_dev conf base M = Inr (r, if r = Inr 0 \<and> c \<noteq> CHANNEL_SLAVE then Some d else master_dev,
      if r = Inr 0 then M1\<lparr>pm_world := v\<rparr> else pci_dev_free d (M1\<lparr>pm_world := v\<rparr>))"
    using m reg unfolding M1_def bs_def w_def rtcan_ixxat_pci_add_chan_def
    by (auto simp: rtcan_dev_alloc_def mem Let_def split_beta)
  ultimately show thesis
    using rc irq by (intro that [of r "if r = Inr 0 then M1\<lparr>pm_world := v\<rparr> else pci_dev_free d (M1\<lparr>pm_world := v\<rparr>)"]) (simp_all add: M1_def bs_def)
qed

lemma ixxat_del_cases:
  assumes "refcount (devs (pm_world M) d) \<le> 0" and "slave_dev (pm_board M d) \<noteq> None \<Longrightarrow> Mapping (base_addr (pm_board M d)) \<in># pm_res M"
  shows "\<exists>M'. rtcan_ixxat_pci_del_chan bus k (Some d) M = Inr (Some M') \<and> pm_board M' = pm_board M \<and>
    pm_res M' = (if slave_dev (pm_board M d) \<noteq> None then pm_res M - {#Mapping (base_addr (pm_board M d))#} else pm_res M) \<and>
    (\<forall>x. refcount (devs (pm_world M') x) = refcount (devs (pm_world M) x))"
proof -
  obtain w where w: "pci_unregister k d M = Some (M\<lparr>pm_world := w\<rparr>)" "\<forall>x. refcount (devs w x) = refcount (devs (pm_world M) x)"
    using pci_unregister_ok [OF assms(1)] by blast
  show ?thesis
    using w assms(2) by (auto simp: rtcan_ixxat_pci_del_chan_def Let_def iounmap_mapped)
qed

lemma ixxat_init_granted:
  assumes "pk_enable pk = Inr 0" and "pk_regions pk = Inr 0" and "pk_read_id pk = (Inr 0, IXXAT_PCI_SUB_SYS_ID)" and "pk_write1 pk = Inr 0"
  shows "ixxat_pci_init_one bus pk (Some base) conf h k1 k2 M = ixxat_channels bus (ixxat_second_chip bus base h) conf base k1 k2
    (M\<lparr>pm_res := pm_res M + {#PciRegions, PciEnabled, Mapping base#}\<rparr>)"
  using assms by (simp add: ixxat_pci_init_one_def Let_def add_mset_commute)

text \<open>
  A card of another manufacturer's subsystem: the probe returns \<open>-ENODEV\<close> without giving back the regions.
\<close>

theorem ixxat_wrong_card_leaks:
  assumes "pk_enable pk = Inr 0" and "pk_regions pk = Inr 0" and "fst (pk_read_id pk) = Inr 0" and "snd (pk_read_id pk) \<noteq> IXXAT_PCI_SUB_SYS_ID"
  shows "\<exists>M'. ixxat_pci_init_one bus pk remap conf h k1 k2 M = Inr (Some (Inl ENODEV, M')) \<and> pm_res M' = pm_res M + {#PciRegions, PciEnabled#}"
  using assms by (simp add: ixxat_pci_init_one_def Let_def split_beta)

text \<open>
  Two channels. If both are registered, removing the card gives back everything. If the slave cannot be
  registered, the master has already been told of it, its removal unmaps the registers of the card, and the
  probe then unmaps them again.
\<close>

theorem ixxat_dual:
  assumes "ck_mem k1 = Some d1" and "ck_mem k2 = Some d2" and "d1 \<noteq> d2"
    and "pk_enable pk = Inr 0" and "pk_regions pk = Inr 0" and "pk_read_id pk = (Inr 0, IXXAT_PCI_SUB_SYS_ID)" and "pk_write1 pk = Inr 0"
    and "ixxat_second_chip bus base h" and "chip_present (ixxat_chip bus base)" and "registry_free M d1" and "ck_irq k1 = Inr 0"
    and "Mapping base \<notin># pm_res M"
  shows "ixxat_pci_init_one bus pk (Some base) conf h k1 k2 M = Inl BadFree \<or>
    (\<exists>M'. ixxat_pci_init_one bus pk (Some base) conf h k1 k2 M = Inr (Some (Inr 0, M')) \<and>
      (\<exists>M''. ixxat_pci_remove_one bus k1 k2 M' = Inr (Some M'') \<and> pm_res M'' = pm_res M))"
    and "ck_irq k2 \<noteq> Inr 0 \<longrightarrow> ixxat_pci_init_one bus pk (Some base) conf h k1 k2 M = Inl BadFree"
proof -
  let ?R = "pm_res M + {#PciRegions, PciEnabled, Mapping base#}"
  define M0 where "M0 = M\<lparr>pm_res := ?R\<rparr>"
  have run: "ixxat_pci_init_one bus pk (Some base) conf h k1 k2 M = ixxat_channels bus True conf base k1 k2 M0"
    using ixxat_init_granted [OF assms(4-7), of bus base conf h k1 k2 M] assms(8) by (simp add: M0_def)
  have free: "registry_free M0 d1"
    using assms(10) by (simp add: M0_def)
  obtain r1 M1 where 1: "rtcan_ixxat_pci_add_chan bus k1 CHANNEL_MASTER None conf base M0 = Inr (r1, if r1 = Inr 0 then Some d1 else None, M1)"
      "pm_res M1 = ?R" "r1 = Inr 0" "pm_board M1 d1 = \<lparr>slave_dev = None, pb_channel = CHANNEL_MASTER, base_addr = base, conf_addr = conf\<rparr>"
      "refcount (devs (pm_world M1) d1) = 0"
    by (rule ixxat_add_cases [OF assms(1), of CHANNEL_MASTER None bus conf base M0]) (use assms(9,11) free in \<open>auto simp: M0_def\<close>)
  obtain r2 M2 where 2: "rtcan_ixxat_pci_add_chan bus k2 CHANNEL_SLAVE (Some d1) conf (base + CHANNEL_OFFSET) M1 = Inr (r2, Some d1, M2)"
      "pm_res M2 = ?R" "slave_dev (pm_board M2 d1) = Some d2" "base_addr (pm_board M2 d1) = base" "slave_dev (pm_board M2 d2) = None"
      "refcount (devs (pm_world M2) d1) = 0" "refcount (devs (pm_world M2) d2) = 0" "ck_irq k2 \<noteq> Inr 0 \<longrightarrow> r2 \<noteq> Inr 0"
    by (rule ixxat_add_cases [OF assms(2), of CHANNEL_SLAVE "Some d1" bus conf "base + CHANNEL_OFFSET" M1])
      (use assms(3) 1 in \<open>auto simp: Let_def\<close>)
  have chans: "ixxat_channels bus True conf base k1 k2 M0 =
      (if r2 \<noteq> Inr 0 then ixxat_unmap bus k1 (Some d1) base r2 M2 else Inr (Some (Inr 0, M2\<lparr>pm_drvdata := Some d1\<rparr>)))"
    using 1(1,3) 2(1) by (simp add: ixxat_channels_def)
  have "Mapping base \<in># ?R"
    by simp
  have twice: "ixxat_unmap bus k1 (Some d1) base r2 M2 = Inl BadFree"
    using ixxat_del_cases [of M2 d1 bus k1] 2 assms(12) by (auto simp: ixxat_unmap_def iounmap_def)
  show "ck_irq k2 \<noteq> Inr 0 \<longrightarrow> ixxat_pci_init_one bus pk (Some base) conf h k1 k2 M = Inl BadFree"
    using run chans twice 2(8) by simp
  let ?M = "M2\<lparr>pm_drvdata := Some d1\<rparr>"
  obtain M3 where 3: "rtcan_ixxat_pci_del_chan bus k2 (Some d2) ?M = Inr (Some M3)" "pm_board M3 = pm_board M2" "pm_res M3 = ?R"
      "\<forall>x. refcount (devs (pm_world M3) x) = refcount (devs (pm_world M2) x)"
    using ixxat_del_cases [of ?M d2 bus k2] 2 by auto
  obtain M4 where "rtcan_ixxat_pci_del_chan bus k1 (Some d1) M3 = Inr (Some M4)" "pm_res M4 = ?R - {#Mapping base#}"
    using ixxat_del_cases [of M3 d1 bus k1] 2 3 by auto
  then have "\<exists>M''. ixxat_pci_remove_one bus k1 k2 ?M = Inr (Some M'') \<and> pm_res M'' = pm_res M"
    using 3(1) 2(3) by (simp add: ixxat_pci_remove_one_def)
  then show "ixxat_pci_init_one bus pk (Some base) conf h k1 k2 M = Inl BadFree \<or>
    (\<exists>M'. ixxat_pci_init_one bus pk (Some base) conf h k1 k2 M = Inr (Some (Inr 0, M')) \<and>
      (\<exists>M''. ixxat_pci_remove_one bus k1 k2 M' = Inr (Some M'') \<and> pm_res M'' = pm_res M))"
    using run chans twice by (cases "r2 = Inr 0") simp_all
qed

text \<open>One channel: there is no slave, so removing the card takes the branch of a slave and the registers stay mapped.\<close>

theorem ixxat_single_leaks:
  assumes "pm_drvdata M = Some d" and "slave_dev (pm_board M d) = None" and "refcount (devs (pm_world M) d) \<le> 0"
  shows "\<exists>M'. ixxat_pci_remove_one bus k1 k2 M = Inr (Some M') \<and> pm_res M' = pm_res M - {#PciRegions#} - {#PciEnabled#}"
proof -
  obtain M1 where "rtcan_ixxat_pci_del_chan bus k1 (Some d) M = Inr (Some M1)" "pm_res M1 = pm_res M"
    using ixxat_del_cases [OF assms(3), of bus k1] assms(2) by auto
  then show ?thesis
    using assms(1,2) by (simp add: ixxat_pci_remove_one_def rtcan_ixxat_pci_del_chan_def)
qed

section \<open>An example\<close>

text \<open>A PEAK card with two channels whose configuration space cannot be mapped.\<close>

definition dark_kernel :: "nat \<Rightarrow> unit chan_kernel" where
  "dark_kernel d = \<lparr>ck_mem = Some d, ck_conf = None, ck_base = None, ck_irq = Inr 0, ck_tick = (\<lambda>_ h. h), ck_waits = []\<rparr>"

definition granted :: "nat \<Rightarrow> pci_kernel" where
  "granted i = \<lparr>pk_enable = Inr 0, pk_regions = Inr 0, pk_read_id = (Inr 0, i), pk_write1 = Inr 0, pk_write2 = Inr 0\<rparr>"

definition quiet_card :: "unit card_bus" where
  "quiet_card = \<lparr>bus_in = bus_in quiet_bus, bus_out = bus_out quiet_bus, conf_readw = (\<lambda>_ _. 0), conf_writew = (\<lambda>_ _ h. h),
     conf_writeb = (\<lambda>_ _ h. h)\<rparr>"

definition pci_mod0 :: "unit pci_mod" where
  "pci_mod0 = \<lparr>pm_world = bm_world board_mod0, pm_res = {#}, pm_priv = bm_priv board_mod0,
     pm_board = (\<lambda>_. \<lparr>slave_dev = None, pb_channel = CHANNEL_SINGLE, base_addr = 0, conf_addr = 0\<rparr>), pm_drvdata = None\<rparr>"


end
