(* ===== verification/Can_Dongle.thy ===== *)
theory Can_Dongle
  imports Can_Boards
begin

text \<open>
  The driver of the PEAK dongle, an SJA1000 behind a parallel port: \<open>rtcan_peak_dng.c\<close>. A register is reached
  by a sequence of accesses to the data, status and control register of the port.
\<close>

section \<open>The dongle\<close>

definition RTCAN_PEAK_DNG_MAX_DEV :: nat where "RTCAN_PEAK_DNG_MAX_DEV = 1"
definition DONGLE_TYPE_SP :: nat where "DONGLE_TYPE_SP = 0"
definition DONGLE_TYPE_EPP :: nat where "DONGLE_TYPE_EPP = 1"
definition DNG_PORT_SIZE :: nat where "DNG_PORT_SIZE = 4"
definition ECR_PORT_SIZE :: nat where "ECR_PORT_SIZE = 1"

record rtcan_peak_dng =
  ioport :: "16 word"
  ecr :: "16 word"
  old_data :: u8
  old_ctrl :: u8
  old_ecr :: u8
  dng_type :: nat

definition dng_ports :: "16 word list" where "dng_ports = [0x378, 0x278, 0x3bc, 0x2bc]"
definition dng_irqs :: "nat list" where "dng_irqs = [7, 5, 7, 5]"

definition nibble_decode :: "u8 list" where
  "nibble_decode =
     [0x8, 0x9, 0xa, 0xb, 0xc, 0xd, 0xe, 0xf,
      0x8, 0x9, 0xa, 0xb, 0xc, 0xd, 0xe, 0xf,
      0x0, 0x1, 0x2, 0x3, 0x4, 0x5, 0x6, 0x7,
      0x0, 0x1, 0x2, 0x3, 0x4, 0x5, 0x6, 0x7]"

definition rtcan_parport_disable_irq :: "'h io_bus \<Rightarrow> nat \<Rightarrow> 'h \<Rightarrow> 'h" where
  "rtcan_parport_disable_irq bus port h = (let (v, h1) = bus_in bus (port + 2) h in bus_out bus (port + 2) (v AND NOT 0x10) h1)"

definition rtcan_parport_enable_irq :: "'h io_bus \<Rightarrow> nat \<Rightarrow> 'h \<Rightarrow> 'h" where
  "rtcan_parport_enable_irq bus port h = (let (v, h1) = bus_in bus (port + 2) h in bus_out bus (port + 2) (v OR 0x10) h1)"

definition rtcan_peak_dng_sp_readreg :: "'h io_bus \<Rightarrow> 16 word \<Rightarrow> nat \<Rightarrow> 'h \<Rightarrow> u8 \<times> 'h" where
  "rtcan_peak_dng_sp_readreg bus io port h =
     (let pa = unat io; pb = pa + 1; pc = pb + 1;
          (c, h0) = bus_in bus pc h;
          irq_enable = c AND 0x10;
          h1 = bus_out bus pc ((0x0B XOR 0x0D) OR irq_enable) h0;
          h2 = bus_out bus pa ((of_nat port AND 0x1F) OR 0x80) h1;
          h3 = bus_out bus pc ((0x0B XOR 0x0C) OR irq_enable) h2;
          (s1, h4) = bus_in bus pb h3;
          b1 = nibble_decode ! unat (drop_bit 3 s1);
          h5 = bus_out bus pa 0x40 h4;
          (s0, h6) = bus_in bus pb h5;
          b0 = nibble_decode ! unat (drop_bit 3 s0);
          h7 = bus_out bus pc ((0x0B XOR 0x0D) OR irq_enable) h6
      in (push_bit 4 b1 OR b0, h7))"

definition rtcan_peak_dng_writereg :: "'h io_bus \<Rightarrow> 16 word \<Rightarrow> nat \<Rightarrow> u8 \<Rightarrow> 'h \<Rightarrow> 'h" where
  "rtcan_peak_dng_writereg bus io port data h =
     (let pa = unat io; pc = pa + 2;
          (c, h0) = bus_in bus pc h;
          irq_enable = c AND 0x10;
          h1 = bus_out bus pc ((0x0B XOR 0x0D) OR irq_enable) h0;
          h2 = bus_out bus pa (of_nat port AND 0x1F) h1;
          h3 = bus_out bus pc ((0x0B XOR 0x0C) OR irq_enable) h2;
          h4 = bus_out bus pa data h3
      in bus_out bus pc ((0x0B XOR 0x0D) OR irq_enable) h4)"

definition rtcan_peak_dng_epp_readreg :: "'h io_bus \<Rightarrow> 16 word \<Rightarrow> nat \<Rightarrow> 'h \<Rightarrow> u8 \<times> 'h" where
  "rtcan_peak_dng_epp_readreg bus io port h =
     (let pa = unat io; pc = pa + 2;
          (c, h0) = bus_in bus pc h;
          irq_enable = c AND 0x10;
          h1 = bus_out bus pc ((0x0B XOR 0x0F) OR irq_enable) h0;
          h2 = bus_out bus pa ((of_nat port AND 0x1F) OR 0x80) h1;
          h3 = bus_out bus pc ((0x0B XOR 0x2E) OR irq_enable) h2;
          (val, h4) = bus_in bus pa h3
      in (val, bus_out bus pc ((0x0B XOR 0x0F) OR irq_enable) h4))"

definition dongle_set_ecr :: "'h io_bus \<Rightarrow> rtcan_peak_dng \<Rightarrow> 'h \<Rightarrow> rtcan_peak_dng \<times> 'h" where
  "dongle_set_ecr bus dng h =
     (let (v, h1) = bus_in bus (unat (ecr dng)) h in (dng\<lparr>old_ecr := v\<rparr>, bus_out bus (unat (ecr dng)) ((v AND 0x1F) OR 0x20) h1))"

definition dongle_restore_ecr :: "'h io_bus \<Rightarrow> rtcan_peak_dng \<Rightarrow> 'h \<Rightarrow> 'h" where
  "dongle_restore_ecr bus dng h = bus_out bus (unat (ecr dng)) (old_ecr dng) h"

definition rtcan_peak_dng_enable :: "'h io_bus \<Rightarrow> rtcan_peak_dng \<Rightarrow> 'h \<Rightarrow> rtcan_peak_dng \<times> 'h" where
  "rtcan_peak_dng_enable bus dng h =
     (let port = unat (ioport dng);
          (v, h1) = bus_in bus port h;
          (c, h2) = bus_in bus (port + 2) h1;
          dng1 = dng\<lparr>old_data := v, old_ctrl := c\<rparr>;
          (dng2, h3) = (if dng_type dng1 = DONGLE_TYPE_EPP then dongle_set_ecr bus dng1 h2 else (dng1, h2))
      in (dng2, rtcan_parport_enable_irq bus port h3))"

definition rtcan_peak_dng_disable :: "'h io_bus \<Rightarrow> rtcan_peak_dng \<Rightarrow> 'h \<Rightarrow> 'h" where
  "rtcan_peak_dng_disable bus dng h =
     (let port = unat (ioport dng);
          h1 = rtcan_parport_disable_irq bus port h;
          h2 = (if dng_type dng = DONGLE_TYPE_EPP then dongle_restore_ecr bus dng h1 else h1)
      in bus_out bus (port + 2) (old_ctrl dng) (bus_out bus port (old_data dng) h2))"

section \<open>The module\<close>

text \<open>The parameters; a missing type ends the list. The kernel answers for a second region.\<close>

record dng_params =
  dp_type :: "string option list"
  dp_io :: "16 word list"
  dp_irq :: "nat list"

record 'h dng_kernel = "'h board_kernel" +
  dk_ecr :: bool

record 'h dng_mod = "'h board_mod" +
  dm_dng :: "nat \<Rightarrow> rtcan_peak_dng"
  pnp_registered :: bool
  pnp_driver :: bool

definition dng_hw :: "nat \<Rightarrow> ('h \<Rightarrow> 'h) \<Rightarrow> 'h sja_world \<Rightarrow> 'h sja_world" where
  "dng_hw d f w = w\<lparr>sja_hw := (sja_hw w)(d := f (sja_hw w d))\<rparr>"

definition dng_parse :: "string \<Rightarrow> nat option" where
  "dng_parse t =
     (if take 2 t = ''sp'' then Some DONGLE_TYPE_SP
      else if take 3 t = ''epp'' then Some DONGLE_TYPE_EPP
      else None)"

text \<open>The private data as it is filled in: \<open>rtcan_dev_alloc\<close> has cleared it.\<close>

definition dng_setup :: "dng_params \<Rightarrow> nat \<Rightarrow> nat \<Rightarrow> rtcan_peak_dng" where
  "dng_setup P idx dtype =
     (let io = (if dp_io P ! idx \<noteq> 0 then dp_io P ! idx else dng_ports ! idx)
      in \<lparr>ioport = io, ecr = (if dtype = DONGLE_TYPE_SP then 0 else io + 0x402), old_data = 0, old_ctrl = 0, old_ecr = 0, dng_type = 0\<rparr>)"

definition dng_chip :: "'h io_bus \<Rightarrow> rtcan_peak_dng \<Rightarrow> nat \<Rightarrow> 'h rtcan_sja1000" where
  "dng_chip bus dng dtype =
     \<lparr>read_reg = (if dtype = DONGLE_TYPE_SP then rtcan_peak_dng_sp_readreg else rtcan_peak_dng_epp_readreg) bus (ioport dng),
      write_reg = rtcan_peak_dng_writereg bus (ioport dng), irq_ack = None,
      ocr = SJA_OCR_MODE_NORMAL OR SJA_OCR_TX0_PUSHPULL, cdr = SJA_CDR_CAN_MODE\<rparr>"

definition dng_irq :: "dng_params \<Rightarrow> nat \<Rightarrow> nat" where
  "dng_irq P idx = (if dp_irq P ! idx \<noteq> 0 then dp_irq P ! idx else dng_irqs ! idx)"

definition dng_regions :: "rtcan_peak_dng \<Rightarrow> resource multiset" where
  "dng_regions dng = add_mset (IoRegion (unat (ioport dng)) DNG_PORT_SIZE)
     (if dng_type dng = DONGLE_TYPE_EPP then {#IoRegion (unat (ecr dng)) ECR_PORT_SIZE#} else {#})"

text \<open>The end of \<open>rtcan_peak_dng_init_one\<close>, once the regions are granted.\<close>

definition dng_start ::
    "'h io_bus \<Rightarrow> dng_params \<Rightarrow> 'h dng_kernel \<Rightarrow> nat \<Rightarrow> nat \<Rightarrow> nat \<Rightarrow> rtcan_peak_dng \<Rightarrow> 'h dng_mod \<Rightarrow> cret \<times> 'h dng_mod" where
  "dng_start bus P k idx dtype d dng M =
     (let w1 = upd_dev d (\<lambda>dev. dev\<lparr>can_sys_clock := 8000000, dev_name := RTCAN_DEV_NAME\<rparr>) (bm_world M);
          (dng1, h1) = rtcan_peak_dng_enable bus dng (sja_hw w1 d);
          w2 = dng_hw d (\<lambda>_. h1) w1;
          chip = dng_chip bus dng dtype;
          M1 = M\<lparr>bm_priv := (bm_priv M)(d := chip), dm_dng := (dm_dng M)(d := dng1), bm_res := bm_res M + dng_regions dng\<rparr>;
          (ret, w3) = rtcan_sja1000_register (Some chip) (hw_env (bk_tick k) d) (bk_irq k (dng_irq P idx)) d w2
      in if ret \<noteq> Inr 0
         then (ret, M1\<lparr>bm_res := bm_res M1 - dng_regions dng, bm_world := rtcan_dev_free w3 (Some d)\<rparr>)
         else (Inr 0, M1\<lparr>bm_world := w3, bm_devs := (bm_devs M1)[idx := Some d]\<rparr>))"

definition rtcan_peak_dng_init_one ::
    "'h io_bus \<Rightarrow> dng_params \<Rightarrow> 'h dng_kernel \<Rightarrow> nat \<Rightarrow> string \<Rightarrow> 'h dng_mod \<Rightarrow> cret \<times> 'h dng_mod" where
  "rtcan_peak_dng_init_one bus P k idx t M =
     (case dng_parse t of
        None \<Rightarrow> (Inl EINVAL, M)
      | Some dtype \<Rightarrow>
          (case rtcan_dev_alloc (bm_world M) (bk_mem k) of
             (None, w) \<Rightarrow> (Inl ENOMEM, M)
           | (Some d, w) \<Rightarrow>
               let dng = dng_setup P idx dtype in
               if \<not> bk_region k \<or> (dng_type dng = DONGLE_TYPE_EPP \<and> \<not> dk_ecr k)
               then (Inl EBUSY, M\<lparr>bm_world := rtcan_dev_free w (Some d)\<rparr>)
               else dng_start bus P k idx dtype d dng (M\<lparr>bm_world := w\<rparr>)))"

definition rtcan_peak_dng_exit_one :: "'h io_bus \<Rightarrow> 'h dng_kernel \<Rightarrow> nat \<Rightarrow> 'h dng_mod \<Rightarrow> 'h dng_mod option" where
  "rtcan_peak_dng_exit_one bus k d M =
     map_option (\<lambda>w. M\<lparr>bm_world := rtcan_dev_free (dng_hw d (rtcan_peak_dng_disable bus (dm_dng M d)) w) (Some d),
         bm_res := bm_res M - dng_regions (dm_dng M d)\<rparr>)
       (rtcan_sja1000_unregister (bm_priv M d) (hw_env (bk_tick k) d) d (bk_waits k) (bm_world M))"

text \<open>
  The loops run once. The argument \<open>pnp\<close> says whether \<open>pnp_register_driver\<close> succeeds; \<open>pnp_driver\<close> is whether the
  driver is registered there.
\<close>

definition rtcan_peak_dng_exit :: "'h io_bus \<Rightarrow> 'h dng_kernel \<Rightarrow> 'h dng_mod \<Rightarrow> 'h dng_mod option" where
  "rtcan_peak_dng_exit bus k M =
     map_option (\<lambda>M1. if pnp_registered M1 then M1\<lparr>pnp_driver := False\<rparr> else M1)
       (case bm_devs M ! 0 of None \<Rightarrow> Some M | Some d \<Rightarrow> rtcan_peak_dng_exit_one bus k d M)"

definition rtcan_peak_dng_init :: "'h io_bus \<Rightarrow> dng_params \<Rightarrow> 'h dng_kernel \<Rightarrow> bool \<Rightarrow> 'h dng_mod \<Rightarrow> (cret \<times> 'h dng_mod) option" where
  "rtcan_peak_dng_init bus P k pnp M =
     (let M1 = (if pnp then M\<lparr>pnp_registered := True, pnp_driver := True\<rparr> else M) in
      case dp_type P ! 0 of
        None \<Rightarrow> map_option (\<lambda>M2. (Inl EINVAL, M2)) (rtcan_peak_dng_exit bus k M1)
      | Some t \<Rightarrow>
          (case rtcan_peak_dng_init_one bus P k 0 t M1 of
             (ret, M2) \<Rightarrow>
               if ret \<noteq> Inr 0 then map_option (\<lambda>M3. (ret, M3)) (rtcan_peak_dng_exit bus k M2) else Some (Inr 0, M2)))"

section \<open>Reading through the status lines\<close>

text \<open>
  A nibble on the status lines: its top bit inverted on bit 7, the others on bits 3 to 5; bit 6 and the three
  low bits mean nothing.
\<close>

definition sp_status :: "nat \<Rightarrow> nat \<Rightarrow> nat \<Rightarrow> u8" where
  "sp_status n a l = of_nat ((if n < 8 then 128 else 0) + 64 * a + 8 * (n mod 8) + l)"

lemma nibble_table: "\<forall>n\<in>{..<16}. \<forall>a\<in>{..<2}. nibble_decode ! ((if n < 8 then 16 else 0) + 8 * a + n mod 8) = of_nat n"
  by code_simp

lemma byte_of_nat: "x < 256 \<Longrightarrow> unat (of_nat x :: u8) = x"
  by (simp add: unat_of_nat take_bit_eq_mod)

lemma sp_status_index:
  assumes "n < 16" and "a < 2" and "l < 8"
  shows "unat (drop_bit 3 (sp_status n a l)) = (if n < 8 then 16 else 0) + 8 * a + n mod 8"
proof -
  let ?s = "(if n < 8 then 128 else 0) + 64 * a + 8 * (n mod 8) + l"
  have "?s < 256"
    using assms by auto
  then have "unat (sp_status n a l) = ?s"
    unfolding sp_status_def by (rule byte_of_nat)
  then have "unat (drop_bit 3 (sp_status n a l)) = ?s div 8"
    by (simp add: drop_bit_eq_div unat_div_distrib del: mod_less)
  also have "\<dots> = (if n < 8 then 16 else 0) + 8 * a + n mod 8"
    using assms by auto
  finally show ?thesis .
qed

theorem nibble_roundtrip: "n < 16 \<Longrightarrow> a < 2 \<Longrightarrow> l < 8 \<Longrightarrow> nibble_decode ! unat (drop_bit 3 (sp_status n a l)) = of_nat n"
  using nibble_table by (simp add: sp_status_index)

text \<open>
  A dongle that shows the two nibbles of a register when it is asked for them, after the writes of the driver: the
  register number in the data lines with the read bit, then 40 hexadecimal for the low nibble.
\<close>

definition sp_shows :: "'h io_bus \<Rightarrow> nat \<Rightarrow> (nat \<Rightarrow> 'h \<Rightarrow> u8) \<Rightarrow> bool" where
  "sp_shows bus pa reg \<longleftrightarrow>
     (\<forall>h c port. port < 32 \<longrightarrow> (let h3 = bus_out bus (pa + 2) c (bus_out bus pa (of_nat port OR 0x80) h); h5 = bus_out bus pa 0x40 (snd (bus_in bus (pa + 1) h3)) in
        (\<exists>a<2. \<exists>l<8. fst (bus_in bus (pa + 1) h3) = sp_status (unat (reg port h) div 16) a l) \<and>
        (\<exists>a<2. \<exists>l<8. fst (bus_in bus (pa + 1) h5) = sp_status (unat (reg port h) mod 16) a l))) \<and>
     (\<forall>h c port. reg port (bus_out bus (pa + 2) c h) = reg port h) \<and> (\<forall>h port. reg port (snd (bus_in bus (pa + 2) h)) = reg port h)"

lemma nibbles_join: "push_bit 4 (of_nat (unat v div 16)) OR of_nat (unat v mod 16) = (v :: u8)"
proof -
  have "push_bit 4 (drop_bit 4 v) OR take_bit 4 v = v"
    by (rule bit_eqI) (auto simp: bit_simps)
  moreover have "of_nat (unat v div 16) = drop_bit 4 v" "of_nat (unat v mod 16) = take_bit 4 v"
    using byte_of_nat [of "unat v div 16"] byte_of_nat [of "unat v mod 16"] unsigned_less [of v, where ?'a = nat]
    by (simp_all add: word_unat_eq_iff drop_bit_eq_div take_bit_eq_mod unat_div_distrib unat_mod_distrib del: unsigned_of_nat)
  ultimately show ?thesis
    by simp
qed

lemma port_number: "port < 32 \<Longrightarrow> of_nat port AND (0x1F :: u8) = of_nat port"
proof -
  assume "port < 32"
  then have "take_bit 5 (of_nat port) = (of_nat port :: u8)"
    using byte_of_nat [of port] by (simp add: word_unat_eq_iff take_bit_eq_mod unat_mod_distrib del: unsigned_of_nat)
  moreover have "(0x1F :: u8) = mask 5"
    by (simp add: mask_eq_exp_minus_1)
  ultimately show "of_nat port AND (0x1F :: u8) = of_nat port"
    by (simp only: take_bit_eq_mask)
qed


text \<open>A dongle all of whose registers read A5 hexadecimal.\<close>

definition a5_dongle :: "bool io_bus" where
  "a5_dongle = \<lparr>bus_in = (\<lambda>a low. (sp_status (if low then 5 else 10) 0 0, low)),
     bus_out = (\<lambda>a v low. if a = 0x378 then v = 0x40 else low)\<rparr>"

lemma read_bit: "(x :: u8) OR 0x80 \<noteq> 0x40"
proof
  assume "x OR 0x80 = 0x40"
  then have "bit (x OR 0x80) 7 = bit (0x40 :: u8) 7"
    by simp
  then show False
    by (simp add: bit_simps)
qed


section \<open>The port is restored\<close>

text \<open>A port whose data and control register keep what is written.\<close>

definition port_latches :: "'h io_bus \<Rightarrow> nat \<Rightarrow> bool" where
  "port_latches bus pa \<longleftrightarrow>
     (\<forall>v h. fst (bus_in bus pa (bus_out bus pa v h)) = v) \<and> (\<forall>v h. fst (bus_in bus (pa + 2) (bus_out bus (pa + 2) v h)) = v) \<and>
     (\<forall>v h. fst (bus_in bus pa (bus_out bus (pa + 2) v h)) = fst (bus_in bus pa h)) \<and> (\<forall>h. fst (bus_in bus (pa + 2) (snd (bus_in bus pa h))) = fst (bus_in bus (pa + 2) h))"

theorem dng_restores:
  assumes "rtcan_peak_dng_enable bus dng h = (dng', h1)" and "port_latches bus (unat (ioport dng))"
  shows "fst (bus_in bus (unat (ioport dng)) (rtcan_peak_dng_disable bus dng' h2)) = fst (bus_in bus (unat (ioport dng)) h)"
    and "fst (bus_in bus (unat (ioport dng) + 2) (rtcan_peak_dng_disable bus dng' h2)) = fst (bus_in bus (unat (ioport dng) + 2) h)"
proof -
  let ?pa = "unat (ioport dng)"
  have saved: "old_data dng' = fst (bus_in bus ?pa h)" "old_ctrl dng' = fst (bus_in bus (?pa + 2) (snd (bus_in bus ?pa h)))" "ioport dng' = ioport dng"
    using assms(1) by (auto simp: rtcan_peak_dng_enable_def dongle_set_ecr_def Let_def split: prod.splits if_splits)
  show "fst (bus_in bus ?pa (rtcan_peak_dng_disable bus dng' h2)) = fst (bus_in bus ?pa h)"
    and "fst (bus_in bus (?pa + 2) (rtcan_peak_dng_disable bus dng' h2)) = fst (bus_in bus (?pa + 2) h)"
    using assms(2) saved by (simp_all add: rtcan_peak_dng_disable_def port_latches_def Let_def)
qed

section \<open>Resources\<close>

text \<open>
  The type field of the private data is never set: a dongle on an EPP port is not told apart afterwards, its
  ECR is neither reserved nor switched.
\<close>

theorem dng_epp_ignored: "dng_type (dng_setup P idx dtype) \<noteq> DONGLE_TYPE_EPP" "dng_regions (dng_setup P idx DONGLE_TYPE_EPP) = dng_regions (dng_setup P idx DONGLE_TYPE_SP)"
  by (simp_all add: dng_setup_def dng_regions_def DONGLE_TYPE_EPP_def DONGLE_TYPE_SP_def Let_def)

lemma enable_keeps: "dng_type dng \<noteq> DONGLE_TYPE_EPP \<Longrightarrow> dng_regions (fst (rtcan_peak_dng_enable bus dng h)) = dng_regions dng"
  by (simp add: rtcan_peak_dng_enable_def dng_regions_def Let_def split: prod.splits)

lemma dng_start_cases:
  assumes "refcount (devs (bm_world M) d) = 0" and "dng_type dng \<noteq> DONGLE_TYPE_EPP" and "bm_devs M = [None]"
  obtains (failed) e M' where "dng_start bus P k 0 dtype d dng M = (e, M')" "e \<noteq> Inr 0" "bm_res M' = bm_res M" "bm_devs M' = [None]"
  | (started) M' where "dng_start bus P k 0 dtype d dng M = (Inr 0, M')" "bm_devs M' = [Some d]" "bm_res M' = bm_res M + dng_regions (dm_dng M' d)"
      "refcount (devs (bm_world M') d) = 0"
proof -
  define w1 where "w1 = upd_dev d (\<lambda>dev. dev\<lparr>can_sys_clock := 8000000, dev_name := RTCAN_DEV_NAME\<rparr>) (bm_world M)"
  obtain dng1 h1 where en: "rtcan_peak_dng_enable bus dng (sja_hw w1 d) = (dng1, h1)"
    by fastforce
  obtain ret w3 where reg: "rtcan_sja1000_register (Some (dng_chip bus dng dtype)) (hw_env (bk_tick k) d) (bk_irq k (dng_irq P 0)) d
      (dng_hw d (\<lambda>_. h1) w1) = (ret, w3)"
    by fastforce
  have rc: "refcount (devs w3 d) = 0"
    using register_refcount [of "Some (dng_chip bus dng dtype)" "bk_tick k" d "bk_irq k (dng_irq P 0)" "dng_hw d (\<lambda>_. h1) w1" d] assms(1)
    unfolding reg by (simp add: dng_hw_def w1_def)
  have regions: "dng_regions dng1 = dng_regions dng"
    using enable_keeps [OF assms(2), of bus "sja_hw w1 d"] en by simp
  show thesis
  proof (cases "ret = Inr 0")
    case True
    then show ?thesis
      using started rc regions assms(3) unfolding dng_start_def w1_def [symmetric] by (simp add: en reg Let_def)
  next
    case False
    then show ?thesis
      using failed assms(3) unfolding dng_start_def w1_def [symmetric] by (simp add: en reg Let_def)
  qed
qed

lemma dng_exit_idle: "bm_devs M = [None] \<Longrightarrow> \<exists>M'. rtcan_peak_dng_exit bus k M = Some M' \<and> bm_res M' = bm_res M"
  by (simp add: rtcan_peak_dng_exit_def)

lemma dng_exit_used:
  assumes "bm_devs M = [Some d]" and "refcount (devs (bm_world M) d) = 0"
  shows "\<exists>M'. rtcan_peak_dng_exit bus k M = Some M' \<and> bm_res M' = bm_res M - dng_regions (dm_dng M d)"
proof -
  obtain w where "rtcan_sja1000_unregister (bm_priv M d) (hw_env (bk_tick k) d) d (bk_waits k) (bm_world M) = Some w"
    using unregister_returns [of "bm_world M" d "bm_priv M d" "bk_tick k" "bk_waits k"] assms(2) by auto
  then show ?thesis
    by (simp add: rtcan_peak_dng_exit_def rtcan_peak_dng_exit_one_def assms(1))
qed

theorem dng_init_balanced:
  assumes "bm_devs M = [None]"
  shows "\<exists>r M'. rtcan_peak_dng_init bus P k pnp M = Some (r, M') \<and>
    (if r = Inr 0 then \<exists>M''. rtcan_peak_dng_exit bus k M' = Some M'' \<and> bm_res M'' = bm_res M else bm_res M' = bm_res M)"
proof -
  define M1 where "M1 = (if pnp then M\<lparr>pnp_registered := True, pnp_driver := True\<rparr> else M)"
  have M1: "bm_devs M1 = [None]" "bm_res M1 = bm_res M"
    using assms by (simp_all add: M1_def)
  have one: "(\<exists>e M'. rtcan_peak_dng_init_one bus P k 0 t M1 = (e, M') \<and> e \<noteq> Inr 0 \<and> bm_res M' = bm_res M \<and> bm_devs M' = [None]) \<or>
      (\<exists>d M'. rtcan_peak_dng_init_one bus P k 0 t M1 = (Inr 0, M') \<and> bm_devs M' = [Some d] \<and>
        bm_res M' = bm_res M + dng_regions (dm_dng M' d) \<and> refcount (devs (bm_world M') d) = 0)" for t
  proof (cases "dng_parse t = None \<or> bk_mem k = None \<or> \<not> bk_region k")
    case True
    then show ?thesis
      using M1 dng_epp_ignored(1) by (auto simp: rtcan_peak_dng_init_one_def rtcan_dev_alloc_def Let_def split: option.splits)
  next
    case False
    then obtain dtype d where dt: "dng_parse t = Some dtype" "bk_mem k = Some d"
      by auto
    let ?M = "M1\<lparr>bm_world := upd_dev d (\<lambda>_. fresh_device) (bm_world M1)\<rparr>"
    have run: "rtcan_peak_dng_init_one bus P k 0 t M1 = dng_start bus P k 0 dtype d (dng_setup P 0 dtype) ?M"
      using False dt dng_epp_ignored(1) [of P 0 dtype] by (simp add: rtcan_peak_dng_init_one_def rtcan_dev_alloc_def Let_def)
    have "refcount (devs (bm_world ?M) d) = 0" "bm_devs ?M = [None]"
      using M1 by (simp_all add: fresh_device_def)
    then show ?thesis
      using dng_start_cases [of ?M d "dng_setup P 0 dtype" bus P k dtype] dng_epp_ignored(1) M1(2) unfolding run by fastforce
  qed
  show ?thesis
  proof (cases "dp_type P ! 0")
    case None
    then show ?thesis
      using dng_exit_idle [OF M1(1), of bus k] M1(2) unfolding rtcan_peak_dng_init_def Let_def M1_def [symmetric] by auto
  next
    case (Some t)
    from one [of t] show ?thesis
      unfolding rtcan_peak_dng_init_def Let_def M1_def [symmetric]
      using Some dng_exit_idle [of _ bus k] dng_exit_used [of _ _ bus k] by fastforce
  qed
qed

end
