(* ===== verification/Can_Proc.thy ===== *)
theory Can_Proc
  imports Can_Proto
begin

text \<open>
  The CAN module \<open>rtcan_module.c\<close>: the files under \<open>/proc/rtcan\<close> and the loading of the module. Text is written
  into buffers of a given size with the functions of C, so that a write past the end is a fault.
\<close>

section \<open>Formatting\<close>

definition dec_int :: "int \<Rightarrow> string" where
  "dec_int n = (if n < 0 then CHR ''-'' # dec_digits (nat (- n)) else dec_digits (nat n))"

fun hex_digits :: "nat \<Rightarrow> string" where
  "hex_digits n = (if n < 16 then [char_of (if n < 10 then 48 + n else 87 + n)]
     else hex_digits (n div 16) @ [char_of (if n mod 16 < 10 then 48 + n mod 16 else 87 + n mod 16)])"

declare hex_digits.simps [simp del]

definition pad_left :: "char \<Rightarrow> nat \<Rightarrow> string \<Rightarrow> string" where
  "pad_left c n s = replicate (n - length s) c @ s"

definition pad_right :: "nat \<Rightarrow> string \<Rightarrow> string" where
  "pad_right n s = s @ replicate (n - length s) (CHR '' '')"

definition NL :: string where "NL = [char_of (10 :: nat)]"

text \<open>\<open>snprintf\<close> to the offset \<open>off\<close> of a buffer: the result is the length of the whole text, of which \<open>n - 1\<close> characters and a zero are written.\<close>

definition snprintf_at :: "string \<Rightarrow> nat \<Rightarrow> nat \<Rightarrow> string \<Rightarrow> (nat \<times> string) kres" where
  "snprintf_at buf off n line =
     (let out = take (n - 1) line @ [char_of (0 :: nat)] in
      if n = 0 then Inr (length line, buf)
      else if length buf < off + length out then Inl OutOfBounds
      else Inr (length line, memcpy_at buf off out))"

text \<open>\<open>strncpy\<close> with the limit \<open>n\<close> fills all of \<open>n\<close> bytes, \<open>sprintf\<close> writes the text and a zero; \<open>m\<close> is the size of the array.\<close>

definition strncpy_name :: "nat \<Rightarrow> nat \<Rightarrow> string \<Rightarrow> string kres" where
  "strncpy_name m n s = (if m < n then Inl OutOfBounds else Inr (take n s))"

definition sprintf_name :: "nat \<Rightarrow> string \<Rightarrow> string kres" where
  "sprintf_name m s = (if m < length s + 1 then Inl OutOfBounds else Inr s)"

section \<open>Names\<close>

definition CAN_BAUDRATE_UNCONFIGURED :: u32 where "CAN_BAUDRATE_UNCONFIGURED = 0"

definition rtcan_dev_get_ctrlmode_name :: "u32 \<Rightarrow> nat \<Rightarrow> string" where
  "rtcan_dev_get_ctrlmode_name ctrlmode max_len =
     (if ctrlmode AND CAN_CTRLMODE_LISTENONLY \<noteq> 0 then take max_len ''listen-only '' else []) @
     (if ctrlmode AND CAN_CTRLMODE_LOOPBACK \<noteq> 0 then take max_len ''loopback '' else [])"

definition rtcan_state_names :: "string list" where
  "rtcan_state_names = [''active'', ''warning'', ''passive'', ''bus-off'', ''scanning'', ''stopped'', ''sleeping'']"

definition rtcan_dev_get_state_name :: "can_state \<Rightarrow> nat \<Rightarrow> string" where
  "rtcan_dev_get_state_name state max_len = take max_len (rtcan_state_names ! can_state_code state)"

definition rtcan_dev_get_baudrate_name :: "u32 \<Rightarrow> nat \<Rightarrow> string" where
  "rtcan_dev_get_baudrate_name rate max_len =
     (if rate = CAN_BAUDRATE_UNCONFIGURED then take max_len ''undefined''
      else if rate = CAN_BAUDRATE_UNKNOWN then take max_len ''unknown''
      else take (max_len - 1) (dec_int (sint rate)))"

definition rtcan_dev_get_bittime_name :: "can_bittime \<Rightarrow> nat \<Rightarrow> string" where
  "rtcan_dev_get_bittime_name bt max_len =
     (case bt of
        CAN_BITTIME_STD b \<Rightarrow> take (max_len - 1)
          (''brp='' @ dec_int (sint (brp b)) @ '' prop_seg='' @ dec_int (uint (prop_seg b)) @ '' phase_seg1='' @ dec_int (uint (phase_seg1 b)) @
           '' phase_seg2='' @ dec_int (uint (phase_seg2 b)) @ '' sjw='' @ dec_int (uint (sjw b)) @ '' sam='' @ dec_int (uint (sam b)))
      | CAN_BITTIME_BTR b0 b1 \<Rightarrow> take (max_len - 1)
          (''btr0=0x'' @ pad_left (CHR ''0'') 2 (hex_digits (unat b0)) @ '' btr1=0x'' @ pad_left (CHR ''0'') 2 (hex_digits (unat b1)))
      | CAN_BITTIME_OTHER _ \<Rightarrow> take max_len ''unknown'')"

definition rtcan_get_timeout_name :: "nat \<Rightarrow> int \<Rightarrow> nat \<Rightarrow> string kres" where
  "rtcan_get_timeout_name m timeout max_len =
     (if timeout = RTDM_TIMEOUT_INFINITE then strncpy_name m max_len ''infinite'' else sprintf_name m (dec_int timeout))"

section \<open>The files\<close>

text \<open>
  The macros \<open>RTCAN_PROC_PRINT\<close>: the buffer of the caller and the length so far. The result of a print is whether
  there is room for another block.
\<close>

record proc_out =
  po_buf :: string
  po_len :: nat

definition rtcan_proc_print :: "nat \<Rightarrow> nat \<Rightarrow> string \<Rightarrow> proc_out \<Rightarrow> (bool \<times> proc_out) kres" where
  "rtcan_proc_print count max_block_len line po =
     kbind (snprintf_at (po_buf po) (po_len po) max_block_len line) (\<lambda>(n, buf).
     let l = po_len po + n in Inr (int l \<le> int count - int max_block_len, \<lparr>po_buf = buf, po_len = l\<rparr>))"

text \<open>A sequence of prints, the next one only if there is room.\<close>

fun print_lines :: "nat \<Rightarrow> nat \<Rightarrow> string list \<Rightarrow> proc_out \<Rightarrow> (bool \<times> proc_out) kres" where
  "print_lines count m [] po = Inr (True, po)"
| "print_lines count m (l # ls) po =
     kbind (rtcan_proc_print count m l po) (\<lambda>(ok, po1). if ok then print_lines count m ls po1 else Inr (False, po1))"

definition device_line :: "rtcan_device \<Rightarrow> string" where
  "device_line dev =
     pad_right 15 (dev_name dev) @ '' '' @ pad_left (CHR '' '') 9 (rtcan_dev_get_baudrate_name (baudrate dev) 20) @ '' '' @
     pad_right 8 (rtcan_dev_get_state_name (dev_state dev) 20) @ '' '' @ pad_left (CHR '' '') 10 (dec_int (sint (tx_count dev))) @ '' '' @
     pad_left (CHR '' '') 10 (dec_int (sint (rx_count dev))) @ '' '' @ pad_left (CHR '' '') 10 (dec_int (sint (err_count dev))) @ NL"

fun devices_loop ::
    "nat \<Rightarrow> nat \<Rightarrow> int list \<Rightarrow> 'z can_world_scheme \<Rightarrow> proc_out \<Rightarrow> (proc_out \<times> 'z can_world_scheme) kres" where
  "devices_loop count m [] w po = Inr (po, w)"
| "devices_loop count m (i # is) w po =
     (case rtcan_dev_get_by_index w i of
        (None, w1) \<Rightarrow> devices_loop count m is w1 po
      | (Some d, w1) \<Rightarrow>
          kbind (rtcan_proc_print count m (device_line (devs w1 d)) po) (\<lambda>(ret, po1).
          let w2 = rtcan_dev_dereference d w1 in
          if ret then devices_loop count m is w2 po1 else Inr (po1, w2)))"

text \<open>\<open>intr\<close>: the wait for the lock is interrupted. A caller with too small a buffer gets nothing.\<close>

definition rtcan_read_proc_devices ::
    "bool \<Rightarrow> string \<Rightarrow> nat \<Rightarrow> 'z can_world_scheme \<Rightarrow> ((errno + nat) \<times> string \<times> 'z can_world_scheme) kres" where
  "rtcan_read_proc_devices intr buf count w =
     (if count < 80 then Inr (Inr 0, buf, w)
      else if intr then Inr (Inl ERESTARTSYS, buf, w)
      else
        kbind (rtcan_proc_print count 80 (''Name___________ _Baudrate State___ TX_Counter RX_Counter ____Errors'' @ NL) \<lparr>po_buf = buf, po_len = 0\<rparr>) (\<lambda>(ok, po).
        kbind (if ok then devices_loop count 80 [1..int RTCAN_MAX_DEVICES] w po else Inr (po, w)) (\<lambda>(po1, w1).
        Inr (Inr (po_len po1), po_buf po1, w1))))"

text \<open>
  The sockets: \<open>fd\<close> is the number in the context of a socket. The array \<open>name\<close> keeps its contents from one socket to the next.
\<close>

definition socket_line :: "int \<Rightarrow> string \<Rightarrow> rtcan_socket \<Rightarrow> string \<Rightarrow> string \<Rightarrow> string" where
  "socket_line fd name sock rx tx =
     pad_left (CHR '' '') 5 (dec_int fd) @ '' '' @ pad_right 15 name @ '' '' @ pad_left (CHR '' '') 6 (dec_int (flistlen sock)) @ '' 0x'' @
     pad_left (CHR ''0'') 5 (hex_digits (unat (err_mask sock))) @ '' '' @ pad_left (CHR '' '') 13 rx @ '' '' @ pad_left (CHR '' '') 13 tx @ '' '' @
     pad_left (CHR '' '') 10 (dec_int (sint (rx_buf_full sock))) @ '' '' @ pad_left (CHR '' '') 5 (dec_int (loopback sock)) @ NL"

definition socket_name :: "rtcan_socket \<Rightarrow> string \<Rightarrow> 'z can_world_scheme \<Rightarrow> string \<times> 'z can_world_scheme" where
  "socket_name sock name w =
     (if \<not> rtcan_sock_is_bound sock then (name, w)
      else if sock_ifindex sock = 0 then (dec_int 0, w)
      else case rtcan_dev_get_by_index w (sock_ifindex sock) of
        (None, w1) \<Rightarrow> (name, w1)
      | (Some d, w1) \<Rightarrow> (take IFNAMSIZ (dev_name (devs w1 d)), rtcan_dev_dereference d w1))"

fun sockets_loop ::
    "(nat \<Rightarrow> int) \<Rightarrow> nat \<Rightarrow> nat list \<Rightarrow> string \<Rightarrow> 'z can_world_scheme \<Rightarrow> proc_out \<Rightarrow> (proc_out \<times> 'z can_world_scheme) kres" where
  "sockets_loop fd count [] name w po = Inr (po, w)"
| "sockets_loop fd count (s # ss) name w po =
     (let sock = socks w s; (name1, w1) = socket_name sock name w in
      kbind (rtcan_get_timeout_name 16 (tx_timeout sock) 20) (\<lambda>tx.
      kbind (rtcan_get_timeout_name 20 (rx_timeout sock) 20) (\<lambda>rx.
      kbind (rtcan_proc_print count 120 (socket_line (fd s) name1 sock rx tx) po) (\<lambda>(ok, po1).
      if ok then sockets_loop fd count ss name1 w1 po1 else Inr (po1, w1)))))"

definition rtcan_read_proc_sockets ::
    "(nat \<Rightarrow> int) \<Rightarrow> bool \<Rightarrow> string \<Rightarrow> nat \<Rightarrow> 'z can_world_scheme \<Rightarrow> ((errno + nat) \<times> string \<times> 'z can_world_scheme) kres" where
  "rtcan_read_proc_sockets fd intr buf count w =
     (if count < 120 then Inr (Inr 0, buf, w)
      else if intr then Inr (Inl ERESTARTSYS, buf, w)
      else
        kbind (rtcan_proc_print count 120 (''__PID Name___________ Filter ErrMask RX_Timeout_ns TX_Timeout_ns RX_BufFull TX_Lo'' @ NL) \<lparr>po_buf = buf, po_len = 0\<rparr>)
          (\<lambda>(ok, po).
        kbind (if ok then sockets_loop fd count (rtcan_socket_list w) ''not-bound'' w po else Inr (po, w)) (\<lambda>(po1, w1).
        Inr (Inr (po_len po1), po_buf po1, w1))))"

definition info_lines :: "string \<Rightarrow> string \<Rightarrow> rtcan_device \<Rightarrow> string list" where
  "info_lines ctrl_name board_name dev =
     [''Device     '' @ dev_name dev @ NL, ''Controller '' @ ctrl_name @ NL, ''Board      '' @ board_name @ NL,
      ''Clock-Hz   '' @ dec_int (sint (can_sys_clock dev)) @ NL, ''Baudrate   '' @ rtcan_dev_get_baudrate_name (baudrate dev) 20 @ NL,
      ''Bit-time   '' @ rtcan_dev_get_bittime_name (bit_time dev) 80 @ NL, ''Ctrl-Mode  '' @ rtcan_dev_get_ctrlmode_name (ctrl_mode dev) 80 @ NL,
      ''State      '' @ rtcan_dev_get_state_name (dev_state dev) 20 @ NL, ''TX-Counter '' @ dec_int (sint (tx_count dev)) @ NL,
      ''RX-Counter '' @ dec_int (sint (rx_count dev)) @ NL, ''Errors     '' @ dec_int (sint (err_count dev)) @ NL,
      ''Refcount   '' @ dec_int (refcount dev) @ NL]"

definition rtcan_read_proc_info :: "string \<Rightarrow> string \<Rightarrow> bool \<Rightarrow> string \<Rightarrow> nat \<Rightarrow> rtcan_device \<Rightarrow> ((errno + nat) \<times> string) kres" where
  "rtcan_read_proc_info ctrl_name board_name intr buf count dev =
     (if count < 80 then Inr (Inr 0, buf)
      else if intr then Inr (Inl ERESTARTSYS, buf)
      else kbind (print_lines count 80 (info_lines ctrl_name board_name dev) \<lparr>po_buf = buf, po_len = 0\<rparr>) (\<lambda>(_, po). Inr (Inr (po_len po), po_buf po)))"

definition filter_line :: "int \<Rightarrow> rtcan_recv \<Rightarrow> string" where
  "filter_line fd r =
     pad_left (CHR '' '') 5 (dec_int fd) @ '' 0x'' @ pad_left (CHR ''0'') 8 (hex_digits (unat (flt_can_id (can_filter_of r)))) @ '' 0x'' @
     pad_left (CHR ''0'') 8 (hex_digits (unat (flt_can_mask (can_filter_of r) AND NOT CAN_INV_FILTER))) @ '' '' @
     (if flt_can_mask (can_filter_of r) AND CAN_INV_FILTER \<noteq> 0 then ''yes'' else '' no'') @ '' '' @
     pad_left (CHR '' '') 10 (dec_int (sint (match_count r))) @ NL"

text \<open>The walk along the reception list; the fuel is used up by a list that does not end.\<close>

fun filter_loop :: "nat \<Rightarrow> (nat \<Rightarrow> int) \<Rightarrow> nat \<Rightarrow> rtcan_recv list \<Rightarrow> nat option \<Rightarrow> proc_out \<Rightarrow> proc_out kres" where
  "filter_loop fuel fd count rs None po = Inr po"
| "filter_loop 0 fd count rs (Some i) po = Inl Diverges"
| "filter_loop (Suc fuel) fd count rs (Some i) po =
     (if length rs \<le> i then Inl OutOfBounds
      else case recv_sock (rs ! i) of
        None \<Rightarrow> Inl NullDeref
      | Some s \<Rightarrow>
          kbind (rtcan_proc_print count 80 (filter_line (fd s) (rs ! i)) po) (\<lambda>(ok, po1).
          if ok then filter_loop fuel fd count rs (next_recv (rs ! i)) po1 else Inr po1))"

definition rtcan_read_proc_filter :: "(nat \<Rightarrow> int) \<Rightarrow> string \<Rightarrow> nat \<Rightarrow> rtcan_device \<Rightarrow> (nat \<times> string) kres" where
  "rtcan_read_proc_filter fd buf count dev =
     (if count < 80 then Inr (0, buf)
      else
        kbind (rtcan_proc_print count 80 (''__PID __CAN_ID__ _CAN_Mask_ Inv MatchCount'' @ NL) \<lparr>po_buf = buf, po_len = 0\<rparr>) (\<lambda>(ok, po).
        kbind (if ok then filter_loop (length (receivers dev)) fd count (receivers dev) (recv_list dev) po else Inr po) (\<lambda>po1.
        Inr (po_len po1, po_buf po1))))"

text \<open>\<open>built\<close>: the date and time of the compilation.\<close>

definition rtcan_read_proc_version :: "nat \<Rightarrow> nat \<Rightarrow> nat \<Rightarrow> string \<Rightarrow> string \<Rightarrow> nat \<Rightarrow> (nat \<times> string) kres" where
  "rtcan_read_proc_version major minor bugfix built buf count =
     (if count < 80 then Inr (0, buf)
      else
        kbind (rtcan_proc_print count 80
          (''RT-Socket-CAN '' @ dec_digits major @ ''.'' @ dec_digits minor @ ''.'' @ dec_digits bugfix @ '' - built on '' @ built @ NL)
          \<lparr>po_buf = buf, po_len = 0\<rparr>) (\<lambda>(_, po).
        Inr (po_len po, po_buf po)))"

section \<open>The prints stay in the buffer\<close>

lemma proc_print_ok:
  assumes "po_len po + m \<le> count" and "count \<le> length (po_buf po)" and "0 < m"
  obtains ok po' where "rtcan_proc_print count m line po = Inr (ok, po')" "length (po_buf po') = length (po_buf po)"
    "po_len po' = po_len po + length line" "ok \<longleftrightarrow> po_len po' + m \<le> count"
proof -
  let ?out = "take (m - 1) line @ [char_of (0 :: nat)]"
  have "po_len po + length ?out \<le> length (po_buf po)"
    using assms by simp
  then show thesis
    using assms by (intro that [of "int (po_len po + length line) \<le> int count - int m" "\<lparr>po_buf = memcpy_at (po_buf po) (po_len po) ?out, po_len = po_len po + length line\<rparr>"])
      (auto simp: rtcan_proc_print_def snprintf_at_def Let_def)
qed

lemma proc_print_ex:
  assumes "po_len po + m \<le> count" and "count \<le> length (po_buf po)" and "0 < m"
  shows "\<exists>ok po'. rtcan_proc_print count m line po = Inr (ok, po') \<and> length (po_buf po') = length (po_buf po) \<and> (ok \<longleftrightarrow> po_len po' + m \<le> count)"
  by (rule proc_print_ok [OF assms, of line]) blast

lemma length_dec_digits: "n < 10 ^ k \<Longrightarrow> 0 < k \<Longrightarrow> length (dec_digits n) \<le> k"
proof (induction k arbitrary: n)
  case (Suc k)
  show ?case
  proof (cases "n < 10")
    case False
    then have "0 < k" "n div 10 < 10 ^ k"
      using Suc.prems(1) by (cases k; simp add: less_mult_imp_div_less mult.commute)+
    then show ?thesis
      using Suc.IH [of "n div 10"] False by (subst dec_digits.simps) simp
  qed (simp add: dec_digits_small)
qed simp

lemma length_dec_int: "\<bar>n\<bar> < 10 ^ 10 \<Longrightarrow> length (dec_int n) \<le> 11"
proof -
  assume "\<bar>n\<bar> < 10 ^ 10"
  then have "nat n < 10 ^ 10" "nat (- n) < 10 ^ 10"
    by simp_all
  then show "length (dec_int n) \<le> 11"
    using length_dec_digits [of "nat n" 10] length_dec_digits [of "nat (- n)" 10] by (auto simp: dec_int_def)
qed

lemma length_dec_u32: "length (dec_int (sint (x :: u32))) \<le> 11"
proof (rule length_dec_int)
  have "- (2 ^ 31) \<le> sint x" "sint x < 2 ^ 31"
    using sint_greater_eq [of x] sint_less [of x] by simp_all
  then show "\<bar>sint x\<bar> < 10 ^ 10"
    by simp
qed

lemma length_pad [simp]: "length (pad_left c n s) = max n (length s)" "length (pad_right n s) = max n (length s)"
  by (simp_all add: pad_left_def pad_right_def)

lemma length_state_name: "length (rtcan_dev_get_state_name st n) \<le> 8"
  by (cases st) (simp_all add: rtcan_dev_get_state_name_def rtcan_state_names_def)

lemma length_baudrate_name: "length (rtcan_dev_get_baudrate_name r n) \<le> 11"
  using length_dec_u32 [of r] by (auto simp: rtcan_dev_get_baudrate_name_def min_def)

lemma length_device_line: "length (dev_name dev) \<le> 15 \<Longrightarrow> length (device_line dev) \<le> 80"
  using length_state_name [of "dev_state dev" 20] length_baudrate_name [of "baudrate dev" 20] length_dec_u32 [of "tx_count dev"]
    length_dec_u32 [of "rx_count dev"] length_dec_u32 [of "err_count dev"]
  unfolding device_line_def NL_def by simp

lemma get_and_put:
  assumes "rtcan_dev_get_by_index w i = (Some d, w1)"
  shows "rtcan_dev_dereference d w1 = w" and "dev_name (devs w1 d) = dev_name (devs w d)"
  using assms by (auto simp: rtcan_dev_get_by_index_def rtcan_dev_reference_def rtcan_dev_dereference_def upd_dev_def split: if_splits option.splits)

lemma devices_loop_ok:
  assumes "po_len po + 80 \<le> count" and "count \<le> length (po_buf po)" and "\<forall>d. length (dev_name (devs w d)) \<le> 15"
  shows "\<exists>po'. devices_loop count 80 is w po = Inr (po', w) \<and> length (po_buf po') = length (po_buf po) \<and> po_len po' \<le> count"
  using assms(1,2)
proof (induction "is" arbitrary: po)
  case (Cons i "is")
  show ?case
  proof (cases "fst (rtcan_dev_get_by_index w i)")
    case None
    then have "rtcan_dev_get_by_index w i = (None, w)"
      by (auto simp: rtcan_dev_get_by_index_def split: option.splits if_splits)
    then show ?thesis
      using Cons by simp
  next
    case (Some d)
    then obtain w1 where get: "rtcan_dev_get_by_index w i = (Some d, w1)"
      by (cases "rtcan_dev_get_by_index w i") simp
    note put = get_and_put [OF get]
    obtain ok po1 where po1: "rtcan_proc_print count 80 (device_line (devs w1 d)) po = Inr (ok, po1)" "length (po_buf po1) = length (po_buf po)"
        "po_len po1 = po_len po + length (device_line (devs w1 d))" "ok \<longleftrightarrow> po_len po1 + 80 \<le> count"
      using proc_print_ok [OF Cons.prems, of "device_line (devs w1 d)"] by auto
    have "po_len po1 \<le> count"
      using length_device_line [of "devs w1 d"] put(2) assms(3) po1(3) Cons.prems(1) by simp
    then show ?thesis
      using Cons.IH [of po1] Cons.prems(2) get put(1) po1 by (cases ok) (simp_all add: Let_def)
  qed
qed simp

text \<open>
  C23: Reading the list of devices never writes outside the buffer of the caller, returns at most as many bytes as
  were asked for, and gives back every reference it takes.
\<close>

theorem proc_devices_bounded:
  assumes "count \<le> length buf" and "\<forall>d. length (dev_name (devs w d)) \<le> 15"
  shows "\<exists>n buf'. rtcan_read_proc_devices False buf count w = Inr (Inr n, buf', w) \<and> n \<le> count \<and> length buf' = length buf"
proof (cases "count < 80")
  case False
  let ?h = "''Name___________ _Baudrate State___ TX_Counter RX_Counter ____Errors'' @ NL"
  have h: "length ?h = 68"
    by (simp add: NL_def)
  obtain ok po where po: "rtcan_proc_print count 80 ?h \<lparr>po_buf = buf, po_len = 0\<rparr> = Inr (ok, po)" "length (po_buf po) = length buf"
      "po_len po = 68" "ok \<longleftrightarrow> po_len po + 80 \<le> count"
    using proc_print_ok [of "\<lparr>po_buf = buf, po_len = 0\<rparr>" 80 count ?h] assms(1) False unfolding h by auto
  show ?thesis
  proof (cases ok)
    case True
    then obtain po' where "devices_loop count 80 [1..int RTCAN_MAX_DEVICES] w po = Inr (po', w)" "length (po_buf po') = length buf" "po_len po' \<le> count"
      using devices_loop_ok [of po count w "[1..int RTCAN_MAX_DEVICES]"] po assms by auto
    then show ?thesis
      unfolding rtcan_read_proc_devices_def using False po(1) True by simp
  next
    case False
    then show ?thesis
      unfolding rtcan_read_proc_devices_def using \<open>\<not> count < 80\<close> po by simp
  qed
qed (simp add: rtcan_read_proc_devices_def)

theorem proc_devices_bounded_witness:
  "\<exists>n buf'. rtcan_read_proc_devices False (replicate 4096 CHR ''x'') 4096 one_device = Inr (Inr n, buf', one_device) \<and> n \<le> 4096 \<and> length buf' = 4096"
  using proc_devices_bounded [of 4096 "replicate 4096 CHR ''x''" one_device] by (simp add: one_device_def fresh_device_def)

text \<open>The walk along a reception list, for a list as the socket operations keep it.\<close>

lemma filter_loop_ok:
  assumes "chain (nxt rs) p is" and "\<forall>i\<in>set is. i < length rs \<and> recv_sock (rs ! i) \<noteq> None" and "length is \<le> fuel"
    and "po_len po + 80 \<le> count" and "count \<le> length (po_buf po)"
  shows "\<exists>po'. filter_loop fuel fd count rs p po = Inr po' \<and> length (po_buf po') = length (po_buf po)"
  using assms
proof (induction "is" arbitrary: p fuel po)
  case (Cons i "is")
  then obtain f s where f: "fuel = Suc f" "p = Some i" "recv_sock (rs ! i) = Some s"
    by (cases fuel) auto
  obtain ok po1 where po1: "rtcan_proc_print count 80 (filter_line (fd s) (rs ! i)) po = Inr (ok, po1)" "length (po_buf po1) = length (po_buf po)"
      "ok \<longleftrightarrow> po_len po1 + 80 \<le> count"
    using proc_print_ex [OF Cons.prems(4,5), of "filter_line (fd s) (rs ! i)"] by auto
  then show ?case
    using Cons.IH [of "next_recv (rs ! i)" f po1] Cons.prems f by (cases ok) (auto simp: nxt_def)
qed simp

theorem proc_filter_total:
  assumes "dev_view dev bs" and "count \<le> length buf"
  shows "\<exists>n buf'. rtcan_read_proc_filter fd buf count dev = Inr (n, buf') \<and> length buf' = length buf"
proof (cases "count < 80")
  case False
  let ?h = "''__PID __CAN_ID__ _CAN_Mask_ Inv MatchCount'' @ NL"
  obtain ok po where po: "rtcan_proc_print count 80 ?h \<lparr>po_buf = buf, po_len = 0\<rparr> = Inr (ok, po)" "length (po_buf po) = length buf"
      "ok \<longleftrightarrow> po_len po + 80 \<le> count"
    using proc_print_ex [of "\<lparr>po_buf = buf, po_len = 0\<rparr>" 80 count ?h] assms(2) False by auto
  obtain recv avail where l: "dev_lists dev recv avail" "map (entry (receivers dev)) recv = entries bs"
    using assms(1) by (auto simp: dev_view_def)
  have "recv_sock (receivers dev ! i) \<noteq> None" if "i \<in> set recv" for i
    using entries_sock [of "entry (receivers dev) i" bs] that l(2) by (metis entry_fst imageI list.set_map option.distinct(1))
  moreover have "chain (nxt (receivers dev)) (recv_list dev) recv" "\<forall>i\<in>set recv. i < length (receivers dev)" "distinct recv"
    using l(1) by (auto simp: dev_lists_def)
  moreover from this have "length recv \<le> length (receivers dev)"
    by (metis card_mono card_lessThan distinct_card finite_lessThan lessThan_iff subsetI)
  ultimately have "ok \<Longrightarrow> \<exists>po'. filter_loop (length (receivers dev)) fd count (receivers dev) (recv_list dev) po = Inr po' \<and> length (po_buf po') = length buf"
    using filter_loop_ok [of "receivers dev" "recv_list dev" recv "length (receivers dev)" po count fd] po(2,3) assms(2) by simp
  then show ?thesis
    unfolding rtcan_read_proc_filter_def using False po by (cases ok) auto
qed (simp add: rtcan_read_proc_filter_def)

section \<open>The list of sockets\<close>

text \<open>
  C38: Reading the list of sockets overruns an array on the stack: the text for the timeout of transmissions is copied
  with a limit of 20 into 16 bytes, and the copy fills all 20. It happens as soon as there is a
  socket with the default timeout, whatever else is in the system.
\<close>

theorem proc_sockets_overrun:
  assumes "rtcan_raw_socket w s 0 = (Inr 0, w')" and "240 \<le> count" and "count \<le> length buf"
  shows "rtcan_read_proc_sockets fd False buf count w' = Inl OutOfBounds"
proof -
  let ?h = "''__PID Name___________ Filter ErrMask RX_Timeout_ns TX_Timeout_ns RX_BufFull TX_Lo'' @ NL"
  have h: "length ?h \<le> 120"
    by (simp add: NL_def)
  have w': "w' = rtcan_socket_init w s"
    using assms(1) by (simp add: rtcan_raw_socket_def)
  have sock: "rtcan_socket_list w' = s # rtcan_socket_list w" "tx_timeout (socks w' s) = RTDM_TIMEOUT_INFINITE"
    by (simp_all add: w' rtcan_socket_init_def)
  obtain po where po: "rtcan_proc_print count 120 ?h \<lparr>po_buf = buf, po_len = 0\<rparr> = Inr (True, po)"
    using proc_print_ok [of "\<lparr>po_buf = buf, po_len = 0\<rparr>" 120 count ?h] assms(2,3) h by auto
  have "sockets_loop fd count (rtcan_socket_list w') ''not-bound'' w' po = Inl OutOfBounds"
    by (simp add: sock rtcan_get_timeout_name_def strncpy_name_def split: prod.split)
  then show ?thesis
    unfolding rtcan_read_proc_sockets_def using po assms(2) by simp
qed

theorem proc_sockets_overrun_witness:
  "rtcan_read_proc_sockets (\<lambda>_. 0) False (replicate 4096 CHR ''x'') 4096 (snd (rtcan_raw_socket one_device 7 0)) = Inl OutOfBounds"
  by (rule proc_sockets_overrun [of one_device 7]) (simp_all add: rtcan_raw_socket_def)

text \<open>
  The name of the interface is kept from the socket before: a socket that is not bound is listed with the name
  of another's interface.
\<close>

lemma finite_timeout: "0 < t \<Longrightarrow> t < 10 ^ 15 \<Longrightarrow> 16 \<le> m \<Longrightarrow> rtcan_get_timeout_name m t n = Inr (dec_int t)"
  using length_dec_digits [of "nat t" 15] by (simp add: rtcan_get_timeout_name_def RTDM_TIMEOUT_INFINITE_def sprintf_name_def dec_int_def nat_less_iff)

definition short_timeouts :: "rtcan_socket \<Rightarrow> bool" where
  "short_timeouts sock \<longleftrightarrow> 0 < tx_timeout sock \<and> tx_timeout sock < 10 ^ 15 \<and> 0 < rx_timeout sock \<and> rx_timeout sock < 10 ^ 15"

theorem proc_sockets_stale_name:
  assumes "rtcan_sock_is_bound (socks w a)" and "sock_ifindex (socks w a) \<noteq> 0" and "rtcan_dev_get_by_index w (sock_ifindex (socks w a)) = (Some d, w1)"
    and "\<not> rtcan_sock_is_bound (socks w b)" and "short_timeouts (socks w a)" and "short_timeouts (socks w b)"
    and "\<forall>s. line s = socket_line (fd s) (take IFNAMSIZ (dev_name (devs w d))) (socks w s) (dec_int (rx_timeout (socks w s))) (dec_int (tx_timeout (socks w s)))"
  shows "sockets_loop fd count [a, b] ''not-bound'' w po = kbind (print_lines count 120 [line a, line b] po) (\<lambda>(_, po1). Inr (po1, w))"
proof -
  have "socket_name (socks w a) ''not-bound'' w = (take IFNAMSIZ (dev_name (devs w d)), w)"
    using assms(1-3) get_and_put [OF assms(3)] by (simp add: socket_name_def)
  moreover have "socket_name (socks w b) name w = (name, w)" for name
    using assms(4) by (simp add: socket_name_def)
  ultimately show ?thesis
    using assms(5,6)
    by (cases "rtcan_proc_print count 120 (line a) po") (auto simp: assms(7) short_timeouts_def finite_timeout kbind_def split: sum.splits prod.splits)
qed

end
