(* ===== verification/Can_Module.thy ===== *)
theory Can_Module
  imports Can_Proc
begin

text \<open>
  The entries under \<open>/proc/rtcan\<close> and the loading of the CAN module (the end of \<open>rtcan_module.c\<close>). The directory tree is a set
  of paths; \<open>ok\<close> are the paths the kernel agrees to create. Using a directory that has been removed is a fault.
\<close>

section \<open>Entries\<close>

record proc_state =
  ptree :: "string list set"
  rtcan_proc_root :: "string list option"
  proc_root :: "nat \<Rightarrow> string list option"

definition create_proc_entry :: "(string list \<Rightarrow> bool) \<Rightarrow> string list \<Rightarrow> string \<Rightarrow> proc_state \<Rightarrow> (bool \<times> proc_state) kres" where
  "create_proc_entry ok parent name P =
     (if parent \<noteq> [] \<and> parent \<notin> ptree P then Inl UseAfterFree
      else if ok (parent @ [name]) then Inr (True, P\<lparr>ptree := insert (parent @ [name]) (ptree P)\<rparr>)
      else Inr (False, P))"

definition remove_proc_entry :: "string list \<Rightarrow> string \<Rightarrow> proc_state \<Rightarrow> proc_state kres" where
  "remove_proc_entry parent name P =
     (if parent \<noteq> [] \<and> parent \<notin> ptree P then Inl UseAfterFree else Inr (P\<lparr>ptree := ptree P - {parent @ [name]}\<rparr>))"

text \<open>The null pointer as a parent is the top of \<open>/proc\<close>.\<close>

definition parent_of :: "string list option \<Rightarrow> string list" where
  "parent_of p = (case p of None \<Rightarrow> [] | Some dir \<Rightarrow> dir)"

definition rtcan_dev_remove_proc :: "nat \<Rightarrow> string \<Rightarrow> proc_state \<Rightarrow> proc_state kres" where
  "rtcan_dev_remove_proc d name P =
     (case proc_root P d of
        None \<Rightarrow> Inr P
      | Some dir \<Rightarrow>
          kbind (remove_proc_entry dir ''info'' P) (\<lambda>P1.
          kbind (remove_proc_entry dir ''filters'' P1) (\<lambda>P2.
          kbind (remove_proc_entry (parent_of (rtcan_proc_root P)) name P2) (\<lambda>P3.
          Inr (P3\<lparr>proc_root := (proc_root P3)(d := None)\<rparr>)))))"

text \<open>The value -1 of the error paths is \<open>-EPERM\<close>.\<close>

definition rtcan_dev_create_proc :: "(string list \<Rightarrow> bool) \<Rightarrow> nat \<Rightarrow> string \<Rightarrow> proc_state \<Rightarrow> (cret \<times> proc_state) kres" where
  "rtcan_dev_create_proc ok d name P =
     (case rtcan_proc_root P of
        None \<Rightarrow> Inr (Inl EINVAL, P)
      | Some root \<Rightarrow>
          kbind (create_proc_entry ok root name P) (\<lambda>(r0, P0).
          if \<not> r0 then Inr (Inl EPERM, P0\<lparr>proc_root := (proc_root P0)(d := None)\<rparr>)
          else
            let dir = root @ [name]; P1 = P0\<lparr>proc_root := (proc_root P0)(d := Some dir)\<rparr> in
            kbind (create_proc_entry ok dir ''info'' P1) (\<lambda>(r1, P2).
            if \<not> r1 then kbind (remove_proc_entry root name P2) (\<lambda>P3. Inr (Inl EPERM, P3))
            else
              kbind (create_proc_entry ok dir ''filters'' P2) (\<lambda>(r2, P3).
              if \<not> r2 then
                kbind (remove_proc_entry dir ''info'' P3) (\<lambda>P4.
                kbind (remove_proc_entry root name P4) (\<lambda>P5. Inr (Inl EPERM, P5)))
              else Inr (Inr 0, P3)))))"

definition rtcan_proc_register :: "(string list \<Rightarrow> bool) \<Rightarrow> proc_state \<Rightarrow> (cret \<times> proc_state) kres" where
  "rtcan_proc_register ok P =
     kbind (create_proc_entry ok [] ''rtcan'' P) (\<lambda>(r0, P0).
     if \<not> r0 then Inr (Inl EPERM, P0\<lparr>rtcan_proc_root := None\<rparr>)
     else
       let root = [''rtcan'']; P1 = P0\<lparr>rtcan_proc_root := Some root\<rparr> in
       kbind (create_proc_entry ok root ''devices'' P1) (\<lambda>(r1, P2).
       if \<not> r1 then kbind (remove_proc_entry [] ''rtcan'' P2) (\<lambda>P3. Inr (Inl EPERM, P3))
       else
         kbind (create_proc_entry ok root ''version'' P2) (\<lambda>(r2, P3).
         if \<not> r2 then
           kbind (remove_proc_entry root ''devices'' P3) (\<lambda>P4.
           kbind (remove_proc_entry [] ''rtcan'' P4) (\<lambda>P5. Inr (Inl EPERM, P5)))
         else
           kbind (create_proc_entry ok root ''sockets'' P3) (\<lambda>(r3, P4).
           if \<not> r3 then
             kbind (remove_proc_entry root ''version'' P4) (\<lambda>P5.
             kbind (remove_proc_entry root ''devices'' P5) (\<lambda>P6.
             kbind (remove_proc_entry [] ''rtcan'' P6) (\<lambda>P7. Inr (Inl EPERM, P7))))
           else Inr (Inr 0, P4)))))"

definition rtcan_proc_unregister :: "proc_state \<Rightarrow> proc_state kres" where
  "rtcan_proc_unregister P =
     kbind (remove_proc_entry (parent_of (rtcan_proc_root P)) ''devices'' P) (\<lambda>P1.
     kbind (remove_proc_entry (parent_of (rtcan_proc_root P)) ''version'' P1) (\<lambda>P2.
     kbind (remove_proc_entry (parent_of (rtcan_proc_root P)) ''sockets'' P2) (\<lambda>P3.
     remove_proc_entry [] ''rtcan'' P3)))"

section \<open>The module\<close>

definition rtcan_init where
  "rtcan_init debug k ok S d P =
     kbind (rtcan_raw_proto_register debug k S d) (\<lambda>(err, S1).
     if err \<noteq> Inr 0 then Inr (err, S1, P)
     else kbind (rtcan_proc_register ok P) (\<lambda>(err1, P1). Inr (err1, S1, P1)))"

definition rtcan_exit where
  "rtcan_exit S d waits P =
     kbind (rtcan_raw_proto_unregister S d waits) (\<lambda>r.
     case r of
       None \<Rightarrow> Inr None
     | Some (_, S1) \<Rightarrow> kbind (rtcan_proc_unregister P) (\<lambda>P1. Inr (Some (S1, P1))))"

section \<open>Entries come and go together\<close>

lemmas proc_entry_defs = create_proc_entry_def remove_proc_entry_def parent_of_def

text \<open>Nothing is there below the directory.\<close>

definition no_entries :: "string list \<Rightarrow> proc_state \<Rightarrow> bool" where
  "no_entries dir P \<longleftrightarrow> dir \<notin> ptree P \<and> (\<forall>name. dir @ [name] \<notin> ptree P)"

lemma proc_register_cases:
  assumes "no_entries [''rtcan''] P"
  shows "\<exists>r P'. rtcan_proc_register ok P = Inr (r, P') \<and>
    (if r = Inr 0 then rtcan_proc_root P' = Some [''rtcan''] \<and>
       ptree P' = ptree P \<union> {[''rtcan''], [''rtcan'', ''devices''], [''rtcan'', ''version''], [''rtcan'', ''sockets'']}
     else ptree P' = ptree P)"
proof -
  have "[''rtcan''] \<notin> ptree P" "[''rtcan'', n] \<notin> ptree P" for n
    using assms by (auto simp: no_entries_def)
  then show ?thesis
    by (cases "ok [''rtcan'']"; cases "ok [''rtcan'', ''devices'']"; cases "ok [''rtcan'', ''version'']"; cases "ok [''rtcan'', ''sockets'']")
      (auto simp: rtcan_proc_register_def proc_entry_defs Let_def)
qed

lemma proc_unregister_ok:
  assumes "rtcan_proc_root P = Some [''rtcan'']" and "[''rtcan''] \<in> ptree P"
  shows "\<exists>P'. rtcan_proc_unregister P = Inr P' \<and>
    ptree P' = ptree P - {[''rtcan''], [''rtcan'', ''devices''], [''rtcan'', ''version''], [''rtcan'', ''sockets'']}"
  using assms by (auto simp: rtcan_proc_unregister_def proc_entry_defs)

text \<open>
  A device's entries are created together or not at all, and removing them brings the tree back.
\<close>

theorem dev_proc_roundtrip:
  assumes "rtcan_proc_root P = Some root" and "root \<in> ptree P" and "root \<noteq> []" and "no_entries (root @ [name]) P"
  shows "\<exists>r P'. rtcan_dev_create_proc ok d name P = Inr (r, P') \<and>
    (if r = Inr 0 then \<exists>P''. rtcan_dev_remove_proc d name P' = Inr P'' \<and> ptree P'' = ptree P else ptree P' = ptree P)"
proof -
  have "root @ [name] \<notin> ptree P" "root @ [name, n] \<notin> ptree P" for n
    using assms(4) by (auto simp: no_entries_def)
  then show ?thesis
    using assms(1-3) by (cases "ok (root @ [name])"; cases "ok (root @ [name, ''info''])"; cases "ok (root @ [name, ''filters''])")
      (auto simp: rtcan_dev_create_proc_def rtcan_dev_remove_proc_def proc_entry_defs Let_def)
qed

text \<open>
  When the directory could be created but not its files, the pointer to it is kept: the removal when the
  device is unregistered works in a directory that is gone.
\<close>

theorem dev_proc_dangling:
  assumes "rtcan_proc_root P = Some root" and "root \<in> ptree P" and "root \<noteq> []" and "ok (root @ [name])" and "\<not> ok (root @ [name, ''info''])"
  shows "\<exists>P'. rtcan_dev_create_proc ok d name P = Inr (Inl EPERM, P') \<and> rtcan_dev_remove_proc d name P' = Inl UseAfterFree"
  using assms by (auto simp: rtcan_dev_create_proc_def rtcan_dev_remove_proc_def proc_entry_defs Let_def)

section \<open>Loading and unloading\<close>

lemma proto_register_exact:
  assumes "rdevs S d = Some (rtcan_proto_raw_dev ops)" and "proto_ret k = Inr 0" and "sock_ret k = Inr 0"
  shows "\<exists>S' dev. rtcan_raw_proto_register debug k S d = Inr (Inr 0, S') \<and> rdevs S' d = Some dev \<and> families S' = (families S)(PF_CAN := Some d) \<and>
    device_flags dev = RTDM_PROTOCOL_DEVICE \<and> protocol_family dev = PF_CAN \<and> dev_refcount dev = 0"
  using assms
  by (simp add: rtcan_raw_proto_register_def rtdm_dev_register_def dev_of_def default_creators_def rtcan_proto_raw_dev_def
      rtdm_flags register_kernel_def Let_def upd_rdev_def default_if_null_def)

lemma proto_unregister_exact:
  assumes "rdevs S d = Some dev" and "device_flags dev = RTDM_PROTOCOL_DEVICE" and "protocol_family dev = PF_CAN" and "dev_refcount dev = 0"
  shows "\<exists>S'. rtcan_raw_proto_unregister S d waits = Inr (Some (Inr 0, S')) \<and> families S' = (families S)(PF_CAN := None)"
  unfolding rtcan_raw_proto_unregister_def rtdm_dev_unregister_def
  using assms by (subst unregister_loop.simps) (simp add: dev_of_def rtdm_flags unregister_kernel_def)


text \<open>If the entries cannot be created, loading fails, but the protocol stays registered with the handlers of a module that is gone.\<close>

theorem can_init_leaves_protocol:
  assumes "rdevs S d = Some (rtcan_proto_raw_dev ops)" and "proto_ret k = Inr 0" and "sock_ret k = Inr 0" and "\<not> ok [''rtcan'']"
  shows "\<exists>S' P'. rtcan_init debug k ok S d P = Inr (Inl EPERM, S', P') \<and> families S' PF_CAN = Some d"
proof -
  obtain S1 where S1: "rtcan_raw_proto_register debug k S d = Inr (Inr 0, S1)" "families S1 = (families S)(PF_CAN := Some d)"
    using proto_register_exact [OF assms(1-3), of debug] by blast
  have "rtcan_proc_register ok P = Inr (Inl EPERM, P\<lparr>rtcan_proc_root := None\<rparr>)"
    using assms(4) by (simp add: rtcan_proc_register_def create_proc_entry_def)
  then show ?thesis
    using S1 by (simp add: rtcan_init_def)
qed

section \<open>An example\<close>

definition empty_proc :: proc_state where
  "empty_proc = \<lparr>ptree = {}, rtcan_proc_root = None, proc_root = (\<lambda>_. None)\<rparr>"

definition all_granted :: kernel_results where
  "all_granted = \<lparr>chrdev_ret = Inr 0, proto_ret = Inr 0, sock_ret = Inr 0\<rparr>"


end
