(* ===== verification/Can_Regs.thy ===== *)
theory Can_Regs
  imports Can_Module Can_Sja1000
begin

text \<open>
  The register dumps of the controllers under \<open>/proc\<close> in debug builds: \<open>rtcan_sja1000_proc.c\<close> and \<open>rtcan_mscan_proc.c\<close>.
\<close>

section \<open>SJA1000\<close>

definition hex2 :: "nat \<Rightarrow> string" where
  "hex2 n = pad_left (CHR ''0'') 2 (hex_digits n)"

text \<open>The loop over the registers; a register is read before its value is printed.\<close>

fun sja_regs_loop :: "'h rtcan_sja1000 \<Rightarrow> nat \<Rightarrow> nat list \<Rightarrow> proc_out \<Rightarrow> 'h \<Rightarrow> (bool \<times> proc_out \<times> 'h) kres" where
  "sja_regs_loop chip count [] po h = Inr (True, po, h)"
| "sja_regs_loop chip count (i # is) po h =
     kbind (if i mod 0x10 = 0 then rtcan_proc_print count 80 (NL @ hex2 i @ '':'') po else Inr (True, po)) (\<lambda>(ok, po1).
     if \<not> ok then Inr (False, po1, h)
     else
       let (v, h1) = read_reg chip i h in
       kbind (rtcan_proc_print count 80 ('' '' @ hex2 (unat v)) po1) (\<lambda>(ok2, po2).
       if ok2 then sja_regs_loop chip count is po2 h1 else Inr (False, po2, h1)))"

definition rtcan_sja_proc_regs :: "'h rtcan_sja1000 \<Rightarrow> string \<Rightarrow> nat \<Rightarrow> 'h \<Rightarrow> (nat \<times> string \<times> 'h) kres" where
  "rtcan_sja_proc_regs chip buf count h =
     (if count < 80 then Inr (0, buf, h)
      else
        kbind (rtcan_proc_print count 80 ''SJA1000 registers'' \<lparr>po_buf = buf, po_len = 0\<rparr>) (\<lambda>(ok, po).
        if \<not> ok then Inr (po_len po, po_buf po, h)
        else
          kbind (sja_regs_loop chip count [0..<0x20] po h) (\<lambda>(ok1, po1, h1).
          if \<not> ok1 then Inr (po_len po1, po_buf po1, h1)
          else kbind (rtcan_proc_print count 80 NL po1) (\<lambda>(_, po2). Inr (po_len po2, po_buf po2, h1)))))"

text \<open>The file of a controller, in the directory of its device.\<close>

definition regs_create_proc :: "(string list \<Rightarrow> bool) \<Rightarrow> nat \<Rightarrow> proc_state \<Rightarrow> (cret \<times> proc_state) kres" where
  "regs_create_proc ok d P =
     (case proc_root P d of
        None \<Rightarrow> Inr (Inl EINVAL, P)
      | Some dir \<Rightarrow> kbind (create_proc_entry ok dir ''registers'' P) (\<lambda>(r, P1). Inr (if r then Inr 0 else Inl EPERM, P1)))"

definition regs_remove_proc :: "nat \<Rightarrow> proc_state \<Rightarrow> proc_state kres" where
  "regs_remove_proc d P = (case proc_root P d of None \<Rightarrow> Inr P | Some dir \<Rightarrow> remove_proc_entry dir ''registers'' P)"

definition rtcan_sja_create_proc where "rtcan_sja_create_proc = regs_create_proc"
definition rtcan_sja_remove_proc where "rtcan_sja_remove_proc = regs_remove_proc"

section \<open>MSCAN\<close>

text \<open>
  The registers by name, the address they are at and the port configuration. The bits of the two control registers,
  from the top.
\<close>

definition flag_names :: "u8 \<Rightarrow> string list \<Rightarrow> string" where
  "flag_names v names = concat (map (\<lambda>(i, n). if bit v i then '' '' @ n else []) (zip (rev [0..<8]) names))"

definition canctl0_line :: "u8 \<Rightarrow> string" where
  "canctl0_line v = ''canctl0  0x'' @ hex2 (unat v) @
     flag_names v [''rxfrm'', ''rxact'', ''cswai'', ''synch'', ''time'', ''wupe'', ''slprq'', ''initrq''] @ NL"

definition canctl1_line :: "u8 \<Rightarrow> string" where
  "canctl1_line v = ''canctl1  0x'' @ hex2 (unat v) @
     concat (map (\<lambda>(i, n). if bit v i then '' '' @ n else []) [(7, ''cane''), (6, ''clksrc''), (5, ''loopb''), (4, ''listen''), (2, ''wump''), (1, ''slpak''), (0, ''initak'')]) @ NL"

definition mscan_reg_names :: "string list" where
  "mscan_reg_names = [''canbtr0'', ''canbtr1'', ''canrflg'', ''canrier'', ''cantflg'', ''cantier'', ''cantarq'', ''cantaak'', ''cantbsel'', ''canidac'',
     ''canrxerr'', ''cantxerr'', ''canidar0'', ''canidar1'', ''canidar2'', ''canidar3'', ''canidmr0'', ''canidmr1'', ''canidmr2'', ''canidmr3'',
     ''canidar4'', ''canidar5'', ''canidar6'', ''canidar7'', ''canidmr4'', ''canidmr5'', ''canidmr6'', ''canidmr7'']"

definition mscan_reg_line :: "(string \<Rightarrow> u8) \<Rightarrow> string \<Rightarrow> string" where
  "mscan_reg_line regs r = pad_right 8 r @ '' 0x'' @ hex2 (unat (regs r)) @ NL"

definition port_line :: "u32 \<Rightarrow> string" where
  "port_line v = ''port_config 0x'' @ pad_left (CHR ''0'') 8 (hex_digits (unat v)) @ '' '' @
     (if v AND 0x10000000 \<noteq> 0 then ''CAN1 on I2C1, CAN2 on TMR0/1 pins''
      else if v AND 0x70 = 0x10 then ''CAN1/2 on PSC2 pins'' else ''MSCAN1/2 not routed'') @ NL"

text \<open>
  The operands of \<open>|\<close> are all evaluated: the prints of this block go on when there is no more room.
\<close>

fun print_block :: "nat \<Rightarrow> string list \<Rightarrow> proc_out \<Rightarrow> (bool \<times> proc_out) kres" where
  "print_block count [] po = Inr (True, po)"
| "print_block count (l # ls) po =
     kbind (rtcan_proc_print count 80 l po) (\<lambda>(ok, po1).
     kbind (print_block count ls po1) (\<lambda>(ok2, po2). Inr (ok \<and> ok2, po2)))"

definition rtcan_mscan_proc_regs :: "string \<Rightarrow> (string \<Rightarrow> u8) \<Rightarrow> u32 \<Rightarrow> string \<Rightarrow> nat \<Rightarrow> (nat \<times> string) kres" where
  "rtcan_mscan_proc_regs addr regs port_config buf count =
     (if count < 80 then Inr (0, buf)
      else
        kbind (print_lines count 80 [''MSCAN registers at '' @ addr @ NL, canctl0_line (regs ''canctl0''), canctl1_line (regs ''canctl1'')]
          \<lparr>po_buf = buf, po_len = 0\<rparr>) (\<lambda>(ok, po).
        kbind (if ok then print_block count (map (mscan_reg_line regs) mscan_reg_names) po else Inr (False, po)) (\<lambda>(ok1, po1).
        kbind (if ok1 then print_lines count 80 [''GPIO registers'' @ NL, port_line port_config] po1 else Inr (False, po1)) (\<lambda>(_, po2).
        Inr (po_len po2, po_buf po2)))))"

definition rtcan_mscan_create_proc where "rtcan_mscan_create_proc = regs_create_proc"
definition rtcan_mscan_remove_proc where "rtcan_mscan_remove_proc = regs_remove_proc"

section \<open>What reading the files does\<close>

text \<open>The dump of an SJA1000 stays in the buffer of the caller.\<close>

lemma sja_regs_loop_ok:
  assumes "po_len po + 80 \<le> count" and "count \<le> length (po_buf po)"
  shows "\<exists>ok po' h'. sja_regs_loop chip count is po h = Inr (ok, po', h') \<and> length (po_buf po') = length (po_buf po) \<and>
    (ok \<longrightarrow> po_len po' + 80 \<le> count \<and> h' = fold (\<lambda>i h. snd (read_reg chip i h)) is h)"
  using assms
proof (induction "is" arbitrary: po h)
  case (Cons i "is")
  obtain ok1 po1 where 1: "(if i mod 0x10 = 0 then rtcan_proc_print count 80 (NL @ hex2 i @ '':'') po else Inr (True, po)) = Inr (ok1, po1)"
      "length (po_buf po1) = length (po_buf po)" "ok1 \<longrightarrow> po_len po1 + 80 \<le> count"
    using proc_print_ex [OF Cons.prems, of "NL @ hex2 i @ '':''"] Cons.prems(1) by (cases "i mod 0x10 = 0") auto
  obtain v h1 where v: "read_reg chip i h = (v, h1)"
    by fastforce
  show ?case
  proof (cases ok1)
    case True
    then obtain ok2 po2 where 2: "rtcan_proc_print count 80 ('' '' @ hex2 (unat v)) po1 = Inr (ok2, po2)" "length (po_buf po2) = length (po_buf po)"
        "ok2 \<longleftrightarrow> po_len po2 + 80 \<le> count"
      using proc_print_ex [of po1 80 count "'' '' @ hex2 (unat v)"] 1(2,3) Cons.prems(2) by auto
    show ?thesis
      unfolding sja_regs_loop.simps 1(1) using True 2 v Cons.IH [of po2 h1] Cons.prems(2) by (cases ok2) auto
  next
    case False
    then show ?thesis
      unfolding sja_regs_loop.simps 1(1) using 1(2) by auto
  qed
qed (auto intro: exI [of _ True])

theorem sja_proc_regs_total:
  assumes "count \<le> length buf"
  shows "\<exists>n buf' h'. rtcan_sja_proc_regs chip buf count h = Inr (n, buf', h') \<and> length buf' = length buf"
proof (cases "count < 80")
  case False
  obtain ok po where po: "rtcan_proc_print count 80 ''SJA1000 registers'' \<lparr>po_buf = buf, po_len = 0\<rparr> = Inr (ok, po)" "length (po_buf po) = length buf"
      "ok \<longleftrightarrow> po_len po + 80 \<le> count"
    using proc_print_ex [of "\<lparr>po_buf = buf, po_len = 0\<rparr>" 80 count "''SJA1000 registers''"] assms False by auto
  show ?thesis
  proof (cases ok)
    case True
    then obtain ok1 po1 h1 where 1: "sja_regs_loop chip count [0..<0x20] po h = Inr (ok1, po1, h1)" "length (po_buf po1) = length buf"
        "ok1 \<longrightarrow> po_len po1 + 80 \<le> count"
      using sja_regs_loop_ok [of po count chip "[0..<0x20]" h] po assms by auto
    have "\<exists>ok2 po2. ok1 \<longrightarrow> rtcan_proc_print count 80 NL po1 = Inr (ok2, po2) \<and> length (po_buf po2) = length buf"
      using proc_print_ex [of po1 80 count NL] 1(2,3) assms by auto
    then show ?thesis
      unfolding rtcan_sja_proc_regs_def using False po(1) True 1(1,2) by (cases ok1) (auto simp del: upt_conv_Cons)
  next
    case ko: False
    then show ?thesis
      unfolding rtcan_sja_proc_regs_def using False po(1,2) by simp
  qed
qed (simp add: rtcan_sja_proc_regs_def)

text \<open>
  The dump of an MSCAN does not: the block of registers is printed to its end, so a caller that gives room for 200
  bytes gets more.
\<close>

lemma print_overrun: "length (po_buf po) \<le> po_len po + length line \<Longrightarrow> length line < 80 \<Longrightarrow> rtcan_proc_print count 80 line po = Inl OutOfBounds"
  by (simp add: rtcan_proc_print_def snprintf_at_def)

lemma print_fits:
  "po_len po + length line < length (po_buf po) \<Longrightarrow> length line < 80 \<Longrightarrow>
    \<exists>ok po'. rtcan_proc_print count 80 line po = Inr (ok, po') \<and> length (po_buf po') = length (po_buf po) \<and> po_len po' = po_len po + length line \<and>
      (ok \<longleftrightarrow> po_len po' + 80 \<le> count)"
  by (auto simp: rtcan_proc_print_def snprintf_at_def Let_def)

lemma print_block_overrun:
  assumes "\<forall>l\<in>set ls. length l < 80" and "po_len po \<le> length (po_buf po)" and "length (po_buf po) < po_len po + sum_list (map length ls)"
  shows "print_block count ls po = Inl OutOfBounds"
  using assms
proof (induction ls arbitrary: po)
  case (Cons l ls)
  show ?case
  proof (cases "po_len po + length l < length (po_buf po)")
    case True
    then obtain ok po1 where "rtcan_proc_print count 80 l po = Inr (ok, po1)" "length (po_buf po1) = length (po_buf po)" "po_len po1 = po_len po + length l"
      using print_fits [of po l count] Cons.prems(1) by auto
    then show ?thesis
      using Cons.IH [of po1] Cons.prems True by simp
  next
    case False
    then show ?thesis
      using print_overrun [of po l count] Cons.prems(1) by simp
  qed
qed simp

lemma length_hex2: "n < 256 \<Longrightarrow> length (hex2 n) = 2"
proof -
  assume n: "n < 256"
  then have "length (hex_digits n) \<le> 2"
    using hex_digits.simps [of n] hex_digits.simps [of "n div 16"] by (auto split: if_splits)
  then show "length (hex2 n) = 2"
    by (simp add: hex2_def)
qed

lemma length_hex2_u8 [simp]: "length (hex2 (unat (v :: u8))) = 2"
  using unsigned_less [of v, where ?'a = nat] by (simp add: length_hex2)

lemma length_reg_line: "r \<in> set mscan_reg_names \<Longrightarrow> length (mscan_reg_line regs r) = 14"
  by (auto simp: mscan_reg_line_def mscan_reg_names_def NL_def)

theorem mscan_dump_overruns:
  assumes "length addr = 10" and "regs ''canctl0'' = 0" and "regs ''canctl1'' = 0" and "length buf = 200"
  shows "rtcan_mscan_proc_regs addr regs port buf 200 = Inl OutOfBounds"
proof -
  let ?l = "[''MSCAN registers at '' @ addr @ NL, canctl0_line (regs ''canctl0''), canctl1_line (regs ''canctl1'')]"
  have len: "length (''MSCAN registers at '' @ addr @ NL) = 30" "length (canctl0_line 0) = 14" "length (canctl1_line 0) = 14"
    using assms(1) length_hex2 [of 0] by (simp_all add: canctl0_line_def canctl1_line_def flag_names_def NL_def split_def)
  obtain po1 where 1: "rtcan_proc_print 200 80 (''MSCAN registers at '' @ addr @ NL) \<lparr>po_buf = buf, po_len = 0\<rparr> = Inr (True, po1)"
      "length (po_buf po1) = 200" "po_len po1 = 30"
    using print_fits [of "\<lparr>po_buf = buf, po_len = 0\<rparr>" "''MSCAN registers at '' @ addr @ NL" 200] assms(4) unfolding len by auto
  obtain po2 where 2: "rtcan_proc_print 200 80 (canctl0_line 0) po1 = Inr (True, po2)" "length (po_buf po2) = 200" "po_len po2 = 44"
    using print_fits [of po1 "canctl0_line 0" 200] 1 unfolding len by auto
  obtain po3 where 3: "rtcan_proc_print 200 80 (canctl1_line 0) po2 = Inr (True, po3)" "length (po_buf po3) = 200" "po_len po3 = 58"
    using print_fits [of po2 "canctl1_line 0" 200] 2 unfolding len by auto
  have "sum_list (map length (map (mscan_reg_line regs) mscan_reg_names)) = sum_list (map (\<lambda>_. 14) mscan_reg_names)"
    using length_reg_line by (simp cong: map_cong)
  also have "\<dots> = 392"
    by (simp add: mscan_reg_names_def)
  finally have "print_block 200 (map (mscan_reg_line regs) mscan_reg_names) po3 = Inl OutOfBounds"
    using 3 length_reg_line by (intro print_block_overrun) auto
  then show ?thesis
    unfolding rtcan_mscan_proc_regs_def using 1(1) 2(1) 3(1) assms(2,3) by simp
qed

end
