(* ===== verification/Ser_Uart.thy ===== *)
theory Ser_Uart
  imports Rtdm_Sync Ring
begin

text \<open>
  The 16550A serial driver (\<open>drivers/serial/16550A.c\<close>, profile \<open>rtserial.h\<close>). The context of an open device
  is the record \<open>rt_16550_context\<close>; the UART behind the port accesses is an argument: reading a register
  returns a byte and may change the state of the chip, writing one changes it. Every section between
  taking and releasing the lock of the context is one atomic step; what interrupts and other callers
  do in between is an argument of the operations that release the lock.
\<close>

section \<open>Profile and registers\<close>

definition RTSER_DEF_BAUD :: u32 where "RTSER_DEF_BAUD = 9600"
definition RTSER_NO_PARITY :: u32 where "RTSER_NO_PARITY = 0x0"
definition RTSER_8_BITS :: u32 where "RTSER_8_BITS = 0x3"
definition RTSER_1_STOPB :: u32 where "RTSER_1_STOPB = 0x0"
definition RTSER_NO_HAND :: u32 where "RTSER_NO_HAND = 0x0"
definition RTSER_RTSCTS_HAND :: u32 where "RTSER_RTSCTS_HAND = 0x1"
definition RTSER_FIFO_DEPTH_1 :: u32 where "RTSER_FIFO_DEPTH_1 = 0x0"
definition RTSER_RX_TIMESTAMP_HISTORY :: u32 where "RTSER_RX_TIMESTAMP_HISTORY = 0x1"
definition RTSER_EVENT_RXPEND :: u32 where "RTSER_EVENT_RXPEND = 0x1"
definition RTSER_EVENT_ERRPEND :: u32 where "RTSER_EVENT_ERRPEND = 0x2"
definition RTSER_EVENT_MODEMHI :: u32 where "RTSER_EVENT_MODEMHI = 0x4"
definition RTSER_EVENT_MODEMLO :: u32 where "RTSER_EVENT_MODEMLO = 0x8"
definition RTSER_SET_BAUD :: u32 where "RTSER_SET_BAUD = 0x1"
definition RTSER_SET_PARITY :: u32 where "RTSER_SET_PARITY = 0x2"
definition RTSER_SET_DATA_BITS :: u32 where "RTSER_SET_DATA_BITS = 0x4"
definition RTSER_SET_STOP_BITS :: u32 where "RTSER_SET_STOP_BITS = 0x8"
definition RTSER_SET_HANDSHAKE :: u32 where "RTSER_SET_HANDSHAKE = 0x10"
definition RTSER_SET_FIFO_DEPTH :: u32 where "RTSER_SET_FIFO_DEPTH = 0x20"
definition RTSER_SET_TIMEOUT_RX :: u32 where "RTSER_SET_TIMEOUT_RX = 0x100"
definition RTSER_SET_TIMEOUT_TX :: u32 where "RTSER_SET_TIMEOUT_TX = 0x200"
definition RTSER_SET_TIMEOUT_EVENT :: u32 where "RTSER_SET_TIMEOUT_EVENT = 0x400"
definition RTSER_SET_TIMESTAMP_HISTORY :: u32 where "RTSER_SET_TIMESTAMP_HISTORY = 0x800"
definition RTSER_SET_EVENT_MASK :: u32 where "RTSER_SET_EVENT_MASK = 0x1000"
definition RTSER_LSR_DATA :: u32 where "RTSER_LSR_DATA = 0x1"
definition RTSER_LSR_OVERRUN_ERR :: u32 where "RTSER_LSR_OVERRUN_ERR = 0x2"
definition RTSER_LSR_PARITY_ERR :: u32 where "RTSER_LSR_PARITY_ERR = 0x4"
definition RTSER_LSR_FRAMING_ERR :: u32 where "RTSER_LSR_FRAMING_ERR = 0x8"
definition RTSER_LSR_BREAK_IND :: u32 where "RTSER_LSR_BREAK_IND = 0x10"
definition RTSER_SOFT_OVERRUN_ERR :: u32 where "RTSER_SOFT_OVERRUN_ERR = 0x100"
definition RTSER_MCR_DTR :: u32 where "RTSER_MCR_DTR = 0x1"
definition RTSER_MCR_RTS :: u32 where "RTSER_MCR_RTS = 0x2"
definition RTSER_MCR_OUT2 :: u32 where "RTSER_MCR_OUT2 = 0x8"

definition PARITY_MASK :: u32 where "PARITY_MASK = 0x3"
definition DATA_BITS_MASK :: u32 where "DATA_BITS_MASK = 0x3"
definition STOP_BITS_MASK :: u32 where "STOP_BITS_MASK = 0x1"
definition FIFO_MASK :: u32 where "FIFO_MASK = 0xc0"
definition EVENT_MASK :: u32 where "EVENT_MASK = 0xf"
definition LCR_DLAB :: u32 where "LCR_DLAB = 0x80"
definition FCR_FIFO :: u32 where "FCR_FIFO = 0x1"
definition FCR_RESET_RX :: u32 where "FCR_RESET_RX = 0x2"
definition FCR_RESET_TX :: u32 where "FCR_RESET_TX = 0x4"
definition IER_RX :: u32 where "IER_RX = 0x1"
definition IER_TX :: u32 where "IER_TX = 0x2"
definition IER_STAT :: u32 where "IER_STAT = 0x4"
definition IER_MODEM :: u32 where "IER_MODEM = 0x8"
definition IIR_MODEM :: u32 where "IIR_MODEM = 0x0"
definition IIR_PIRQ :: u32 where "IIR_PIRQ = 0x1"
definition IIR_TX :: u32 where "IIR_TX = 0x2"
definition IIR_RX :: u32 where "IIR_RX = 0x4"
definition IIR_STAT :: u32 where "IIR_STAT = 0x6"
definition IIR_MASK :: u32 where "IIR_MASK = 0x7"

lemmas rtser_bits = RTSER_DEF_BAUD_def RTSER_NO_PARITY_def RTSER_8_BITS_def RTSER_1_STOPB_def
  RTSER_NO_HAND_def RTSER_RTSCTS_HAND_def RTSER_FIFO_DEPTH_1_def RTSER_RX_TIMESTAMP_HISTORY_def
  RTSER_EVENT_RXPEND_def RTSER_EVENT_ERRPEND_def RTSER_EVENT_MODEMHI_def RTSER_EVENT_MODEMLO_def
  RTSER_SET_BAUD_def RTSER_SET_PARITY_def RTSER_SET_DATA_BITS_def RTSER_SET_STOP_BITS_def
  RTSER_SET_HANDSHAKE_def RTSER_SET_FIFO_DEPTH_def RTSER_SET_TIMEOUT_RX_def RTSER_SET_TIMEOUT_TX_def
  RTSER_SET_TIMEOUT_EVENT_def RTSER_SET_TIMESTAMP_HISTORY_def RTSER_SET_EVENT_MASK_def
  RTSER_LSR_DATA_def RTSER_LSR_OVERRUN_ERR_def RTSER_LSR_PARITY_ERR_def RTSER_LSR_FRAMING_ERR_def
  RTSER_LSR_BREAK_IND_def RTSER_SOFT_OVERRUN_ERR_def RTSER_MCR_DTR_def RTSER_MCR_RTS_def
  RTSER_MCR_OUT2_def

lemmas uart_bits = PARITY_MASK_def DATA_BITS_MASK_def STOP_BITS_MASK_def FIFO_MASK_def
  EVENT_MASK_def LCR_DLAB_def FCR_FIFO_def FCR_RESET_RX_def FCR_RESET_TX_def IER_RX_def IER_TX_def
  IER_STAT_def IER_MODEM_def IIR_MODEM_def IIR_PIRQ_def IIR_TX_def IIR_RX_def IIR_STAT_def
  IIR_MASK_def

definition MAX_DEVICES :: nat where "MAX_DEVICES = 8"
definition IN_BUFFER_SIZE :: nat where "IN_BUFFER_SIZE = 4096"
definition OUT_BUFFER_SIZE :: nat where "OUT_BUFFER_SIZE = 4096"
definition DEFAULT_BAUD_BASE :: u32 where "DEFAULT_BAUD_BASE = 115200"
definition DEFAULT_TX_FIFO :: nat where "DEFAULT_TX_FIFO = 16"
definition RTDM_PURGE_RX_BUFFER :: u32 where "RTDM_PURGE_RX_BUFFER = 1"
definition RTDM_PURGE_TX_BUFFER :: u32 where "RTDM_PURGE_TX_BUFFER = 2"

text \<open>Register offsets; some share an address.\<close>

definition RHR :: nat where "RHR = 0"
definition THR :: nat where "THR = 0"
definition DLL :: nat where "DLL = 0"
definition IER :: nat where "IER = 1"
definition DLM :: nat where "DLM = 1"
definition IIR :: nat where "IIR = 2"
definition FCR :: nat where "FCR = 2"
definition LCR :: nat where "LCR = 3"
definition MCR :: nat where "MCR = 4"
definition LSR :: nat where "LSR = 5"
definition MSR :: nat where "MSR = 6"

lemmas uart_regs = RHR_def THR_def DLL_def IER_def DLM_def IIR_def FCR_def LCR_def MCR_def LSR_def MSR_def

definition testbits :: "u32 \<Rightarrow> u32 \<Rightarrow> bool" where "testbits flags m = (flags AND m \<noteq> 0)"

text \<open>
  \<open>size_t\<close> has 64 bits: the counters \<open>in_npend\<close> and \<open>out_npend\<close> are natural numbers below \<open>2 ^ 64\<close> whose
  arithmetic wraps; \<open>as_int\<close> is the conversion to \<open>int\<close>.
\<close>

definition size_sub :: "nat \<Rightarrow> nat \<Rightarrow> nat" where
  "size_sub a b = (if b \<le> a then a - b else a + 2 ^ 64 - b)"

definition as_int :: "nat \<Rightarrow> int" where "as_int n = sint (of_nat n :: u32)"

record rtser_config =
  config_mask :: u32
  cfg_baud_rate :: u32
  cfg_parity :: u32
  cfg_data_bits :: u32
  cfg_stop_bits :: u32
  cfg_handshake :: u32
  cfg_fifo_depth :: u32
  cfg_rx_timeout :: int
  cfg_tx_timeout :: int
  cfg_event_timeout :: int
  cfg_timestamp_history :: u32
  cfg_event_mask :: u32

definition default_config :: rtser_config where
  "default_config = \<lparr>config_mask = 0xFFFF, cfg_baud_rate = RTSER_DEF_BAUD, cfg_parity = RTSER_NO_PARITY,
     cfg_data_bits = RTSER_8_BITS, cfg_stop_bits = RTSER_1_STOPB, cfg_handshake = RTSER_NO_HAND,
     cfg_fifo_depth = RTSER_FIFO_DEPTH_1, cfg_rx_timeout = RTDM_TIMEOUT_INFINITE, cfg_tx_timeout = RTDM_TIMEOUT_INFINITE,
     cfg_event_timeout = RTDM_TIMEOUT_INFINITE, cfg_timestamp_history = 0, cfg_event_mask = 0\<rparr>"

record rtser_status =
  line_status :: u32
  modem_status :: u32

record rtser_event =
  rev_events :: u32
  rev_rx_pending :: nat
  rev_last_timestamp :: u64
  rev_rxpend_timestamp :: u64

text \<open>A port: access to its chip, and the module parameters \<open>baud_base\<close> and \<open>tx_fifo\<close> for it.\<close>

record 'h uart_port =
  inb :: "nat \<Rightarrow> 'h \<Rightarrow> u8 \<times> 'h"
  outb :: "u8 \<Rightarrow> nat \<Rightarrow> 'h \<Rightarrow> 'h"
  baud_base :: u32
  tx_fifo :: nat

text \<open>\<open>ser_hw\<close> is the state of the chip; \<open>'m\<close> is the kernel's \<open>rt_mutex\<close>.\<close>

record ('h, 'm) rt_16550_context =
  ser_config :: rtser_config
  in_head :: nat
  in_tail :: nat
  in_npend :: nat
  in_nwait :: nat
  in_event :: rtdm_event
  in_buf :: "u8 list"
  in_lock :: bool
  in_history :: "u64 list option"
  out_head :: nat
  out_tail :: nat
  out_npend :: nat
  out_event :: rtdm_event
  out_buf :: "u8 list"
  out_lock :: "'m rtdm_mutex"
  last_timestamp :: u64
  ioc_events :: u32
  ioc_event :: rtdm_event
  ioc_event_lock :: bool
  ier_status :: u32
  mcr_status :: u32
  ser_status :: u32
  saved_errors :: u32
  ser_hw :: 'h

definition inp :: "'h uart_port \<Rightarrow> nat \<Rightarrow> ('h, 'm) rt_16550_context \<Rightarrow> u32 \<times> ('h, 'm) rt_16550_context" where
  "inp port r ctx = (case inb port r (ser_hw ctx) of (v, h) \<Rightarrow> (ucast v, ctx\<lparr>ser_hw := h\<rparr>))"

definition outp :: "'h uart_port \<Rightarrow> u32 \<Rightarrow> nat \<Rightarrow> ('h, 'm) rt_16550_context \<Rightarrow> ('h, 'm) rt_16550_context" where
  "outp port v r ctx = ctx\<lparr>ser_hw := outb port (ucast v) r (ser_hw ctx)\<rparr>"

section \<open>Interrupts\<close>

text \<open>One character: its place in the ring, its timestamp, and the line status after it.\<close>

definition rx_char ::
    "'h uart_port \<Rightarrow> u64 \<Rightarrow> u32 \<Rightarrow> ('h, 'm) rt_16550_context \<Rightarrow> u32 \<times> ('h, 'm) rt_16550_context" where
  "rx_char port timestamp lsr ctx =
     (let (c, ctx1) = inp port RHR ctx;
          tail = in_tail ctx1;
          ctx2 = ctx1\<lparr>in_buf := (in_buf ctx1)[tail := ucast c],
                       in_history := map_option (\<lambda>h. h[tail := timestamp]) (in_history ctx1),
                       in_tail := (tail + 1) AND (IN_BUFFER_SIZE - 1)\<rparr>;
          n = (in_npend ctx2 + 1) mod 2 ^ 64;
          (lsr1, ctx3) = (if n > IN_BUFFER_SIZE then (lsr OR RTSER_SOFT_OVERRUN_ERR, ctx2)
                          else (lsr, ctx2\<lparr>in_npend := n\<rparr>));
          (l, ctx4) = inp port LSR ctx3
      in ((lsr1 AND NOT RTSER_LSR_DATA) OR
          (l AND (RTSER_LSR_DATA OR RTSER_LSR_OVERRUN_ERR OR RTSER_LSR_PARITY_ERR OR RTSER_LSR_FRAMING_ERR
                  OR RTSER_LSR_BREAK_IND)), ctx4))"

text \<open>The loop over the received characters; \<open>fuel\<close> bounds their number.\<close>

fun rx_loop ::
    "'h uart_port \<Rightarrow> nat \<Rightarrow> u64 \<Rightarrow> nat \<Rightarrow> u32 \<Rightarrow> ('h, 'm) rt_16550_context
      \<Rightarrow> (nat \<times> u32 \<times> ('h, 'm) rt_16550_context) kres" where
  "rx_loop port 0 timestamp rbytes lsr ctx = Inl Diverges"
| "rx_loop port (Suc fuel) timestamp rbytes lsr ctx =
     (case rx_char port timestamp lsr ctx of
        (lsr', ctx') \<Rightarrow>
          if testbits lsr' RTSER_LSR_DATA then rx_loop port fuel timestamp (rbytes + 1) lsr' ctx'
          else Inr (rbytes + 1, lsr', ctx'))"

definition rt_16550_rx_interrupt ::
    "'h uart_port \<Rightarrow> nat \<Rightarrow> u64 \<Rightarrow> ('h, 'm) rt_16550_context \<Rightarrow> (nat \<times> ('h, 'm) rt_16550_context) kres" where
  "rt_16550_rx_interrupt port fuel timestamp ctx =
     kbind (rx_loop port fuel timestamp 0 0 ctx) (\<lambda>(rbytes, lsr, ctx').
     Inr (rbytes, ctx'\<lparr>ser_status := ser_status ctx' OR lsr\<rparr>))"

fun tx_loop :: "'h uart_port \<Rightarrow> nat \<Rightarrow> ('h, 'm) rt_16550_context \<Rightarrow> ('h, 'm) rt_16550_context" where
  "tx_loop port 0 ctx = ctx"
| "tx_loop port (Suc count) ctx =
     (if out_npend ctx > 0 then
        let c = out_buf ctx ! out_head ctx;
            ctx1 = outp port (ucast c) THR ctx
        in tx_loop port count (ctx1\<lparr>out_head := (out_head ctx1 + 1) AND (OUT_BUFFER_SIZE - 1),
                                     out_npend := out_npend ctx1 - 1\<rparr>)
      else ctx)"

definition rt_16550_tx_interrupt :: "'h uart_port \<Rightarrow> ('h, 'm) rt_16550_context \<Rightarrow> ('h, 'm) rt_16550_context" where
  "rt_16550_tx_interrupt port ctx = tx_loop port (tx_fifo port) ctx"

definition rt_16550_stat_interrupt :: "'h uart_port \<Rightarrow> ('h, 'm) rt_16550_context \<Rightarrow> ('h, 'm) rt_16550_context" where
  "rt_16550_stat_interrupt port ctx =
     (case inp port LSR ctx of
        (l, ctx1) \<Rightarrow> ctx1\<lparr>ser_status := ser_status ctx1 OR
          (l AND (RTSER_LSR_OVERRUN_ERR OR RTSER_LSR_PARITY_ERR OR RTSER_LSR_FRAMING_ERR OR RTSER_LSR_BREAK_IND))\<rparr>)"

definition modem_events :: "u32 \<Rightarrow> u32" where
  "modem_events modem =
     (if modem AND push_bit 4 modem \<noteq> 0 then RTSER_EVENT_MODEMHI else 0)
     OR (if (modem XOR 0xF0) AND push_bit 4 modem \<noteq> 0 then RTSER_EVENT_MODEMLO else 0)"

text \<open>One turn of the handler's loop: the number of characters received, the events, the context.\<close>

definition irq_turn ::
    "'h uart_port \<Rightarrow> nat \<Rightarrow> u64 \<Rightarrow> u32 \<Rightarrow> ('h, 'm) rt_16550_context \<Rightarrow> (nat \<times> u32 \<times> ('h, 'm) rt_16550_context) kres" where
  "irq_turn port fuel timestamp iir ctx =
     (if iir = IIR_RX then
        kbind (rt_16550_rx_interrupt port fuel timestamp ctx) (\<lambda>(n, ctx1). Inr (n, RTSER_EVENT_RXPEND, ctx1))
      else if iir = IIR_STAT then Inr (0, 0, rt_16550_stat_interrupt port ctx)
      else if iir = IIR_TX then Inr (0, 0, rt_16550_tx_interrupt port ctx)
      else if iir = IIR_MODEM then (case inp port MSR ctx of (m, ctx1) \<Rightarrow> Inr (0, modem_events m, ctx1))
      else Inr (0, 0, ctx))"

fun irq_loop ::
    "'h uart_port \<Rightarrow> nat \<Rightarrow> u64 \<Rightarrow> bool \<Rightarrow> nat \<Rightarrow> u32 \<Rightarrow> ('h, 'm) rt_16550_context
      \<Rightarrow> (bool \<times> nat \<times> u32 \<times> ('h, 'm) rt_16550_context) kres" where
  "irq_loop port 0 timestamp handled rbytes events ctx = Inl Diverges"
| "irq_loop port (Suc fuel) timestamp handled rbytes events ctx =
     (case inp port IIR ctx of
        (v, ctx1) \<Rightarrow>
          let iir = v AND IIR_MASK in
          if testbits iir IIR_PIRQ then Inr (handled, rbytes, events, ctx1)
          else kbind (irq_turn port fuel timestamp iir ctx1) (\<lambda>(n, ev, ctx2).
            irq_loop port fuel timestamp True (rbytes + n) (events OR ev) ctx2))"

text \<open>The rest of the handler: waking the reader, the events, the transmitter interrupt.\<close>

definition wake_reader :: "nat \<Rightarrow> ('h, 'm) rt_16550_context \<Rightarrow> ('h, 'm) rt_16550_context" where
  "wake_reader rbytes ctx =
     (if in_nwait ctx > 0 then
        if in_nwait ctx \<le> rbytes \<or> ser_status ctx \<noteq> 0
        then ctx\<lparr>in_nwait := 0, in_event := rtdm_event_signal (in_event ctx)\<rparr>
        else ctx\<lparr>in_nwait := in_nwait ctx - rbytes\<rparr>
      else ctx)"

definition post_events :: "u64 \<Rightarrow> u32 \<Rightarrow> ('h, 'm) rt_16550_context \<Rightarrow> ('h, 'm) rt_16550_context" where
  "post_events timestamp events ctx =
     (let (events1, ctx1) = (if ser_status ctx \<noteq> 0
            then (events OR RTSER_EVENT_ERRPEND, ctx\<lparr>ier_status := ier_status ctx AND NOT IER_STAT\<rparr>) else (events, ctx))
      in if testbits events1 (cfg_event_mask (ser_config ctx1)) then
           let old_events = ioc_events ctx1;
               ctx2 = ctx1\<lparr>last_timestamp := timestamp, ioc_events := events1\<rparr>
           in if old_events = 0 then ctx2\<lparr>ioc_event := rtdm_event_signal (ioc_event ctx2)\<rparr> else ctx2
         else ctx1)"

definition irq_finish :: "'h uart_port \<Rightarrow> ('h, 'm) rt_16550_context \<Rightarrow> ('h, 'm) rt_16550_context" where
  "irq_finish port ctx =
     (let ctx1 = (if testbits (ier_status ctx) IER_TX \<and> out_npend ctx = 0
            then ctx\<lparr>ier_status := ier_status ctx AND NOT IER_TX, out_event := rtdm_event_signal (out_event ctx)\<rparr> else ctx)
      in outp port (ier_status ctx1) IER ctx1)"

definition rt_16550_interrupt ::
    "'h uart_port \<Rightarrow> nat \<Rightarrow> u64 \<Rightarrow> ('h, 'm) rt_16550_context \<Rightarrow> (bool \<times> ('h, 'm) rt_16550_context) kres" where
  "rt_16550_interrupt port fuel timestamp ctx =
     kbind (irq_loop port fuel timestamp False 0 0 ctx) (\<lambda>(handled, rbytes, events, ctx1).
     Inr (handled, irq_finish port (post_events timestamp events (wake_reader rbytes ctx1))))"

section \<open>Configuration\<close>

text \<open>The sections of \<open>rt_16550_set_config\<close>, each of them atomic.\<close>

definition baud_divisor :: "u32 \<Rightarrow> u32 \<Rightarrow> u32" where
  "baud_divisor base rate = (base + signed_drop_bit 1 rate) div rate"

definition set_baud ::
    "'h uart_port \<Rightarrow> rtser_config \<Rightarrow> ('h, 'm) rt_16550_context \<Rightarrow> ('h, 'm) rt_16550_context kres" where
  "set_baud port config ctx =
     (if testbits (config_mask config) RTSER_SET_BAUD then
        if cfg_baud_rate config = 0 then Inl DivByZero
        else
          let ctx1 = ctx\<lparr>ser_config := (ser_config ctx)\<lparr>cfg_baud_rate := cfg_baud_rate config\<rparr>\<rparr>;
              baud_div = baud_divisor (baud_base port) (cfg_baud_rate config)
          in Inr (outp port (signed_drop_bit 8 baud_div) DLM (outp port (baud_div AND 0xff) DLL (outp port LCR_DLAB LCR ctx1)))
      else Inr ctx)"

definition set_framing ::
    "'h uart_port \<Rightarrow> rtser_config \<Rightarrow> ('h, 'm) rt_16550_context \<Rightarrow> ('h, 'm) rt_16550_context" where
  "set_framing port config ctx =
     (let m = config_mask config;
          c1 = (if testbits m RTSER_SET_PARITY then (ser_config ctx)\<lparr>cfg_parity := cfg_parity config AND PARITY_MASK\<rparr>
                else ser_config ctx);
          c2 = (if testbits m RTSER_SET_DATA_BITS then c1\<lparr>cfg_data_bits := cfg_data_bits config AND DATA_BITS_MASK\<rparr> else c1);
          c3 = (if testbits m RTSER_SET_STOP_BITS then c2\<lparr>cfg_stop_bits := cfg_stop_bits config AND STOP_BITS_MASK\<rparr> else c2);
          ctx1 = ctx\<lparr>ser_config := c3\<rparr>
      in if testbits m (RTSER_SET_PARITY OR RTSER_SET_DATA_BITS OR RTSER_SET_STOP_BITS OR RTSER_SET_BAUD) then
           let ctx2 = outp port (push_bit 3 (cfg_parity c3) OR push_bit 2 (cfg_stop_bits c3) OR cfg_data_bits c3) LCR ctx1
           in ctx2\<lparr>ser_status := 0, ioc_events := ioc_events ctx2 AND NOT RTSER_EVENT_ERRPEND\<rparr>
         else ctx1)"

definition set_fifo ::
    "'h uart_port \<Rightarrow> rtser_config \<Rightarrow> ('h, 'm) rt_16550_context \<Rightarrow> ('h, 'm) rt_16550_context" where
  "set_fifo port config ctx =
     (if testbits (config_mask config) RTSER_SET_FIFO_DEPTH then
        let d = cfg_fifo_depth config AND FIFO_MASK;
            ctx1 = ctx\<lparr>ser_config := (ser_config ctx)\<lparr>cfg_fifo_depth := d\<rparr>\<rparr>
        in outp port (FCR_FIFO OR d) FCR (outp port (FCR_FIFO OR FCR_RESET_RX OR FCR_RESET_TX) FCR ctx1)
      else ctx)"

definition set_timeouts :: "rtser_config \<Rightarrow> ('h, 'm) rt_16550_context \<Rightarrow> ('h, 'm) rt_16550_context" where
  "set_timeouts config ctx =
     (let m = config_mask config; c = ser_config ctx;
          c1 = (if testbits m RTSER_SET_TIMEOUT_RX then c\<lparr>cfg_rx_timeout := cfg_rx_timeout config\<rparr> else c);
          c2 = (if testbits m RTSER_SET_TIMEOUT_TX then c1\<lparr>cfg_tx_timeout := cfg_tx_timeout config\<rparr> else c1);
          c3 = (if testbits m RTSER_SET_TIMEOUT_EVENT then c2\<lparr>cfg_event_timeout := cfg_event_timeout config\<rparr> else c2)
      in ctx\<lparr>ser_config := c3\<rparr>)"

text \<open>\<open>hist\<close> is \<open>*in_history_ptr\<close>: a buffer for the timestamps, or null.\<close>

definition set_history ::
    "rtser_config \<Rightarrow> u64 list option \<Rightarrow> ('h, 'm) rt_16550_context \<Rightarrow> cret \<times> u64 list option \<times> ('h, 'm) rt_16550_context" where
  "set_history config hist ctx =
     (if testbits (config_mask config) RTSER_SET_TIMESTAMP_HISTORY then
        if testbits (cfg_timestamp_history config) RTSER_RX_TIMESTAMP_HISTORY then
          if in_history ctx = None then
            (if hist = None then Inl ENOMEM else Inr 0, None, ctx\<lparr>in_history := hist\<rparr>)
          else (Inr 0, hist, ctx)
        else (Inr 0, in_history ctx, ctx\<lparr>in_history := None\<rparr>)
      else (Inr 0, hist, ctx))"

definition set_event_mask ::
    "'h uart_port \<Rightarrow> rtser_config \<Rightarrow> ('h, 'm) rt_16550_context \<Rightarrow> ('h, 'm) rt_16550_context" where
  "set_event_mask port config ctx =
     (if testbits (config_mask config) RTSER_SET_EVENT_MASK then
        let em = cfg_event_mask config;
            ev1 = (if testbits em RTSER_EVENT_RXPEND \<and> in_npend ctx > 0 then RTSER_EVENT_RXPEND else 0);
            ev2 = (if testbits em RTSER_EVENT_ERRPEND \<and> ser_status ctx \<noteq> 0 then ev1 OR RTSER_EVENT_ERRPEND else ev1);
            ier = (if testbits em (RTSER_EVENT_MODEMHI OR RTSER_EVENT_MODEMLO) then ier_status ctx OR IER_TX
                   else ier_status ctx AND NOT IER_TX);
            ctx1 = ctx\<lparr>ser_config := (ser_config ctx)\<lparr>cfg_event_mask := em AND EVENT_MASK\<rparr>,
                        ioc_events := ev2, ier_status := ier\<rparr>
        in outp port ier IER ctx1
      else ctx)"

definition set_handshake ::
    "'h uart_port \<Rightarrow> rtser_config \<Rightarrow> ('h, 'm) rt_16550_context \<Rightarrow> ('h, 'm) rt_16550_context" where
  "set_handshake port config ctx =
     (if testbits (config_mask config) RTSER_SET_HANDSHAKE then
        let m = RTSER_MCR_DTR OR RTSER_MCR_RTS OR RTSER_MCR_OUT2;
            ctx1 = ctx\<lparr>ser_config := (ser_config ctx)\<lparr>cfg_handshake := cfg_handshake config\<rparr>, mcr_status := m\<rparr>
        in outp port m MCR ctx1
      else ctx)"

text \<open>
  The whole function; \<open>env\<close> is what happens between its sections, where the lock is free.
\<close>

definition rt_16550_set_config ::
    "'h uart_port \<Rightarrow> (nat \<Rightarrow> ('h, 'm) rt_16550_context \<Rightarrow> ('h, 'm) rt_16550_context) \<Rightarrow> rtser_config \<Rightarrow> u64 list option
      \<Rightarrow> ('h, 'm) rt_16550_context \<Rightarrow> (cret \<times> u64 list option \<times> ('h, 'm) rt_16550_context) kres" where
  "rt_16550_set_config port env config hist ctx =
     kbind (set_baud port config ctx) (\<lambda>ctx1.
     let ctx2 = set_timeouts config (env 0 (set_fifo port config (set_framing port config ctx1)));
         (err, hist', ctx3) = set_history config hist (env 1 ctx2);
         ctx4 = set_event_mask port config (env 2 ctx3);
         ctx5 = set_handshake port config (env 3 ctx4)
     in Inr (err, hist', ctx5))"

section \<open>Opening and closing\<close>

definition rt_16550_cleanup_ctx ::
    "'m rt_mutex_ops \<Rightarrow> ('h, 'm) rt_16550_context \<Rightarrow> ('h, 'm) rt_16550_context" where
  "rt_16550_cleanup_ctx mops ctx =
     ctx\<lparr>in_event := rtdm_event_destroy (in_event ctx), out_event := rtdm_event_destroy (out_event ctx),
         ioc_event := rtdm_event_destroy (ioc_event ctx), out_lock := rtdm_mutex_destroy mops (out_lock ctx)\<rparr>"

text \<open>\<open>dummy\<close> is the uninitialised pointer passed for the history, \<open>irq\<close> the result of \<open>rtdm_irq_request\<close>.\<close>

definition rt_16550_open ::
    "'h uart_port \<Rightarrow> 'm rt_mutex_ops \<Rightarrow> (nat \<Rightarrow> ('h, 'm) rt_16550_context \<Rightarrow> ('h, 'm) rt_16550_context) \<Rightarrow> u64 list option \<Rightarrow> cret
      \<Rightarrow> ('h, 'm) rt_16550_context \<Rightarrow> (cret \<times> ('h, 'm) rt_16550_context) kres" where
  "rt_16550_open port mops env dummy irq ctx =
     (let ctx1 = ctx\<lparr>in_event := rtdm_event_init (in_event ctx) False, out_event := rtdm_event_init (out_event ctx) False,
            ioc_event := rtdm_event_init (ioc_event ctx) False, out_lock := rtdm_mutex_init mops (out_lock ctx),
            in_head := 0, in_tail := 0, in_npend := 0, in_nwait := 0, in_lock := False, in_history := None,
            out_head := 0, out_tail := 0, out_npend := 0,
            ioc_events := 0, ioc_event_lock := False, ser_status := 0, saved_errors := 0\<rparr>
      in kbind (rt_16550_set_config port env default_config dummy ctx1) (\<lambda>(_, _, ctx2).
         if irq \<noteq> Inr 0 then Inr (irq, rt_16550_cleanup_ctx mops (outp port 0 MCR ctx2))
         else Inr (Inr 0, outp port IER_RX IER (ctx2\<lparr>ier_status := IER_RX\<rparr>))))"

text \<open>Reading out the chip: the bytes read are dropped.\<close>

fun clear_pending :: "'h uart_port \<Rightarrow> nat list \<Rightarrow> ('h, 'm) rt_16550_context \<Rightarrow> ('h, 'm) rt_16550_context" where
  "clear_pending port [] ctx = ctx"
| "clear_pending port (r # rs) ctx = clear_pending port rs (snd (inp port r ctx))"

definition rt_16550_close ::
    "'h uart_port \<Rightarrow> 'm rt_mutex_ops \<Rightarrow> ('h, 'm) rt_16550_context \<Rightarrow> cret \<times> ('h, 'm) rt_16550_context" where
  "rt_16550_close port mops ctx =
     (let ctx1 = clear_pending port [IIR, LSR, RHR, MSR] (outp port 0 IER (outp port 0 MCR ctx))
      in (Inr 0, rt_16550_cleanup_ctx mops (ctx1\<lparr>in_history := None\<rparr>)))"

section \<open>Device requests\<close>

datatype ser_request = RTSER_RTIOC_GET_CONFIG | RTSER_RTIOC_SET_CONFIG rtser_config | RTSER_RTIOC_GET_STATUS
  | RTSER_RTIOC_GET_CONTROL | RTSER_RTIOC_SET_CONTROL u32 | RTSER_RTIOC_WAIT_EVENT | RTIOC_PURGE u32 | SerUnknown

datatype ser_reply = SerConfig rtser_config | SerStatus rtser_status | SerControl u32 | SerEvent rtser_event | SerNone

text \<open>
  A call: whether it comes from user space, whether its argument can be copied there, whether the
  device was opened in a non-real-time context, whether the allocation of a history succeeds (\<open>mem\<close>
  is the buffer), and what happens while the call sleeps. \<open>rtdm_safe_copy_to_user\<close> and
  \<open>rtdm_safe_copy_from_user\<close> return 1 on a fault, not an error code.
\<close>

record ('h, 'm) ser_call =
  sc_user :: bool
  sc_copy_ok :: bool
  sc_nrt :: bool
  sc_mem :: "u64 list option"
  sc_env :: "nat \<Rightarrow> ('h, 'm) rt_16550_context \<Rightarrow> ('h, 'm) rt_16550_context"
  sc_sleep :: "(('h, 'm) rt_16550_context wakeup \<times> ('h, 'm) rt_16550_context wakeup option) list"

definition copy_result :: "('h, 'm) ser_call \<Rightarrow> cret" where
  "copy_result call = Inr (if sc_user call \<and> \<not> sc_copy_ok call then 1 else 0)"

definition ser_answer ::
    "('h, 'm) ser_call \<Rightarrow> ser_reply \<Rightarrow> ('h, 'm) rt_16550_context \<Rightarrow> cret \<times> ser_reply \<times> ('h, 'm) rt_16550_context" where
  "ser_answer call reply ctx = (copy_result call, if copy_result call = Inr 0 then reply else SerNone, ctx)"

definition upd_ioc_event ::
    "(rtdm_event \<Rightarrow> rtdm_event) \<Rightarrow> ('h, 'm) rt_16550_context \<Rightarrow> ('h, 'm) rt_16550_context" where
  "upd_ioc_event f ctx = ctx\<lparr>ioc_event := f (ioc_event ctx)\<rparr>"

fun wait_event_loop ::
    "'h uart_port \<Rightarrow> (('h, 'm) rt_16550_context wakeup \<times> ('h, 'm) rt_16550_context wakeup option) list
      \<Rightarrow> ('h, 'm) rt_16550_context \<Rightarrow> (cret \<times> ('h, 'm) rt_16550_context) option" where
  "wait_event_loop port sleeps ctx =
     (if ioc_events ctx \<noteq> 0 then Some (Inr 0, ctx)
      else case sleeps of
        [] \<Rightarrow> None
      | (k, wake) # sleeps' \<Rightarrow>
          let ctx1 = (if testbits (cfg_event_mask (ser_config ctx)) RTSER_EVENT_ERRPEND
                then (let i = ier_status ctx OR IER_STAT in outp port i IER (ctx\<lparr>ier_status := i\<rparr>)) else ctx)
          in case rtdm_event_timedwait_in ioc_event upd_ioc_event ctx1 (cfg_event_timeout (ser_config ctx1)) k wake of
               None \<Rightarrow> None
             | Some (Inl e, ctx2) \<Rightarrow> Some (Inl (if e = EIDRM then EBADF else e), ctx2)
             | Some (Inr _, ctx2) \<Rightarrow> wait_event_loop port sleeps' ctx2)"

declare wait_event_loop.simps [simp del]

definition wait_event ::
    "'h uart_port \<Rightarrow> ('h, 'm) ser_call \<Rightarrow> ('h, 'm) rt_16550_context \<Rightarrow> (cret \<times> ser_reply \<times> ('h, 'm) rt_16550_context) option" where
  "wait_event port call ctx =
     (if ioc_event_lock ctx then Some (Inl EBUSY, SerNone, ctx)
      else case wait_event_loop port (sc_sleep call) (ctx\<lparr>ioc_event_lock := True\<rparr>) of
        None \<Rightarrow> None
      | Some (Inl e, ctx1) \<Rightarrow> Some (Inl e, SerNone, ctx1\<lparr>ioc_event_lock := False\<rparr>)
      | Some (Inr _, ctx1) \<Rightarrow>
          let ev = \<lparr>rev_events = ioc_events ctx1, rev_rx_pending = in_npend ctx1, rev_last_timestamp = last_timestamp ctx1,
                rev_rxpend_timestamp = (case in_history ctx1 of Some h \<Rightarrow> h ! in_head ctx1 | None \<Rightarrow> 0)\<rparr>;
              ctx2 = ctx1\<lparr>ioc_events := ioc_events ctx1 AND NOT (RTSER_EVENT_MODEMHI OR RTSER_EVENT_MODEMLO)\<rparr>
          in Some (ser_answer call (SerEvent ev) (ctx2\<lparr>ioc_event_lock := False\<rparr>)))"

definition purge :: "'h uart_port \<Rightarrow> u32 \<Rightarrow> ('h, 'm) rt_16550_context \<Rightarrow> ('h, 'm) rt_16550_context" where
  "purge port arg ctx =
     (let (fcr1, ctx1) = (if arg AND RTDM_PURGE_RX_BUFFER \<noteq> 0
            then (FCR_FIFO OR FCR_RESET_RX,
                  snd (inp port RHR (ctx\<lparr>in_head := 0, in_tail := 0, in_npend := 0, ser_status := 0\<rparr>)))
            else (0, ctx));
          (fcr2, ctx2) = (if arg AND RTDM_PURGE_TX_BUFFER \<noteq> 0
            then (fcr1 OR FCR_FIFO OR FCR_RESET_TX, ctx1\<lparr>out_head := 0, out_tail := 0, out_npend := 0\<rparr>) else (fcr1, ctx1))
      in if fcr2 \<noteq> 0 then outp port (FCR_FIFO OR cfg_fifo_depth (ser_config ctx2)) FCR (outp port fcr2 FCR ctx2) else ctx2)"

definition get_status ::
    "'h uart_port \<Rightarrow> ('h, 'm) rt_16550_context \<Rightarrow> rtser_status \<times> ('h, 'm) rt_16550_context" where
  "get_status port ctx =
     (let st = saved_errors ctx OR ser_status ctx;
          ctx1 = ctx\<lparr>ser_status := 0, saved_errors := 0, ioc_events := ioc_events ctx AND NOT RTSER_EVENT_ERRPEND\<rparr>;
          (l, ctx2) = inp port LSR ctx1;
          (m, ctx3) = inp port MSR ctx2
      in (\<lparr>line_status = l OR st, modem_status = m\<rparr>, ctx3))"

definition ser_set_config ::
    "'h uart_port \<Rightarrow> ('h, 'm) ser_call \<Rightarrow> rtser_config \<Rightarrow> ('h, 'm) rt_16550_context
      \<Rightarrow> (cret \<times> ser_reply \<times> ('h, 'm) rt_16550_context) kres" where
  "ser_set_config port call config ctx =
     (if copy_result call \<noteq> Inr 0 then Inr (copy_result call, SerNone, ctx)
      else if testbits (config_mask config) RTSER_SET_BAUD \<and> cfg_baud_rate config > baud_base port
        then Inr (Inl EINVAL, SerNone, ctx)
      else
        let hist = testbits (config_mask config) RTSER_SET_TIMESTAMP_HISTORY;
            alloc = testbits (cfg_timestamp_history config) RTSER_RX_TIMESTAMP_HISTORY
        in if hist \<and> sc_nrt call then Inr (Inl EPERM, SerNone, ctx)
           else if hist \<and> alloc \<and> sc_mem call = None then Inr (Inl ENOMEM, SerNone, ctx)
           else kbind (rt_16550_set_config port (sc_env call) config (if hist \<and> alloc then sc_mem call else None) ctx)
             (\<lambda>(_, _, ctx1). Inr (Inr 0, SerNone, ctx1)))"

text \<open>\<open>None\<close>: the call is still asleep.\<close>

definition rt_16550_ioctl ::
    "'h uart_port \<Rightarrow> ('h, 'm) ser_call \<Rightarrow> ser_request \<Rightarrow> ('h, 'm) rt_16550_context
      \<Rightarrow> (cret \<times> ser_reply \<times> ('h, 'm) rt_16550_context) option kres" where
  "rt_16550_ioctl port call req ctx =
     (case req of
        RTSER_RTIOC_GET_CONFIG \<Rightarrow> Inr (Some (ser_answer call (SerConfig (ser_config ctx)) ctx))
      | RTSER_RTIOC_SET_CONFIG config \<Rightarrow> kbind (ser_set_config port call config ctx) (\<lambda>r. Inr (Some r))
      | RTSER_RTIOC_GET_STATUS \<Rightarrow>
          (case get_status port ctx of (st, ctx1) \<Rightarrow> Inr (Some (ser_answer call (SerStatus st) ctx1)))
      | RTSER_RTIOC_GET_CONTROL \<Rightarrow> Inr (Some (ser_answer call (SerControl (mcr_status ctx)) ctx))
      | RTSER_RTIOC_SET_CONTROL v \<Rightarrow> Inr (Some (Inr 0, SerNone, outp port v MCR (ctx\<lparr>mcr_status := v\<rparr>)))
      | RTSER_RTIOC_WAIT_EVENT \<Rightarrow> Inr (wait_event port call ctx)
      | RTIOC_PURGE arg \<Rightarrow> Inr (Some (Inr 0, SerNone, purge port arg ctx))
      | SerUnknown \<Rightarrow> Inr (Some (Inl ENOTTY, SerNone, ctx)))"

section \<open>Reading\<close>

text \<open>
  A caller of \<open>read\<close> or \<open>write\<close>: from user space or not, whether the check of the buffer succeeds, and
  whether a copy of a number of bytes at an offset of the buffer succeeds. A turn of the loops is
  given by what happens while the block is copied, before the call sleeps, and while it sleeps.
\<close>

record ser_user =
  su_user :: bool
  su_ok :: bool
  su_copy :: "nat \<Rightarrow> nat \<Rightarrow> bool"

record 'w ser_turn =
  st_copy :: "'w \<Rightarrow> 'w"
  st_before :: "'w wakeup"
  st_wake :: "'w wakeup option"

definition can_copy :: "ser_user \<Rightarrow> nat \<Rightarrow> nat \<Rightarrow> bool" where
  "can_copy u off n = (su_user u \<longrightarrow> su_copy u off n)"

definition upd_in_event ::
    "(rtdm_event \<Rightarrow> rtdm_event) \<Rightarrow> ('h, 'm) rt_16550_context \<Rightarrow> ('h, 'm) rt_16550_context" where
  "upd_in_event f ctx = ctx\<lparr>in_event := f (in_event ctx)\<rparr>"

text \<open>
  Copying a block out of the input ring at the position taken before: the bytes that reached the
  buffer (behind the \<open>off\<close> ones already there), and whether all of them did.
\<close>

definition read_copy :: "ser_user \<Rightarrow> nat \<Rightarrow> u8 list \<Rightarrow> nat \<Rightarrow> nat \<Rightarrow> u8 list \<times> bool" where
  "read_copy u off buf in_pos block =
     (if in_pos + block > IN_BUFFER_SIZE then
        let first = IN_BUFFER_SIZE - in_pos in
        if \<not> can_copy u off first then ([], False)
        else if \<not> can_copy u (off + first) (block - first) then (take first (drop in_pos buf), False)
        else (take first (drop in_pos buf) @ take (block - first) buf, True)
      else if \<not> can_copy u off block then ([], False)
      else (take block (drop in_pos buf), True))"

text \<open>How a turn ends: the loop goes on, is left, or the whole call returns at once.\<close>

datatype loop_exit = Continue | Break | Return errno

text \<open>
  One turn of the loop: the bytes copied, \<open>ret\<close>, \<open>nonblocking\<close>, and how it ends. \<open>None\<close> is a turn that
  is still asleep.
\<close>

definition read_status :: "('h, 'm) rt_16550_context \<Rightarrow> errno \<times> ('h, 'm) rt_16550_context" where
  "read_status ctx =
     (if testbits (ser_status ctx) RTSER_LSR_BREAK_IND then EPIPE else EIO,
      ctx\<lparr>saved_errors := ser_status ctx AND
            (RTSER_LSR_OVERRUN_ERR OR RTSER_LSR_PARITY_ERR OR RTSER_LSR_FRAMING_ERR OR RTSER_SOFT_OVERRUN_ERR),
          ser_status := 0\<rparr>)"

definition read_take :: "nat \<Rightarrow> ('h, 'm) rt_16550_context \<Rightarrow> ('h, 'm) rt_16550_context" where
  "read_take block ctx =
     (let ctx1 = ctx\<lparr>in_head := (in_head ctx + block) AND (IN_BUFFER_SIZE - 1), in_npend := size_sub (in_npend ctx) block\<rparr>
      in if in_npend ctx1 = 0 then ctx1\<lparr>ioc_events := ioc_events ctx1 AND NOT RTSER_EVENT_RXPEND\<rparr> else ctx1)"

definition read_enable :: "'h uart_port \<Rightarrow> ('h, 'm) rt_16550_context \<Rightarrow> ('h, 'm) rt_16550_context" where
  "read_enable port ctx =
     (if \<not> testbits (ier_status ctx) IER_STAT
      then (let i = ier_status ctx OR IER_STAT in outp port i IER (ctx\<lparr>ier_status := i\<rparr>)) else ctx)"

definition read_turn ::
    "'h uart_port \<Rightarrow> ser_user \<Rightarrow> ('h, 'm) rt_16550_context ser_turn \<Rightarrow> nat \<Rightarrow> nat \<Rightarrow> cret \<Rightarrow> bool \<Rightarrow> ('h, 'm) rt_16550_context
      \<Rightarrow> (loop_exit \<times> u8 list \<times> nat \<times> cret \<times> bool \<times> ('h, 'm) rt_16550_context) option" where
  "read_turn port u turn off nbyte ret nonblocking ctx0 =
     (let ctx = read_enable port ctx0 in
      if ser_status ctx \<noteq> 0 then
        (case read_status ctx of (e, ctx1) \<Rightarrow> Some (Break, [], nbyte, Inl e, nonblocking, ctx1))
      else if as_int (in_npend ctx) > 0 then
        let pending = nat (as_int (in_npend ctx));
            block = (if pending \<le> nbyte then pending else nbyte);
            ctx1 = st_copy turn ctx;
            (bs, ok) = read_copy u off (in_buf ctx1) (in_head ctx) block
        in if \<not> ok then Some (Break, bs, nbyte, Inl EFAULT, nonblocking, ctx1)
           else Some (Continue, bs, nbyte - block, ret, nonblocking, read_take block ctx1)
      else if nonblocking then Some (Break, [], nbyte, ret, nonblocking, ctx)
      else
        let ctx1 = ctx\<lparr>in_nwait := nbyte\<rparr>
        in case rtdm_event_timedwait_in in_event upd_in_event ctx1 (cfg_rx_timeout (ser_config ctx1))
                  (st_before turn) (st_wake turn) of
             None \<Rightarrow> None
           | Some (Inr r, ctx2) \<Rightarrow> Some (Continue, [], nbyte, Inr r, nonblocking, ctx2)
           | Some (Inl e, ctx2) \<Rightarrow>
               if e = EIDRM then Some (Return EBADF, [], nbyte, Inl e, nonblocking, ctx2)
               else if in_npend ctx2 > 0 then Some (Continue, [], nbyte, Inl e, True, ctx2)
               else Some (Break, [], nbyte, Inl e, True, ctx2\<lparr>in_nwait := 0\<rparr>))"

text \<open>\<open>acc\<close> is what the buffer of the caller holds.\<close>

fun read_loop ::
    "'h uart_port \<Rightarrow> ser_user \<Rightarrow> ('h, 'm) rt_16550_context ser_turn list \<Rightarrow> u8 list \<Rightarrow> nat \<Rightarrow> cret \<Rightarrow> bool
      \<Rightarrow> ('h, 'm) rt_16550_context \<Rightarrow> (loop_exit \<times> u8 list \<times> cret \<times> ('h, 'm) rt_16550_context) option" where
  "read_loop port u turns acc nbyte ret nonblocking ctx =
     (if nbyte = 0 then Some (Break, acc, ret, ctx)
      else case turns of
        [] \<Rightarrow> None
      | turn # turns' \<Rightarrow>
          (case read_turn port u turn (length acc) nbyte ret nonblocking ctx of
             None \<Rightarrow> None
           | Some (exit, bs, nbyte', ret', nb', ctx') \<Rightarrow>
               if exit = Continue then read_loop port u turns' (acc @ bs) nbyte' ret' nb' ctx'
               else Some (exit, acc @ bs, ret', ctx')))"

declare read_loop.simps [simp del]

definition soft_error :: "cret \<Rightarrow> bool" where
  "soft_error ret = (ret = Inr 0 \<or> ret = Inl EAGAIN \<or> ret = Inl ETIMEDOUT \<or> ret = Inl EINTR)"

definition rt_16550_read ::
    "'h uart_port \<Rightarrow> ser_user \<Rightarrow> ('h, 'm) rt_16550_context ser_turn list \<Rightarrow> nat \<Rightarrow> ('h, 'm) rt_16550_context
      \<Rightarrow> (cret \<times> u8 list \<times> ('h, 'm) rt_16550_context) option" where
  "rt_16550_read port u turns nbyte ctx =
     (if nbyte = 0 then Some (Inr 0, [], ctx)
      else if su_user u \<and> \<not> su_ok u then Some (Inl EFAULT, [], ctx)
      else if in_lock ctx then Some (Inl EBUSY, [], ctx)
      else
        let nonblocking = (cfg_rx_timeout (ser_config ctx) < 0)
        in case read_loop port u turns [] nbyte (Inl EAGAIN) nonblocking (ctx\<lparr>in_lock := True\<rparr>) of
             None \<Rightarrow> None
           | Some (Return e, bs, ret, ctx1) \<Rightarrow> Some (Inl e, bs, ctx1)
           | Some (_, bs, ret, ctx1) \<Rightarrow>
               Some (if 0 < length bs \<and> soft_error ret then Inr (int (length bs)) else ret, bs, ctx1\<lparr>in_lock := False\<rparr>))"

section \<open>Writing\<close>

definition upd_out_event ::
    "(rtdm_event \<Rightarrow> rtdm_event) \<Rightarrow> ('h, 'm) rt_16550_context \<Rightarrow> ('h, 'm) rt_16550_context" where
  "upd_out_event f ctx = ctx\<lparr>out_event := f (out_event ctx)\<rparr>"

text \<open>
  \<open>src\<close> is the memory of the caller, \<open>off\<close> the number of bytes written so far. A read behind the end of
  \<open>src\<close> is the fault \<open>OutOfBounds\<close>. For a kernel caller the last copy takes \<open>block\<close> bytes, also when the
  block wraps around and only \<open>subblock\<close> are left.
\<close>

definition src_read :: "u8 list \<Rightarrow> nat \<Rightarrow> nat \<Rightarrow> u8 list kres" where
  "src_read src off n = (if off + n > length src then Inl OutOfBounds else Inr (take n (drop off src)))"

definition write_copy ::
    "ser_user \<Rightarrow> u8 list \<Rightarrow> nat \<Rightarrow> u8 list \<Rightarrow> nat \<Rightarrow> nat \<Rightarrow> (nat \<times> u8 list \<times> bool) kres" where
  "write_copy u src off buf out_pos block =
     (let first = (if out_pos + block > OUT_BUFFER_SIZE then OUT_BUFFER_SIZE - out_pos else 0);
          rest = block - first
      in if 0 < first \<and> \<not> can_copy u off first then Inr (0, buf, False)
         else kbind (src_read src off first) (\<lambda>b1.
           let buf1 = memcpy_at buf out_pos b1; pos = (if 0 < first then 0 else out_pos)
           in if \<not> can_copy u (off + first) rest then Inr (first, buf1, False)
              else kbind (src_read src (off + first) (if su_user u then rest else block)) (\<lambda>b2.
                Inr (block, memcpy_at buf1 pos b2, True))))"

definition write_put :: "'h uart_port \<Rightarrow> nat \<Rightarrow> ('h, 'm) rt_16550_context \<Rightarrow> ('h, 'm) rt_16550_context" where
  "write_put port block ctx =
     (let i = ier_status ctx OR IER_TX
      in outp port i IER (ctx\<lparr>out_tail := (out_tail ctx + block) AND (OUT_BUFFER_SIZE - 1),
                              out_npend := out_npend ctx + block, ier_status := i\<rparr>))"

definition write_turn ::
    "'h uart_port \<Rightarrow> ser_user \<Rightarrow> ('h, 'm) rt_16550_context ser_turn \<Rightarrow> u8 list \<Rightarrow> nat \<Rightarrow> nat \<Rightarrow> cret \<Rightarrow> ('h, 'm) rt_16550_context
      \<Rightarrow> (loop_exit \<times> nat \<times> nat \<times> cret \<times> ('h, 'm) rt_16550_context) option kres" where
  "write_turn port u turn src off nbyte ret ctx =
     (let free = OUT_BUFFER_SIZE - out_npend ctx in
      if free > 0 then
        let block = (if nbyte \<le> free then nbyte else free);
            ctx1 = st_copy turn ctx
        in kbind (write_copy u src off (out_buf ctx1) (out_tail ctx) block) (\<lambda>(n, buf, ok).
           let ctx2 = ctx1\<lparr>out_buf := buf\<rparr> in
           Inr (Some (if \<not> ok then (Break, n, nbyte, Inl EFAULT, ctx2)
                      else (Continue, n, nbyte - block, ret, write_put port block ctx2))))
      else
        Inr (case rtdm_event_timedwait_in out_event upd_out_event ctx (cfg_tx_timeout (ser_config ctx))
                    (st_before turn) (st_wake turn) of
               None \<Rightarrow> None
             | Some (Inr r, ctx1) \<Rightarrow> Some (Continue, 0, nbyte, Inr r, ctx1)
             | Some (Inl e, ctx1) \<Rightarrow>
                 if e = EIDRM then Some (Return EBADF, 0, nbyte, Inl e, ctx1)
                 else Some (Break, 0, nbyte, Inl (if e = EWOULDBLOCK then EAGAIN else e), ctx1)))"

fun write_loop ::
    "'h uart_port \<Rightarrow> ser_user \<Rightarrow> ('h, 'm) rt_16550_context ser_turn list \<Rightarrow> u8 list \<Rightarrow> nat \<Rightarrow> nat \<Rightarrow> cret
      \<Rightarrow> ('h, 'm) rt_16550_context \<Rightarrow> (loop_exit \<times> nat \<times> cret \<times> ('h, 'm) rt_16550_context) option kres" where
  "write_loop port u turns src off nbyte ret ctx =
     (if nbyte = 0 then Inr (Some (Break, off, ret, ctx))
      else case turns of
        [] \<Rightarrow> Inr None
      | turn # turns' \<Rightarrow>
          kbind (write_turn port u turn src off nbyte ret ctx) (\<lambda>r.
            case r of
              None \<Rightarrow> Inr None
            | Some (exit, n, nbyte', ret', ctx') \<Rightarrow>
                if exit = Continue then write_loop port u turns' src (off + n) nbyte' ret' ctx'
                else Inr (Some (exit, off + n, ret', ctx'))))"

declare write_loop.simps [simp del]

text \<open>\<open>lockenv\<close> is what happens to the mutex while the call waits for it.\<close>

definition rt_16550_write ::
    "'h uart_port \<Rightarrow> 'm rt_mutex_ops \<Rightarrow> ('m rtdm_mutex \<Rightarrow> 'm rtdm_mutex) \<Rightarrow> ser_user
      \<Rightarrow> ('h, 'm) rt_16550_context ser_turn list \<Rightarrow> u8 list \<Rightarrow> ('h, 'm) rt_16550_context
      \<Rightarrow> (cret \<times> ('h, 'm) rt_16550_context) option kres" where
  "rt_16550_write port mops lockenv u turns src ctx =
     (if src = [] then Inr (Some (Inr 0, ctx))
      else if su_user u \<and> \<not> su_ok u then Inr (Some (Inl EFAULT, ctx))
      else case rtdm_mutex_timedlock mops lockenv (out_lock ctx) (cfg_rx_timeout (ser_config ctx)) of
        (lk, mx) \<Rightarrow>
          let ctx1 = ctx\<lparr>out_lock := mx\<rparr> in
          if lk \<noteq> Inr 0 then Inr (Some (lk, ctx1))
          else kbind (write_loop port u turns src 0 (length src) (Inr 0) ctx1) (\<lambda>r.
            Inr (case r of
                   None \<Rightarrow> None
                 | Some (Return e, n, ret, ctx2) \<Rightarrow> Some (Inl e, ctx2)
                 | Some (_, n, ret, ctx2) \<Rightarrow>
                     Some (if 0 < n \<and> soft_error ret then Inr (int n) else ret,
                           ctx2\<lparr>out_lock := rtdm_mutex_unlock mops (out_lock ctx2)\<rparr>))))"

end
