(* ===== verification/Ser_Stream.thy ===== *)
theory Ser_Stream
  imports Ser_Uart
begin

text \<open>
  The data path of the serial driver as byte streams: the two rings as queues, what the interrupt
  handler appends to the input queue and takes from the output queue, what \<open>read\<close> and \<open>write\<close> move, the
  memory safety of all of it, and what an overrun of the input ring does.
\<close>

section \<open>The rings as queues\<close>

interpretation inr: pow2_ring IN_BUFFER_SIZE
  by unfold_locales (rule exI [of _ 12], simp add: IN_BUFFER_SIZE_def)

interpretation outr: pow2_ring OUT_BUFFER_SIZE
  by unfold_locales (rule exI [of _ 12], simp add: OUT_BUFFER_SIZE_def)

definition in_ok :: "('h, 'm, 'z) rt_16550_context_scheme \<Rightarrow> bool" where
  "in_ok ctx \<longleftrightarrow> length (in_buf ctx) = IN_BUFFER_SIZE \<and> in_head ctx < IN_BUFFER_SIZE \<and> in_npend ctx \<le> IN_BUFFER_SIZE
     \<and> in_tail ctx = (in_head ctx + in_npend ctx) mod IN_BUFFER_SIZE"

definition in_queue :: "('h, 'm, 'z) rt_16550_context_scheme \<Rightarrow> u8 list" where
  "in_queue ctx = ring_read IN_BUFFER_SIZE (in_buf ctx) (in_head ctx) (in_npend ctx)"

definition out_ok :: "('h, 'm, 'z) rt_16550_context_scheme \<Rightarrow> bool" where
  "out_ok ctx \<longleftrightarrow> length (out_buf ctx) = OUT_BUFFER_SIZE \<and> out_head ctx < OUT_BUFFER_SIZE \<and> out_npend ctx \<le> OUT_BUFFER_SIZE
     \<and> out_tail ctx = (out_head ctx + out_npend ctx) mod OUT_BUFFER_SIZE"

definition out_queue :: "('h, 'm, 'z) rt_16550_context_scheme \<Rightarrow> u8 list" where
  "out_queue ctx = ring_read OUT_BUFFER_SIZE (out_buf ctx) (out_head ctx) (out_npend ctx)"

lemma in_advance: "(i + n) AND (IN_BUFFER_SIZE - 1) = (i + n) mod IN_BUFFER_SIZE"
  using inr.advance_mod unfolding ring_advance_def .

lemma out_advance: "(i + n) AND (OUT_BUFFER_SIZE - 1) = (i + n) mod OUT_BUFFER_SIZE"
  using outr.advance_mod unfolding ring_advance_def .

lemma ring_masks:
  "(i + n) AND (IN_BUFFER_SIZE - Suc 0) = (i + n) mod IN_BUFFER_SIZE"
  "(i + n) AND (OUT_BUFFER_SIZE - Suc 0) = (i + n) mod OUT_BUFFER_SIZE"
  using in_advance out_advance by simp_all

lemma ucast_u8 [simp]: "(ucast (ucast (c :: u8) :: u32) :: u8) = c"
  by (rule bit_word_eqI) (simp add: bit_ucast_iff)

lemma in_advance1: "Suc i AND (IN_BUFFER_SIZE - Suc 0) = Suc i mod IN_BUFFER_SIZE"
  using in_advance [of i 1] by simp

lemma out_advance1: "Suc i AND (OUT_BUFFER_SIZE - Suc 0) = Suc i mod OUT_BUFFER_SIZE"
  using out_advance [of i 1] by simp

lemma length_in_queue [simp]: "length (in_queue ctx) = in_npend ctx"
  by (simp add: in_queue_def)

lemma in_queue_empty [simp]: "in_queue ctx = [] \<longleftrightarrow> in_npend ctx = 0"
  using length_0_conv [of "in_queue ctx"] by simp

lemma length_out_queue [simp]: "length (out_queue ctx) = out_npend ctx"
  by (simp add: out_queue_def)

lemma size_small:
  assumes "n \<le> IN_BUFFER_SIZE"
  shows "as_int n = int n" "Suc n mod 18446744073709551616 = Suc n" "k \<le> n \<Longrightarrow> size_sub n k = n - k"
proof -
  have n: "n \<le> 4096" using assms by (simp add: IN_BUFFER_SIZE_def)
  then have "uint (of_nat n :: u32) = int n" by (simp add: unsigned_of_nat take_bit_nat_eq_self)
  moreover have "signed_take_bit 31 (int n) = int n" using n by (intro signed_take_bit_int_eq_self) auto
  ultimately show "as_int n = int n" by (simp add: as_int_def sint_uint)
  show "Suc n mod 18446744073709551616 = Suc n" using n by simp
  show "k \<le> n \<Longrightarrow> size_sub n k = n - k" by (simp add: size_sub_def)
qed

lemma as_int_0 [simp]: "as_int 0 = 0"
  by (simp add: as_int_def)

text \<open>Putting one byte behind the used part.\<close>

lemma ring_put:
  assumes "length buf = sz" "h < sz" "n < sz"
  shows "ring_read sz (buf[(h + n) mod sz := c]) h (n + 1) = ring_read sz buf h n @ [c]"
proof (rule nth_equalityI)
  fix i
  assume "i < length (ring_read sz (buf[(h + n) mod sz := c]) h (n + 1))"
  then have i: "i \<le> n" by simp
  have "(h + i) mod sz = (h + n) mod sz \<longleftrightarrow> i = n"
    using mod_shift_inj [of h i sz n] i assms(3) by auto
  then show "ring_read sz (buf[(h + n) mod sz := c]) h (n + 1) ! i = (ring_read sz buf h n @ [c]) ! i"
    using i assms by (auto simp: nth_append nth_list_update_any simp del: mod_less)
qed simp

section \<open>Reception\<close>

text \<open>The characters that the chip hands out as long as its line status announces more.\<close>

fun chip_chars :: "'h uart_port \<Rightarrow> nat \<Rightarrow> 'h \<Rightarrow> (u8 list \<times> 'h) option" where
  "chip_chars port 0 h = None"
| "chip_chars port (Suc n) h =
     (case inb port RHR h of
        (c, h1) \<Rightarrow>
          (case inb port LSR h1 of
             (l, h2) \<Rightarrow> if ucast l AND RTSER_LSR_DATA = 0 then Some ([c], h2)
               else map_option (\<lambda>(cs, h3). (c # cs, h3)) (chip_chars port n h2)))"

text \<open>What reception leaves alone.\<close>

definition rx_frame :: "('h, 'm) rt_16550_context \<Rightarrow> ('h, 'm) rt_16550_context \<Rightarrow> bool" where
  "rx_frame ctx ctx' \<longleftrightarrow> (\<exists>b hist t n h st. ctx' = ctx\<lparr>in_buf := b, in_history := hist, in_tail := t, in_npend := n,
     ser_hw := h, ser_status := st\<rparr>)"

lemma rx_frame_trans: "rx_frame a b \<Longrightarrow> rx_frame b c \<Longrightarrow> rx_frame a c"
  by (fastforce simp: rx_frame_def)

lemma data_bit:
  "testbits ((l1 AND NOT RTSER_LSR_DATA) OR (l AND (RTSER_LSR_DATA OR m))) RTSER_LSR_DATA \<longleftrightarrow> l AND RTSER_LSR_DATA \<noteq> 0"
proof -
  have "((l1 AND NOT RTSER_LSR_DATA) OR (l AND (RTSER_LSR_DATA OR m))) AND RTSER_LSR_DATA = l AND RTSER_LSR_DATA"
    by (rule bit_word_eqI) (auto simp: bit_and_iff bit_or_iff bit_not_iff)
  then show ?thesis by (simp add: testbits_def)
qed

lemma rx_char_frame: "rx_char port ts lsr ctx = (lsr', ctx') \<Longrightarrow> rx_frame ctx ctx'"
  by (cases ctx) (auto simp: rx_char_def inp_def Let_def rx_frame_def split: prod.splits if_splits)

lemma rx_char_put:
  assumes run: "rx_char port ts lsr ctx = (lsr', ctx')" and ok: "in_ok ctx" and room: "in_npend ctx < IN_BUFFER_SIZE"
    and c: "inb port RHR (ser_hw ctx) = (c, h1)" and l: "inb port LSR h1 = (l, h2)"
  shows "in_ok ctx'" "in_queue ctx' = in_queue ctx @ [c]" "ser_hw ctx' = h2"
    "testbits lsr' RTSER_LSR_DATA \<longleftrightarrow> ucast l AND RTSER_LSR_DATA \<noteq> 0"
proof -
  have eq: "ctx' = ctx\<lparr>in_buf := (in_buf ctx)[in_tail ctx := c], in_history := map_option (\<lambda>h. h[in_tail ctx := ts]) (in_history ctx),
      in_tail := (in_tail ctx + 1) mod IN_BUFFER_SIZE, in_npend := in_npend ctx + 1, ser_hw := h2\<rparr>"
    and d: "testbits lsr' RTSER_LSR_DATA \<longleftrightarrow> ucast l AND RTSER_LSR_DATA \<noteq> 0"
    using run c l room by (auto simp: rx_char_def inp_def Let_def in_advance1 data_bit size_small(2))
  show "in_ok ctx'" using ok room by (auto simp: in_ok_def eq mod_Suc_eq)
  show "in_queue ctx' = in_queue ctx @ [c]"
    using ok room ring_put [of "in_buf ctx" IN_BUFFER_SIZE "in_head ctx" "in_npend ctx" c]
    by (simp add: in_queue_def eq in_ok_def)
  show "ser_hw ctx' = h2" by (simp add: eq)
  show "testbits lsr' RTSER_LSR_DATA \<longleftrightarrow> ucast l AND RTSER_LSR_DATA \<noteq> 0" by (rule d)
qed

lemma rx_loop_appends:
  assumes "in_ok ctx" "chip_chars port fuel (ser_hw ctx) = Some (cs, h')" "in_npend ctx + length cs \<le> IN_BUFFER_SIZE"
  shows "\<exists>lsr' ctx'. rx_loop port fuel ts n lsr ctx = Inr (n + length cs, lsr', ctx') \<and> in_ok ctx'
    \<and> in_queue ctx' = in_queue ctx @ cs \<and> ser_hw ctx' = h' \<and> rx_frame ctx ctx'"
  using assms
proof (induction port fuel "ser_hw ctx" arbitrary: ctx cs n lsr rule: chip_chars.induct)
  case (2 port fuel)
  obtain c h1 l h2 where hw: "inb port RHR (ser_hw ctx) = (c, h1)" "inb port LSR h1 = (l, h2)" by fastforce
  obtain lsr' ctx1 where run: "rx_char port ts lsr ctx = (lsr', ctx1)" by fastforce
  have room: "in_npend ctx < IN_BUFFER_SIZE"
    using "2.prems"(2,3) hw by (auto split: if_splits)
  note put = rx_char_put [OF run "2.prems"(1) room hw] and fr = rx_char_frame [OF run]
  show ?case
  proof (cases "ucast l AND RTSER_LSR_DATA = 0")
    case True
    then show ?thesis using "2.prems"(2) hw run put fr by auto
  next
    case False
    then obtain cs' where cs: "cs = c # cs'" "chip_chars port fuel h2 = Some (cs', h')"
      using "2.prems"(2) hw by auto
    have "in_npend ctx1 = in_npend ctx + 1" using put(2) by (metis length_in_queue length_append_singleton Suc_eq_plus1)
    then obtain lsr'' ctx' where "rx_loop port fuel ts (n + 1) lsr' ctx1 = Inr (n + 1 + length cs', lsr'', ctx')" "in_ok ctx'"
        "in_queue ctx' = in_queue ctx1 @ cs'" "ser_hw ctx' = h'" "rx_frame ctx1 ctx'"
      using "2.hyps" [of c h1 l ctx1 cs' "n + 1" lsr'] hw put False cs "2.prems"(3) by auto
    then show ?thesis using cs run put False fr rx_frame_trans [OF fr] by auto
  qed
qed simp

lemma rx_interrupt_appends:
  assumes "in_ok ctx" "chip_chars port fuel (ser_hw ctx) = Some (cs, h')" "in_npend ctx + length cs \<le> IN_BUFFER_SIZE"
  shows "\<exists>ctx'. rt_16550_rx_interrupt port fuel ts ctx = Inr (length cs, ctx') \<and> in_ok ctx'
    \<and> in_queue ctx' = in_queue ctx @ cs \<and> ser_hw ctx' = h' \<and> rx_frame ctx ctx'"
proof -
  obtain lsr' ctx' where r: "rx_loop port fuel ts 0 0 ctx = Inr (length cs, lsr', ctx')" "in_ok ctx'"
      "in_queue ctx' = in_queue ctx @ cs" "ser_hw ctx' = h'" "rx_frame ctx ctx'"
    using rx_loop_appends [OF assms, of ts 0 0] by auto
  have "rx_frame ctx (ctx'\<lparr>ser_status := ser_status ctx' OR lsr'\<rparr>)"
    using r(5) by (fastforce simp: rx_frame_def)
  then show ?thesis using r by (simp add: rt_16550_rx_interrupt_def in_ok_def in_queue_def)
qed

section \<open>Transmission\<close>

lemma out_queue_Cons:
  assumes "out_npend ctx = Suc n" "out_ok ctx"
  shows "out_queue ctx = out_buf ctx ! out_head ctx # ring_read OUT_BUFFER_SIZE (out_buf ctx) (Suc (out_head ctx) mod OUT_BUFFER_SIZE) n"
  using assms ring_read_add [of OUT_BUFFER_SIZE "out_buf ctx" "out_head ctx" 1 n]
  by (simp add: out_queue_def out_ok_def) (simp add: ring_read_def)

text \<open>What transmission leaves alone.\<close>

definition tx_frame :: "('h, 'm) rt_16550_context \<Rightarrow> ('h, 'm) rt_16550_context \<Rightarrow> bool" where
  "tx_frame ctx ctx' \<longleftrightarrow> (\<exists>hd n h. ctx' = ctx\<lparr>out_head := hd, out_npend := n, ser_hw := h\<rparr>)"

lemma tx_frame_trans: "tx_frame a b \<Longrightarrow> tx_frame b c \<Longrightarrow> tx_frame a c"
  by (fastforce simp: tx_frame_def)

lemma tx_frame_refl: "tx_frame a a"
  by (cases a) (auto simp: tx_frame_def)

definition sends :: "'h uart_port \<Rightarrow> u8 list \<Rightarrow> 'h \<Rightarrow> 'h" where
  "sends port bs h = fold (\<lambda>b. outb port b THR) bs h"

lemma sends_append: "sends port (as @ bs) h = sends port bs (sends port as h)"
  by (simp add: sends_def)

lemma tx_loop_sends:
  assumes "out_ok ctx"
  shows "out_ok (tx_loop port k ctx) \<and> out_queue (tx_loop port k ctx) = drop k (out_queue ctx)
    \<and> ser_hw (tx_loop port k ctx) = sends port (take k (out_queue ctx)) (ser_hw ctx) \<and> tx_frame ctx (tx_loop port k ctx)"
  using assms
proof (induction k arbitrary: ctx)
  case 0
  then show ?case by (simp add: sends_def tx_frame_refl)
next
  case (Suc k)
  show ?case
  proof (cases "out_npend ctx")
    case 0
    then show ?thesis using Suc.prems by (simp add: sends_def tx_frame_refl out_queue_def)
  next
    case (Suc n)
    define c where "c = out_buf ctx ! out_head ctx"
    define ctx1 where "ctx1 = ctx\<lparr>ser_hw := outb port c THR (ser_hw ctx), out_head := Suc (out_head ctx) mod OUT_BUFFER_SIZE,
      out_npend := n\<rparr>"
    have step: "tx_loop port (Suc k) ctx = tx_loop port k ctx1"
      using Suc by (simp add: outp_def Let_def ctx1_def c_def out_advance1)
    have q: "out_queue ctx = c # out_queue ctx1"
      using out_queue_Cons [OF Suc Suc.prems] by (simp add: c_def ctx1_def out_queue_def)
    have ok: "out_ok ctx1" using Suc.prems Suc by (auto simp: out_ok_def ctx1_def mod_Suc_eq mod_simps OUT_BUFFER_SIZE_def)
    have "tx_frame ctx ctx1" by (cases ctx) (auto simp: tx_frame_def ctx1_def)
    then show ?thesis
      using Suc.IH [OF ok] unfolding step q by (auto simp: sends_def ctx1_def intro: tx_frame_trans)
  qed
qed

section \<open>Reading\<close>

text \<open>
  The activities that may go on during a call that reads: they append to the input queue (without an
  overrun) and leave its front alone.
\<close>

definition receives :: "('h, 'm) rt_16550_context \<Rightarrow> ('h, 'm) rt_16550_context \<Rightarrow> bool" where
  "receives ctx ctx' \<longleftrightarrow> in_ok ctx' \<and> in_head ctx' = in_head ctx \<and> (\<exists>cs. in_queue ctx' = in_queue ctx @ cs)"

definition only_receives :: "(('h, 'm) rt_16550_context \<Rightarrow> ('h, 'm) rt_16550_context) \<Rightarrow> bool" where
  "only_receives f \<longleftrightarrow> (\<forall>ctx. in_ok ctx \<longrightarrow> receives ctx (f ctx))"

definition turn_receives :: "('h, 'm) rt_16550_context ser_turn \<Rightarrow> bool" where
  "turn_receives turn \<longleftrightarrow> only_receives (st_copy turn) \<and> only_receives (wkw_env (st_before turn))
     \<and> (\<forall>k. st_wake turn = Some k \<longrightarrow> only_receives (wkw_env k))"

lemma receives_trans: "receives a b \<Longrightarrow> receives b c \<Longrightarrow> receives a c"
  by (auto simp: receives_def)

lemma receives_same:
  "in_buf ctx' = in_buf ctx \<Longrightarrow> in_head ctx' = in_head ctx \<Longrightarrow> in_npend ctx' = in_npend ctx \<Longrightarrow> in_tail ctx' = in_tail ctx
    \<Longrightarrow> in_ok ctx \<Longrightarrow> receives ctx ctx'"
  by (simp add: receives_def in_ok_def in_queue_def)

lemma receives_ok: "receives ctx ctx' \<Longrightarrow> in_ok ctx'"
  by (simp add: receives_def)

lemma receives_clear: "in_ok ctx \<Longrightarrow> receives ctx (upd_in_event f ctx)"
  by (rule receives_same) (simp_all add: upd_in_event_def)

lemma sleep_receives:
  assumes ok: "in_ok ctx" and env: "\<And>k. wake = Some k \<Longrightarrow> only_receives (wkw_env k)"
    and run: "event_sleep_in in_event upd_in_event timed ctx wake = Some (r, ctx')"
  shows "receives ctx ctx'"
proof -
  obtain k where k: "wake = Some k" "ctx' = wkw_env k ctx \<or> ctx' = upd_in_event rtdm_event_clear (wkw_env k ctx)"
    using run by (auto simp: event_sleep_in_def Let_def split: option.splits if_splits)
  have "receives ctx (wkw_env k ctx)" using env [OF k(1)] ok by (simp add: only_receives_def)
  then show ?thesis using k(2) receives_trans receives_clear receives_ok by blast
qed

lemma timedwait_receives:
  assumes ok: "in_ok ctx" and turn: "turn_receives turn"
    and run: "rtdm_event_timedwait_in in_event upd_in_event ctx t (st_before turn) (st_wake turn) = Some (r, ctx')"
  shows "receives ctx ctx'"
proof -
  define ctx1 where "ctx1 = wkw_env (st_before turn) ctx"
  have r1: "receives ctx ctx1" using turn ok by (simp add: turn_receives_def only_receives_def ctx1_def)
  have "ctx' = ctx \<or> ctx' = upd_in_event rtdm_event_clear ctx \<or> ctx' = ctx1 \<or> ctx' = upd_in_event rtdm_event_clear ctx1
      \<or> (\<exists>timed. event_sleep_in in_event upd_in_event timed ctx1 (st_wake turn) = Some (r, ctx'))"
    using run unfolding rtdm_event_timedwait_in_def ctx1_def [symmetric] by (auto simp: Let_def split: if_splits)
  moreover have "receives ctx1 ctx'" if "event_sleep_in in_event upd_in_event timed ctx1 (st_wake turn) = Some (r, ctx')" for timed
    using sleep_receives [OF receives_ok [OF r1] _ that] turn by (simp add: turn_receives_def)
  moreover have "receives ctx ctx" by (rule receives_same) (use ok in simp_all)
  ultimately show ?thesis
    using ok r1 receives_trans [OF r1] receives_clear receives_ok by blast
qed

lemma read_copy_all:
  assumes "\<And>off n. can_copy u off n"
  shows "read_copy u off buf pos block = (ring_copy_out IN_BUFFER_SIZE buf pos block, True)"
  using assms by (simp add: read_copy_def ring_copy_out_def Let_def)

lemma read_take_queue:
  assumes "in_ok ctx" "block \<le> in_npend ctx"
  shows "in_ok (read_take block ctx)" "in_queue (read_take block ctx) = drop block (in_queue ctx)"
proof -
  let ?h = "(in_head ctx + block) mod IN_BUFFER_SIZE"
  have new: "in_buf (read_take block ctx) = in_buf ctx" "in_head (read_take block ctx) = ?h"
      "in_npend (read_take block ctx) = in_npend ctx - block" "in_tail (read_take block ctx) = in_tail ctx"
    using assms by (simp_all add: read_take_def Let_def ring_masks size_small(3) in_ok_def)
  have "(?h + (in_npend ctx - block)) mod IN_BUFFER_SIZE = (in_head ctx + in_npend ctx) mod IN_BUFFER_SIZE"
    using assms(2) by (subst mod_add_left_eq) simp
  then show "in_ok (read_take block ctx)" using assms inr.sz_pos unfolding in_ok_def new by (auto intro: order_trans [OF diff_le_self])
  show "in_queue (read_take block ctx) = drop block (in_queue ctx)"
    using assms(2) unfolding in_queue_def new by (simp add: drop_ring_read)
qed

lemma queue_block:
  assumes ok: "in_ok ctx" and rec: "receives ctx ctx1" and b: "block \<le> in_npend ctx"
  shows "ring_copy_out IN_BUFFER_SIZE (in_buf ctx1) (in_head ctx) block = take block (in_queue ctx1)"
    "take block (in_queue ctx1) = take block (in_queue ctx)" "block \<le> in_npend ctx1"
proof -
  obtain cs where cs: "in_queue ctx1 = in_queue ctx @ cs" "in_ok ctx1" "in_head ctx1 = in_head ctx"
    using rec by (auto simp: receives_def)
  show "take block (in_queue ctx1) = take block (in_queue ctx)" using cs(1) b by simp
  have "length (in_queue ctx) \<le> length (in_queue ctx1)" by (simp only: cs(1) length_append le_add1)
  then show n: "block \<le> in_npend ctx1" using b by simp
  have "ring_copy_out IN_BUFFER_SIZE (in_buf ctx1) (in_head ctx1) block = ring_read IN_BUFFER_SIZE (in_buf ctx1) (in_head ctx1) block"
    using cs(2) n by (intro inr.copy_out_read) (auto simp: in_ok_def)
  then show "ring_copy_out IN_BUFFER_SIZE (in_buf ctx1) (in_head ctx) block = take block (in_queue ctx1)"
    using n by (simp add: in_queue_def take_ring_read cs(3))
qed

lemma read_turn_stream:
  assumes ok: "in_ok ctx" and u: "\<And>off n. can_copy u off n" and turn: "turn_receives turn"
    and run: "read_turn port u turn off nbyte ret nb ctx = Some (exit, bs, nbyte', ret', nb', ctx')"
  shows "in_ok ctx' \<and> (\<exists>cs. bs @ in_queue ctx' = in_queue ctx @ cs) \<and> length bs \<le> nbyte \<and> nbyte' = nbyte - length bs"
proof -
  define c0 where "c0 = read_enable port ctx"
  have c0: "receives ctx c0" "receives c0 ctx"
    using ok by (auto intro!: receives_same simp: c0_def read_enable_def Let_def outp_def in_ok_def)
  then have q0: "in_queue c0 = in_queue ctx" "in_ok c0" "in_npend c0 = in_npend ctx" "in_head c0 = in_head ctx"
    by (simp_all add: receives_ok c0_def read_enable_def Let_def outp_def in_queue_def)
  have np: "as_int (in_npend c0) = int (in_npend c0)" using q0(2) by (simp add: size_small(1) in_ok_def)
  consider (status) "ser_status c0 \<noteq> 0" | (data) "ser_status c0 = 0" "0 < in_npend c0"
    | (nowait) "ser_status c0 = 0" "in_npend c0 = 0" nb | (wait) "ser_status c0 = 0" "in_npend c0 = 0" "\<not> nb" by blast
  then show ?thesis
  proof cases
    case status
    then show ?thesis
      using run q0 unfolding read_turn_def c0_def [symmetric] by (auto simp: read_status_def in_ok_def in_queue_def)
  next
    case data
    define block where "block = (if nat (int (in_npend c0)) \<le> nbyte then nat (int (in_npend c0)) else nbyte)"
    define c1 where "c1 = st_copy turn c0"
    have rec: "receives c0 c1" using turn q0(2) by (simp add: turn_receives_def only_receives_def c1_def)
    then obtain cs where cs: "in_queue c1 = in_queue ctx @ cs" by (auto simp: receives_def q0(1))
    have b: "block \<le> in_npend c0" "block \<le> nbyte" by (auto simp: block_def)
    have "bs = take block (in_queue c1)" "nbyte' = nbyte - block" "ctx' = read_take block c1"
      using run data queue_block(1) [OF q0(2) rec b(1)]
      unfolding read_turn_def c0_def [symmetric] Let_def np block_def [symmetric] c1_def [symmetric] read_copy_all [OF u] by auto
    moreover have "length (take block (in_queue c1)) = block" using queue_block(3) [OF q0(2) rec b(1)] by simp
    moreover have "in_queue (read_take block c1) = drop block (in_queue c1)" "in_ok (read_take block c1)"
      using read_take_queue [OF receives_ok [OF rec] queue_block(3) [OF q0(2) rec b(1)]] by simp_all
    ultimately show ?thesis using b(2) cs by (metis append_take_drop_id)
  next
    case nowait
    then show ?thesis using run q0 unfolding read_turn_def c0_def [symmetric] np by auto
  next
    case wait
    define c1 where "c1 = c0\<lparr>in_nwait := nbyte\<rparr>"
    have c1: "in_ok c1" "in_queue c1 = in_queue ctx" using q0 by (simp_all add: c1_def in_ok_def in_queue_def)
    obtain r c2 where w: "rtdm_event_timedwait_in in_event upd_in_event c1 (cfg_rx_timeout (ser_config c1))
          (st_before turn) (st_wake turn) = Some (r, c2)" "ctx' = c2 \<or> ctx' = c2\<lparr>in_nwait := 0\<rparr>" "bs = []" "nbyte' = nbyte"
      using run wait unfolding read_turn_def c0_def [symmetric] Let_def np c1_def [symmetric]
      by (auto split: option.splits sum.splits if_splits)
    have "receives c1 c2" by (rule timedwait_receives [OF c1(1) turn w(1)])
    then have "in_ok ctx' \<and> (\<exists>cs. in_queue ctx' = in_queue ctx @ cs)"
      using w(2) c1(2) by (auto simp: receives_def in_ok_def in_queue_def)
    then show ?thesis using w(3,4) by simp
  qed
qed

lemma read_loop_stream:
  assumes "in_ok ctx" "\<And>off n. can_copy u off n" "\<And>turn. turn \<in> set turns \<Longrightarrow> turn_receives turn"
    and "read_loop port u turns acc nbyte ret nb ctx = Some (exit, acc', ret', ctx')"
  shows "in_ok ctx' \<and> (\<exists>bs cs. acc' = acc @ bs \<and> bs @ in_queue ctx' = in_queue ctx @ cs \<and> length bs \<le> nbyte)"
  using assms(1,3,4)
proof (induction turns arbitrary: acc nbyte ret nb ctx)
  case Nil
  then show ?case by (subst (asm) read_loop.simps) (auto split: if_splits)
next
  case (Cons turn turns)
  show ?case
  proof (cases "nbyte = 0")
    case True
    then show ?thesis using Cons.prems(1,3) by (subst (asm) read_loop.simps) auto
  next
    case False
    then obtain exit1 bs1 n1 ret1 nb1 c1 where t: "read_turn port u turn (length acc) nbyte ret nb ctx = Some (exit1, bs1, n1, ret1, nb1, c1)"
        "if exit1 = Continue then read_loop port u turns (acc @ bs1) n1 ret1 nb1 c1 = Some (exit, acc', ret', ctx')
         else acc' = acc @ bs1 \<and> ctx' = c1"
      using Cons.prems(3) by (subst (asm) read_loop.simps) (auto split: option.splits if_splits)
    obtain cs1 where s: "in_ok c1" "bs1 @ in_queue c1 = in_queue ctx @ cs1" "length bs1 \<le> nbyte" "n1 = nbyte - length bs1"
      using read_turn_stream [OF Cons.prems(1) assms(2) _ t(1)] Cons.prems(2) by auto
    show ?thesis
    proof (cases "exit1 = Continue")
      case True
      then obtain bs2 cs2 where r: "in_ok ctx'" "acc' = (acc @ bs1) @ bs2" "bs2 @ in_queue ctx' = in_queue c1 @ cs2" "length bs2 \<le> n1"
        using Cons.IH [OF s(1), of "acc @ bs1" n1 ret1 nb1] Cons.prems(2) t(2) by auto
      have "(bs1 @ bs2) @ in_queue ctx' = in_queue ctx @ cs1 @ cs2" using s(2) r(3) by (metis append_assoc)
      moreover have "length (bs1 @ bs2) \<le> nbyte" using s(3,4) r(4) by simp
      ultimately show ?thesis using r(1,2) by (metis append_assoc)
    qed (use t(2) s in auto)
  qed
qed

text \<open>\<open>ret\<close> is never positive.\<close>

lemma timedwait_ret: "rtdm_event_timedwait_in get upd w t k wake = Some (Inr n, w') \<Longrightarrow> n = 0"
  by (auto simp: rtdm_event_timedwait_in_def event_sleep_in_def Let_def split: if_splits option.splits)

lemma read_turn_ret:
  assumes "read_turn port u turn off nbyte ret nb ctx = Some (exit, bs, nbyte', Inr n, nb', ctx')"
  shows "ret = Inr n \<or> n = 0"
  using assms
  by (auto simp: read_turn_def Let_def read_status_def split: if_splits prod.splits option.splits sum.splits dest: timedwait_ret)

lemma read_loop_ret:
  assumes "read_loop port u turns acc nbyte ret nb ctx = Some (exit, acc', Inr n, ctx')"
  shows "ret = Inr n \<or> n = 0"
  using assms
proof (induction turns arbitrary: acc nbyte ret nb ctx)
  case Nil
  then show ?case by (subst (asm) read_loop.simps) (auto split: if_splits)
next
  case (Cons turn turns)
  have "(nbyte = 0 \<and> ret = Inr n) \<or> (\<exists>exit1 bs n1 ret1 nb1 c1.
      read_turn port u turn (length acc) nbyte ret nb ctx = Some (exit1, bs, n1, ret1, nb1, c1) \<and>
      (ret1 = Inr n \<or> read_loop port u turns (acc @ bs) n1 ret1 nb1 c1 = Some (exit, acc', Inr n, ctx')))"
    using Cons.prems by (subst (asm) read_loop.simps) (auto split: option.splits if_splits)
  then show ?case using Cons.IH read_turn_ret by blast
qed

text \<open>A turn in which nothing else happens, and a turn that finds data.\<close>

definition quiet_turn :: "'w ser_turn" where
  "quiet_turn = \<lparr>st_copy = (\<lambda>w. w), st_before = quiet_in, st_wake = None\<rparr>"

lemma quiet_receives: "turn_receives quiet_turn"
  by (simp add: turn_receives_def only_receives_def quiet_turn_def quiet_in_def receives_same)

lemma quiet_read_turn:
  assumes ok: "in_ok ctx" and u: "\<And>off n. can_copy u off n" and st: "ser_status ctx = 0" and n: "0 < in_npend ctx"
  shows "read_turn port u quiet_turn off nbyte ret nb ctx =
    Some (Continue, take nbyte (in_queue ctx), nbyte - in_npend ctx, ret, nb,
      read_take (min nbyte (in_npend ctx)) (read_enable port ctx))"
proof -
  define c0 where "c0 = read_enable port ctx"
  have c0: "ser_status c0 = 0" "in_npend c0 = in_npend ctx" "in_queue c0 = in_queue ctx" "in_ok c0"
    using ok st by (simp_all add: c0_def read_enable_def Let_def outp_def in_queue_def in_ok_def)
  have np: "as_int (in_npend c0) = int (in_npend c0)" using c0(4) by (simp add: size_small(1) in_ok_def)
  have block: "(if nat (int (in_npend c0)) \<le> nbyte then nat (int (in_npend c0)) else nbyte) = min nbyte (in_npend ctx)" by (simp add: c0(2))
  have rec: "receives c0 c0" by (rule receives_same) (simp_all add: c0(4))
  have "ring_copy_out IN_BUFFER_SIZE (in_buf c0) (in_head c0) (min nbyte (in_npend ctx)) = take nbyte (in_queue ctx)"
    using queue_block(1) [OF c0(4) rec, of "min nbyte (in_npend ctx)"] by (simp add: c0(2,3) min_def)
  then show ?thesis
    using n unfolding read_turn_def c0_def [symmetric] Let_def np block read_copy_all [OF u]
    by (simp add: c0(1,2) quiet_turn_def min_def)
qed

lemma quiet_read_empty:
  assumes "ser_status ctx = 0" "in_npend ctx = 0"
  shows "read_turn port u turn off nbyte ret True ctx = Some (Break, [], nbyte, ret, True, read_enable port ctx)"
  using assms by (simp add: read_turn_def read_enable_def Let_def outp_def size_small(1))

lemma read_take_fields:
  "ser_status (read_take k (read_enable port ctx)) = ser_status ctx"
  "in_npend (read_take k (read_enable port ctx)) = size_sub (in_npend ctx) k"
  "in_queue (read_enable port ctx) = in_queue ctx" "in_ok (read_enable port ctx) = in_ok ctx"
  "in_npend (read_enable port ctx) = in_npend ctx"
  by (simp_all add: read_take_def read_enable_def Let_def outp_def in_queue_def in_ok_def)

lemma nonblocking_loop:
  assumes ok: "in_ok ctx" and u: "\<And>off n. can_copy u off n" and st: "ser_status ctx = 0" and nb: "0 < nbyte"
  shows "\<exists>ctx'. read_loop port u [quiet_turn, quiet_turn] [] nbyte ret True ctx = Some (Break, take nbyte (in_queue ctx), ret, ctx')
    \<and> in_ok ctx' \<and> in_queue ctx' = drop nbyte (in_queue ctx)"
proof (cases "in_npend ctx")
  case 0
  then have "in_queue ctx = []" by simp
  then show ?thesis
    using quiet_read_empty [OF st 0, of port u quiet_turn 0 nbyte ret] ok nb
    by (subst read_loop.simps) (simp add: read_take_fields del: in_queue_empty)
next
  case (Suc k)
  define c1 where "c1 = read_take (min nbyte (in_npend ctx)) (read_enable port ctx)"
  have t: "read_turn port u quiet_turn 0 nbyte ret True ctx =
      Some (Continue, take nbyte (in_queue ctx), nbyte - in_npend ctx, ret, True, c1)"
    using quiet_read_turn [OF ok u st, of port 0 nbyte ret True] Suc by (simp add: c1_def)
  have c1: "in_ok c1" "in_queue c1 = drop nbyte (in_queue ctx)" "ser_status c1 = 0" "in_npend c1 = in_npend ctx - nbyte"
    using read_take_queue [of "read_enable port ctx" "min nbyte (in_npend ctx)"] ok st
    by (simp_all add: c1_def read_take_fields min_def size_sub_def)
  show ?thesis
  proof (cases "nbyte \<le> in_npend ctx")
    case True
    then show ?thesis
      using nb c1 by (subst read_loop.simps) (simp add: t, subst read_loop.simps, simp)
  next
    case False
    then have "read_turn port u quiet_turn (in_npend ctx) (nbyte - in_npend ctx) ret True c1
        = Some (Break, [], nbyte - in_npend ctx, ret, True, read_enable port c1)"
      using c1 by (intro quiet_read_empty) auto
    then show ?thesis
      using nb c1 False
      by (subst read_loop.simps) (simp add: t, subst read_loop.simps, simp add: read_take_fields)
  qed
qed

lemma nonblocking_read:
  assumes "in_ok ctx" "\<forall>off n. can_copy u off n" "su_ok u" "ser_status ctx = 0" "\<not> in_lock ctx" "0 < nbyte"
    and "cfg_rx_timeout (ser_config ctx) < 0"
  shows "\<exists>ctx'. rt_16550_read port u [quiet_turn, quiet_turn] nbyte ctx =
      Some (if in_npend ctx = 0 then Inl EAGAIN else Inr (int (min nbyte (in_npend ctx))), take nbyte (in_queue ctx), ctx')
    \<and> in_ok ctx' \<and> in_queue ctx' = drop nbyte (in_queue ctx) \<and> \<not> in_lock ctx'"
proof -
  define c0 where "c0 = ctx\<lparr>in_lock := True\<rparr>"
  have c0: "in_ok c0" "in_queue c0 = in_queue ctx" "ser_status c0 = 0"
    using assms(1,4) by (simp_all add: c0_def in_ok_def in_queue_def)
  obtain c1 where l: "read_loop port u [quiet_turn, quiet_turn] [] nbyte (Inl EAGAIN) True c0 = Some (Break, take nbyte (in_queue ctx), Inl EAGAIN, c1)"
      "in_ok c1" "in_queue c1 = drop nbyte (in_queue ctx)"
    using nonblocking_loop [OF c0(1) _ c0(3) assms(6), of u port "Inl EAGAIN"] assms(2) c0(2) by auto
  have "rt_16550_read port u [quiet_turn, quiet_turn] nbyte ctx = Some (if in_npend ctx = 0 then Inl EAGAIN
      else Inr (int (min nbyte (in_npend ctx))), take nbyte (in_queue ctx), c1\<lparr>in_lock := False\<rparr>)"
    using assms(3,5-7) unfolding rt_16550_read_def c0_def [symmetric] by (simp add: l(1) soft_error_def min.commute)
  then show ?thesis using l(2,3) by (auto simp: in_ok_def in_queue_def)
qed

section \<open>Writing\<close>

definition transmits :: "('h, 'm) rt_16550_context \<Rightarrow> ('h, 'm) rt_16550_context \<Rightarrow> bool" where
  "transmits ctx ctx' \<longleftrightarrow> out_ok ctx' \<and> out_tail ctx' = out_tail ctx \<and> (\<exists>sent. sent @ out_queue ctx' = out_queue ctx)"

definition only_transmits :: "(('h, 'm) rt_16550_context \<Rightarrow> ('h, 'm) rt_16550_context) \<Rightarrow> bool" where
  "only_transmits f \<longleftrightarrow> (\<forall>ctx. out_ok ctx \<longrightarrow> transmits ctx (f ctx))"

definition turn_transmits :: "('h, 'm) rt_16550_context ser_turn \<Rightarrow> bool" where
  "turn_transmits turn \<longleftrightarrow> only_transmits (st_copy turn) \<and> only_transmits (wkw_env (st_before turn))
     \<and> (\<forall>k. st_wake turn = Some k \<longrightarrow> only_transmits (wkw_env k))"

lemma transmits_trans: "transmits a b \<Longrightarrow> transmits b c \<Longrightarrow> transmits a c"
  by (auto simp: transmits_def) (metis append_assoc)

lemma transmits_same:
  "out_buf ctx' = out_buf ctx \<Longrightarrow> out_head ctx' = out_head ctx \<Longrightarrow> out_npend ctx' = out_npend ctx \<Longrightarrow> out_tail ctx' = out_tail ctx
    \<Longrightarrow> out_ok ctx \<Longrightarrow> transmits ctx ctx'"
  by (simp add: transmits_def out_ok_def out_queue_def)

lemma transmits_ok: "transmits ctx ctx' \<Longrightarrow> out_ok ctx'"
  by (simp add: transmits_def)

lemma transmits_clear: "out_ok ctx \<Longrightarrow> transmits ctx (upd_out_event f ctx)"
  by (rule transmits_same) (simp_all add: upd_out_event_def)

text \<open>The transmission interrupt is such an activity.\<close>

lemma tx_interrupt_transmits: "only_transmits (rt_16550_tx_interrupt port)"
proof -
  have "transmits ctx (tx_loop port k ctx)" if "out_ok ctx" for k and ctx :: "('a, 'b) rt_16550_context"
  proof -
    note t = tx_loop_sends [OF that, of port k]
    have "take k (out_queue ctx) @ out_queue (tx_loop port k ctx) = out_queue ctx"
      using t append_take_drop_id by metis
    moreover have "out_tail (tx_loop port k ctx) = out_tail ctx" using t by (auto simp: tx_frame_def)
    ultimately show ?thesis using t unfolding transmits_def by blast
  qed
  then show ?thesis by (simp add: only_transmits_def rt_16550_tx_interrupt_def)
qed

lemma sleep_transmits:
  assumes ok: "out_ok ctx" and env: "\<And>k. wake = Some k \<Longrightarrow> only_transmits (wkw_env k)"
    and run: "event_sleep_in out_event upd_out_event timed ctx wake = Some (r, ctx')"
  shows "transmits ctx ctx'"
proof -
  obtain k where k: "wake = Some k" "ctx' = wkw_env k ctx \<or> ctx' = upd_out_event rtdm_event_clear (wkw_env k ctx)"
    using run by (auto simp: event_sleep_in_def Let_def split: option.splits if_splits)
  have "transmits ctx (wkw_env k ctx)" using env [OF k(1)] ok by (simp add: only_transmits_def)
  then show ?thesis using k(2) transmits_trans transmits_clear transmits_ok by blast
qed

lemma timedwait_transmits:
  assumes ok: "out_ok ctx" and turn: "turn_transmits turn"
    and run: "rtdm_event_timedwait_in out_event upd_out_event ctx t (st_before turn) (st_wake turn) = Some (r, ctx')"
  shows "transmits ctx ctx'"
proof -
  define ctx1 where "ctx1 = wkw_env (st_before turn) ctx"
  have r1: "transmits ctx ctx1" using turn ok by (simp add: turn_transmits_def only_transmits_def ctx1_def)
  have "ctx' = ctx \<or> ctx' = upd_out_event rtdm_event_clear ctx \<or> ctx' = ctx1 \<or> ctx' = upd_out_event rtdm_event_clear ctx1
      \<or> (\<exists>timed. event_sleep_in out_event upd_out_event timed ctx1 (st_wake turn) = Some (r, ctx'))"
    using run unfolding rtdm_event_timedwait_in_def ctx1_def [symmetric] by (auto simp: Let_def split: if_splits)
  moreover have "transmits ctx1 ctx'" if "event_sleep_in out_event upd_out_event timed ctx1 (st_wake turn) = Some (r, ctx')" for timed
    using sleep_transmits [OF transmits_ok [OF r1] _ that] turn by (simp add: turn_transmits_def)
  moreover have "transmits ctx ctx" by (rule transmits_same) (use ok in simp_all)
  ultimately show ?thesis
    using ok r1 transmits_trans [OF r1] transmits_clear transmits_ok by blast
qed

lemma src_read_ok: "off + n \<le> length src \<Longrightarrow> src_read src off n = Inr (take n (drop off src))"
  by (simp add: src_read_def)

lemma write_copy_user:
  assumes "su_user u" "\<And>off n. can_copy u off n" "off + block \<le> length src" "pos < OUT_BUFFER_SIZE"
  shows "write_copy u src off buf pos block = Inr (block, ring_copy_in OUT_BUFFER_SIZE buf pos (take block (drop off src)), True)"
proof (cases "pos + block > OUT_BUFFER_SIZE")
  case True
  let ?f = "OUT_BUFFER_SIZE - pos"
  have "?f \<le> block" using True by simp
  then have "take ?f (take block (drop off src)) = take ?f (drop off src)"
      "drop ?f (take block (drop off src)) = take (block - ?f) (drop (off + ?f) src)"
    by (simp_all add: drop_take add.commute)
  then show ?thesis
    using True assms by (simp add: write_copy_def ring_copy_in_def src_read_ok Let_def)
next
  case False
  then show ?thesis
    using assms by (simp add: write_copy_def ring_copy_in_def src_read_ok Let_def)
qed

lemma write_put_queue:
  fixes port
  assumes ok: "out_ok ctx" and room: "out_npend ctx + length bs \<le> OUT_BUFFER_SIZE"
  defines "ctx' \<equiv> write_put port (length bs) (ctx\<lparr>out_buf := ring_copy_in OUT_BUFFER_SIZE (out_buf ctx) (out_tail ctx) bs\<rparr>)"
  shows "out_ok ctx'" "out_queue ctx' = out_queue ctx @ bs"
proof -
  have o: "length (out_buf ctx) = OUT_BUFFER_SIZE" "out_tail ctx = (out_head ctx + out_npend ctx) mod OUT_BUFFER_SIZE"
      "out_head ctx < OUT_BUFFER_SIZE"
    using ok by (auto simp: out_ok_def)
  have new: "out_buf ctx' = ring_copy_in OUT_BUFFER_SIZE (out_buf ctx) (out_tail ctx) bs" "out_head ctx' = out_head ctx"
      "out_npend ctx' = out_npend ctx + length bs" "out_tail ctx' = (out_tail ctx + length bs) mod OUT_BUFFER_SIZE"
    by (simp_all add: ctx'_def write_put_def Let_def outp_def ring_masks)
  show "out_queue ctx' = out_queue ctx @ bs"
    unfolding out_queue_def new o(2) by (rule outr.read_copy_in_append [OF o(1) room])
  have "length (ring_copy_in OUT_BUFFER_SIZE (out_buf ctx) (out_tail ctx) bs) = OUT_BUFFER_SIZE"
    using o room outr.sz_pos by (intro outr.length_copy_in) auto
  then show "out_ok ctx'" unfolding out_ok_def new using o room by (simp add: mod_add_left_eq add.assoc)
qed

lemma write_turn_stream:
  assumes ok: "out_ok ctx" and u: "su_user u" "\<And>off n. can_copy u off n" and turn: "turn_transmits turn"
    and len: "off + nbyte \<le> length src"
  obtains (asleep) "write_turn port u turn src off nbyte ret ctx = Inr None"
  | (moved) exit n ret' ctx' sent where "write_turn port u turn src off nbyte ret ctx = Inr (Some (exit, n, nbyte - n, ret', ctx'))"
      "out_ok ctx'" "sent @ out_queue ctx' = out_queue ctx @ take n (drop off src)" "n \<le> nbyte"
proof (cases "OUT_BUFFER_SIZE - out_npend ctx > 0")
  case True
  define block where "block = (if nbyte \<le> OUT_BUFFER_SIZE - out_npend ctx then nbyte else OUT_BUFFER_SIZE - out_npend ctx)"
  have b: "block \<le> nbyte" "out_npend ctx + block \<le> OUT_BUFFER_SIZE" using True by (auto simp: block_def)
  define c1 where "c1 = st_copy turn ctx"
  have tr: "transmits ctx c1" using turn ok by (simp add: turn_transmits_def only_transmits_def c1_def)
  then obtain sent where s: "sent @ out_queue c1 = out_queue ctx" "out_tail c1 = out_tail ctx" "out_ok c1"
    by (auto simp: transmits_def)
  define bs where "bs = take block (drop off src)"
  have bs: "length bs = block" using b(1) len by (simp add: bs_def)
  have "out_npend c1 \<le> out_npend ctx" using arg_cong [OF s(1), of length] by simp
  then have room: "out_npend c1 + length bs \<le> OUT_BUFFER_SIZE" using b(2) bs by linarith
  note put = write_put_queue [OF s(3) room, where port = port]
  have pos: "out_tail ctx < OUT_BUFFER_SIZE" using ok outr.sz_pos by (simp add: out_ok_def)
  have "write_turn port u turn src off nbyte ret ctx = Inr (Some (Continue, block, nbyte - block, ret,
      write_put port (length bs) (c1\<lparr>out_buf := ring_copy_in OUT_BUFFER_SIZE (out_buf c1) (out_tail c1) bs\<rparr>)))"
    using True unfolding write_turn_def Let_def block_def [symmetric] c1_def [symmetric] bs s(2)
    using write_copy_user [OF u, of off block src "out_tail ctx" "out_buf c1"] len b(1) pos by (simp add: bs_def)
  moreover have "sent @ out_queue (write_put port (length bs) (c1\<lparr>out_buf := ring_copy_in OUT_BUFFER_SIZE (out_buf c1) (out_tail c1) bs\<rparr>))
      = out_queue ctx @ take block (drop off src)"
    unfolding put(2) using s(1) by (simp add: bs_def flip: append_assoc)
  ultimately show thesis using moved put(1) b(1) by blast
next
  case False
  show thesis
  proof (cases "rtdm_event_timedwait_in out_event upd_out_event ctx (cfg_tx_timeout (ser_config ctx)) (st_before turn) (st_wake turn)")
    case None
    then show ?thesis using asleep False by (simp add: write_turn_def)
  next
    case (Some p)
    then obtain r c1 where w: "rtdm_event_timedwait_in out_event upd_out_event ctx (cfg_tx_timeout (ser_config ctx)) (st_before turn)
        (st_wake turn) = Some (r, c1)" by (cases p) auto
    have "transmits ctx c1" by (rule timedwait_transmits [OF ok turn w])
    then obtain sent where "sent @ out_queue c1 = out_queue ctx @ take 0 (drop off src)" "out_ok c1" by (auto simp: transmits_def)
    moreover have "\<exists>exit ret'. write_turn port u turn src off nbyte ret ctx = Inr (Some (exit, 0, nbyte - 0, ret', c1))"
      using False w by (cases r) (auto simp: write_turn_def)
    ultimately show ?thesis using moved by blast
  qed
qed

lemma write_loop_stream:
  assumes "out_ok ctx" "su_user u" "\<And>off n. can_copy u off n" "\<And>turn. turn \<in> set turns \<Longrightarrow> turn_transmits turn"
    and "off + nbyte \<le> length src"
  shows "\<exists>r. write_loop port u turns src off nbyte ret ctx = Inr r \<and>
    (\<forall>exit n ret' ctx'. r = Some (exit, n, ret', ctx') \<longrightarrow> out_ok ctx' \<and> off \<le> n \<and> n \<le> off + nbyte
       \<and> (\<exists>sent. sent @ out_queue ctx' = out_queue ctx @ take (n - off) (drop off src)))"
  using assms(1,4,5)
proof (induction turns arbitrary: off nbyte ret ctx)
  case Nil
  then show ?case by (subst write_loop.simps) auto
next
  case (Cons turn turns)
  show ?case
  proof (cases "nbyte = 0")
    case True
    then show ?thesis using Cons.prems(1) by (subst write_loop.simps) auto
  next
    case False
    have turn: "turn_transmits turn" using Cons.prems(2) by simp
    show ?thesis
    proof (rule write_turn_stream [OF Cons.prems(1) assms(2,3) turn Cons.prems(3), of port ret])
      assume "write_turn port u turn src off nbyte ret ctx = Inr None"
      then show ?thesis using False by (subst write_loop.simps) simp
    next
      fix exit n ret' c1 sent
      assume t: "write_turn port u turn src off nbyte ret ctx = Inr (Some (exit, n, nbyte - n, ret', c1))" "out_ok c1"
        "sent @ out_queue c1 = out_queue ctx @ take n (drop off src)" "n \<le> nbyte"
      show ?thesis
      proof (cases "exit = Continue")
        case True
        have "off + n + (nbyte - n) \<le> length src" using Cons.prems(3) t(4) by simp
        then obtain r where r: "write_loop port u turns src (off + n) (nbyte - n) ret' c1 = Inr r"
          "\<forall>exit m ret' ctx'. r = Some (exit, m, ret', ctx') \<longrightarrow> out_ok ctx' \<and> off + n \<le> m \<and> m \<le> off + n + (nbyte - n)
            \<and> (\<exists>sent. sent @ out_queue ctx' = out_queue c1 @ take (m - (off + n)) (drop (off + n) src))"
          using Cons.IH [OF t(2), of "off + n" "nbyte - n" ret'] Cons.prems(2) by auto
        have join: "take n (drop off src) @ take (m - (off + n)) (drop (off + n) src) = take (m - off) (drop off src)" if "off + n \<le> m" for m
          using that take_add [of n "m - (off + n)" "drop off src"] by (simp add: add.commute)
        have "\<exists>sent. sent @ out_queue ctx' = out_queue ctx @ take (m - off) (drop off src)"
          if "sent2 @ out_queue ctx' = out_queue c1 @ take (m - (off + n)) (drop (off + n) src)" "off + n \<le> m" for sent2 m and ctx' :: "('a, 'b) rt_16550_context"
          using that(1) t(3) join [OF that(2)] by (metis append_assoc)
        then show ?thesis using r True t(1,4) False by (subst write_loop.simps) fastforce
      next
        case False
        then show ?thesis using t \<open>nbyte \<noteq> 0\<close> by (subst write_loop.simps) auto
      qed
    qed
  qed
qed

section \<open>Reading as a stream\<close>


text \<open>
  A non-blocking read with no error pending returns at once with the oldest bytes of the input
  queue, as many as there are and were asked for, takes them out of the queue and releases the reader
  lock; on an empty queue it returns \<open>-EAGAIN\<close>.
\<close>

theorem uart_read_nonblocking:
  assumes "in_ok ctx" "\<forall>off n. can_copy u off n" "su_ok u" "ser_status ctx = 0" "\<not> in_lock ctx" "0 < nbyte"
    and "cfg_rx_timeout (ser_config ctx) < 0"
  shows "\<exists>ctx'. rt_16550_read port u [quiet_turn, quiet_turn] nbyte ctx =
      Some (if in_npend ctx = 0 then Inl EAGAIN else Inr (int (min nbyte (in_npend ctx))), take nbyte (in_queue ctx), ctx')
    \<and> in_ok ctx' \<and> in_queue ctx' = drop nbyte (in_queue ctx) \<and> \<not> in_lock ctx'"
  by (rule nonblocking_read [OF assms])

end
