(* ===== verification/Ser_Driver.thy ===== *)
theory Ser_Driver
  imports Ser_Stream
begin

text \<open>
  Writing to a serial port as a stream, and what goes wrong when a block of a kernel caller wraps around the end
  of the ring and when the input ring overruns.
\<close>

section \<open>Writing as a stream\<close>

lemma write_turn_ret:
  assumes "write_turn port u turn src off nbyte ret ctx = Inr (Some (exit, n, nbyte', Inr k, ctx'))"
  shows "ret = Inr k \<or> k = 0"
  using assms
  by (auto simp: write_turn_def Let_def kbind_eq_Inr split: if_splits option.splits sum.splits dest: timedwait_ret)

lemma write_loop_Cons:
  assumes "write_loop port u (turn # turns) src off nbyte ret ctx = Inr (Some x)" "0 < nbyte"
  obtains exit1 n1 m1 ret1 c1 where "write_turn port u turn src off nbyte ret ctx = Inr (Some (exit1, n1, m1, ret1, c1))"
    "if exit1 = Continue then write_loop port u turns src (off + n1) m1 ret1 c1 = Inr (Some x) else x = (exit1, off + n1, ret1, c1)"
proof -
  obtain r where r: "write_turn port u turn src off nbyte ret ctx = Inr r"
    using assms by (subst (asm) write_loop.simps) (auto simp: kbind_eq_Inr)
  then obtain p where p: "r = Some p" using assms by (subst (asm) write_loop.simps) (cases r; simp)
  obtain exit1 n1 m1 ret1 c1 where q: "p = (exit1, n1, m1, ret1, c1)" by (cases p) auto
  show thesis
    using assms r p q by (intro that) (auto simp: write_loop.simps [of port u "turn # turns"] split: if_splits)
qed

lemma write_loop_ret:
  assumes "write_loop port u turns src off nbyte ret ctx = Inr (Some (exit, n, Inr k, ctx'))"
  shows "ret = Inr k \<or> k = 0"
  using assms
proof (induction turns arbitrary: off nbyte ret ctx)
  case Nil
  then show ?case by (subst (asm) write_loop.simps) (auto split: if_splits)
next
  case (Cons turn turns)
  show ?case
  proof (cases "nbyte = 0")
    case True
    then show ?thesis using Cons.prems by (subst (asm) write_loop.simps) auto
  next
    case False
    then have "0 < nbyte" by simp
    then show ?thesis
      by (rule write_loop_Cons [OF Cons.prems]) (metis Cons.IH write_turn_ret Pair_inject)
  qed
qed

text \<open>
  C30: Writing from user space preserves the stream. While interrupts take bytes from the output queue,
  a call never faults, and when it returns, the bytes sent in the meantime followed by the queue it
  leaves are the queue it found followed by a prefix of the caller's bytes; a positive result is the
  length of that prefix.
\<close>

theorem uart_write_stream:
  assumes ok: "out_ok ctx" and u: "su_user u" "\<forall>off n. can_copy u off n" and turns: "\<forall>turn \<in> set turns. turn_transmits turn"
    and lock0: "\<forall>k. fst (rtdm_mutex_timedlock mops lockenv (out_lock ctx) (cfg_rx_timeout (ser_config ctx))) = Inr k \<longrightarrow> k = 0"
  shows "\<exists>res. rt_16550_write port mops lockenv u turns src ctx = Inr res \<and>
    (\<forall>r ctx'. res = Some (r, ctx') \<longrightarrow> out_ok ctx' \<and> (\<exists>n sent. n \<le> length src \<and> sent @ out_queue ctx' = out_queue ctx @ take n src
       \<and> (\<forall>k. r = Inr k \<and> 0 < k \<longrightarrow> k = int n)))"
proof -
  obtain lk mx where lock: "rtdm_mutex_timedlock mops lockenv (out_lock ctx) (cfg_rx_timeout (ser_config ctx)) = (lk, mx)" by fastforce
  define c0 where "c0 = ctx\<lparr>out_lock := mx\<rparr>"
  have c0: "out_ok c0" "out_queue c0 = out_queue ctx" using ok by (simp_all add: c0_def out_ok_def out_queue_def)
  have same: "out_ok (c\<lparr>out_lock := m\<rparr>) = out_ok c" "out_queue (c\<lparr>out_lock := m\<rparr>) = out_queue c" for c :: "('a, 'b) rt_16550_context" and m
    by (simp_all add: out_ok_def out_queue_def)
  show ?thesis
  proof (cases "src = [] \<or> su_user u \<and> \<not> su_ok u \<or> lk \<noteq> Inr 0")
    case True
    then obtain r ctx' where w: "rt_16550_write port mops lockenv u turns src ctx = Inr (Some (r, ctx'))
        \<and> (ctx' = ctx \<or> ctx' = c0) \<and> (\<forall>k. r = Inr k \<longrightarrow> k = 0)"
      using lock lock0 unfolding rt_16550_write_def by (force simp: c0_def [symmetric])
    have "\<exists>n sent. n \<le> length src \<and> sent @ out_queue ctx' = out_queue ctx @ take n src \<and> (\<forall>k. r = Inr k \<and> 0 < k \<longrightarrow> k = int n)"
      by (rule exI [of _ 0], rule exI [of _ "[]"]) (use w c0 in auto)
    then show ?thesis using w ok c0 by auto
  next
    case False
    obtain r where r: "write_loop port u turns src 0 (length src) (Inr 0) c0 = Inr r"
      "\<forall>exit n ret' ctx'. r = Some (exit, n, ret', ctx') \<longrightarrow> out_ok ctx' \<and> n \<le> length src
         \<and> (\<exists>sent. sent @ out_queue ctx' = out_queue ctx @ take n src)"
      using write_loop_stream [OF c0(1) u(1), of turns 0 "length src" src port "Inr 0"] u(2) turns c0(2) by auto
    show ?thesis
    proof (cases r)
      case None
      then show ?thesis using False lock r(1) by (auto simp: rt_16550_write_def c0_def)
    next
      case (Some p)
      obtain exit n ret c1 where p: "p = (exit, n, ret, c1)" by (cases p) auto
      then have c1: "out_ok c1" "n \<le> length src" "\<exists>sent. sent @ out_queue c1 = out_queue ctx @ take n src" using r(2) Some by auto
      have k: "k = 0" if "ret = Inr k" for k
        using write_loop_ret [of port u turns src 0 "length src" "Inr 0" c0 exit n k c1] r(1) Some p that by simp
      define res where "res = (case exit of Return e \<Rightarrow> Inl e | _ \<Rightarrow> if 0 < n \<and> soft_error ret then Inr (int n) else ret)"
      define c2 where "c2 = (case exit of Return e \<Rightarrow> c1 | _ \<Rightarrow> c1\<lparr>out_lock := rtdm_mutex_unlock mops (out_lock c1)\<rparr>)"
      have "rt_16550_write port mops lockenv u turns src ctx = Inr (Some (res, c2))"
        using False lock r(1) Some p unfolding rt_16550_write_def res_def c2_def by (cases exit) (auto simp: c0_def)
      moreover have "out_ok c2" "out_queue c2 = out_queue c1" using c1(1) same by (cases exit; simp add: c2_def)+
      moreover have "k = int n" if "res = Inr k" "0 < k" for k
        using that k by (cases exit) (auto simp: res_def split: if_splits)
      ultimately show ?thesis using c1 by auto
    qed
  qed
qed

section \<open>Blocks of kernel callers\<close>

text \<open>
  A block that a kernel caller writes across the end of the output ring is copied past the end of
  the caller's buffer: the second copy takes the length of the whole block instead of the rest.
\<close>

theorem uart_write_kernel_overruns:
  assumes ok: "out_ok ctx" and kernel: "\<not> su_user u"
    and fits: "0 < length src" "out_npend ctx + length src \<le> OUT_BUFFER_SIZE"
    and wraps: "out_tail ctx + length src > OUT_BUFFER_SIZE"
    and lock: "rtdm_mutex_timedlock mops lockenv (out_lock ctx) (cfg_rx_timeout (ser_config ctx)) = (Inr 0, mx)"
  shows "rt_16550_write port mops lockenv u (quiet_turn # turns) src ctx = Inl OutOfBounds"
proof -
  define c0 where "c0 = ctx\<lparr>out_lock := mx\<rparr>"
  have tail: "out_tail ctx < OUT_BUFFER_SIZE" using ok outr.sz_pos by (simp add: out_ok_def)
  then have "write_copy u src 0 (out_buf c0) (out_tail ctx) (length src) = Inl OutOfBounds"
    using wraps kernel fits by (simp add: write_copy_def can_copy_def src_read_def Let_def)
  moreover have "out_npend ctx < OUT_BUFFER_SIZE" "length src \<le> OUT_BUFFER_SIZE - out_npend ctx" using fits by linarith+
  ultimately have "write_turn port u quiet_turn src 0 (length src) (Inr 0) c0 = Inl OutOfBounds"
    by (simp add: write_turn_def quiet_turn_def c0_def Let_def)
  then have "write_loop port u (quiet_turn # turns) src 0 (length src) (Inr 0) c0 = Inl OutOfBounds"
    using fits(1) by (subst write_loop.simps) simp
  then show ?thesis using fits(1) kernel lock by (simp add: rt_16550_write_def c0_def)
qed

section \<open>Overrun of the input ring\<close>

lemma rx_one:
  assumes n: "in_npend ctx \<le> IN_BUFFER_SIZE" and chars: "chip_chars port fuel (ser_hw ctx) = Some ([x], h1)"
  obtains lsr ctx1 where "rx_char port ts 0 ctx = (lsr, ctx1)"
    "rt_16550_rx_interrupt port fuel ts ctx = Inr (1, ctx1\<lparr>ser_status := ser_status ctx1 OR lsr\<rparr>)"
    "in_buf ctx1 = (in_buf ctx)[in_tail ctx := x]" "in_head ctx1 = in_head ctx"
    "in_tail ctx1 = Suc (in_tail ctx) mod IN_BUFFER_SIZE" "in_npend ctx1 = min (in_npend ctx + 1) IN_BUFFER_SIZE"
    "IN_BUFFER_SIZE \<le> in_npend ctx \<Longrightarrow> bit lsr 8"
proof -
  obtain n where fuel: "fuel = Suc n" using chars by (cases fuel) auto
  obtain c h2 l h3 where hw: "inb port RHR (ser_hw ctx) = (c, h2)" "inb port LSR h2 = (l, h3)" by fastforce
  have c: "c = x" "ucast l AND RTSER_LSR_DATA = 0"
    using chars hw fuel by (auto split: if_splits) (cases n; auto split: if_splits prod.splits)+
  obtain lsr ctx1 where run: "rx_char port ts 0 ctx = (lsr, ctx1)" by fastforce
  have d: "\<not> testbits lsr RTSER_LSR_DATA"
    using n run hw c(2) by (auto simp: rx_char_def inp_def Let_def data_bit data_bit [of 0, simplified] split: if_splits)
  have "bit lsr 8" if "IN_BUFFER_SIZE \<le> in_npend ctx"
    using run hw that n by (auto simp: rx_char_def inp_def Let_def size_small(2) bit_or_iff bit_and_iff bit_not_iff rtser_bits bit_simps)
  moreover have "rt_16550_rx_interrupt port fuel ts ctx = Inr (1, ctx1\<lparr>ser_status := ser_status ctx1 OR lsr\<rparr>)"
    using run d by (simp add: rt_16550_rx_interrupt_def fuel)
  moreover have "in_buf ctx1 = (in_buf ctx)[in_tail ctx := x]" "in_head ctx1 = in_head ctx"
      "in_tail ctx1 = Suc (in_tail ctx) mod IN_BUFFER_SIZE" "in_npend ctx1 = min (in_npend ctx + 1) IN_BUFFER_SIZE"
    using run hw c(1) n size_small(2) [OF n]
    by (cases "in_npend ctx < IN_BUFFER_SIZE"; auto simp: rx_char_def inp_def Let_def in_advance1)+
  ultimately show thesis using run that by blast
qed

text \<open>
  C40: An overrun of the input ring desynchronises it for good. When one more character \<open>x\<close> arrives at a
  full ring, the overrun is recorded, but the write index moves past the read index: the newest
  character takes the place of the oldest at the front of the queue, and after the reader has taken
  all of it, the next character \<open>y\<close> that arrives is not what the reader gets: it gets \<open>x\<close> again.
\<close>

theorem uart_overrun_desync:
  assumes ok: "in_ok ctx" and full: "in_npend ctx = IN_BUFFER_SIZE"
    and x: "chip_chars port fuel (ser_hw ctx) = Some ([x], h1)" and y: "chip_chars port fuel h2 = Some ([y], h3)"
  shows "\<exists>ctx1 ctx2. rt_16550_rx_interrupt port fuel ts ctx = Inr (1, ctx1) \<and> bit (ser_status ctx1) 8
    \<and> in_queue ctx1 = x # tl (in_queue ctx)
    \<and> rt_16550_rx_interrupt port fuel ts ((read_take IN_BUFFER_SIZE ctx1)\<lparr>ser_hw := h2\<rparr>) = Inr (1, ctx2)
    \<and> in_queue ctx2 = [x]"
proof -
  have o: "length (in_buf ctx) = IN_BUFFER_SIZE" "in_head ctx < IN_BUFFER_SIZE" "in_tail ctx = in_head ctx"
    using ok full by (auto simp: in_ok_def)
  obtain lsr c1 where one: "rt_16550_rx_interrupt port fuel ts ctx = Inr (1, c1\<lparr>ser_status := ser_status c1 OR lsr\<rparr>)"
      "in_buf c1 = (in_buf ctx)[in_head ctx := x]" "in_head c1 = in_head ctx"
      "in_tail c1 = Suc (in_head ctx) mod IN_BUFFER_SIZE" "in_npend c1 = IN_BUFFER_SIZE" "bit lsr 8"
    by (rule rx_one [OF _ x, of ts]) (use full o(3) in auto)
  define ctx1 where "ctx1 = c1\<lparr>ser_status := ser_status c1 OR lsr\<rparr>"
  define e where "e = (read_take IN_BUFFER_SIZE ctx1)\<lparr>ser_hw := h2\<rparr>"
  have e: "in_buf e = (in_buf ctx)[in_head ctx := x]" "in_head e = in_head ctx" "in_npend e = 0"
      "in_tail e = Suc (in_head ctx) mod IN_BUFFER_SIZE" "ser_hw e = h2"
    using one o(2) by (simp_all add: e_def ctx1_def read_take_def Let_def ring_masks size_sub_def)
  have ye: "chip_chars port fuel (ser_hw e) = Some ([y], h3)" using y by (simp add: e(5))
  obtain lsr2 c2 where two: "rt_16550_rx_interrupt port fuel ts e = Inr (1, c2\<lparr>ser_status := ser_status c2 OR lsr2\<rparr>)"
      "in_buf c2 = (in_buf e)[in_tail e := y]" "in_head c2 = in_head e" "in_npend c2 = 1"
    by (rule rx_one [OF _ ye, of ts]) (use e(3) inr.sz_pos in auto)
  have neq: "Suc (in_head ctx) mod IN_BUFFER_SIZE \<noteq> in_head ctx"
    using o(2) by (auto simp: mod_Suc IN_BUFFER_SIZE_def)
  have "in_queue (c2\<lparr>ser_status := ser_status c2 OR lsr2\<rparr>) = [x]"
    using two e o neq by (simp add: in_queue_def ring_read_def nth_list_update_any)
  moreover have "in_queue ctx1 = x # tl (in_queue ctx)"
  proof (rule nth_equalityI)
    fix i
    assume "i < length (in_queue ctx1)"
    then have i: "i < IN_BUFFER_SIZE" using one(5) by (simp add: ctx1_def in_queue_def)
    have "(in_head ctx + i) mod IN_BUFFER_SIZE = in_head ctx \<longleftrightarrow> i = 0"
      using mod_shift_inj [of "in_head ctx" i IN_BUFFER_SIZE 0] i o(2) inr.sz_pos by auto
    then show "in_queue ctx1 ! i = (x # tl (in_queue ctx)) ! i"
      using one o i full by (cases i) (auto simp: in_queue_def ctx1_def nth_tl nth_list_update_any)
  qed (use one(5) full inr.sz_pos in \<open>simp add: ctx1_def in_queue_def\<close>)
  ultimately show ?thesis
    using one(1,6) two(1) unfolding e_def ctx1_def by (intro exI conjI) (auto simp: bit_or_iff)
qed

end
