(* ===== verification/Ser_Link.thy ===== *)
theory Ser_Link
  imports Ser_Driver
begin

text \<open>
  Two serial ports connected by a cable: what is written at one end comes out of a read at the other.
\<close>

section \<open>Two ports and a cable\<close>

text \<open>
  A chip with a receive and a transmit queue and a clean line: what the data sheet promises of the
  registers that the data path uses.
\<close>

definition fifo_chip :: "'h uart_port \<Rightarrow> ('h \<Rightarrow> u8 list) \<Rightarrow> ('h \<Rightarrow> u8 list) \<Rightarrow> bool" where
  "fifo_chip port rxq txq \<longleftrightarrow>
     (\<forall>h c cs. rxq h = c # cs \<longrightarrow> fst (inb port RHR h) = c \<and> rxq (snd (inb port RHR h)) = cs) \<and>
     (\<forall>h. rxq (snd (inb port LSR h)) = rxq h \<and> fst (inb port LSR h) = (if rxq h = [] then 0 else 1)) \<and>
     (\<forall>b h. txq (outb port b THR h) = txq h @ [b]) \<and> (\<forall>b r h. r \<noteq> THR \<longrightarrow> txq (outb port b r h) = txq h)"

lemma fifo_chars:
  assumes "fifo_chip port rxq txq" "rxq h = c # cs" "length cs < fuel"
  shows "\<exists>h'. chip_chars port fuel h = Some (c # cs, h')"
  using assms(2,3)
proof (induction cs arbitrary: c h fuel)
  case Nil
  then obtain n where fuel: "fuel = Suc n" by (cases fuel) auto
  obtain h1 h2 l where hw: "inb port RHR h = (c, h1)" "inb port LSR h1 = (l, h2)"
    using assms(1) Nil.prems(1) unfolding fifo_chip_def by (metis prod.collapse)
  have "l = 0" using assms(1) Nil.prems(1) hw unfolding fifo_chip_def by (metis fst_conv snd_conv)
  then show ?case by (simp add: fuel hw)
next
  case (Cons d ds)
  then obtain n where fuel: "fuel = Suc n" by (cases fuel) auto
  obtain h1 h2 l where hw: "inb port RHR h = (c, h1)" "inb port LSR h1 = (l, h2)"
    using assms(1) Cons.prems(1) unfolding fifo_chip_def by (metis prod.collapse)
  have "rxq h1 = d # ds" using assms(1) Cons.prems(1) hw unfolding fifo_chip_def by (metis snd_conv)
  then have l: "l = 1" "rxq h2 = d # ds" using assms(1) hw unfolding fifo_chip_def by (metis fst_conv snd_conv list.distinct(1))+
  then obtain h' where "chip_chars port n h2 = Some (d # ds, h')" using Cons.IH [of h2 d n] Cons.prems(2) fuel by auto
  then show ?case using l(1) by (simp add: fuel hw RTSER_LSR_DATA_def)
qed

text \<open>On a clean line reception leaves no status behind.\<close>

lemma clean_char:
  assumes "fifo_chip port rxq txq" "rx_char port ts lsr ctx = (lsr', ctx')" "in_npend ctx < IN_BUFFER_SIZE" "lsr = 0 \<or> lsr = 1"
  shows "lsr' = 0 \<or> lsr' = 1"
proof -
  obtain c h1 l h2 where hw: "inb port RHR (ser_hw ctx) = (c, h1)" "inb port LSR h1 = (l, h2)" by fastforce
  have "l = 0 \<or> l = 1" using assms(1) hw unfolding fifo_chip_def by (metis fst_conv)
  then show ?thesis
    using assms(2-4) hw by (auto simp: rx_char_def inp_def Let_def size_small(2) rtser_bits)
qed

lemma rx_char_npend:
  "rx_char port ts lsr ctx = (lsr', ctx') \<Longrightarrow> in_npend ctx < IN_BUFFER_SIZE \<Longrightarrow> in_npend ctx' = Suc (in_npend ctx)"
  by (auto simp: rx_char_def inp_def Let_def size_small(2) split: prod.splits)

lemma rx_loop_status:
  "rx_loop port fuel ts n lsr ctx = Inr (n', lsr', ctx') \<Longrightarrow>
    ser_status ctx' = ser_status ctx \<and> in_lock ctx' = in_lock ctx \<and> ser_config ctx' = ser_config ctx"
proof (induction fuel arbitrary: n lsr ctx)
  case (Suc fuel)
  obtain l1 c1 where run: "rx_char port ts lsr ctx = (l1, c1)" by fastforce
  then have "ser_status c1 = ser_status ctx \<and> in_lock c1 = in_lock ctx \<and> ser_config c1 = ser_config ctx"
    by (auto simp: rx_char_def inp_def Let_def split: prod.splits if_splits)
  then show ?case using Suc.prems Suc.IH run by (auto split: if_splits)
qed simp

lemma clean_loop:
  assumes "fifo_chip port rxq txq" "rx_loop port fuel ts n lsr ctx = Inr (n', lsr', ctx')"
    "in_npend ctx + (n' - n) \<le> IN_BUFFER_SIZE" "lsr = 0 \<or> lsr = 1"
  shows "lsr' = 0 \<and> n < n'"
  using assms(2-4)
proof (induction fuel arbitrary: n lsr ctx)
  case (Suc fuel)
  obtain l1 c1 where run: "rx_char port ts lsr ctx = (l1, c1)" by fastforce
  have more: "n + 1 \<le> n'" if "rx_loop port f ts (n + 1) l c = Inr (n', lsr', ctx')" for f l c
    using that by (induction f arbitrary: n l c) (auto split: prod.splits if_splits, fastforce)
  have gt: "n < n'" using Suc.prems(1) run more [of fuel l1 c1] by (auto split: if_splits)
  then have room: "in_npend ctx < IN_BUFFER_SIZE" using Suc.prems(2) by simp
  have l1: "l1 = 0 \<or> l1 = 1" by (rule clean_char [OF assms(1) run room Suc.prems(3)])
  show ?case
  proof (cases "l1 = 0")
    case True
    then show ?thesis using Suc.prems(1) run by (simp add: testbits_def)
  next
    case False
    then have "rx_loop port fuel ts (n + 1) l1 c1 = Inr (n', lsr', ctx')"
      using Suc.prems(1) run l1 by (auto simp: testbits_def RTSER_LSR_DATA_def)
    then show ?thesis
      using Suc.IH [of "n + 1" l1 c1] l1 Suc.prems(2) rx_char_npend [OF run room] gt by auto
  qed
qed simp

lemma quiet_write:
  assumes ok: "out_ok ctx" and u: "su_user u" "\<And>off n. can_copy u off n"
    and fits: "out_npend ctx + length src \<le> OUT_BUFFER_SIZE" "src \<noteq> []"
  shows "\<exists>ctx'. write_loop port u [quiet_turn] src 0 (length src) (Inr 0) ctx = Inr (Some (Break, length src, Inr 0, ctx'))
    \<and> out_ok ctx' \<and> out_queue ctx' = out_queue ctx @ src \<and> (\<exists>i. ser_hw ctx' = outb port i IER (ser_hw ctx))"
proof -
  define ctx' where "ctx' = write_put port (length src) (ctx\<lparr>out_buf := ring_copy_in OUT_BUFFER_SIZE (out_buf ctx) (out_tail ctx) src\<rparr>)"
  have pos: "out_tail ctx < OUT_BUFFER_SIZE" using ok outr.sz_pos by (simp add: out_ok_def)
  have n: "out_npend ctx < OUT_BUFFER_SIZE" "length src \<le> OUT_BUFFER_SIZE - out_npend ctx"
    using fits by (auto simp: less_le_trans [of _ "out_npend ctx + length src"]) 
  have "write_turn port u quiet_turn src 0 (length src) (Inr 0) ctx = Inr (Some (Continue, length src, 0, Inr 0, ctx'))"
    using write_copy_user [OF u, of 0 "length src" src "out_tail ctx" "out_buf ctx"] pos n
    by (simp add: write_turn_def quiet_turn_def Let_def ctx'_def)
  then have "write_loop port u [quiet_turn] src 0 (length src) (Inr 0) ctx = Inr (Some (Break, length src, Inr 0, ctx'))"
    using fits(2) by (subst write_loop.simps) (simp, subst write_loop.simps, simp)
  moreover have "\<exists>i. ser_hw ctx' = outb port i IER (ser_hw ctx)"
    by (simp add: ctx'_def write_put_def Let_def outp_def) blast
  ultimately show ?thesis using write_put_queue [OF ok fits(1), where port = port] by (auto simp: ctx'_def)
qed

lemma tx_interrupts:
  fixes port
  assumes "out_ok ctx"
  defines "f \<equiv> rt_16550_tx_interrupt port"
  shows "out_ok ((f ^^ k) ctx) \<and> out_queue ((f ^^ k) ctx) = drop (k * tx_fifo port) (out_queue ctx)
    \<and> ser_hw ((f ^^ k) ctx) = sends port (take (k * tx_fifo port) (out_queue ctx)) (ser_hw ctx)"
proof (induction k)
  case 0
  then show ?case using assms(1) by (simp add: sends_def)
next
  case (Suc k)
  let ?c = "(f ^^ k) ctx"
  have step: "(f ^^ Suc k) ctx = tx_loop port (tx_fifo port) ?c" by (simp add: f_def rt_16550_tx_interrupt_def)
  have "take (k * tx_fifo port) (out_queue ctx) @ take (tx_fifo port) (drop (k * tx_fifo port) (out_queue ctx))
      = take (Suc k * tx_fifo port) (out_queue ctx)"
    by (simp add: take_add [symmetric] add.commute)
  then show ?case
    using Suc tx_loop_sends [of ?c port "tx_fifo port"] unfolding step by (auto simp: sends_append [symmetric] add.commute)
qed

lemma sends_txq:
  assumes "fifo_chip port rxq txq"
  shows "txq (sends port bs h) = txq h @ bs"
  using assms by (induction bs arbitrary: h) (auto simp: sends_def fifo_chip_def)


end
