(* ===== verification/Ser_Line.thy ===== *)
theory Ser_Line
  imports Ser_Link
begin

text \<open>
  The line configuration of the serial driver: the divisor of a baud rate, and the slip in setting the event mask.
\<close>

section \<open>Baud rate\<close>

text \<open>A chip that is nothing but its registers.\<close>

definition reg_port :: "u32 \<Rightarrow> (nat \<Rightarrow> u8) uart_port" where
  "reg_port base = \<lparr>inb = (\<lambda>r h. (h r, h)), outb = (\<lambda>v r h. h(r := v)), baud_base = base, tx_fifo = 16\<rparr>"

lemma reg_port_simps [simp]:
  "inp (reg_port base) r ctx = (ucast (ser_hw ctx r), ctx)"
  "outp (reg_port base) v r ctx = ctx\<lparr>ser_hw := (ser_hw ctx)(r := ucast v)\<rparr>"
  "baud_base (reg_port base) = base"
  by (simp_all add: inp_def outp_def reg_port_def)

lemma uint_signed_drop_bit:
  assumes "uint (x :: u32) < 2 ^ 31"
  shows "uint (signed_drop_bit n x) = uint x div 2 ^ n"
proof -
  have s: "sint x = uint x"
    using assms signed_take_bit_int_eq_self [of 31 "uint x"] uint_ge_0 [of x] by (simp add: sint_uint)
  have "sint (signed_drop_bit n x) = uint x div 2 ^ n" by (simp add: sint_signed_drop_bit_eq s drop_bit_eq_div)
  then have "uint (signed_drop_bit n x) = take_bit 32 (uint x div 2 ^ n)"
    using uint_sint [of "signed_drop_bit n x"] by simp
  moreover have "0 \<le> uint x div 2 ^ n" "uint x div 2 ^ n < 2 ^ 32"
    using assms by (auto simp: pos_imp_zdiv_nonneg_iff intro: le_less_trans [OF zdiv_mono2 [of "uint x" 1 "2 ^ n", simplified]])
  ultimately show ?thesis by (simp add: take_bit_int_eq_self)
qed

lemma round_half:
  fixes b r :: int
  assumes "0 < r" "0 \<le> b"
  shows "2 * \<bar>b - (b + r div 2) div r * r\<bar> \<le> r"
proof -
  define q where "q = (b + r div 2) div r"
  have "q * r \<le> b + r div 2" "b + r div 2 < q * r + r"
    using assms by (auto simp: q_def minus_mod_eq_div_mult [symmetric])
  moreover define m where "m = q * r"
  ultimately have "m \<le> b + r div 2" "b + r div 2 < m + r" by auto
  then have "2 * \<bar>b - m\<bar> \<le> r" by presburger
  then show ?thesis by (simp add: m_def q_def)
qed

lemma divisor_bytes:
  assumes "uint (d :: u32) < 65536"
  shows "256 * uint (ucast (signed_drop_bit 8 d) :: u8) + uint (ucast (d AND 0xff) :: u8) = uint d"
proof -
  have low: "uint (ucast (d AND 0xff) :: u8) = uint d mod 256"
  proof -
    have "d AND 0xff = take_bit 8 d" by (simp add: take_bit_eq_mask mask_eq_exp_minus_1)
    then show ?thesis by (simp add: unsigned_ucast_eq unsigned_take_bit_eq) (simp add: take_bit_eq_mod)
  qed
  have "uint (signed_drop_bit 8 d) = uint d div 256" using uint_signed_drop_bit [of d 8] assms by simp
  moreover have "uint d div 256 * 256 \<le> uint d" by (simp add: minus_mod_eq_div_mult [symmetric])
  then have "0 \<le> uint d div 256" "uint d div 256 < 256" using assms by (simp_all add: pos_imp_zdiv_nonneg_iff)
  ultimately have "uint (ucast (signed_drop_bit 8 d) :: u8) = uint d div 256"
    by (simp add: unsigned_ucast_eq take_bit_int_eq_self)
  with low show ?thesis by (simp add: mult_div_mod_eq)
qed

lemma divisor_value:
  assumes "0 < uint rate" "uint rate \<le> uint base" "uint base < 2147483648"
  shows "uint (baud_divisor base rate) = (uint base + uint rate div 2) div uint rate"
proof -
  have "uint (signed_drop_bit 1 rate) = uint rate div 2" using uint_signed_drop_bit [of rate 1] assms by simp
  moreover have "uint base + uint rate div 2 < 4294967296" "0 \<le> uint rate div 2" using assms by presburger+
  ultimately show ?thesis by (simp add: baud_divisor_def uint_div uint_word_ariths(1))
qed

text \<open>Requests with one bit of the mask.\<close>

lemma one_bit:
  "testbits RTSER_SET_BAUD RTSER_SET_BAUD = True"
  "testbits RTSER_SET_BAUD RTSER_SET_PARITY = False"
  "testbits RTSER_SET_BAUD RTSER_SET_DATA_BITS = False"
  "testbits RTSER_SET_BAUD RTSER_SET_STOP_BITS = False"
  "testbits RTSER_SET_BAUD RTSER_SET_HANDSHAKE = False"
  "testbits RTSER_SET_BAUD RTSER_SET_FIFO_DEPTH = False"
  "testbits RTSER_SET_BAUD RTSER_SET_TIMEOUT_RX = False"
  "testbits RTSER_SET_BAUD RTSER_SET_TIMEOUT_TX = False"
  "testbits RTSER_SET_BAUD RTSER_SET_TIMEOUT_EVENT = False"
  "testbits RTSER_SET_BAUD RTSER_SET_TIMESTAMP_HISTORY = False"
  "testbits RTSER_SET_BAUD RTSER_SET_EVENT_MASK = False"
  "testbits RTSER_SET_BAUD (RTSER_SET_PARITY OR RTSER_SET_DATA_BITS OR RTSER_SET_STOP_BITS OR RTSER_SET_BAUD) = True"
  "testbits RTSER_SET_EVENT_MASK RTSER_SET_BAUD = False"
  "testbits RTSER_SET_EVENT_MASK RTSER_SET_PARITY = False"
  "testbits RTSER_SET_EVENT_MASK RTSER_SET_DATA_BITS = False"
  "testbits RTSER_SET_EVENT_MASK RTSER_SET_STOP_BITS = False"
  "testbits RTSER_SET_EVENT_MASK RTSER_SET_HANDSHAKE = False"
  "testbits RTSER_SET_EVENT_MASK RTSER_SET_FIFO_DEPTH = False"
  "testbits RTSER_SET_EVENT_MASK RTSER_SET_TIMEOUT_RX = False"
  "testbits RTSER_SET_EVENT_MASK RTSER_SET_TIMEOUT_TX = False"
  "testbits RTSER_SET_EVENT_MASK RTSER_SET_TIMEOUT_EVENT = False"
  "testbits RTSER_SET_EVENT_MASK RTSER_SET_TIMESTAMP_HISTORY = False"
  "testbits RTSER_SET_EVENT_MASK RTSER_SET_EVENT_MASK = True"
  "testbits RTSER_SET_EVENT_MASK (RTSER_SET_PARITY OR RTSER_SET_DATA_BITS OR RTSER_SET_STOP_BITS OR RTSER_SET_BAUD) = False"
  by (simp_all add: testbits_def rtser_bits)

lemmas set_config_defs = rt_16550_ioctl_def ser_set_config_def rt_16550_set_config_def set_baud_def set_framing_def set_fifo_def
  set_timeouts_def set_history_def set_handshake_def one_bit


text \<open>
  A request for the baud rate 0 divides by zero: the check of the request only refuses rates above
  the base rate.
\<close>

lemma uart_baud_zero:
  assumes "config_mask config = RTSER_SET_BAUD" "cfg_baud_rate config = 0" "copy_result call = Inr 0"
  shows "rt_16550_ioctl port call (RTSER_RTIOC_SET_CONFIG config) ctx = Inl DivByZero"
  using assms by (simp add: set_config_defs Let_def)

section \<open>Event mask\<close>

text \<open>
  Changing the event mask to one without modem events masks the transmitter interrupt instead of the
  modem status interrupt: pending output stays in the queue with nothing left to send it.
\<close>

theorem uart_event_mask_stalls:
  assumes "config_mask config = RTSER_SET_EVENT_MASK" "copy_result call = Inr 0" "sc_env call = (\<lambda>_ c. c)"
    and "\<not> testbits (cfg_event_mask config) (RTSER_EVENT_MODEMHI OR RTSER_EVENT_MODEMLO)"
  shows "\<exists>ctx'. rt_16550_ioctl port call (RTSER_RTIOC_SET_CONFIG config) ctx = Inr (Some (Inr 0, SerNone, ctx'))
    \<and> out_queue ctx' = out_queue ctx \<and> \<not> testbits (ier_status ctx') IER_TX
    \<and> ser_hw ctx' = outb port (ucast (ier_status ctx')) IER (ser_hw ctx)"
proof -
  have tx: "(x AND NOT IER_TX) AND IER_TX = 0" for x
    by (rule bit_word_eqI) (auto simp: bit_and_iff bit_not_iff)
  define ctx' where "ctx' = set_event_mask port config ctx"
  have "rt_16550_ioctl port call (RTSER_RTIOC_SET_CONFIG config) ctx = Inr (Some (Inr 0, SerNone, ctx'))"
    using assms(1-3)
    by (simp add: set_config_defs Let_def ctx'_def)
  moreover have "out_queue ctx' = out_queue ctx" "\<not> testbits (ier_status ctx') IER_TX"
      "ser_hw ctx' = outb port (ucast (ier_status ctx')) IER (ser_hw ctx)"
    using assms(1,4) tx by (simp_all add: ctx'_def set_event_mask_def one_bit Let_def outp_def out_queue_def) (simp add: testbits_def)
  ultimately show ?thesis by blast
qed

end
