(* ===== verification/Ser_Safety.thy ===== *)
theory Ser_Safety
  imports Ser_Line
begin

text \<open>
  Memory safety of the serial driver under interleaving. The interrupt handler, the sections of the
  device requests and the two halves of the copies of \<open>read\<close> and \<open>write\<close>, which run without the lock,
  are the steps of a transition system; in every state it reaches, the ring indices are in range, the
  output ring is consistent, and a copy in flight stays inside its ring.
\<close>

section \<open>The transition system\<close>

text \<open>
  A state is the context, the block (position and length) that the one reader is copying, and the
  block that the one writer is copying.
\<close>

type_synonym ('h, 'm) ser_sys = "('h, 'm) rt_16550_context \<times> (nat \<times> nat) option \<times> (nat \<times> nat) option"

inductive ser_step :: "'h uart_port \<Rightarrow> ('h, 'm) ser_sys \<Rightarrow> ('h, 'm) ser_sys \<Rightarrow> bool"
  for port :: "'h uart_port" where
  irq: "rt_16550_interrupt port fuel ts ctx = Inr (handled, ctx') \<Longrightarrow> ser_step port (ctx, rd, wr) (ctx', rd, wr)"
| read_enable: "ser_step port (ctx, rd, wr) (read_enable port ctx, rd, wr)"
| read_status: "ser_step port (ctx, rd, wr) (snd (read_status ctx), rd, wr)"
| read_wait: "ser_step port (ctx, rd, wr) (ctx\<lparr>in_nwait := n\<rparr>, rd, wr)"
| read_begin: "as_int (in_npend ctx) > 0 \<Longrightarrow> block \<le> nat (as_int (in_npend ctx))
    \<Longrightarrow> ser_step port (ctx, None, wr) (ctx, Some (in_head ctx, block), wr)"
| read_end: "ser_step port (ctx, Some (pos, block), wr) (read_take block ctx, None, wr)"
| read_fault: "ser_step port (ctx, Some b, wr) (ctx, None, wr)"
| write_begin: "block \<le> OUT_BUFFER_SIZE - out_npend ctx
    \<Longrightarrow> ser_step port (ctx, rd, None) (ctx, rd, Some (out_tail ctx, block))"
| write_end: "write_copy u src off (out_buf ctx) pos block = Inr (n, buf, ok)
    \<Longrightarrow> ser_step port (ctx, rd, Some (pos, block)) (if ok then write_put port block (ctx\<lparr>out_buf := buf\<rparr>) else ctx\<lparr>out_buf := buf\<rparr>, rd, None)"
| events: "ser_step port (ctx, rd, wr) (upd_in_event f (upd_out_event g (upd_ioc_event k ctx)), rd, wr)"
| config_line: "set_baud port config ctx = Inr ctx'
    \<Longrightarrow> ser_step port (ctx, rd, wr) (set_fifo port config (set_framing port config ctx'), rd, wr)"
| config_timeouts: "ser_step port (ctx, rd, wr) (set_timeouts config ctx, rd, wr)"
| config_history: "(\<forall>h. hist = Some h \<longrightarrow> length h = IN_BUFFER_SIZE) \<Longrightarrow> set_history config hist ctx = (r, hist', ctx')
    \<Longrightarrow> ser_step port (ctx, rd, wr) (ctx', rd, wr)"
| config_events: "ser_step port (ctx, rd, wr) (set_event_mask port config ctx, rd, wr)"
| config_handshake: "ser_step port (ctx, rd, wr) (set_handshake port config ctx, rd, wr)"
| get_status: "ser_step port (ctx, rd, wr) (snd (get_status port ctx), rd, wr)"
| purge: "ser_step port (ctx, rd, wr) (purge port arg ctx, rd, wr)"

text \<open>The states after a successful open: the buffers are the arrays of the context.\<close>

definition opened :: "'h uart_port \<Rightarrow> 'm rt_mutex_ops \<Rightarrow> ('h, 'm) ser_sys \<Rightarrow> bool" where
  "opened port mops = (\<lambda>(ctx, rd, wr). rd = None \<and> wr = None
     \<and> (\<exists>ctx0 dummy. length (in_buf ctx0) = IN_BUFFER_SIZE \<and> length (out_buf ctx0) = OUT_BUFFER_SIZE
        \<and> rt_16550_open port mops (\<lambda>_ c. c) dummy (Inr 0) ctx0 = Inr (Inr 0, ctx)))"

section \<open>The invariant\<close>

text \<open>
  The counter of the input ring can wrap below zero when the ring is purged during a read; it is then
  negative as an \<open>int\<close>, and no further read begins.
\<close>

definition uart_safe :: "('h, 'm) rt_16550_context \<Rightarrow> bool" where
  "uart_safe ctx \<longleftrightarrow> length (in_buf ctx) = IN_BUFFER_SIZE \<and> in_head ctx < IN_BUFFER_SIZE \<and> in_tail ctx < IN_BUFFER_SIZE
     \<and> (in_npend ctx \<le> IN_BUFFER_SIZE \<or> 2 ^ 64 - IN_BUFFER_SIZE \<le> in_npend ctx \<and> in_npend ctx < 2 ^ 64)
     \<and> (\<forall>h. in_history ctx = Some h \<longrightarrow> length h = IN_BUFFER_SIZE) \<and> out_ok ctx"

definition ser_inv :: "('h, 'm) ser_sys \<Rightarrow> bool" where
  "ser_inv = (\<lambda>(ctx, rd, wr). uart_safe ctx
     \<and> (\<forall>pos block. rd = Some (pos, block) \<longrightarrow> pos < IN_BUFFER_SIZE \<and> block \<le> IN_BUFFER_SIZE \<and> in_npend ctx \<le> IN_BUFFER_SIZE)
     \<and> (\<forall>pos block. wr = Some (pos, block) \<longrightarrow> pos < OUT_BUFFER_SIZE \<and> out_npend ctx + block \<le> OUT_BUFFER_SIZE))"

text \<open>What every section but the ends of the copies does.\<close>

definition keeps :: "('h, 'm) rt_16550_context \<Rightarrow> ('h, 'm) rt_16550_context \<Rightarrow> bool" where
  "keeps ctx ctx' \<longleftrightarrow> (uart_safe ctx \<longrightarrow> uart_safe ctx' \<and> out_npend ctx' \<le> out_npend ctx
     \<and> (in_npend ctx \<le> IN_BUFFER_SIZE \<longrightarrow> in_npend ctx' \<le> IN_BUFFER_SIZE))"

lemma keeps_refl: "keeps ctx ctx"
  by (simp add: keeps_def)

lemma keeps_trans: "keeps a b \<Longrightarrow> keeps b c \<Longrightarrow> keeps a c"
  by (auto simp: keeps_def)

lemma keeps_same:
  "in_buf ctx' = in_buf ctx \<Longrightarrow> in_head ctx' = in_head ctx \<Longrightarrow> in_tail ctx' = in_tail ctx
    \<Longrightarrow> in_npend ctx' = in_npend ctx \<Longrightarrow> in_history ctx' = in_history ctx \<Longrightarrow> out_buf ctx' = out_buf ctx
    \<Longrightarrow> out_head ctx' = out_head ctx \<Longrightarrow> out_tail ctx' = out_tail ctx \<Longrightarrow> out_npend ctx' = out_npend ctx \<Longrightarrow> keeps ctx ctx'"
  by (simp add: keeps_def uart_safe_def out_ok_def)

section \<open>The interrupt handler\<close>

lemma inp_keeps: "inp port r ctx = (v, ctx') \<Longrightarrow> keeps ctx ctx'"
  by (rule keeps_same) (auto simp: inp_def split: prod.splits)

lemma outp_keeps: "keeps ctx (outp port v r ctx)"
  by (rule keeps_same) (simp_all add: outp_def)

lemma rx_char_keeps:
  assumes "rx_char port ts lsr ctx = (lsr', ctx')"
  shows "keeps ctx ctx'"
proof -
  obtain c h1 l h2 where hw: "inb port RHR (ser_hw ctx) = (c, h1)" "inb port LSR h1 = (l, h2)" by fastforce
  define n where "n = Suc (in_npend ctx) mod 2 ^ 64"
  have f: "in_buf ctx' = (in_buf ctx)[in_tail ctx := c]" "in_history ctx' = map_option (\<lambda>h. h[in_tail ctx := ts]) (in_history ctx)"
      "in_head ctx' = in_head ctx" "in_tail ctx' = Suc (in_tail ctx) mod IN_BUFFER_SIZE"
      "in_npend ctx' = (if n > IN_BUFFER_SIZE then in_npend ctx else n)"
      "out_buf ctx' = out_buf ctx" "out_head ctx' = out_head ctx" "out_tail ctx' = out_tail ctx" "out_npend ctx' = out_npend ctx"
    using assms hw by (auto simp: rx_char_def inp_def Let_def in_advance1 n_def split: if_splits)
  show ?thesis using inr.sz_pos by (auto simp: keeps_def uart_safe_def out_ok_def f)
qed

lemma rx_loop_keeps: "rx_loop port fuel ts n lsr ctx = Inr (n', lsr', ctx') \<Longrightarrow> keeps ctx ctx'"
proof (induction fuel arbitrary: n lsr ctx)
  case (Suc fuel)
  obtain l1 c1 where run: "rx_char port ts lsr ctx = (l1, c1)" by fastforce
  show ?case
    using Suc.prems Suc.IH keeps_trans [OF rx_char_keeps [OF run]] rx_char_keeps [OF run] run by (auto split: if_splits)
qed simp

lemma rx_interrupt_keeps:
  assumes "rt_16550_rx_interrupt port fuel ts ctx = Inr (n, ctx')"
  shows "keeps ctx ctx'"
proof -
  obtain lsr c1 where run: "rx_loop port fuel ts 0 0 ctx = Inr (n, lsr, c1)" "ctx' = c1\<lparr>ser_status := ser_status c1 OR lsr\<rparr>"
    using assms by (auto simp: rt_16550_rx_interrupt_def kbind_eq_Inr)
  have "keeps c1 ctx'" by (rule keeps_same) (simp_all add: run(2))
  then show ?thesis by (rule keeps_trans [OF rx_loop_keeps [OF run(1)]])
qed

lemma tx_loop_keeps: "keeps ctx (tx_loop port k ctx)"
proof -
  have "uart_safe (tx_loop port k ctx) \<and> out_npend (tx_loop port k ctx) \<le> out_npend ctx
      \<and> in_npend (tx_loop port k ctx) = in_npend ctx" if safe: "uart_safe ctx"
  proof -
    have t: "out_ok (tx_loop port k ctx)" "out_queue (tx_loop port k ctx) = drop k (out_queue ctx)"
        "tx_frame ctx (tx_loop port k ctx)"
      using tx_loop_sends [of ctx port k] safe by (auto simp: uart_safe_def)
    have "out_npend (tx_loop port k ctx) \<le> out_npend ctx"
      using arg_cong [OF t(2), of length] by simp
    with t(1,3) safe show ?thesis by (auto simp: uart_safe_def tx_frame_def)
  qed
  then show ?thesis by (simp add: keeps_def)
qed

lemma stat_interrupt_keeps: "keeps ctx (rt_16550_stat_interrupt port ctx)"
  by (rule keeps_same) (simp_all add: rt_16550_stat_interrupt_def inp_def split: prod.splits)

lemma irq_turn_keeps: "irq_turn port fuel ts iir ctx = Inr (n, ev, ctx') \<Longrightarrow> keeps ctx ctx'"
  by (auto simp: irq_turn_def kbind_eq_Inr rt_16550_tx_interrupt_def split: if_splits prod.splits
      intro: rx_interrupt_keeps tx_loop_keeps stat_interrupt_keeps inp_keeps keeps_refl)

lemma irq_loop_keeps: "irq_loop port fuel ts handled n ev ctx = Inr (handled', n', ev', ctx') \<Longrightarrow> keeps ctx ctx'"
proof (induction fuel arbitrary: handled n ev ctx)
  case (Suc fuel)
  obtain v c1 where v: "inp port IIR ctx = (v, c1)" by fastforce
  show ?case
  proof (cases "testbits (v AND IIR_MASK) IIR_PIRQ")
    case True
    then show ?thesis using Suc.prems v inp_keeps [OF v] by simp
  next
    case False
    then obtain m e c2 where "irq_turn port fuel ts (v AND IIR_MASK) c1 = Inr (m, e, c2)"
        "irq_loop port fuel ts True (n + m) (ev OR e) c2 = Inr (handled', n', ev', ctx')"
      using Suc.prems v by (auto simp: kbind_eq_Inr Let_def)
    then show ?thesis by (meson Suc.IH irq_turn_keeps inp_keeps [OF v] keeps_trans)
  qed
qed simp

lemma interrupt_keeps:
  assumes "rt_16550_interrupt port fuel ts ctx = Inr (handled, ctx')"
  shows "keeps ctx ctx'"
proof -
  obtain n ev c1 where run: "irq_loop port fuel ts False 0 0 ctx = Inr (handled, n, ev, c1)"
      "ctx' = irq_finish port (post_events ts ev (wake_reader n c1))"
    using assms by (auto simp: rt_16550_interrupt_def kbind_eq_Inr)
  let ?c2 = "wake_reader n c1"
  let ?c3 = "post_events ts ev ?c2"
  have "keeps c1 ?c2" by (rule keeps_same) (simp_all add: wake_reader_def)
  moreover have "keeps ?c2 ?c3" by (rule keeps_same) (simp_all add: post_events_def Let_def split: prod.splits)
  moreover have "keeps ?c3 ctx'" unfolding run(2) by (rule keeps_same) (simp_all add: irq_finish_def Let_def outp_def)
  ultimately show ?thesis using irq_loop_keeps [OF run(1)] by (meson keeps_trans)
qed

section \<open>Configuration and requests\<close>

lemma set_baud_keeps: "set_baud port config ctx = Inr ctx' \<Longrightarrow> keeps ctx ctx'"
  by (rule keeps_same) (auto simp: set_baud_def Let_def outp_def split: if_splits)

lemma config_keeps:
  "keeps ctx (set_framing port config ctx)" "keeps ctx (set_fifo port config ctx)"
  "keeps ctx (set_timeouts config ctx)" "keeps ctx (set_event_mask port config ctx)"
  "keeps ctx (set_handshake port config ctx)"
  by (rule keeps_same; simp add: set_framing_def set_fifo_def set_timeouts_def set_event_mask_def set_handshake_def Let_def outp_def)+

lemma set_history_keeps:
  "(\<forall>h. hist = Some h \<longrightarrow> length h = IN_BUFFER_SIZE) \<Longrightarrow> set_history config hist ctx = (r, hist', ctx') \<Longrightarrow> keeps ctx ctx'"
  by (auto simp: keeps_def set_history_def uart_safe_def out_ok_def split: if_splits)

lemma request_keeps: "keeps ctx (snd (get_status port ctx))" "keeps ctx (snd (read_status ctx))" "keeps ctx (read_enable port ctx)"
  by (rule keeps_same; simp add: get_status_def read_status_def read_enable_def Let_def inp_def outp_def split: prod.splits)+

lemma purge_keeps: "keeps ctx (purge port arg ctx)"
  using inr.sz_pos outr.sz_pos
  by (auto simp: keeps_def purge_def Let_def inp_def outp_def uart_safe_def out_ok_def split: prod.splits if_splits)

lemma events_keeps: "keeps ctx (upd_in_event f (upd_out_event g (upd_ioc_event k ctx)))"
  by (rule keeps_same) (simp_all add: upd_in_event_def upd_out_event_def upd_ioc_event_def)

section \<open>The copies\<close>

lemma as_int_wrapped: "2 ^ 64 - IN_BUFFER_SIZE \<le> n \<Longrightarrow> n < 2 ^ 64 \<Longrightarrow> as_int n < 0"
proof -
  assume n: "2 ^ 64 - IN_BUFFER_SIZE \<le> n" "n < 2 ^ 64"
  define k where "k = 2 ^ 64 - n"
  have k: "0 < k" "k \<le> 4096" "n = 2 ^ 64 - k" using n by (auto simp: k_def IN_BUFFER_SIZE_def)
  have "(of_nat n :: u32) = of_nat (2 ^ 64) - of_nat k" using k by (simp only: k(3)) (rule of_nat_diff, simp)
  then have "(of_nat n :: u32) = - of_nat k" by simp
  moreover have "sint (- of_nat k :: u32) = - int k"
  proof -
    have "(- of_nat k :: u32) = of_int (- int k)" by simp
    then show ?thesis using k by (simp only: signed_of_int) (simp add: signed_take_bit_int_eq_self)
  qed
  ultimately show ?thesis using k(1) unfolding as_int_def by simp
qed

lemma read_take_safe:
  assumes "uart_safe ctx" "in_npend ctx \<le> IN_BUFFER_SIZE" "block \<le> IN_BUFFER_SIZE"
  shows "uart_safe (read_take block ctx)" "out_npend (read_take block ctx) = out_npend ctx"
proof -
  have "IN_BUFFER_SIZE < 2 ^ 64" by (simp add: IN_BUFFER_SIZE_def)
  then show "uart_safe (read_take block ctx)" "out_npend (read_take block ctx) = out_npend ctx"
    using assms inr.sz_pos
    by (auto simp: uart_safe_def out_ok_def read_take_def Let_def ring_masks size_sub_def)
qed

lemma write_copy_length:
  assumes "write_copy u src off buf pos block = Inr (n, buf', ok)" "length buf = OUT_BUFFER_SIZE" "pos < OUT_BUFFER_SIZE"
    "block \<le> OUT_BUFFER_SIZE"
  shows "length buf' = OUT_BUFFER_SIZE"
  using assms by (auto simp: write_copy_def src_read_def Let_def kbind_eq_Inr split: if_splits)

lemma write_put_safe:
  assumes "uart_safe ctx" "length buf = OUT_BUFFER_SIZE" "out_npend ctx + block \<le> OUT_BUFFER_SIZE"
  shows "uart_safe (write_put port block (ctx\<lparr>out_buf := buf\<rparr>))"
    "in_npend (write_put port block (ctx\<lparr>out_buf := buf\<rparr>)) = in_npend ctx"
  using assms by (auto simp: uart_safe_def out_ok_def write_put_def Let_def outp_def ring_masks mod_simps add.assoc)

section \<open>Every reachable state is safe\<close>

lemma keeps_inv: "keeps ctx ctx' \<Longrightarrow> ser_inv (ctx, rd, wr) \<Longrightarrow> ser_inv (ctx', rd, wr)"
  by (fastforce simp: ser_inv_def keeps_def)

lemma read_begin_inv:
  "ser_inv (ctx, None, wr) \<Longrightarrow> as_int (in_npend ctx) > 0 \<Longrightarrow> block \<le> nat (as_int (in_npend ctx))
    \<Longrightarrow> ser_inv (ctx, Some (in_head ctx, block), wr)"
  using as_int_wrapped [of "in_npend ctx"] size_small(1) [of "in_npend ctx"] by (auto simp: ser_inv_def uart_safe_def)

lemma write_end_inv:
  assumes inv: "ser_inv (ctx, rd, Some (pos, block))" and run: "write_copy u src off (out_buf ctx) pos block = Inr (n, buf, ok)"
  shows "ser_inv (if ok then write_put port block (ctx\<lparr>out_buf := buf\<rparr>) else ctx\<lparr>out_buf := buf\<rparr>, rd, None)"
proof -
  have w: "uart_safe ctx" "pos < OUT_BUFFER_SIZE" "out_npend ctx + block \<le> OUT_BUFFER_SIZE" using inv by (auto simp: ser_inv_def)
  have len: "length buf = OUT_BUFFER_SIZE"
    using write_copy_length [OF run] w by (auto simp: uart_safe_def out_ok_def)
  have "uart_safe (ctx\<lparr>out_buf := buf\<rparr>)" using w(1) len by (simp add: uart_safe_def out_ok_def)
  then show ?thesis using inv write_put_safe [OF w(1) len w(3), of port] by (auto simp: ser_inv_def)
qed

lemma step_inv: "ser_step port s t \<Longrightarrow> ser_inv s \<Longrightarrow> ser_inv t"
proof (induction rule: ser_step.induct)
  case (read_begin ctx block wr)
  then show ?case by (intro read_begin_inv)
next
  case (read_end ctx pos block wr)
  then show ?case using read_take_safe [of ctx block] by (auto simp: ser_inv_def)
next
  case (write_begin block ctx rd)
  then show ?case using outr.sz_pos by (auto simp: ser_inv_def uart_safe_def out_ok_def)
next
  case (config_line config ctx ctx' rd wr)
  then show ?case by (meson keeps_inv keeps_trans set_baud_keeps config_keeps)
next
  case (read_wait ctx rd wr n)
  have "keeps ctx (ctx\<lparr>in_nwait := n\<rparr>)" by (rule keeps_same) simp_all
  then show ?case using read_wait by (rule keeps_inv)
next
  case (read_fault ctx b wr)
  then show ?case by (simp add: ser_inv_def)
next
  case (write_end u src off ctx pos block n buf ok rd)
  then show ?case by (intro write_end_inv)
qed (meson keeps_inv interrupt_keeps request_keeps config_keeps set_history_keeps purge_keeps events_keeps)+

lemma opened_inv:
  assumes "opened port mops s"
  shows "ser_inv s"
proof -
  obtain ctx ctx0 dummy where s: "s = (ctx, None, None)" "length (in_buf ctx0) = IN_BUFFER_SIZE" "length (out_buf ctx0) = OUT_BUFFER_SIZE"
      "rt_16550_open port mops (\<lambda>_ c. c) dummy (Inr 0) ctx0 = Inr (Inr 0, ctx)"
    using assms by (auto simp: opened_def)
  define ctx1 where "ctx1 = ctx0\<lparr>in_event := rtdm_event_init (in_event ctx0) False, out_event := rtdm_event_init (out_event ctx0) False,
            ioc_event := rtdm_event_init (ioc_event ctx0) False, out_lock := rtdm_mutex_init mops (out_lock ctx0),
            in_head := 0, in_tail := 0, in_npend := 0, in_nwait := 0, in_lock := False, in_history := None,
            out_head := 0, out_tail := 0, out_npend := 0,
            ioc_events := 0, ioc_event_lock := False, ser_status := 0, saved_errors := 0\<rparr>"
  have safe: "uart_safe ctx1"
    using s inr.sz_pos outr.sz_pos by (simp add: ctx1_def uart_safe_def out_ok_def)
  obtain r c2 hist where cfg: "rt_16550_set_config port (\<lambda>_ c. c) default_config dummy ctx1 = Inr (r, hist, c2)"
      "ctx = outp port IER_RX IER (c2\<lparr>ier_status := IER_RX\<rparr>)"
    using s(4) unfolding rt_16550_open_def ctx1_def [symmetric] Let_def by (auto simp: kbind_eq_Inr)
  have nohist: "testbits (cfg_timestamp_history default_config) RTSER_RX_TIMESTAMP_HISTORY = False"
    by (simp add: default_config_def testbits_def)
  obtain c3 where b: "set_baud port default_config ctx1 = Inr c3" using cfg(1) by (auto simp: rt_16550_set_config_def kbind_eq_Inr)
  let ?c4 = "set_timeouts default_config (set_fifo port default_config (set_framing port default_config c3))"
  obtain r5 h5 c5 where h: "set_history default_config dummy ?c4 = (r5, h5, c5)" by (cases "set_history default_config dummy ?c4")
  have "keeps ?c4 c5"
    using h nohist by (auto simp: set_history_def keeps_def uart_safe_def out_ok_def split: if_splits)
  moreover have "keeps ctx1 ?c4"
    by (meson keeps_trans set_baud_keeps [OF b] config_keeps)
  moreover have "c2 = set_handshake port default_config (set_event_mask port default_config c5)"
    using cfg(1) b h by (simp add: rt_16550_set_config_def Let_def)
  then have "keeps c5 c2" by (metis keeps_trans config_keeps)
  moreover have "keeps c2 ctx" unfolding cfg(2) by (rule keeps_same) (simp_all add: outp_def)
  ultimately have "keeps ctx1 ctx" by (meson keeps_trans)
  then have "uart_safe ctx" using safe by (simp add: keeps_def)
  then show ?thesis by (simp add: ser_inv_def s(1))
qed

interpretation ser_reach: inductive_invariant "opened port mops" "ser_step port" ser_inv for port mops
  by unfold_locales (blast intro: opened_inv step_inv)+

text \<open>
  C14: Memory safety of the serial driver. From a successful open, in every state that interrupts, device
  requests, purges and the copies of the reader and the writer reach in any interleaving, the head
  and tail of the input ring are inside it, the output ring is consistent, the block that the reader
  is copying starts inside the ring and is no longer than it, and the block that the writer is
  copying fits the free part of the output ring.
\<close>

theorem uart_memory_safe:
  assumes "reach (opened port mops) (ser_step port) (ctx, rd, wr)"
  shows "length (in_buf ctx) = IN_BUFFER_SIZE \<and> in_head ctx < IN_BUFFER_SIZE \<and> in_tail ctx < IN_BUFFER_SIZE \<and> out_ok ctx
    \<and> (case rd of None \<Rightarrow> True | Some (pos, block) \<Rightarrow> pos < IN_BUFFER_SIZE \<and> block \<le> IN_BUFFER_SIZE)
    \<and> (case wr of None \<Rightarrow> True | Some (pos, block) \<Rightarrow> pos < OUT_BUFFER_SIZE \<and> out_npend ctx + block \<le> OUT_BUFFER_SIZE)"
  using ser_reach.reach_inv [OF assms] by (auto simp: ser_inv_def uart_safe_def split: option.splits)

section \<open>A purge during a read\<close>

lemma rx_char_wrapped:
  assumes run: "rx_char port ts lsr ctx = (lsr', ctx')" and n: "2 ^ 64 - IN_BUFFER_SIZE \<le> in_npend ctx" "in_npend ctx + 1 < 2 ^ 64"
  shows "in_npend ctx' = in_npend ctx" "bit lsr' 8"
proof -
  have big: "Suc (in_npend ctx) mod 2 ^ 64 > IN_BUFFER_SIZE" using n by (simp add: IN_BUFFER_SIZE_def)
  obtain c h1 l h2 where hw: "inb port RHR (ser_hw ctx) = (c, h1)" "inb port LSR h1 = (l, h2)" by fastforce
  show "in_npend ctx' = in_npend ctx" using run hw big by (auto simp: rx_char_def inp_def Let_def)
  show "bit lsr' 8"
    using run hw big by (auto simp: rx_char_def inp_def Let_def bit_or_iff bit_and_iff bit_not_iff rtser_bits bit_simps)
qed

lemma rx_loop_wrapped:
  assumes "rx_loop port fuel ts k lsr ctx = Inr (k', lsr', ctx')" "2 ^ 64 - IN_BUFFER_SIZE \<le> in_npend ctx" "in_npend ctx + 1 < 2 ^ 64"
  shows "in_npend ctx' = in_npend ctx \<and> bit lsr' 8"
  using assms
proof (induction fuel arbitrary: k lsr ctx)
  case (Suc fuel)
  obtain l1 c1 where run: "rx_char port ts lsr ctx = (l1, c1)" by fastforce
  note w = rx_char_wrapped [OF run Suc.prems(2,3)]
  show ?case using Suc.IH [of "k + 1" l1 c1] Suc.prems w run by (auto split: if_splits)
qed simp

lemma rx_interrupt_wrapped:
  assumes "rt_16550_rx_interrupt port fuel ts ctx = Inr (k, ctx')" "2 ^ 64 - IN_BUFFER_SIZE \<le> in_npend ctx" "in_npend ctx + 1 < 2 ^ 64"
  shows "in_npend ctx' = in_npend ctx \<and> bit (ser_status ctx') 8"
  using assms rx_loop_wrapped [of port fuel ts 0 0 ctx]
  by (auto simp: rt_16550_rx_interrupt_def kbind_eq_Inr bit_or_iff)

text \<open>
  A purge of the input buffer while a reader is copying breaks the device. The reader subtracts its
  block from the counter that the purge has reset: the counter wraps around to a huge value, which a
  later read takes for a negative number of pending bytes, and every character received from then on
  is dropped as an overrun, until the next purge.
\<close>

theorem uart_purge_race:
  assumes ok: "in_ok ctx" "ser_status ctx = 0" and u: "\<forall>off n. can_copy u off n"
    and two: "2 \<le> in_npend ctx" "2 \<le> nbyte"
  shows "\<exists>bs nbyte' ctx'. read_turn port u (quiet_turn\<lparr>st_copy := purge port RTDM_PURGE_RX_BUFFER\<rparr>) 0 nbyte ret nb ctx
      = Some (Continue, bs, nbyte', ret, nb, ctx')
    \<and> in_npend ctx' = 2 ^ 64 - min nbyte (in_npend ctx) \<and> as_int (in_npend ctx') < 0
    \<and> (\<forall>fuel ts k c. rt_16550_rx_interrupt port fuel ts ctx' = Inr (k, c) \<longrightarrow> in_npend c = in_npend ctx' \<and> bit (ser_status c) 8)"
proof -
  define c1 where "c1 = purge port RTDM_PURGE_RX_BUFFER (read_enable port ctx)"
  define block where "block = min nbyte (in_npend ctx)"
  have b: "2 \<le> block" "block \<le> IN_BUFFER_SIZE" using ok two by (auto simp: block_def in_ok_def)
  have e: "in_npend (read_enable port ctx) = in_npend ctx" "in_head (read_enable port ctx) = in_head ctx"
      "ser_status (read_enable port ctx) = 0"
    using ok(2) by (simp_all add: read_enable_def Let_def outp_def)
  have int: "as_int (in_npend ctx) = int (in_npend ctx)" using ok(1) by (intro size_small) (simp add: in_ok_def)
  have blk: "(if nat (as_int (in_npend ctx)) \<le> nbyte then nat (as_int (in_npend ctx)) else nbyte) = block"
    by (simp add: int block_def)
  obtain bs where copy: "read_copy u 0 (in_buf c1) (in_head ctx) block = (bs, True)"
    using read_copy_all [of u 0 "in_buf c1" "in_head ctx" block] u by blast
  have "read_turn port u (quiet_turn\<lparr>st_copy := purge port RTDM_PURGE_RX_BUFFER\<rparr>) 0 nbyte ret nb ctx
      = Some (Continue, bs, nbyte - block, ret, nb, read_take block c1)"
    using copy int two(1) unfolding read_turn_def Let_def e blk c1_def by simp
  moreover have "in_npend c1 = 0"
    by (simp add: c1_def purge_def RTDM_PURGE_RX_BUFFER_def RTDM_PURGE_TX_BUFFER_def inp_def outp_def Let_def split: prod.splits)
  then have n: "in_npend (read_take block c1) = 2 ^ 64 - block"
    using b(1) by (simp add: read_take_def Let_def size_sub_def)
  moreover have big: "2 ^ 64 - IN_BUFFER_SIZE \<le> in_npend (read_take block c1)" "in_npend (read_take block c1) + 1 < 2 ^ 64"
    using n b by (auto simp: IN_BUFFER_SIZE_def)
  moreover have "as_int (in_npend (read_take block c1)) < 0" using as_int_wrapped [OF big(1)] big(2) by simp
  ultimately show ?thesis using rx_interrupt_wrapped [OF _ big] unfolding block_def by blast
qed

end
