(* ===== verification/Ser_Examples.thy ===== *)
theory Ser_Examples
  imports Ser_Safety
begin

text \<open>
  A concrete chip (two byte queues and a clean line), a context for it, and the properties of the serial
  driver at concrete inputs.
\<close>

definition demo_port :: "(u8 list \<times> u8 list) uart_port" where
  "demo_port = \<lparr>
     inb = (\<lambda>r (rx, tx). if r = RHR then (case rx of [] \<Rightarrow> (0, (rx, tx)) | c # cs \<Rightarrow> (c, (cs, tx)))
                         else if r = LSR then (if rx = [] then 0 else 1, (rx, tx)) else (0, (rx, tx))),
     outb = (\<lambda>b r (rx, tx). if r = THR then (rx, tx @ [b]) else (rx, tx)),
     baud_base = 115200, tx_fifo = 16\<rparr>"

definition demo_mutex :: "bool rt_mutex_ops" where
  "demo_mutex = \<lparr>rt_mutex_init = False, rt_mutex_lock = (\<lambda>_. True), rt_mutex_unlock = (\<lambda>_. False),
     rt_mutex_trylock = (\<lambda>l. (\<not> l, True)), rt_mutex_timed_lock = (\<lambda>l. (if l then Inl ETIMEDOUT else Inr 0, True)),
     rt_mutex_lock_interruptible = (\<lambda>l. (if l then Inl EINTR else Inr 0, True)), rt_mutex_is_locked = (\<lambda>l. l)\<rparr>"

definition demo_event :: rtdm_event where
  "demo_event = \<lparr>ev_pending = False, ev_destroy = False\<rparr>"

text \<open>A context with given indices, chip state and bytes in both rings.\<close>

definition demo_ctx :: "nat \<Rightarrow> nat \<Rightarrow> nat \<Rightarrow> nat \<Rightarrow> 'h \<Rightarrow> ('h, bool) rt_16550_context" where
  "demo_ctx ih ip oh onp h = \<lparr>ser_config = default_config\<lparr>cfg_rx_timeout := -1\<rparr>,
     in_head = ih, in_tail = (ih + ip) mod IN_BUFFER_SIZE, in_npend = ip, in_nwait = 0, in_event = demo_event,
     in_buf = replicate IN_BUFFER_SIZE 7, in_lock = False, in_history = None,
     out_head = oh, out_tail = (oh + onp) mod OUT_BUFFER_SIZE, out_npend = onp, out_event = demo_event,
     out_buf = replicate OUT_BUFFER_SIZE 9, out_lock = \<lparr>mx_destroy = False, mx_lock = False\<rparr>,
     last_timestamp = 0, ioc_events = 0, ioc_event = demo_event, ioc_event_lock = False,
     ier_status = IER_RX, mcr_status = 0, ser_status = 0, saved_errors = 0, ser_hw = h\<rparr>"

definition demo_user :: ser_user where
  "demo_user = \<lparr>su_user = True, su_ok = True, su_copy = (\<lambda>_ _. True)\<rparr>"

lemma demo_in_ok: "ih < IN_BUFFER_SIZE \<Longrightarrow> ip \<le> IN_BUFFER_SIZE \<Longrightarrow> in_ok (demo_ctx ih ip oh onp h)"
  by (simp add: in_ok_def demo_ctx_def)

lemma demo_out_ok: "oh < OUT_BUFFER_SIZE \<Longrightarrow> onp \<le> OUT_BUFFER_SIZE \<Longrightarrow> out_ok (demo_ctx ih ip oh onp h)"
  by (simp add: out_ok_def demo_ctx_def)

lemma demo_copy: "can_copy demo_user off n" "su_user demo_user" "su_ok demo_user"
  by (simp_all add: can_copy_def demo_user_def)

lemma demo_fields [simp]:
  "ser_status (demo_ctx ih ip oh onp h) = 0" "\<not> in_lock (demo_ctx ih ip oh onp h)"
  "cfg_rx_timeout (ser_config (demo_ctx ih ip oh onp h)) = -1" "in_npend (demo_ctx ih ip oh onp h) = ip"
  "out_npend (demo_ctx ih ip oh onp h) = onp" "ser_hw (demo_ctx ih ip oh onp h) = h"
  "out_tail (demo_ctx ih ip oh onp h) = (oh + onp) mod OUT_BUFFER_SIZE"
  by (simp_all add: demo_ctx_def)

lemma demo_lock:
  "rtdm_mutex_timedlock demo_mutex env (out_lock (demo_ctx ih ip oh onp h)) (-1) = (Inr 0, \<lparr>mx_destroy = False, mx_lock = True\<rparr>)"
  by (simp add: mutex_defs demo_mutex_def demo_ctx_def)

lemma demo_chip: "fifo_chip demo_port fst snd"
  by (auto simp: fifo_chip_def demo_port_def uart_regs)

lemma demo_char: "chip_chars demo_port 1 ([x], tx) = Some ([x], ([], tx))"
  by (simp add: demo_port_def uart_regs)

text \<open>A ring that holds one byte repeated.\<close>

lemma demo_in_queue: "ip \<le> IN_BUFFER_SIZE \<Longrightarrow> in_queue (demo_ctx ih ip oh onp h) = replicate ip 7"
  using inr.sz_pos by (intro nth_equalityI) (simp_all add: in_queue_def demo_ctx_def)

lemma demo_out_queue: "onp \<le> OUT_BUFFER_SIZE \<Longrightarrow> out_queue (demo_ctx ih ip oh onp h) = replicate onp 9"
  using outr.sz_pos by (intro nth_equalityI) (simp_all add: out_queue_def demo_ctx_def)

section \<open>The data path\<close>

lemmas sizes = IN_BUFFER_SIZE_def OUT_BUFFER_SIZE_def


theorem uart_read_nonblocking_witness:
  "\<exists>ctx'. rt_16550_read demo_port demo_user [quiet_turn, quiet_turn] 2 (demo_ctx 4095 5 0 0 ([], [])) = Some (Inr 2, [7, 7], ctx')
    \<and> in_queue ctx' = [7, 7, 7]"
  using uart_read_nonblocking [of "demo_ctx 4095 5 0 0 ([], [])" demo_user 2 demo_port]
  by (auto simp: sizes demo_in_ok demo_out_ok demo_in_queue demo_copy eval_nat_numeral)


text \<open>A writer with the transmission interrupt in the middle of its copy.\<close>

theorem uart_write_stream_witness:
  "\<exists>res. rt_16550_write demo_port demo_mutex (\<lambda>m. m) demo_user [quiet_turn\<lparr>st_copy := rt_16550_tx_interrupt demo_port\<rparr>] [1, 2, 3]
      (demo_ctx 0 0 4094 2 ([], [])) = Inr res"
proof -
  have "turn_transmits (quiet_turn\<lparr>st_copy := rt_16550_tx_interrupt demo_port\<rparr>)"
    using tx_interrupt_transmits by (simp add: turn_transmits_def quiet_turn_def quiet_in_def only_transmits_def transmits_same)
  then show ?thesis
    using uart_write_stream [of "demo_ctx 0 0 4094 2 ([], [])" demo_user
        "[quiet_turn\<lparr>st_copy := rt_16550_tx_interrupt demo_port\<rparr>]" demo_mutex "\<lambda>m. m" demo_port "[1, 2, 3]"]
    by (auto simp: sizes demo_in_ok demo_out_ok demo_in_queue demo_copy demo_lock)
qed

section \<open>Configuration\<close>

definition demo_call :: "('h, 'm) ser_call" where
  "demo_call = \<lparr>sc_user = True, sc_copy_ok = True, sc_nrt = False, sc_mem = None, sc_env = (\<lambda>_ c. c), sc_sleep = []\<rparr>"

lemma demo_call_simps: "copy_result demo_call = Inr 0" "sc_env demo_call = (\<lambda>_ c. c)"
  by (simp_all add: demo_call_def copy_result_def)


theorem uart_event_mask_stalls_witness:
  "\<exists>ctx'. rt_16550_ioctl demo_port demo_call
      (RTSER_RTIOC_SET_CONFIG (default_config\<lparr>config_mask := RTSER_SET_EVENT_MASK, cfg_event_mask := RTSER_EVENT_RXPEND\<rparr>))
      (demo_ctx 0 0 0 2 ([], [])) = Inr (Some (Inr 0, SerNone, ctx'))
    \<and> out_queue ctx' = [9, 9] \<and> \<not> testbits (ier_status ctx') IER_TX"
  using uart_event_mask_stalls [of "default_config\<lparr>config_mask := RTSER_SET_EVENT_MASK, cfg_event_mask := RTSER_EVENT_RXPEND\<rparr>" demo_call
      demo_port "demo_ctx 0 0 0 2 ([], [])"]
  by (auto simp: demo_call_simps testbits_def rtser_bits sizes demo_out_queue eval_nat_numeral)

section \<open>Overruns and races\<close>

theorem uart_write_kernel_overruns_witness:
  "rt_16550_write demo_port demo_mutex (\<lambda>m. m) (demo_user\<lparr>su_user := False\<rparr>) [quiet_turn] [1, 2, 3] (demo_ctx 0 0 4090 4 ([], []))
    = Inl OutOfBounds"
  by (rule uart_write_kernel_overruns) (simp_all add: demo_out_ok sizes demo_lock)

theorem uart_overrun_desync_witness:
  "\<exists>ctx1. rt_16550_rx_interrupt demo_port 1 0 (demo_ctx 3 IN_BUFFER_SIZE 0 0 ([1], [])) = Inr (1, ctx1)
    \<and> in_queue ctx1 = 1 # replicate (IN_BUFFER_SIZE - 1) 7"
proof -
  let ?c = "demo_ctx 3 IN_BUFFER_SIZE 0 0 ([1], []) :: (u8 list \<times> u8 list, bool) rt_16550_context"
  have "in_ok ?c" by (rule demo_in_ok) (simp_all add: IN_BUFFER_SIZE_def)
  moreover have "in_npend ?c = IN_BUFFER_SIZE" "chip_chars demo_port 1 (ser_hw ?c) = Some ([1], ([], []))"
    by (simp_all only: demo_fields demo_char)
  ultimately obtain ctx1 where "rt_16550_rx_interrupt demo_port 1 0 ?c = Inr (1, ctx1)" "in_queue ctx1 = 1 # tl (in_queue ?c)"
    using uart_overrun_desync [OF _ _ _ demo_char [of 2 "[]"], of ?c 1 "([], [])" 0] by metis
  then show ?thesis by (simp add: demo_in_queue)
qed

theorem uart_purge_race_witness:
  "\<exists>bs nbyte' ctx'. read_turn demo_port demo_user (quiet_turn\<lparr>st_copy := purge demo_port RTDM_PURGE_RX_BUFFER\<rparr>) 0 8 (Inr 0) True
      (demo_ctx 0 5 0 0 ([], [])) = Some (Continue, bs, nbyte', Inr 0, True, ctx') \<and> in_npend ctx' = 2 ^ 64 - 5"
  using uart_purge_race [of "demo_ctx 0 5 0 0 ([], [])" demo_user 8 demo_port "Inr 0" True]
  by (auto simp: sizes demo_in_ok demo_out_ok demo_in_queue demo_copy)

text \<open>The state after opening the device and the beginning of a write.\<close>

lemma demo_opened: "\<exists>ctx. opened demo_port demo_mutex (ctx, None, None)"
proof -
  let ?c0 = "demo_ctx 0 0 0 0 ([], [])"
  have "cfg_baud_rate default_config \<noteq> 0" by (simp add: default_config_def rtser_bits)
  then have b: "\<exists>c. set_baud demo_port default_config ctx = Inr c" for ctx :: "(u8 list \<times> u8 list, bool) rt_16550_context"
    by (simp add: set_baud_def Let_def)
  have "\<exists>r. rt_16550_set_config demo_port (\<lambda>_ c. c) default_config None ctx = Inr r"
      for ctx :: "(u8 list \<times> u8 list, bool) rt_16550_context"
    unfolding rt_16550_set_config_def Let_def using b [of ctx] by (auto split: prod.splits)
  then obtain ctx where "rt_16550_open demo_port demo_mutex (\<lambda>_ c. c) None (Inr 0) ?c0 = Inr (Inr 0, ctx)"
    unfolding rt_16550_open_def Let_def by (fastforce simp: kbind_eq_Inr)
  then show ?thesis unfolding opened_def by (force simp: demo_ctx_def)
qed

theorem uart_memory_safe_witness:
  "\<exists>ctx block. reach (opened demo_port demo_mutex) (ser_step demo_port) (ctx, None, Some (out_tail ctx, block))
    \<and> 0 < block \<and> out_ok ctx \<and> out_npend ctx + block \<le> OUT_BUFFER_SIZE"
proof -
  obtain c0 where o: "opened demo_port demo_mutex (c0, None, None)" using demo_opened by blast
  define ctx where "ctx = purge demo_port RTDM_PURGE_TX_BUFFER c0"
  have empty: "out_npend ctx = 0"
    by (simp add: ctx_def purge_def RTDM_PURGE_RX_BUFFER_def RTDM_PURGE_TX_BUFFER_def outp_def Let_def)
  have "reach (opened demo_port demo_mutex) (ser_step demo_port) (ctx, None, None)"
    unfolding ctx_def by (rule reach_step, rule reach_init, rule o, rule ser_step.purge)
  moreover have "ser_step demo_port (ctx, None, None) (ctx, None, Some (out_tail ctx, 1))"
    by (rule ser_step.write_begin) (simp add: empty sizes)
  ultimately have r: "reach (opened demo_port demo_mutex) (ser_step demo_port) (ctx, None, Some (out_tail ctx, 1))"
    by (rule reach_step)
  then show ?thesis using uart_memory_safe [OF r] by (intro exI [of _ ctx] exI [of _ 1]) simp
qed

end
