(* ===== verification/Ser_Init.thy ===== *)
theory Ser_Init
  imports Ser_Uart Rtdm_Life
begin

text \<open>
  Loading and unloading the serial driver (\<open>__16550A_init\<close> and \<open>__16550A_exit\<close> of \<open>16550A.c\<close>) on top of the
  RTDM core. The handlers of the driver are an argument here; theory \<open>Ser_Uart\<close> models them. The
  results of the kernel's services are arguments per port.
\<close>

record ('p, 's) ser_handlers =
  h_open :: "(int, 's) handler"
  h_close :: "(unit, 's) handler"
  h_ioctl :: "('p rtdm_request, 's) handler"
  h_read :: "('p \<times> nat, 's) handler"
  h_write :: "('p \<times> nat, 's) handler"

definition device_tmpl :: "('p, 's) ser_handlers \<Rightarrow> ('p, 's) rtdm_device" where
  "device_tmpl h = \<lparr>struct_version = RTDM_DEVICE_STRUCT_VER, device_flags = RTDM_NAMED_DEVICE OR RTDM_EXCLUSIVE,
     device_name = '''', protocol_family = 0,
     open_rt = Some (h_open h), open_nrt = Some (h_open h), socket_rt = None, socket_nrt = None,
     dev_ops = \<lparr>close_rt = Some (h_close h), close_nrt = Some (h_close h),
       ioctl_rt = Some (h_ioctl h), ioctl_nrt = Some (h_ioctl h),
       read_rt = Some (h_read h), read_nrt = None, write_rt = Some (h_write h), write_nrt = None,
       recvmsg_rt = None, recvmsg_nrt = None, sendmsg_rt = None, sendmsg_nrt = None\<rparr>,
     proc_name = None, device_id = 0, chrdev_major = Inr 0, dev_refcount = 0\<rparr>"

text \<open>
  The module: the core, the table \<open>device\<close>, the I/O regions in use, the parameters of the ports, and the
  chips. A port with address 0 is not configured.
\<close>

record ('p, 's, 'h) ser_module =
  sm_sys :: "('p, 's) rtdm_sys"
  sm_device :: "nat option list"
  sm_region :: "nat \<Rightarrow> bool"
  sm_ioaddr :: "nat list"
  sm_irq :: "nat list"
  sm_baud_base :: "u32 list"
  sm_tx_fifo :: "nat list"
  sm_hw :: "nat \<Rightarrow> 'h"
  pnp_registered :: bool

text \<open>
  The kernel: the address of the memory for a device structure, the results of the registration, what
  happens while \<open>rtdm_dev_unregister\<close> waits, whether the plug-and-play driver is accepted.
\<close>

record ('p, 's) ser_kernel =
  k_mem :: "nat \<Rightarrow> nat option"
  k_results :: "nat \<Rightarrow> kernel_results"
  k_waits :: "nat \<Rightarrow> (('p, 's) rtdm_sys \<Rightarrow> ('p, 's) rtdm_sys) list"
  k_pnp :: bool

text \<open>Masking the interrupts of a chip and reading out what is pending.\<close>

definition quiesce :: "'h uart_port \<Rightarrow> 'h \<Rightarrow> 'h" where
  "quiesce port h = fold (\<lambda>r h. snd (inb port r h)) [IIR, LSR, RHR, MSR] (outb port 0 IER h)"

definition ser_device_name :: "nat \<Rightarrow> string" where
  "ser_device_name n = ''rtser'' @ dec_digits n"

fun ser_exit_loop ::
    "('p, 's) ser_kernel \<Rightarrow> nat list \<Rightarrow> ('p, 's, 'h) ser_module \<Rightarrow> ('p, 's, 'h) ser_module option kres" where
  "ser_exit_loop k [] M = Inr (Some M)"
| "ser_exit_loop k (i # is) M =
     (case sm_device M ! i of
        None \<Rightarrow> ser_exit_loop k is M
      | Some d \<Rightarrow>
          kbind (rtdm_dev_unregister (sm_sys M) (Some d) 1000 (k_waits k i)) (\<lambda>r.
          case r of
            None \<Rightarrow> Inr None
          | Some (_, S) \<Rightarrow>
              ser_exit_loop k is (M\<lparr>sm_sys := S\<lparr>rdevs := (rdevs S)(d := None)\<rparr>,
                                    sm_region := (sm_region M)(sm_ioaddr M ! i := False)\<rparr>)))"

definition ser_exit :: "('p, 's) ser_kernel \<Rightarrow> ('p, 's, 'h) ser_module \<Rightarrow> ('p, 's, 'h) ser_module option kres" where
  "ser_exit k M =
     kbind (ser_exit_loop k [0..<MAX_DEVICES] M) (\<lambda>r.
     Inr (map_option (\<lambda>M1. if pnp_registered M1 then M1\<lparr>pnp_registered := False\<rparr> else M1) r))"

text \<open>One port; the flag tells whether the loop goes on.\<close>

definition ser_init_port ::
    "bool \<Rightarrow> ('p, 's) ser_handlers \<Rightarrow> (nat \<Rightarrow> 'h uart_port) \<Rightarrow> nat \<Rightarrow> ('p, 's) ser_kernel \<Rightarrow> nat
      \<Rightarrow> ('p, 's, 'h) ser_module \<Rightarrow> (bool \<times> cret \<times> ('p, 's, 'h) ser_module) kres" where
  "ser_init_port debug h ports start_index k i M =
     (if sm_ioaddr M ! i = 0 then Inr (True, Inr 0, M)
      else if sm_irq M ! i = 0 then Inr (False, Inl EINVAL, M)
      else case k_mem k i of
        None \<Rightarrow> Inr (False, Inl ENOMEM, M)
      | Some d \<Rightarrow>
          let name = ser_device_name (start_index + i);
              dev = (device_tmpl h)\<lparr>device_name := name, device_id := i, proc_name := Some name\<rparr>;
              S = (sm_sys M)\<lparr>rdevs := (rdevs (sm_sys M))(d := Some dev)\<rparr>
          in if sm_region M (sm_ioaddr M ! i) then
               Inr (False, Inl EBUSY, M\<lparr>sm_sys := S\<lparr>rdevs := (rdevs S)(d := None)\<rparr>\<rparr>)
             else
               let M1 = M\<lparr>sm_region := (sm_region M)(sm_ioaddr M ! i := True),
                          sm_baud_base := (if sm_baud_base M ! i = 0 then (sm_baud_base M)[i := DEFAULT_BAUD_BASE] else sm_baud_base M),
                          sm_tx_fifo := (if sm_tx_fifo M ! i = 0 then (sm_tx_fifo M)[i := DEFAULT_TX_FIFO] else sm_tx_fifo M),
                          sm_hw := (sm_hw M)(i := quiesce (ports i) (sm_hw M i))\<rparr>
               in kbind (rtdm_dev_register debug (k_results k i) S d) (\<lambda>(err, S1).
                  if err \<noteq> Inr 0 then
                    Inr (False, err, M1\<lparr>sm_sys := S1\<lparr>rdevs := (rdevs S1)(d := None)\<rparr>,
                                        sm_region := (sm_region M1)(sm_ioaddr M ! i := False)\<rparr>)
                  else Inr (True, err, M1\<lparr>sm_sys := S1, sm_device := (sm_device M1)[i := Some d]\<rparr>)))"

fun ser_init_loop ::
    "bool \<Rightarrow> ('p, 's) ser_handlers \<Rightarrow> (nat \<Rightarrow> 'h uart_port) \<Rightarrow> nat \<Rightarrow> ('p, 's) ser_kernel \<Rightarrow> nat list
      \<Rightarrow> ('p, 's, 'h) ser_module \<Rightarrow> (cret \<times> ('p, 's, 'h) ser_module) option kres" where
  "ser_init_loop debug h ports start_index k [] M = Inr (Some (Inr 0, M))"
| "ser_init_loop debug h ports start_index k (i # is) M =
     kbind (ser_init_port debug h ports start_index k i M) (\<lambda>(go, err, M1).
     if go then ser_init_loop debug h ports start_index k is M1
     else kbind (ser_exit k M1) (\<lambda>r. Inr (map_option (\<lambda>M2. (err, M2)) r)))"

definition ser_init ::
    "bool \<Rightarrow> ('p, 's) ser_handlers \<Rightarrow> (nat \<Rightarrow> 'h uart_port) \<Rightarrow> nat \<Rightarrow> ('p, 's) ser_kernel
      \<Rightarrow> ('p, 's, 'h) ser_module \<Rightarrow> (cret \<times> ('p, 's, 'h) ser_module) option kres" where
  "ser_init debug h ports start_index k M =
     ser_init_loop debug h ports start_index k [0..<MAX_DEVICES] (if k_pnp k then M\<lparr>pnp_registered := True\<rparr> else M)"

text \<open>
  The plug-and-play probe: \<open>start\<close> is the first I/O port of the found device, \<open>None\<close> where it has none. The
  first configured port with that address gets the interrupt line of the device if it has none yet.
\<close>

fun pnp_probe_loop :: "nat option \<Rightarrow> nat \<Rightarrow> nat list \<Rightarrow> ('p, 's, 'h) ser_module \<Rightarrow> cret \<times> ('p, 's, 'h) ser_module" where
  "pnp_probe_loop start line [] M = (Inl ENODEV, M)"
| "pnp_probe_loop start line (i # is) M =
     (if start = Some (sm_ioaddr M ! i) then
        (Inr 0, if sm_irq M ! i = 0 then M\<lparr>sm_irq := (sm_irq M)[i := line]\<rparr> else M)
      else pnp_probe_loop start line is M)"

definition xeno_16550A_pnp_probe :: "nat option \<Rightarrow> nat \<Rightarrow> ('p, 's, 'h) ser_module \<Rightarrow> cret \<times> ('p, 's, 'h) ser_module" where
  "xeno_16550A_pnp_probe start line M = pnp_probe_loop start line [0..<MAX_DEVICES] M"

text \<open>The probe claims exactly the devices whose address is configured, and never changes a line that was given.\<close>

lemma pnp_probe_loop_result:
  assumes "pnp_probe_loop start line is M = (r, M')" "\<forall>i \<in> set is. i < length (sm_irq M)"
  shows "(r = Inr 0 \<longleftrightarrow> (\<exists>i \<in> set is. start = Some (sm_ioaddr M ! i))) \<and> sm_ioaddr M' = sm_ioaddr M \<and>
    (\<forall>i < length (sm_irq M). sm_irq M ! i \<noteq> 0 \<longrightarrow> sm_irq M' ! i = sm_irq M ! i)"
  using assms by (induction "is") (auto simp: nth_list_update split: if_splits)

section \<open>A loaded driver is freed\<close>

lemma ser_exit_empty:
  assumes "\<forall>i \<in> set is. sm_device M ! i = None"
  shows "ser_exit_loop k is M = Inr (Some M)"
  using assms by (induction "is") auto

lemma init_skips:
  assumes "\<forall>i \<in> set is. sm_ioaddr M ! i = 0"
  shows "ser_init_loop debug h ports n k (is @ js) M = ser_init_loop debug h ports n k js M"
  using assms by (induction "is") (auto simp: ser_init_port_def)

text \<open>The registration of a named device succeeds with its new major number.\<close>

lemma register_named:
  assumes "rdevs S d = Some ((device_tmpl h)\<lparr>device_name := name, device_id := i, proc_name := Some name\<rparr>)"
    and "chrdev_ret r = Inr m"
  shows "\<exists>S1. rtdm_dev_register debug r S d = Inr (Inr m, S1) \<and> chrdevs S1 = (chrdevs S)(m := Some d)"
  using assms
  by (simp add: rtdm_dev_register_def dev_of_def default_creators_def device_tmpl_def rtdm_flags register_kernel_def Let_def
      upd_rdev_def default_if_null_def)

lemma init_port_frees:
  assumes port: "sm_ioaddr M ! i \<noteq> 0" "sm_irq M ! i \<noteq> 0" "k_mem k i = Some d" "\<not> sm_region M (sm_ioaddr M ! i)"
    and chrdev: "chrdev_ret (k_results k i) = Inr m" "m \<noteq> 0"
  shows "\<exists>M1. ser_init_port debug h ports n k i M = Inr (False, Inr m, M1) \<and> chrdevs (sm_sys M1) m = Some d
    \<and> rdevs (sm_sys M1) d = None \<and> sm_device M1 = sm_device M"
proof -
  let ?name = "ser_device_name (n + i)"
  let ?S = "(sm_sys M)\<lparr>rdevs := (rdevs (sm_sys M))(d := Some ((device_tmpl h)\<lparr>device_name := ?name, device_id := i, proc_name := Some ?name\<rparr>))\<rparr>"
  obtain S1 where "rtdm_dev_register debug (k_results k i) ?S d = Inr (Inr m, S1)" "chrdevs S1 = (chrdevs ?S)(m := Some d)"
    using register_named [where S = ?S and d = d and r = "k_results k i" and m = m] chrdev(1) by fastforce
  then show ?thesis using port chrdev(2) by (simp add: ser_init_port_def Let_def)
qed

text \<open>
  Loading the serial driver leaves a dangling device. \<open>rtdm_dev_register\<close> returns what \<open>register_chrdev\<close>
  returns, the new major number of a named device, and the driver takes every value but 0 for a
  failure: it frees the device structure that is registered under that number, and the next open of
  the device uses freed memory.
\<close>

theorem uart_init_dangling:
  assumes "length (sm_ioaddr M) = MAX_DEVICES" "i < MAX_DEVICES" "\<forall>j < i. sm_ioaddr M ! j = 0" "\<forall>j < MAX_DEVICES. sm_device M ! j = None"
    and port: "sm_ioaddr M ! i \<noteq> 0" "sm_irq M ! i \<noteq> 0" "k_mem k i = Some d" "\<not> sm_region M (sm_ioaddr M ! i)"
    and chrdev: "chrdev_ret (k_results k i) = Inr m" "0 < m"
  shows "\<exists>M'. ser_init debug h ports n k M = Inr (Some (Inr m, M')) \<and> chrdevs (sm_sys M') m = Some d
    \<and> (\<forall>pid oflags mem. rtdm_open (sm_sys M') d pid oflags mem = Inl UseAfterFree)"
proof -
  define M0 where "M0 = (if k_pnp k then M\<lparr>pnp_registered := True\<rparr> else M)"
  have M0: "sm_ioaddr M0 = sm_ioaddr M" "sm_irq M0 = sm_irq M" "sm_region M0 = sm_region M" "sm_device M0 = sm_device M"
    by (simp_all add: M0_def)
  obtain M1 where M1: "ser_init_port debug h ports n k i M0 = Inr (False, Inr m, M1)" "chrdevs (sm_sys M1) m = Some d"
      "rdevs (sm_sys M1) d = None" "sm_device M1 = sm_device M"
    using init_port_frees [of M0 i k d m debug h ports n] port chrdev M0 by auto
  have "[0..<MAX_DEVICES] = [0..<i] @ i # [Suc i..<MAX_DEVICES]"
  proof -
    obtain j where "MAX_DEVICES = i + Suc j" using assms(2) less_iff_Suc_add by auto
    then show ?thesis using upt_add_eq_append [of 0 i "Suc j"] by (simp add: upt_conv_Cons del: upt_Suc)
  qed
  then have loop: "ser_init_loop debug h ports n k [0..<MAX_DEVICES] M0 = ser_init_loop debug h ports n k (i # [Suc i..<MAX_DEVICES]) M0"
    using init_skips [of "[0..<i]" M0 debug h ports n k "i # [Suc i..<MAX_DEVICES]"] assms(3) M0(1) by simp
  have ex: "ser_exit_loop k [0..<MAX_DEVICES] M1 = Inr (Some M1)"
    by (rule ser_exit_empty) (use assms(4) M1(4) in auto)
  define M2 where "M2 = (if pnp_registered M1 then M1\<lparr>pnp_registered := False\<rparr> else M1)"
  have "ser_init debug h ports n k M = Inr (Some (Inr m, M2))"
    unfolding ser_init_def M0_def [symmetric] loop by (simp add: M1(1) ser_exit_def ex M2_def del: upt_Suc)
  moreover have "rtdm_open (sm_sys M2) d pid oflags mem = Inl UseAfterFree" for pid oflags mem
    using M1(3) by (simp add: rtdm_open_def create_context_def dev_of_def M2_def)
  ultimately show ?thesis using M1(2) by (intro exI [of _ M2]) (simp add: M2_def)
qed

definition demo_handlers :: "(unit, unit) ser_handlers" where
  "demo_handlers = \<lparr>h_open = (\<lambda>c a s. Inr (Some (Inr 0, s))), h_close = (\<lambda>c a s. Inr (Some (Inr 0, s))),
     h_ioctl = (\<lambda>c a s. Inr (Some (Inr 0, s))), h_read = (\<lambda>c a s. Inr (Some (Inr 0, s))),
     h_write = (\<lambda>c a s. Inr (Some (Inr 0, s)))\<rparr>"

definition demo_sys :: "(unit, unit) rtdm_sys" where
  "demo_sys = \<lparr>rdevs = (\<lambda>_. None), ctxs = (\<lambda>_. None), chrdevs = (\<lambda>_. None), protos = (\<lambda>_. False), families = (\<lambda>_. None), drv = ()\<rparr>"

definition demo_module :: "(unit, unit, unit) ser_module" where
  "demo_module = \<lparr>sm_sys = demo_sys, sm_device = replicate 8 None, sm_region = (\<lambda>_. False), sm_ioaddr = [0x3F8, 0, 0, 0, 0, 0, 0, 0],
     sm_irq = [4, 0, 0, 0, 0, 0, 0, 0], sm_baud_base = replicate 8 0, sm_tx_fifo = replicate 8 0, sm_hw = (\<lambda>_. ()), pnp_registered = False\<rparr>"

definition demo_kernel :: "(unit, unit) ser_kernel" where
  "demo_kernel = \<lparr>k_mem = (\<lambda>i. Some i), k_results = (\<lambda>i. \<lparr>chrdev_ret = Inr 254, proto_ret = Inr 0, sock_ret = Inr 0\<rparr>),
     k_waits = (\<lambda>_. []), k_pnp = True\<rparr>"

definition demo_ports :: "nat \<Rightarrow> unit uart_port" where
  "demo_ports i = \<lparr>inb = (\<lambda>r h. (0, h)), outb = (\<lambda>v r h. h), baud_base = 0, tx_fifo = 0\<rparr>"

theorem uart_init_dangling_witness:
  "\<exists>M'. ser_init False demo_handlers demo_ports 0 demo_kernel demo_module = Inr (Some (Inr 254, M'))
    \<and> rtdm_open (sm_sys M') 0 1 0 (Some 1) = Inl UseAfterFree"
  using uart_init_dangling [of demo_module 0 demo_kernel 0 254 False demo_handlers demo_ports 0]
  by (auto simp: demo_module_def demo_kernel_def MAX_DEVICES_def)

end
