(* ===== verification/Test_Timer.thy ===== *)
theory Test_Timer
  imports Rtdm_Sync
begin

text \<open>
  The timer latency benchmark (\<open>testing/timerbench.c\<close>): a task or a timer handler takes a sample in every
  period; the samples of a second give a minimum, a maximum and an average, which go into the overall
  result and into three histograms. Times are 64-bit words (\<open>long\<close> has 64 bits), the statistics are
  numbers. The clock, the memory and the results of the task services are arguments; tracing
  (\<open>CONFIG_IPIPE_TRACE\<close>) is not compiled in.
\<close>

section \<open>The benchmark\<close>

record rttst_bench_res =
  br_avg :: int
  br_min :: int
  br_max :: int
  br_overruns :: int
  br_test_loops :: int

record rttst_tmbench_config =
  cfg_mode :: int
  cfg_priority :: int
  cfg_period :: int
  cfg_warmup_loops :: int
  cfg_histogram_size :: int
  cfg_histogram_bucketsize :: int
  cfg_freeze_max :: int

definition RTTST_TMBENCH_TASK :: int where "RTTST_TMBENCH_TASK = 0"
definition RTTST_TMBENCH_HANDLER :: int where "RTTST_TMBENCH_HANDLER = 1"

text \<open>
  The three histograms are parts of one block of memory, \<open>tm_hist\<close>; the pointers into it are indices.
  The pointer to it is the null pointer, dangling (before the first allocation, after \<open>kfree\<close>) or the block. \<open>tm_tasks\<close> counts the running sampling tasks, \<open>tm_timer\<close>
  tells whether the timer is armed.
\<close>

datatype hist_mem = NullHist | Dangling | Hist "int list"

record rt_tmbench_context =
  tm_mode :: int
  tm_period :: u64
  freeze_max :: int
  warmup_loops :: int
  samples_per_sec :: int
  tm_hist :: hist_mem
  histogram_min :: int
  histogram_max :: int
  histogram_avg :: int
  histogram_size :: int
  bucketsize :: int
  tm_tasks :: nat
  tm_timer :: bool
  tm_warmup :: bool
  start_time :: u64
  tm_date :: u64
  curr :: rttst_bench_res
  result_event :: rtdm_event
  res_last :: rttst_bench_res
  res_overall :: rttst_bench_res

text \<open>Division of a non-negative number rounds towards zero also for a negative divisor.\<close>

definition add_histogram :: "rt_tmbench_context \<Rightarrow> int \<Rightarrow> int \<Rightarrow> rt_tmbench_context kres" where
  "add_histogram ctx histogram addval =
     (if bucketsize ctx = 0 then Inl DivByZero
      else
        let inabs = sgn (bucketsize ctx) * (\<bar>addval\<bar> div \<bar>bucketsize ctx\<bar>);
            i = histogram + (if inabs < histogram_size ctx then inabs else histogram_size ctx - 1)
        in case tm_hist ctx of
             NullHist \<Rightarrow> Inl NullDeref
           | Dangling \<Rightarrow> Inl UseAfterFree
           | Hist h \<Rightarrow>
               if 0 \<le> i \<and> i < int (length h) then Inr (ctx\<lparr>tm_hist := Hist (h[nat i := h ! nat i + 1])\<rparr>)
               else Inl OutOfBounds)"

text \<open>The divisor is converted to \<open>unsigned\<close>.\<close>

definition slldiv :: "int \<Rightarrow> int \<Rightarrow> int kres" where
  "slldiv s d =
     (let u = d mod 2 ^ 32
      in if u = 0 then Inl DivByZero else Inr (if s \<ge> 0 then s div u else - ((- s) div u)))"

definition eval_inner_loop :: "rt_tmbench_context \<Rightarrow> int \<Rightarrow> rt_tmbench_context kres" where
  "eval_inner_loop ctx dt =
     (let c = curr ctx;
          c1 = (if tm_date ctx \<le> start_time ctx then c\<lparr>br_overruns := br_overruns c + 1\<rparr> else c);
          c2 = (if dt > br_max c1 then c1\<lparr>br_max := dt\<rparr> else c1);
          c3 = (if dt < br_min c2 then c2\<lparr>br_min := dt\<rparr> else c2);
          ctx1 = ctx\<lparr>curr := c3\<lparr>br_avg := br_avg c3 + dt\<rparr>, tm_date := tm_date ctx + tm_period ctx\<rparr>
      in if \<not> tm_warmup ctx1 \<and> histogram_size ctx1 \<noteq> 0 then add_histogram ctx1 (histogram_avg ctx1) dt else Inr ctx1)"

text \<open>The part of \<open>eval_outer_loop\<close> after the warmup: the second's results.\<close>

definition second_done :: "rt_tmbench_context \<Rightarrow> rt_tmbench_context kres" where
  "second_done ctx =
     kbind (if histogram_size ctx \<noteq> 0 then
              kbind (add_histogram ctx (histogram_max ctx) (br_max (curr ctx))) (\<lambda>ctx1.
              add_histogram ctx1 (histogram_min ctx1) (br_min (curr ctx1)))
            else Inr ctx) (\<lambda>ctx1.
     kbind (slldiv (br_avg (curr ctx1)) (samples_per_sec ctx1)) (\<lambda>avg.
     let c = curr ctx1; o1 = res_overall ctx1;
         o2 = (if br_min c < br_min o1 then o1\<lparr>br_min := br_min c\<rparr> else o1);
         o3 = (if br_max c > br_max o2 then o2\<lparr>br_max := br_max c\<rparr> else o2)
     in Inr (ctx1\<lparr>res_last := (res_last ctx1)\<lparr>br_min := br_min c, br_max := br_max c, br_avg := avg\<rparr>,
          res_overall := o3\<lparr>br_avg := br_avg o3 + avg, br_overruns := br_overruns o3 + br_overruns c\<rparr>,
          result_event := rtdm_event_pulse (result_event ctx1)\<rparr>)))"

definition fresh_curr :: "rttst_bench_res \<Rightarrow> rttst_bench_res" where
  "fresh_curr c = c\<lparr>br_min := 10000000, br_max := -10000000, br_avg := 0, br_overruns := 0\<rparr>"

definition eval_outer_loop :: "rt_tmbench_context \<Rightarrow> rt_tmbench_context kres" where
  "eval_outer_loop ctx =
     kbind (if \<not> tm_warmup ctx then second_done ctx else Inr ctx) (\<lambda>ctx1.
     let o1 = res_overall ctx1;
         over = (tm_warmup ctx1 \<and> br_test_loops o1 = warmup_loops ctx1);
         o2 = (if over then o1\<lparr>br_test_loops := 0\<rparr> else o1)
     in Inr (ctx1\<lparr>tm_warmup := tm_warmup ctx1 \<and> \<not> over, curr := fresh_curr (curr ctx1),
          res_overall := o2\<lparr>br_test_loops := br_test_loops o2 + 1\<rparr>\<rparr>))"

text \<open>
  The sampling task. An event is what happens in one turn of the inner loop: the clock before the sleep,
  the result of \<open>rtdm_task_sleep_until\<close>, the clock after it. The flag of the result tells whether the
  task has returned; otherwise it sleeps, \<open>count\<close> samples into the second. \<open>fuel\<close> bounds the turns of both
  loops.
\<close>

definition take_sample :: "rt_tmbench_context \<Rightarrow> u64 \<Rightarrow> u64 \<Rightarrow> rt_tmbench_context kres" where
  "take_sample ctx t0 t1 = eval_inner_loop (ctx\<lparr>start_time := t0\<rparr>) (sint (t1 - tm_date ctx))"

fun timer_task_loop ::
    "nat \<Rightarrow> rt_tmbench_context \<Rightarrow> int \<Rightarrow> (u64 \<times> cret \<times> u64) list \<Rightarrow> (bool \<times> int \<times> rt_tmbench_context) kres" where
  "timer_task_loop 0 ctx count evs = Inl Diverges"
| "timer_task_loop (Suc fuel) ctx count evs =
     (if count < samples_per_sec ctx then
        (case evs of
           [] \<Rightarrow> Inr (False, count, ctx)
         | (t0, err, t1) # es \<Rightarrow>
             if err \<noteq> Inr 0 then Inr (True, count, ctx\<lparr>start_time := t0\<rparr>)
             else kbind (take_sample ctx t0 t1) (\<lambda>ctx1. timer_task_loop fuel ctx1 (count + 1) es))
      else kbind (eval_outer_loop ctx) (\<lambda>ctx1. timer_task_loop fuel ctx1 0 evs))"

definition timer_task_proc ::
    "nat \<Rightarrow> rt_tmbench_context \<Rightarrow> u64 \<Rightarrow> (u64 \<times> cret \<times> u64) list \<Rightarrow> (bool \<times> int \<times> rt_tmbench_context) kres" where
  "timer_task_proc fuel ctx clk evs = timer_task_loop fuel (ctx\<lparr>tm_date := clk + 1000000\<rparr>) 0 evs"

text \<open>The timer handler; it reads the clock twice.\<close>

definition timer_proc :: "rt_tmbench_context \<Rightarrow> u64 \<Rightarrow> u64 \<Rightarrow> rt_tmbench_context kres" where
  "timer_proc ctx clk1 clk2 =
     kbind (eval_inner_loop ctx (sint (clk1 - tm_date ctx))) (\<lambda>ctx1.
     let ctx2 = ctx1\<lparr>start_time := clk2, tm_timer := True,
                     curr := (curr ctx1)\<lparr>br_test_loops := br_test_loops (curr ctx1) + 1\<rparr>\<rparr>
     in if br_test_loops (curr ctx2) < samples_per_sec ctx2 then Inr ctx2
        else eval_outer_loop (ctx2\<lparr>curr := (curr ctx2)\<lparr>br_test_loops := 0\<rparr>\<rparr>))"

section \<open>The device\<close>

definition rt_tmbench_open :: "rt_tmbench_context \<Rightarrow> cret \<times> rt_tmbench_context" where
  "rt_tmbench_open ctx = (Inr 0, ctx\<lparr>tm_mode := -1\<rparr>)"

text \<open>Destroying the task stops the one that was started last.\<close>

definition stop_sampling :: "rt_tmbench_context \<Rightarrow> rt_tmbench_context" where
  "stop_sampling ctx =
     (let ctx1 = (if tm_mode ctx = RTTST_TMBENCH_TASK then ctx\<lparr>tm_tasks := tm_tasks ctx - 1\<rparr> else ctx\<lparr>tm_timer := False\<rparr>)
      in ctx1\<lparr>result_event := rtdm_event_destroy (result_event ctx1)\<rparr>)"

definition kfree_hist :: "hist_mem \<Rightarrow> hist_mem" where
  "kfree_hist m = (if m = NullHist then NullHist else Dangling)"

definition rt_tmbench_close :: "rt_tmbench_context \<Rightarrow> (cret \<times> rt_tmbench_context) kres" where
  "rt_tmbench_close ctx =
     (if tm_mode ctx \<ge> 0 then
        let ctx1 = stop_sampling ctx
        in if histogram_size ctx1 \<noteq> 0 \<and> tm_hist ctx1 = Dangling then Inl BadFree
           else Inr (Inr 0, ctx1\<lparr>tm_hist := (if histogram_size ctx1 \<noteq> 0 then kfree_hist (tm_hist ctx1) else tm_hist ctx1),
                                  tm_mode := -1, histogram_size := 0\<rparr>)
      else Inr (Inr 0, ctx))"

text \<open>
  \<open>mem\<close>: there is memory for the histograms; \<open>closing\<close>: the flag \<open>RTDM_CLOSING\<close> of the context; \<open>task_ret\<close>: the
  result of \<open>rtdm_task_init\<close>; \<open>clk\<close>: the clock.
\<close>

definition start_mode :: "rt_tmbench_context \<Rightarrow> int \<Rightarrow> bool \<Rightarrow> cret \<Rightarrow> u64 \<Rightarrow> cret \<times> rt_tmbench_context" where
  "start_mode ctx mode closing task_ret clk =
     (if mode = RTTST_TMBENCH_TASK then
        if closing then (Inr 0, ctx)
        else (task_ret, ctx\<lparr>tm_mode := RTTST_TMBENCH_TASK, tm_tasks := tm_tasks ctx + (if task_ret = Inr 0 then 1 else 0)\<rparr>)
      else
        let ctx1 = ctx\<lparr>curr := (curr ctx)\<lparr>br_test_loops := 0\<rparr>\<rparr>
        in if closing then (Inr 0, ctx1)
           else
             let st = clk + 1000000
             in (Inr 0, ctx1\<lparr>tm_mode := RTTST_TMBENCH_HANDLER, start_time := st, tm_date := st + tm_period ctx1, tm_timer := True\<rparr>))"

definition tmbench_start ::
    "rt_tmbench_context \<Rightarrow> rttst_tmbench_config \<Rightarrow> bool \<Rightarrow> bool \<Rightarrow> cret \<Rightarrow> u64 \<Rightarrow> (cret \<times> rt_tmbench_context) kres" where
  "tmbench_start ctx config mem closing task_ret clk =
     (let period = of_int (cfg_period config) :: u64; size = cfg_histogram_size config in
      if period = 0 then Inl DivByZero
      else
        let ctx1 = ctx\<lparr>tm_period := period, warmup_loops := cfg_warmup_loops config,
                       samples_per_sec := uint (1000000000 div period), histogram_size := size,
                       freeze_max := cfg_freeze_max config\<rparr>;
            ctx2 = (if size > 0
                    then ctx1\<lparr>tm_hist := (if mem then Hist (replicate (3 * nat size) 0) else NullHist),
                              histogram_min := 0, histogram_max := size, histogram_avg := size + size\<rparr>
                    else ctx1)
        in if size > 0 \<and> \<not> mem then Inr (Inl ENOMEM, ctx2)
           else
             let ctx3 = (if size > 0 then ctx2\<lparr>bucketsize := cfg_histogram_bucketsize config\<rparr> else ctx2);
                 ctx4 = ctx3\<lparr>res_overall := \<lparr>br_avg = 0, br_min = 10000000, br_max = -10000000, br_overruns = 0, br_test_loops = 1\<rparr>,
                             tm_warmup := True, curr := fresh_curr (curr ctx3), result_event := rtdm_event_init (result_event ctx3) False\<rparr>
             in Inr (start_mode ctx4 (cfg_mode config) closing task_ret clk))"

text \<open>
  \<open>res_ok\<close> and \<open>hist_ok\<close>: the results and the histograms can be copied to the caller (always so in the
  kernel). The results that are copied: overall, minimum, maximum and average histogram.
\<close>

definition hist_part :: "rt_tmbench_context \<Rightarrow> int \<Rightarrow> int list kres" where
  "hist_part ctx i =
     (case tm_hist ctx of
        NullHist \<Rightarrow> Inl NullDeref
      | Dangling \<Rightarrow> Inl UseAfterFree
      | Hist h \<Rightarrow> if i + histogram_size ctx \<le> int (length h) then Inr (take (nat (histogram_size ctx)) (drop (nat i) h)) else Inl OutOfBounds)"

type_synonym overall_bench_res = "rttst_bench_res \<times> (int list \<times> int list \<times> int list) option"

definition tmbench_stop ::
    "rt_tmbench_context \<Rightarrow> bool \<Rightarrow> bool \<Rightarrow> (cret \<times> overall_bench_res option \<times> rt_tmbench_context) kres" where
  "tmbench_stop ctx res_ok hist_ok =
     (if tm_mode ctx < 0 then Inr (Inl EINVAL, None, ctx)
      else
        let ctx1 = (stop_sampling ctx)\<lparr>tm_mode := -1\<rparr>; o1 = res_overall ctx1
        in kbind (slldiv (br_avg o1) ((if br_test_loops o1 > 1 then br_test_loops o1 else 2) - 1)) (\<lambda>avg.
           let o2 = o1\<lparr>br_avg := avg\<rparr>; ctx2 = ctx1\<lparr>res_overall := o2\<rparr>;
               err = (if res_ok then Inr 0 else Inl EFAULT)
           in if histogram_size ctx2 > 0 then
                kbind (hist_part ctx2 (histogram_min ctx2)) (\<lambda>hmin.
                kbind (hist_part ctx2 (histogram_max ctx2)) (\<lambda>hmax.
                kbind (hist_part ctx2 (histogram_avg ctx2)) (\<lambda>havg.
                Inr (if hist_ok then err else Inl EFAULT, Some (o2, Some (hmin, hmax, havg)), ctx2\<lparr>tm_hist := Dangling\<rparr>))))
              else Inr (err, Some (o2, None), ctx2)))"

datatype tmbench_request = RTTST_RTIOC_TMBENCH_START rttst_tmbench_config | RTTST_RTIOC_TMBENCH_STOP
  | RTTST_RTIOC_INTERM_BENCH_RES | TMBENCH_OTHER

text \<open>\<open>readable\<close>: the configuration can be read.\<close>

definition rt_tmbench_ioctl_nrt ::
    "rt_tmbench_context \<Rightarrow> tmbench_request \<Rightarrow> bool \<Rightarrow> bool \<Rightarrow> bool \<Rightarrow> cret \<Rightarrow> u64 \<Rightarrow> bool \<Rightarrow> bool
      \<Rightarrow> (cret \<times> overall_bench_res option \<times> rt_tmbench_context) kres" where
  "rt_tmbench_ioctl_nrt ctx request readable mem closing task_ret clk res_ok hist_ok =
     (case request of
        RTTST_RTIOC_TMBENCH_START config \<Rightarrow>
          if \<not> readable then Inr (Inl EFAULT, None, ctx)
          else kbind (tmbench_start ctx config mem closing task_ret clk) (\<lambda>(r, ctx1). Inr (r, None, ctx1))
      | RTTST_RTIOC_TMBENCH_STOP \<Rightarrow> tmbench_stop ctx res_ok hist_ok
      | RTTST_RTIOC_INTERM_BENCH_RES \<Rightarrow> Inr (Inl ENOSYS, None, ctx)
      | TMBENCH_OTHER \<Rightarrow> Inr (Inl ENOTTY, None, ctx))"

text \<open>
  The wait for an intermediate result: \<open>signalled\<close> and \<open>wake\<close> as for \<open>rtdm_event_wait\<close>, and the context as the
  sampling has left it meanwhile. The result \<open>None\<close> is a call that is still asleep.
\<close>

definition rt_tmbench_ioctl_rt ::
    "rt_tmbench_context \<Rightarrow> tmbench_request \<Rightarrow> bool \<Rightarrow> event_wakeup option \<Rightarrow> rt_tmbench_context \<Rightarrow> bool
      \<Rightarrow> (cret \<times> (rttst_bench_res \<times> rttst_bench_res) option) option" where
  "rt_tmbench_ioctl_rt ctx request signalled wake later res_ok =
     (case request of
        RTTST_RTIOC_INTERM_BENCH_RES \<Rightarrow>
          map_option (\<lambda>(r, _). if r \<noteq> Inr 0 then (r, None)
              else (if res_ok then Inr 0 else Inl EFAULT, Some (res_last later, res_overall later)))
            (rtdm_event_wait (result_event ctx) signalled wake)
      | RTTST_RTIOC_TMBENCH_START _ \<Rightarrow> Some (Inl ENOSYS, None)
      | RTTST_RTIOC_TMBENCH_STOP \<Rightarrow> Some (Inl ENOSYS, None)
      | TMBENCH_OTHER \<Rightarrow> Some (Inl ENOTTY, None))"

end
