(* ===== verification/Test_Bench.thy ===== *)
theory Test_Bench
  imports Test_Timer
begin

text \<open>
  What the timer benchmark measures: the results of \<open>RTTST_RTIOC_TMBENCH_STOP\<close> are the minimum, the maximum,
  the average of the averages, the number of overruns and the bucket counts of exactly the samples
  taken after the warmup; and what a configuration that is not checked does.
\<close>

section \<open>The statistics\<close>

text \<open>A sample is a latency and whether it was an overrun.\<close>

type_synonym sample = "int \<times> bool"

definition lat_min :: "sample list \<Rightarrow> int" where
  "lat_min ss = foldr (\<lambda>s m. min (fst s) m) ss 10000000"

definition lat_max :: "sample list \<Rightarrow> int" where
  "lat_max ss = foldr (\<lambda>s m. max (fst s) m) ss (-10000000)"

definition lat_sum :: "sample list \<Rightarrow> int" where
  "lat_sum ss = (\<Sum>s\<leftarrow>ss. fst s)"

definition lat_overruns :: "sample list \<Rightarrow> int" where
  "lat_overruns ss = int (length (filter snd ss))"

text \<open>Division that rounds towards zero.\<close>

definition tdiv :: "int \<Rightarrow> int \<Rightarrow> int" where
  "tdiv s d = sgn s * (\<bar>s\<bar> div d)"

definition bucket :: "int \<Rightarrow> int \<Rightarrow> int \<Rightarrow> nat" where
  "bucket hsize b x = nat (min (\<bar>x\<bar> div b) (hsize - 1))"

definition bucket_counts :: "int \<Rightarrow> int \<Rightarrow> int list \<Rightarrow> int list" where
  "bucket_counts hsize b xs = map (\<lambda>i. int (length (filter (\<lambda>x. bucket hsize b x = i) xs))) [0..<nat hsize]"

text \<open>The overall result over the completed seconds \<open>secs\<close>; the averages of the seconds are added up.\<close>

definition avg_sum :: "int \<Rightarrow> sample list list \<Rightarrow> int" where
  "avg_sum n secs = (\<Sum>s\<leftarrow>secs. tdiv (lat_sum s) n)"

definition bench_hists :: "int \<Rightarrow> int \<Rightarrow> sample list list \<Rightarrow> sample list \<Rightarrow> int list \<times> int list \<times> int list" where
  "bench_hists hsize b secs part =
     (bucket_counts hsize b (map lat_min secs), bucket_counts hsize b (map lat_max secs),
      bucket_counts hsize b (map fst (concat secs @ part)))"

text \<open>
  The state of the benchmark after the seconds \<open>secs\<close>, the first \<open>W\<close> of them warmup, and the samples \<open>part\<close> of
  the second that has begun.
\<close>

definition warming :: "nat \<Rightarrow> sample list list \<Rightarrow> bool" where
  "warming W secs \<longleftrightarrow> length secs < W"

definition bench_hist_ok :: "nat \<Rightarrow> sample list list \<Rightarrow> sample list \<Rightarrow> rt_tmbench_context \<Rightarrow> bool" where
  "bench_hist_ok W secs part ctx \<longleftrightarrow>
     histogram_size ctx > 0 \<longrightarrow>
       bucketsize ctx > 0 \<and> histogram_min ctx = 0 \<and> histogram_max ctx = histogram_size ctx \<and>
       histogram_avg ctx = 2 * histogram_size ctx \<and>
       (case bench_hists (histogram_size ctx) (bucketsize ctx) (drop W secs) (if warming W secs then [] else part) of
          (hmin, hmax, havg) \<Rightarrow> tm_hist ctx = Hist (hmin @ hmax @ havg))"

definition bench_ok :: "nat \<Rightarrow> sample list list \<Rightarrow> sample list \<Rightarrow> rt_tmbench_context \<Rightarrow> bool" where
  "bench_ok W secs part ctx \<longleftrightarrow>
     0 < samples_per_sec ctx \<and> samples_per_sec ctx < 2 ^ 32 \<and> 0 \<le> histogram_size ctx \<and> bench_hist_ok W secs part ctx \<and>
     warmup_loops ctx = int W \<and> tm_warmup ctx = warming W secs \<and>
     br_min (curr ctx) = lat_min part \<and> br_max (curr ctx) = lat_max part \<and> br_avg (curr ctx) = lat_sum part \<and>
     br_overruns (curr ctx) = lat_overruns part \<and>
     res_overall ctx = \<lparr>br_avg = avg_sum (samples_per_sec ctx) (drop W secs), br_min = lat_min (concat (drop W secs)),
       br_max = lat_max (concat (drop W secs)), br_overruns = lat_overruns (concat (drop W secs)),
       br_test_loops = int (if warming W secs then length secs else length secs - W) + 1\<rparr>"

text \<open>What the sampling keeps.\<close>

definition bench_same :: "rt_tmbench_context \<Rightarrow> rt_tmbench_context \<Rightarrow> bool" where
  "bench_same ctx ctx' \<longleftrightarrow>
     samples_per_sec ctx' = samples_per_sec ctx \<and> histogram_size ctx' = histogram_size ctx \<and>
     bucketsize ctx' = bucketsize ctx \<and> tm_mode ctx' = tm_mode ctx \<and> tm_period ctx' = tm_period ctx \<and>
     tm_tasks ctx' = tm_tasks ctx"

text \<open>
  The samples that the turns of the task's loop give: the date of a sample is one period after the
  date before it.
\<close>

fun task_samples :: "u64 \<Rightarrow> u64 \<Rightarrow> (u64 \<times> u64) list \<Rightarrow> sample list" where
  "task_samples date period [] = []"
| "task_samples date period ((t0, t1) # ts) = (sint (t1 - date), date \<le> t0) # task_samples (date + period) period ts"

text \<open>
  The timer handler instead: an expiry of the timer reads the clock twice; a sample is an overrun if
  its date had passed when the timer was set.
\<close>

fun timer_fires :: "rt_tmbench_context \<Rightarrow> (u64 \<times> u64) list \<Rightarrow> rt_tmbench_context kres" where
  "timer_fires ctx [] = Inr ctx"
| "timer_fires ctx ((c1, c2) # cs) = kbind (timer_proc ctx c1 c2) (\<lambda>ctx1. timer_fires ctx1 cs)"

fun timer_samples :: "u64 \<Rightarrow> u64 \<Rightarrow> u64 \<Rightarrow> (u64 \<times> u64) list \<Rightarrow> sample list" where
  "timer_samples start date period [] = []"
| "timer_samples start date period ((c1, c2) # cs) =
     (sint (c1 - date), date \<le> start) # timer_samples c2 (date + period) period cs"

text \<open>The samples of a whole number of seconds of \<open>n\<close> samples, and those left over.\<close>

function seconds :: "nat \<Rightarrow> 'a list \<Rightarrow> 'a list list" where
  "seconds n xs = (if n = 0 \<or> length xs < n then [] else take n xs # seconds n (drop n xs))"
  by auto
termination
  by (relation "measure (\<lambda>(n, xs). length xs)") auto

declare seconds.simps [simp del]

definition remainder :: "nat \<Rightarrow> 'a list \<Rightarrow> 'a list" where
  "remainder n xs = drop (n * (length xs div n)) xs"

text \<open>
  The report: \<open>n\<close> samples in a second, \<open>W\<close> seconds of warmup, then the measured seconds. Samples of a second
  that is not complete count in the histogram of all latencies only.
\<close>

definition bench_report :: "rttst_tmbench_config \<Rightarrow> sample list \<Rightarrow> overall_bench_res" where
  "bench_report config S =
     (let n = 1000000000 div cfg_period config; W = nat (cfg_warmup_loops config);
          secs = seconds (nat n) S; measured = drop W secs;
          hists = bench_hists (cfg_histogram_size config) (cfg_histogram_bucketsize config) measured
            (if warming W secs then [] else remainder (nat n) S)
      in (\<lparr>br_avg = tdiv (avg_sum n measured) (int (max 1 (length measured))), br_min = lat_min (concat measured),
           br_max = lat_max (concat measured), br_overruns = lat_overruns (concat measured),
           br_test_loops = int (if warming W secs then length secs else length measured) + 1\<rparr>,
          if cfg_histogram_size config > 0 then Some hists else None))"

definition config_ok :: "rttst_tmbench_config \<Rightarrow> bool" where
  "config_ok config \<longleftrightarrow>
     0 < cfg_period config \<and> cfg_period config \<le> 1000000000 \<and> 0 < cfg_warmup_loops config \<and>
     0 \<le> cfg_histogram_size config \<and> (cfg_histogram_size config > 0 \<longrightarrow> cfg_histogram_bucketsize config > 0)"

section \<open>The pieces\<close>

lemma lat_snoc [simp]:
  "lat_min (xs @ ys) = min (lat_min xs) (lat_min ys)"
  "lat_max (xs @ ys) = max (lat_max xs) (lat_max ys)"
  "lat_sum (xs @ ys) = lat_sum xs + lat_sum ys"
  "lat_overruns (xs @ ys) = lat_overruns xs + lat_overruns ys"
proof -
  have m: "foldr (\<lambda>s m. min (fst s) m) xs a = min a (foldr (\<lambda>s m. min (fst s) m) xs 10000000)"
    if "a \<le> 10000000" for a :: int and xs :: "sample list"
    using that by (induction xs) auto
  have l: "lat_min xs \<le> 10000000" for xs
    unfolding lat_min_def by (induction xs) auto
  show "lat_min (xs @ ys) = min (lat_min xs) (lat_min ys)"
    using m [OF l [of ys], of xs] by (simp add: lat_min_def min.commute)
  have m': "foldr (\<lambda>s m. max (fst s) m) xs a = max a (foldr (\<lambda>s m. max (fst s) m) xs (-10000000))"
    if "-10000000 \<le> a" for a :: int and xs :: "sample list"
    using that by (induction xs) auto
  have l': "-10000000 \<le> lat_max xs" for xs
    unfolding lat_max_def by (induction xs) auto
  show "lat_max (xs @ ys) = max (lat_max xs) (lat_max ys)"
    using m' [OF l' [of ys], of xs] by (simp add: lat_max_def max.commute)
qed (simp_all add: lat_sum_def lat_overruns_def)

lemma lat_Nil [simp]:
  "lat_min [] = 10000000" "lat_max [] = -10000000" "lat_sum [] = 0" "lat_overruns [] = 0"
  by (simp_all add: lat_min_def lat_max_def lat_sum_def lat_overruns_def)

lemma lat_single [simp]:
  "lat_min [s] = min (fst s) 10000000" "lat_max [s] = max (fst s) (-10000000)" "lat_sum [s] = fst s"
  "lat_overruns [s] = (if snd s then 1 else 0)"
  by (simp_all add: lat_min_def lat_max_def lat_sum_def lat_overruns_def)

lemma lat_bounds: "lat_min ss \<le> 10000000" "-10000000 \<le> lat_max ss"
  unfolding lat_min_def lat_max_def by (induction ss) auto

lemma slldiv_tdiv: "0 < d \<Longrightarrow> d < 2 ^ 32 \<Longrightarrow> slldiv s d = Inr (tdiv s d)"
  by (simp add: slldiv_def tdiv_def sgn_if Let_def mod_pos_pos_trivial)

lemma bucket_less: "0 < hsize \<Longrightarrow> 0 < b \<Longrightarrow> bucket hsize b x < nat hsize"
  using pos_imp_zdiv_nonneg_iff [of b "\<bar>x\<bar>"] by (simp add: bucket_def)

lemma bucket_counts_length [simp]: "length (bucket_counts hsize b xs) = nat hsize"
  by (simp add: bucket_counts_def)

lemma bucket_counts_Nil: "bucket_counts hsize b [] = replicate (nat hsize) 0"
  by (simp add: bucket_counts_def map_replicate_const)

lemma bucket_counts_snoc:
  assumes "0 < hsize" and "0 < b"
  shows "bucket_counts hsize b (xs @ [x]) =
    (bucket_counts hsize b xs)[bucket hsize b x := bucket_counts hsize b xs ! bucket hsize b x + 1]"
  using bucket_less [OF assms, of x] by (intro nth_equalityI) (auto simp: bucket_counts_def nth_list_update)

text \<open>Counting in one part of the block leaves the others alone.\<close>

lemma add_histogram_part:
  assumes h: "tm_hist ctx = Hist (A @ bucket_counts (histogram_size ctx) (bucketsize ctx) xs @ B)"
    and pos: "0 < histogram_size ctx" "0 < bucketsize ctx" and p: "p = int (length A)"
  shows "add_histogram ctx p x =
    Inr (ctx\<lparr>tm_hist := Hist (A @ bucket_counts (histogram_size ctx) (bucketsize ctx) (xs @ [x]) @ B)\<rparr>)"
proof -
  let ?q = "\<bar>x\<bar> div bucketsize ctx"
  let ?k = "bucket (histogram_size ctx) (bucketsize ctx) x"
  have q: "0 \<le> ?q"
    using pos(2) by (simp add: pos_imp_zdiv_nonneg_iff)
  have k: "(if ?q < histogram_size ctx then ?q else histogram_size ctx - 1) = int ?k"
    using pos q by (auto simp: bucket_def)
  have kl: "?k < nat (histogram_size ctx)"
    by (rule bucket_less [OF pos])
  show ?thesis
    using pos h kl unfolding add_histogram_def
    by (simp add: k p nat_int_add list_update_append nth_append bucket_counts_snoc [OF pos] Let_def)
qed


lemma bench_ok_hist:
  "bench_ok W secs part ctx \<Longrightarrow> histogram_size ctx \<noteq> 0 \<Longrightarrow>
    0 < histogram_size ctx \<and> 0 < bucketsize ctx \<and> histogram_min ctx = 0 \<and> histogram_max ctx = histogram_size ctx \<and>
    histogram_avg ctx = 2 * histogram_size ctx"
  by (auto simp: bench_ok_def bench_hist_ok_def split: prod.splits)

section \<open>One sample, one second\<close>

lemma eval_inner_loop_ok:
  assumes "bench_ok W secs part ctx"
  shows "\<exists>ctx'. eval_inner_loop ctx dt = Inr ctx' \<and> bench_ok W secs (part @ [(dt, tm_date ctx \<le> start_time ctx)]) ctx' \<and>
    bench_same ctx ctx' \<and> tm_date ctx' = tm_date ctx + tm_period ctx \<and> br_test_loops (curr ctx') = br_test_loops (curr ctx)"
proof -
  let ?s = "(dt, tm_date ctx \<le> start_time ctx)"
  define c where "c = (curr ctx)\<lparr>br_avg := lat_sum (part @ [?s]), br_min := lat_min (part @ [?s]),
    br_max := lat_max (part @ [?s]), br_overruns := lat_overruns (part @ [?s])\<rparr>"
  define ctx1 where "ctx1 = ctx\<lparr>curr := c, tm_date := tm_date ctx + tm_period ctx\<rparr>"
  obtain k where k: "curr ctx = \<lparr>br_avg = lat_sum part, br_min = lat_min part, br_max = lat_max part,
      br_overruns = lat_overruns part, br_test_loops = k\<rparr>"
    using assms by (cases "curr ctx") (auto simp: bench_ok_def)
  have step: "eval_inner_loop ctx dt = (if \<not> tm_warmup ctx \<and> histogram_size ctx \<noteq> 0 then add_histogram ctx1 (histogram_avg ctx1) dt else Inr ctx1)"
    using lat_bounds [of part] by (simp add: eval_inner_loop_def ctx1_def c_def k Let_def min_def max_def)
  show ?thesis
  proof (cases "\<not> tm_warmup ctx \<and> histogram_size ctx \<noteq> 0")
    case True
    have w: "\<not> warming W secs"
      using True assms by (simp add: bench_ok_def)
    let ?b = "bucket_counts (histogram_size ctx) (bucketsize ctx)"
    have h: "tm_hist ctx1 = Hist ((?b (map lat_min (drop W secs)) @ ?b (map lat_max (drop W secs))) @
      ?b (map fst (concat (drop W secs) @ part)) @ [])"
      using assms bench_ok_hist [OF assms] True w by (auto simp: ctx1_def bench_ok_def bench_hist_ok_def bench_hists_def)
    have a: "add_histogram ctx1 (histogram_avg ctx1) dt = Inr (ctx1\<lparr>tm_hist := Hist ((?b (map lat_min (drop W secs)) @ ?b (map lat_max (drop W secs))) @
      ?b (map fst (concat (drop W secs) @ part) @ [dt]) @ [])\<rparr>)"
      using add_histogram_part [of ctx1 _ "map fst (concat (drop W secs) @ part)" "[]" "histogram_avg ctx1" dt] h bench_ok_hist [OF assms] True
      by (simp add: ctx1_def)
    show ?thesis
      using assms bench_ok_hist [OF assms] True w
      by (simp add: step a) (simp add: ctx1_def c_def bench_ok_def bench_hist_ok_def bench_hists_def bench_same_def)
  next
    case False
    then show ?thesis
      using assms by (auto simp: step ctx1_def c_def bench_ok_def bench_hist_ok_def bench_hists_def bench_same_def)
  qed
qed


text \<open>The end of a second that is measured: the second's extremes go into their histograms, its figures into the results.\<close>

lemma second_hists:
  assumes "bench_ok W secs part ctx" and w: "\<not> warming W secs" and sz: "histogram_size ctx \<noteq> 0"
  shows "\<exists>h. kbind (add_histogram ctx (histogram_max ctx) (br_max (curr ctx))) (\<lambda>ctx1. add_histogram ctx1 (histogram_min ctx1) (br_min (curr ctx1)))
      = Inr (ctx\<lparr>tm_hist := Hist h\<rparr>) \<and> bench_hist_ok W (secs @ [part]) [] (ctx\<lparr>tm_hist := Hist h\<rparr>)"
proof -
  note o = bench_ok_hist [OF assms(1) sz]
  let ?b = "bucket_counts (histogram_size ctx) (bucketsize ctx)"
  let ?secs = "drop W secs" and ?all = "?b (map fst (concat (drop W secs) @ part))"
  have h: "tm_hist ctx = Hist (?b (map lat_min ?secs) @ ?b (map lat_max ?secs) @ ?all)"
    using assms(1) w o by (auto simp: bench_ok_def bench_hist_ok_def bench_hists_def)
  define ctx1 where "ctx1 = ctx\<lparr>tm_hist := Hist (?b (map lat_min ?secs) @ ?b (map lat_max ?secs @ [br_max (curr ctx)]) @ ?all)\<rparr>"
  have 1: "add_histogram ctx (histogram_max ctx) (br_max (curr ctx)) = Inr ctx1"
    using add_histogram_part [OF h, of "histogram_max ctx" "br_max (curr ctx)"] o by (simp add: ctx1_def)
  have 2: "add_histogram ctx1 (histogram_min ctx1) (br_min (curr ctx1)) = Inr (ctx\<lparr>tm_hist := Hist (
      ?b (map lat_min ?secs @ [br_min (curr ctx)]) @ ?b (map lat_max ?secs @ [br_max (curr ctx)]) @ ?all)\<rparr>)"
    using add_histogram_part [of ctx1 "[]" "map lat_min ?secs" _ "histogram_min ctx1" "br_min (curr ctx1)"] o by (simp add: ctx1_def)
  have "drop W (secs @ [part]) = ?secs @ [part]" "\<not> warming W (secs @ [part])"
    using w by (simp_all add: warming_def)
  then show ?thesis
    using 1 2 o assms(1) by (auto simp: bench_hist_ok_def bench_hists_def bench_ok_def)
qed

lemma second_done_ok:
  assumes "bench_ok W secs part ctx" and w: "\<not> warming W secs"
  shows "\<exists>ctx'. second_done ctx = Inr ctx' \<and> bench_hist_ok W (secs @ [part]) [] ctx' \<and> bench_same ctx ctx' \<and>
    tm_warmup ctx' = tm_warmup ctx \<and> warmup_loops ctx' = warmup_loops ctx \<and> tm_date ctx' = tm_date ctx \<and> start_time ctx' = start_time ctx \<and> curr ctx' = curr ctx \<and>
    res_overall ctx' = \<lparr>br_avg = avg_sum (samples_per_sec ctx) (drop W (secs @ [part])), br_min = lat_min (concat (drop W (secs @ [part]))),
      br_max = lat_max (concat (drop W (secs @ [part]))), br_overruns = lat_overruns (concat (drop W (secs @ [part]))),
      br_test_loops = int (length secs - W) + 1\<rparr>"
proof -
  define pre where "pre = (if histogram_size ctx \<noteq> 0 then
      kbind (add_histogram ctx (histogram_max ctx) (br_max (curr ctx))) (\<lambda>ctx1. add_histogram ctx1 (histogram_min ctx1) (br_min (curr ctx1)))
    else Inr ctx)"
  obtain m where pre: "pre = Inr (ctx\<lparr>tm_hist := m\<rparr>)" and ok: "bench_hist_ok W (secs @ [part]) [] (ctx\<lparr>tm_hist := m\<rparr>)"
  proof (cases "histogram_size ctx = 0")
    case True
    then show ?thesis
      by (intro that [of "tm_hist ctx"]) (simp_all add: pre_def bench_hist_ok_def)
  next
    case False
    then show ?thesis
      using second_hists [OF assms False] that by (auto simp: pre_def)
  qed
  have d: "W \<le> length secs"
    using w by (simp add: warming_def)
  have n: "slldiv (lat_sum part) (samples_per_sec ctx) = Inr (tdiv (lat_sum part) (samples_per_sec ctx))"
    using assms(1) by (simp add: bench_ok_def slldiv_tdiv)
  have "second_done ctx = Inr (ctx\<lparr>tm_hist := m,
      res_last := (res_last ctx)\<lparr>br_min := br_min (curr ctx), br_max := br_max (curr ctx), br_avg := tdiv (lat_sum part) (samples_per_sec ctx)\<rparr>,
      res_overall := \<lparr>br_avg = avg_sum (samples_per_sec ctx) (drop W (secs @ [part])), br_min = lat_min (concat (drop W (secs @ [part]))),
        br_max = lat_max (concat (drop W (secs @ [part]))), br_overruns = lat_overruns (concat (drop W (secs @ [part]))),
        br_test_loops = int (length secs - W) + 1\<rparr>,
      result_event := rtdm_event_pulse (result_event ctx)\<rparr>)"
    using assms unfolding second_done_def pre_def [symmetric] pre
    by (simp add: n d Let_def bench_ok_def avg_sum_def min_def max_def)
  then show ?thesis
    using ok by (simp add: bench_hist_ok_def bench_same_def)
qed

lemma eval_outer_loop_ok:
  assumes "bench_ok W secs part ctx" and W: "0 < W"
  shows "\<exists>ctx'. eval_outer_loop ctx = Inr ctx' \<and> bench_ok W (secs @ [part]) [] ctx' \<and> bench_same ctx ctx' \<and>
    tm_date ctx' = tm_date ctx \<and> start_time ctx' = start_time ctx \<and> br_test_loops (curr ctx') = br_test_loops (curr ctx)"
proof (cases "warming W secs")
  case True
  then have "drop W (secs @ [part]) = []" "drop W secs = []"
    by (simp_all add: warming_def)
  moreover have "warming W (secs @ [part]) \<longleftrightarrow> Suc (length secs) \<noteq> W"
    using True by (auto simp: warming_def)
  ultimately show ?thesis
    using assms True by (simp add: eval_outer_loop_def bench_ok_def bench_hist_ok_def bench_same_def fresh_curr_def Let_def) (auto simp: warming_def)
next
  case False
  then have "\<not> warming W (secs @ [part])" "int (Suc (length secs) - W) = int (length secs - W) + 1"
    by (auto simp: warming_def)
  then show ?thesis
    using second_done_ok [OF assms(1) False] assms False
    by (auto simp: eval_outer_loop_def bench_ok_def bench_hist_ok_def bench_same_def fresh_curr_def Let_def)
qed


section \<open>The whole measurement\<close>

lemma seconds_less: "length xs < n \<Longrightarrow> seconds n xs = []"
  by (simp add: seconds.simps)

lemma remainder_less: "length xs < n \<Longrightarrow> remainder n xs = xs"
  by (simp add: remainder_def)

lemma seconds_full:
  assumes "length xs = n" and "0 < n"
  shows "seconds n (xs @ ys) = xs # seconds n ys" and "remainder n (xs @ ys) = remainder n ys"
proof -
  show "seconds n (xs @ ys) = xs # seconds n ys"
    using assms by (subst seconds.simps) simp
  have "(n + length ys) div n = Suc (length ys div n)"
    using assms(2) by (simp add: le_div_geq)
  then show "remainder n (xs @ ys) = remainder n ys"
    using assms by (simp add: remainder_def)
qed

lemma remainder_length: "0 < n \<Longrightarrow> length (remainder n xs) < n"
  by (simp add: remainder_def minus_mult_div_eq_mod)

lemma bench_same_trans: "bench_same a b \<Longrightarrow> bench_same b c \<Longrightarrow> bench_same a c"
  by (simp add: bench_same_def)

lemma bench_same_period: "bench_same a b \<Longrightarrow> tm_period b = tm_period a \<and> samples_per_sec b = samples_per_sec a"
  by (simp add: bench_same_def)

lemma bench_ok_start: "bench_ok W secs part (ctx\<lparr>start_time := t\<rparr>) = bench_ok W secs part ctx"
  by (simp add: bench_ok_def bench_hist_ok_def)

lemma take_sample_ok:
  assumes "bench_ok W secs part ctx"
  shows "\<exists>ctx'. take_sample ctx t0 t1 = Inr ctx' \<and> bench_ok W secs (part @ [(sint (t1 - tm_date ctx), tm_date ctx \<le> t0)]) ctx' \<and>
    bench_same ctx ctx' \<and> tm_date ctx' = tm_date ctx + tm_period ctx"
proof -
  have "bench_ok W secs part (ctx\<lparr>start_time := t0\<rparr>)"
    using assms by (simp add: bench_ok_start)
  then show ?thesis
    using eval_inner_loop_ok [of W secs part "ctx\<lparr>start_time := t0\<rparr>" "sint (t1 - tm_date ctx)"]
    by (auto simp: take_sample_def bench_same_def)
qed

lemma task_loop_ok:
  assumes "bench_ok W secs part ctx" and "0 < W" and "samples_per_sec ctx = int n" and "length part \<le> n"
    and "2 * length ts + (if length part = n then 1 else 0) < fuel"
  defines "S \<equiv> part @ task_samples (tm_date ctx) (tm_period ctx) ts"
  shows "\<exists>ctx'. timer_task_loop fuel ctx (int (length part)) (map (\<lambda>(t0, t1). (t0, Inr 0, t1)) ts)
      = Inr (False, int (length (remainder n S)), ctx') \<and>
    bench_ok W (secs @ seconds n S) (remainder n S) ctx' \<and> bench_same ctx ctx'"
  using assms(1-5) unfolding S_def
proof (induction fuel arbitrary: secs part ctx ts)
  case (Suc fuel)
  have n: "0 < n"
    using Suc.prems(1,3) by (simp add: bench_ok_def)
  show ?case
  proof (cases "length part < n")
    case True
    show ?thesis
    proof (cases ts)
      case Nil
      then show ?thesis
        using Suc.prems(1,3) True by (simp add: seconds_less remainder_less bench_same_def)
    next
      case (Cons t ts')
      obtain t0 t1 where t: "t = (t0, t1)"
        by (cases t)
      let ?s = "(sint (t1 - tm_date ctx), tm_date ctx \<le> t0)"
      obtain ctx1 where 1: "take_sample ctx t0 t1 = Inr ctx1" "bench_ok W secs (part @ [?s]) ctx1" "bench_same ctx ctx1"
          "tm_date ctx1 = tm_date ctx + tm_period ctx"
        using take_sample_ok [OF Suc.prems(1)] by blast
      have "\<exists>ctx'. timer_task_loop fuel ctx1 (int (length (part @ [?s]))) (map (\<lambda>(t0, t1). (t0, Inr 0, t1)) ts')
          = Inr (False, int (length (remainder n ((part @ [?s]) @ task_samples (tm_date ctx1) (tm_period ctx1) ts'))), ctx') \<and>
        bench_ok W (secs @ seconds n ((part @ [?s]) @ task_samples (tm_date ctx1) (tm_period ctx1) ts'))
          (remainder n ((part @ [?s]) @ task_samples (tm_date ctx1) (tm_period ctx1) ts')) ctx' \<and> bench_same ctx1 ctx'"
        using Suc.prems(3,5) bench_same_period [OF 1(3)] True Cons
        by (intro Suc.IH [OF 1(2) Suc.prems(2)]) (auto split: if_splits)
      then show ?thesis
        using 1 bench_same_period [OF 1(3)] bench_same_trans [OF 1(3)] Suc.prems(3) True
        by (auto simp: Cons t add.commute)
    qed
  next
    case False
    then have len: "length part = n"
      using Suc.prems(4) by simp
    obtain ctx1 where 1: "eval_outer_loop ctx = Inr ctx1" "bench_ok W (secs @ [part]) [] ctx1" "bench_same ctx ctx1" "tm_date ctx1 = tm_date ctx"
      using eval_outer_loop_ok [OF Suc.prems(1,2)] by blast
    have "\<exists>ctx'. timer_task_loop fuel ctx1 (int (length ([] :: sample list))) (map (\<lambda>(t0, t1). (t0, Inr 0, t1)) ts)
        = Inr (False, int (length (remainder n ([] @ task_samples (tm_date ctx1) (tm_period ctx1) ts))), ctx') \<and>
      bench_ok W ((secs @ [part]) @ seconds n ([] @ task_samples (tm_date ctx1) (tm_period ctx1) ts))
        (remainder n ([] @ task_samples (tm_date ctx1) (tm_period ctx1) ts)) ctx' \<and> bench_same ctx1 ctx'"
      using Suc.prems(3,5) bench_same_period [OF 1(3)] n len
      by (intro Suc.IH [OF 1(2) Suc.prems(2)]) auto
    then show ?thesis
      using 1 bench_same_period [OF 1(3)] bench_same_trans [OF 1(3)] Suc.prems(3) False
      by (auto simp: seconds_full [OF len n])
  qed
qed simp


lemma timer_fires_ok:
  fixes cs :: "(u64 \<times> u64) list"
  assumes "bench_ok W secs part ctx" and "0 < W" and "samples_per_sec ctx = int n" and "length part < n"
    and "br_test_loops (curr ctx) = int (length part)"
  defines "S \<equiv> part @ timer_samples (start_time ctx) (tm_date ctx) (tm_period ctx) cs"
  shows "\<exists>ctx'. timer_fires ctx cs = Inr ctx' \<and> bench_ok W (secs @ seconds n S) (remainder n S) ctx' \<and> bench_same ctx ctx'"
  using assms(1-5) unfolding S_def
proof (induction cs arbitrary: secs part ctx)
  case Nil
  then show ?case
    by (simp add: seconds_less remainder_less bench_same_def)
next
  case (Cons c cs)
  obtain c1 c2 where c: "c = (c1, c2)"
    by (cases c)
  have n: "0 < n"
    using Cons.prems(4) by simp
  let ?part = "part @ [(sint (c1 - tm_date ctx), tm_date ctx \<le> start_time ctx)]"
  obtain ctx1 where 1: "eval_inner_loop ctx (sint (c1 - tm_date ctx)) = Inr ctx1" "bench_ok W secs ?part ctx1" "bench_same ctx ctx1"
      "tm_date ctx1 = tm_date ctx + tm_period ctx" "br_test_loops (curr ctx1) = int (length part)"
    using eval_inner_loop_ok [OF Cons.prems(1)] Cons.prems(5) by metis
  define ctx2 where "ctx2 = ctx1\<lparr>start_time := c2, tm_timer := True, curr := (curr ctx1)\<lparr>br_test_loops := int (length ?part)\<rparr>\<rparr>"
  have 2: "bench_ok W secs ?part ctx2" "bench_same ctx ctx2" "tm_date ctx2 = tm_date ctx + tm_period ctx" "start_time ctx2 = c2"
    using 1 by (simp_all add: ctx2_def bench_ok_def bench_hist_ok_def bench_same_def)
  have step: "timer_proc ctx c1 c2 = (if length ?part < n then Inr ctx2 else eval_outer_loop (ctx2\<lparr>curr := (curr ctx2)\<lparr>br_test_loops := 0\<rparr>\<rparr>))"
    using 1 Cons.prems(3) bench_same_period [OF 1(3)] by (simp add: timer_proc_def ctx2_def Let_def add.commute)
  note per = bench_same_period [OF 2(2)]
  show ?case
  proof (cases "length ?part < n")
    case True
    then show ?thesis
      using Cons.IH [OF 2(1) Cons.prems(2), unfolded 2(3,4)] per Cons.prems(3) bench_same_trans [OF 2(2)]
      by (auto simp: c step ctx2_def)
  next
    case False
    then have len: "length ?part = n"
      using Cons.prems(4) by simp
    have "bench_ok W secs ?part (ctx2\<lparr>curr := (curr ctx2)\<lparr>br_test_loops := 0\<rparr>\<rparr>)"
      using 2(1) by (simp add: bench_ok_def bench_hist_ok_def)
    from eval_outer_loop_ok [OF this Cons.prems(2)] obtain ctx3 where
      3: "eval_outer_loop (ctx2\<lparr>curr := (curr ctx2)\<lparr>br_test_loops := 0\<rparr>\<rparr>) = Inr ctx3" "bench_ok W (secs @ [?part]) [] ctx3"
        "bench_same ctx ctx3" "tm_date ctx3 = tm_date ctx + tm_period ctx" "start_time ctx3 = c2" "br_test_loops (curr ctx3) = 0"
      using 2 by (auto simp: bench_same_def)
    show ?thesis
      using Cons.IH [OF 3(2) Cons.prems(2), unfolded 3(4,5)] bench_same_period [OF 3(3)] Cons.prems(3) bench_same_trans [OF 3(3)] False 3(1,6) n
        seconds_full [OF len n, of "timer_samples c2 (tm_date ctx + tm_period ctx) (tm_period ctx) cs"]
      by (auto simp: c step)
  qed
qed


lemma samples_in_second:
  assumes "0 < p" and "p \<le> 1000000000"
  shows "uint (1000000000 div (of_int p :: u64)) = 1000000000 div p"
    and "(of_int p :: u64) \<noteq> 0" and "0 < 1000000000 div p" and "1000000000 div p < 2 ^ 32"
proof -
  have u: "uint (of_int p :: u64) = p"
    using assms by (simp add: unsigned_of_int take_bit_int_eq_self)
  show "uint (1000000000 div (of_int p :: u64)) = 1000000000 div p"
    by (simp add: uint_div u)
  show "(of_int p :: u64) \<noteq> 0"
    using u assms by auto
  show "0 < 1000000000 div p"
    using assms by (simp add: pos_imp_zdiv_pos_iff)
  have "1000000000 div p \<le> 1000000000 div 1"
    using assms by (intro zdiv_mono2) auto
  then show "1000000000 div p < 2 ^ 32"
    by simp
qed

lemma tmbench_start_ok:
  assumes "config_ok config"
  shows "\<exists>ctx1. tmbench_start ctx config True False (Inr 0) clk = Inr (Inr 0, ctx1) \<and>
    bench_ok (nat (cfg_warmup_loops config)) [] [] ctx1 \<and> samples_per_sec ctx1 = 1000000000 div cfg_period config \<and>
    histogram_size ctx1 = cfg_histogram_size config \<and> (cfg_histogram_size config > 0 \<longrightarrow> bucketsize ctx1 = cfg_histogram_bucketsize config) \<and>
    tm_period ctx1 = of_int (cfg_period config) \<and> 0 \<le> tm_mode ctx1 \<and>
    (cfg_mode config \<noteq> RTTST_TMBENCH_TASK \<longrightarrow> start_time ctx1 = clk + 1000000 \<and>
       tm_date ctx1 = clk + 1000000 + of_int (cfg_period config) \<and> br_test_loops (curr ctx1) = 0)"
proof -
  have p: "0 < cfg_period config" "cfg_period config \<le> 1000000000"
    using assms by (simp_all add: config_ok_def)
  have h: "replicate (3 * nat (cfg_histogram_size config)) 0 = bucket_counts (cfg_histogram_size config) b [] @
      bucket_counts (cfg_histogram_size config) b [] @ bucket_counts (cfg_histogram_size config) b []" for b
    by (simp add: bucket_counts_Nil replicate_add [symmetric])
  have w: "warming (nat (cfg_warmup_loops config)) []"
    using assms by (simp add: warming_def config_ok_def)
  show ?thesis
    using assms samples_in_second [OF p] w
    by (cases "cfg_histogram_size config > 0"; cases "cfg_mode config = RTTST_TMBENCH_TASK")
      (simp_all add: tmbench_start_def start_mode_def Let_def bench_ok_def bench_hist_ok_def bench_hists_def fresh_curr_def
        avg_sum_def config_ok_def RTTST_TMBENCH_TASK_def RTTST_TMBENCH_HANDLER_def h [symmetric])
qed

lemma avg_sum_warming: "warming W secs \<Longrightarrow> avg_sum n (drop W secs) = 0"
  by (simp add: warming_def avg_sum_def)

lemma tdiv_0 [simp]: "tdiv 0 d = 0"
  by (simp add: tdiv_def)

lemma hist_part_ok:
  "tm_hist ctx = Hist (A @ B @ C) \<Longrightarrow> int (length A) = i \<Longrightarrow> int (length B) = histogram_size ctx \<Longrightarrow> hist_part ctx i = Inr B"
  by (auto simp: hist_part_def)

lemma tmbench_stop_ok:
  assumes ok: "bench_ok W secs part ctx" and "0 \<le> tm_mode ctx" and len: "length secs < 2 ^ 31"
  shows "\<exists>ctx'. tmbench_stop ctx True True = Inr (Inr 0,
      Some (\<lparr>br_avg = tdiv (avg_sum (samples_per_sec ctx) (drop W secs)) (int (max 1 (length (drop W secs)))),
              br_min = lat_min (concat (drop W secs)), br_max = lat_max (concat (drop W secs)),
              br_overruns = lat_overruns (concat (drop W secs)),
              br_test_loops = int (if warming W secs then length secs else length (drop W secs)) + 1\<rparr>,
            if histogram_size ctx > 0
            then Some (bench_hists (histogram_size ctx) (bucketsize ctx) (drop W secs) (if warming W secs then [] else part))
            else None), ctx')"
proof -
  define d where "d = (if br_test_loops (res_overall ctx) > 1 then br_test_loops (res_overall ctx) else 2) - 1"
  have d: "0 < d" "d < 2 ^ 32" "\<not> warming W secs \<Longrightarrow> d = int (max 1 (length (drop W secs)))"
    using ok len by (auto simp: d_def bench_ok_def warming_def)
  have o: "res_overall (stop_sampling ctx) = res_overall ctx" "tm_hist (stop_sampling ctx) = tm_hist ctx"
    "histogram_size (stop_sampling ctx) = histogram_size ctx" "histogram_min (stop_sampling ctx) = histogram_min ctx"
    "histogram_max (stop_sampling ctx) = histogram_max ctx" "histogram_avg (stop_sampling ctx) = histogram_avg ctx"
    by (simp_all add: stop_sampling_def Let_def)
  have avg: "slldiv (br_avg (res_overall ctx)) d =
      Inr (tdiv (avg_sum (samples_per_sec ctx) (drop W secs)) (int (max 1 (length (drop W secs)))))"
    using d ok by (cases "warming W secs") (simp_all add: bench_ok_def slldiv_tdiv avg_sum_warming del: drop_eq_Nil)
  let ?b = "bucket_counts (histogram_size ctx) (bucketsize ctx)" and ?secs = "drop W secs"
  let ?part = "if warming W secs then [] else part"
  have parts: "hist_part c 0 = Inr (?b (map lat_min ?secs)) \<and> hist_part c (histogram_size ctx) = Inr (?b (map lat_max ?secs)) \<and>
      hist_part c (2 * histogram_size ctx) = Inr (?b (map fst (concat ?secs @ ?part)))"
    if "0 < histogram_size ctx" "tm_hist c = tm_hist ctx" "histogram_size c = histogram_size ctx" for c
  proof -
    have h: "tm_hist c = Hist (?b (map lat_min ?secs) @ ?b (map lat_max ?secs) @ ?b (map fst (concat ?secs @ ?part)))"
      using ok that by (auto simp: bench_ok_def bench_hist_ok_def bench_hists_def)
    show ?thesis
      using that(1,3) h
        hist_part_ok [of c "[]" "?b (map lat_min ?secs)"] hist_part_ok [of c "?b (map lat_min ?secs)" "?b (map lat_max ?secs)"]
        hist_part_ok [of c "?b (map lat_min ?secs) @ ?b (map lat_max ?secs)" "?b (map fst (concat ?secs @ ?part))" "[]"]
      by simp
  qed
  have ro: "res_overall ctx\<lparr>br_avg := a\<rparr> = \<lparr>br_avg = a, br_min = lat_min (concat ?secs), br_max = lat_max (concat ?secs),
      br_overruns = lat_overruns (concat ?secs), br_test_loops = int (if warming W secs then length secs else length ?secs) + 1\<rparr>" for a
    using ok by (simp add: bench_ok_def)
  show ?thesis
    using assms(2) parts bench_ok_hist [OF ok] avg unfolding tmbench_stop_def Let_def d_def
    by (cases "0 < histogram_size ctx"; cases "1 < br_test_loops (res_overall ctx)") (simp_all add: o ro bench_hists_def)
qed


lemma bench_report_stop:
  assumes "bench_ok (nat (cfg_warmup_loops config)) (seconds (nat (1000000000 div cfg_period config)) S)
      (remainder (nat (1000000000 div cfg_period config)) S) ctx"
    and "samples_per_sec ctx = 1000000000 div cfg_period config" and "histogram_size ctx = cfg_histogram_size config"
    and "cfg_histogram_size config > 0 \<longrightarrow> bucketsize ctx = cfg_histogram_bucketsize config"
    and "0 \<le> tm_mode ctx" and "length (seconds (nat (1000000000 div cfg_period config)) S) < 2 ^ 31"
  shows "\<exists>ctx'. tmbench_stop ctx True True = Inr (Inr 0, Some (bench_report config S), ctx')"
  using tmbench_stop_ok [OF assms(1,5,6)] assms(2-4) by (auto simp: bench_report_def Let_def)

lemma seconds_length: "length (seconds n xs) \<le> length xs"
proof (induction n xs rule: seconds.induct)
  case (1 n xs)
  show ?case
    using 1 by (subst seconds.simps) (auto simp: not_less)
qed

lemma task_samples_length [simp]: "length (task_samples date period ts) = length ts"
  by (induction date period ts rule: task_samples.induct) simp_all

lemma timer_samples_length [simp]: "length (timer_samples st date period ts) = length ts"
  by (induction st date period ts rule: timer_samples.induct) simp_all


text \<open>The same figures in handler mode, where the timer expires at the clock readings \<open>cs\<close>.\<close>

theorem tmbench_timer_statistics:
  assumes "config_ok config" and "cfg_mode config \<noteq> RTTST_TMBENCH_TASK" and "length cs < 2 ^ 31"
  shows "\<exists>ctx1 ctx2 ctx3.
    rt_tmbench_ioctl_nrt ctx (RTTST_RTIOC_TMBENCH_START config) True True False (Inr 0) clk True True = Inr (Inr 0, None, ctx1) \<and>
    timer_fires ctx1 cs = Inr ctx2 \<and>
    rt_tmbench_ioctl_nrt ctx2 RTTST_RTIOC_TMBENCH_STOP True True False (Inr 0) clk True True = Inr (Inr 0, Some (bench_report config (timer_samples (clk + 1000000) (clk + 1000000 + of_int (cfg_period config)) (of_int (cfg_period config)) cs)), ctx3)"
proof -
  define S where "S = timer_samples (clk + 1000000) (clk + 1000000 + of_int (cfg_period config)) (of_int (cfg_period config)) cs"
  let ?n = "nat (1000000000 div cfg_period config)"
  obtain ctx1 where 1: "tmbench_start ctx config True False (Inr 0) clk = Inr (Inr 0, ctx1)"
      "bench_ok (nat (cfg_warmup_loops config)) [] [] ctx1" "samples_per_sec ctx1 = 1000000000 div cfg_period config"
      "histogram_size ctx1 = cfg_histogram_size config" "cfg_histogram_size config > 0 \<longrightarrow> bucketsize ctx1 = cfg_histogram_bucketsize config"
      "tm_period ctx1 = of_int (cfg_period config)" "0 \<le> tm_mode ctx1" "start_time ctx1 = clk + 1000000"
      "tm_date ctx1 = clk + 1000000 + of_int (cfg_period config)" "br_test_loops (curr ctx1) = 0"
    using tmbench_start_ok [OF assms(1)] assms(2) by blast
  have n: "samples_per_sec ctx1 = int ?n" "0 < ?n" and W: "0 < nat (cfg_warmup_loops config)"
    using 1(2,3) assms(1) by (simp_all add: bench_ok_def config_ok_def)
  from timer_fires_ok [OF 1(2) W, of ?n cs] obtain ctx2 where
    2: "timer_fires ctx1 cs = Inr ctx2" "bench_ok (nat (cfg_warmup_loops config)) (seconds ?n S) (remainder ?n S) ctx2" "bench_same ctx1 ctx2"
    using n 1(6-10) by (auto simp: S_def)
  have "\<exists>ctx'. tmbench_stop ctx2 True True = Inr (Inr 0, Some (bench_report config S), ctx')"
    using bench_report_stop [OF 2(2)] 2(3) 1 assms(3) seconds_length [of ?n S] by (auto simp: bench_same_def S_def)
  then show ?thesis
    unfolding S_def using 1(1) 2(1) by (auto simp: rt_tmbench_ioctl_nrt_def)
qed

definition bench_config :: rttst_tmbench_config where
  "bench_config = \<lparr>cfg_mode = RTTST_TMBENCH_TASK, cfg_priority = 99, cfg_period = 500000000, cfg_warmup_loops = 1,
     cfg_histogram_size = 3, cfg_histogram_bucketsize = 1000, cfg_freeze_max = 0\<rparr>"

definition bench_ctx0 :: rt_tmbench_context where
  "bench_ctx0 = \<lparr>tm_mode = -1, tm_period = 0, freeze_max = 0, warmup_loops = 0, samples_per_sec = 0, tm_hist = Dangling,
     histogram_min = 0, histogram_max = 0, histogram_avg = 0, histogram_size = 0, bucketsize = 0, tm_tasks = 0,
     tm_timer = False, tm_warmup = False, start_time = 0, tm_date = 0,
     curr = \<lparr>br_avg = 0, br_min = 0, br_max = 0, br_overruns = 0, br_test_loops = 0\<rparr>,
     result_event = \<lparr>ev_pending = False, ev_destroy = True\<rparr>,
     res_last = \<lparr>br_avg = 0, br_min = 0, br_max = 0, br_overruns = 0, br_test_loops = 0\<rparr>,
     res_overall = \<lparr>br_avg = 0, br_min = 0, br_max = 0, br_overruns = 0, br_test_loops = 0\<rparr>\<rparr>"

definition bench_clock :: "(u64 \<times> u64) list" where
  "bench_clock = [(5, 1000100), (500000000, 501000200), (502000000, 1001001500), (1501000001, 1501009000), (1600000000, 2001000400)]"

lemma bench_report_example:
  "bench_report bench_config (task_samples 1000000 500000000 bench_clock) =
     (\<lparr>br_avg = 5250, br_min = 1500, br_max = 9000, br_overruns = 1, br_test_loops = 2\<rparr>,
      Some ([0, 1, 0], [0, 0, 1], [1, 1, 1]))"
  by code_simp



section \<open>Configurations that are not checked\<close>

text \<open>With \<open>warmup_loops\<close> not positive the warmup never ends.\<close>

definition still_warm :: "rt_tmbench_context \<Rightarrow> bool" where
  "still_warm ctx \<longleftrightarrow> tm_warmup ctx \<and> warmup_loops ctx \<le> 0 \<and> 0 < br_test_loops (res_overall ctx) \<and>
     br_avg (res_overall ctx) = 0 \<and> br_min (res_overall ctx) = 10000000 \<and> br_max (res_overall ctx) = -10000000"

lemma inner_still_warm: "still_warm ctx \<Longrightarrow> \<exists>ctx'. eval_inner_loop ctx dt = Inr ctx' \<and> still_warm ctx' \<and> bench_same ctx ctx'"
  by (simp add: eval_inner_loop_def Let_def still_warm_def bench_same_def)

lemma outer_still_warm: "still_warm ctx \<Longrightarrow> \<exists>ctx'. eval_outer_loop ctx = Inr ctx' \<and> still_warm ctx' \<and> bench_same ctx ctx'"
  by (auto simp: eval_outer_loop_def Let_def still_warm_def bench_same_def)

lemma task_still_warm:
  "still_warm ctx \<Longrightarrow> timer_task_loop fuel ctx count evs = Inr (fin, count', ctx') \<Longrightarrow> still_warm ctx' \<and> bench_same ctx ctx'"
proof (induction fuel ctx count evs rule: timer_task_loop.induct)
  case (2 fuel ctx count evs)
  show ?case
  proof (cases "count < samples_per_sec ctx")
    case True
    show ?thesis
    proof (cases evs)
      case Nil
      then show ?thesis
        using 2(4) \<open>still_warm ctx\<close> True by (simp add: bench_same_def)
    next
      case (Cons e es)
      obtain t0 err t1 where e: "e = (t0, err, t1)"
        by (cases e)
      have w: "still_warm (ctx\<lparr>start_time := t0\<rparr>)"
        using 2(3) by (simp add: still_warm_def)
      obtain ctx1 where 1: "take_sample ctx t0 t1 = Inr ctx1" "still_warm ctx1" "bench_same ctx ctx1"
        using inner_still_warm [OF w] by (auto simp: take_sample_def bench_same_def)
      show ?thesis
      proof (cases "err = Inr 0")
        case True
        then show ?thesis
          using 2(1) [OF \<open>count < samples_per_sec ctx\<close> Cons e [symmetric]] 1 2(4) \<open>count < samples_per_sec ctx\<close> bench_same_trans [OF 1(3)]
          by (auto simp: Cons e)
      next
        case False
        then show ?thesis
          using 2(4) w \<open>count < samples_per_sec ctx\<close> by (auto simp: Cons e bench_same_def)
      qed
    qed
  next
    case False
    obtain ctx1 where 1: "eval_outer_loop ctx = Inr ctx1" "still_warm ctx1" "bench_same ctx ctx1"
      using outer_still_warm [OF 2(3)] by blast
    then show ?thesis
      using 2(2) [OF False] 2(4) False bench_same_trans [OF 1(3)] by auto
  qed
qed simp


text \<open>
  The driver starts a benchmark whose \<open>warmup_loops\<close> is not positive, but whatever it measures the
  report is that of no sample.
\<close>

theorem tmbench_warmup_never_ends:
  assumes "tmbench_start ctx config True False (Inr 0) clk = Inr (Inr 0, ctx1)" and "cfg_warmup_loops config \<le> 0"
    and "timer_task_proc fuel ctx1 clk1 evs = Inr (fin, count, ctx2)" and "tmbench_stop ctx2 True True = Inr (r, Some (res, h), ctx3)"
  shows "br_min res = 10000000 \<and> br_max res = -10000000 \<and> br_avg res = 0"
proof -
  have "still_warm ctx1"
    using assms(1,2) by (auto simp: tmbench_start_def start_mode_def still_warm_def Let_def split: if_splits)
  then have "still_warm (ctx1\<lparr>tm_date := clk1 + 1000000\<rparr>)"
    by (simp add: still_warm_def)
  then have w: "still_warm ctx2"
    using assms(3) task_still_warm by (auto simp: timer_task_proc_def)
  have o: "res_overall (stop_sampling ctx2) = res_overall ctx2"
    by (simp add: stop_sampling_def Let_def)
  have z: "slldiv 0 d = Inr a \<Longrightarrow> a = 0" for d a
    by (auto simp: slldiv_def Let_def split: if_splits)
  show ?thesis
    using assms(4) w z by (auto simp: tmbench_stop_def still_warm_def o Let_def kbind_eq_Inr split: if_splits)
qed

lemma seconds_count: "0 < n \<Longrightarrow> length (seconds n xs) = length xs div n"
proof (induction n xs rule: seconds.induct)
  case (1 n xs)
  then show ?case
    by (subst seconds.simps) (simp add: le_div_geq not_less)
qed

lemma stop_leaves:
  assumes "tmbench_stop ctx True True = Inr (r, Some res, ctx')" and "tm_mode ctx = RTTST_TMBENCH_TASK"
  shows "tm_tasks ctx' = tm_tasks ctx - 1 \<and> tm_warmup ctx' = tm_warmup ctx \<and> histogram_size ctx' = histogram_size ctx \<and>
    bucketsize ctx' = bucketsize ctx \<and> (histogram_size ctx > 0 \<longrightarrow> tm_hist ctx' = Dangling)"
  using assms by (auto simp: tmbench_stop_def stop_sampling_def Let_def kbind_eq_Inr split: if_splits)

lemma start_counts_tasks:
  assumes "tmbench_start ctx config True False (Inr 0) clk = Inr (Inr 0, ctx1)" and "cfg_mode config = RTTST_TMBENCH_TASK"
  shows "tm_tasks ctx1 = Suc (tm_tasks ctx) \<and> tm_mode ctx1 = RTTST_TMBENCH_TASK"
  using assms by (auto simp: tmbench_start_def start_mode_def Let_def split: if_splits)

text \<open>
  Starting a benchmark that is already running is not refused: a second sampling task runs on the same
  context, stopping ends only one of them, and once the warmup is over the next sample of the task that
  is left writes to the histograms that have been freed.
\<close>

theorem tmbench_restart_unsafe:
  assumes "config_ok config" and "cfg_mode config = RTTST_TMBENCH_TASK" and "0 < cfg_histogram_size config"
    and "length ts < 2 ^ 31" and "2 * length ts < fuel"
    and "nat (cfg_warmup_loops config) \<le> length ts div nat (1000000000 div cfg_period config)"
  shows "\<exists>ctx1 ctx2 count ctx3 res ctx4.
    tmbench_start ctx config True False (Inr 0) clk = Inr (Inr 0, ctx1) \<and>
    tmbench_start ctx1 config True False (Inr 0) clk = Inr (Inr 0, ctx2) \<and>
    timer_task_proc fuel ctx2 clk1 (map (\<lambda>(t0, t1). (t0, Inr 0, t1)) ts) = Inr (False, count, ctx3) \<and>
    tmbench_stop ctx3 True True = Inr (Inr 0, Some res, ctx4) \<and> tm_tasks ctx < tm_tasks ctx4 \<and>
    (\<forall>t0 t1. take_sample ctx4 t0 t1 = Inl UseAfterFree)"
proof -
  let ?n = "nat (1000000000 div cfg_period config)" and ?W = "nat (cfg_warmup_loops config)"
  let ?S = "task_samples (clk1 + 1000000) (of_int (cfg_period config)) ts"
  obtain ctx1 where 1: "tmbench_start ctx config True False (Inr 0) clk = Inr (Inr 0, ctx1)"
    using tmbench_start_ok [OF assms(1)] by blast
  obtain ctx2 where 2: "tmbench_start ctx1 config True False (Inr 0) clk = Inr (Inr 0, ctx2)"
      "bench_ok ?W [] [] ctx2" "samples_per_sec ctx2 = 1000000000 div cfg_period config"
      "histogram_size ctx2 = cfg_histogram_size config" "tm_period ctx2 = of_int (cfg_period config)"
    using tmbench_start_ok [OF assms(1)] by blast
  have n: "samples_per_sec ctx2 = int ?n" "0 < ?n" and W: "0 < ?W"
    using 2(2,3) assms(1) by (simp_all add: bench_ok_def config_ok_def)
  have ok: "bench_ok ?W [] [] (ctx2\<lparr>tm_date := clk1 + 1000000\<rparr>)"
    using 2(2) by (simp add: bench_ok_def bench_hist_ok_def)
  obtain ctx3 where 3: "timer_task_proc fuel ctx2 clk1 (map (\<lambda>(t0, t1). (t0, Inr 0, t1)) ts) = Inr (False, int (length (remainder ?n ?S)), ctx3)"
      "bench_ok ?W (seconds ?n ?S) (remainder ?n ?S) ctx3" "bench_same ctx2 ctx3"
    using task_loop_ok [OF ok W, of ?n ts fuel] n assms(5) 2(5) by (auto simp: timer_task_proc_def bench_same_def)
  have t: "tm_tasks ctx3 = Suc (Suc (tm_tasks ctx))" "tm_mode ctx3 = RTTST_TMBENCH_TASK" "0 < histogram_size ctx3"
    using start_counts_tasks [OF 1 assms(2)] start_counts_tasks [OF 2(1) assms(2)] 3(3) 2(4) assms(3) by (simp_all add: bench_same_def)
  obtain res ctx4 where 4: "tmbench_stop ctx3 True True = Inr (Inr 0, Some res, ctx4)"
    using tmbench_stop_ok [OF 3(2)] t(2) assms(4) seconds_length [of ?n ?S] by (force simp: RTTST_TMBENCH_TASK_def)
  have "\<not> tm_warmup ctx3" "bucketsize ctx3 > 0"
    using 3(2) seconds_count [OF n(2), of ?S] assms(6) t(3) by (auto simp: bench_ok_def warming_def bench_hist_ok_def split: prod.splits)
  then have "take_sample ctx4 t0 t1 = Inl UseAfterFree" for t0 t1
    using stop_leaves [OF 4 t(2)] t(3) by (simp add: take_sample_def eval_inner_loop_def add_histogram_def Let_def)
  then show ?thesis
    using 1 2(1) 3(1) 4 stop_leaves [OF 4 t(2)] t(1) by fastforce
qed

theorem tmbench_restart_unsafe_witness:
  "\<exists>ctx1 ctx2 count ctx3 res ctx4.
    tmbench_start bench_ctx0 bench_config True False (Inr 0) 0 = Inr (Inr 0, ctx1) \<and>
    tmbench_start ctx1 bench_config True False (Inr 0) 0 = Inr (Inr 0, ctx2) \<and>
    timer_task_proc 11 ctx2 0 (map (\<lambda>(t0, t1). (t0, Inr 0, t1)) bench_clock) = Inr (False, count, ctx3) \<and>
    tmbench_stop ctx3 True True = Inr (Inr 0, Some res, ctx4) \<and> tm_tasks bench_ctx0 < tm_tasks ctx4 \<and>
    (\<forall>t0 t1. take_sample ctx4 t0 t1 = Inl UseAfterFree)"
  by (rule tmbench_restart_unsafe) (simp_all add: config_ok_def bench_config_def bench_clock_def)

text \<open>
  A period of zero divides by zero at once, a period above one second (no sample in a second) and a
  bucket size of zero after the warmup.
\<close>

theorem tmbench_divides_by_zero:
  "cfg_period config = 0 \<Longrightarrow> tmbench_start ctx config mem closing r clk = Inl DivByZero"
  "samples_per_sec ctx = 0 \<Longrightarrow> \<not> tm_warmup ctx \<Longrightarrow> histogram_size ctx = 0 \<Longrightarrow> timer_task_loop (Suc fuel) ctx 0 evs = Inl DivByZero"
  "bucketsize ctx = 0 \<Longrightarrow> \<not> tm_warmup ctx \<Longrightarrow> histogram_size ctx \<noteq> 0 \<Longrightarrow> take_sample ctx t0 t1 = Inl DivByZero"
  by (simp_all add: tmbench_start_def eval_outer_loop_def second_done_def slldiv_def take_sample_def eval_inner_loop_def add_histogram_def Let_def)

text \<open>A negative histogram size: no memory is allocated, and closing the device frees the histograms of the run before.\<close>

theorem tmbench_negative_histogram:
  assumes "cfg_histogram_size config < 0" and "cfg_period config = 100000" and "tm_hist ctx = Dangling"
  shows "\<exists>ctx1. tmbench_start ctx config mem False (Inr 0) clk = Inr (Inr 0, ctx1) \<and> rt_tmbench_close ctx1 = Inl BadFree"
  using assms by (auto simp: tmbench_start_def start_mode_def rt_tmbench_close_def stop_sampling_def Let_def
      RTTST_TMBENCH_TASK_def RTTST_TMBENCH_HANDLER_def)

end
