(* ===== verification/Test_Irq.thy ===== *)
theory Test_Irq
  imports Rtdm_Sync
begin

text \<open>
  The interrupt latency benchmark (\<open>testing/irqbench.c\<close>, built for the native skin: without
  \<open>CONFIG_XENOMAI\<close> the modes \<open>KERNEL_TASK\<close> and \<open>HARD_IRQ\<close> do not exist) with the interrupt services of
  the driver interface. A serial or parallel port answers each interrupt by toggling an output
  line. The results of the kernel's services and the values read from the port are arguments; the
  values written to the port are recorded. Tracing is left out.
\<close>

section \<open>Interrupt lines\<close>

record 'f rtdm_irq =
  irq_no :: nat
  irq_fn :: "'f option"

text \<open>The lines that the kernel has given to the driver are a list; \<open>ret\<close> is the result of \<open>request_irq\<close>.\<close>

definition rtdm_irq_request :: "nat \<Rightarrow> 'f \<Rightarrow> cret \<Rightarrow> nat list \<Rightarrow> cret \<times> 'f rtdm_irq \<times> nat list" where
  "rtdm_irq_request no f ret lines =
     (ret, \<lparr>irq_no = no, irq_fn = Some f\<rparr>, if ret = Inr 0 then no # lines else lines)"

definition rtdm_irq_free :: "'f rtdm_irq \<Rightarrow> nat list \<Rightarrow> nat list" where
  "rtdm_irq_free h lines = remove1 (irq_no h) lines"

text \<open>The interrupt: without a handler the line is disabled (\<open>None\<close>), otherwise the handler runs.\<close>

definition rtdm_irq_trampoline :: "'f rtdm_irq option \<Rightarrow> ('f \<Rightarrow> 'r) \<Rightarrow> 'r option" where
  "rtdm_irq_trampoline handle run =
     (case handle of None \<Rightarrow> None | Some h \<Rightarrow> map_option run (irq_fn h))"

section \<open>The benchmark\<close>

definition MSR_DCTS :: u8 where "MSR_DCTS = 0x01"
definition MCR_RTS :: u32 where "MCR_RTS = 0x02"
definition MCR_OUT2 :: u32 where "MCR_OUT2 = 0x08"
definition IER_MODEM_BENCH :: u8 where "IER_MODEM_BENCH = 0x08"
definition STAT_BUSY :: u8 where "STAT_BUSY = 0x80"
definition CTRL_INIT :: u8 where "CTRL_INIT = 0x04"
definition CTRL_STROBE :: u8 where "CTRL_STROBE = 0x10"

definition RTTST_IRQBENCH_USER_TASK :: int where "RTTST_IRQBENCH_USER_TASK = 0"
definition RTTST_IRQBENCH_HANDLER :: int where "RTTST_IRQBENCH_HANDLER = 2"
definition RTTST_IRQBENCH_SERPORT :: nat where "RTTST_IRQBENCH_SERPORT = 0"
definition RTTST_IRQBENCH_PARPORT :: nat where "RTTST_IRQBENCH_PARPORT = 1"

record rttst_irqbench_config =
  ic_mode :: int
  ic_priority :: int
  ic_calibration_loops :: int
  ic_port_type :: nat
  ic_port_ioaddr :: u64
  ic_port_irq :: nat

record rttst_irqbench_stats =
  irqs_received :: u64
  irqs_acknowledged :: u64

datatype irqbench_handler = rt_irqbench_task_irq | rt_irqbench_direct_irq

record rt_irqbench_context =
  ib_mode :: int
  ib_port_type :: nat
  ib_port_ioaddr :: u64
  ib_toggle :: u32
  ib_stats :: rttst_irqbench_stats
  ib_irq_handle :: "irqbench_handler rtdm_irq"
  ib_irq_event :: rtdm_event

text \<open>What the kernel has given to the driver, and the bytes written to ports.\<close>

record irqbench_kernel =
  ik_regions :: "(u64 \<times> nat) list"
  ik_lines :: "nat list"
  ik_writes :: "(u64 \<times> u8) list"

type_synonym irqbench = "rt_irqbench_context \<times> irqbench_kernel"

definition ib_outb :: "(u64 \<times> u8) list \<Rightarrow> irqbench_kernel \<Rightarrow> irqbench_kernel" where
  "ib_outb ws k = k\<lparr>ik_writes := ik_writes k @ ws\<rparr>"

text \<open>The registers of a serial and of a parallel port.\<close>

definition IER_addr :: "rt_irqbench_context \<Rightarrow> u64" where "IER_addr ctx = ib_port_ioaddr ctx + 1"
definition LCR_addr :: "rt_irqbench_context \<Rightarrow> u64" where "LCR_addr ctx = ib_port_ioaddr ctx + 3"
definition MCR_addr :: "rt_irqbench_context \<Rightarrow> u64" where "MCR_addr ctx = ib_port_ioaddr ctx + 4"
definition DATA_addr :: "rt_irqbench_context \<Rightarrow> u64" where "DATA_addr ctx = ib_port_ioaddr ctx"
definition CTRL_addr :: "rt_irqbench_context \<Rightarrow> u64" where "CTRL_addr ctx = ib_port_ioaddr ctx + 2"

text \<open>\<open>status\<close> is the value read from the modem status or the status register.\<close>

definition rt_irqbench_check_irq :: "u8 \<Rightarrow> rt_irqbench_context \<Rightarrow> bool \<times> rt_irqbench_context" where
  "rt_irqbench_check_irq status ctx =
     (if ib_port_type ctx = RTTST_IRQBENCH_SERPORT \<and> status AND MSR_DCTS = 0 \<or>
         ib_port_type ctx = RTTST_IRQBENCH_PARPORT \<and> status AND STAT_BUSY = 0 then (False, ctx)
      else (True, ctx\<lparr>ib_stats := (ib_stats ctx)\<lparr>irqs_received := irqs_received (ib_stats ctx) + 1\<rparr>\<rparr>))"

definition rt_irqbench_hwreply :: "irqbench \<Rightarrow> irqbench" where
  "rt_irqbench_hwreply s =
     (let (ctx, k) = s;
          (ctx1, k1) =
            (if ib_port_type ctx = RTTST_IRQBENCH_SERPORT then
               let t = ib_toggle ctx XOR MCR_RTS in (ctx\<lparr>ib_toggle := t\<rparr>, ib_outb [(MCR_addr ctx, ucast t)] k)
             else if ib_port_type ctx = RTTST_IRQBENCH_PARPORT then
               let t = ib_toggle ctx XOR 0x08 in (ctx\<lparr>ib_toggle := t\<rparr>, ib_outb [(DATA_addr ctx, ucast t)] k)
             else (ctx, k))
      in (ctx1\<lparr>ib_stats := (ib_stats ctx1)\<lparr>irqs_acknowledged := irqs_acknowledged (ib_stats ctx1) + 1\<rparr>\<rparr>, k1))"

text \<open>The two handlers.\<close>

definition irqbench_handle :: "u8 \<Rightarrow> irqbench \<Rightarrow> irqbench_handler \<Rightarrow> irqbench" where
  "irqbench_handle status s f =
     (let (ctx, k) = s; (mine, ctx1) = rt_irqbench_check_irq status ctx
      in case f of
           rt_irqbench_task_irq \<Rightarrow>
             (if mine then ctx1\<lparr>ib_irq_event := rtdm_event_signal (ib_irq_event ctx1)\<rparr> else ctx1, k)
         | rt_irqbench_direct_irq \<Rightarrow> if mine then rt_irqbench_hwreply (ctx1, k) else (ctx1, k))"

definition rt_irqbench_stop :: "irqbench \<Rightarrow> cret \<times> irqbench" where
  "rt_irqbench_stop s =
     (let (ctx, k) = s in
      if ib_mode ctx < 0 then (Inl EINVAL, s)
      else
        let k1 = (if ib_port_type ctx = RTTST_IRQBENCH_SERPORT then
                    (ib_outb [(IER_addr ctx, 0)] k)\<lparr>ik_regions := remove1 (ib_port_ioaddr ctx, 8) (ik_regions k)\<rparr>
                  else if ib_port_type ctx = RTTST_IRQBENCH_PARPORT then
                    (ib_outb [(CTRL_addr ctx, 0)] k)\<lparr>ik_regions := remove1 (ib_port_ioaddr ctx, 3) (ik_regions k)\<rparr>
                  else k)
        in (Inr 0, ctx\<lparr>ib_mode := -1\<rparr>, k1\<lparr>ik_lines := rtdm_irq_free (ib_irq_handle ctx) (ik_lines k1)\<rparr>))"

definition rt_irqbench_open :: "rt_irqbench_context \<Rightarrow> cret \<times> rt_irqbench_context" where
  "rt_irqbench_open ctx = (Inr 0, ctx\<lparr>ib_mode := -1, ib_irq_event := rtdm_event_init (ib_irq_event ctx) False\<rparr>)"

definition rt_irqbench_close :: "irqbench \<Rightarrow> cret \<times> irqbench" where
  "rt_irqbench_close s =
     (let (_, ctx, k) = rt_irqbench_stop s
      in (Inr 0, ctx\<lparr>ib_irq_event := rtdm_event_destroy (ib_irq_event ctx)\<rparr>, k))"

text \<open>
  Starting: the size of the port's I/O region; the hardware's initialisation, \<open>None\<close> where the region is
  in use (\<open>region_ok\<close>: the result of \<open>request_region\<close>); the release of the region; the arming.
\<close>

definition port_size :: "rt_irqbench_context \<Rightarrow> nat" where
  "port_size ctx = (if ib_port_type ctx = RTTST_IRQBENCH_SERPORT then 8 else 3)"

definition irqbench_init_hw :: "bool \<Rightarrow> irqbench \<Rightarrow> irqbench option" where
  "irqbench_init_hw region_ok s =
     (let (ctx, k) = s; k1 = k\<lparr>ik_regions := (ib_port_ioaddr ctx, port_size ctx) # ik_regions k\<rparr> in
      if \<not> region_ok then None
      else if ib_port_type ctx = RTTST_IRQBENCH_SERPORT then
        Some (ctx\<lparr>ib_toggle := MCR_OUT2\<rparr>, ib_outb [(LCR_addr ctx, 0), (MCR_addr ctx, ucast MCR_OUT2), (IER_addr ctx, 0)] k1)
      else Some (ctx\<lparr>ib_toggle := 0\<rparr>, ib_outb [(DATA_addr ctx, 0), (CTRL_addr ctx, CTRL_INIT)] k1))"

definition irqbench_release :: "irqbench \<Rightarrow> irqbench" where
  "irqbench_release s =
     (let (ctx, k) = s in (ctx, k\<lparr>ik_regions := remove1 (ib_port_ioaddr ctx, port_size ctx) (ik_regions k)\<rparr>))"

definition irqbench_arm :: "int \<Rightarrow> irqbench \<Rightarrow> irqbench" where
  "irqbench_arm mode s =
     (let (ctx, k) = s
      in (ctx\<lparr>ib_mode := mode, ib_stats := \<lparr>irqs_received = 0, irqs_acknowledged = 0\<rparr>\<rparr>,
          ib_outb [if ib_port_type ctx = RTTST_IRQBENCH_SERPORT then (IER_addr ctx, IER_MODEM_BENCH) else (CTRL_addr ctx, CTRL_STROBE)] k))"

definition irqbench_handler_of :: "int \<Rightarrow> irqbench_handler option" where
  "irqbench_handler_of mode =
     (if mode = RTTST_IRQBENCH_USER_TASK then Some rt_irqbench_task_irq
      else if mode = RTTST_IRQBENCH_HANDLER then Some rt_irqbench_direct_irq else None)"

text \<open>
  \<open>readable\<close>: the configuration can be read; \<open>closing\<close>: the flag \<open>RTDM_CLOSING\<close> of the context; \<open>irq_ret\<close>: the result of \<open>request_irq\<close>.
\<close>

definition irqbench_start ::
    "irqbench \<Rightarrow> rttst_irqbench_config \<Rightarrow> bool \<Rightarrow> bool \<Rightarrow> bool \<Rightarrow> cret \<Rightarrow> cret \<times> irqbench" where
  "irqbench_start s config readable closing region_ok irq_ret =
     (let (ctx, k) = s in
      if \<not> readable then (Inl EFAULT, s)
      else if ic_port_type config > RTTST_IRQBENCH_PARPORT then (Inl EINVAL, s)
      else if closing then (Inr 0, s)
      else
        let ctx1 = ctx\<lparr>ib_port_type := ic_port_type config, ib_port_ioaddr := ic_port_ioaddr config\<rparr>
        in case irqbench_init_hw region_ok (ctx1, k) of
             None \<Rightarrow> (Inl EBUSY, ctx1, k)
           | Some (ctx2, k2) \<Rightarrow>
               (case irqbench_handler_of (ic_mode config) of
                  None \<Rightarrow> (Inl EINVAL, ctx2, k2)
                | Some f \<Rightarrow>
                    let (err, h, lines) = rtdm_irq_request (ic_port_irq config) f irq_ret (ik_lines k2);
                        s3 = (ctx2\<lparr>ib_irq_handle := h\<rparr>, k2\<lparr>ik_lines := lines\<rparr>)
                    in (err, if err \<noteq> Inr 0 then irqbench_release s3 else irqbench_arm (ic_mode config) s3)))"

datatype irqbench_request = RTTST_RTIOC_IRQBENCH_START rttst_irqbench_config | RTTST_RTIOC_IRQBENCH_STOP
  | RTTST_RTIOC_IRQBENCH_GET_STATS | RTTST_RTIOC_IRQBENCH_WAIT_IRQ | RTTST_RTIOC_IRQBENCH_REPLY_IRQ | IRQBENCH_OTHER

text \<open>\<open>writable\<close>: the statistics can be copied to the caller. The second result is what is copied.\<close>

definition rt_irqbench_ioctl_nrt ::
    "irqbench \<Rightarrow> irqbench_request \<Rightarrow> bool \<Rightarrow> bool \<Rightarrow> bool \<Rightarrow> cret \<Rightarrow> bool \<Rightarrow> cret \<times> rttst_irqbench_stats option \<times> irqbench" where
  "rt_irqbench_ioctl_nrt s request readable closing region_ok irq_ret writable =
     (case request of
        RTTST_RTIOC_IRQBENCH_START config \<Rightarrow>
          (let (err, s1) = irqbench_start s config readable closing region_ok irq_ret in (err, None, s1))
      | RTTST_RTIOC_IRQBENCH_STOP \<Rightarrow> (let (err, s1) = rt_irqbench_stop s in (err, None, s1))
      | RTTST_RTIOC_IRQBENCH_GET_STATS \<Rightarrow> (if writable then (Inr 0, Some (ib_stats (fst s)), s) else (Inl EFAULT, None, s))
      | RTTST_RTIOC_IRQBENCH_WAIT_IRQ \<Rightarrow> (Inl ENOSYS, None, s)
      | RTTST_RTIOC_IRQBENCH_REPLY_IRQ \<Rightarrow> (Inr 0, None, rt_irqbench_hwreply s)
      | IRQBENCH_OTHER \<Rightarrow> (Inl ENOTTY, None, s))"

text \<open>\<open>signalled\<close> and \<open>wake\<close> as for \<open>rtdm_event_wait\<close>; \<open>None\<close> is a call that is still asleep.\<close>

definition rt_irqbench_ioctl_rt ::
    "irqbench \<Rightarrow> irqbench_request \<Rightarrow> bool \<Rightarrow> event_wakeup option \<Rightarrow> (cret \<times> irqbench) option" where
  "rt_irqbench_ioctl_rt s request signalled wake =
     (case request of
        RTTST_RTIOC_IRQBENCH_WAIT_IRQ \<Rightarrow>
          map_option (\<lambda>(r, ev). (r, (fst s)\<lparr>ib_irq_event := ev\<rparr>, snd s)) (rtdm_event_wait (ib_irq_event (fst s)) signalled wake)
      | RTTST_RTIOC_IRQBENCH_REPLY_IRQ \<Rightarrow> Some (Inr 0, rt_irqbench_hwreply s)
      | RTTST_RTIOC_IRQBENCH_START _ \<Rightarrow> Some (Inl ENOSYS, s)
      | RTTST_RTIOC_IRQBENCH_STOP \<Rightarrow> Some (Inl ENOSYS, s)
      | RTTST_RTIOC_IRQBENCH_GET_STATS \<Rightarrow> Some (Inl ENOSYS, s)
      | IRQBENCH_OTHER \<Rightarrow> Some (Inl ENOTTY, s))"

text \<open>An interrupt on the line of the benchmark.\<close>

definition irqbench_interrupt :: "u8 \<Rightarrow> irqbench \<Rightarrow> irqbench" where
  "irqbench_interrupt status s =
     (case rtdm_irq_trampoline (Some (ib_irq_handle (fst s))) (irqbench_handle status s) of
        None \<Rightarrow> s
      | Some s1 \<Rightarrow> s1)"


section \<open>The resources\<close>

text \<open>
  What the benchmark holds beyond \<open>k0\<close>: nothing while it is stopped, one region and one interrupt line while it runs.
\<close>

definition irqbench_holds :: "irqbench_kernel \<Rightarrow> irqbench \<Rightarrow> bool" where
  "irqbench_holds k0 s \<longleftrightarrow>
     (let (ctx, k) = s in
      if ib_mode ctx < 0 then ik_regions k = ik_regions k0 \<and> ik_lines k = ik_lines k0
      else ib_port_type ctx \<le> RTTST_IRQBENCH_PARPORT \<and>
        ik_regions k = (ib_port_ioaddr ctx, port_size ctx) # ik_regions k0 \<and>
        ik_lines k = irq_no (ib_irq_handle ctx) # ik_lines k0)"

text \<open>
  The states a careful client reaches: it starts only a stopped benchmark, and only in a mode the
  build supports. Whether the kernel grants what the driver asks for is free.
\<close>

inductive irqbench_reach :: "irqbench \<Rightarrow> irqbench \<Rightarrow> bool" for s0 :: irqbench where
  opened: "irqbench_reach s0 (snd (rt_irqbench_open (fst s0)), snd s0)"
| started: "irqbench_reach s0 s \<Longrightarrow> ib_mode (fst s) < 0 \<Longrightarrow> irqbench_handler_of (ic_mode config) \<noteq> None \<Longrightarrow>
    irqbench_reach s0 (snd (irqbench_start s config readable closing region_ok irq_ret))"
| stopped: "irqbench_reach s0 s \<Longrightarrow> irqbench_reach s0 (snd (rt_irqbench_stop s))"
| interrupted: "irqbench_reach s0 s \<Longrightarrow> irqbench_reach s0 (irqbench_interrupt status s)"
| replied: "irqbench_reach s0 s \<Longrightarrow> irqbench_reach s0 (rt_irqbench_hwreply s)"
| waited: "irqbench_reach s0 s \<Longrightarrow> rt_irqbench_ioctl_rt s RTTST_RTIOC_IRQBENCH_WAIT_IRQ signalled wake = Some (r, s1) \<Longrightarrow> irqbench_reach s0 s1"

lemmas port_defs = RTTST_IRQBENCH_SERPORT_def RTTST_IRQBENCH_PARPORT_def

lemma hwreply_keeps:
  "rt_irqbench_hwreply (ctx, k) = (ctx1, k1) \<Longrightarrow>
    ib_mode ctx1 = ib_mode ctx \<and> ib_port_type ctx1 = ib_port_type ctx \<and> ib_port_ioaddr ctx1 = ib_port_ioaddr ctx \<and>
    ib_irq_handle ctx1 = ib_irq_handle ctx \<and> ik_regions k1 = ik_regions k \<and> ik_lines k1 = ik_lines k"
  by (auto simp: rt_irqbench_hwreply_def ib_outb_def Let_def split: if_splits)

lemma check_irq_keeps:
  "rt_irqbench_check_irq status ctx = (mine, ctx1) \<Longrightarrow>
    ib_mode ctx1 = ib_mode ctx \<and> ib_port_type ctx1 = ib_port_type ctx \<and> ib_port_ioaddr ctx1 = ib_port_ioaddr ctx \<and>
    ib_irq_handle ctx1 = ib_irq_handle ctx \<and> ib_toggle ctx1 = ib_toggle ctx"
  by (auto simp: rt_irqbench_check_irq_def split: if_splits)

lemma holds_hwreply: "irqbench_holds k0 s \<Longrightarrow> irqbench_holds k0 (rt_irqbench_hwreply s)"
  using hwreply_keeps by (cases s; cases "rt_irqbench_hwreply s") (fastforce simp: irqbench_holds_def port_size_def)

lemma holds_ctx:
  "irqbench_holds k0 (ctx, k) \<Longrightarrow> ib_mode ctx1 = ib_mode ctx \<Longrightarrow> ib_port_type ctx1 = ib_port_type ctx \<Longrightarrow>
    ib_port_ioaddr ctx1 = ib_port_ioaddr ctx \<Longrightarrow> ib_irq_handle ctx1 = ib_irq_handle ctx \<Longrightarrow> irqbench_holds k0 (ctx1, k)"
  by (simp add: irqbench_holds_def port_size_def)

lemma holds_interrupt:
  assumes "irqbench_holds k0 s"
  shows "irqbench_holds k0 (irqbench_interrupt status s)"
proof -
  obtain ctx k where s: "s = (ctx, k)"
    by (cases s)
  obtain mine ctx1 where c: "rt_irqbench_check_irq status ctx = (mine, ctx1)"
    by (cases "rt_irqbench_check_irq status ctx")
  have h: "irqbench_holds k0 (ctx1, k)"
    using holds_ctx [of k0 ctx k ctx1] assms check_irq_keeps [OF c] by (simp add: s)
  then have "irqbench_holds k0 (ctx1\<lparr>ib_irq_event := e\<rparr>, k)" for e
    using holds_ctx [of k0 ctx1 k "ctx1\<lparr>ib_irq_event := e\<rparr>"] by simp
  then show ?thesis
    using h holds_hwreply [OF h] assms
    by (auto simp: irqbench_interrupt_def rtdm_irq_trampoline_def irqbench_handle_def s c split: option.splits irqbench_handler.splits)
qed

lemma holds_stop: "irqbench_holds k0 s \<Longrightarrow> irqbench_holds k0 (snd (rt_irqbench_stop s))"
  by (cases s) (auto simp: irqbench_holds_def rt_irqbench_stop_def rtdm_irq_free_def port_size_def ib_outb_def port_defs Let_def split: if_splits)

lemma holds_start:
  assumes "irqbench_holds k0 s" and "ib_mode (fst s) < 0" and "irqbench_handler_of (ic_mode config) \<noteq> None"
  shows "irqbench_holds k0 (snd (irqbench_start s config readable closing region_ok irq_ret))"
proof -
  obtain f where f: "irqbench_handler_of (ic_mode config) = Some f" and m: "0 \<le> ic_mode config"
    using assms(3) by (auto simp: irqbench_handler_of_def RTTST_IRQBENCH_USER_TASK_def RTTST_IRQBENCH_HANDLER_def split: if_splits)
  show ?thesis
    using assms(1,2) m by (cases s)
      (auto simp: irqbench_holds_def irqbench_start_def irqbench_init_hw_def f rtdm_irq_request_def irqbench_release_def irqbench_arm_def
        ib_outb_def port_size_def port_defs Let_def not_less)
qed


text \<open>
  C35: A client that starts only a stopped benchmark, in a supported mode, cannot make the driver
  leak: in every reachable state it holds exactly the I/O region of its port and its interrupt line while
  it runs and nothing while it is stopped, whatever the kernel refused meanwhile, and closing the device
  gives everything back.
\<close>

theorem irqbench_no_leak:
  assumes "irqbench_reach s0 s"
  shows "irqbench_holds (snd s0) s \<and>
    (\<exists>ctx k. rt_irqbench_close s = (Inr 0, ctx, k) \<and> ik_regions k = ik_regions (snd s0) \<and> ik_lines k = ik_lines (snd s0))"
proof -
  have h: "irqbench_holds (snd s0) s"
    using assms
  proof (induction rule: irqbench_reach.induct)
    case opened
    then show ?case
      by (simp add: irqbench_holds_def rt_irqbench_open_def)
  next
    case (waited s signalled wake r s1)
    then show ?case
      by (cases s) (auto simp: rt_irqbench_ioctl_rt_def irqbench_holds_def port_size_def)
  qed (simp_all add: holds_start holds_stop holds_interrupt holds_hwreply)
  obtain r ctx k where c: "rt_irqbench_stop s = (r, ctx, k)"
    by (cases "rt_irqbench_stop s") auto
  have "ib_mode ctx < 0"
    using c by (auto simp: rt_irqbench_stop_def Let_def split: prod.splits if_splits)
  then show ?thesis
    using h holds_stop [OF h] c by (auto simp: rt_irqbench_close_def irqbench_holds_def)
qed

definition irqbench0 :: irqbench where
  "irqbench0 = (\<lparr>ib_mode = 0, ib_port_type = 7, ib_port_ioaddr = 0, ib_toggle = 0, ib_stats = \<lparr>irqs_received = 0, irqs_acknowledged = 0\<rparr>,
     ib_irq_handle = \<lparr>irq_no = 0, irq_fn = None\<rparr>, ib_irq_event = \<lparr>ev_pending = False, ev_destroy = False\<rparr>\<rparr>,
     \<lparr>ik_regions = [(0x60, 1)], ik_lines = [1], ik_writes = []\<rparr>)"

definition irqbench_config0 :: "int \<Rightarrow> nat \<Rightarrow> u64 \<Rightarrow> nat \<Rightarrow> rttst_irqbench_config" where
  "irqbench_config0 mode ty addr no = \<lparr>ic_mode = mode, ic_priority = 0, ic_calibration_loops = 0, ic_port_type = ty,
     ic_port_ioaddr = addr, ic_port_irq = no\<rparr>"

definition irqbench1 :: irqbench where
  "irqbench1 = (snd (rt_irqbench_open (fst irqbench0)), snd irqbench0)"

definition irqbench2 :: irqbench where
  "irqbench2 = snd (irqbench_start irqbench1 (irqbench_config0 2 0 0x3f8 4) True False True (Inr 0))"

theorem irqbench_no_leak_witness:
  "irqbench_holds (snd irqbench0) irqbench2 \<and> ik_regions (snd irqbench2) = [(0x3f8, 8), (0x60, 1)] \<and>
    (\<exists>ctx k. rt_irqbench_close irqbench2 = (Inr 0, ctx, k) \<and> ik_regions k = ik_regions (snd irqbench0) \<and> ik_lines k = ik_lines (snd irqbench0))"
proof -
  have "irqbench_reach irqbench0 irqbench2"
    unfolding irqbench2_def irqbench1_def
    by (intro irqbench_reach.started irqbench_reach.opened)
      (simp_all add: rt_irqbench_open_def irqbench_handler_of_def irqbench_config0_def RTTST_IRQBENCH_USER_TASK_def RTTST_IRQBENCH_HANDLER_def)
  moreover have "ik_regions (snd irqbench2) = [(0x3f8, 8), (0x60, 1)]"
    by code_simp
  ultimately show ?thesis
    using irqbench_no_leak by blast
qed

section \<open>Counting and answering\<close>

text \<open>The statuses of a serial port that report a change of CTS, and the answers to them: RTS off and on in turn.\<close>

definition cts_changes :: "u8 list \<Rightarrow> nat" where
  "cts_changes ss = length (filter (\<lambda>st. st AND MSR_DCTS \<noteq> 0) ss)"

definition rts_answers :: "nat \<Rightarrow> u8 list" where
  "rts_answers n = map (\<lambda>i. if even i then 0x0a else 0x08) [0..<n]"

text \<open>
  In handler mode on a serial port every interrupt that reports a change of CTS, and no other, is
  counted and answered: the modem control register gets RTS set and cleared in turn, with OUT2 kept.
\<close>

theorem irqbench_answers:
  assumes "irq_fn (ib_irq_handle ctx) = Some rt_irqbench_direct_irq" and "ib_port_type ctx = RTTST_IRQBENCH_SERPORT"
    and "ib_toggle ctx = MCR_OUT2"
  shows "\<exists>ctx' k'. fold irqbench_interrupt ss (ctx, k) = (ctx', k') \<and>
    irqs_received (ib_stats ctx') = irqs_received (ib_stats ctx) + of_nat (cts_changes ss) \<and>
    irqs_acknowledged (ib_stats ctx') = irqs_acknowledged (ib_stats ctx) + of_nat (cts_changes ss) \<and>
    ik_writes k' = ik_writes k @ map (\<lambda>b. (ib_port_ioaddr ctx + 4, b)) (rts_answers (cts_changes ss)) \<and>
    ik_regions k' = ik_regions k \<and> ib_mode ctx' = ib_mode ctx"
proof -
  have "\<exists>ctx' k'. fold irqbench_interrupt ss (ctx, k) = (ctx', k') \<and>
      irq_fn (ib_irq_handle ctx') = Some rt_irqbench_direct_irq \<and> ib_port_type ctx' = RTTST_IRQBENCH_SERPORT \<and>
      ib_port_ioaddr ctx' = ib_port_ioaddr ctx \<and> ib_toggle ctx' = (if even (cts_changes ss) then 0x08 else 0x0a) \<and>
      irqs_received (ib_stats ctx') = irqs_received (ib_stats ctx) + of_nat (cts_changes ss) \<and>
      irqs_acknowledged (ib_stats ctx') = irqs_acknowledged (ib_stats ctx) + of_nat (cts_changes ss) \<and>
      ik_writes k' = ik_writes k @ map (\<lambda>b. (ib_port_ioaddr ctx + 4, b)) (rts_answers (cts_changes ss)) \<and>
      ik_regions k' = ik_regions k \<and> ib_mode ctx' = ib_mode ctx"
  proof (induction ss rule: rev_induct)
    case Nil
    then show ?case
      using assms by (simp add: cts_changes_def rts_answers_def MCR_OUT2_def)
  next
    case (snoc st ss)
    then obtain ctx' k' where s: "fold irqbench_interrupt ss (ctx, k) = (ctx', k')"
      "irq_fn (ib_irq_handle ctx') = Some rt_irqbench_direct_irq" "ib_port_type ctx' = RTTST_IRQBENCH_SERPORT"
      "ib_port_ioaddr ctx' = ib_port_ioaddr ctx" "ib_toggle ctx' = (if even (cts_changes ss) then 0x08 else 0x0a)"
      "irqs_received (ib_stats ctx') = irqs_received (ib_stats ctx) + of_nat (cts_changes ss)"
      "irqs_acknowledged (ib_stats ctx') = irqs_acknowledged (ib_stats ctx) + of_nat (cts_changes ss)"
      "ik_writes k' = ik_writes k @ map (\<lambda>b. (ib_port_ioaddr ctx + 4, b)) (rts_answers (cts_changes ss))"
      "ik_regions k' = ik_regions k" "ib_mode ctx' = ib_mode ctx"
      by blast
    have i: "irqbench_interrupt st (ctx', k') = (let (mine, ctx1) = rt_irqbench_check_irq st ctx' in if mine then rt_irqbench_hwreply (ctx1, k') else (ctx1, k'))"
      using s(2) by (simp add: irqbench_interrupt_def rtdm_irq_trampoline_def irqbench_handle_def split: prod.splits)
    show ?case
    proof (cases "st AND MSR_DCTS = 0")
      case True
      then show ?thesis
        using s by (simp add: i rt_irqbench_check_irq_def cts_changes_def)
    next
      case False
      then have n: "cts_changes (ss @ [st]) = Suc (cts_changes ss)"
        by (simp add: cts_changes_def)
      have "irqbench_interrupt st (ctx', k') =
          (ctx'\<lparr>ib_toggle := ib_toggle ctx' XOR 2, ib_stats := \<lparr>irqs_received = irqs_received (ib_stats ctx') + 1,
            irqs_acknowledged = irqs_acknowledged (ib_stats ctx') + 1\<rparr>\<rparr>,
           k'\<lparr>ik_writes := ik_writes k' @ [(ib_port_ioaddr ctx + 4, ucast (ib_toggle ctx' XOR 2))]\<rparr>)"
        using s(3,4) False
        by (simp add: i rt_irqbench_check_irq_def port_defs rt_irqbench_hwreply_def Let_def ib_outb_def MCR_RTS_def MCR_addr_def)
      then show ?thesis
        using s by (simp add: n rts_answers_def)
    qed
  qed
  then show ?thesis
    by blast
qed

section \<open>Leaks\<close>

text \<open>
  A mode that this build does not know is refused only after the port's region was reserved, and
  the region is not released: neither stopping nor closing gives it back.
\<close>

theorem irqbench_bad_mode_leaks:
  assumes "irqbench_handler_of (ic_mode config) = None" and "ic_port_type config \<le> RTTST_IRQBENCH_PARPORT" and "ib_mode ctx < 0"
  shows "\<exists>ctx1 k1 ctx2 k2. irqbench_start (ctx, k) config True False True irq_ret = (Inl EINVAL, ctx1, k1) \<and>
    rt_irqbench_stop (ctx1, k1) = (Inl EINVAL, ctx1, k1) \<and> rt_irqbench_close (ctx1, k1) = (Inr 0, ctx2, k2) \<and>
    ik_regions k2 = (ic_port_ioaddr config, port_size ctx1) # ik_regions k"
  using assms by (auto simp: irqbench_start_def irqbench_init_hw_def rt_irqbench_stop_def rt_irqbench_close_def ib_outb_def port_size_def Let_def)

text \<open>
  A start that is refused because the port is in use has already replaced the address of the
  running benchmark: stopping then writes to the port that is in use elsewhere and keeps the region it had.
\<close>

theorem irqbench_failed_restart:
  assumes "0 \<le> ib_mode ctx" and "ib_port_type ctx = RTTST_IRQBENCH_SERPORT" and "ic_port_type config = RTTST_IRQBENCH_PARPORT"
    and "(ic_port_ioaddr config, 3) \<notin> set (ik_regions k)"
  shows "\<exists>ctx1 ctx2 k2. irqbench_start (ctx, k) config True False False irq_ret = (Inl EBUSY, ctx1, k) \<and>
    rt_irqbench_stop (ctx1, k) = (Inr 0, ctx2, k2) \<and> ik_regions k2 = ik_regions k \<and>
    ik_writes k2 = ik_writes k @ [(ic_port_ioaddr config + 2, 0)]"
  using assms by (auto simp: irqbench_start_def irqbench_init_hw_def rt_irqbench_stop_def ib_outb_def CTRL_addr_def remove1_idem
      port_defs Let_def)

end
