(* ===== verification/Test_Switch.thy ===== *)
theory Test_Switch
  imports Rtdm_Sync
begin

text \<open>
  The context switch test (\<open>testing/switchtest.c\<close>): tasks hand a token around; a task that switches to another
  wakes it and goes to sleep. The nucleus and the Linux semaphores are modelled by what the code uses
  of them, the number of sleepers of a \<open>xnsynch_t\<close> and the count and the waiters of a semaphore. A call that
  sleeps is split in two: what it does until it sleeps, and what it returns when it is woken. The
  floating point test and the memory that \<open>kmalloc\<close> returns are arguments.
\<close>

section \<open>State\<close>

definition RTSWITCH_RT :: u32 where "RTSWITCH_RT = 0x4"
definition RTSWITCH_NRT :: u32 where "RTSWITCH_NRT = 0"
definition RTSWITCH_KERNEL :: u32 where "RTSWITCH_KERNEL = 0x8"
definition RTTST_SWTEST_FPU :: u32 where "RTTST_SWTEST_FPU = 0x1"
definition RTTST_SWTEST_USE_FPU :: u32 where "RTTST_SWTEST_USE_FPU = 0x2"

record rttst_swtest_task =
  st_index :: u32
  st_flags :: u32

record semaphore =
  sm_count :: nat
  sm_waiters :: nat

definition sm_up :: "semaphore \<Rightarrow> semaphore" where
  "sm_up s = (if sm_waiters s > 0 then s\<lparr>sm_waiters := sm_waiters s - 1\<rparr> else s\<lparr>sm_count := sm_count s + 1\<rparr>)"

text \<open>The flag tells whether the caller sleeps.\<close>

definition sm_down :: "semaphore \<Rightarrow> bool \<times> semaphore" where
  "sm_down s = (if sm_count s > 0 then (False, s\<lparr>sm_count := sm_count s - 1\<rparr>) else (True, s\<lparr>sm_waiters := sm_waiters s + 1\<rparr>))"

record rtswitch_task =
  st_base :: rttst_swtest_task
  rt_synch :: nat
  nrt_synch :: semaphore
  st_ktask :: bool

record rtswitch_context =
  sw_tasks :: "rtswitch_task list option"
  tasks_count :: u32
  next_index :: u32
  sw_cpu :: nat
  switches_count :: u32
  sw_failed :: bool
  last_from :: u32
  last_to :: u32
  sw_fp_val :: u32

text \<open>
  The module's own data: the task to be woken on each processor, as an index into the tasks of the
  context, and the pending signal to wake it.
\<close>

record rtswitch_sys =
  sw_ctx :: rtswitch_context
  rtswitch_utask :: "nat \<Rightarrow> u32 option"
  rtswitch_wake_utask :: bool

lemma unat_inc: "i < (c :: u32) \<Longrightarrow> unat (i + 1) = unat i + 1"
proof -
  assume "i < c"
  moreover have "unat c < 4294967296"
    by (rule order_less_le_trans [OF unsigned_less]) simp
  ultimately show ?thesis
    using unat_add_lem [of i 1] by (simp add: word_less_nat_alt)
qed

section \<open>Tasks\<close>

definition sw_task :: "rtswitch_context \<Rightarrow> u32 \<Rightarrow> rtswitch_task kres" where
  "sw_task ctx i =
     (case sw_tasks ctx of
        None \<Rightarrow> Inl NullDeref
      | Some ts \<Rightarrow> if unat i < length ts then Inr (ts ! unat i) else Inl OutOfBounds)"

definition upd_task :: "u32 \<Rightarrow> (rtswitch_task \<Rightarrow> rtswitch_task) \<Rightarrow> rtswitch_context \<Rightarrow> rtswitch_context" where
  "upd_task i f ctx = ctx\<lparr>sw_tasks := map_option (\<lambda>ts. ts[unat i := f (ts ! unat i)]) (sw_tasks ctx)\<rparr>"

definition set_rt :: "bool \<Rightarrow> rtswitch_task \<Rightarrow> rtswitch_task" where
  "set_rt rt t = t\<lparr>st_base := (st_base t)\<lparr>st_flags := (if rt then st_flags (st_base t) OR RTSWITCH_RT
     else st_flags (st_base t) AND NOT RTSWITCH_RT)\<rparr>\<rparr>"

definition is_rt :: "rtswitch_task \<Rightarrow> bool" where
  "is_rt t \<longleftrightarrow> st_flags (st_base t) AND RTSWITCH_RT = RTSWITCH_RT"

definition sleep_rt :: "rtswitch_task \<Rightarrow> rtswitch_task" where
  "sleep_rt t = t\<lparr>rt_synch := rt_synch t + 1\<rparr>"

definition wakeup_one_sleeper :: "rtswitch_task \<Rightarrow> rtswitch_task" where
  "wakeup_one_sleeper t = t\<lparr>rt_synch := rt_synch t - 1\<rparr>"

text \<open>
  A call until it sleeps: \<open>Inl r\<close> has returned \<open>r\<close>, \<open>Inr s\<close> sleeps in state \<open>s\<close>.
\<close>

type_synonym sw_call = "(cret \<times> rtswitch_sys) + rtswitch_sys"

definition woken_rt :: "bool \<Rightarrow> bool \<Rightarrow> rtswitch_sys \<Rightarrow> cret" where
  "woken_rt brk rmid s = (if brk then Inl EINTR else if rmid then Inl EIDRM else if sw_failed (sw_ctx s) then Inr 1 else Inr 0)"

definition woken_nrt :: "bool \<Rightarrow> rtswitch_sys \<Rightarrow> cret" where
  "woken_nrt intr s = (if intr then Inl EINTR else if sw_failed (sw_ctx s) then Inr 1 else Inr 0)"

definition rtswitch_pend_rt :: "rtswitch_sys \<Rightarrow> u32 \<Rightarrow> sw_call kres" where
  "rtswitch_pend_rt s idx =
     (if idx > tasks_count (sw_ctx s) then Inr (Inl (Inl EINVAL, s))
      else kbind (sw_task (sw_ctx s) idx) (\<lambda>_. Inr (Inr (s\<lparr>sw_ctx := upd_task idx (sleep_rt \<circ> set_rt True) (sw_ctx s)\<rparr>))))"

text \<open>The record of a switch.\<close>

definition note_switch :: "u32 \<Rightarrow> u32 \<Rightarrow> rtswitch_context \<Rightarrow> rtswitch_context" where
  "note_switch i j ctx = ctx\<lparr>switches_count := switches_count ctx + 1, last_from := i, last_to := j\<rparr>"

definition rtswitch_to_rt :: "rtswitch_sys \<Rightarrow> u32 \<Rightarrow> u32 \<Rightarrow> sw_call kres" where
  "rtswitch_to_rt s from_idx to_idx =
     (let ctx = sw_ctx s in
      if from_idx > tasks_count ctx \<or> to_idx > tasks_count ctx then Inr (Inl (Inl EINVAL, s))
      else
        kbind (sw_task ctx from_idx) (\<lambda>_.
        let ctx1 = note_switch from_idx to_idx (upd_task from_idx (set_rt True) ctx)
        in kbind (sw_task ctx1 to_idx) (\<lambda>to.
           let s1 = (if is_rt to then s\<lparr>sw_ctx := upd_task to_idx wakeup_one_sleeper ctx1\<rparr>
                     else s\<lparr>sw_ctx := ctx1, rtswitch_utask := (rtswitch_utask s)(sw_cpu ctx1 := Some to_idx), rtswitch_wake_utask := True\<rparr>)
           in Inr (Inr (s1\<lparr>sw_ctx := upd_task from_idx sleep_rt (sw_ctx s1)\<rparr>)))))"

text \<open>\<open>down_interruptible\<close> on the semaphore of task \<open>idx\<close>: it may not sleep at all.\<close>

definition down_task :: "u32 \<Rightarrow> rtswitch_sys \<Rightarrow> sw_call kres" where
  "down_task idx s =
     kbind (sw_task (sw_ctx s) idx) (\<lambda>t.
     let (sleeps, sm) = sm_down (nrt_synch t); s1 = s\<lparr>sw_ctx := upd_task idx (\<lambda>t. t\<lparr>nrt_synch := sm\<rparr>) (sw_ctx s)\<rparr>
     in Inr (if sleeps then Inr s1 else Inl (woken_nrt False s1, s1)))"

definition rtswitch_pend_nrt :: "rtswitch_sys \<Rightarrow> u32 \<Rightarrow> sw_call kres" where
  "rtswitch_pend_nrt s idx =
     (if idx > tasks_count (sw_ctx s) then Inr (Inl (Inl EINVAL, s))
      else kbind (sw_task (sw_ctx s) idx) (\<lambda>_. down_task idx (s\<lparr>sw_ctx := upd_task idx (set_rt False) (sw_ctx s)\<rparr>)))"

definition rtswitch_to_nrt :: "rtswitch_sys \<Rightarrow> u32 \<Rightarrow> u32 \<Rightarrow> sw_call kres" where
  "rtswitch_to_nrt s from_idx to_idx =
     (let ctx = sw_ctx s in
      if from_idx > tasks_count ctx \<or> to_idx > tasks_count ctx then Inr (Inl (Inl EINVAL, s))
      else
        kbind (sw_task ctx from_idx) (\<lambda>_.
        let ctx1 = note_switch from_idx to_idx (upd_task from_idx (set_rt False) ctx)
        in kbind (sw_task ctx1 to_idx) (\<lambda>to.
           down_task from_idx (s\<lparr>sw_ctx := upd_task to_idx (if is_rt to then wakeup_one_sleeper
             else (\<lambda>t. t\<lparr>nrt_synch := sm_up (nrt_synch t)\<rparr>)) ctx1\<rparr>))))"

text \<open>\<open>mem\<close> is the content of the memory, \<open>None\<close> where there is none.\<close>

definition rtswitch_set_tasks_count :: "rtswitch_context \<Rightarrow> u32 \<Rightarrow> (nat \<Rightarrow> rtswitch_task) option \<Rightarrow> cret \<times> rtswitch_context" where
  "rtswitch_set_tasks_count ctx count mem =
     (if tasks_count ctx = count then (Inr 0, ctx)
      else case mem of
        None \<Rightarrow> (Inl ENOMEM, ctx)
      | Some m \<Rightarrow> (Inr 0, ctx\<lparr>sw_tasks := Some (map m [0..<unat count]), tasks_count := count, next_index := 0\<rparr>))"

definition rtswitch_register_task ::
    "rtswitch_context \<Rightarrow> rttst_swtest_task \<Rightarrow> (cret \<times> rttst_swtest_task \<times> rtswitch_context) kres" where
  "rtswitch_register_task ctx arg =
     (if next_index ctx = tasks_count ctx then Inr (Inl EBUSY, arg, ctx)
      else
        let arg1 = arg\<lparr>st_index := next_index ctx\<rparr>
        in kbind (sw_task ctx (st_index arg1)) (\<lambda>_.
           Inr (Inr 0, arg1, upd_task (st_index arg1) (\<lambda>t. t\<lparr>st_base := arg1, nrt_synch := \<lparr>sm_count = 0, sm_waiters = 0\<rparr>, rt_synch := 0\<rparr>)
             (ctx\<lparr>next_index := next_index ctx + 1\<rparr>))))"

text \<open>
  The search for a task of user space that is to be told about a failed test, from index \<open>i\<close> on. The
  caller suspends itself after each task it has unblocked, with the index it goes on with.
\<close>

function ktask_error_loop :: "u32 \<Rightarrow> rtswitch_sys \<Rightarrow> (u32 option \<times> rtswitch_sys) kres" where
  "ktask_error_loop i s =
     (if i < tasks_count (sw_ctx s) then
        kbind (sw_task (sw_ctx s) i) (\<lambda>t.
        if st_flags (st_base t) AND RTSWITCH_KERNEL \<noteq> 0 then ktask_error_loop (i + 1) s
        else if is_rt t then Inr (Some (i + 1), s\<lparr>sw_ctx := upd_task i wakeup_one_sleeper (sw_ctx s)\<rparr>)
        else Inr (Some (i + 1), s\<lparr>rtswitch_utask := (rtswitch_utask s)(sw_cpu (sw_ctx s) := Some i), rtswitch_wake_utask := True\<rparr>))
      else Inr (None, s))"
  by auto
termination
  by (relation "measure (\<lambda>(i, s). unat (tasks_count (sw_ctx s)) - unat i)") (auto simp: unat_inc word_less_nat_alt)

declare ktask_error_loop.simps [simp del]

definition handle_ktask_error :: "rtswitch_sys \<Rightarrow> u32 \<Rightarrow> (u32 option \<times> rtswitch_sys) kres" where
  "handle_ktask_error s fp_val = ktask_error_loop 0 (s\<lparr>sw_ctx := (sw_ctx s)\<lparr>sw_failed := True, sw_fp_val := fp_val\<rparr>\<rparr>)"

text \<open>
  The task of kernel space: the task it switches to next, one switch, and the test of the floating
  point registers after it was woken (\<open>fp_val\<close> is what \<open>fp_regs_check\<close> returns), which gives the next number
  of the round.
\<close>

definition ktask_next :: "u32 \<Rightarrow> u32 \<Rightarrow> u32 \<Rightarrow> u32" where
  "ktask_next count index to =
     (let to1 = to + 1; to2 = (if to1 = index then to1 + 1 else to1);
          to3 = (if to2 > count - 1 then 0 else to2)
      in if to3 = index then to3 + 1 else to3)"

definition rtswitch_ktask_switch :: "rtswitch_sys \<Rightarrow> u32 \<Rightarrow> u32 \<Rightarrow> (u32 \<times> sw_call) kres" where
  "rtswitch_ktask_switch s index to =
     (let to1 = ktask_next (tasks_count (sw_ctx s)) index to
      in kbind (rtswitch_to_rt s index to1) (\<lambda>r. Inr (to1, r)))"

definition rtswitch_ktask_check ::
    "rtswitch_sys \<Rightarrow> rttst_swtest_task \<Rightarrow> u32 \<Rightarrow> u32 \<Rightarrow> (u32 \<times> u32 option \<times> rtswitch_sys) kres" where
  "rtswitch_ktask_check s base i fp_val =
     (let i1 = (if i + 1 = 4000000 then 0 else i + 1)
      in if st_flags base AND RTTST_SWTEST_USE_FPU \<noteq> 0 \<and> fp_val \<noteq> st_index base + i * 1000
         then kbind (handle_ktask_error s fp_val) (\<lambda>(j, s1). Inr (i1, j, s1))
         else Inr (i1, None, s))"

text \<open>\<open>init_ret\<close> and \<open>start_ret\<close> are the results of \<open>xnpod_init_thread\<close> and \<open>xnpod_start_thread\<close>.\<close>

definition rtswitch_create_ktask ::
    "rtswitch_context \<Rightarrow> rttst_swtest_task \<Rightarrow> cret \<Rightarrow> cret \<Rightarrow> (cret \<times> rttst_swtest_task \<times> rtswitch_context) kres" where
  "rtswitch_create_ktask ctx ptask init_ret start_ret =
     kbind (rtswitch_register_task ctx (ptask\<lparr>st_flags := st_flags ptask OR RTSWITCH_KERNEL\<rparr>)) (\<lambda>(err, p, ctx1).
     if err \<noteq> Inr 0 then Inr (err, p, ctx1)
     else if init_ret = Inr 0 then Inr (start_ret, p, upd_task (st_index p) (\<lambda>t. t\<lparr>st_ktask := True\<rparr>) ctx1)
     else Inr (init_ret, p, upd_task (st_index p) (\<lambda>t. t\<lparr>st_base := (st_base t)\<lparr>st_flags := 0\<rparr>\<rparr>) ctx1))"

section \<open>The device\<close>

definition rtswitch_open :: "rtswitch_context \<Rightarrow> cret \<times> rtswitch_context" where
  "rtswitch_open ctx =
     (Inr 0, ctx\<lparr>sw_tasks := None, tasks_count := 0, next_index := 0, sw_cpu := 0, switches_count := 0, sw_failed := False,
        last_from := - 1, last_to := - 1\<rparr>)"

text \<open>Closing: the indices of the tasks whose thread is deleted, and of those whose synchronisation is destroyed.\<close>

fun close_loop :: "rtswitch_context \<Rightarrow> nat list \<Rightarrow> (nat list \<times> nat list) kres" where
  "close_loop ctx [] = Inr ([], [])"
| "close_loop ctx (i # is) =
     kbind (sw_task ctx (of_nat i)) (\<lambda>t.
     kbind (close_loop ctx is) (\<lambda>(ks, ss). Inr (if st_flags (st_base t) AND RTSWITCH_KERNEL \<noteq> 0 then i # ks else ks, i # ss)))"

definition rtswitch_close :: "rtswitch_context \<Rightarrow> (cret \<times> nat list \<times> nat list \<times> rtswitch_context) kres" where
  "rtswitch_close ctx =
     (if sw_tasks ctx \<noteq> None then
        kbind (close_loop ctx [0..<unat (next_index ctx)]) (\<lambda>(ks, ss). Inr (Inr 0, ks, ss, ctx\<lparr>sw_tasks := None\<rparr>))
      else Inr (Inr 0, [], [], ctx))"

text \<open>The waker of the pending signal, on the processor \<open>cpu\<close>.\<close>

definition rtswitch_utask_waker :: "nat \<Rightarrow> rtswitch_sys \<Rightarrow> rtswitch_sys kres" where
  "rtswitch_utask_waker cpu s =
     (case rtswitch_utask s cpu of
        None \<Rightarrow> Inl NullDeref
      | Some i \<Rightarrow>
          kbind (sw_task (sw_ctx s) i) (\<lambda>_.
          Inr (s\<lparr>sw_ctx := upd_task i (\<lambda>t. t\<lparr>nrt_synch := sm_up (nrt_synch t)\<rparr>) (sw_ctx s), rtswitch_wake_utask := False\<rparr>)))"

datatype swtest_request = SWTEST_SET_TASKS_COUNT u32 | SWTEST_SET_CPU u64 | SWTEST_REGISTER_UTASK rttst_swtest_task
  | SWTEST_CREATE_KTASK rttst_swtest_task | SWTEST_PEND u32 | SWTEST_SWITCH_TO u32 u32 | SWTEST_GET_SWITCHES_COUNT
  | SWTEST_GET_LAST_ERROR | SWTEST_OTHER

text \<open>What a request copies to the caller.\<close>

datatype swtest_reply = NoReply | TaskReply rttst_swtest_task | CountReply u32 | ErrorReply u32 u32 u32

text \<open>
  \<open>user_ok\<close>: the caller's buffer can be accessed; \<open>cpus\<close>: the number of online processors.
\<close>

definition rtswitch_ioctl_nrt ::
    "rtswitch_sys \<Rightarrow> swtest_request \<Rightarrow> bool \<Rightarrow> u64 \<Rightarrow> (nat \<Rightarrow> rtswitch_task) option \<Rightarrow> cret \<Rightarrow> cret \<Rightarrow> (swtest_reply \<times> sw_call) kres" where
  "rtswitch_ioctl_nrt s request user_ok cpus mem init_ret start_ret =
     (let ret = (\<lambda>r ctx. (NoReply, Inl (r, s\<lparr>sw_ctx := ctx\<rparr>)));
          task_ret = (\<lambda>(err, p, ctx). Inr (if err = Inr 0 then TaskReply p else NoReply, Inl (err, s\<lparr>sw_ctx := ctx\<rparr>)))
      in case request of
           SWTEST_SET_TASKS_COUNT count \<Rightarrow>
             (let (r, ctx) = rtswitch_set_tasks_count (sw_ctx s) count mem in Inr (ret r ctx))
         | SWTEST_SET_CPU cpu \<Rightarrow>
             Inr (if cpu > cpus - 1 then ret (Inl EINVAL) (sw_ctx s) else ret (Inr 0) ((sw_ctx s)\<lparr>sw_cpu := unat (ucast cpu :: u32)\<rparr>))
         | SWTEST_REGISTER_UTASK task \<Rightarrow>
             if \<not> user_ok then Inr (ret (Inl EFAULT) (sw_ctx s)) else kbind (rtswitch_register_task (sw_ctx s) task) task_ret
         | SWTEST_CREATE_KTASK task \<Rightarrow>
             if \<not> user_ok then Inr (ret (Inl EFAULT) (sw_ctx s))
             else kbind (rtswitch_create_ktask (sw_ctx s) task init_ret start_ret) task_ret
         | SWTEST_PEND idx \<Rightarrow>
             if \<not> user_ok then Inr (ret (Inl EFAULT) (sw_ctx s)) else kbind (rtswitch_pend_nrt s idx) (\<lambda>r. Inr (NoReply, r))
         | SWTEST_SWITCH_TO i j \<Rightarrow>
             if \<not> user_ok then Inr (ret (Inl EFAULT) (sw_ctx s)) else kbind (rtswitch_to_nrt s i j) (\<lambda>r. Inr (NoReply, r))
         | SWTEST_GET_SWITCHES_COUNT \<Rightarrow>
             Inr (if \<not> user_ok then ret (Inl EFAULT) (sw_ctx s) else (CountReply (switches_count (sw_ctx s)), Inl (Inr 0, s)))
         | SWTEST_GET_LAST_ERROR \<Rightarrow>
             Inr (if \<not> user_ok then ret (Inl EFAULT) (sw_ctx s)
                  else (ErrorReply (last_from (sw_ctx s)) (last_to (sw_ctx s)) (sw_fp_val (sw_ctx s)), Inl (Inr 0, s)))
         | SWTEST_OTHER \<Rightarrow> Inr (ret (Inl ENOTTY) (sw_ctx s)))"

definition rtswitch_ioctl_rt :: "rtswitch_sys \<Rightarrow> swtest_request \<Rightarrow> bool \<Rightarrow> sw_call kres" where
  "rtswitch_ioctl_rt s request user_ok =
     (case request of
        SWTEST_REGISTER_UTASK _ \<Rightarrow> Inr (Inl (Inl ENOSYS, s))
      | SWTEST_CREATE_KTASK _ \<Rightarrow> Inr (Inl (Inl ENOSYS, s))
      | SWTEST_GET_SWITCHES_COUNT \<Rightarrow> Inr (Inl (Inl ENOSYS, s))
      | SWTEST_PEND idx \<Rightarrow> if \<not> user_ok then Inr (Inl (Inl EFAULT, s)) else rtswitch_pend_rt s idx
      | SWTEST_SWITCH_TO i j \<Rightarrow> if \<not> user_ok then Inr (Inl (Inl EFAULT, s)) else rtswitch_to_rt s i j
      | _ \<Rightarrow> Inr (Inl (Inl ENOTTY, s)))"


section \<open>The token\<close>

text \<open>
  A task is parked if it sleeps where its flags say that it is to be woken, and awake if it sleeps
  nowhere. Task \<open>k\<close> has the token if it is the only one awake.
\<close>

definition parked :: "rtswitch_task \<Rightarrow> bool" where
  "parked t \<longleftrightarrow> sm_count (nrt_synch t) = 0 \<and>
     (if is_rt t then rt_synch t = 1 \<and> sm_waiters (nrt_synch t) = 0 else rt_synch t = 0 \<and> sm_waiters (nrt_synch t) = 1)"

definition awake :: "rtswitch_task \<Rightarrow> bool" where
  "awake t \<longleftrightarrow> rt_synch t = 0 \<and> sm_count (nrt_synch t) = 0 \<and> sm_waiters (nrt_synch t) = 0"

definition has_token :: "u32 \<Rightarrow> rtswitch_sys \<Rightarrow> bool" where
  "has_token k s \<longleftrightarrow> \<not> rtswitch_wake_utask s \<and> k < tasks_count (sw_ctx s) \<and>
     (case sw_tasks (sw_ctx s) of
        None \<Rightarrow> False
      | Some ts \<Rightarrow> length ts = unat (tasks_count (sw_ctx s)) \<and>
          (\<forall>i<length ts. if i = unat k then awake (ts ! i) else parked (ts ! i)))"

text \<open>The pending signal is served on the processor of the test.\<close>

definition serve_signal :: "rtswitch_sys \<Rightarrow> rtswitch_sys kres" where
  "serve_signal s = (if rtswitch_wake_utask s then rtswitch_utask_waker (sw_cpu (sw_ctx s)) s else Inr s)"

definition switch_call :: "bool \<Rightarrow> rtswitch_sys \<Rightarrow> u32 \<Rightarrow> u32 \<Rightarrow> sw_call kres" where
  "switch_call rt s i j = (if rt then rtswitch_to_rt s i j else rtswitch_to_nrt s i j)"

lemma is_rt_set: "is_rt (set_rt rt t) = rt"
proof -
  have "(f OR 4) AND 4 = (4 :: u32)" "(f AND NOT 4) AND 4 = (0 :: u32)" for f :: u32
    by (simp_all add: bit_eq_iff) (auto simp: bit_simps)
  then show ?thesis
    by (simp add: is_rt_def set_rt_def RTSWITCH_RT_def)
qed

lemma set_rt_sleep [simp]: "rt_synch (set_rt rt t) = rt_synch t" "nrt_synch (set_rt rt t) = nrt_synch t"
  by (simp_all add: set_rt_def)

lemma is_rt_sync [simp]:
  "is_rt (t\<lparr>rt_synch := n\<rparr>) = is_rt t" "is_rt (t\<lparr>nrt_synch := m\<rparr>) = is_rt t"
  by (simp_all add: is_rt_def)

lemma park_rt: "awake t \<Longrightarrow> parked (sleep_rt (set_rt True t))"
  by (simp add: awake_def parked_def sleep_rt_def is_rt_set)

lemma park_nrt: "awake t \<Longrightarrow> sm_down (nrt_synch (set_rt False t)) = (True, \<lparr>sm_count = 0, sm_waiters = 1\<rparr>)"
  by (cases "nrt_synch t") (simp add: awake_def sm_down_def)

lemma wake_rt: "parked t \<Longrightarrow> is_rt t \<Longrightarrow> awake (wakeup_one_sleeper t)"
  by (simp add: awake_def parked_def wakeup_one_sleeper_def)

lemma wake_nrt: "parked t \<Longrightarrow> \<not> is_rt t \<Longrightarrow> awake (t\<lparr>nrt_synch := sm_up (nrt_synch t)\<rparr>)"
  by (simp add: awake_def parked_def sm_up_def)

lemma upd_task_simps [simp]:
  "tasks_count (upd_task i f ctx) = tasks_count ctx" "sw_cpu (upd_task i f ctx) = sw_cpu ctx"
  "switches_count (upd_task i f ctx) = switches_count ctx" "last_from (upd_task i f ctx) = last_from ctx"
  "last_to (upd_task i f ctx) = last_to ctx" "sw_failed (upd_task i f ctx) = sw_failed ctx"
  "sw_tasks (upd_task i f ctx) = map_option (\<lambda>ts. ts[unat i := f (ts ! unat i)]) (sw_tasks ctx)"
  by (simp_all add: upd_task_def)

lemma note_switch_simps [simp]:
  "tasks_count (note_switch i j ctx) = tasks_count ctx" "sw_cpu (note_switch i j ctx) = sw_cpu ctx"
  "switches_count (note_switch i j ctx) = switches_count ctx + 1" "last_from (note_switch i j ctx) = i"
  "last_to (note_switch i j ctx) = j" "sw_failed (note_switch i j ctx) = sw_failed ctx" "sw_tasks (note_switch i j ctx) = sw_tasks ctx"
  by (simp_all add: note_switch_def)

text \<open>The result of a switch, when its signal has been served: \<open>i\<close> parked in its mode, \<open>j\<close> awake, the rest as before.\<close>

lemma token_update:
  assumes "has_token i s" and "i \<noteq> j" and "j < tasks_count (sw_ctx s)" and "sw_tasks (sw_ctx s) = Some ts"
    and "sw_tasks (sw_ctx s') = Some (ts[unat i := a, unat j := b])" and "parked a" and "awake b"
    and "tasks_count (sw_ctx s') = tasks_count (sw_ctx s)" and "\<not> rtswitch_wake_utask s'"
  shows "has_token j s'"
proof -
  have "unat i \<noteq> unat j"
    using assms(2) word_unat_eq_iff by blast
  then show ?thesis
    using assms by (auto simp: has_token_def nth_list_update word_less_nat_alt)
qed


lemma list_update_around: "i \<noteq> j \<Longrightarrow> xs[i := a, j := b, i := c] = xs[i := c, j := b]"
  by (simp add: list_update_swap)

lemma switch_exact:
  assumes tok: "has_token i s" and ij: "i \<noteq> j" and j: "j < tasks_count (sw_ctx s)" and ts: "sw_tasks (sw_ctx s) = Some ts"
  shows "\<exists>s1 s2 a b. switch_call rt s i j = Inr (Inr s1) \<and> serve_signal s1 = Inr s2 \<and>
    sw_tasks (sw_ctx s2) = Some (ts[unat i := a, unat j := b]) \<and> parked a \<and> is_rt a = rt \<and> awake b \<and>
    tasks_count (sw_ctx s2) = tasks_count (sw_ctx s) \<and> \<not> rtswitch_wake_utask s2 \<and>
    switches_count (sw_ctx s2) = switches_count (sw_ctx s) + 1 \<and> last_from (sw_ctx s2) = i \<and> last_to (sw_ctx s2) = j"
proof -
  have ne: "unat i \<noteq> unat j"
    using ij word_unat_eq_iff by blast
  have i: "i < tasks_count (sw_ctx s)" "\<not> rtswitch_wake_utask s" and len: "length ts = unat (tasks_count (sw_ctx s))"
    using tok by (simp_all add: has_token_def ts)
  have il: "unat i < length ts" "unat j < length ts"
    using i j len by (simp_all add: word_less_nat_alt)
  have aw: "awake (ts ! unat i)" and pk: "parked (ts ! unat j)"
    using tok il ne by (auto simp: has_token_def ts)
  have g: "\<not> (i > tasks_count (sw_ctx s) \<or> j > tasks_count (sw_ctx s))"
    using i(1) j by auto
  let ?a = "if rt then sleep_rt (set_rt True (ts ! unat i)) else (set_rt False (ts ! unat i))\<lparr>nrt_synch := \<lparr>sm_count = 0, sm_waiters = 1\<rparr>\<rparr>"
  let ?b = "if is_rt (ts ! unat j) then wakeup_one_sleeper (ts ! unat j) else (ts ! unat j)\<lparr>nrt_synch := sm_up (nrt_synch (ts ! unat j))\<rparr>"
  have ab: "parked ?a" "is_rt ?a = rt" "awake ?b"
    using park_rt [OF aw] wake_rt [OF pk] wake_nrt [OF pk] aw by (auto simp: parked_def awake_def is_rt_set sleep_rt_def)
  have "\<exists>s1 s2. switch_call rt s i j = Inr (Inr s1) \<and> serve_signal s1 = Inr s2 \<and> sw_tasks (sw_ctx s2) = Some (ts[unat i := ?a, unat j := ?b]) \<and>
    tasks_count (sw_ctx s2) = tasks_count (sw_ctx s) \<and> \<not> rtswitch_wake_utask s2 \<and>
    switches_count (sw_ctx s2) = switches_count (sw_ctx s) + 1 \<and> last_from (sw_ctx s2) = i \<and> last_to (sw_ctx s2) = j"
    using g il ne i(2) park_nrt [OF aw]
    by (cases rt; cases "is_rt (ts ! unat j)")
      (simp_all add: switch_call_def rtswitch_to_rt_def rtswitch_to_nrt_def serve_signal_def rtswitch_utask_waker_def sw_task_def down_task_def
        ts Let_def list_update_around)
  then show ?thesis
    using ab by blast
qed



definition sw_sys0 :: rtswitch_sys where
  "sw_sys0 = \<lparr>sw_ctx = \<lparr>sw_tasks = Some [
       \<lparr>st_base = \<lparr>st_index = 0, st_flags = 0x4\<rparr>, rt_synch = 0, nrt_synch = \<lparr>sm_count = 0, sm_waiters = 0\<rparr>, st_ktask = False\<rparr>,
       \<lparr>st_base = \<lparr>st_index = 1, st_flags = 0xc\<rparr>, rt_synch = 1, nrt_synch = \<lparr>sm_count = 0, sm_waiters = 0\<rparr>, st_ktask = True\<rparr>,
       \<lparr>st_base = \<lparr>st_index = 2, st_flags = 0\<rparr>, rt_synch = 0, nrt_synch = \<lparr>sm_count = 0, sm_waiters = 1\<rparr>, st_ktask = False\<rparr>],
     tasks_count = 3, next_index = 3, sw_cpu = 0, switches_count = 0, sw_failed = False, last_from = 0, last_to = 0, sw_fp_val = 0\<rparr>,
     rtswitch_utask = (\<lambda>_. None), rtswitch_wake_utask = False\<rparr>"


section \<open>The kernel task's rounds\<close>

text \<open>The distance of task \<open>x\<close> from task \<open>d\<close> in the ring of \<open>n\<close> tasks, counted from the task after \<open>d\<close>.\<close>

definition ring_rank :: "nat \<Rightarrow> nat \<Rightarrow> nat \<Rightarrow> nat" where
  "ring_rank n d x = (if x > d then x - d - 1 else x + n - d - 1)"

lemma ktask_next_unat:
  assumes "2 \<le> unat count" and "index < count" and "to < count"
  shows "unat (ktask_next count index to) =
    (let m = (if unat to + 1 = unat index then unat index + 1 else unat to + 1);
         m' = (if m \<ge> unat count then 0 else m) in if m' = unat index then m' + 1 else m')"
proof -
  have c: "unat (count - 1) = unat count - 1"
    using assms(1) unat_sub [of 1 count] by (simp add: word_le_nat_alt)
  have t: "unat (to + 1) = unat to + 1" and x: "unat (index + 1) = unat index + 1"
    using unat_inc assms by blast+
  have e: "to + 1 = index \<longleftrightarrow> unat to + 1 = unat index"
    using t by (simp add: word_unat_eq_iff)
  define m where "m = (if to + 1 = index then to + 1 + 1 else to + 1)"
  have m: "unat m = (if unat to + 1 = unat index then unat index + 1 else unat to + 1)"
  proof (cases "to + 1 = index")
    case True
    then have "m = index + 1"
      by (simp add: m_def)
    then show ?thesis
      using True e x by simp
  next
    case False
    then show ?thesis
      using e t by (simp add: m_def)
  qed
  have "count - 1 < m \<longleftrightarrow> unat count \<le> unat m"
    using assms(1) c by (auto simp: word_less_nat_alt)
  moreover define m' where "m' = (if count - 1 < m then 0 else m)"
  ultimately have m': "unat m' = (if unat count \<le> unat m then 0 else unat m)"
    by simp
  have "unat (if m' = index then m' + 1 else m') = (if unat m' = unat index then unat m' + 1 else unat m')"
    using x word_unat_eq_iff [of m' index] by (cases "m' = index") simp_all
  moreover have "ktask_next count index to = (if m' = index then m' + 1 else m')"
    by (simp only: ktask_next_def Let_def m_def m'_def)
  ultimately show ?thesis
    by (simp only: Let_def m' m)
qed

lemma ktask_next_rank:
  assumes "2 \<le> unat count" and "index < count" and "to < count" and "to \<noteq> index"
  shows "ktask_next count index to < count" and "ktask_next count index to \<noteq> index"
    and "ring_rank (unat count) (unat index) (unat (ktask_next count index to)) =
      (ring_rank (unat count) (unat index) (unat to) + 1) mod (unat count - 1)"
proof -
  have u: "unat index < unat count" "unat to < unat count" "unat to \<noteq> unat index"
    using assms by (auto simp: word_less_nat_alt word_unat_eq_iff)
  note n = ktask_next_unat [OF assms(1-3)]
  have m: "(r + 1) mod (k - 1) = (if r + 1 = k - 1 then 0 else r + 1)" if "r + 1 < (k :: nat)" for r k
    using that by auto
  show "ktask_next count index to < count" "ktask_next count index to \<noteq> index"
    using n u assms(1) by (auto simp: word_less_nat_alt word_unat_eq_iff Let_def split: if_splits)
  show "ring_rank (unat count) (unat index) (unat (ktask_next count index to)) =
      (ring_rank (unat count) (unat index) (unat to) + 1) mod (unat count - 1)"
  proof (subst m)
    show "ring_rank (unat count) (unat index) (unat to) + 1 < unat count"
      using u by (auto simp: ring_rank_def)
    show "ring_rank (unat count) (unat index) (unat (ktask_next count index to)) = (if ring_rank (unat count) (unat index) (unat to) + 1 = unat count - 1
        then 0 else ring_rank (unat count) (unat index) (unat to) + 1)"
      using u assms(1) by (auto simp: n ring_rank_def Let_def)
  qed
qed


lemma ring_rank_inj:
  "x < n \<Longrightarrow> y < n \<Longrightarrow> x \<noteq> d \<Longrightarrow> y \<noteq> d \<Longrightarrow> d < n \<Longrightarrow> ring_rank n d x = ring_rank n d y \<Longrightarrow> x = y"
  by (auto simp: ring_rank_def split: if_splits)

lemma ring_rank_less: "x < n \<Longrightarrow> x \<noteq> d \<Longrightarrow> d < n \<Longrightarrow> ring_rank n d x < n - 1"
  by (auto simp: ring_rank_def)

lemma mod_reach: "b < m \<Longrightarrow> \<exists>k. 0 < k \<and> k \<le> m \<and> (a + k) mod m = b" for a b m :: nat
proof (intro exI conjI)
  assume b: "b < m"
  let ?k = "if a mod m < b then b - a mod m else m + b - a mod m"
  have a: "a mod m < m"
    using b by simp
  show "0 < ?k" "?k \<le> m"
    using a b by (auto simp: not_less trans_less_add1)
  have "(a + ?k) mod m = (a mod m + ?k) mod m"
    by (simp add: mod_add_left_eq)
  also have "\<dots> = b"
  proof (cases "a mod m < b")
    case False
    then have "a mod m + ?k = b + m"
      using a by simp
    then show ?thesis
      using b by simp
  qed (use b in simp)
  finally show "(a + ?k) mod m = b" .
qed

text \<open>
  A kernel task goes round fairly: with at least two tasks it never chooses itself or an index
  without a task, and from any point of its round it reaches every other task within one round.
\<close>

theorem swtest_ktask_fair:
  assumes "2 \<le> unat count" and "index < count" and "to < count" and "to \<noteq> index" and "j < count" and "j \<noteq> index"
  shows "\<exists>k. 0 < k \<and> k < unat count \<and> (ktask_next count index ^^ k) to = j"
proof -
  let ?r = "\<lambda>x. ring_rank (unat count) (unat index) (unat x)"
  have it: "(ktask_next count index ^^ k) to < count \<and> (ktask_next count index ^^ k) to \<noteq> index \<and>
      ?r ((ktask_next count index ^^ k) to) = (?r to + k) mod (unat count - 1)" for k
  proof (induction k)
    case 0
    then show ?case
      using assms(2-4) ring_rank_less [of "unat to" "unat count" "unat index"] word_unat_eq_iff [of to index]
      by (simp add: word_less_nat_alt)
  next
    case (Suc k)
    then show ?case
      using ktask_next_rank [OF assms(1,2), of "(ktask_next count index ^^ k) to"] by (simp add: mod_Suc_eq)
  qed
  have j: "unat j < unat count" "unat j \<noteq> unat index" "unat index < unat count"
    using assms(2,5,6) word_unat_eq_iff [of j index] by (simp_all add: word_less_nat_alt)
  obtain k where k: "0 < k" "k \<le> unat count - 1" "(?r to + k) mod (unat count - 1) = ?r j"
    using mod_reach ring_rank_less [OF j] by blast
  define x where "x = (ktask_next count index ^^ k) to"
  have x: "unat x < unat count" "unat x \<noteq> unat index" "?r x = ?r j"
    using it [of k] k(3) word_unat_eq_iff [of x index] unfolding x_def [symmetric] by (simp_all add: word_less_nat_alt)
  have "unat x = unat j"
    by (rule ring_rank_inj [OF x(1) j(1) x(2) j(2) j(3) x(3)])
  then show ?thesis
    using k assms(1) word_unat_eq_iff [of x j] unfolding x_def by (intro exI [of _ k] conjI) simp_all
qed

theorem swtest_ktask_fair_witness: "\<exists>k. 0 < k \<and> k < unat (4 :: u32) \<and> (ktask_next 4 1 ^^ k) 2 = 0"
  by (rule swtest_ktask_fair) simp_all

section \<open>Indices\<close>

text \<open>
  The index checks are off by one: with a table of \<open>tasks_count\<close> entries an index below it is safe, a larger one is
  refused, and the index \<open>tasks_count\<close> itself reaches past the table. A kernel task that is alone runs
  into it, because the task it chooses after itself is number 1.
\<close>

theorem swtest_index_off_by_one:
  assumes "sw_tasks (sw_ctx s) = Some ts" and "length ts = unat (tasks_count (sw_ctx s))"
  shows "idx < tasks_count (sw_ctx s) \<Longrightarrow> (\<exists>s1. rtswitch_pend_rt s idx = Inr (Inr s1)) \<and> (\<exists>r. rtswitch_pend_nrt s idx = Inr r)"
    and "tasks_count (sw_ctx s) < idx \<Longrightarrow> rtswitch_pend_rt s idx = Inr (Inl (Inl EINVAL, s)) \<and> rtswitch_pend_nrt s idx = Inr (Inl (Inl EINVAL, s))"
    and "rtswitch_pend_rt s (tasks_count (sw_ctx s)) = Inl OutOfBounds" and "rtswitch_pend_nrt s (tasks_count (sw_ctx s)) = Inl OutOfBounds"
    and "tasks_count (sw_ctx s) = 1 \<Longrightarrow> rtswitch_ktask_switch s 0 0 = Inl OutOfBounds"
  using assms
  by (auto simp: rtswitch_pend_rt_def rtswitch_pend_nrt_def down_task_def sw_task_def word_less_nat_alt rtswitch_ktask_switch_def
      ktask_next_def rtswitch_to_rt_def Let_def split: prod.splits)

text \<open>Registering fills the table in order; one registration more is refused.\<close>

theorem swtest_register_exact:
  assumes "sw_tasks ctx = Some ts" and "length ts = unat (tasks_count ctx)" and "next_index ctx \<le> tasks_count ctx"
  shows "\<exists>r arg' ctx'. rtswitch_register_task ctx arg = Inr (r, arg', ctx') \<and>
    (if next_index ctx < tasks_count ctx then r = Inr 0 \<and> st_index arg' = next_index ctx \<and> next_index ctx' = next_index ctx + 1 \<and>
       (\<exists>t. sw_task ctx' (next_index ctx) = Inr t \<and> awake t \<and> st_base t = arg')
     else r = Inl EBUSY \<and> ctx' = ctx)"
  using assms by (auto simp: rtswitch_register_task_def sw_task_def Let_def word_less_nat_alt awake_def upd_task_def word_le_nat_alt word_unat_eq_iff)

end
