(* ===== verification/Test_Module.thy ===== *)
theory Test_Module
  imports Rtdm_Life
begin

text \<open>
  Loading and unloading the test drivers \<open>timerbench.c\<close>, \<open>irqbench.c\<close>, \<open>switchtest.c\<close> and \<open>rtdmtest.c\<close>: each looks for a free name
  and registers its one device, a structure at the address \<open>d\<close>, with the RTDM core. The kernel's answers to the
  attempts are a list; \<open>Inr None\<close> is a loop that has used them up.
\<close>

definition RTDM_MAX_DEVNAME_LEN :: nat where "RTDM_MAX_DEVNAME_LEN = 31"

definition test_name :: "u32 \<Rightarrow> string" where
  "test_name i = take (RTDM_MAX_DEVNAME_LEN - 1)
     (''rttest'' @ (if sint i < 0 then CHR ''-'' # dec_digits (nat (- sint i)) else dec_digits (nat (sint i))))"

text \<open>The field \<open>proc_name\<close> of these devices points to the name.\<close>

definition set_test_name :: "nat \<Rightarrow> u32 \<Rightarrow> ('p, 's) rtdm_sys \<Rightarrow> ('p, 's) rtdm_sys" where
  "set_test_name d i S = upd_rdev d (\<lambda>dev. dev\<lparr>device_name := test_name i, proc_name := Some (test_name i)\<rparr>) S"

fun test_register :: "bool \<Rightarrow> kernel_results list \<Rightarrow> nat \<Rightarrow> u32 \<Rightarrow> ('p, 's) rtdm_sys \<Rightarrow> (cret \<times> u32 \<times> ('p, 's) rtdm_sys) option kres" where
  "test_register debug [] d start_index S = Inr None"
| "test_register debug (k # ks) d start_index S =
     kbind (rtdm_dev_register debug k (set_test_name d start_index S) d) (\<lambda>(err, S1).
     if err = Inl EEXIST then test_register debug ks d (start_index + 1) S1 else Inr (Some (err, start_index + 1, S1)))"

definition timerbench_init where
  "timerbench_init debug ks d start_index S = test_register debug ks d start_index S"

definition timerbench_exit where
  "timerbench_exit d waits S = rtdm_dev_unregister S (Some d) 1000 waits"

text \<open>The third result is the variable \<open>pnp_registered\<close>; \<open>pnp\<close> is whether the kernel accepts the plug-and-play driver.\<close>

definition irqbench_init ::
    "bool \<Rightarrow> kernel_results list \<Rightarrow> bool \<Rightarrow> nat \<Rightarrow> u32 \<Rightarrow> ('p, 's) rtdm_sys \<Rightarrow> (cret \<times> u32 \<times> bool \<times> ('p, 's) rtdm_sys) option kres" where
  "irqbench_init debug ks pnp d start_index S =
     kbind (test_register debug ks d start_index S) (\<lambda>r. Inr (map_option (\<lambda>(err, i, S1). (err, i, err = Inr 0 \<and> pnp, S1)) r))"

definition irqbench_exit ::
    "bool \<Rightarrow> nat \<Rightarrow> (('p, 's) rtdm_sys \<Rightarrow> ('p, 's) rtdm_sys) list \<Rightarrow> ('p, 's) rtdm_sys \<Rightarrow> (bool \<times> ('p, 's) rtdm_sys) option kres" where
  "irqbench_exit pnp_registered d waits S =
     kbind (rtdm_dev_unregister S (Some d) 1000 waits) (\<lambda>r. Inr (map_option (\<lambda>(_, S1). (pnp_registered, S1)) r))"

text \<open>The switch test takes a signal to the non-real-time side first: \<open>nrtsig\<close> is the result, \<open>True\<close> in the state that it is taken.\<close>

definition switchtest_init ::
    "bool \<Rightarrow> kernel_results list \<Rightarrow> cret \<Rightarrow> nat \<Rightarrow> u32 \<Rightarrow> bool \<times> ('p, 's) rtdm_sys \<Rightarrow> (cret \<times> u32 \<times> bool \<times> ('p, 's) rtdm_sys) option kres" where
  "switchtest_init debug ks nrtsig d start_index = (\<lambda>(sig, S).
     if nrtsig \<noteq> Inr 0 then Inr (Some (nrtsig, start_index, sig, S))
     else kbind (test_register debug ks d start_index S) (\<lambda>r. Inr (map_option (\<lambda>(err, i, S1). (err, i, True, S1)) r)))"

definition switchtest_exit ::
    "nat \<Rightarrow> (('p, 's) rtdm_sys \<Rightarrow> ('p, 's) rtdm_sys) list \<Rightarrow> bool \<times> ('p, 's) rtdm_sys \<Rightarrow> (bool \<times> ('p, 's) rtdm_sys) option kres" where
  "switchtest_exit d waits = (\<lambda>(sig, S).
     kbind (rtdm_dev_unregister S (Some d) 1000 waits) (\<lambda>r. Inr (map_option (\<lambda>(_, S1). (False, S1)) r)))"

definition rtdmtest_init ::
    "bool \<Rightarrow> kernel_results list \<Rightarrow> nat \<Rightarrow> u32 \<Rightarrow> ('p, 's) rtdm_sys \<Rightarrow> (cret \<times> u32 \<times> ('p, 's) rtdm_sys) option kres" where
  "rtdmtest_init debug ks d start_index S =
     kbind (test_register debug ks d start_index S) (\<lambda>r. Inr (map_option (\<lambda>(err, i, S1). (if is_err err then err else Inr 0, i, S1)) r))"

section \<open>The loop finds a name\<close>

text \<open>The device of each of these drivers: named, with the handlers the core insists on.\<close>

definition test_device :: "('p, 's) rtdm_device \<Rightarrow> bool" where
  "test_device dev \<longleftrightarrow> struct_version dev = RTDM_DEVICE_STRUCT_VER \<and> device_flags dev AND RTDM_DEVICE_TYPE_MASK = RTDM_NAMED_DEVICE \<and>
     open_nrt dev \<noteq> None \<and> close_nrt (dev_ops dev) \<noteq> None"

lemma default_some [simp]: "default_if_null (Some f) = Some f"
  by (simp add: default_if_null_def)

lemma register_test_device:
  assumes "rdevs S d = Some dev" and "test_device dev"
  shows "\<exists>S' dev'. rtdm_dev_register debug k (set_test_name d i S) d = Inr (chrdev_ret k, S') \<and> rdevs S' d = Some dev' \<and> test_device dev' \<and>
    device_name dev' = test_name i \<and> chrdev_major dev' = chrdev_ret k \<and> dev_refcount dev' = 0 \<and>
    chrdevs S' = (case chrdev_ret k of Inr m \<Rightarrow> (chrdevs S)(m := Some d) | Inl _ \<Rightarrow> chrdevs S)"
proof -
  obtain f g where "open_nrt dev = Some f" "close_nrt (dev_ops dev) = Some g"
    using assms(2) by (auto simp: test_device_def)
  then show ?thesis
    using assms by (auto simp: rtdm_dev_register_def dev_of_def set_test_name_def upd_rdev_def test_device_def default_creators_def
        register_kernel_def default_ops_def Let_def split: sum.splits)
qed

lemma test_register_run:
  assumes "rdevs S d = Some dev" and "test_device dev" and "\<forall>k\<in>set ks. chrdev_ret k = Inl EEXIST" and "chrdev_ret k \<noteq> Inl EEXIST"
  shows "\<exists>S' dev'. test_register debug (ks @ k # ks') d i S = Inr (Some (chrdev_ret k, i + of_nat (length ks) + 1, S')) \<and>
    rdevs S' d = Some dev' \<and> test_device dev' \<and> device_name dev' = test_name (i + of_nat (length ks)) \<and> chrdev_major dev' = chrdev_ret k \<and>
    dev_refcount dev' = 0 \<and> chrdevs S' = (case chrdev_ret k of Inr m \<Rightarrow> (chrdevs S)(m := Some d) | Inl _ \<Rightarrow> chrdevs S)"
  using assms
proof (induction ks arbitrary: i S dev)
  case Nil
  then show ?case
    using register_test_device [OF Nil.prems(1,2), of debug k i] by auto
next
  case (Cons l ks)
  obtain S1 dev1 where 1: "rtdm_dev_register debug l (set_test_name d i S) d = Inr (Inl EEXIST, S1)" "rdevs S1 d = Some dev1" "test_device dev1"
      "chrdevs S1 = chrdevs S"
    using register_test_device [OF Cons.prems(1,2), of debug l i] Cons.prems(3) by auto
  show ?case
    using Cons.IH [OF 1(2,3), of "i + 1", unfolded 1(4)] Cons.prems(3,4) 1(1) by (simp add: ac_simps)
qed

text \<open>
  Loading a test driver tries the names from the first index on and returns with the first answer of the
  kernel other than \<open>-EEXIST\<close>; if that is a device number, unloading the driver gives it back.
\<close>

theorem test_load_unload:
  assumes "rdevs S d = Some dev" and "test_device dev" and "\<forall>k\<in>set ks. chrdev_ret k = Inl EEXIST" and "chrdev_ret k \<noteq> Inl EEXIST"
  shows "\<exists>S'. timerbench_init debug (ks @ k # ks') d i S = Inr (Some (chrdev_ret k, i + of_nat (length ks) + 1, S')) \<and>
    (\<forall>m. chrdev_ret k = Inr m \<and> chrdevs S m = None \<longrightarrow> chrdevs S' m = Some d \<and>
      (\<exists>S''. timerbench_exit d waits S' = Inr (Some (Inr 0, S'')) \<and> chrdevs S'' = chrdevs S))"
proof -
  obtain S' dev' where S': "test_register debug (ks @ k # ks') d i S = Inr (Some (chrdev_ret k, i + of_nat (length ks) + 1, S'))"
      "rdevs S' d = Some dev'" "test_device dev'" "chrdev_major dev' = chrdev_ret k" "dev_refcount dev' = 0"
      "chrdevs S' = (case chrdev_ret k of Inr m \<Rightarrow> (chrdevs S)(m := Some d) | Inl _ \<Rightarrow> chrdevs S)"
    using test_register_run [OF assms, of debug ks' i] by blast
  have "timerbench_exit d waits S' = Inr (Some (Inr 0, unregister_kernel S' d dev'))"
    unfolding timerbench_exit_def rtdm_dev_unregister_def
    using S'(2,3,5) by (subst unregister_loop.simps) (simp add: dev_of_def test_device_def rtdm_flags)
  moreover have "chrdevs (unregister_kernel S' d dev') = chrdevs S" if "chrdev_ret k = Inr m" "chrdevs S m = None" for m
    using S'(3,4,6) that by (simp add: unregister_kernel_def test_device_def fun_upd_idem)
  ultimately show ?thesis
    using S'(1,6) by (auto simp: timerbench_init_def)
qed

text \<open>
  A successful registration returns the major number the kernel chose, which is not zero. So the
  plug-and-play driver of the interrupt benchmark is never registered.
\<close>

theorem irqbench_never_pnp:
  assumes "rdevs S d = Some dev" and "test_device dev" and "\<forall>k\<in>set ks. chrdev_ret k = Inl EEXIST" and "chrdev_ret k = Inr m" and "m \<noteq> 0"
  shows "\<exists>i' S'. irqbench_init debug (ks @ k # ks') pnp d i S = Inr (Some (Inr m, i', False, S'))"
  using test_register_run [of S d dev ks k debug ks' i] assms by (auto simp: irqbench_init_def)

text \<open>If the registration fails, the signal of the switch test is not given back.\<close>

theorem switchtest_keeps_signal:
  assumes "rdevs S d = Some dev" and "test_device dev" and "\<forall>k\<in>set ks. chrdev_ret k = Inl EEXIST" and "chrdev_ret k = Inl e" and "e \<noteq> EEXIST"
  shows "\<exists>i' S'. switchtest_init debug (ks @ k # ks') (Inr 0) d i (False, S) = Inr (Some (Inl e, i', True, S'))"
  using test_register_run [of S d dev ks k debug ks' i] assms by (auto simp: switchtest_init_def)

section \<open>An example\<close>

text \<open>The device of theory \<open>Rtdm_Life\<close>; the first name is taken, then the kernel gives the number 254.\<close>

definition answer :: "cret \<Rightarrow> kernel_results" where
  "answer r = \<lparr>chrdev_ret = r, proto_ret = Inr 0, sock_ret = Inr 0\<rparr>"

definition bare_sys :: "(unit, unit) rtdm_sys" where
  "bare_sys = \<lparr>rdevs = [0 \<mapsto> life_dev], ctxs = (\<lambda>_. None), chrdevs = (\<lambda>_. None), protos = (\<lambda>_. False), families = (\<lambda>_. None), drv = ()\<rparr>"

theorem test_load_unload_witness:
  "\<exists>S'. timerbench_init True [answer (Inl EEXIST), answer (Inr 254)] 0 0 bare_sys = Inr (Some (Inr 254, 2, S')) \<and> chrdevs S' 254 = Some 0 \<and>
    (\<exists>S''. timerbench_exit 0 [] S' = Inr (Some (Inr 0, S'')) \<and> chrdevs S'' = chrdevs bare_sys)"
proof -
  have "rdevs bare_sys 0 = Some life_dev" "test_device life_dev"
    by (simp_all add: bare_sys_def test_device_def life_dev_def life_ops_def rtdm_flags RTDM_DEVICE_STRUCT_VER_def)
  from test_load_unload [OF this, of "[answer (Inl EEXIST)]" "answer (Inr 254)" True "[]" 0 "[]"] show ?thesis
    by (simp add: answer_def bare_sys_def)
qed

end
