(* ===== verification/Test_Rtdm.thy ===== *)
theory Test_Rtdm
  imports Rtdm_Task Rtdm_Sync Test_Module
begin

text \<open>
  The driver \<open>rtdmtest.c\<close>, which calls the services of RTDM on behalf of a user program: a semaphore, an event and a mutex per
  context, and one task for all. Its module functions that only register the device are in theory \<open>Test_Module\<close>.
  While a request sleeps, the other activities of the system act on the object it sleeps on; what they do is an
  argument, a function of the turn of the loop.
\<close>

section \<open>State and requests\<close>

record rttst_rtdmtest_config =
  cfg_seqcount :: u32
  cfg_delay_jiffies :: int
  cfg_timeout :: int
  cfg_priority :: int

record 'm rtdmtest_context =
  ct_event :: rtdm_event
  ct_sem :: rtdm_sem
  ct_mutex :: "'m rtdm_mutex"
  ct_nrtsig :: bool
  rtt_task :: tasks
  task_period :: int
  rtdm_lock_count :: u32

datatype rtdmtest_request =
    MUTEX_TEST | MUTEX_TIMEDTEST | MUTEX_DESTROY | MUTEX_GETSTAT
  | EVENT_SIGNAL | EVENT_WAIT | EVENT_TIMEDWAIT | EVENT_DESTROY
  | SEM_UP | SEM_DOWN | SEM_TIMEDDOWN | SEM_DESTROY
  | NRTSIG_PEND | TASK_CREATE | TASK_DESTROY | TASK_SET_PRIO | OtherRequest

record 'm rtt_env =
  en_sem :: "nat \<Rightarrow> sem_wakeup \<times> sem_wakeup list"
  en_event :: "nat \<Rightarrow> bool \<times> event_wakeup option"
  en_mutex :: "nat \<Rightarrow> 'm rtdm_mutex \<Rightarrow> 'm rtdm_mutex"
  en_held :: "nat \<Rightarrow> 'm rtdm_mutex \<Rightarrow> 'm rtdm_mutex"
  en_pid :: "errno + nat"
  en_accepts :: "int \<Rightarrow> bool"
  en_waits :: "(tasks \<Rightarrow> tasks) list"

text \<open>The task: the results of its sleeps, each given by the clock and the tests of its loop.\<close>

fun rtdmtest_task :: "int \<Rightarrow> int \<Rightarrow> (int \<times> (int \<times> bool) list) list \<Rightarrow> cret option" where
  "rtdmtest_task period wakeup [] = None"
| "rtdmtest_task period wakeup ((now, ws) # sleeps) =
     (case rtdm_task_sleep_until (wakeup + period) now ws of
        None \<Rightarrow> None
      | Some ret \<Rightarrow> if ret \<noteq> Inr 0 then Some ret else rtdmtest_task period (wakeup + period) sleeps)"

definition rtdmtest_open :: "'m rt_mutex_ops \<Rightarrow> 'm rtdmtest_context \<Rightarrow> cret \<times> 'm rtdmtest_context" where
  "rtdmtest_open ops c =
     (Inr 0, c\<lparr>ct_event := rtdm_event_init (ct_event c) False, ct_sem := rtdm_sem_init (ct_sem c) 0, rtdm_lock_count := 0,
        ct_mutex := rtdm_mutex_init ops (ct_mutex c), ct_nrtsig := False\<rparr>)"

definition rtdmtest_close :: "'m rt_mutex_ops \<Rightarrow> 'm rtdmtest_context \<Rightarrow> cret \<times> 'm rtdmtest_context" where
  "rtdmtest_close ops c =
     (Inr 0, c\<lparr>ct_event := rtdm_event_destroy (ct_event c), ct_sem := rtdm_sem_destroy (ct_sem c), ct_mutex := rtdm_mutex_destroy ops (ct_mutex c)\<rparr>)"

section \<open>The loops\<close>

text \<open>\<open>n\<close> turns, of which \<open>i\<close> are done; a result other than 0 ends the loop.\<close>

fun seq_loop :: "(nat \<Rightarrow> 'x \<Rightarrow> (cret \<times> 'x) option) \<Rightarrow> nat \<Rightarrow> nat \<Rightarrow> 'x \<Rightarrow> (cret \<times> 'x) option" where
  "seq_loop turn 0 i x = Some (Inr 0, x)"
| "seq_loop turn (Suc n) i x =
     (case turn i x of
        None \<Rightarrow> None
      | Some (err, x1) \<Rightarrow> if err \<noteq> Inr 0 then Some (err, x1) else seq_loop turn n (Suc i) x1)"

definition sem_test_turn :: "'m rtt_env \<Rightarrow> rttst_rtdmtest_config \<Rightarrow> nat \<Rightarrow> 'm rtdmtest_context \<Rightarrow> (cret \<times> 'm rtdmtest_context) option" where
  "sem_test_turn e cfg i c =
     map_option (\<lambda>(err, s). (err, c\<lparr>ct_sem := s\<rparr>)) (rtdm_sem_timeddown (ct_sem c) (cfg_timeout cfg) (fst (en_sem e i)) (snd (en_sem e i)))"

definition event_turn :: "'m rtt_env \<Rightarrow> rttst_rtdmtest_config \<Rightarrow> nat \<Rightarrow> 'm rtdmtest_context \<Rightarrow> (cret \<times> 'm rtdmtest_context) option" where
  "event_turn e cfg i c =
     map_option (\<lambda>(err, ev). (err, c\<lparr>ct_event := ev\<rparr>)) (rtdm_event_timedwait (ct_event c) (cfg_timeout cfg) (fst (en_event e i)) (snd (en_event e i)))"

text \<open>Holding the mutex, the timed test sleeps for some jiffies.\<close>

definition mutex_timedturn ::
    "'m rt_mutex_ops \<Rightarrow> 'm rtt_env \<Rightarrow> rttst_rtdmtest_config \<Rightarrow> nat \<Rightarrow> 'm rtdmtest_context \<Rightarrow> (cret \<times> 'm rtdmtest_context) option" where
  "mutex_timedturn ops e cfg i c =
     (let (err, m) = rtdm_mutex_timedlock ops (en_mutex e i) (ct_mutex c) (cfg_timeout cfg) in
      if err \<noteq> Inr 0 then Some (err, c\<lparr>ct_mutex := m\<rparr>)
      else
        let m1 = (if cfg_delay_jiffies cfg \<noteq> 0 then en_held e i m else m)
        in Some (Inr 0, c\<lparr>rtdm_lock_count := rtdm_lock_count c + 1, ct_mutex := rtdm_mutex_unlock ops m1\<rparr>))"

definition mutex_turn :: "'m rt_mutex_ops \<Rightarrow> 'm rtt_env \<Rightarrow> nat \<Rightarrow> 'm rtdmtest_context \<Rightarrow> (cret \<times> 'm rtdmtest_context) option" where
  "mutex_turn ops e i c =
     (let (err, m) = rtdm_mutex_lock ops (en_mutex e i) (ct_mutex c) in
      if err \<noteq> Inr 0 then Some (err, c\<lparr>ct_mutex := m\<rparr>)
      else Some (Inr 0, c\<lparr>rtdm_lock_count := rtdm_lock_count c + 1, ct_mutex := rtdm_mutex_unlock ops m\<rparr>))"

section \<open>The dispatcher\<close>

text \<open>
  \<open>arg\<close> is the configuration that is read, \<open>None\<close> if copying from the user fails. The second result is the count that is
  written back.
\<close>

definition seq_config :: "rttst_rtdmtest_config \<Rightarrow> rttst_rtdmtest_config" where
  "seq_config cfg = (if cfg_seqcount cfg = 0 then cfg\<lparr>cfg_seqcount := 1\<rparr> else cfg)"

definition rtdmtest_sequence ::
    "'m rt_mutex_ops \<Rightarrow> 'm rtt_env \<Rightarrow> rtdmtest_request \<Rightarrow> rttst_rtdmtest_config \<Rightarrow> 'm rtdmtest_context \<Rightarrow> (cret \<times> 'm rtdmtest_context) option" where
  "rtdmtest_sequence ops e request cfg0 c =
     (let cfg = seq_config cfg0; n = unat (cfg_seqcount cfg) in
      if request = SEM_TIMEDDOWN then seq_loop (sem_test_turn e cfg) n 0 c
      else if request = EVENT_TIMEDWAIT then seq_loop (event_turn e cfg) n 0 c
      else if request = MUTEX_TIMEDTEST then seq_loop (mutex_timedturn ops e cfg) n 0 c
      else seq_loop (mutex_turn ops e) n 0 c)"

text \<open>Creating the task: the whole of \<open>rtdm_task_init\<close> with the prologue of the thread, whose result is not looked at.\<close>

definition rtt_task_create :: "'m rtt_env \<Rightarrow> int \<Rightarrow> tasks \<Rightarrow> tasks" where
  "rtt_task_create e priority T =
     (case rtdm_task_init priority (en_pid e) T of
        (Inl _, T1) \<Rightarrow> T1
      | (Inr _, T1) \<Rightarrow> (case en_pid e of Inr p \<Rightarrow> task_init_end (rtdm_task (en_accepts e) p T1) | Inl _ \<Rightarrow> T1))"

definition rtdmtest_ioctl ::
    "'m rt_mutex_ops \<Rightarrow> 'm rtt_env \<Rightarrow> bool \<Rightarrow> rtdmtest_request \<Rightarrow> rttst_rtdmtest_config option \<Rightarrow> 'm rtdmtest_context
      \<Rightarrow> (cret \<times> u32 option \<times> 'm rtdmtest_context) option" where
  "rtdmtest_ioctl ops e copy_out request arg c =
     (case request of
        OtherRequest \<Rightarrow> Some (Inl ENOTTY, None, c)
      | SEM_DOWN \<Rightarrow> map_option (\<lambda>(err, s). (err, None, c\<lparr>ct_sem := s\<rparr>)) (rtdm_sem_down (ct_sem c) (fst (en_sem e 0)) (snd (en_sem e 0)))
      | SEM_UP \<Rightarrow> Some (Inr 0, None, c\<lparr>ct_sem := rtdm_sem_up (ct_sem c)\<rparr>)
      | SEM_DESTROY \<Rightarrow> Some (Inr 0, None, c\<lparr>ct_sem := rtdm_sem_destroy (ct_sem c)\<rparr>)
      | EVENT_WAIT \<Rightarrow>
          map_option (\<lambda>(err, ev). (err, None, c\<lparr>ct_event := ev\<rparr>)) (rtdm_event_wait (ct_event c) (fst (en_event e 0)) (snd (en_event e 0)))
      | EVENT_SIGNAL \<Rightarrow> Some (Inr 0, None, c\<lparr>ct_event := rtdm_event_signal (ct_event c)\<rparr>)
      | EVENT_DESTROY \<Rightarrow> Some (Inr 0, None, c\<lparr>ct_event := rtdm_event_destroy (ct_event c)\<rparr>)
      | MUTEX_DESTROY \<Rightarrow> Some (Inr 0, None, c\<lparr>ct_mutex := rtdm_mutex_destroy ops (ct_mutex c)\<rparr>)
      | MUTEX_GETSTAT \<Rightarrow> Some (if copy_out then (Inr 0, Some (rtdm_lock_count c), c) else (Inl EFAULT, None, c))
      | NRTSIG_PEND \<Rightarrow> Some (Inr 0, None, c\<lparr>ct_nrtsig := True\<rparr>)
      | TASK_DESTROY \<Rightarrow>
          map_option (\<lambda>T. (Inr 0, None, c\<lparr>rtt_task := T\<rparr>)) (rtdm_task_join_nrt (en_waits e) (rtdm_task_destroy (rtt_task c)))
      | TASK_CREATE \<Rightarrow>
          (case arg of
             None \<Rightarrow> Some (Inl EFAULT, None, c)
           | Some cfg \<Rightarrow> Some (Inr 0, None, c\<lparr>task_period := cfg_timeout cfg, rtt_task := rtt_task_create e (cfg_priority cfg) (rtt_task c)\<rparr>))
      | TASK_SET_PRIO \<Rightarrow>
          (case arg of
             None \<Rightarrow> Some (Inl EFAULT, None, c)
           | Some cfg \<Rightarrow> Some (Inr 0, None, c\<lparr>rtt_task := rtdm_task_set_priority (en_accepts e) (cfg_priority cfg) (rtt_task c)\<rparr>))
      | _ \<Rightarrow>
          (case arg of
             None \<Rightarrow> Some (Inl EFAULT, None, c)
           | Some cfg \<Rightarrow> map_option (\<lambda>(err, c1). (err, None, c1)) (rtdmtest_sequence ops e request cfg c)))"

definition rtdmtest_exit ::
    "'m rtt_env \<Rightarrow> nat \<Rightarrow> (('p, 's) rtdm_sys \<Rightarrow> ('p, 's) rtdm_sys) list \<Rightarrow> tasks \<Rightarrow> ('p, 's) rtdm_sys \<Rightarrow> (tasks \<times> ('p, 's) rtdm_sys) option kres" where
  "rtdmtest_exit e d waits T S =
     (case rtdm_task_join_nrt (en_waits e) (rtdm_task_destroy T) of
        None \<Rightarrow> Inr None
      | Some T1 \<Rightarrow> kbind (rtdm_dev_unregister S (Some d) 1000 waits) (\<lambda>r. Inr (map_option (\<lambda>(_, S1). (T1, S1)) r)))"

section \<open>What the requests do\<close>

text \<open>A loop all of whose turns succeed.\<close>

lemma seq_loop_ok:
  assumes "\<And>i x. I (Suc i) x \<Longrightarrow> \<exists>x'. turn (n - Suc i) x = Some (Inr 0, x') \<and> I i x'" and "I k x" and "k \<le> n"
  shows "\<exists>x'. seq_loop turn k (n - k) x = Some (Inr 0, x') \<and> I 0 x'"
  using assms(2,3)
proof (induction k arbitrary: x)
  case (Suc k)
  obtain x1 where x1: "turn (n - Suc k) x = Some (Inr 0, x1)" "I k x1"
    using assms(1) [OF Suc.prems(1)] by blast
  then show ?case
    using Suc.IH [OF x1(2)] Suc.prems(2) by (simp add: Suc_diff_Suc)
qed simp

lemma timeddown_available: "0 < sem_count s \<Longrightarrow> rtdm_sem_timeddown s t w ws = Some (Inr 0, s\<lparr>sem_count := sem_count s - 1\<rparr>)"
  by (simp add: rtdm_sem_timeddown_def atomic_dec_return_def)

text \<open>
  A request for \<open>n\<close> units of the semaphore, of which at least \<open>n\<close> are there, takes just these without
  sleeping, whatever the others would do.
\<close>

theorem rtdmtest_sem_takes:
  assumes "cfg_seqcount cfg \<noteq> 0" and "int (unat (cfg_seqcount cfg)) \<le> sem_count (ct_sem c)"
  shows "\<exists>c'. rtdmtest_ioctl ops e out SEM_TIMEDDOWN (Some cfg) c = Some (Inr 0, None, c') \<and>
    c' = c\<lparr>ct_sem := (ct_sem c)\<lparr>sem_count := sem_count (ct_sem c) - int (unat (cfg_seqcount cfg))\<rparr>\<rparr>"
proof -
  let ?n = "unat (cfg_seqcount cfg)"
  let ?inv = "\<lambda>i x. x = c\<lparr>ct_sem := (ct_sem c)\<lparr>sem_count := sem_count (ct_sem c) - int ?n + int i\<rparr>\<rparr>"
  have turn: "\<exists>x'. sem_test_turn e cfg (?n - Suc i) x = Some (Inr 0, x') \<and> ?inv i x'" if "?inv (Suc i) x" for i x
    using that assms(2) by (simp add: sem_test_turn_def timeddown_available)
  have "?inv ?n c"
    by simp
  from seq_loop_ok [of ?inv "sem_test_turn e cfg" ?n, OF turn this] have "\<exists>x'. seq_loop (sem_test_turn e cfg) ?n 0 c = Some (Inr 0, x') \<and> ?inv 0 x'"
    by simp
  then show ?thesis
    using assms(1) by (auto simp: rtdmtest_ioctl_def rtdmtest_sequence_def seq_config_def)
qed

text \<open>
  The mutex test with nobody else about, on a kernel mutex that unlocking brings back to the state before
  locking: every turn locks and unlocks, and is counted.
\<close>

theorem rtdmtest_mutex_counts:
  assumes "cfg_seqcount cfg \<noteq> 0" and "\<not> mx_destroy (ct_mutex c)" and "\<forall>i. en_mutex e i = id" and "\<forall>l. rt_mutex_unlock ops (rt_mutex_lock ops l) = l"
  shows "rtdmtest_ioctl ops e out MUTEX_TEST (Some cfg) c = Some (Inr 0, None, c\<lparr>rtdm_lock_count := rtdm_lock_count c + cfg_seqcount cfg\<rparr>)"
proof -
  let ?n = "unat (cfg_seqcount cfg)"
  let ?inv = "\<lambda>i x. x = c\<lparr>rtdm_lock_count := rtdm_lock_count c + cfg_seqcount cfg - of_nat i\<rparr>"
  have turn: "\<exists>x'. mutex_turn ops e (?n - Suc i) x = Some (Inr 0, x') \<and> ?inv i x'" if "?inv (Suc i) x" for i x
    using that assms(2-4) by (simp add: mutex_turn_def rtdm_mutex_lock_def rtdm_mutex_unlock_def Let_def algebra_simps)
  have "?inv ?n c"
    by simp
  from seq_loop_ok [of ?inv "mutex_turn ops e" ?n, OF turn this] have "\<exists>x'. seq_loop (mutex_turn ops e) ?n 0 c = Some (Inr 0, x') \<and> ?inv 0 x'"
    by simp
  then show ?thesis
    using assms(1) by (auto simp: rtdmtest_ioctl_def rtdmtest_sequence_def seq_config_def)
qed

text \<open>A signal ends the task, as destroying it relies on.\<close>

theorem rtdmtest_task_ends: "rtdmtest_task period wakeup ((now, (clock, True) # ws) # sleeps) = Some (Inl EINTR)"
  by (simp add: rtdm_task_sleep_until_def rtdm_task_sleep_timer_def)

text \<open>A request to create a task succeeds even when there is none: the result of \<open>rtdm_task_init\<close> is dropped.\<close>

theorem rtdmtest_create_hides_error:
  assumes "cfg_priority cfg < 0 \<or> 100 < cfg_priority cfg"
  shows "rtdmtest_ioctl ops e out TASK_CREATE (Some cfg) c = Some (Inr 0, None, c\<lparr>task_period := cfg_timeout cfg\<rparr>)"
  using assms by (auto simp: rtdmtest_ioctl_def rtt_task_create_def rtdm_task_init_def RTDM_TASK_LOWEST_PRIORITY_def
      RTDM_TASK_HIGHEST_PRIORITY_def MAX_RT_PRIO_def)

text \<open>
  The context is closed by destroying its objects. A request on a closed context does not sleep on the semaphore, but as
  long as units are left it is still granted one: the fast path does not look at the mark.
\<close>

theorem rtdmtest_closed_sem:
  assumes "snd (rtdmtest_close ops c) = c1"
  shows "rtdmtest_ioctl ops e out SEM_DOWN arg c1 = Some (if 0 < sem_count (ct_sem c1) then Inr 0 else Inl EIDRM, None,
    c1\<lparr>ct_sem := (ct_sem c1)\<lparr>sem_count := sem_count (ct_sem c1) - 1\<rparr>\<rparr>)"
proof -
  have "sem_destroy (ct_sem c1)"
    using assms by (auto simp: rtdmtest_close_def rtdm_sem_destroy_def)
  then show ?thesis
    by (auto simp: rtdmtest_ioctl_def rtdm_sem_down_def atomic_dec_return_def rtdm_sem_down_slow_def)
qed

section \<open>An example\<close>

definition lone_env :: "nat \<Rightarrow> bool rtt_env" where
  "lone_env p = \<lparr>en_sem = (\<lambda>_. (quiet, [])), en_event = (\<lambda>_. (False, None)), en_mutex = (\<lambda>_. id), en_held = (\<lambda>_. id), en_pid = Inr p,
     en_accepts = (\<lambda>k. 1 \<le> k \<and> k \<le> 99), en_waits = [rtdm_task_leave 7]\<rparr>"

definition rtt_config :: rttst_rtdmtest_config where
  "rtt_config = \<lparr>cfg_seqcount = 2, cfg_delay_jiffies = 0, cfg_timeout = 1000, cfg_priority = 50\<rparr>"

definition flag_mutex :: "bool rt_mutex_ops" where
  "flag_mutex = \<lparr>rt_mutex_init = False, rt_mutex_lock = (\<lambda>_. True), rt_mutex_unlock = (\<lambda>_. False), rt_mutex_trylock = (\<lambda>l. (\<not> l, True)),
     rt_mutex_timed_lock = (\<lambda>_. (Inr 0, True)), rt_mutex_lock_interruptible = (\<lambda>_. (Inr 0, True)), rt_mutex_is_locked = (\<lambda>l. l)\<rparr>"

definition rtt_context :: "int \<Rightarrow> bool rtdmtest_context" where
  "rtt_context v = \<lparr>ct_event = \<lparr>ev_pending = False, ev_destroy = False\<rparr>, ct_sem = \<lparr>sem_destroy = False, sem_count = v, sem_sleepers = 0\<rparr>,
     ct_mutex = \<lparr>mx_destroy = False, mx_lock = False\<rparr>, ct_nrtsig = False, rtt_task = no_tasks, task_period = 0, rtdm_lock_count = 0\<rparr>"

theorem rtdmtest_sem_takes_witness:
  "\<exists>c'. rtdmtest_ioctl flag_mutex (lone_env 7) True SEM_TIMEDDOWN (Some rtt_config) (rtt_context 3) = Some (Inr 0, None, c') \<and> sem_count (ct_sem c') = 1"
  using rtdmtest_sem_takes [of rtt_config "rtt_context 3" flag_mutex "lone_env 7" True] by (simp add: rtt_config_def rtt_context_def)

text \<open>
  The driver creates a second task over the first one. Destroying it then returns although a thread runs, which
  nothing stops any more.
\<close>

theorem rtdmtest_task_lost:
  "\<exists>c1 c2 c3. rtdmtest_ioctl flag_mutex (lone_env 7) True TASK_CREATE (Some rtt_config) (rtt_context 0) = Some (Inr 0, None, c1) \<and>
    rtdmtest_ioctl flag_mutex (lone_env 8) True TASK_CREATE (Some rtt_config) c1 = Some (Inr 0, None, c2) \<and>
    rtdmtest_ioctl flag_mutex (lone_env 8) True TASK_DESTROY None c2 = Some (Inr 0, None, c3) \<and> thr (rtt_task c3) 8 = Running"
  by (simp add: rtdmtest_ioctl_def rtt_task_create_def lone_env_def rtt_config_def rtt_context_def task_run_defs rtdm_task_join_nrt.simps)

end
