(* ===== verification/Spec2Isabelle.thy ===== *)
theory Spec2Isabelle
  imports Rtdm_Sync Rtdm_Task Can_Virt Can_Mscan_Wire Can_Proto Can_Pci Can_Dongle Can_Regs Ser_Examples Ser_Init
    Test_Bench Test_Irq Test_Switch Test_Rtdm
begin

text \<open>
  \<^bold>\<open>RTDM-native: the Real-Time Driver Model on native Linux, with its CAN, serial and test drivers.\<close>

  \<^bold>\<open>The program.\<close> The RTDM core (\<open>skins/rtdm/native\<close>) lets drivers register devices and forwards the system calls on
  character devices and sockets to their handlers; its driver library and the inline functions of
  \<open>rtdm_driver_native.h\<close> are semaphores, events, mutexes and tasks. RT-Socket-CAN (\<open>drivers/can\<close>) is a protocol driver on top
  of it: sockets with reception filters, devices, a raw protocol, and below it the drivers of the virtual bus,
  of the SJA1000 (behind ISA, memory mapped, PCI and parallel port boards) and of the MSCAN. The serial driver
  (\<open>drivers/serial/16550A.c\<close>) and the test drivers (\<open>drivers/testing\<close>) are RTDM drivers of their own.

  \<^bold>\<open>Conventions.\<close> Structures are records, addresses natural numbers into a function that is the memory, indices and
  counters words of the width of the C type where they can wrap. A C function that returns an error code has a
  result of type \<open>cret\<close> (\<open>Inl e\<close> for \<open>-e\<close>); a function that may follow a bad pointer, leave an array, divide
  by zero or free twice has a result of type \<open>kres\<close> whose left side is the fault. Code outside the repository is an
  argument: the hardware behind register accesses, the answers of the kernel's services, and what the rest of
  the system does while a call sleeps or polls. A call that is still asleep has the result \<open>None\<close>. Sections under
  a lock are atomic; what can interleave is written as an inductive step relation, and its invariants are shown with
  the locale \<open>inductive_invariant\<close> of \<open>Prelude\<close>.

  \<^bold>\<open>Foundations.\<close> \<open>Prelude\<close>: error codes, faults, byte memory, decimal numbers, reachability. \<open>Ring\<close>: the locale
  \<open>pow2_ring\<close> for the three ring buffers, interpreted on the receive ring of a CAN socket and on both rings of the UART.
  \<open>Chain\<close>: linked lists through an array, for the reception lists.

  \<^bold>\<open>The RTDM core.\<close> \<open>Rtdm_Core\<close> has the state and the functions of \<open>device.c\<close>, \<open>core.c\<close> and \<open>internal.h\<close>
  (\<open>rtdm_dev_register\<close>, \<open>rtdm_dev_unregister\<close>, \<open>rtdm_open\<close>, \<open>rtdm_socket_lx\<close>, the release functions and the calls).
  \<open>Rtdm_Life\<close> shows that in every reachable state a call on an open descriptor reaches a handler of a device that is still
  registered, and that a failed open pins the device. \<open>Rtdm_Sync\<close> has semaphores, events and mutexes with their slow
  paths; the locale \<open>counting_semaphore\<close> is what a client relies on, \<open>sem_field\<close> the same for a semaphore in
  a larger state, and a semaphore never grants more than it was given in any interleaving. \<open>Rtdm_Task\<close> has tasks and
  their threads, and \<open>__rtdm_init\<close>: joining returns only when no thread is left.

  \<^bold>\<open>CAN: sockets and protocol.\<close> \<open>Can_Types\<close> (data, from \<open>rtcan.h\<close>, \<open>rtcan_dev.h\<close>, \<open>rtcan_socket.h\<close>), \<open>Can_Data\<close> (delivery and
  message functions of \<open>rtcan_raw.c\<close>), \<open>Can_Queue\<close> (the ring as a queue of messages), \<open>Can_Dev\<close> (\<open>rtcan_dev.c\<close>), \<open>Can_Filter\<close>
  (\<open>rtcan_raw_filter.c\<close>; locale \<open>filter_table\<close>), \<open>Can_Bind\<close> (\<open>rtcan_socket.c\<close> and the control path of \<open>rtcan_raw.c\<close>), \<open>Can_Delivery\<close> and
  \<open>Can_Receive\<close> (what reaches which socket), \<open>Can_Ioctl\<close> (\<open>rtcan_raw_dev.c\<close>; locale \<open>can_controller\<close>), \<open>Can_Proto\<close> (the protocol as a device
  of the RTDM core). The lists of filters are exactly those of the bound sockets, a received frame is queued once
  for every filter that accepts it, receiving is first in first out, and a session through the core leaves no trace.

  \<^bold>\<open>CAN: drivers.\<close> \<open>Can_Virt\<close> (\<open>rtcan_virt.c\<close>), \<open>Can_Wire\<close> (what the controllers share), \<open>Can_Sja1000\<close>, \<open>Can_Sja_Wire\<close> and \<open>Can_Sja_Modes\<close>
  (\<open>rtcan_sja1000.c\<close>), \<open>Can_Mscan\<close> and \<open>Can_Mscan_Wire\<close> (\<open>rtcan_mscan.c\<close>): all three interpret \<open>can_controller\<close>, so a device request changes the
  configuration exactly when it succeeds. A frame written to the transmit registers of one chip and read from the
  receive registers of another is the same frame; the interrupt handlers return.

  \<^bold>\<open>CAN: boards.\<close> \<open>Can_Boards\<close> (\<open>rtcan_isa.c\<close>, \<open>rtcan_mem.c\<close>; locale \<open>board_driver\<close>), \<open>Can_Pci\<close> (\<open>rtcan_peak_pci.c\<close>, \<open>rtcan_ixxat_pci.c\<close>), \<open>Can_Dongle\<close>
  (\<open>rtcan_peak_dng.c\<close>). What the kernel has granted is a multiset of resources: the memory mapped driver and the PEAK card with
  two channels give back what they took on every path, the dongle's nibbles are put together to the register's
  value, and the ISA, IXXAT and single channel PEAK drivers are shown to leak, unmap twice or follow a null pointer.

  \<^bold>\<open>CAN: proc files and module.\<close> \<open>Can_Proc\<close> (the read functions of \<open>rtcan_module.c\<close> with their buffers and the macros of
  \<open>rtcan_internal.h\<close>), \<open>Can_Module\<close> (entries, \<open>rtcan_init\<close>, \<open>rtcan_exit\<close>), \<open>Can_Regs\<close> (the register dumps of both controllers). The list of
  devices stays in the buffer of the caller, the list of sockets overruns an array on the stack.

  \<^bold>\<open>Serial.\<close> \<open>Ser_Uart\<close> has the whole driver over a chip given by its register accesses, \<open>Ser_Stream\<close> and \<open>Ser_Driver\<close> reads and
  writes as streams, \<open>Ser_Link\<close> two connected ports, \<open>Ser_Line\<close> the line configuration, \<open>Ser_Safety\<close> the invariant of all
  interleavings, \<open>Ser_Init\<close> the module on the RTDM core, \<open>Ser_Examples\<close> the witnesses.

  \<^bold>\<open>Test drivers.\<close> \<open>Test_Timer\<close> and \<open>Test_Bench\<close> (\<open>timerbench.c\<close>: the statistics are those of the samples), \<open>Test_Irq\<close> (\<open>irqbench.c\<close>: resources),
  \<open>Test_Switch\<close> (\<open>switchtest.c\<close>: one task awake at a time), \<open>Test_Rtdm\<close> (\<open>rtdmtest.c\<close>: the requests over \<open>Rtdm_Sync\<close> and \<open>Rtdm_Task\<close>), \<open>Test_Module\<close> (module
  init and exit of all four on the RTDM core).

  \<^bold>\<open>Bounds and fuel.\<close> The walks along the reception lists have as fuel the number of receiver entries of a device
  (\<open>RTCAN_MAX_RECEIVERS\<close>), which is enough because the lists are shown to be without repetition. The waits of the MSCAN for an
  acknowledgement and the interrupt loops have no bound in the code: their fuel is an argument, exhaustion is the
  fault \<open>Diverges\<close>, and the theorems say when enough fuel gives a result. Loops that poll or sleep take the list
  of what happens meanwhile. The configuration is that of the Kconfig defaults: 4 CAN devices, 4 ISA and memory mapped
  boards, 16 filters per device, rings of the sizes in the headers.

  \<^bold>\<open>Not modelled.\<close> User-space wrappers and examples (\<open>src/examples\<close>, \<open>wrappers_native.h\<close>), which only call the system. Inline
  functions that forward to one function of the kernel (spin locks, timers, memory, copying, \<open>printk\<close>). The tables of PCI
  and plug-and-play identifiers, which are data for the kernel's matching. The variants for other kernels and for
  Xenomai that the native build does not compile. Scheduling priorities and real time itself: a step relation
  has no clock but the ones that are arguments.
\<close>

end
